(* ===== verification/Prelude.thy ===== *)
theory Prelude
  imports Complex_Main "HOL-Library.AList"
begin

text \<open>
  What every component of the model shares.

  \<^item> Python's exceptions as the datatype \<open>exc\<close>; an operation that may raise returns
    \<open>exc + 'a\<close>, \<open>Inl\<close> for the raise and \<open>Inr\<close> for the value.
  \<^item> JSON-like values (\<open>dict[str, Any]\<close>) as the datatype \<open>json\<close>; a Python dict keeps
    insertion order, so it is an association list: \<open>d[k] = v\<close> is \<open>AList.update\<close> (in
    place for a present key, at the end for a new one), \<open>d.get(k)\<close> is \<open>map_of\<close>.
  \<^item> The two sources of nondeterminism of the program, the wall clock and \<open>uuid.uuid4()\<close>,
    as a record \<open>world\<close> of two streams and two positions; every read of the clock and every
    drawn identifier advances it, in the order in which the code makes the calls.
  \<^item> Lists of records searched and updated by an identifier field, as the code does with
    \<open>for x in xs: if x.id == key\<close>.
\<close>

subsection \<open>Exceptions and values\<close>

datatype exc =
    ValueError string
  | KeyError string
  | TypeError string
  | RuntimeError string
  | OverflowError string
  | PermissionError string
  | IntegrityError string
  | AsyncContextError string
  | UserException string string  \<comment> \<open>class name and message of an exception of caller code\<close>

type_synonym 'a res = "exc + 'a"

text \<open>The values that \<open>json.loads\<close> gives to \<open>Infinity\<close>, \<open>-Infinity\<close> and \<open>NaN\<close>.\<close>

datatype nonfinite = PosInf | NegInf | NotANumber

datatype json =
    JNull
  | JBool bool
  | JInt int
  | JFloat rat  \<comment> \<open>the exact value of a finite double\<close>
  | JNonFinite nonfinite
  | JStr string
  | JList "json list"
  | JObj "(string \<times> json) list"

type_synonym dict = "(string \<times> json) list"

definition dict_merge :: "('k \<times> 'v) list \<Rightarrow> ('k \<times> 'v) list \<Rightarrow> ('k \<times> 'v) list" where
  "dict_merge d1 d2 = fold (\<lambda>(k, v). AList.update k v) d2 d1"  \<comment> \<open>\<open>{**d1, **d2}\<close>\<close>

definition dict_str :: "string \<Rightarrow> dict \<Rightarrow> string" where
  "dict_str k d = (case map_of d k of Some (JStr x) \<Rightarrow> x | _ \<Rightarrow> '''')"

definition dict_int :: "string \<Rightarrow> dict \<Rightarrow> int" where
  "dict_int k d = (case map_of d k of Some (JInt n) \<Rightarrow> n | _ \<Rightarrow> 0)"

lemma dict_merge_Nil [simp]: "dict_merge d [] = d"
  by (simp add: dict_merge_def)

lemma dict_merge_Cons [simp]: "dict_merge d ((k, v) # e) = dict_merge (AList.update k v d) e"
  by (simp add: dict_merge_def)

lemma map_of_dict_merge: "map_of (dict_merge d e) = map_of d ++ map_of (rev e)"
  by (induction e arbitrary: d rule: rev_induct)
     (auto simp: dict_merge_def AList.update_conv')

lemma update_new_key: "k \<notin> fst ` set al \<Longrightarrow> AList.update k v al = al @ [(k, v)]"
  by (induction al) auto

lemma map_of_rev_distinct:
  assumes "distinct (map fst e)"
  shows "map_of (rev e) = map_of e"
proof
  fix k
  have "map_of (rev e) k = Some v \<longleftrightarrow> map_of e k = Some v" for v
    using assms by (simp add: map_of_eq_Some_iff rev_map [symmetric])
  then show "map_of (rev e) k = map_of e k" by (metis not_Some_eq)
qed

text \<open>A dict literal has distinct keys, and so has every merge and update of one.\<close>

lemma distinct_dict_merge: "distinct (map fst d) \<Longrightarrow> distinct (map fst (dict_merge d e))"
  by (induction e arbitrary: d) (auto simp: dict_merge_def intro: AList.distinct_update)

lemma dict_str_merge:
  assumes "distinct (map fst e)" and "map_of e k = Some (JStr x)"
  shows "dict_str k (dict_merge d e) = x"
  using assms by (simp add: dict_str_def map_of_dict_merge map_of_rev_distinct)

subsection \<open>Decimal rendering of integers (Python's \<open>str(int)\<close>)\<close>

fun nat_digits :: "nat \<Rightarrow> string" where
  "nat_digits n = (if n < 10 then [char_of (48 + n)] else nat_digits (n div 10) @ [char_of (48 + n mod 10)])"

declare nat_digits.simps [simp del]

definition str_int :: "int \<Rightarrow> string" where
  "str_int i = (if i < 0 then ''-'' @ nat_digits (nat (- i)) else nat_digits (nat i))"

subsection \<open>Python's \<open>repr\<close> and \<open>str\<close>\<close>

definition hex_digit :: "nat \<Rightarrow> char" where
  "hex_digit n = (if n < 10 then char_of (48 + n) else char_of (87 + n))"

text \<open>\<open>repr\<close> of a string of ASCII characters.\<close>

definition repr_char :: "char \<Rightarrow> char \<Rightarrow> string" where
  "repr_char q c =
     (if c = q \<or> c = CHR 0x5C then [CHR 0x5C, c]
      else if c = CHR 0x0A then [CHR 0x5C, CHR ''n'']
      else if c = CHR 0x0D then [CHR 0x5C, CHR ''r'']
      else if c = CHR 0x09 then [CHR 0x5C, CHR ''t'']
      else if of_char c < (32::nat) \<or> of_char c = (127::nat)
      then [CHR 0x5C, CHR ''x'', hex_digit (of_char c div 16), hex_digit (of_char c mod 16)]
      else [c])"

definition py_repr :: "string \<Rightarrow> string" where
  "py_repr x = (let q = (if CHR 0x27 \<in> set x \<and> CHR 0x22 \<notin> set x then CHR 0x22 else CHR 0x27)
     in [q] @ concat (map (repr_char q) x) @ [q])"

fun joined :: "string \<Rightarrow> string list \<Rightarrow> string" where
  "joined sep [] = []"
| "joined sep [x] = x"
| "joined sep (x # y # xs) = x @ sep @ joined sep (y # xs)"

definition py_repr_list :: "string list \<Rightarrow> string" where
  "py_repr_list xs = ''['' @ joined '', '' (map py_repr xs) @ '']''"

text \<open>\<open>type(err).__name__\<close> and \<open>str(err)\<close>; \<open>str\<close> of a \<open>KeyError\<close> is the \<open>repr\<close> of its argument.\<close>

fun exc_name :: "exc \<Rightarrow> string" where
  "exc_name (ValueError m) = ''ValueError''"
| "exc_name (KeyError m) = ''KeyError''"
| "exc_name (TypeError m) = ''TypeError''"
| "exc_name (RuntimeError m) = ''RuntimeError''"
| "exc_name (OverflowError m) = ''OverflowError''"
| "exc_name (PermissionError m) = ''PermissionError''"
| "exc_name (IntegrityError m) = ''IntegrityError''"
| "exc_name (AsyncContextError m) = ''AsyncContextError''"
| "exc_name (UserException c m) = c"

fun exc_str :: "exc \<Rightarrow> string" where
  "exc_str (ValueError m) = m"
| "exc_str (KeyError m) = py_repr m"
| "exc_str (TypeError m) = m"
| "exc_str (RuntimeError m) = m"
| "exc_str (OverflowError m) = m"
| "exc_str (PermissionError m) = m"
| "exc_str (IntegrityError m) = m"
| "exc_str (AsyncContextError m) = m"
| "exc_str (UserException c m) = m"

subsection \<open>Stripping white space (ASCII \<open>str.strip\<close>)\<close>

definition is_space :: "char \<Rightarrow> bool" where
  "is_space c \<longleftrightarrow> of_char c \<in> {9::nat, 10, 11, 12, 13, 28, 29, 30, 31, 32}"

definition strip :: "string \<Rightarrow> string" where
  "strip x = rev (dropWhile is_space (rev (dropWhile is_space x)))"

lemma strip_Nil [simp]: "strip [] = []"
  by (simp add: strip_def)

subsection \<open>The world: clock and identifiers\<close>

record world =
  clock :: "nat \<Rightarrow> string"      \<comment> \<open>the ISO text of the \<open>n\<close>-th clock reading\<close>
  uuids :: "nat \<Rightarrow> string"      \<comment> \<open>the hex text of the \<open>n\<close>-th drawn uuid4\<close>
  ticks :: nat                   \<comment> \<open>clock readings made so far\<close>
  drawn :: nat                   \<comment> \<open>uuids drawn so far\<close>

definition now :: "world \<Rightarrow> string \<times> world" where
  "now w = (clock w (ticks w), w\<lparr>ticks := Suc (ticks w)\<rparr>)"

definition uuid_hex :: "nat \<Rightarrow> world \<Rightarrow> string \<times> world" where
  "uuid_hex k w = (take k (uuids w (drawn w)), w\<lparr>drawn := Suc (drawn w)\<rparr>)"

text \<open>
  Identifiers drawn so far do not collide in their first \<open>k\<close> characters, and are non-empty:
  what the code relies on when it uses \<open>uuid4().hex[:k]\<close> as a key. It is a condition on
  finitely many draws, so it can hold.
\<close>

definition ids_fresh :: "nat \<Rightarrow> world \<Rightarrow> bool" where
  "ids_fresh k w \<longleftrightarrow>
     distinct (map (\<lambda>i. take k (uuids w i)) [0..<drawn w]) \<and>
     (\<forall>i \<in> set [0..<drawn w]. take k (uuids w i) \<noteq> [])"

definition drawn_ids :: "nat \<Rightarrow> world \<Rightarrow> string set" where
  "drawn_ids k w = (\<lambda>i. take k (uuids w i)) ` {0..<drawn w}"

text \<open>\<open>w'\<close> is a later world than \<open>w\<close>: the same streams, read further.\<close>

definition later :: "world \<Rightarrow> world \<Rightarrow> bool" where
  "later w w' \<longleftrightarrow> clock w' = clock w \<and> uuids w' = uuids w \<and> ticks w \<le> ticks w' \<and> drawn w \<le> drawn w'"

lemma later_refl [simp]: "later w w"
  by (simp add: later_def)

lemma later_trans: "later w w' \<Longrightarrow> later w' w'' \<Longrightarrow> later w w''"
  by (auto simp: later_def)

lemma now_later [simp]: "later w (snd (now w))"
  by (simp add: later_def now_def)

lemma uuid_later [simp]: "later w (snd (uuid_hex k w))"
  by (simp add: later_def uuid_hex_def)

lemma ids_fresh_later:
  assumes "later w w'" and "ids_fresh k w'"
  shows "ids_fresh k w"
proof -
  from assms(1) have sub: "{0..<drawn w} \<subseteq> {0..<drawn w'}" and eq: "uuids w' = uuids w"
    by (auto simp: later_def)
  from assms(2) eq have "inj_on (\<lambda>i. take k (uuids w i)) {0..<drawn w'}"
    and "\<forall>i \<in> {0..<drawn w'}. take k (uuids w i) \<noteq> []"
    by (simp_all add: ids_fresh_def distinct_map)
  with sub show ?thesis
    unfolding ids_fresh_def distinct_map by (metis distinct_upt inj_on_subset set_upt subsetD)
qed

lemma drawn_ids_later: "later w w' \<Longrightarrow> drawn_ids k w \<subseteq> drawn_ids k w'"
  by (auto simp: later_def drawn_ids_def)

lemma drawn_ids_now [simp]: "drawn_ids k (snd (now w)) = drawn_ids k w"
  by (simp add: now_def drawn_ids_def)

lemma drawn_ids_uuid: "drawn_ids k (snd (uuid_hex j w)) = insert (take k (uuids w (drawn w))) (drawn_ids k w)"
  by (auto simp: uuid_hex_def drawn_ids_def atLeast0LessThan lessThan_Suc)

lemma fresh_draw:
  assumes "ids_fresh k (snd (uuid_hex j w))"
  shows "take k (uuids w (drawn w)) \<notin> drawn_ids k w" and "take k (uuids w (drawn w)) \<noteq> []"
  using assms by (auto simp: ids_fresh_def uuid_hex_def drawn_ids_def)

text \<open>A concrete world for the witnesses: identifiers and clock readings that all differ.\<close>

definition demo_world :: world where
  "demo_world = \<lparr>clock = (\<lambda>n. ''t'' @ replicate n (CHR ''i'')),
     uuids = (\<lambda>n. replicate n (CHR ''b'') @ replicate 32 (CHR ''a'')), ticks = 0, drawn = 0\<rparr>"

subsection \<open>Lists searched by an identifier\<close>

fun find_by :: "('a \<Rightarrow> 'k) \<Rightarrow> 'k \<Rightarrow> 'a list \<Rightarrow> 'a option" where
  "find_by f k [] = None"
| "find_by f k (x # xs) = (if f x = k then Some x else find_by f k xs)"

fun update_by :: "('a \<Rightarrow> 'k) \<Rightarrow> 'k \<Rightarrow> ('a \<Rightarrow> 'a) \<Rightarrow> 'a list \<Rightarrow> 'a list" where
  "update_by f k g [] = []"
| "update_by f k g (x # xs) = (if f x = k then g x # xs else x # update_by f k g xs)"

lemma find_by_None [simp]: "find_by f k xs = None \<longleftrightarrow> k \<notin> f ` set xs"
  by (induction xs) auto

lemma find_by_SomeD: "find_by f k xs = Some x \<Longrightarrow> x \<in> set xs \<and> f x = k"
  by (induction xs) (auto split: if_splits)

lemma find_by_append:
  "find_by f k (xs @ ys) = (case find_by f k xs of Some x \<Rightarrow> Some x | None \<Rightarrow> find_by f k ys)"
  by (induction xs) auto

lemma find_by_distinct: "distinct (map f xs) \<Longrightarrow> x \<in> set xs \<Longrightarrow> find_by f (f x) xs = Some x"
  by (induction xs) (auto simp: image_iff)

lemma update_by_absent [simp]: "k \<notin> f ` set xs \<Longrightarrow> update_by f k g xs = xs"
  by (induction xs) auto

lemma length_update_by [simp]: "length (update_by f k g xs) = length xs"
  by (induction xs) auto

text \<open>An update that keeps a projection leaves the list of projections alone.\<close>

lemma map_update_by_keep: "(\<And>x. h (g x) = h x) \<Longrightarrow> map h (update_by f k g xs) = map h xs"
  by (induction xs) auto

lemma map_update_by_commute:
  "(\<And>x. f' (h x) = f x) \<Longrightarrow> (\<And>x. h (g x) = g' (h x)) \<Longrightarrow>
   map h (update_by f k g xs) = update_by f' k g' (map h xs)"
  by (induction xs) auto

lemma find_by_update_by:
  "(\<And>x. f (g x) = f x) \<Longrightarrow>
   find_by f k' (update_by f k g xs) = (if k' = k then map_option g (find_by f k xs) else find_by f k' xs)"
  by (induction xs) auto

lemma set_update_by: "set (update_by f k g xs) \<subseteq> set xs \<union> g ` set xs"
  by (induction xs) auto

lemma update_by_all:
  assumes "\<And>x. P x \<Longrightarrow> P (g x)" and "\<forall>x \<in> set xs. P x"
  shows "\<forall>x \<in> set (update_by f k g xs). P x"
  using assms(2) by (induction xs) (auto intro: assms(1))

lemma nth_update_by:
  "i < length xs \<Longrightarrow> update_by f k g xs ! i = xs ! i \<or> update_by f k g xs ! i = g (xs ! i)"
proof (induction xs arbitrary: i)
  case Nil
  then show ?case by simp
next
  case (Cons x xs)
  then show ?case by (cases i) auto
qed

end
