(* ===== verification/Transition.thy ===== *)
theory Transition
  imports Prelude
begin

text \<open>
  The interfaces that several stateful components implement: a transition system with an
  inductive invariant, a life cycle with absorbing states, and an aggregate whose event log
  determines its state. Each is a locale; every component interprets it on its own
  definitions and takes its run-level theorems from the interpretation.
\<close>

inductive reach :: "('s \<Rightarrow> bool) \<Rightarrow> ('s \<Rightarrow> 's \<Rightarrow> bool) \<Rightarrow> 's \<Rightarrow> bool"
  for start :: "'s \<Rightarrow> bool" and step :: "'s \<Rightarrow> 's \<Rightarrow> bool" where
  reach_start: "start s \<Longrightarrow> reach start step s"
| reach_step: "reach start step s \<Longrightarrow> step s s' \<Longrightarrow> reach start step s'"

text \<open>
  The invariant may rest on a condition \<open>env\<close> of the environment (fresh identifiers, say)
  that holds of a state only if it held of all the states before it.
\<close>

locale invariant_system =
  fixes start :: "'s \<Rightarrow> bool"
    and step :: "'s \<Rightarrow> 's \<Rightarrow> bool"
    and env :: "'s \<Rightarrow> bool"
    and inv :: "'s \<Rightarrow> bool"
  assumes inv_start: "start s \<Longrightarrow> env s \<Longrightarrow> inv s"
    and env_back: "step s s' \<Longrightarrow> env s' \<Longrightarrow> env s"
    and inv_step: "inv s \<Longrightarrow> env s' \<Longrightarrow> step s s' \<Longrightarrow> inv s'"
begin

lemma reach_inv: "reach start step s \<Longrightarrow> env s \<Longrightarrow> inv s"
proof (induction rule: reach.induct)
  case (reach_start s)
  then show ?case by (rule inv_start)
next
  case (reach_step s s')
  from reach_step.hyps(2) reach_step.prems have "env s" by (rule env_back)
  then have "inv s" by (rule reach_step.IH)
  then show ?case using reach_step.prems reach_step.hyps(2) by (rule inv_step)
qed

end

text \<open>A life cycle: once the status is terminal, no step changes it.\<close>

locale lifecycle =
  fixes step :: "'s \<Rightarrow> 's \<Rightarrow> bool"
    and status :: "'s \<Rightarrow> 'st"
    and terminal :: "'st \<Rightarrow> bool"
  assumes step_terminal: "terminal (status s) \<Longrightarrow> step s s' \<Longrightarrow> status s' = status s"
begin

lemma terminal_forever: "step\<^sup>*\<^sup>* s s' \<Longrightarrow> terminal (status s) \<Longrightarrow> status s' = status s"
  by (induction rule: rtranclp_induct) (simp, metis step_terminal)

end

text \<open>
  Event sourcing. \<open>accounts elog app view s s'\<close>: the log of \<open>s'\<close> extends that of \<open>s\<close>, and
  applying just the new events to the view of \<open>s\<close> gives the view of \<open>s'\<close>.
\<close>

definition accounts :: "('s \<Rightarrow> 'e list) \<Rightarrow> ('e \<Rightarrow> 'v \<Rightarrow> 'v) \<Rightarrow> ('s \<Rightarrow> 'v) \<Rightarrow> 's \<Rightarrow> 's \<Rightarrow> bool" where
  "accounts elog app view s s' \<longleftrightarrow>
     (\<exists>es. elog s' = elog s @ es \<and> fold app es (view s) = view s')"

lemma accounts_refl [simp]: "accounts elog app view s s"
  by (simp add: accounts_def)

lemma accounts_trans:
  "accounts elog app view s s' \<Longrightarrow> accounts elog app view s' s'' \<Longrightarrow> accounts elog app view s s''"
  unfolding accounts_def by (metis (no_types, lifting) append_assoc comp_apply fold_append)

lemma accounts_one:
  assumes "elog s' = elog s @ [e]" and "app e (view s) = view s'"
  shows "accounts elog app view s s'"
  unfolding accounts_def by (rule exI [of _ "[e]"]) (simp add: assms)

text \<open>An aggregate each of whose steps is accounted for by the events it records.\<close>

locale event_sourced =
  fixes start :: "'s \<Rightarrow> bool"
    and step :: "'s \<Rightarrow> 's \<Rightarrow> bool"
    and elog :: "'s \<Rightarrow> 'e list"
    and apply_event :: "'e \<Rightarrow> 'v \<Rightarrow> 'v"
    and view0 :: 'v
    and view :: "'s \<Rightarrow> 'v"
  assumes start_replay: "start s \<Longrightarrow> fold apply_event (elog s) view0 = view s"
    and step_accounts: "step s s' \<Longrightarrow> accounts elog apply_event view s s'"
begin

lemma steps_account: "step\<^sup>*\<^sup>* s s' \<Longrightarrow> accounts elog apply_event view s s'"
  by (induction rule: rtranclp_induct) (simp, metis accounts_trans step_accounts)

lemma replay: "reach start step s \<Longrightarrow> fold apply_event (elog s) view0 = view s"
proof (induction rule: reach.induct)
  case (reach_start s)
  then show ?case by (rule start_replay)
next
  case (reach_step s s')
  from step_accounts [OF reach_step.hyps(2)] reach_step.IH show ?case
    by (auto simp: accounts_def)
qed

text \<open>A view can be brought up to date from any earlier one with the events recorded since.\<close>

lemma catch_up:
  assumes "step\<^sup>*\<^sup>* s s'"
  shows "view s' = fold apply_event (drop (length (elog s)) (elog s')) (view s)"
  using steps_account [OF assms] by (auto simp: accounts_def)

end

end
