(* ===== verification/Session.thy ===== *)
theory Session
  imports Transition
begin

text \<open>
  The session aggregate of \<^verbatim>\<open>session/types.py\<close>: turns, branches, life cycle and the event log.
  Each method is a function from its arguments, the session and the world to an exception or
  the new session and world. Every \<open>datetime.now\<close> and \<open>uuid4\<close> call of the code is a read
  of the world, in the code's order (pydantic evaluates default factories in field order).
\<close>

subsection \<open>Data\<close>

datatype session_status = SesActive | SesPaused | SesCompleted | SesFailed | SesCanceled

fun session_status_value :: "session_status \<Rightarrow> string" where
  "session_status_value SesActive = ''active''"
| "session_status_value SesPaused = ''paused''"
| "session_status_value SesCompleted = ''completed''"
| "session_status_value SesFailed = ''failed''"
| "session_status_value SesCanceled = ''canceled''"

datatype turn_outcome =
  TurnPending | TurnDone | TurnInterrupted | TurnFailed | TurnBudgetExhausted

datatype session_event_type =
    SessionCreated | SessionPaused | SessionResumed | SessionCompleted | SessionFailed
  | SessionCanceled | TurnSubmitted | TurnCompletedEv | TurnInterruptedEv | TurnFailedEv
  | BranchCreated | BranchSwitched | BranchSummarized

record session_event =
  event_id :: string
  event_type :: session_event_type
  event_timestamp :: string
  event_payload :: dict

record turn =
  turn_id :: string
  turn_index :: int
  turn_prompt :: string
  turn_role :: string
  parent_turn_id :: string
  turn_branch :: string
  turn_label :: string
  turn_response :: string
  turn_outcome :: turn_outcome
  turn_error :: string
  turn_tokens :: int
  turn_started_at :: string
  turn_completed_at :: string

record branch =
  branch_id :: string
  branch_parent :: string
  branch_label :: string
  branch_summary :: string
  branch_created_at :: string

record session =
  session_id :: string
  ses_goal :: string
  ses_status :: session_status
  ses_summary :: string
  ses_metadata :: dict
  active_branch_id :: string
  active_turn_id :: string
  branches :: "branch list"
  turns :: "turn list"
  ses_events :: "session_event list"
  ses_created_at :: string
  ses_updated_at :: string

definition turn_succeeded :: "turn \<Rightarrow> bool" where
  "turn_succeeded t \<longleftrightarrow> turn_outcome t = TurnDone"

subsection \<open>Internal helpers\<close>

definition session_touch :: "session \<Rightarrow> world \<Rightarrow> session \<times> world" where
  "session_touch s w = (let (ts, w1) = now w in (s\<lparr>ses_updated_at := ts\<rparr>, w1))"

definition session_emit :: "session_event_type \<Rightarrow> dict \<Rightarrow> session \<Rightarrow> world \<Rightarrow> session \<times> world" where
  "session_emit ty payload s w =
     (let (eid, w1) = uuid_hex 12 w; (ts, w2) = now w1;
          e = \<lparr>event_id = eid, event_type = ty, event_timestamp = ts,
               event_payload = dict_merge [(''session_id'', JStr (session_id s))] payload\<rparr>
      in (s\<lparr>ses_events := ses_events s @ [e]\<rparr>, w2))"

text \<open>\<open>self._touch()\<close> followed by \<open>self._emit(...)\<close>, the tail of every mutating method.\<close>

definition touch_emit :: "session_event_type \<Rightarrow> dict \<Rightarrow> session \<Rightarrow> world \<Rightarrow> session \<times> world" where
  "touch_emit ty payload s w = (let (s1, w1) = session_touch s w in session_emit ty payload s1 w1)"

definition get_turn :: "string \<Rightarrow> session \<Rightarrow> turn res" where
  "get_turn tid s = (case find_by turn_id tid (turns s) of
       Some t \<Rightarrow> Inr t
     | None \<Rightarrow> Inl (KeyError (''Turn '' @ tid @ '' not found in session '' @ session_id s)))"

definition get_branch :: "string \<Rightarrow> session \<Rightarrow> branch res" where
  "get_branch bid s = (case find_by branch_id bid (branches s) of
       Some b \<Rightarrow> Inr b
     | None \<Rightarrow> Inl (KeyError (''Branch '' @ bid @ '' not found in session '' @ session_id s)))"

definition branch_leaf_turn_id :: "string \<Rightarrow> session \<Rightarrow> string res" where
  "branch_leaf_turn_id bid s = (case get_branch bid s of
       Inl e \<Rightarrow> Inl e
     | Inr b \<Rightarrow> Inr (case find_by turn_branch bid (rev (turns s)) of
           Some t \<Rightarrow> turn_id t
         | None \<Rightarrow> branch_parent b))"

definition require_status :: "session_status \<Rightarrow> string \<Rightarrow> session \<Rightarrow> unit res" where
  "require_status expected action s =
     (if ses_status s \<noteq> expected
      then Inl (ValueError (''Cannot '' @ action @ '' session from status='' @ session_status_value (ses_status s)))
      else Inr ())"

definition ses_terminal :: "session_status \<Rightarrow> bool" where
  "ses_terminal st \<longleftrightarrow> st \<in> {SesCompleted, SesFailed, SesCanceled}"

definition require_not_terminal :: "string \<Rightarrow> session \<Rightarrow> unit res" where
  "require_not_terminal action s =
     (if ses_terminal (ses_status s)
      then Inl (ValueError (''Cannot '' @ action @ '' session from terminal status='' @ session_status_value (ses_status s)))
      else Inr ())"

subsection \<open>Creation\<close>

definition default_branches :: "world \<Rightarrow> branch list \<times> world" where
  "default_branches w = (let (ts, w1) = now w in
     ([\<lparr>branch_id = ''main'', branch_parent = '''', branch_label = ''Main'', branch_summary = '''',
        branch_created_at = ts\<rparr>], w1))"

definition create_session :: "string \<Rightarrow> dict option \<Rightarrow> world \<Rightarrow> session \<times> world" where
  "create_session goal metadata w =
     (let (sid, w1) = uuid_hex 16 w; (bs, w2) = default_branches w1; (ts, w3) = now w2;
          s = \<lparr>session_id = sid, ses_goal = goal, ses_status = SesActive, ses_summary = '''',
               ses_metadata = (case metadata of Some m \<Rightarrow> m | None \<Rightarrow> []),
               active_branch_id = ''main'', active_turn_id = '''', branches = bs, turns = [],
               ses_events = [], ses_created_at = ts, ses_updated_at = ''''\<rparr>
      in session_emit SessionCreated [(''goal'', JStr goal)] s w3)"

subsection \<open>Turns\<close>

definition submit_turn :: "string \<Rightarrow> string \<Rightarrow> session \<Rightarrow> world \<Rightarrow> (turn \<times> session \<times> world) res" where
  "submit_turn prompt role s w =
     (if ses_status s \<noteq> SesActive
      then Inl (ValueError (''Cannot submit turn: session is not active (status='' @
                  session_status_value (ses_status s) @ '')''))
      else
        let (tid, w1) = uuid_hex 12 w; (ts, w2) = now w1;
            t = \<lparr>turn_id = tid, turn_index = int (length (turns s)), turn_prompt = prompt,
                 turn_role = role, parent_turn_id = active_turn_id s, turn_branch = active_branch_id s,
                 turn_label = '''', turn_response = '''', turn_outcome = TurnPending, turn_error = '''',
                 turn_tokens = 0, turn_started_at = ts, turn_completed_at = ''''\<rparr>;
            s1 = s\<lparr>turns := turns s @ [t], active_turn_id := tid\<rparr>;
            (s2, w3) = touch_emit TurnSubmitted
              [(''turn_id'', JStr tid), (''role'', JStr role), (''branch_id'', JStr (turn_branch t)),
               (''parent_turn_id'', JStr (parent_turn_id t))] s1 w2
        in Inr (t, s2, w3))"

definition complete_turn :: "string \<Rightarrow> string \<Rightarrow> int \<Rightarrow> session \<Rightarrow> world \<Rightarrow> (session \<times> world) res" where
  "complete_turn tid response tokens s w = (case get_turn tid s of
       Inl e \<Rightarrow> Inl e
     | Inr _ \<Rightarrow>
        let (ts, w1) = now w;
            s1 = s\<lparr>turns := update_by turn_id tid (\<lambda>t. t\<lparr>turn_outcome := TurnDone, turn_response := response,
                     turn_tokens := tokens, turn_completed_at := ts\<rparr>) (turns s)\<rparr>
        in Inr (touch_emit TurnCompletedEv
             [(''turn_id'', JStr tid), (''tokens_used'', JInt tokens)] s1 w1))"

definition interrupt_turn :: "string \<Rightarrow> string \<Rightarrow> session \<Rightarrow> world \<Rightarrow> (session \<times> world) res" where
  "interrupt_turn tid reason s w = (case get_turn tid s of
       Inl e \<Rightarrow> Inl e
     | Inr _ \<Rightarrow>
        let (ts, w1) = now w;
            s1 = s\<lparr>turns := update_by turn_id tid (\<lambda>t. t\<lparr>turn_outcome := TurnInterrupted, turn_error := reason,
                     turn_completed_at := ts\<rparr>) (turns s)\<rparr>
        in Inr (touch_emit TurnInterruptedEv
             [(''turn_id'', JStr tid), (''reason'', JStr reason)] s1 w1))"

definition fail_turn :: "string \<Rightarrow> string \<Rightarrow> session \<Rightarrow> world \<Rightarrow> (session \<times> world) res" where
  "fail_turn tid err s w = (case get_turn tid s of
       Inl e \<Rightarrow> Inl e
     | Inr _ \<Rightarrow>
        let (ts, w1) = now w;
            s1 = s\<lparr>turns := update_by turn_id tid (\<lambda>t. t\<lparr>turn_outcome := TurnFailed, turn_error := err,
                     turn_completed_at := ts\<rparr>) (turns s)\<rparr>
        in Inr (touch_emit TurnFailedEv
             [(''turn_id'', JStr tid), (''error'', JStr err)] s1 w1))"

subsection \<open>Life cycle\<close>

definition pause_session :: "session \<Rightarrow> world \<Rightarrow> (session \<times> world) res" where
  "pause_session s w = (case require_status SesActive ''pause'' s of
       Inl e \<Rightarrow> Inl e
     | Inr _ \<Rightarrow> Inr (touch_emit SessionPaused [] (s\<lparr>ses_status := SesPaused\<rparr>) w))"

definition resume_session :: "session \<Rightarrow> world \<Rightarrow> (session \<times> world) res" where
  "resume_session s w = (case require_status SesPaused ''resume'' s of
       Inl e \<Rightarrow> Inl e
     | Inr _ \<Rightarrow> Inr (touch_emit SessionResumed [] (s\<lparr>ses_status := SesActive\<rparr>) w))"

definition complete_session :: "string \<Rightarrow> session \<Rightarrow> world \<Rightarrow> (session \<times> world) res" where
  "complete_session summary s w = (case require_not_terminal ''complete'' s of
       Inl e \<Rightarrow> Inl e
     | Inr _ \<Rightarrow> Inr (touch_emit SessionCompleted [(''summary'', JStr summary)]
                 (s\<lparr>ses_status := SesCompleted, ses_summary := summary\<rparr>) w))"

definition fail_session :: "string \<Rightarrow> session \<Rightarrow> world \<Rightarrow> (session \<times> world) res" where
  "fail_session err s w = (case require_not_terminal ''fail'' s of
       Inl e \<Rightarrow> Inl e
     | Inr _ \<Rightarrow> Inr (touch_emit SessionFailed [(''error'', JStr err)] (s\<lparr>ses_status := SesFailed\<rparr>) w))"

definition cancel_session :: "session \<Rightarrow> world \<Rightarrow> (session \<times> world) res" where
  "cancel_session s w = (case require_not_terminal ''cancel'' s of
       Inl e \<Rightarrow> Inl e
     | Inr _ \<Rightarrow> Inr (touch_emit SessionCanceled [] (s\<lparr>ses_status := SesCanceled\<rparr>) w))"

subsection \<open>Branches\<close>

definition switch_branch :: "string \<Rightarrow> session \<Rightarrow> world \<Rightarrow> (session \<times> world) res" where
  "switch_branch bid s w = (case get_branch bid s of
       Inl e \<Rightarrow> Inl e
     | Inr b \<Rightarrow> (case branch_leaf_turn_id (branch_id b) (s\<lparr>active_branch_id := branch_id b\<rparr>) of
           Inl e \<Rightarrow> Inl e
         | Inr leaf \<Rightarrow>
            let s1 = s\<lparr>active_branch_id := branch_id b, active_turn_id := leaf\<rparr>
            in Inr (touch_emit BranchSwitched
                 [(''branch_id'', JStr (branch_id b)), (''active_turn_id'', JStr leaf)] s1 w)))"

text \<open>\<open>branch_id or uuid.uuid4().hex[:8]\<close>: the identifier is drawn only when none is given.\<close>

definition resolve_branch_id :: "string option \<Rightarrow> world \<Rightarrow> string \<times> world" where
  "resolve_branch_id bid w = (case bid of
       Some b \<Rightarrow> (if b = '''' then uuid_hex 8 w else (b, w))
     | None \<Rightarrow> uuid_hex 8 w)"

definition fork_from_turn ::
  "string \<Rightarrow> string option \<Rightarrow> string \<Rightarrow> string \<Rightarrow> session \<Rightarrow> world \<Rightarrow> (branch \<times> session \<times> world) res" where
  "fork_from_turn tid bid label summary s w = (case get_turn tid s of
       Inl e \<Rightarrow> Inl e
     | Inr parent \<Rightarrow>
        let (rid, w1) = resolve_branch_id bid w in
        if rid \<in> branch_id ` set (branches s)
        then Inl (ValueError (''Branch '' @ rid @ '' already exists''))
        else
          let (ts, w2) = now w1;
              b = \<lparr>branch_id = rid, branch_parent = turn_id parent, branch_label = label,
                   branch_summary = summary, branch_created_at = ts\<rparr>;
              (s1, w3) = touch_emit BranchCreated
                [(''branch_id'', JStr rid), (''parent_turn_id'', JStr (turn_id parent)), (''label'', JStr label)]
                (s\<lparr>branches := branches s @ [b]\<rparr>) w2
          in (case switch_branch rid s1 w3 of
                Inl e \<Rightarrow> Inl e
              | Inr (s2, w4) \<Rightarrow> Inr (b, s2, w4)))"

definition summarize_branch :: "string \<Rightarrow> string \<Rightarrow> session \<Rightarrow> world \<Rightarrow> (session \<times> world) res" where
  "summarize_branch bid summary s w = (case get_branch bid s of
       Inl e \<Rightarrow> Inl e
     | Inr _ \<Rightarrow> Inr (touch_emit BranchSummarized [(''branch_id'', JStr bid), (''summary'', JStr summary)]
         (s\<lparr>branches := update_by branch_id bid (\<lambda>b. b\<lparr>branch_summary := summary\<rparr>) (branches s)\<rparr>) w))"

subsection \<open>Queries\<close>

definition total_tokens :: "session \<Rightarrow> int" where
  "total_tokens s = sum_list (map turn_tokens (turns s))"

definition turn_count :: "session \<Rightarrow> int" where
  "turn_count s = int (length (turns s))"

text \<open>
  The loop \<open>while current_id\<close> of \<open>branch_path\<close>. Nothing in the loop itself bounds it: on a
  cyclic lineage it does not end, which the result \<open>None\<close> records.
\<close>

partial_function (option) path_loop ::
  "(string \<Rightarrow> turn option) \<Rightarrow> string \<Rightarrow> turn list \<Rightarrow> turn list option" where
  "path_loop by_id cur path =
     (if cur = [] then Some path
      else case by_id cur of
          None \<Rightarrow> Some path
        | Some t \<Rightarrow> path_loop by_id (parent_turn_id t) (path @ [t]))"

text \<open>\<open>{turn.turn_id: turn for turn in self.turns}\<close>: a later turn overwrites an earlier one.\<close>

definition turns_by_id :: "turn list \<Rightarrow> string \<Rightarrow> turn option" where
  "turns_by_id ts = map_of (rev (map (\<lambda>t. (turn_id t, t)) ts))"

definition branch_path :: "string option \<Rightarrow> session \<Rightarrow> turn list option res" where
  "branch_path bid s =
     (let rid = (case bid of Some b \<Rightarrow> (if b = '''' then active_branch_id s else b) | None \<Rightarrow> active_branch_id s)
      in case get_branch rid s of
           Inl e \<Rightarrow> Inl e
         | Inr _ \<Rightarrow> (case branch_leaf_turn_id rid s of
               Inl e \<Rightarrow> Inl e
             | Inr leaf \<Rightarrow> Inr (map_option rev (path_loop (turns_by_id (turns s)) leaf []))))"

end
