(* ===== verification/Session_Props.thy ===== *)
theory Session_Props
  imports Session
begin

text \<open>
  Correctness of the session aggregate: the structural invariant of every reachable session,
  termination and shape of \<open>branch_path\<close>, the absorbing terminal states, and the replay
  theorem (the event log determines status, branches, turns and the active pointers).
\<close>

subsection \<open>The step relation\<close>

inductive session_step :: "session \<times> world \<Rightarrow> session \<times> world \<Rightarrow> bool" where
  st_submit: "submit_turn p r s w = Inr (t, s', w') \<Longrightarrow> session_step (s, w) (s', w')"
| st_complete_turn: "complete_turn i r k s w = Inr (s', w') \<Longrightarrow> session_step (s, w) (s', w')"
| st_interrupt_turn: "interrupt_turn i r s w = Inr (s', w') \<Longrightarrow> session_step (s, w) (s', w')"
| st_fail_turn: "fail_turn i r s w = Inr (s', w') \<Longrightarrow> session_step (s, w) (s', w')"
| st_pause: "pause_session s w = Inr (s', w') \<Longrightarrow> session_step (s, w) (s', w')"
| st_resume: "resume_session s w = Inr (s', w') \<Longrightarrow> session_step (s, w) (s', w')"
| st_complete: "complete_session x s w = Inr (s', w') \<Longrightarrow> session_step (s, w) (s', w')"
| st_fail: "fail_session x s w = Inr (s', w') \<Longrightarrow> session_step (s, w) (s', w')"
| st_cancel: "cancel_session s w = Inr (s', w') \<Longrightarrow> session_step (s, w) (s', w')"
| st_fork: "fork_from_turn i b l x s w = Inr (br, s', w') \<Longrightarrow> session_step (s, w) (s', w')"
| st_switch: "switch_branch b s w = Inr (s', w') \<Longrightarrow> session_step (s, w) (s', w')"
| st_summarize: "summarize_branch b x s w = Inr (s', w') \<Longrightarrow> session_step (s, w) (s', w')"

definition session_start :: "session \<times> world \<Rightarrow> bool" where
  "session_start c \<longleftrightarrow> (\<exists>g m w. c = create_session g m w)"

named_theorems session_ops

lemmas session_op_defs [session_ops] =
  submit_turn_def complete_turn_def interrupt_turn_def fail_turn_def pause_session_def
  resume_session_def complete_session_def fail_session_def cancel_session_def
  summarize_branch_def require_status_def require_not_terminal_def get_turn_def get_branch_def

subsection \<open>What the common tail of every method does\<close>

lemma touch_emit_fields [simp]:
  "session_id (fst (touch_emit ty p s w)) = session_id s"
  "ses_status (fst (touch_emit ty p s w)) = ses_status s"
  "ses_summary (fst (touch_emit ty p s w)) = ses_summary s"
  "active_branch_id (fst (touch_emit ty p s w)) = active_branch_id s"
  "active_turn_id (fst (touch_emit ty p s w)) = active_turn_id s"
  "branches (fst (touch_emit ty p s w)) = branches s"
  "turns (fst (touch_emit ty p s w)) = turns s"
  by (simp_all add: touch_emit_def session_touch_def session_emit_def Let_def split_beta)

lemma touch_emit_events:
  "\<exists>eid ts. ses_events (fst (touch_emit ty p s w)) = ses_events s @
     [\<lparr>event_id = eid, event_type = ty, event_timestamp = ts,
       event_payload = dict_merge [(''session_id'', JStr (session_id s))] p\<rparr>]"
  by (auto simp: touch_emit_def session_touch_def session_emit_def Let_def split_beta)

lemma touch_emit_later [simp]: "later w (snd (touch_emit ty p s w))"
  by (simp add: touch_emit_def session_touch_def session_emit_def Let_def split_beta)
     (meson later_trans now_later uuid_later)

lemma resolve_branch_later [simp]: "later w (snd (resolve_branch_id b w))"
  by (auto simp: resolve_branch_id_def split: option.splits)

lemma touch_emit_pair:
  "touch_emit ty p s w = (s', w') \<Longrightarrow> s' = fst (touch_emit ty p s w) \<and> w' = snd (touch_emit ty p s w)"
  by simp

subsection \<open>The effect of branch switching and forking\<close>

lemma find_by_rev_Some:
  "find_by f k (rev xs) = Some x \<Longrightarrow> x \<in> set xs \<and> f x = k"
  by (drule find_by_SomeD) simp

lemma branch_leaf_cases:
  assumes "branch_leaf_turn_id b s = Inr leaf"
  shows "(\<exists>t \<in> set (turns s). turn_branch t = b \<and> turn_id t = leaf) \<or>
         (\<exists>br \<in> set (branches s). branch_id br = b \<and> branch_parent br = leaf)"
  using assms
  by (auto simp: branch_leaf_turn_id_def get_branch_def split: option.splits
      dest!: find_by_rev_Some find_by_SomeD)

lemma branch_leaf_total:
  "b \<in> branch_id ` set (branches s) \<Longrightarrow> \<exists>leaf. branch_leaf_turn_id b s = Inr leaf"
  by (auto simp: branch_leaf_turn_id_def get_branch_def split: option.splits)

lemma branch_leaf_active [simp]:
  "branch_leaf_turn_id b (s\<lparr>active_branch_id := a\<rparr>) = branch_leaf_turn_id b s"
  by (auto simp: branch_leaf_turn_id_def get_branch_def split: option.split dest!: find_by_SomeD)

lemma get_branch_present: "b \<in> branch_id ` set (branches s) \<Longrightarrow>
  \<exists>br. find_by branch_id b (branches s) = Some br \<and> branch_id br = b"
  by (metis find_by_None find_by_SomeD not_None_eq)

lemma get_turn_present: "find_by turn_id i (turns s) = Some t \<Longrightarrow> i \<in> turn_id ` set (turns s) \<and> turn_id t = i"
  by (metis find_by_SomeD imageI)

lemma switch_branch_present:
  assumes "b \<in> branch_id ` set (branches s)" and "branch_leaf_turn_id b s = Inr leaf"
  shows "switch_branch b s w = Inr (touch_emit BranchSwitched
           [(''branch_id'', JStr b), (''active_turn_id'', JStr leaf)]
           (s\<lparr>active_branch_id := b, active_turn_id := leaf\<rparr>) w)"
proof -
  from get_branch_present [OF assms(1)] obtain br
    where "find_by branch_id b (branches s) = Some br" and "branch_id br = b" by blast
  with assms(2) show ?thesis by (simp add: switch_branch_def get_branch_def Let_def)
qed

lemma switch_branch_absent:
  "b \<notin> branch_id ` set (branches s) \<Longrightarrow>
   switch_branch b s w = Inl (KeyError (''Branch '' @ b @ '' not found in session '' @ session_id s))"
  by (simp add: switch_branch_def get_branch_def flip: find_by_None)

lemma switch_branch_Inr:
  assumes "switch_branch b s w = Inr (s', w')"
  obtains leaf where "b \<in> branch_id ` set (branches s)" and "branch_leaf_turn_id b s = Inr leaf"
    and "(s', w') = touch_emit BranchSwitched
           [(''branch_id'', JStr b), (''active_turn_id'', JStr leaf)]
           (s\<lparr>active_branch_id := b, active_turn_id := leaf\<rparr>) w"
proof -
  have b: "b \<in> branch_id ` set (branches s)"
    using assms switch_branch_absent [of b s w] by fastforce
  from branch_leaf_total [OF b] obtain leaf where leaf: "branch_leaf_turn_id b s = Inr leaf" ..
  show thesis
    using assms that [OF b leaf] by (simp add: switch_branch_present [OF b leaf])
qed

lemma fork_from_turn_Inr:
  assumes "fork_from_turn i bid l x s w = Inr (br, s', w')"
  obtains rid w1 ts s1 w3 where "resolve_branch_id bid w = (rid, w1)"
    and "i \<in> turn_id ` set (turns s)" and "rid \<notin> branch_id ` set (branches s)"
    and "br = \<lparr>branch_id = rid, branch_parent = i, branch_label = l, branch_summary = x, branch_created_at = ts\<rparr>"
    and "(s1, w3) = touch_emit BranchCreated
           [(''branch_id'', JStr rid), (''parent_turn_id'', JStr i), (''label'', JStr l)]
           (s\<lparr>branches := branches s @ [br]\<rparr>) (snd (now w1))"
    and "switch_branch rid s1 w3 = Inr (s', w')"
proof -
  from assms obtain t where t: "find_by turn_id i (turns s) = Some t"
    by (auto simp: fork_from_turn_def get_turn_def split: option.splits)
  from get_turn_present [OF t] have i: "i \<in> turn_id ` set (turns s)" and ti: "turn_id t = i" by auto
  obtain rid w1 where r: "resolve_branch_id bid w = (rid, w1)" by fastforce
  obtain ts w2 where n: "now w1 = (ts, w2)" by fastforce
  let ?br = "\<lparr>branch_id = rid, branch_parent = i, branch_label = l, branch_summary = x, branch_created_at = ts\<rparr>"
  obtain s1 w3 where e: "touch_emit BranchCreated
      [(''branch_id'', JStr rid), (''parent_turn_id'', JStr i), (''label'', JStr l)]
      (s\<lparr>branches := branches s @ [?br]\<rparr>) w2 = (s1, w3)" by fastforce
  have "rid \<notin> branch_id ` set (branches s)"
    using assms t by (auto simp: fork_from_turn_def get_turn_def r)
  moreover from this have "switch_branch rid s1 w3 = Inr (s', w') \<and> br = ?br"
    using assms t by (simp add: fork_from_turn_def get_turn_def r n e ti split: sum.splits prod.splits)
  ultimately show thesis
    using that [OF r i] e n by simp
qed

subsection \<open>The lineage invariant\<close>

text \<open>
  \<open>lineage seen ts\<close>: after the turns with identifiers \<open>seen\<close>, each turn of \<open>ts\<close> has a new
  non-empty identifier, its position as index, and as parent nothing or an earlier turn.
\<close>

fun lineage :: "string list \<Rightarrow> turn list \<Rightarrow> bool" where
  "lineage seen [] = True"
| "lineage seen (t # ts) =
     (turn_id t \<notin> set seen \<and> turn_id t \<noteq> [] \<and> turn_index t = int (length seen) \<and>
      (parent_turn_id t = [] \<or> parent_turn_id t \<in> set seen) \<and> lineage (seen @ [turn_id t]) ts)"

lemma lineage_append [simp]:
  "lineage seen (ts @ us) \<longleftrightarrow> lineage seen ts \<and> lineage (seen @ map turn_id ts) us"
  by (induction ts arbitrary: seen) auto

lemma lineage_update:
  assumes "\<And>t. turn_id (g t) = turn_id t" "\<And>t. turn_index (g t) = turn_index t"
    "\<And>t. parent_turn_id (g t) = parent_turn_id t"
  shows "lineage seen (update_by f k g ts) = lineage seen ts"
  using assms by (induction ts arbitrary: seen) auto

lemma lineage_ids: "lineage seen ts \<Longrightarrow> distinct seen \<Longrightarrow> distinct (seen @ map turn_id ts)"
  by (induction ts arbitrary: seen) fastforce+

lemma lineage_nonempty: "lineage seen ts \<Longrightarrow> t \<in> set ts \<Longrightarrow> turn_id t \<noteq> []"
  by (induction ts arbitrary: seen) auto

lemma lineage_parent:
  "lineage seen ts \<Longrightarrow> t \<in> set ts \<Longrightarrow> parent_turn_id t \<noteq> [] \<Longrightarrow>
   parent_turn_id t \<in> set seen \<or>
   (\<exists>u \<in> set ts. turn_id u = parent_turn_id t \<and> turn_index u < turn_index t)"
proof (induction ts arbitrary: seen rule: rev_induct)
  case Nil
  then show ?case by simp
next
  case (snoc x xs)
  have idx: "turn_index x = int (length seen + length xs)"
    using snoc.prems(1) by simp
  have small: "turn_index u < turn_index x" if "u \<in> set xs" for u
  proof -
    have "lineage seen xs" using snoc.prems(1) by simp
    then have "turn_index u < int (length seen + length xs)"
      using that by (induction xs arbitrary: seen) fastforce+
    then show ?thesis using idx by simp
  qed
  show ?case
  proof (cases "t \<in> set xs")
    case True
    with snoc show ?thesis by auto
  next
    case False
    with snoc.prems have "t = x" by simp
    with snoc.prems show ?thesis by (fastforce dest: small)
  qed
qed

definition session_ok :: "session \<times> world \<Rightarrow> bool" where
  "session_ok = (\<lambda>(s, w).
     lineage [] (turns s) \<and> turn_id ` set (turns s) \<subseteq> drawn_ids 12 w \<and>
     (active_turn_id s = [] \<or> active_turn_id s \<in> turn_id ` set (turns s)) \<and>
     distinct (map branch_id (branches s)) \<and> active_branch_id s \<in> branch_id ` set (branches s) \<and>
     (\<forall>b \<in> set (branches s). branch_parent b = [] \<or> branch_parent b \<in> turn_id ` set (turns s)) \<and>
     turn_branch ` set (turns s) \<subseteq> branch_id ` set (branches s))"

lemma session_ok_later:
  "session_ok (s, w) \<Longrightarrow> later w w' \<Longrightarrow> session_ok (s, w')"
  using drawn_ids_later [of w w' 12] by (auto simp: session_ok_def)

text \<open>The invariant reads neither the log nor the time stamps, summaries, life-cycle state.\<close>

lemma session_ok_touch_emit [simp]:
  "session_ok (fst (touch_emit ty p s w), w') = session_ok (s, w')"
  "session_ok (s\<lparr>ses_status := st\<rparr>, w') = session_ok (s, w')"
  "session_ok (s\<lparr>ses_summary := sm\<rparr>, w') = session_ok (s, w')"
  by (simp_all add: session_ok_def)

lemma session_ok_emitted:
  "session_ok (s, w) \<Longrightarrow> session_ok (touch_emit ty p s w)"
  by (metis prod.collapse session_ok_later session_ok_touch_emit(1) touch_emit_later)

lemma session_ok_update_turn:
  assumes "session_ok (s, w)" and "\<And>t. turn_id (g t) = turn_id t" "\<And>t. turn_index (g t) = turn_index t"
    "\<And>t. parent_turn_id (g t) = parent_turn_id t" "\<And>t. turn_branch (g t) = turn_branch t"
  shows "session_ok (s\<lparr>turns := update_by turn_id i g (turns s)\<rparr>, w)"
proof -
  have ids: "turn_id ` set (update_by turn_id i g (turns s)) = turn_id ` set (turns s)"
    using map_update_by_keep [of turn_id g] assms(2) by (metis list.set_map)
  have brs: "turn_branch ` set (update_by turn_id i g (turns s)) = turn_branch ` set (turns s)"
    using map_update_by_keep [of turn_branch g] assms(5) by (metis list.set_map)
  from assms show ?thesis by (simp add: session_ok_def ids brs lineage_update)
qed

lemma session_ok_update_branch:
  assumes "session_ok (s, w)" and "\<And>b. branch_id (g b) = branch_id b"
    and "\<And>b. branch_parent (g b) = branch_parent b"
  shows "session_ok (s\<lparr>branches := update_by branch_id i g (branches s)\<rparr>, w)"
proof -
  have ids: "map branch_id (update_by branch_id i g (branches s)) = map branch_id (branches s)"
    using assms(2) by (rule map_update_by_keep)
  then have ids': "branch_id ` set (update_by branch_id i g (branches s)) = branch_id ` set (branches s)"
    by (metis list.set_map)
  have "\<forall>b \<in> set (update_by branch_id i g (branches s)).
      branch_parent b = [] \<or> branch_parent b \<in> turn_id ` set (turns s)"
    using assms(1,3) by (intro update_by_all) (auto simp: session_ok_def)
  with assms show ?thesis by (simp add: session_ok_def ids ids')
qed

lemma session_ok_new_turn:
  assumes ok: "session_ok (s, w)" and new: "turn_id t \<notin> drawn_ids 12 w" "turn_id t \<noteq> []"
    and t: "turn_index t = int (length (turns s))" "parent_turn_id t = active_turn_id s"
      "turn_branch t = active_branch_id s"
    and w': "drawn_ids 12 w' = insert (turn_id t) (drawn_ids 12 w)"
  shows "session_ok (s\<lparr>turns := turns s @ [t], active_turn_id := turn_id t\<rparr>, w')"
proof -
  have "turn_id t \<notin> turn_id ` set (turns s)" using ok new(1) by (auto simp: session_ok_def)
  then show ?thesis using ok new(2) t w' by (auto simp: session_ok_def)
qed

lemma session_ok_switch:
  assumes ok: "session_ok (s, w)" and step: "switch_branch b s w = Inr (s', w')"
  shows "session_ok (s', w')"
proof -
  from step obtain leaf where b: "b \<in> branch_id ` set (branches s)"
    and leaf: "branch_leaf_turn_id b s = Inr leaf"
    and eq: "(s', w') = touch_emit BranchSwitched
           [(''branch_id'', JStr b), (''active_turn_id'', JStr leaf)]
           (s\<lparr>active_branch_id := b, active_turn_id := leaf\<rparr>) w"
    by (rule switch_branch_Inr)
  have "leaf = [] \<or> leaf \<in> turn_id ` set (turns s)"
    using branch_leaf_cases [OF leaf] ok by (auto simp: session_ok_def)
  with ok b have "session_ok (s\<lparr>active_branch_id := b, active_turn_id := leaf\<rparr>, w)"
    by (simp add: session_ok_def)
  then show ?thesis unfolding eq by (rule session_ok_emitted)
qed

lemma session_ok_fork:
  assumes ok: "session_ok (s, w)" and step: "fork_from_turn i bid l x s w = Inr (br, s', w')"
  shows "session_ok (s', w')"
proof -
  from step obtain rid w1 ts s1 w3 where r: "resolve_branch_id bid w = (rid, w1)"
    and i: "i \<in> turn_id ` set (turns s)" and new: "rid \<notin> branch_id ` set (branches s)"
    and br: "br = \<lparr>branch_id = rid, branch_parent = i, branch_label = l, branch_summary = x, branch_created_at = ts\<rparr>"
    and e: "(s1, w3) = touch_emit BranchCreated
           [(''branch_id'', JStr rid), (''parent_turn_id'', JStr i), (''label'', JStr l)]
           (s\<lparr>branches := branches s @ [br]\<rparr>) (snd (now w1))"
    and sw: "switch_branch rid s1 w3 = Inr (s', w')"
    by (rule fork_from_turn_Inr)
  have "later w (snd (now w1))"
    using resolve_branch_later [of w bid] now_later [of w1] r by (metis later_trans snd_conv)
  with ok have "session_ok (s, snd (now w1))" by (rule session_ok_later)
  with i new have "session_ok (s\<lparr>branches := branches s @ [br]\<rparr>, snd (now w1))"
    by (auto simp: session_ok_def br)
  then have "session_ok (s1, w3)" unfolding e by (rule session_ok_emitted)
  then show ?thesis using sw by (rule session_ok_switch)
qed

lemma session_ok_start:
  assumes "session_start c"
  shows "session_ok c"
  using assms
  by (auto simp: session_start_def create_session_def default_branches_def session_emit_def
      session_ok_def Let_def split_beta)

lemma touch_emit_Inr:
  "Inr (touch_emit ty p s w) = Inr (s', w') \<longleftrightarrow> (s', w') = touch_emit ty p s w"
  by auto

lemma submit_turn_Inr:
  assumes "submit_turn p r s w = Inr (t, s', w')"
  obtains ts where "ses_status s = SesActive"
    and "t = \<lparr>turn_id = take 12 (uuids w (drawn w)), turn_index = int (length (turns s)), turn_prompt = p,
         turn_role = r, parent_turn_id = active_turn_id s, turn_branch = active_branch_id s,
         turn_label = [], turn_response = [], turn_outcome = TurnPending, turn_error = [],
         turn_tokens = 0, turn_started_at = ts, turn_completed_at = []\<rparr>"
    and "(s', w') = touch_emit TurnSubmitted
        [(''turn_id'', JStr (turn_id t)), (''role'', JStr r), (''branch_id'', JStr (active_branch_id s)),
         (''parent_turn_id'', JStr (active_turn_id s))]
        (s\<lparr>turns := turns s @ [t], active_turn_id := turn_id t\<rparr>) (snd (now (snd (uuid_hex 12 w))))"
  using assms
  by (auto simp: submit_turn_def Let_def split_beta uuid_hex_def split: if_splits)

lemma session_ok_submit:
  assumes ok: "session_ok (s, w)" and fresh: "ids_fresh 12 w'"
    and step: "submit_turn p r s w = Inr (t, s', w')"
  shows "session_ok (s', w')"
proof -
  let ?w1 = "snd (uuid_hex 12 w)" let ?w2 = "snd (now ?w1)"
  from step obtain ts where t: "t = \<lparr>turn_id = take 12 (uuids w (drawn w)), turn_index = int (length (turns s)),
         turn_prompt = p, turn_role = r, parent_turn_id = active_turn_id s, turn_branch = active_branch_id s,
         turn_label = [], turn_response = [], turn_outcome = TurnPending, turn_error = [],
         turn_tokens = 0, turn_started_at = ts, turn_completed_at = []\<rparr>"
    and e: "(s', w') = touch_emit TurnSubmitted
        [(''turn_id'', JStr (turn_id t)), (''role'', JStr r), (''branch_id'', JStr (active_branch_id s)),
         (''parent_turn_id'', JStr (active_turn_id s))]
        (s\<lparr>turns := turns s @ [t], active_turn_id := turn_id t\<rparr>) ?w2"
    by (rule submit_turn_Inr)
  have "later ?w2 w'" using e by (metis snd_conv touch_emit_later)
  then have "later ?w1 w'" using later_trans now_later by blast
  then have "ids_fresh 12 ?w1" using fresh by (rule ids_fresh_later)
  then have "turn_id t \<notin> drawn_ids 12 w" "turn_id t \<noteq> []"
    unfolding t turn.simps by (rule fresh_draw)+
  then have "session_ok (s\<lparr>turns := turns s @ [t], active_turn_id := turn_id t\<rparr>, ?w2)"
    by (rule session_ok_new_turn [OF ok]) (simp_all add: t drawn_ids_uuid)
  then show ?thesis unfolding e by (rule session_ok_emitted)
qed

lemma session_ok_later_emitted:
  "session_ok (s, w) \<Longrightarrow> (s', w') = touch_emit ty p s (snd (now w)) \<Longrightarrow> session_ok (s', w')"
  using session_ok_emitted session_ok_later now_later by metis

lemma complete_turn_Inr:
  assumes "complete_turn i r k s w = Inr (s', w')"
  shows "i \<in> turn_id ` set (turns s) \<and> (s', w') = touch_emit TurnCompletedEv
    [(''turn_id'', JStr i), (''tokens_used'', JInt k)]
    (s\<lparr>turns := update_by turn_id i (\<lambda>t. t\<lparr>turn_outcome := TurnDone, turn_response := r,
        turn_tokens := k, turn_completed_at := fst (now w)\<rparr>) (turns s)\<rparr>) (snd (now w))"
  using assms
  by (cases "find_by turn_id i (turns s)")
     (auto simp: complete_turn_def get_turn_def split_beta dest: get_turn_present)

lemma interrupt_turn_Inr:
  assumes "interrupt_turn i r s w = Inr (s', w')"
  shows "i \<in> turn_id ` set (turns s) \<and> (s', w') = touch_emit TurnInterruptedEv
    [(''turn_id'', JStr i), (''reason'', JStr r)]
    (s\<lparr>turns := update_by turn_id i (\<lambda>t. t\<lparr>turn_outcome := TurnInterrupted, turn_error := r,
        turn_completed_at := fst (now w)\<rparr>) (turns s)\<rparr>) (snd (now w))"
  using assms
  by (cases "find_by turn_id i (turns s)")
     (auto simp: interrupt_turn_def get_turn_def split_beta dest: get_turn_present)

lemma fail_turn_Inr:
  assumes "fail_turn i r s w = Inr (s', w')"
  shows "i \<in> turn_id ` set (turns s) \<and> (s', w') = touch_emit TurnFailedEv
    [(''turn_id'', JStr i), (''error'', JStr r)]
    (s\<lparr>turns := update_by turn_id i (\<lambda>t. t\<lparr>turn_outcome := TurnFailed, turn_error := r,
        turn_completed_at := fst (now w)\<rparr>) (turns s)\<rparr>) (snd (now w))"
  using assms
  by (cases "find_by turn_id i (turns s)")
     (auto simp: fail_turn_def get_turn_def split_beta dest: get_turn_present)

lemma summarize_branch_Inr:
  assumes "summarize_branch b x s w = Inr (s', w')"
  shows "b \<in> branch_id ` set (branches s) \<and> (s', w') = touch_emit BranchSummarized
    [(''branch_id'', JStr b), (''summary'', JStr x)]
    (s\<lparr>branches := update_by branch_id b (\<lambda>b. b\<lparr>branch_summary := x\<rparr>) (branches s)\<rparr>) w"
proof (cases "find_by branch_id b (branches s)")
  case None
  with assms show ?thesis by (simp add: summarize_branch_def get_branch_def del: find_by_None)
next
  case (Some br)
  then have "b \<in> branch_id ` set (branches s)" by (metis find_by_None option.discI)
  with Some assms show ?thesis by (simp add: summarize_branch_def get_branch_def)
qed

lemma pause_session_Inr: "pause_session s w = Inr (s', w') \<longleftrightarrow>
    ses_status s = SesActive \<and> (s', w') = touch_emit SessionPaused [] (s\<lparr>ses_status := SesPaused\<rparr>) w"
  by (auto simp: session_ops)

lemma resume_session_Inr: "resume_session s w = Inr (s', w') \<longleftrightarrow>
    ses_status s = SesPaused \<and> (s', w') = touch_emit SessionResumed [] (s\<lparr>ses_status := SesActive\<rparr>) w"
  by (auto simp: session_ops)

lemma complete_session_Inr: "complete_session x s w = Inr (s', w') \<longleftrightarrow>
    \<not> ses_terminal (ses_status s) \<and> (s', w') = touch_emit SessionCompleted [(''summary'', JStr x)]
      (s\<lparr>ses_status := SesCompleted, ses_summary := x\<rparr>) w"
  by (auto simp: session_ops)

lemma fail_session_Inr: "fail_session x s w = Inr (s', w') \<longleftrightarrow>
    \<not> ses_terminal (ses_status s) \<and> (s', w') = touch_emit SessionFailed [(''error'', JStr x)]
      (s\<lparr>ses_status := SesFailed\<rparr>) w"
  by (auto simp: session_ops)

lemma cancel_session_Inr: "cancel_session s w = Inr (s', w') \<longleftrightarrow>
    \<not> ses_terminal (ses_status s) \<and> (s', w') = touch_emit SessionCanceled []
      (s\<lparr>ses_status := SesCanceled\<rparr>) w"
  by (auto simp: session_ops)

lemmas session_life_Inr =
  pause_session_Inr resume_session_Inr complete_session_Inr fail_session_Inr cancel_session_Inr

lemma emitted_ok: "(s', w') = touch_emit ty p s w \<Longrightarrow> session_ok (s, w) \<Longrightarrow> session_ok (s', w')"
  by (simp only: session_ok_emitted)

lemma emitted_later: "(s', w') = touch_emit ty p s w \<Longrightarrow> later w w'"
  by (metis snd_conv touch_emit_later)

lemma session_ok_turn_change:
  assumes "(s', w') = touch_emit ty p (s\<lparr>turns := update_by turn_id i g (turns s)\<rparr>) (snd (now w))"
    and "session_ok (s, w)" and "\<And>t. turn_id (g t) = turn_id t" "\<And>t. turn_index (g t) = turn_index t"
    "\<And>t. parent_turn_id (g t) = parent_turn_id t" "\<And>t. turn_branch (g t) = turn_branch t"
  shows "session_ok (s', w')"
  using session_ok_update_turn [OF assms(2-6)] assms(1) by (rule session_ok_later_emitted)

lemma emitted_later_now: "(s', w') = touch_emit ty p s (snd (now w)) \<Longrightarrow> later w w'"
  by (metis emitted_later later_trans now_later)

lemma session_step_ok:
  assumes "session_ok c" and "ids_fresh 12 (snd c')" and "session_step c c'"
  shows "session_ok c'"
  using assms(3,1,2)
proof (induction rule: session_step.induct)
  case (st_submit p r s w t s' w')
  then show ?case by (simp add: session_ok_submit)
next
  case (st_fork i b l x s w br s' w')
  then show ?case by (simp add: session_ok_fork)
next
  case (st_switch b s w s' w')
  then show ?case by (simp add: session_ok_switch)
next
  case (st_complete_turn i r k s w s' w')
  show ?case
    by (rule session_ok_turn_change [OF complete_turn_Inr [OF st_complete_turn.hyps, THEN conjunct2]
          st_complete_turn.prems(1)]) simp_all
next
  case (st_interrupt_turn i r s w s' w')
  show ?case
    by (rule session_ok_turn_change [OF interrupt_turn_Inr [OF st_interrupt_turn.hyps, THEN conjunct2]
          st_interrupt_turn.prems(1)]) simp_all
next
  case (st_fail_turn i r s w s' w')
  show ?case
    by (rule session_ok_turn_change [OF fail_turn_Inr [OF st_fail_turn.hyps, THEN conjunct2]
          st_fail_turn.prems(1)]) simp_all
next
  case (st_summarize b x s w s' w')
  from summarize_branch_Inr [OF st_summarize.hyps] have
    e: "(s', w') = touch_emit BranchSummarized [(''branch_id'', JStr b), (''summary'', JStr x)]
      (s\<lparr>branches := update_by branch_id b (\<lambda>b. b\<lparr>branch_summary := x\<rparr>) (branches s)\<rparr>) w" by simp
  show ?case unfolding e
    using st_summarize.prems by (intro session_ok_emitted session_ok_update_branch) simp_all
qed (unfold session_life_Inr, (elim conjE, erule emitted_ok, simp)+)

lemma switch_branch_later: "switch_branch b s w = Inr (s', w') \<Longrightarrow> later w w'"
  by (erule switch_branch_Inr) (erule emitted_later)

lemma submit_turn_later: "submit_turn p r s w = Inr (t, s', w') \<Longrightarrow> later w w'"
  by (erule submit_turn_Inr) (erule later_trans [OF uuid_later emitted_later_now])

lemma fork_from_turn_later:
  assumes "fork_from_turn i bid l x s w = Inr (br, s', w')"
  shows "later w w'"
  using assms
proof (rule fork_from_turn_Inr)
  fix rid w1 ts s1 w3
  assume r: "resolve_branch_id bid w = (rid, w1)"
    and e: "(s1, w3) = touch_emit BranchCreated
           [(''branch_id'', JStr rid), (''parent_turn_id'', JStr i), (''label'', JStr l)]
           (s\<lparr>branches := branches s @ [br]\<rparr>) (snd (now w1))"
    and sw: "switch_branch rid s1 w3 = Inr (s', w')"
  have "later w w1" using resolve_branch_later [of w bid] r by simp
  moreover have "later w1 w3" using e by (rule emitted_later_now)
  moreover have "later w3 w'" using sw by (rule switch_branch_later)
  ultimately show ?thesis by (blast intro: later_trans)
qed

lemma session_step_later: "session_step c c' \<Longrightarrow> later (snd c) (snd c')"
proof (induction rule: session_step.induct)
  case (st_submit p r s w t s' w')
  then show ?case by (simp add: submit_turn_later)
next
  case (st_switch b s w s' w')
  then show ?case by (simp add: switch_branch_later)
next
  case (st_fork i b l x s w br s' w')
  then show ?case by (simp add: fork_from_turn_later)
next
  case (st_summarize b x s w s' w')
  then show ?case using summarize_branch_Inr emitted_later by (metis snd_conv)
next
  case (st_complete_turn i r k s w s' w')
  then show ?case using complete_turn_Inr emitted_later_now by (metis snd_conv)
next
  case (st_interrupt_turn i r s w s' w')
  then show ?case using interrupt_turn_Inr emitted_later_now by (metis snd_conv)
next
  case (st_fail_turn i r s w s' w')
  then show ?case using fail_turn_Inr emitted_later_now by (metis snd_conv)
qed (unfold session_life_Inr snd_conv, (elim conjE, erule emitted_later)+)

interpretation session_sys: invariant_system session_start session_step "\<lambda>c. ids_fresh 12 (snd c)" session_ok
proof unfold_locales
  show "session_ok c" if "session_start c" for c using that by (rule session_ok_start)
  show "ids_fresh 12 (snd c)" if "session_step c c'" "ids_fresh 12 (snd c')" for c c'
    using that by (blast intro: ids_fresh_later session_step_later)
  show "session_ok c'" if "session_ok c" "ids_fresh 12 (snd c')" "session_step c c'" for c c'
    using that by (rule session_step_ok)
qed

subsection \<open>Branch paths\<close>

text \<open>A root-to-leaf chain: each turn's successor names it as its parent.\<close>

fun linked :: "turn list \<Rightarrow> bool" where
  "linked (t # u # ts) \<longleftrightarrow> parent_turn_id u = turn_id t \<and> linked (u # ts)"
| "linked _ \<longleftrightarrow> True"

lemma linked_snoc:
  "ts \<noteq> [] \<Longrightarrow> linked (ts @ [u]) \<longleftrightarrow> linked ts \<and> parent_turn_id u = turn_id (last ts)"
  by (induction ts rule: linked.induct) auto

lemma turns_by_id_distinct:
  assumes "distinct (map turn_id ts)" and "t \<in> set ts"
  shows "turns_by_id ts (turn_id t) = Some t"
proof -
  let ?m = "rev (map (\<lambda>t. (turn_id t, t)) ts)"
  have "map fst ?m = rev (map turn_id ts)" by (simp add: rev_map comp_def)
  with assms(1) have "distinct (map fst ?m)" by simp
  moreover have "(turn_id t, t) \<in> set ?m" using assms(2) by auto
  ultimately show ?thesis unfolding turns_by_id_def by (rule map_of_is_SomeI)
qed

definition path_from_root :: "turn list \<Rightarrow> turn list \<Rightarrow> bool" where
  "path_from_root ts p \<longleftrightarrow>
     (p \<noteq> [] \<longrightarrow> parent_turn_id (hd p) = []) \<and> linked p \<and> set p \<subseteq> set ts \<and>
     sorted_wrt (\<lambda>a b. turn_index a < turn_index b) p"

lemma path_from_root_snoc:
  assumes "path_from_root ts p" and "p \<noteq> []" and "t \<in> set ts"
    and "parent_turn_id t = turn_id (last p)" and "turn_index (last p) < turn_index t"
  shows "path_from_root ts (p @ [t])"
proof -
  obtain q l where p: "p = q @ [l]" using assms(2) by (metis append_butlast_last_id)
  have "turn_index a < turn_index t" if "a \<in> set p" for a
    using that assms(1,5) by (auto simp: p path_from_root_def sorted_wrt_append)
  with assms show ?thesis
    by (auto simp: path_from_root_def linked_snoc sorted_wrt_append hd_append)
qed

lemma path_loop_lineage:
  assumes lin: "lineage [] ts"
  shows "t \<in> set ts \<Longrightarrow> \<exists>p. path_loop (turns_by_id ts) (turn_id t) acc = Some (acc @ rev p) \<and>
    p \<noteq> [] \<and> last p = t \<and> path_from_root ts p"
proof (induction "nat (turn_index t)" arbitrary: t acc rule: less_induct)
  case less
  have by_id: "turns_by_id ts (turn_id u) = Some u" if "u \<in> set ts" for u
    using lineage_ids [OF lin] that by (simp add: turns_by_id_distinct)
  have pos: "0 \<le> turn_index u" if "u \<in> set ts" for u
  proof -
    have "0 \<le> turn_index u" if "lineage seen us" "u \<in> set us" for seen us
      using that by (induction us arbitrary: seen) auto
    with lin that show ?thesis by blast
  qed
  have unfold: "path_loop (turns_by_id ts) (turn_id t) acc
      = path_loop (turns_by_id ts) (parent_turn_id t) (acc @ [t])"
    using lineage_nonempty [OF lin less.prems] by_id [OF less.prems]
    by (subst path_loop.simps) simp
  show ?case
  proof (cases "parent_turn_id t = []")
    case True
    then have "path_loop (turns_by_id ts) (turn_id t) acc = Some (acc @ rev [t])"
      unfolding unfold by (subst path_loop.simps) simp
    moreover have "path_from_root ts [t]" using True less.prems by (simp add: path_from_root_def)
    ultimately show ?thesis by (intro exI [of _ "[t]"]) simp
  next
    case False
    then obtain u where u: "u \<in> set ts" "turn_id u = parent_turn_id t" "turn_index u < turn_index t"
      using lineage_parent [OF lin less.prems] by auto
    then have "nat (turn_index u) < nat (turn_index t)" using pos by fastforce
    from less.hyps [OF this u(1), of "acc @ [t]"] obtain p where
      p: "path_loop (turns_by_id ts) (turn_id u) (acc @ [t]) = Some ((acc @ [t]) @ rev p)"
        "p \<noteq> []" "last p = u" "path_from_root ts p" by blast
    have "path_from_root ts (p @ [t])"
      using p u less.prems by (intro path_from_root_snoc) auto
    then show ?thesis
      using p(1) unfolding unfold u(2) by (intro exI [of _ "p @ [t]"]) simp
  qed
qed

lemma session_ok_leaf:
  assumes "session_ok (s, w)" and "branch_leaf_turn_id b s = Inr leaf"
  shows "leaf = [] \<or> leaf \<in> turn_id ` set (turns s)"
  using branch_leaf_cases [OF assms(2)] assms(1) by (auto simp: session_ok_def)

lemma branch_path_ok:
  assumes ok: "session_ok (s, w)" and b: "b \<in> branch_id ` set (branches s)" and ne: "b \<noteq> []"
  shows "\<exists>p leaf. branch_path (Some b) s = Inr (Some p) \<and> branch_leaf_turn_id b s = Inr leaf \<and>
    path_from_root (turns s) p \<and> (if leaf = [] then p = [] else p \<noteq> [] \<and> turn_id (last p) = leaf)"
proof -
  from get_branch_present [OF b] obtain br where br: "get_branch b s = Inr br"
    by (auto simp: get_branch_def)
  from branch_leaf_total [OF b] obtain leaf where leaf: "branch_leaf_turn_id b s = Inr leaf" ..
  have bp: "branch_path (Some b) s
      = Inr (map_option rev (path_loop (turns_by_id (turns s)) leaf []))"
    using ne br leaf by (simp add: branch_path_def)
  show ?thesis
  proof (cases "leaf = []")
    case True
    then have "path_loop (turns_by_id (turns s)) leaf [] = Some []" by (simp add: path_loop.simps)
    with True leaf bp show ?thesis by (auto simp: path_from_root_def)
  next
    case False
    with session_ok_leaf [OF ok leaf] obtain t where t: "t \<in> set (turns s)" "turn_id t = leaf" by auto
    have "lineage [] (turns s)" using ok by (simp add: session_ok_def)
    from path_loop_lineage [OF this t(1), of "[]"] obtain p where
      "path_loop (turns_by_id (turns s)) leaf [] = Some (rev p)" "p \<noteq> []" "last p = t"
      "path_from_root (turns s) p" by (auto simp: t(2))
    with False leaf bp t(2) show ?thesis by (intro exI [of _ p] exI [of _ leaf]) simp
  qed
qed

subsection \<open>The event log as the source of truth\<close>

record turn_view =
  tv_id :: string
  tv_role :: string
  tv_branch :: string
  tv_parent :: string
  tv_outcome :: turn_outcome
  tv_tokens :: int
  tv_error :: string

record session_view =
  sv_status :: session_status
  sv_summary :: string
  sv_active_branch :: string
  sv_active_turn :: string
  sv_branches :: "(string \<times> string \<times> string) list"
  sv_turns :: "turn_view list"

definition turn_view_of :: "turn \<Rightarrow> turn_view" where
  "turn_view_of t = \<lparr>tv_id = turn_id t, tv_role = turn_role t, tv_branch = turn_branch t,
     tv_parent = parent_turn_id t, tv_outcome = turn_outcome t, tv_tokens = turn_tokens t,
     tv_error = turn_error t\<rparr>"

definition session_view_of :: "session \<Rightarrow> session_view" where
  "session_view_of s = \<lparr>sv_status = ses_status s, sv_summary = ses_summary s,
     sv_active_branch = active_branch_id s, sv_active_turn = active_turn_id s,
     sv_branches = map (\<lambda>b. (branch_id b, branch_parent b, branch_label b)) (branches s),
     sv_turns = map turn_view_of (turns s)\<rparr>"

definition fresh_session_view :: session_view where
  "fresh_session_view = \<lparr>sv_status = SesActive, sv_summary = [], sv_active_branch = ''main'',
     sv_active_turn = [], sv_branches = [(''main'', [], ''Main'')], sv_turns = []\<rparr>"

definition view_turn_update :: "string \<Rightarrow> (turn_view \<Rightarrow> turn_view) \<Rightarrow> session_view \<Rightarrow> session_view" where
  "view_turn_update i g v = v\<lparr>sv_turns := update_by tv_id i g (sv_turns v)\<rparr>"

text \<open>What a consumer of the log (a replay, an observer) does with one event.\<close>

definition apply_session_event :: "session_event \<Rightarrow> session_view \<Rightarrow> session_view" where
  "apply_session_event e v = (let p = event_payload e; i = dict_str ''turn_id'' p in
     case event_type e of
       SessionCreated \<Rightarrow> v
     | SessionPaused \<Rightarrow> v\<lparr>sv_status := SesPaused\<rparr>
     | SessionResumed \<Rightarrow> v\<lparr>sv_status := SesActive\<rparr>
     | SessionCompleted \<Rightarrow> v\<lparr>sv_status := SesCompleted, sv_summary := dict_str ''summary'' p\<rparr>
     | SessionFailed \<Rightarrow> v\<lparr>sv_status := SesFailed\<rparr>
     | SessionCanceled \<Rightarrow> v\<lparr>sv_status := SesCanceled\<rparr>
     | TurnSubmitted \<Rightarrow> v\<lparr>sv_turns := sv_turns v @
           [\<lparr>tv_id = i, tv_role = dict_str ''role'' p, tv_branch = dict_str ''branch_id'' p,
             tv_parent = dict_str ''parent_turn_id'' p, tv_outcome = TurnPending, tv_tokens = 0,
             tv_error = []\<rparr>], sv_active_turn := i\<rparr>
     | TurnCompletedEv \<Rightarrow> view_turn_update i
           (\<lambda>t. t\<lparr>tv_outcome := TurnDone, tv_tokens := dict_int ''tokens_used'' p\<rparr>) v
     | TurnInterruptedEv \<Rightarrow> view_turn_update i
           (\<lambda>t. t\<lparr>tv_outcome := TurnInterrupted, tv_error := dict_str ''reason'' p\<rparr>) v
     | TurnFailedEv \<Rightarrow> view_turn_update i
           (\<lambda>t. t\<lparr>tv_outcome := TurnFailed, tv_error := dict_str ''error'' p\<rparr>) v
     | BranchCreated \<Rightarrow> v\<lparr>sv_branches := sv_branches v @
           [(dict_str ''branch_id'' p, dict_str ''parent_turn_id'' p, dict_str ''label'' p)]\<rparr>
     | BranchSwitched \<Rightarrow> v\<lparr>sv_active_branch := dict_str ''branch_id'' p,
           sv_active_turn := dict_str ''active_turn_id'' p\<rparr>
     | BranchSummarized \<Rightarrow> v)"

text \<open>One emitted event: it is appended, and it accounts for the change of view.\<close>

abbreviation accounted :: "session \<Rightarrow> session \<Rightarrow> bool" where
  "accounted \<equiv> accounts ses_events apply_session_event session_view_of"

lemma accounted_emit:
  assumes eq: "(s', w') = touch_emit ty p s1 w1" and ev: "ses_events s1 = ses_events s"
    and app: "\<And>eid ts. apply_session_event \<lparr>event_id = eid, event_type = ty, event_timestamp = ts,
       event_payload = dict_merge [(''session_id'', JStr (session_id s1))] p\<rparr> (session_view_of s)
       = session_view_of s1"
  shows "accounted s s'"
proof -
  obtain eid ts where "ses_events s' = ses_events s1 @
     [\<lparr>event_id = eid, event_type = ty, event_timestamp = ts,
       event_payload = dict_merge [(''session_id'', JStr (session_id s1))] p\<rparr>]"
    using touch_emit_events [of ty p s1 w1] eq by (metis fst_conv)
  moreover have "session_view_of s' = session_view_of s1"
    using eq by (metis (no_types, lifting) fst_conv session_view_of_def touch_emit_fields)
  ultimately show ?thesis using ev app by (intro accounts_one) auto
qed

lemmas view_simps = apply_session_event_def session_view_of_def view_turn_update_def
  dict_str_def dict_int_def turn_view_of_def Let_def

lemma map_turn_view_update:
  "(\<And>t. turn_view_of (g t) = g' (turn_view_of t)) \<Longrightarrow>
   map turn_view_of (update_by turn_id i g ts) = update_by tv_id i g' (map turn_view_of ts)"
  by (rule map_update_by_commute) (simp_all add: turn_view_of_def)

lemma accounted_switch: "switch_branch b s w = Inr (s', w') \<Longrightarrow> accounted s s'"
  by (erule switch_branch_Inr, erule accounted_emit) (simp_all add: view_simps)

lemma accounted_fork: "fork_from_turn i bid l x s w = Inr (br, s', w') \<Longrightarrow> accounted s s'"
  by (erule fork_from_turn_Inr, rule accounts_trans [OF accounted_emit accounted_switch], assumption)
     (simp_all add: view_simps)

lemma session_step_accounted: "session_step c c' \<Longrightarrow> accounted (fst c) (fst c')"
proof (induction rule: session_step.induct)
  case (st_submit p r s w t s' w')
  then show ?case unfolding fst_conv
    by (elim submit_turn_Inr) (erule accounted_emit, simp_all add: view_simps)
next
  case (st_complete_turn i r k s w s' w')
  show ?case unfolding fst_conv
    by (rule accounted_emit [OF complete_turn_Inr [OF st_complete_turn.hyps, THEN conjunct2]])
       (simp_all add: view_simps, rule map_turn_view_update [symmetric], simp add: turn_view_of_def)
next
  case (st_interrupt_turn i r s w s' w')
  show ?case unfolding fst_conv
    by (rule accounted_emit [OF interrupt_turn_Inr [OF st_interrupt_turn.hyps, THEN conjunct2]])
       (simp_all add: view_simps, rule map_turn_view_update [symmetric], simp add: turn_view_of_def)
next
  case (st_fail_turn i r s w s' w')
  show ?case unfolding fst_conv
    by (rule accounted_emit [OF fail_turn_Inr [OF st_fail_turn.hyps, THEN conjunct2]])
       (simp_all add: view_simps, rule map_turn_view_update [symmetric], simp add: turn_view_of_def)
next
  case (st_fork i b l x s w br s' w')
  then show ?case by (simp add: accounted_fork)
next
  case (st_switch b s w s' w')
  then show ?case by (simp add: accounted_switch)
next
  case (st_summarize b x s w s' w')
  show ?case unfolding fst_conv
    by (rule accounted_emit [OF summarize_branch_Inr [OF st_summarize.hyps, THEN conjunct2]])
       (simp_all add: view_simps map_update_by_keep)
qed (unfold session_life_Inr fst_conv, (elim conjE, erule accounted_emit, simp, simp add: view_simps)+)

interpretation session_log: event_sourced session_start session_step "\<lambda>c. ses_events (fst c)"
  apply_session_event fresh_session_view "\<lambda>c. session_view_of (fst c)"
proof unfold_locales
  show "fold apply_session_event (ses_events (fst c)) fresh_session_view = session_view_of (fst c)"
    if "session_start c" for c
    using that
    by (auto simp: session_start_def create_session_def default_branches_def session_emit_def
        fresh_session_view_def view_simps split_beta)
  show "accounts (\<lambda>c. ses_events (fst c)) apply_session_event (\<lambda>c. session_view_of (fst c)) c c'"
    if "session_step c c'" for c c'
    using session_step_accounted [OF that] by (simp add: accounts_def)
qed

subsection \<open>Terminal states\<close>

lemma session_step_terminal:
  "session_step c c' \<Longrightarrow> ses_terminal (ses_status (fst c)) \<Longrightarrow>
   ses_status (fst c') = ses_status (fst c) \<and> map turn_id (turns (fst c')) = map turn_id (turns (fst c))"
proof (induction rule: session_step.induct)
  case (st_submit p r s w t s' w')
  then show ?case by (auto simp: submit_turn_def ses_terminal_def split: if_splits)
next
  case (st_complete_turn i r k s w s' w')
  from arg_cong [OF complete_turn_Inr [OF this(1), THEN conjunct2], of fst] show ?case
    by (simp add: map_update_by_keep)
next
  case (st_interrupt_turn i r s w s' w')
  from arg_cong [OF interrupt_turn_Inr [OF this(1), THEN conjunct2], of fst] show ?case
    by (simp add: map_update_by_keep)
next
  case (st_fail_turn i r s w s' w')
  from arg_cong [OF fail_turn_Inr [OF this(1), THEN conjunct2], of fst] show ?case
    by (simp add: map_update_by_keep)
next
  case (st_summarize b x s w s' w')
  from arg_cong [OF summarize_branch_Inr [OF this(1), THEN conjunct2], of fst] show ?case by simp
next
  case (st_switch b s w s' w')
  then show ?case by (elim switch_branch_Inr) (drule arg_cong [of _ _ fst], simp)
next
  case (st_fork i b l x s w br s' w')
  from st_fork.hyps show ?case
    by (elim fork_from_turn_Inr switch_branch_Inr)
       (drule arg_cong [of _ "touch_emit _ _ _ _" fst], drule arg_cong [of _ "touch_emit _ _ _ _" fst], simp)
next
  case (st_resume s w s' w')
  then show ?case by (auto simp: resume_session_Inr ses_terminal_def)
next
  case (st_pause s w s' w')
  then show ?case by (auto simp: pause_session_Inr ses_terminal_def)
qed (simp_all add: session_life_Inr)

interpretation session_life: lifecycle session_step
  "\<lambda>c. (ses_status (fst c), map turn_id (turns (fst c)))" "\<lambda>(st, _). ses_terminal st"
  by unfold_locales (auto dest: session_step_terminal)

end
