(* ===== verification/Session_Claims.thy ===== *)
theory Session_Claims
  imports Session_Props
begin

text \<open>
  The properties of the session aggregate, with a concrete run that witnesses them.
\<close>

subsection \<open>A concrete run\<close>

definition demo_created :: "session \<times> world" where
  "demo_created = create_session ''ship it'' None demo_world"

definition demo_submitted :: "session \<times> world" where
  "demo_submitted = (case submit_turn ''hello'' ''user'' (fst demo_created) (snd demo_created) of
     Inr (t, c) \<Rightarrow> c | Inl _ \<Rightarrow> demo_created)"

definition demo_finished :: "session \<times> world" where
  "demo_finished = (case complete_session ''done'' (fst demo_submitted) (snd demo_submitted) of
     Inr c \<Rightarrow> c | Inl _ \<Rightarrow> demo_submitted)"

lemma demo_submitted_step: "session_step demo_created demo_submitted"
proof -
  have "\<exists>t. submit_turn ''hello'' ''user'' (fst demo_created) (snd demo_created)
      = Inr (t, fst demo_submitted, snd demo_submitted)"
    by (simp add: demo_submitted_def demo_created_def create_session_def default_branches_def
        session_emit_def submit_turn_def Let_def split_beta)
  then show ?thesis by (metis prod.collapse st_submit)
qed

lemma demo_finished_step: "session_step demo_submitted demo_finished"
proof -
  have "ses_status (fst demo_submitted) = SesActive" by code_simp
  then have "complete_session ''done'' (fst demo_submitted) (snd demo_submitted)
      = Inr (fst demo_finished, snd demo_finished)"
    by (simp add: demo_finished_def session_ops ses_terminal_def)
  then show ?thesis by (metis prod.collapse st_complete)
qed

lemma demo_reach:
  "reach session_start session_step demo_created"
  "reach session_start session_step demo_submitted"
  "reach session_start session_step demo_finished"
proof -
  show r: "reach session_start session_step demo_created"
    by (rule reach_start) (auto simp: session_start_def demo_created_def)
  show r2: "reach session_start session_step demo_submitted"
    using r demo_submitted_step by (rule reach_step)
  show "reach session_start session_step demo_finished"
    using r2 demo_finished_step by (rule reach_step)
qed

lemma demo_fresh: "ids_fresh 12 (snd demo_submitted)"
  by code_simp

subsection \<open>Properties\<close>

text \<open>
  C9. In every session reachable through the session's own methods whose drawn identifiers do
  not collide, \<open>branch_path\<close> of an existing branch returns (its parent-following loop ends),
  and it returns the chain of turns from a root turn (no parent) to the branch's leaf: each
  turn is the parent of the next, turn indexes strictly increase, all turns belong to the
  session, and the path is empty exactly when the branch has no leaf turn.
\<close>

theorem session_branch_path:
  assumes "reach session_start session_step (s, w)" and "ids_fresh 12 w"
    and "b \<in> branch_id ` set (branches s)" and "b \<noteq> []"
  shows "\<exists>p leaf. branch_path (Some b) s = Inr (Some p) \<and> branch_leaf_turn_id b s = Inr leaf \<and>
    path_from_root (turns s) p \<and> (if leaf = [] then p = [] else p \<noteq> [] \<and> turn_id (last p) = leaf)"
proof -
  have "session_ok (s, w)"
    using session_sys.reach_inv [OF assms(1)] assms(2) by simp
  then show ?thesis using assms(3,4) by (rule branch_path_ok)
qed

theorem session_branch_path_witness:
  "\<exists>p leaf. branch_path (Some ''main'') (fst demo_submitted) = Inr (Some p) \<and>
    branch_leaf_turn_id ''main'' (fst demo_submitted) = Inr leaf \<and>
    path_from_root (turns (fst demo_submitted)) p \<and>
    (if leaf = [] then p = [] else p \<noteq> [] \<and> turn_id (last p) = leaf)"
proof -
  have b: "''main'' \<in> branch_id ` set (branches (fst demo_submitted))" by code_simp
  show ?thesis
    using session_branch_path [of "fst demo_submitted" "snd demo_submitted" "''main''"]
      demo_reach(2) demo_fresh b by simp
qed

text \<open>
  C10. The event log of a session determines its state: applying the recorded events in order
  to the view of a fresh session gives exactly the life-cycle status, the summary, the active
  branch and turn, the branches with their parents, and every turn with its role, branch,
  parent, outcome, token count and error.
\<close>

theorem session_replay:
  assumes "reach session_start session_step (s, w)"
  shows "fold apply_session_event (ses_events s) fresh_session_view = session_view_of s"
  using session_log.replay [OF assms] by simp

theorem session_replay_witness:
  "fold apply_session_event (ses_events (fst demo_finished)) fresh_session_view
     = session_view_of (fst demo_finished) \<and> sv_status (session_view_of (fst demo_finished)) = SesCompleted"
proof -
  have "sv_status (session_view_of (fst demo_finished)) = SesCompleted" by code_simp
  then show ?thesis
    using session_replay [of "fst demo_finished" "snd demo_finished"] demo_reach(3) by simp
qed

text \<open>
  Completed, failed and canceled are absorbing: whatever methods are called afterwards, the
  status of the session never changes again and no turn is added to it.
\<close>

theorem session_terminal_absorbing:
  assumes "session_step\<^sup>*\<^sup>* (s, w) (s', w')" and "ses_terminal (ses_status s)"
  shows "ses_status s' = ses_status s \<and> map turn_id (turns s') = map turn_id (turns s)"
  using session_life.terminal_forever [OF assms(1)] assms(2) by simp

theorem session_terminal_absorbing_witness:
  "ses_status (fst demo_finished) = SesCompleted \<and>
   (\<exists>s' w'. session_step\<^sup>*\<^sup>* demo_finished (s', w') \<and> ses_updated_at s' \<noteq> ses_updated_at (fst demo_finished) \<and>
      ses_status s' = SesCompleted \<and> map turn_id (turns s') = map turn_id (turns (fst demo_finished)))"
proof -
  have st: "ses_status (fst demo_finished) = SesCompleted" by code_simp
  have m: "''main'' \<in> branch_id ` set (branches (fst demo_finished))" by code_simp
  obtain leaf where leaf: "branch_leaf_turn_id ''main'' (fst demo_finished) = Inr leaf"
    using branch_leaf_total [OF m] by blast
  obtain s' w' where sw: "switch_branch ''main'' (fst demo_finished) (snd demo_finished) = Inr (s', w')"
    using switch_branch_present [OF m leaf] by (metis prod.collapse)
  have upd: "ses_updated_at s' \<noteq> ses_updated_at (fst demo_finished)"
  proof -
    have "(case switch_branch ''main'' (fst demo_finished) (snd demo_finished) of
        Inr (x, _) \<Rightarrow> ses_updated_at x \<noteq> ses_updated_at (fst demo_finished) | Inl _ \<Rightarrow> False)"
      by code_simp
    then show ?thesis by (simp add: sw)
  qed
  have step: "session_step\<^sup>*\<^sup>* (fst demo_finished, snd demo_finished) (s', w')"
    using st_switch [OF sw] by blast
  from session_terminal_absorbing [OF step] st have
    "ses_status s' = SesCompleted \<and> map turn_id (turns s') = map turn_id (turns (fst demo_finished))"
    by (simp add: ses_terminal_def)
  with st upd step show ?thesis by auto
qed

text \<open>
  The parent-following loop of \<open>branch_path\<close> has no guard of its own: on turns whose
  parents lead round a cycle (which the methods never build, but a session loaded from JSON is
  not checked for) it never returns.
\<close>

theorem path_loop_diverges_on_cycle:
  assumes "cur \<in> S" and "\<And>i. i \<in> S \<Longrightarrow> i \<noteq> [] \<and> (\<exists>t. by_id i = Some t \<and> parent_turn_id t \<in> S)"
  shows "path_loop by_id cur path = None"
proof (rule ccontr)
  assume "path_loop by_id cur path \<noteq> None"
  then obtain r where "path_loop by_id cur path = Some r" by blast
  then have "by_id = by_id \<longrightarrow> cur \<notin> S"
  proof (rule path_loop.raw_induct [where P = "\<lambda>m cur path r. m = by_id \<longrightarrow> cur \<notin> S", rotated])
    fix f m c p r
    assume IH: "\<And>m c p r. f m c p = Some r \<Longrightarrow> m = by_id \<longrightarrow> c \<notin> S"
      and eq: "(if c = [] then Some p else case m c of None \<Rightarrow> Some p
          | Some t \<Rightarrow> f m (parent_turn_id t) (p @ [t])) = Some r"
    show "m = by_id \<longrightarrow> c \<notin> S"
      using assms(2) [of c] eq IH by (auto split: if_splits option.splits)
  qed
  with assms(1) show False by simp
qed

definition demo_cycle_turn :: turn where
  "demo_cycle_turn = \<lparr>turn_id = ''a'', turn_index = 0, turn_prompt = [], turn_role = ''user'',
     parent_turn_id = ''a'', turn_branch = ''main'', turn_label = [], turn_response = [],
     turn_outcome = TurnPending, turn_error = [], turn_tokens = 0, turn_started_at = [],
     turn_completed_at = []\<rparr>"

theorem path_loop_diverges_on_cycle_witness:
  "path_loop (turns_by_id [demo_cycle_turn]) ''a'' [] = None"
  by (rule path_loop_diverges_on_cycle [where S = "{''a''}"])
     (auto simp: turns_by_id_def demo_cycle_turn_def)

end
