(* ===== verification/Supervisor.thy ===== *)
theory Supervisor
  imports Transition
begin

text \<open>
  The session supervisor of \<^verbatim>\<open>session/supervisor.py\<close>: the life cycle of one supervised entry,
  the registry keyed by session identifier, the clean-up of stale entries and the JSON file
  that survives a restart.

  Idle times are floats. The model keeps their type abstract: an ordered type with an addition
  and a 1 and no algebraic law, so nothing rests on exact arithmetic. Parsing a time stamp and
  subtracting it from the current time is \<open>datetime\<close>'s work: the parameter \<open>idle_of\<close>, with
  \<open>None\<close> for the \<open>ValueError\<close> or \<open>TypeError\<close> that the code catches; \<open>fmt0\<close> is the
  \<open>:.0f\<close> rendering.
\<close>

subsection \<open>Entries\<close>

datatype supervisor_state = Launching | Running | Waiting | Stopping | Stopped | EntryCompleted | EntryFailed

fun supervisor_state_value :: "supervisor_state \<Rightarrow> string" where
  "supervisor_state_value Launching = ''launching''"
| "supervisor_state_value Running = ''running''"
| "supervisor_state_value Waiting = ''waiting''"
| "supervisor_state_value Stopping = ''stopping''"
| "supervisor_state_value Stopped = ''stopped''"
| "supervisor_state_value EntryCompleted = ''completed''"
| "supervisor_state_value EntryFailed = ''failed''"

definition supervisor_states :: "supervisor_state list" where
  "supervisor_states = [Launching, Running, Waiting, Stopping, Stopped, EntryCompleted, EntryFailed]"

definition supervisor_state_of :: "string \<Rightarrow> supervisor_state option" where
  "supervisor_state_of x = find_by supervisor_state_value x supervisor_states"

definition alive_states :: "supervisor_state set" where
  "alive_states = {Launching, Running, Waiting, Stopping}"

definition alive_state :: "supervisor_state \<Rightarrow> bool" where
  "alive_state st \<longleftrightarrow> st \<in> alive_states"

lemma alive_state_iff [simp]: "alive_state st \<longleftrightarrow> st = Launching \<or> st = Running \<or> st = Waiting \<or> st = Stopping"
  by (simp add: alive_state_def alive_states_def)

record entry =
  entry_id :: string
  entry_session :: string
  entry_goal :: string
  entry_workspace :: string
  entry_state :: supervisor_state
  blocked_reason :: string
  entry_error :: string
  entry_created_at :: string
  last_activity_at :: string
  entry_metadata :: dict

definition create_entry :: "string \<Rightarrow> string \<Rightarrow> string \<Rightarrow> dict option \<Rightarrow> world \<Rightarrow> entry \<times> world" where
  "create_entry sid goal workspace metadata w =
     (let (eid, w1) = uuid_hex 12 w; (t1, w2) = now w1; (t2, w3) = now w2
      in (\<lparr>entry_id = eid, entry_session = sid, entry_goal = goal, entry_workspace = workspace,
           entry_state = Launching, blocked_reason = '''', entry_error = '''', entry_created_at = t1,
           last_activity_at = t2, entry_metadata = (case metadata of Some m \<Rightarrow> m | None \<Rightarrow> [])\<rparr>, w3))"

definition entry_touch :: "entry \<Rightarrow> world \<Rightarrow> entry \<times> world" where
  "entry_touch e w = (let (ts, w1) = now w in (e\<lparr>last_activity_at := ts\<rparr>, w1))"

definition require_state :: "supervisor_state set \<Rightarrow> string \<Rightarrow> entry \<Rightarrow> unit res" where
  "require_state allowed action e =
     (if entry_state e \<notin> allowed
      then Inl (ValueError (''Cannot '' @ action @ '' from state='' @ supervisor_state_value (entry_state e)))
      else Inr ())"

definition mark_running :: "entry \<Rightarrow> world \<Rightarrow> (entry \<times> world) res" where
  "mark_running e w = (case require_state {Launching, Waiting} ''mark entry running'' e of
       Inl x \<Rightarrow> Inl x
     | Inr _ \<Rightarrow> Inr (entry_touch (e\<lparr>entry_state := Running, blocked_reason := ''''\<rparr>) w))"

definition mark_waiting :: "string \<Rightarrow> entry \<Rightarrow> world \<Rightarrow> (entry \<times> world) res" where
  "mark_waiting reason e w = (case require_state {Launching, Running} ''mark entry waiting'' e of
       Inl x \<Rightarrow> Inl x
     | Inr _ \<Rightarrow> Inr (entry_touch (e\<lparr>entry_state := Waiting, blocked_reason := reason\<rparr>) w))"

definition mark_completed :: "entry \<Rightarrow> world \<Rightarrow> (entry \<times> world) res" where
  "mark_completed e w =
     (case require_state {Launching, Running, Waiting, Stopping} ''mark entry completed'' e of
       Inl x \<Rightarrow> Inl x
     | Inr _ \<Rightarrow> Inr (entry_touch (e\<lparr>entry_state := EntryCompleted, blocked_reason := ''''\<rparr>) w))"

definition mark_failed :: "string \<Rightarrow> entry \<Rightarrow> world \<Rightarrow> (entry \<times> world) res" where
  "mark_failed err e w = (case require_state alive_states ''mark entry failed'' e of
       Inl x \<Rightarrow> Inl x
     | Inr _ \<Rightarrow> Inr (entry_touch (e\<lparr>entry_state := EntryFailed, blocked_reason := '''', entry_error := err\<rparr>) w))"

definition request_stop :: "entry \<Rightarrow> world \<Rightarrow> (entry \<times> world) res" where
  "request_stop e w = (case require_state {Launching, Running, Waiting} ''request stop for entry'' e of
       Inl x \<Rightarrow> Inl x
     | Inr _ \<Rightarrow> Inr (entry_touch (e\<lparr>entry_state := Stopping, blocked_reason := ''''\<rparr>) w))"

definition mark_stopped :: "entry \<Rightarrow> world \<Rightarrow> (entry \<times> world) res" where
  "mark_stopped e w = (case require_state {Stopping} ''mark entry stopped'' e of
       Inl x \<Rightarrow> Inl x
     | Inr _ \<Rightarrow> Inr (entry_touch (e\<lparr>entry_state := Stopped, blocked_reason := ''''\<rparr>) w))"

definition heartbeat :: "entry \<Rightarrow> world \<Rightarrow> entry \<times> world" where
  "heartbeat e w = entry_touch e w"

definition entry_is_alive :: "entry \<Rightarrow> bool" where
  "entry_is_alive e \<longleftrightarrow> alive_state (entry_state e)"

subsection \<open>The registry\<close>

type_synonym supervisor = "(string \<times> entry) list"

definition sup_launch ::
  "string \<Rightarrow> string \<Rightarrow> string \<Rightarrow> dict option \<Rightarrow> supervisor \<Rightarrow> world \<Rightarrow> (entry \<times> supervisor \<times> world) res" where
  "sup_launch sid goal workspace metadata reg w =
     (if map_of reg sid \<noteq> None
      then Inl (ValueError (''Session '' @ [CHR 0x27] @ sid @ [CHR 0x27] @ '' is already supervised''))
      else let (e, w1) = create_entry sid goal workspace metadata w
           in Inr (e, AList.update sid e reg, w1))"

definition sup_get :: "string \<Rightarrow> supervisor \<Rightarrow> entry option" where
  "sup_get sid reg = map_of reg sid"

definition sup_list_active :: "supervisor \<Rightarrow> entry list" where
  "sup_list_active reg = filter entry_is_alive (map snd reg)"

definition sup_list_all :: "supervisor \<Rightarrow> entry list" where
  "sup_list_all reg = map snd reg"

definition sup_stop :: "string \<Rightarrow> supervisor \<Rightarrow> world \<Rightarrow> (supervisor \<times> world) res" where
  "sup_stop sid reg w = (case map_of reg sid of
       None \<Rightarrow> Inl (KeyError (''Session '' @ [CHR 0x27] @ sid @ [CHR 0x27] @ '' not found in supervisor''))
     | Some e \<Rightarrow> (case request_stop e w of
           Inl x \<Rightarrow> Inl x
         | Inr (e', w') \<Rightarrow> Inr (AList.update sid e' reg, w')))"

definition sup_remove :: "string \<Rightarrow> supervisor \<Rightarrow> bool \<times> supervisor" where
  "sup_remove sid reg = (map_of reg sid \<noteq> None, AList.delete sid reg)"

text \<open>
  \<open>idle = (now - last).total_seconds()\<close>, or \<open>max_idle_seconds + 1\<close> when the stamp cannot be
  parsed or compared.
\<close>

definition entry_idle ::
  "(string \<Rightarrow> string \<Rightarrow> 'f option) \<Rightarrow> string \<Rightarrow> ('f::{linorder,plus,one}) \<Rightarrow> entry \<Rightarrow> 'f" where
  "entry_idle idle_of nw max_idle e = (case idle_of nw (last_activity_at e) of
       Some d \<Rightarrow> d | None \<Rightarrow> max_idle + 1)"

fun cleanup_entries ::
  "(string \<Rightarrow> string \<Rightarrow> 'f option) \<Rightarrow> ('f \<Rightarrow> string) \<Rightarrow> string \<Rightarrow> ('f::{linorder,plus,one}) \<Rightarrow>
   supervisor \<Rightarrow> world \<Rightarrow> (string list \<times> supervisor \<times> world) res" where
  "cleanup_entries idle_of fmt0 nw max_idle [] w = Inr ([], [], w)"
| "cleanup_entries idle_of fmt0 nw max_idle ((k, e) # es) w =
     (if \<not> entry_is_alive e
      then (case cleanup_entries idle_of fmt0 nw max_idle es w of
              Inl x \<Rightarrow> Inl x
            | Inr (c, es', w') \<Rightarrow> Inr (c, (k, e) # es', w'))
      else let idle = entry_idle idle_of nw max_idle e in
        if idle > max_idle
        then (case mark_failed (''stale: no activity for '' @ fmt0 idle @ ''s'') e w of
                Inl x \<Rightarrow> Inl x
              | Inr (e', w1) \<Rightarrow>
                  (case cleanup_entries idle_of fmt0 nw max_idle es w1 of
                     Inl x \<Rightarrow> Inl x
                   | Inr (c, es', w') \<Rightarrow> Inr (entry_session e # c, (k, e') # es', w')))
        else (case cleanup_entries idle_of fmt0 nw max_idle es w of
                Inl x \<Rightarrow> Inl x
              | Inr (c, es', w') \<Rightarrow> Inr (c, (k, e) # es', w')))"

definition cleanup_stale ::
  "(string \<Rightarrow> string \<Rightarrow> 'f option) \<Rightarrow> ('f \<Rightarrow> string) \<Rightarrow> ('f::{linorder,plus,one}) \<Rightarrow>
   supervisor \<Rightarrow> world \<Rightarrow> (string list \<times> supervisor \<times> world) res" where
  "cleanup_stale idle_of fmt0 max_idle reg w =
     (let (nw, w1) = now w in cleanup_entries idle_of fmt0 nw max_idle reg w1)"

subsection \<open>Persistence\<close>

text \<open>\<open>json.dumps\<close> and \<open>json.loads\<close> are the standard library's: the file holds the value itself.\<close>

datatype json_file = FileMissing | FileUnreadable | FileJson json

definition entry_dump :: "entry \<Rightarrow> json" where
  "entry_dump e = JObj
     [(''entry_id'', JStr (entry_id e)), (''session_id'', JStr (entry_session e)),
      (''goal'', JStr (entry_goal e)), (''workspace'', JStr (entry_workspace e)),
      (''state'', JStr (supervisor_state_value (entry_state e))),
      (''blocked_reason'', JStr (blocked_reason e)), (''error'', JStr (entry_error e)),
      (''created_at'', JStr (entry_created_at e)), (''last_activity_at'', JStr (last_activity_at e)),
      (''metadata'', JObj (entry_metadata e))]"

text \<open>A pydantic string field: present and a string, present and wrong, or absent (default).\<close>

definition str_field :: "string \<Rightarrow> string option \<Rightarrow> dict \<Rightarrow> string option" where
  "str_field k dflt d = (case map_of d k of
       Some (JStr x) \<Rightarrow> Some x | Some _ \<Rightarrow> None | None \<Rightarrow> dflt)"

definition drawn_field :: "string \<Rightarrow> (world \<Rightarrow> string \<times> world) \<Rightarrow> dict \<Rightarrow> world \<Rightarrow> string option \<times> world" where
  "drawn_field k factory d w = (case map_of d k of
       Some (JStr x) \<Rightarrow> (Some x, w)
     | Some _ \<Rightarrow> (None, w)
     | None \<Rightarrow> (let (x, w') = factory w in (Some x, w')))"

text \<open>\<open>SupervisedEntry.model_validate\<close>: \<open>None\<close> is the \<open>ValidationError\<close>; unknown keys are ignored.\<close>

definition entry_validate :: "json \<Rightarrow> world \<Rightarrow> entry option \<times> world" where
  "entry_validate j w = (case j of
     JObj d \<Rightarrow>
       (let (eid, w1) = drawn_field ''entry_id'' (uuid_hex 12) d w;
            (t1, w2) = drawn_field ''created_at'' now d w1;
            (t2, w3) = drawn_field ''last_activity_at'' now d w2;
            st = (case map_of d ''state'' of
                    Some (JStr x) \<Rightarrow> supervisor_state_of x | Some _ \<Rightarrow> None | None \<Rightarrow> Some Launching);
            md = (case map_of d ''metadata'' of
                    Some (JObj m) \<Rightarrow> Some m | Some _ \<Rightarrow> None | None \<Rightarrow> Some [])
        in (case (eid, str_field ''session_id'' None d, str_field ''goal'' None d,
                  str_field ''workspace'' (Some '''') d, st) of
              (Some a, Some b, Some c, Some ws, Some s) \<Rightarrow>
                (case (str_field ''blocked_reason'' (Some '''') d, str_field ''error'' (Some '''') d, t1, t2, md) of
                   (Some br, Some er, Some ca, Some la, Some m) \<Rightarrow>
                     (Some \<lparr>entry_id = a, entry_session = b, entry_goal = c, entry_workspace = ws,
                            entry_state = s, blocked_reason = br, entry_error = er,
                            entry_created_at = ca, last_activity_at = la, entry_metadata = m\<rparr>, w3)
                 | _ \<Rightarrow> (None, w3))
            | _ \<Rightarrow> (None, w3)))
   | _ \<Rightarrow> (None, w))"

definition supervisor_save :: "supervisor \<Rightarrow> json_file" where
  "supervisor_save reg = FileJson (JObj (map (\<lambda>(sid, e). (sid, entry_dump e)) reg))"

fun restore_entries :: "(string \<times> json) list \<Rightarrow> supervisor \<Rightarrow> world \<Rightarrow> supervisor \<times> world" where
  "restore_entries [] reg w = (reg, w)"
| "restore_entries ((sid, j) # raw) reg w =
     (case entry_validate j w of
        (None, w') \<Rightarrow> restore_entries raw reg w'
      | (Some e, w') \<Rightarrow> restore_entries raw (AList.update sid e reg) w')"

definition supervisor_restore :: "json_file \<Rightarrow> supervisor \<Rightarrow> world \<Rightarrow> supervisor \<times> world" where
  "supervisor_restore f reg w = (case f of
       FileMissing \<Rightarrow> (reg, w)
     | FileUnreadable \<Rightarrow> (reg, w)
     | FileJson (JObj raw) \<Rightarrow> restore_entries raw reg w
     | FileJson _ \<Rightarrow> (reg, w))"

subsection \<open>Entry life cycle\<close>

inductive entry_step :: "entry \<Rightarrow> entry \<Rightarrow> bool" where
  es_running: "mark_running e w = Inr (e', w') \<Longrightarrow> entry_step e e'"
| es_waiting: "mark_waiting r e w = Inr (e', w') \<Longrightarrow> entry_step e e'"
| es_completed: "mark_completed e w = Inr (e', w') \<Longrightarrow> entry_step e e'"
| es_failed: "mark_failed x e w = Inr (e', w') \<Longrightarrow> entry_step e e'"
| es_stop: "request_stop e w = Inr (e', w') \<Longrightarrow> entry_step e e'"
| es_stopped: "mark_stopped e w = Inr (e', w') \<Longrightarrow> entry_step e e'"
| es_heartbeat: "heartbeat e w = (e', w') \<Longrightarrow> entry_step e e'"

definition entry_start :: "entry \<Rightarrow> bool" where
  "entry_start e \<longleftrightarrow> (\<exists>sid g ws m w w'. create_entry sid g ws m w = (e, w'))"

lemmas entry_op_defs = mark_running_def mark_waiting_def mark_completed_def mark_failed_def
  request_stop_def mark_stopped_def heartbeat_def require_state_def alive_states_def entry_touch_def split_beta Let_def

lemma mark_running_Inr: "mark_running e w = Inr (e', w') \<longleftrightarrow> entry_state e \<in> {Launching, Waiting} \<and> w' = snd (now w) \<and>
    e' = e\<lparr>entry_state := Running, blocked_reason := [], last_activity_at := fst (now w)\<rparr>"
  by (auto simp: entry_op_defs)

lemma mark_waiting_Inr: "mark_waiting r e w = Inr (e', w') \<longleftrightarrow> entry_state e \<in> {Launching, Running} \<and> w' = snd (now w) \<and>
    e' = e\<lparr>entry_state := Waiting, blocked_reason := r, last_activity_at := fst (now w)\<rparr>"
  by (auto simp: entry_op_defs)

lemma mark_completed_Inr: "mark_completed e w = Inr (e', w') \<longleftrightarrow> alive_state (entry_state e) \<and> w' = snd (now w) \<and>
    e' = e\<lparr>entry_state := EntryCompleted, blocked_reason := [], last_activity_at := fst (now w)\<rparr>"
  by (auto simp: entry_op_defs)

lemma mark_failed_Inr: "mark_failed x e w = Inr (e', w') \<longleftrightarrow> alive_state (entry_state e) \<and> w' = snd (now w) \<and>
    e' = e\<lparr>entry_state := EntryFailed, blocked_reason := [], entry_error := x, last_activity_at := fst (now w)\<rparr>"
  by (auto simp: entry_op_defs)

lemma request_stop_Inr: "request_stop e w = Inr (e', w') \<longleftrightarrow> entry_state e \<in> {Launching, Running, Waiting} \<and> w' = snd (now w) \<and>
    e' = e\<lparr>entry_state := Stopping, blocked_reason := [], last_activity_at := fst (now w)\<rparr>"
  by (auto simp: entry_op_defs)

lemma mark_stopped_Inr: "mark_stopped e w = Inr (e', w') \<longleftrightarrow> entry_state e = Stopping \<and> w' = snd (now w) \<and>
    e' = e\<lparr>entry_state := Stopped, blocked_reason := [], last_activity_at := fst (now w)\<rparr>"
  by (auto simp: entry_op_defs)

lemma heartbeat_eq: "heartbeat e w = (e', w') \<longleftrightarrow>
    w' = snd (now w) \<and> e' = e\<lparr>last_activity_at := fst (now w)\<rparr>"
  by (auto simp: entry_op_defs)

lemmas entry_op_Inr = mark_running_Inr mark_waiting_Inr mark_completed_Inr mark_failed_Inr
  request_stop_Inr mark_stopped_Inr heartbeat_eq

text \<open>The allowed moves, read off the guards.\<close>

definition entry_moves :: "(supervisor_state \<times> supervisor_state) set" where
  "entry_moves = {(Launching, Running), (Waiting, Running), (Launching, Waiting), (Running, Waiting),
     (Launching, EntryCompleted), (Running, EntryCompleted), (Waiting, EntryCompleted), (Stopping, EntryCompleted),
     (Launching, EntryFailed), (Running, EntryFailed), (Waiting, EntryFailed), (Stopping, EntryFailed),
     (Launching, Stopping), (Running, Stopping), (Waiting, Stopping), (Stopping, Stopped)}"

lemma entry_step_moves:
  "entry_step e e' \<Longrightarrow> entry_state e' = entry_state e \<or> (entry_state e, entry_state e') \<in> entry_moves"
  by (induction rule: entry_step.induct; cases "entry_state e")
     (simp_all add: entry_op_Inr entry_moves_def)

lemma entry_step_ids:
  "entry_step e e' \<Longrightarrow> entry_id e' = entry_id e \<and> entry_session e' = entry_session e \<and>
     entry_goal e' = entry_goal e \<and> entry_metadata e' = entry_metadata e"
  by (induction rule: entry_step.induct) (simp_all add: entry_op_Inr)

interpretation entry_life: lifecycle entry_step entry_state "\<lambda>st. \<not> alive_state st"
proof unfold_locales
  fix e e'
  assume "\<not> alive_state (entry_state e)" and "entry_step e e'"
  then show "entry_state e' = entry_state e"
    using entry_step_moves [of e e'] by (auto simp: entry_moves_def)
qed

text \<open>
  Only a waiting entry carries a reason for waiting, only a failed one an error, from creation
  on through every transition.
\<close>

definition entry_ok :: "entry \<Rightarrow> bool" where
  "entry_ok e \<longleftrightarrow> (blocked_reason e \<noteq> [] \<longrightarrow> entry_state e = Waiting) \<and>
     (entry_error e \<noteq> [] \<longrightarrow> entry_state e = EntryFailed)"

interpretation entry_sys: invariant_system entry_start entry_step "\<lambda>_. True" entry_ok
proof unfold_locales
  show "entry_ok e" if "entry_start e" for e
    using that by (auto simp: entry_start_def create_entry_def entry_ok_def split_beta)
  show "entry_ok e'" if "entry_ok e" "True" "entry_step e e'" for e e'
    using that(3,1)
    by (induction rule: entry_step.induct)
       (auto simp: entry_op_Inr entry_ok_def)
qed simp_all

end
