(* ===== verification/Supervisor_Claims.thy ===== *)
theory Supervisor_Claims
  imports Supervisor
begin

text \<open>The properties of the session supervisor.\<close>

subsection \<open>Clean-up of stale entries\<close>

definition stale_entry ::
  "(string \<Rightarrow> string \<Rightarrow> 'f option) \<Rightarrow> string \<Rightarrow> ('f::{linorder,plus,one}) \<Rightarrow> entry \<Rightarrow> bool" where
  "stale_entry idle_of nw mx e \<longleftrightarrow> entry_is_alive e \<and> mx < entry_idle idle_of nw mx e"

definition cleaned_entry ::
  "(string \<Rightarrow> string \<Rightarrow> 'f option) \<Rightarrow> ('f \<Rightarrow> string) \<Rightarrow> string \<Rightarrow> ('f::{linorder,plus,one}) \<Rightarrow> entry \<Rightarrow> entry \<Rightarrow> bool" where
  "cleaned_entry idle_of fmt0 nw mx e e' \<longleftrightarrow>
     (if stale_entry idle_of nw mx e
      then \<exists>ts. e' = e\<lparr>entry_state := EntryFailed, blocked_reason := [],
             entry_error := ''stale: no activity for '' @ fmt0 (entry_idle idle_of nw mx e) @ ''s'',
             last_activity_at := ts\<rparr>
      else e' = e)"

lemma mark_failed_alive:
  "entry_is_alive e \<Longrightarrow> mark_failed x e w = Inr (e\<lparr>entry_state := EntryFailed, blocked_reason := [],
     entry_error := x, last_activity_at := fst (now w)\<rparr>, snd (now w))"
  by (simp add: entry_is_alive_def mark_failed_Inr del: alive_state_iff)

lemma cleanup_entries_spec:
  "\<exists>reg' w'. cleanup_entries idle_of fmt0 nw mx reg w =
      Inr (map (entry_session \<circ> snd) (filter (stale_entry idle_of nw mx \<circ> snd) reg), reg', w') \<and>
    map fst reg' = map fst reg \<and>
    list_all2 (cleaned_entry idle_of fmt0 nw mx) (map snd reg) (map snd reg')"
proof (induction reg arbitrary: w)
  case Nil
  then show ?case by simp
next
  case (Cons p es)
  obtain k e where p: "p = (k, e)" by fastforce
  show ?case
  proof (cases "stale_entry idle_of nw mx e")
    case True
    then have alive: "entry_is_alive e" and idle: "mx < entry_idle idle_of nw mx e"
      by (simp_all add: stale_entry_def)
    from Cons.IH [of "snd (now w)"] True alive idle show ?thesis
      by (fastforce simp: p mark_failed_alive cleaned_entry_def)
  next
    case False
    from Cons.IH [of w] False show ?thesis
      by (fastforce simp: p cleaned_entry_def stale_entry_def)
  qed
qed

text \<open>
  C28. The stale clean-up never raises, returns the session identifiers of exactly the alive
  entries whose idle time exceeds the limit (an entry whose time stamp cannot be read counts
  as idle for one more than the limit), in registry order, marks exactly these as failed with
  the recorded idle time and clears their waiting reason, and leaves every other entry and the
  registry's keys as they were.
\<close>

theorem cleanup_stale_spec:
  "\<exists>reg' w'. cleanup_stale idle_of fmt0 mx reg w =
      Inr (map (entry_session \<circ> snd) (filter (stale_entry idle_of (fst (now w)) mx \<circ> snd) reg), reg', w') \<and>
    map fst reg' = map fst reg \<and>
    list_all2 (cleaned_entry idle_of fmt0 (fst (now w)) mx) (map snd reg) (map snd reg')"
  unfolding cleanup_stale_def split_beta Let_def by (rule cleanup_entries_spec)

subsection \<open>Restart\<close>

lemma supervisor_state_of_value [simp]: "supervisor_state_of (supervisor_state_value st) = Some st"
  by (cases st) (simp_all add: supervisor_state_of_def supervisor_states_def)

lemma entry_validate_dump [simp]: "entry_validate (entry_dump e) w = (Some e, w)"
  by (simp add: entry_validate_def entry_dump_def drawn_field_def str_field_def)

lemma restore_dumped:
  "distinct (map fst (reg0 @ reg)) \<Longrightarrow>
   restore_entries (map (\<lambda>(sid, e). (sid, entry_dump e)) reg) reg0 w = (reg0 @ reg, w)"
proof (induction reg arbitrary: reg0)
  case Nil
  then show ?case by simp
next
  case (Cons p reg)
  obtain k e where p: "p = (k, e)" by fastforce
  have "AList.update k e reg0 = reg0 @ [p]"
    using Cons.prems by (simp add: p update_new_key)
  with Cons.IH [of "reg0 @ [p]"] Cons.prems show ?case by (simp add: p)
qed

text \<open>
  C29. A supervisor saved to disk and restored into a fresh one is the same supervisor: the same
  keys in the same order with the same entries, every field of every entry preserved, and no
  identifier or time stamp newly drawn.
\<close>

theorem supervisor_save_restore:
  assumes "distinct (map fst reg)"
  shows "supervisor_restore (supervisor_save reg) [] w = (reg, w)"
  using restore_dumped [of "[]" reg w] assms
  by (simp add: supervisor_restore_def supervisor_save_def)

definition demo_supervisor :: supervisor where
  "demo_supervisor = (case sup_launch ''s1'' ''g1'' [] None [] demo_world of
     Inl _ \<Rightarrow> [] | Inr (_, r, w) \<Rightarrow> (case sup_launch ''s2'' ''g2'' ''ws'' None r w of
       Inl _ \<Rightarrow> [] | Inr (_, r', w') \<Rightarrow> (case sup_stop ''s1'' r' w' of Inl _ \<Rightarrow> [] | Inr (r'', _) \<Rightarrow> r'')))"

theorem supervisor_save_restore_witness:
  "map (entry_state \<circ> snd) demo_supervisor = [Stopping, Launching] \<and>
   supervisor_restore (supervisor_save demo_supervisor) [] demo_world = (demo_supervisor, demo_world)"
proof -
  have "distinct (map fst demo_supervisor)" by code_simp
  moreover have "map (entry_state \<circ> snd) demo_supervisor = [Stopping, Launching]" by code_simp
  ultimately show ?thesis using supervisor_save_restore by blast
qed

subsection \<open>Entry life cycle\<close>

text \<open>
  Once a supervised entry is stopped, completed or failed, no later sequence of life-cycle
  calls changes its state; and along any such sequence its identifiers, goal and metadata
  never change.
\<close>

theorem entry_terminal_absorbing:
  assumes "entry_step\<^sup>*\<^sup>* e e'" and "\<not> alive_state (entry_state e)"
  shows "entry_state e' = entry_state e \<and> entry_id e' = entry_id e \<and>
    entry_session e' = entry_session e \<and> entry_goal e' = entry_goal e \<and> entry_metadata e' = entry_metadata e"
proof -
  have "entry_id e' = entry_id e \<and> entry_session e' = entry_session e \<and>
      entry_goal e' = entry_goal e \<and> entry_metadata e' = entry_metadata e"
    using assms(1) by (induction rule: rtranclp_induct) (simp, metis entry_step_ids)
  then show ?thesis using entry_life.terminal_forever [OF assms] by simp
qed

definition demo_dead_entry :: entry where
  "demo_dead_entry = (case mark_failed ''boom'' (fst (create_entry ''s'' ''g'' [] None demo_world)) demo_world of
     Inr (e, _) \<Rightarrow> e | Inl _ \<Rightarrow> fst (create_entry ''s'' ''g'' [] None demo_world))"

theorem entry_terminal_absorbing_witness:
  "entry_state demo_dead_entry = EntryFailed \<and> (\<exists>e'. entry_step\<^sup>*\<^sup>* demo_dead_entry e' \<and>
     entry_state e' = EntryFailed \<and> entry_error e' = ''boom'' \<and> last_activity_at e' \<noteq> last_activity_at demo_dead_entry)"
proof -
  let ?w = "demo_world\<lparr>ticks := 7\<rparr>"
  let ?e' = "fst (heartbeat demo_dead_entry ?w)"
  have dead: "entry_state demo_dead_entry = EntryFailed" by code_simp
  have step: "entry_step\<^sup>*\<^sup>* demo_dead_entry ?e'"
    by (rule r_into_rtranclp) (rule es_heartbeat [of _ ?w _ "snd (heartbeat demo_dead_entry ?w)"], simp)
  have "entry_state ?e' = EntryFailed"
    using entry_terminal_absorbing [OF step] dead by simp
  moreover have "entry_error ?e' = ''boom'' \<and> last_activity_at ?e' \<noteq> last_activity_at demo_dead_entry"
    by code_simp
  ultimately show ?thesis using dead step by blast
qed

end
