(* ===== verification/Coordinator.thy ===== *)
theory Coordinator
  imports Transition
begin

text \<open>
  The coordinator aggregate of \<^verbatim>\<open>session/coordinator.py\<close>: workers with lineage, fan-out and
  fan-in, and the coordinator's event log. A method that can raise after it has already
  changed the aggregate (\<open>fan_out\<close>) returns its outcome together with the state it leaves.
\<close>

subsection \<open>Data\<close>

datatype worker_status = WkPending | WkRunning | WkCompleted | WkFailed | WkRedirected

fun worker_status_value :: "worker_status \<Rightarrow> string" where
  "worker_status_value WkPending = ''pending''"
| "worker_status_value WkRunning = ''running''"
| "worker_status_value WkCompleted = ''completed''"
| "worker_status_value WkFailed = ''failed''"
| "worker_status_value WkRedirected = ''redirected''"

datatype coordinator_event_type =
    CoordinatorCreated | WorkerDelegated | WorkerStarted | WorkerCompleted | WorkerFailed
  | WorkerRedirected | FanOut | FanIn

fun coordinator_event_value :: "coordinator_event_type \<Rightarrow> string" where
  "coordinator_event_value CoordinatorCreated = ''coordinator_created''"
| "coordinator_event_value WorkerDelegated = ''worker_delegated''"
| "coordinator_event_value WorkerStarted = ''worker_started''"
| "coordinator_event_value WorkerCompleted = ''worker_completed''"
| "coordinator_event_value WorkerFailed = ''worker_failed''"
| "coordinator_event_value WorkerRedirected = ''worker_redirected''"
| "coordinator_event_value FanOut = ''fan_out''"
| "coordinator_event_value FanIn = ''fan_in''"

definition active_statuses :: "worker_status set" where
  "active_statuses = {WkPending, WkRunning}"

definition retryable_statuses :: "worker_status set" where
  "retryable_statuses = {WkFailed, WkRedirected}"

record coordinator_event =
  cev_id :: string
  cev_type :: coordinator_event_type
  cev_timestamp :: string
  cev_payload :: dict

record worker =
  worker_id :: string
  worker_task :: string
  worker_role :: string
  worker_status :: worker_status
  worker_result :: string
  worker_error :: string
  redirect_reason :: string
  parent_worker_id :: string
  worker_created_at :: string
  worker_completed_at :: string

record coordinator =
  coordinator_id :: string
  coord_session :: string
  coord_goal :: string
  workers :: "worker list"
  coord_events :: "coordinator_event list"
  coord_created_at :: string

subsection \<open>One worker\<close>

definition create_worker :: "string \<Rightarrow> string \<Rightarrow> string \<Rightarrow> world \<Rightarrow> worker \<times> world" where
  "create_worker task role parent w =
     (let (wid, w1) = uuid_hex 12 w; (ts, w2) = now w1
      in (\<lparr>worker_id = wid, worker_task = task, worker_role = role, worker_status = WkPending,
           worker_result = '''', worker_error = '''', redirect_reason = '''', parent_worker_id = parent,
           worker_created_at = ts, worker_completed_at = ''''\<rparr>, w2))"

definition worker_require :: "worker_status set \<Rightarrow> string \<Rightarrow> worker \<Rightarrow> unit res" where
  "worker_require allowed action k =
     (if worker_status k \<notin> allowed
      then Inl (ValueError (''Cannot '' @ action @ '' from status='' @ worker_status_value (worker_status k)))
      else Inr ())"

definition worker_start :: "worker \<Rightarrow> worker res" where
  "worker_start k = (case worker_require {WkPending} ''start worker'' k of
       Inl x \<Rightarrow> Inl x
     | Inr _ \<Rightarrow> Inr (k\<lparr>worker_status := WkRunning\<rparr>))"

definition worker_complete :: "string \<Rightarrow> worker \<Rightarrow> world \<Rightarrow> (worker \<times> world) res" where
  "worker_complete result k w = (case worker_require {WkRunning} ''complete worker'' k of
       Inl x \<Rightarrow> Inl x
     | Inr _ \<Rightarrow> (let (ts, w1) = now w in
         Inr (k\<lparr>worker_status := WkCompleted, worker_result := result, worker_completed_at := ts\<rparr>, w1)))"

definition worker_fail :: "string \<Rightarrow> worker \<Rightarrow> world \<Rightarrow> (worker \<times> world) res" where
  "worker_fail err k w = (case worker_require {WkRunning} ''fail worker'' k of
       Inl x \<Rightarrow> Inl x
     | Inr _ \<Rightarrow> (let (ts, w1) = now w in
         Inr (k\<lparr>worker_status := WkFailed, worker_error := err, worker_completed_at := ts\<rparr>, w1)))"

definition worker_redirect :: "string \<Rightarrow> worker \<Rightarrow> world \<Rightarrow> (worker \<times> world) res" where
  "worker_redirect reason k w = (case worker_require {WkRunning} ''redirect worker'' k of
       Inl x \<Rightarrow> Inl x
     | Inr _ \<Rightarrow> (let (ts, w1) = now w in
         Inr (k\<lparr>worker_status := WkRedirected, redirect_reason := reason, worker_completed_at := ts\<rparr>, w1)))"

definition worker_is_active :: "worker \<Rightarrow> bool" where
  "worker_is_active k \<longleftrightarrow> worker_status k \<in> active_statuses"

subsection \<open>The aggregate\<close>

definition coord_emit :: "coordinator_event_type \<Rightarrow> dict \<Rightarrow> coordinator \<Rightarrow> world \<Rightarrow> coordinator \<times> world" where
  "coord_emit ty payload c w =
     (let (eid, w1) = uuid_hex 12 w; (ts, w2) = now w1;
          e = \<lparr>cev_id = eid, cev_type = ty, cev_timestamp = ts,
               cev_payload = dict_merge [(''coordinator_id'', JStr (coordinator_id c))] payload\<rparr>
      in (c\<lparr>coord_events := coord_events c @ [e]\<rparr>, w2))"

definition create_coordinator :: "string \<Rightarrow> string \<Rightarrow> world \<Rightarrow> coordinator \<times> world" where
  "create_coordinator sid goal w =
     (let (cid, w1) = uuid_hex 12 w; (ts, w2) = now w1;
          c = \<lparr>coordinator_id = cid, coord_session = sid, coord_goal = goal, workers = [],
               coord_events = [], coord_created_at = ts\<rparr>
      in coord_emit CoordinatorCreated [(''goal'', JStr goal)] c w2)"

definition get_worker :: "string \<Rightarrow> coordinator \<Rightarrow> worker res" where
  "get_worker wid c = (case find_by worker_id wid (workers c) of
       Some k \<Rightarrow> Inr k
     | None \<Rightarrow> Inl (KeyError (''Worker '' @ wid @ '' not found'')))"

definition put_worker :: "string \<Rightarrow> worker \<Rightarrow> coordinator \<Rightarrow> coordinator" where
  "put_worker wid k c = c\<lparr>workers := update_by worker_id wid (\<lambda>_. k) (workers c)\<rparr>"

definition delegate :: "string \<Rightarrow> string \<Rightarrow> string \<Rightarrow> coordinator \<Rightarrow> world \<Rightarrow> worker \<times> coordinator \<times> world" where
  "delegate task role parent c w =
     (let (k, w1) = create_worker task role parent w;
          (c', w2) = coord_emit WorkerDelegated
            [(''worker_id'', JStr (worker_id k)), (''task'', JStr task), (''role'', JStr role)]
            (c\<lparr>workers := workers c @ [k]\<rparr>) w1
      in (k, c', w2))"

text \<open>
  \<open>self.delegate(**t)\<close>: the interpreter binds the keywords of one task and raises a
  \<open>TypeError\<close> for an unknown or a missing one, before the call (its message is not modelled).
\<close>

definition bind_delegate :: "(string \<times> string) list \<Rightarrow> (string \<times> string \<times> string) option" where
  "bind_delegate t =
     (if \<not> set (map fst t) \<subseteq> {''task'', ''role'', ''parent_worker_id''} then None
      else case (map_of t ''task'', map_of t ''role'') of
          (Some task, Some role) \<Rightarrow>
            Some (task, role, case map_of t ''parent_worker_id'' of Some p \<Rightarrow> p | None \<Rightarrow> '''')
        | _ \<Rightarrow> None)"

fun delegate_all ::
  "(string \<times> string) list list \<Rightarrow> coordinator \<Rightarrow> world \<Rightarrow> worker list res \<times> coordinator \<times> world" where
  "delegate_all [] c w = (Inr [], c, w)"
| "delegate_all (t # ts) c w = (case bind_delegate t of
       None \<Rightarrow> (Inl (TypeError ''delegate''), c, w)
     | Some (task, role, parent) \<Rightarrow>
        (let (k, c1, w1) = delegate task role parent c w in
         (case delegate_all ts c1 w1 of
            (Inl x, c2, w2) \<Rightarrow> (Inl x, c2, w2)
          | (Inr ks, c2, w2) \<Rightarrow> (Inr (k # ks), c2, w2))))"

definition fan_out ::
  "(string \<times> string) list list \<Rightarrow> coordinator \<Rightarrow> world \<Rightarrow> worker list res \<times> coordinator \<times> world" where
  "fan_out tasks c w = (case delegate_all tasks c w of
       (Inl x, c1, w1) \<Rightarrow> (Inl x, c1, w1)
     | (Inr ks, c1, w1) \<Rightarrow>
        (let (c2, w2) = coord_emit FanOut
           [(''worker_ids'', JList (map (\<lambda>k. JStr (worker_id k)) ks)), (''count'', JInt (int (length ks)))] c1 w1
         in (Inr ks, c2, w2)))"

definition fan_in :: "coordinator \<Rightarrow> world \<Rightarrow> string list \<times> coordinator \<times> world" where
  "fan_in c w =
     (let results = map worker_result (filter (\<lambda>k. worker_status k = WkCompleted) (workers c));
          (c', w') = coord_emit FanIn [(''result_count'', JInt (int (length results)))] c w
      in (results, c', w'))"

definition worker_event_payload :: "string \<Rightarrow> dict option \<Rightarrow> dict" where
  "worker_event_payload wid details =
     AList.update ''worker_id'' (JStr wid)
       (dict_merge [(''worker_id'', JStr wid)] (case details of Some d \<Rightarrow> d | None \<Rightarrow> []))"

definition failed_worker_event_payload :: "string \<Rightarrow> string \<Rightarrow> dict option \<Rightarrow> dict" where
  "failed_worker_event_payload wid err details =
     AList.update ''error'' (JStr err) (AList.update ''worker_id'' (JStr wid)
       (dict_merge [(''worker_id'', JStr wid), (''error'', JStr err)]
          (case details of Some d \<Rightarrow> d | None \<Rightarrow> [])))"

definition complete_worker ::
  "string \<Rightarrow> string \<Rightarrow> dict option \<Rightarrow> coordinator \<Rightarrow> world \<Rightarrow> (coordinator \<times> world) res" where
  "complete_worker wid result details c w = (case get_worker wid c of
       Inl x \<Rightarrow> Inl x
     | Inr k \<Rightarrow> (case worker_complete result k w of
           Inl x \<Rightarrow> Inl x
         | Inr (k', w1) \<Rightarrow>
             Inr (coord_emit WorkerCompleted (worker_event_payload wid details) (put_worker wid k' c) w1)))"

definition start_worker :: "string \<Rightarrow> dict option \<Rightarrow> coordinator \<Rightarrow> world \<Rightarrow> (coordinator \<times> world) res" where
  "start_worker wid details c w = (case get_worker wid c of
       Inl x \<Rightarrow> Inl x
     | Inr k \<Rightarrow> (case worker_start k of
           Inl x \<Rightarrow> Inl x
         | Inr k' \<Rightarrow>
             Inr (coord_emit WorkerStarted (worker_event_payload wid details) (put_worker wid k' c) w)))"

definition fail_worker ::
  "string \<Rightarrow> string \<Rightarrow> dict option \<Rightarrow> coordinator \<Rightarrow> world \<Rightarrow> (coordinator \<times> world) res" where
  "fail_worker wid err details c w = (case get_worker wid c of
       Inl x \<Rightarrow> Inl x
     | Inr k \<Rightarrow> (case worker_fail err k w of
           Inl x \<Rightarrow> Inl x
         | Inr (k', w1) \<Rightarrow>
             Inr (coord_emit WorkerFailed (failed_worker_event_payload wid err details) (put_worker wid k' c) w1)))"

definition stop_worker :: "string \<Rightarrow> string \<Rightarrow> coordinator \<Rightarrow> world \<Rightarrow> (coordinator \<times> world) res" where
  "stop_worker wid reason c w = (case get_worker wid c of
       Inl x \<Rightarrow> Inl x
     | Inr k \<Rightarrow> (case worker_redirect reason k w of
           Inl x \<Rightarrow> Inl x
         | Inr (k', w1) \<Rightarrow>
             Inr (coord_emit WorkerRedirected [(''worker_id'', JStr wid), (''reason'', JStr reason)]
               (put_worker wid k' c) w1)))"

definition retry_worker ::
  "string \<Rightarrow> string \<Rightarrow> coordinator \<Rightarrow> world \<Rightarrow> (worker \<times> coordinator \<times> world) res" where
  "retry_worker wid new_task c w = (case get_worker wid c of
       Inl x \<Rightarrow> Inl x
     | Inr parent \<Rightarrow>
        if worker_status parent \<notin> retryable_statuses
        then Inl (ValueError (''Cannot retry worker unless it is failed or redirected (status='' @
               worker_status_value (worker_status parent) @ '')''))
        else let task = (if new_task = '''' then worker_task parent else new_task)
             in Inr (delegate task (worker_role parent) (worker_id parent) c w))"

definition active_workers :: "coordinator \<Rightarrow> worker list" where
  "active_workers c = filter worker_is_active (workers c)"

definition completed_workers :: "coordinator \<Rightarrow> worker list" where
  "completed_workers c = filter (\<lambda>k. worker_status k = WkCompleted) (workers c)"

subsection \<open>Steps\<close>

inductive coord_step :: "coordinator \<times> world \<Rightarrow> coordinator \<times> world \<Rightarrow> bool" where
  cs_delegate: "delegate t r p c w = (k, c', w') \<Longrightarrow> coord_step (c, w) (c', w')"
| cs_fan_out: "fan_out ts c w = (r, c', w') \<Longrightarrow> coord_step (c, w) (c', w')"  \<comment> \<open>also when it raises\<close>
| cs_fan_in: "fan_in c w = (rs, c', w') \<Longrightarrow> coord_step (c, w) (c', w')"
| cs_start: "start_worker i d c w = Inr (c', w') \<Longrightarrow> coord_step (c, w) (c', w')"
| cs_complete: "complete_worker i r d c w = Inr (c', w') \<Longrightarrow> coord_step (c, w) (c', w')"
| cs_fail: "fail_worker i e d c w = Inr (c', w') \<Longrightarrow> coord_step (c, w) (c', w')"
| cs_stop: "stop_worker i r c w = Inr (c', w') \<Longrightarrow> coord_step (c, w) (c', w')"
| cs_retry: "retry_worker i t c w = Inr (k, c', w') \<Longrightarrow> coord_step (c, w) (c', w')"

text \<open>
  \<open>delegate\<close> and \<open>fan_out\<close> hand the \<open>Worker\<close> objects of the list themselves to the caller, who may
  call their methods directly; such a call records no event. \<open>coord_call D\<close> allows it on the workers
  whose identifiers are in \<open>D\<close>; \<open>coord_call UNIV\<close> is everything a caller can do through the methods.
\<close>

definition worker_changes :: "worker \<Rightarrow> world \<Rightarrow> worker \<times> world \<Rightarrow> bool" where
  "worker_changes k w s \<longleftrightarrow> (worker_start k = Inr (fst s) \<and> snd s = w) \<or> (\<exists>r. worker_complete r k w = Inr s) \<or>
     (\<exists>e. worker_fail e k w = Inr s) \<or> (\<exists>r. worker_redirect r k w = Inr s)"

inductive coord_call :: "string set \<Rightarrow> coordinator \<times> world \<Rightarrow> coordinator \<times> world \<Rightarrow> bool" for D where
  cc_coordinator: "coord_step s s' \<Longrightarrow> coord_call D s s'"
| cc_worker: "n < length (workers c) \<Longrightarrow> worker_id (workers c ! n) \<in> D \<Longrightarrow> worker_changes (workers c ! n) w (k, w') \<Longrightarrow>
    coord_call D (c, w) (c\<lparr>workers := (workers c)[n := k]\<rparr>, w')"

definition coord_start :: "coordinator \<times> world \<Rightarrow> bool" where
  "coord_start s \<longleftrightarrow> (\<exists>sid g w. s = create_coordinator sid g w)"

end
