(* ===== verification/Coordinator_Claims.thy ===== *)
theory Coordinator_Claims
  imports Coordinator
begin

text \<open>
  Correctness of the coordinator: the replay theorem of its event log, the absorbing worker
  states, and what fan-in and retry do.
\<close>

subsection \<open>The view a log consumer builds\<close>

record worker_view =
  wv_id :: string
  wv_task :: string
  wv_role :: string
  wv_status :: worker_status
  wv_error :: string
  wv_reason :: string

definition worker_view_of :: "worker \<Rightarrow> worker_view" where
  "worker_view_of k = \<lparr>wv_id = worker_id k, wv_task = worker_task k, wv_role = worker_role k,
     wv_status = worker_status k, wv_error = worker_error k, wv_reason = redirect_reason k\<rparr>"

definition coord_view :: "coordinator \<Rightarrow> worker_view list" where
  "coord_view c = map worker_view_of (workers c)"

definition apply_coord_event :: "coordinator_event \<Rightarrow> worker_view list \<Rightarrow> worker_view list" where
  "apply_coord_event e v = (let p = cev_payload e; i = dict_str ''worker_id'' p in
     case cev_type e of
       WorkerDelegated \<Rightarrow> v @ [\<lparr>wv_id = i, wv_task = dict_str ''task'' p, wv_role = dict_str ''role'' p,
           wv_status = WkPending, wv_error = [], wv_reason = []\<rparr>]
     | WorkerStarted \<Rightarrow> update_by wv_id i (\<lambda>k. k\<lparr>wv_status := WkRunning\<rparr>) v
     | WorkerCompleted \<Rightarrow> update_by wv_id i (\<lambda>k. k\<lparr>wv_status := WkCompleted\<rparr>) v
     | WorkerFailed \<Rightarrow> update_by wv_id i (\<lambda>k. k\<lparr>wv_status := WkFailed, wv_error := dict_str ''error'' p\<rparr>) v
     | WorkerRedirected \<Rightarrow> update_by wv_id i (\<lambda>k. k\<lparr>wv_status := WkRedirected, wv_reason := dict_str ''reason'' p\<rparr>) v
     | _ \<Rightarrow> v)"

abbreviation coord_accounted :: "coordinator \<Rightarrow> coordinator \<Rightarrow> bool" where
  "coord_accounted \<equiv> accounts coord_events apply_coord_event coord_view"

lemma coord_emit_workers [simp]: "workers (fst (coord_emit ty p c w)) = workers c"
  by (simp add: coord_emit_def Let_def split_beta)

lemma coord_emit_workersD: "coord_emit ty p c w = (c', w') \<Longrightarrow> workers c' = workers c"
  by (metis coord_emit_workers fst_conv)

lemma coord_emit_accounted:
  assumes eq: "coord_emit ty p c1 w1 = (c', w')" and ev: "coord_events c1 = coord_events c"
    and app: "\<And>eid ts. apply_coord_event \<lparr>cev_id = eid, cev_type = ty, cev_timestamp = ts,
       cev_payload = dict_merge [(''coordinator_id'', JStr (coordinator_id c1))] p\<rparr> (coord_view c) = coord_view c1"
  shows "coord_accounted c c'"
proof -
  obtain eid ts where e: "coord_events c' = coord_events c1 @
     [\<lparr>cev_id = eid, cev_type = ty, cev_timestamp = ts,
       cev_payload = dict_merge [(''coordinator_id'', JStr (coordinator_id c1))] p\<rparr>]"
    and v: "workers c' = workers c1"
    using eq by (auto simp: coord_emit_def Let_def split_beta)
  show ?thesis
  proof (rule accounts_one)
    show "coord_events c' = coord_events c @ [\<lparr>cev_id = eid, cev_type = ty, cev_timestamp = ts,
       cev_payload = dict_merge [(''coordinator_id'', JStr (coordinator_id c1))] p\<rparr>]"
      using e ev by simp
  qed (use app v in \<open>simp add: coord_view_def\<close>)
qed

subsection \<open>Single workers\<close>

lemma update_by_found:
  assumes "find_by f k xs = Some x" and "map_f (g x) = h (map_f x)" and "\<And>y. f' (map_f y) = f y"
  shows "map map_f (update_by f k (\<lambda>_. g x) xs) = update_by f' k h (map map_f xs)"
  using assms by (induction xs) (auto split: if_splits)

lemma coord_view_put:
  assumes "find_by worker_id i (workers c) = Some k" and "worker_view_of (g k) = h (worker_view_of k)"
  shows "coord_view (put_worker i (g k) c) = update_by wv_id i h (coord_view c)"
  unfolding coord_view_def put_worker_def
  using update_by_found [of worker_id i "workers c" k worker_view_of g h wv_id] assms
  by (simp add: worker_view_of_def)

lemma get_worker_Inr: "get_worker i c = Inr k \<longleftrightarrow> find_by worker_id i (workers c) = Some k"
  by (auto simp: get_worker_def split: option.split dest: find_by_SomeD)

lemma worker_payload_id:
  "dict_str ''worker_id'' (dict_merge d (worker_event_payload i x)) = i"
  "dict_str ''worker_id'' (dict_merge d (failed_worker_event_payload i e x)) = i"
  "dict_str ''error'' (dict_merge d (failed_worker_event_payload i e x)) = e"
  unfolding worker_event_payload_def failed_worker_event_payload_def
  by (rule dict_str_merge;
      simp add: AList.update_conv' distinct_dict_merge AList.distinct_update)+

lemmas worker_op_defs = worker_start_def worker_complete_def worker_fail_def worker_redirect_def
  worker_require_def

lemma put_worker_fields [simp]:
  "coord_events (put_worker i k c) = coord_events c"
  "coordinator_id (put_worker i k c) = coordinator_id c"
  by (simp_all add: put_worker_def)

text \<open>
  Every worker operation has the same shape: the worker found first under the identifier is in
  one of the states that allow it, it is replaced, and one event is recorded.
\<close>

lemma start_worker_Inr:
  assumes "start_worker i d c w = Inr (c', w')"
  obtains k where "find_by worker_id i (workers c) = Some k" and "worker_status k = WkPending"
    and "coord_emit WorkerStarted (worker_event_payload i d)
      (put_worker i (k\<lparr>worker_status := WkRunning\<rparr>) c) w = (c', w')"
  using assms by (auto simp: start_worker_def get_worker_Inr worker_op_defs split: sum.splits if_splits)

lemma complete_worker_Inr:
  assumes "complete_worker i r d c w = Inr (c', w')"
  obtains k where "find_by worker_id i (workers c) = Some k" and "worker_status k = WkRunning"
    and "coord_emit WorkerCompleted (worker_event_payload i d)
      (put_worker i (k\<lparr>worker_status := WkCompleted, worker_result := r, worker_completed_at := fst (now w)\<rparr>) c)
      (snd (now w)) = (c', w')"
  using assms by (auto simp: complete_worker_def get_worker_Inr worker_op_defs Let_def split_beta
      split: sum.splits if_splits)

lemma fail_worker_Inr:
  assumes "fail_worker i e d c w = Inr (c', w')"
  obtains k where "find_by worker_id i (workers c) = Some k" and "worker_status k = WkRunning"
    and "coord_emit WorkerFailed (failed_worker_event_payload i e d)
      (put_worker i (k\<lparr>worker_status := WkFailed, worker_error := e, worker_completed_at := fst (now w)\<rparr>) c)
      (snd (now w)) = (c', w')"
  using assms by (auto simp: fail_worker_def get_worker_Inr worker_op_defs Let_def split_beta
      split: sum.splits if_splits)

lemma stop_worker_Inr:
  assumes "stop_worker i r c w = Inr (c', w')"
  obtains k where "find_by worker_id i (workers c) = Some k" and "worker_status k = WkRunning"
    and "coord_emit WorkerRedirected [(''worker_id'', JStr i), (''reason'', JStr r)]
      (put_worker i (k\<lparr>worker_status := WkRedirected, redirect_reason := r, worker_completed_at := fst (now w)\<rparr>) c)
      (snd (now w)) = (c', w')"
  using assms by (auto simp: stop_worker_def get_worker_Inr worker_op_defs Let_def split_beta
      split: sum.splits if_splits)

lemma delegate_accounted:
  assumes "delegate t r p c w = (k, c', w')"
  shows "coord_accounted c c'"
proof -
  obtain k' w1 where k: "create_worker t r p w = (k', w1)" by fastforce
  with assms have "coord_emit WorkerDelegated
      [(''worker_id'', JStr (worker_id k')), (''task'', JStr t), (''role'', JStr r)]
      (c\<lparr>workers := workers c @ [k']\<rparr>) w1 = (c', w')"
    by (auto simp: delegate_def Let_def split: prod.splits)
  then show ?thesis
    by (rule coord_emit_accounted)
       (use k in \<open>auto simp: create_worker_def Let_def split_beta apply_coord_event_def
          coord_view_def worker_view_of_def dict_str_def\<close>)
qed

lemma delegate_all_accounted: "delegate_all ts c w = (r, c', w') \<Longrightarrow> coord_accounted c c'"
proof (induction ts c w arbitrary: r c' w' rule: delegate_all.induct)
  case (1 c w)
  then show ?case by simp
next
  case (2 t ts c w)
  show ?case
  proof (cases "bind_delegate t")
    case None
    with "2.prems" show ?thesis by simp
  next
    case (Some b)
    obtain task role parent where b: "b = (task, role, parent)" by (metis prod_cases3)
    obtain k c1 w1 where d: "delegate task role parent c w = (k, c1, w1)" by (metis prod_cases3)
    obtain r2 c2 w2 where da: "delegate_all ts c1 w1 = (r2, c2, w2)" by (metis prod_cases3)
    have "coord_accounted c1 c2"
      by (rule "2.IH" [OF Some b [symmetric] refl d [symmetric] refl refl da])
    moreover have "c' = c2" using "2.prems" by (auto simp: Some b d da split: sum.splits)
    ultimately show ?thesis using delegate_accounted [OF d] by (metis accounts_trans)
  qed
qed

lemma fan_out_accounted:
  assumes "fan_out ts c w = (r, c', w')"
  shows "coord_accounted c c'"
proof -
  obtain r1 c1 w1 where da: "delegate_all ts c w = (r1, c1, w1)" by (metis prod_cases3)
  show ?thesis
  proof (cases r1)
    case (Inl x)
    with assms da show ?thesis by (auto simp: fan_out_def intro: delegate_all_accounted)
  next
    case (Inr ks)
    with assms da have "coord_emit FanOut [(''worker_ids'', JList (map (\<lambda>k. JStr (worker_id k)) ks)),
        (''count'', JInt (int (length ks)))] c1 w1 = (c', w')"
      by (auto simp: fan_out_def Let_def split: prod.splits)
    then have "coord_accounted c1 c'"
      by (rule coord_emit_accounted) (simp_all add: apply_coord_event_def)
    with delegate_all_accounted [OF da] show ?thesis by (rule accounts_trans)
  qed
qed

lemma coord_step_accounted: "coord_step s s' \<Longrightarrow> coord_accounted (fst s) (fst s')"
proof (induction rule: coord_step.induct)
  case (cs_delegate t r p c w k c' w')
  then show ?case by (simp add: delegate_accounted)
next
  case (cs_fan_out ts c w r c' w')
  then show ?case by (simp add: fan_out_accounted)
next
  case (cs_fan_in c w rs c' w')
  then have "coord_emit FanIn [(''result_count'', JInt (int (length rs)))] c w = (c', w')"
    by (auto simp: fan_in_def Let_def split: prod.splits)
  then have "coord_accounted c c'"
    by (rule coord_emit_accounted) (simp_all add: apply_coord_event_def)
  then show ?case by simp
next
  case (cs_start i d c w c' w')
  then show ?case unfolding fst_conv
    by (rule start_worker_Inr) (erule coord_emit_accounted,
        simp_all add: apply_coord_event_def worker_payload_id
          coord_view_put [where g = "\<lambda>k. k\<lparr>worker_status := WkRunning\<rparr>" and
            h = "\<lambda>k. k\<lparr>wv_status := WkRunning\<rparr>"] worker_view_of_def)
next
  case (cs_complete i r d c w c' w')
  then show ?case unfolding fst_conv
    by (rule complete_worker_Inr) (erule coord_emit_accounted,
        simp_all add: apply_coord_event_def worker_payload_id
          coord_view_put [where g = "\<lambda>k. k\<lparr>worker_status := WkCompleted, worker_result := r,
              worker_completed_at := fst (now w)\<rparr>" and
            h = "\<lambda>k. k\<lparr>wv_status := WkCompleted\<rparr>"] worker_view_of_def)
next
  case (cs_fail i e d c w c' w')
  then show ?case unfolding fst_conv
    by (rule fail_worker_Inr) (erule coord_emit_accounted,
        simp_all add: apply_coord_event_def worker_payload_id
          coord_view_put [where g = "\<lambda>k. k\<lparr>worker_status := WkFailed, worker_error := e,
              worker_completed_at := fst (now w)\<rparr>" and
            h = "\<lambda>k. k\<lparr>wv_status := WkFailed, wv_error := e\<rparr>"] worker_view_of_def)
next
  case (cs_stop i r c w c' w')
  then show ?case unfolding fst_conv
    by (rule stop_worker_Inr) (erule coord_emit_accounted,
        simp_all add: apply_coord_event_def dict_str_def
          coord_view_put [where g = "\<lambda>k. k\<lparr>worker_status := WkRedirected, redirect_reason := r,
              worker_completed_at := fst (now w)\<rparr>" and
            h = "\<lambda>k. k\<lparr>wv_status := WkRedirected, wv_reason := r\<rparr>"] worker_view_of_def)
next
  case (cs_retry i t c w k c' w')
  then show ?case
    by (auto simp: retry_worker_def get_worker_Inr Let_def intro: delegate_accounted
        split: sum.splits if_splits)
qed

interpretation coord_log: event_sourced coord_start coord_step "\<lambda>s. coord_events (fst s)"
  apply_coord_event "[]" "\<lambda>s. coord_view (fst s)"
proof unfold_locales
  show "fold apply_coord_event (coord_events (fst s)) [] = coord_view (fst s)" if "coord_start s" for s
    using that
    by (auto simp: coord_start_def create_coordinator_def coord_emit_def apply_coord_event_def
        coord_view_def split_beta Let_def)
  show "accounts (\<lambda>s. coord_events (fst s)) apply_coord_event (\<lambda>s. coord_view (fst s)) s s'"
    if "coord_step s s'" for s s'
    using coord_step_accounted [OF that] by (simp add: accounts_def)
qed

subsection \<open>Workers that a caller changes directly\<close>

text \<open>
  Two views of a worker agree outside \<open>D\<close>: the same worker, and the same in every respect unless
  its identifier is in \<open>D\<close>.
\<close>

definition agree_outside :: "string set \<Rightarrow> worker_view \<Rightarrow> worker_view \<Rightarrow> bool" where
  "agree_outside D a b \<longleftrightarrow> wv_id a = wv_id b \<and> wv_task a = wv_task b \<and> wv_role a = wv_role b \<and> (wv_id a \<notin> D \<longrightarrow> a = b)"

lemma agree_refl [simp]: "agree_outside D a a"
  by (simp add: agree_outside_def)

lemma agree_update:
  assumes "list_all2 (agree_outside D) u v" and "\<And>a b. agree_outside D a b \<Longrightarrow> agree_outside D (f a) (f b)"
  shows "list_all2 (agree_outside D) (update_by wv_id i f u) (update_by wv_id i f v)"
  using assms(1)
proof (induction rule: list_all2_induct)
  case (Cons a u b v)
  then have "wv_id a = wv_id b" by (simp add: agree_outside_def)
  with Cons assms(2) show ?case by simp
qed simp

lemma agree_set:
  assumes "agree_outside D a b"
  shows "agree_outside D (a\<lparr>wv_status := x\<rparr>) (b\<lparr>wv_status := x\<rparr>)"
    and "agree_outside D (a\<lparr>wv_error := y\<rparr>) (b\<lparr>wv_error := y\<rparr>)"
    and "agree_outside D (a\<lparr>wv_reason := y\<rparr>) (b\<lparr>wv_reason := y\<rparr>)"
proof -
  from assms consider "wv_id a = wv_id b" "wv_task a = wv_task b" "wv_role a = wv_role b" "wv_id a \<in> D" | "a = b"
    unfolding agree_outside_def by blast
  then show "agree_outside D (a\<lparr>wv_status := x\<rparr>) (b\<lparr>wv_status := x\<rparr>)"
    and "agree_outside D (a\<lparr>wv_error := y\<rparr>) (b\<lparr>wv_error := y\<rparr>)"
    and "agree_outside D (a\<lparr>wv_reason := y\<rparr>) (b\<lparr>wv_reason := y\<rparr>)"
    by (cases; simp add: agree_outside_def)+
qed

lemma agree_event:
  "list_all2 (agree_outside D) u v \<Longrightarrow> list_all2 (agree_outside D) (apply_coord_event e u) (apply_coord_event e v)"
  unfolding apply_coord_event_def Let_def
  by (cases "cev_type e"; simp only: coordinator_event_type.case;
    (assumption | rule list_all2_appendI, assumption, simp | rule agree_update, assumption, (intro agree_set)?, assumption))

lemma agree_events:
  "list_all2 (agree_outside D) u v \<Longrightarrow> list_all2 (agree_outside D) (fold apply_coord_event es u) (fold apply_coord_event es v)"
  by (induction es arbitrary: u v) (simp_all add: agree_event)

lemma worker_changes_view:
  "worker_changes k w (k', w') \<Longrightarrow> worker_id k' = worker_id k \<and> worker_task k' = worker_task k \<and> worker_role k' = worker_role k"
  by (auto simp: worker_changes_def worker_op_defs Let_def split_beta split: if_splits)

lemma direct_call_agrees:
  assumes "n < length (workers c)" and "worker_id (workers c ! n) \<in> D" and "worker_changes (workers c ! n) w (k, w')"
    and "list_all2 (agree_outside D) u (coord_view c)"
  shows "list_all2 (agree_outside D) u (coord_view (c\<lparr>workers := (workers c)[n := k]\<rparr>))"
proof (rule list_all2_all_nthI)
  show "length u = length (coord_view (c\<lparr>workers := (workers c)[n := k]\<rparr>))"
    using assms(4) by (simp add: coord_view_def list_all2_lengthD)
next
  fix m assume m: "m < length u"
  then have a: "agree_outside D (u ! m) (coord_view c ! m)" and l: "m < length (workers c)"
    using assms(4) by (auto simp: list_all2_conv_all_nth coord_view_def)
  show "agree_outside D (u ! m) (coord_view (c\<lparr>workers := (workers c)[n := k]\<rparr>) ! m)"
    using a l assms(1,2) worker_changes_view [OF assms(3)]
    by (cases "m = n") (auto simp: coord_view_def agree_outside_def worker_view_of_def)
qed

lemma coord_call_agrees:
  assumes "reach coord_start (coord_call D) s"
  shows "list_all2 (agree_outside D) (fold apply_coord_event (coord_events (fst s)) []) (coord_view (fst s))"
  using assms
proof (induction rule: reach.induct)
  case (reach_start s)
  then show ?case using coord_log.start_replay by (simp add: list_all2_refl)
next
  case (reach_step s s')
  from reach_step.hyps(2) reach_step.IH show ?case
  proof (induction rule: coord_call.induct)
    case (cc_coordinator s s')
    from coord_step_accounted [OF this(1)] obtain es where
      es: "coord_events (fst s') = coord_events (fst s) @ es" "fold apply_coord_event es (coord_view (fst s)) = coord_view (fst s')"
      by (auto simp: accounts_def)
    with agree_events [OF cc_coordinator.prems, of es] show ?case by simp
  next
    case (cc_worker n c w k w')
    with direct_call_agrees [OF cc_worker.hyps] show ?case by simp
  qed
qed

subsection \<open>Terminal workers\<close>

definition worker_terminal :: "worker \<Rightarrow> bool" where
  "worker_terminal k \<longleftrightarrow> worker_status k \<in> {WkCompleted, WkFailed, WkRedirected}"

text \<open>The worker at position \<open>n\<close>; workers are only ever appended.\<close>

definition worker_at :: "nat \<Rightarrow> coordinator \<times> world \<Rightarrow> worker option" where
  "worker_at n s = (if n < length (workers (fst s)) then Some (workers (fst s) ! n) else None)"

lemma update_by_nth_other:
  assumes "find_by f i xs = Some k" and "\<not> P k" and "n < length xs" and "P (xs ! n)"
  shows "update_by f i g xs ! n = xs ! n"
  using assms
proof (induction xs arbitrary: n)
  case Nil
  then show ?case by simp
next
  case (Cons x xs)
  then show ?case by (cases n) (auto split: if_splits)
qed

lemma put_worker_keeps_terminal:
  assumes "find_by worker_id i (workers c) = Some k" and "worker_status k \<in> active_statuses"
    and "worker_at n (c, w) = Some t" and "worker_terminal t"
  shows "worker_at n (put_worker i k' c, w') = Some t"
proof -
  have "\<not> worker_terminal k" using assms(2) by (auto simp: worker_terminal_def active_statuses_def)
  with assms show ?thesis
    by (auto simp: worker_at_def put_worker_def update_by_nth_other split: if_splits)
qed

lemma coord_emit_worker_at: "coord_emit ty p c w = (c', w') \<Longrightarrow> worker_at n (c', v) = worker_at n (c, v')"
  by (auto simp: worker_at_def coord_emit_def Let_def split_beta)

lemma append_worker_at: "worker_at n (c, w) = Some t \<Longrightarrow> workers c' = workers c @ ks \<Longrightarrow> worker_at n (c', w') = Some t"
  by (auto simp: worker_at_def nth_append split: if_splits)

lemma delegate_workers: "delegate t r p c w = (k, c', w') \<Longrightarrow> workers c' = workers c @ [k]"
  by (auto simp: delegate_def Let_def split: prod.splits dest!: coord_emit_workersD)

lemma delegate_all_workers: "delegate_all ts c w = (r, c', w') \<Longrightarrow> \<exists>ks. workers c' = workers c @ ks"
proof (induction ts c w arbitrary: r c' w' rule: delegate_all.induct)
  case (1 c w)
  then show ?case by simp
next
  case (2 t ts c w)
  show ?case
  proof (cases "bind_delegate t")
    case None
    with "2.prems" show ?thesis by simp
  next
    case (Some b)
    obtain task role parent where b: "b = (task, role, parent)" by (metis prod_cases3)
    obtain k c1 w1 where d: "delegate task role parent c w = (k, c1, w1)" by (metis prod_cases3)
    obtain r2 c2 w2 where da: "delegate_all ts c1 w1 = (r2, c2, w2)" by (metis prod_cases3)
    from "2.IH" [OF Some b [symmetric] refl d [symmetric] refl refl da]
    obtain ks where "workers c2 = workers c1 @ ks" ..
    moreover have "c' = c2" using "2.prems" by (auto simp: Some b d da split: sum.splits)
    ultimately show ?thesis using delegate_workers [OF d] by simp
  qed
qed

lemma fan_out_workers:
  assumes "fan_out ts c w = (r, c', w')"
  shows "\<exists>ks. workers c' = workers c @ ks"
proof -
  obtain r1 c1 w1 where da: "delegate_all ts c w = (r1, c1, w1)" by (metis prod_cases3)
  have "workers c' = workers c1"
    using assms da
    by (cases r1) (auto simp: fan_out_def Let_def split: prod.splits dest!: coord_emit_workersD)
  with delegate_all_workers [OF da] show ?thesis by simp
qed

lemma coord_step_terminal:
  "coord_step s s' \<Longrightarrow> worker_at n s = Some t \<Longrightarrow> worker_terminal t \<Longrightarrow> worker_at n s' = Some t"
proof (induction rule: coord_step.induct)
  case (cs_delegate t r p c w k c' w')
  then show ?case by (blast intro: append_worker_at delegate_workers)
next
  case (cs_fan_out ts c w r c' w')
  then show ?case using fan_out_workers append_worker_at by metis
next
  case (cs_fan_in c w rs c' w')
  then have "workers c' = workers c" 
    by (auto simp: fan_in_def Let_def split: prod.splits dest!: coord_emit_workersD)
  with cs_fan_in.prems show ?case by (simp add: worker_at_def split: if_splits)
next
  case (cs_start i d c w c' w')
  from cs_start.hyps cs_start.prems show ?case
    by (elim start_worker_Inr)
       (simp add: coord_emit_worker_at [of _ _ _ _ c' w' _ _ w] put_worker_keeps_terminal active_statuses_def)
next
  case (cs_complete i r d c w c' w')
  from cs_complete.hyps cs_complete.prems show ?case
    by (elim complete_worker_Inr)
       (simp add: coord_emit_worker_at [of _ _ _ _ c' w' _ _ w] put_worker_keeps_terminal active_statuses_def)
next
  case (cs_fail i e d c w c' w')
  from cs_fail.hyps cs_fail.prems show ?case
    by (elim fail_worker_Inr)
       (simp add: coord_emit_worker_at [of _ _ _ _ c' w' _ _ w] put_worker_keeps_terminal active_statuses_def)
next
  case (cs_stop i r c w c' w')
  from cs_stop.hyps cs_stop.prems show ?case
    by (elim stop_worker_Inr)
       (simp add: coord_emit_worker_at [of _ _ _ _ c' w' _ _ w] put_worker_keeps_terminal active_statuses_def)
next
  case (cs_retry i t c w k c' w')
  then show ?case
    by (auto simp: retry_worker_def get_worker_Inr Let_def intro: append_worker_at dest!: delegate_workers
        split: sum.splits if_splits)
qed

lemma coord_call_terminal:
  "coord_call D s s' \<Longrightarrow> worker_at n s = Some t \<Longrightarrow> worker_terminal t \<Longrightarrow> worker_at n s' = Some t"
proof (induction rule: coord_call.induct)
  case (cc_coordinator s s')
  then show ?case by (rule coord_step_terminal)
next
  case (cc_worker m c w k w')
  then have "\<not> worker_terminal (workers c ! m)"
    by (auto simp: worker_changes_def worker_op_defs worker_terminal_def Let_def split_beta split: if_splits)
  with cc_worker.prems show ?case by (cases "m = n") (auto simp: worker_at_def split: if_splits)
qed

interpretation worker_life: lifecycle "coord_call D" "worker_at n" "\<lambda>k. \<exists>t. k = Some t \<and> worker_terminal t" for D n
  by unfold_locales (auto dest: coord_call_terminal)

subsection \<open>Fan-out\<close>

text \<open>What a freshly delegated worker carries.\<close>

definition delegated_as :: "worker \<Rightarrow> string \<times> string \<times> string" where
  "delegated_as k = (worker_task k, worker_role k, parent_worker_id k)"

lemma delegate_worker:
  "delegate t r p c w = (k, c', w') \<Longrightarrow> delegated_as k = (t, r, p) \<and> worker_status k = WkPending"
  by (auto simp: delegate_def create_worker_def delegated_as_def Let_def split: prod.splits)

definition fan_out_outcome ::
  "(string \<times> string) list list \<Rightarrow> coordinator \<Rightarrow> worker list res \<Rightarrow> coordinator \<Rightarrow> bool" where
  "fan_out_outcome ts c r c' \<longleftrightarrow> (\<exists>ks. workers c' = workers c @ ks \<and>
     map (Some \<circ> delegated_as) ks = takeWhile (\<lambda>b. b \<noteq> None) (map bind_delegate ts) \<and>
     list_all (\<lambda>k. worker_status k = WkPending) ks \<and>
     (case r of Inr rs \<Rightarrow> rs = ks \<and> list_all (\<lambda>t. bind_delegate t \<noteq> None) ts
      | Inl x \<Rightarrow> x = TypeError ''delegate'' \<and> list_ex (\<lambda>t. bind_delegate t = None) ts))"

lemma delegate_all_outcome: "delegate_all ts c w = (r, c', w') \<Longrightarrow> fan_out_outcome ts c r c'"
proof (induction ts c w arbitrary: r c' w' rule: delegate_all.induct)
  case (1 c w)
  then show ?case by (auto simp: fan_out_outcome_def)
next
  case (2 t ts c w)
  show ?case
  proof (cases "bind_delegate t")
    case None
    with "2.prems" show ?thesis by (auto simp: fan_out_outcome_def)
  next
    case (Some b)
    obtain task role parent where b: "b = (task, role, parent)" by (metis prod_cases3)
    obtain k c1 w1 where d: "delegate task role parent c w = (k, c1, w1)" by (metis prod_cases3)
    obtain r2 c2 w2 where da: "delegate_all ts c1 w1 = (r2, c2, w2)" by (metis prod_cases3)
    have ih: "fan_out_outcome ts c1 r2 c2"
      by (rule "2.IH" [OF Some b [symmetric] refl d [symmetric] refl refl da])
    have eq: "c' = c2" and r: "r = (case r2 of Inl x \<Rightarrow> Inl x | Inr ks \<Rightarrow> Inr (k # ks))"
      using "2.prems" by (auto simp: Some b d da split: sum.splits)
    from ih obtain ks where "workers c2 = workers c1 @ ks"
      "map (Some \<circ> delegated_as) ks = takeWhile (\<lambda>b. b \<noteq> None) (map bind_delegate ts)"
      "list_all (\<lambda>k. worker_status k = WkPending) ks"
      "case r2 of Inr rs \<Rightarrow> rs = ks \<and> list_all (\<lambda>t. bind_delegate t \<noteq> None) ts
       | Inl x \<Rightarrow> x = TypeError ''delegate'' \<and> list_ex (\<lambda>t. bind_delegate t = None) ts"
      unfolding fan_out_outcome_def by blast
    with delegate_workers [OF d] delegate_worker [OF d] Some b eq r show ?thesis
      unfolding fan_out_outcome_def by (intro exI [of _ "k # ks"]) (simp split: sum.splits)
  qed
qed

subsection \<open>Properties\<close>

text \<open>
  C21. The coordinator's event log determines its workers, whatever a caller does. Applying the
  recorded events in order gives the workers in their order, each with its task and role, and with
  its status, error and redirect reason too unless the caller has called methods of that \<open>Worker\<close>
  object itself, which no event records (\<open>D\<close> holds the identifiers of those; with none the log
  gives exactly the workers). This holds although a caller may pass event details that carry keys of
  their own (a \<open>worker_id\<close> or an \<open>error\<close> in the details never masks the real one), and even after
  a fan-out that raised half-way. A worker's result and its parent are not in the log.
\<close>

theorem coordinator_replay:
  assumes "reach coord_start (coord_call D) (c, w)"
  shows "list_all2 (agree_outside D) (fold apply_coord_event (coord_events c) []) (coord_view c) \<and>
    (D = {} \<longrightarrow> fold apply_coord_event (coord_events c) [] = coord_view c)"
proof -
  have "list_all2 (agree_outside D) (fold apply_coord_event (coord_events c) []) (coord_view c)"
    using coord_call_agrees [OF assms] by simp
  moreover have "agree_outside {} = (=)" by (intro ext) (auto simp: agree_outside_def)
  ultimately show ?thesis by (auto simp: list_all2_eq)
qed

definition demo_coord :: "coordinator \<times> world" where
  "demo_coord = create_coordinator ''s'' ''g'' demo_world"

definition demo_coord_out :: "coordinator \<times> world" where
  "demo_coord_out = snd (fan_out [[(''task'', ''t1''), (''role'', ''r'')], [(''task'', ''t2''), (''role'', ''r'')],
     [(''task'', ''t3'')]] (fst demo_coord) (snd demo_coord))"

definition demo_worker_id :: string where
  "demo_worker_id = (case workers (fst demo_coord_out) of k # _ \<Rightarrow> worker_id k | [] \<Rightarrow> [])"

definition demo_coord_run :: "coordinator \<times> world" where
  "demo_coord_run = (case start_worker demo_worker_id (Some [(''worker_id'', JStr ''forged'')])
     (fst demo_coord_out) (snd demo_coord_out) of Inr s \<Rightarrow> s | Inl _ \<Rightarrow> demo_coord_out)"

definition demo_coord_done :: "coordinator \<times> world" where
  "demo_coord_done = (case fail_worker demo_worker_id ''no disk'' None (fst demo_coord_run) (snd demo_coord_run) of
     Inr s \<Rightarrow> s | Inl _ \<Rightarrow> demo_coord_run)"

text \<open>The caller then starts the second worker through the object that it was given.\<close>

definition demo_coord_direct :: "coordinator \<times> world" where
  "demo_coord_direct = (let c = fst demo_coord_done in case worker_start (workers c ! 1) of
     Inr k \<Rightarrow> (c\<lparr>workers := (workers c)[1 := k]\<rparr>, snd demo_coord_done) | Inl _ \<Rightarrow> demo_coord_done)"

definition demo_direct_id :: string where
  "demo_direct_id = worker_id (workers (fst demo_coord_done) ! 1)"

lemma demo_coord_reach:
  "coord_step demo_coord demo_coord_out"
  "coord_step demo_coord_out demo_coord_run" "coord_step demo_coord_run demo_coord_done"
proof -
  show "coord_step demo_coord demo_coord_out"
    using cs_fan_out [of "[[(''task'', ''t1''), (''role'', ''r'')], [(''task'', ''t2''), (''role'', ''r'')],
      [(''task'', ''t3'')]]" "fst demo_coord" "snd demo_coord"]
    unfolding demo_coord_out_def by (metis prod.collapse)
  have "(case start_worker demo_worker_id (Some [(''worker_id'', JStr ''forged'')])
     (fst demo_coord_out) (snd demo_coord_out) of Inr _ \<Rightarrow> True | Inl _ \<Rightarrow> False)" by code_simp
  then have "start_worker demo_worker_id (Some [(''worker_id'', JStr ''forged'')])
     (fst demo_coord_out) (snd demo_coord_out) = Inr (fst demo_coord_run, snd demo_coord_run)"
    by (auto simp: demo_coord_run_def split: sum.splits)
  then show "coord_step demo_coord_out demo_coord_run" by (metis cs_start prod.collapse)
  have "(case fail_worker demo_worker_id ''no disk'' None (fst demo_coord_run) (snd demo_coord_run) of
     Inr _ \<Rightarrow> True | Inl _ \<Rightarrow> False)" by code_simp
  then have "fail_worker demo_worker_id ''no disk'' None (fst demo_coord_run) (snd demo_coord_run)
      = Inr (fst demo_coord_done, snd demo_coord_done)"
    by (auto simp: demo_coord_done_def split: sum.splits)
  then show "coord_step demo_coord_run demo_coord_done" by (metis cs_fail prod.collapse)
qed

lemma demo_coord_direct_reach: "reach coord_start (coord_call {demo_direct_id}) demo_coord_direct"
proof -
  let ?c = "fst demo_coord_done" and ?D = "{demo_direct_id}"
  have "reach coord_start (coord_call ?D) demo_coord"
    by (rule reach_start) (auto simp: coord_start_def demo_coord_def)
  then have "reach coord_start (coord_call ?D) demo_coord_done"
    using demo_coord_reach(1-3) by (metis cc_coordinator reach_step)
  moreover have "coord_call ?D demo_coord_done demo_coord_direct"
  proof -
    have "length (workers ?c) = 2" by code_simp
    then have len: "1 < length (workers ?c)" by simp
    have "case worker_start (workers ?c ! 1) of Inr _ \<Rightarrow> True | Inl _ \<Rightarrow> False" by code_simp
    then obtain k where k: "worker_start (workers ?c ! 1) = Inr k" by (auto split: sum.splits)
    then have "worker_changes (workers ?c ! 1) (snd demo_coord_done) (k, snd demo_coord_done)"
      by (simp add: worker_changes_def)
    from cc_worker [OF len _ this, of ?D] k show ?thesis
      by (simp add: demo_coord_direct_def demo_direct_id_def Let_def)
  qed
  ultimately show ?thesis by (rule reach_step)
qed

theorem coordinator_replay_witness:
  "list_all2 (agree_outside {demo_direct_id}) (fold apply_coord_event (coord_events (fst demo_coord_direct)) [])
     (coord_view (fst demo_coord_direct)) \<and>
   map wv_status (fold apply_coord_event (coord_events (fst demo_coord_direct)) []) = [WkFailed, WkPending] \<and>
   map wv_status (coord_view (fst demo_coord_direct)) = [WkFailed, WkRunning] \<and>
   map wv_error (coord_view (fst demo_coord_direct)) = [''no disk'', []]"
proof (intro conjI)
  show "list_all2 (agree_outside {demo_direct_id}) (fold apply_coord_event (coord_events (fst demo_coord_direct)) [])
     (coord_view (fst demo_coord_direct))"
    using coordinator_replay [of "{demo_direct_id}" "fst demo_coord_direct" "snd demo_coord_direct"] demo_coord_direct_reach
    by simp
qed code_simp+

text \<open>
  A worker that is completed, failed or redirected is final: whatever the coordinator does
  afterwards (delegations, fan-outs, starts, completions, retries), and whatever its caller calls on
  the workers themselves, the worker at that position is still there with every field unchanged.
\<close>

theorem finished_worker_final:
  assumes "(coord_call D)\<^sup>*\<^sup>* (c, w) (c', w')" and "n < length (workers c)" and "worker_terminal (workers c ! n)"
  shows "n < length (workers c') \<and> workers c' ! n = workers c ! n"
  using worker_life.terminal_forever [OF assms(1), of n] assms(2,3)
  by (auto simp: worker_at_def split: if_splits)

theorem finished_worker_final_witness:
  "worker_error (workers (fst demo_coord_done) ! 0) = ''no disk'' \<and>
   (\<exists>c' w' k. retry_worker demo_worker_id [] (fst demo_coord_done) (snd demo_coord_done) = Inr (k, c', w') \<and>
      length (workers c') = 3 \<and> workers c' ! 0 = workers (fst demo_coord_done) ! 0)"
proof -
  let ?c = "fst demo_coord_done" and ?w = "snd demo_coord_done"
  have e: "worker_error (workers ?c ! 0) = ''no disk''" by code_simp
  have l: "0 < length (workers ?c)" by code_simp
  have t: "worker_terminal (workers ?c ! 0)" by code_simp
  have "(case retry_worker demo_worker_id [] ?c ?w of Inr (k, c', w') \<Rightarrow> length (workers c') = 3 | Inl _ \<Rightarrow> False)"
    by code_simp
  then obtain k c' w' where r: "retry_worker demo_worker_id [] ?c ?w = Inr (k, c', w')"
    and n: "length (workers c') = 3" by (auto split: sum.splits)
  have "(coord_call {})\<^sup>*\<^sup>* (?c, ?w) (c', w')" using cc_coordinator [OF cs_retry [OF r]] by blast
  from finished_worker_final [OF this l t] have "workers c' ! 0 = workers ?c ! 0" by simp
  with e n r show ?thesis by blast
qed

text \<open>
  C30. Fan-out delegates the tasks in order. If every task binds (it has a task and a role and
  no unknown key) it returns one pending worker per task, with the given task, role and parent.
  If one does not, it raises a \<open>TypeError\<close>, but the workers of the tasks before it stay
  registered: the call is not atomic.
\<close>

theorem fan_out_effect:
  assumes "fan_out ts c w = (r, c', w')"
  shows "fan_out_outcome ts c r c'"
proof -
  obtain r1 c1 w1 where da: "delegate_all ts c w = (r1, c1, w1)" by (metis prod_cases3)
  have "workers c' = workers c1 \<and> r = r1"
    using assms da
    by (cases r1) (auto simp: fan_out_def Let_def split: prod.splits dest!: coord_emit_workersD)
  with delegate_all_outcome [OF da] show ?thesis by (simp add: fan_out_outcome_def)
qed

theorem fan_out_effect_witness:
  "\<exists>ts r c' w'. fan_out ts (fst demo_coord) (snd demo_coord) = (r, c', w') \<and>
     r = Inl (TypeError ''delegate'') \<and> length (workers c') = 2 \<and> fan_out_outcome ts (fst demo_coord) r c'"
proof -
  let ?ts = "[[(''task'', ''t1''), (''role'', ''r'')], [(''task'', ''t2''), (''role'', ''r'')],
     [(''task'', ''t3'')]] :: (string \<times> string) list list"
  obtain r c' w' where f: "fan_out ?ts (fst demo_coord) (snd demo_coord) = (r, c', w')" by (metis prod_cases3)
  have "(case fan_out ?ts (fst demo_coord) (snd demo_coord) of
      (Inl x, d, _) \<Rightarrow> x = TypeError ''delegate'' \<and> length (workers d) = 2 | _ \<Rightarrow> False)" by code_simp
  then have "r = Inl (TypeError ''delegate'') \<and> length (workers c') = 2"
    by (auto simp: f split: sum.splits)
  with f fan_out_effect [OF f] show ?thesis by blast
qed

end
