(* ===== verification/RemoteBridge.thy ===== *)
theory RemoteBridge
  imports Transition
begin

text \<open>
  The remote mission bridge of \<^verbatim>\<open>session/remote_bridge.py\<close>: observers and controllers that
  connect to a mission, and the relay of approval requests that only controllers may decide.
  The two dicts of the bridge are association lists in insertion order. A request is a shared
  object: the caller of \<open>request_approval\<close> holds the very object that the bridge stores, so
  its own methods (\<open>timeout\<close> and \<open>cancel\<close>, which the bridge has no wrapper for) act on the
  stored request.
\<close>

datatype session_role = Viewer | Controller

record remote_session =
  rs_id :: string
  rs_mission :: string
  rs_operator :: string
  rs_role :: session_role
  rs_connected_at :: string

definition create_remote_session :: "string \<Rightarrow> string \<Rightarrow> session_role \<Rightarrow> world \<Rightarrow> remote_session \<times> world" where
  "create_remote_session sid operator role w =
     (let (i, w1) = uuid_hex 12 w; (t, w2) = now w1
      in (\<lparr>rs_id = i, rs_mission = sid, rs_operator = operator, rs_role = role, rs_connected_at = t\<rparr>, w2))"

definition can_approve :: "remote_session \<Rightarrow> bool" where
  "can_approve s \<longleftrightarrow> rs_role s = Controller"

definition can_control :: "remote_session \<Rightarrow> bool" where
  "can_control s \<longleftrightarrow> rs_role s = Controller"

record approval =
  ap_id :: string
  ap_action :: string
  ap_context :: string
  ap_status :: string
  ap_decided_by :: string
  ap_denial_reason :: string
  ap_created_at :: string
  ap_decided_at :: string

definition create_approval :: "string \<Rightarrow> string \<Rightarrow> world \<Rightarrow> approval \<times> world" where
  "create_approval action context w =
     (let (i, w1) = uuid_hex 12 w; (t, w2) = now w1
      in (\<lparr>ap_id = i, ap_action = action, ap_context = context, ap_status = ''pending'', ap_decided_by = '''',
           ap_denial_reason = '''', ap_created_at = t, ap_decided_at = ''''\<rparr>, w2))"

definition require_pending :: "string \<Rightarrow> approval \<Rightarrow> unit res" where
  "require_pending action r =
     (if ap_status r \<noteq> ''pending''
      then Inl (ValueError (''Cannot '' @ action @ '' once status='' @ ap_status r))
      else Inr ())"

definition approval_approve :: "string \<Rightarrow> approval \<Rightarrow> world \<Rightarrow> (approval \<times> world) res" where
  "approval_approve who r w = (case require_pending ''approve request'' r of
       Inl x \<Rightarrow> Inl x
     | Inr _ \<Rightarrow> (let (t, w') = now w
                 in Inr (r\<lparr>ap_status := ''approved'', ap_decided_by := who, ap_decided_at := t\<rparr>, w')))"

definition approval_deny :: "string \<Rightarrow> string \<Rightarrow> approval \<Rightarrow> world \<Rightarrow> (approval \<times> world) res" where
  "approval_deny who reason r w = (case require_pending ''deny request'' r of
       Inl x \<Rightarrow> Inl x
     | Inr _ \<Rightarrow> (let (t, w') = now w
                 in Inr (r\<lparr>ap_status := ''denied'', ap_decided_by := who, ap_denial_reason := reason,
                           ap_decided_at := t\<rparr>, w')))"

definition approval_timeout :: "approval \<Rightarrow> world \<Rightarrow> (approval \<times> world) res" where
  "approval_timeout r w = (case require_pending ''time out request'' r of
       Inl x \<Rightarrow> Inl x
     | Inr _ \<Rightarrow> (let (t, w') = now w in Inr (r\<lparr>ap_status := ''timed_out'', ap_decided_at := t\<rparr>, w')))"

definition approval_cancel :: "approval \<Rightarrow> world \<Rightarrow> (approval \<times> world) res" where
  "approval_cancel r w = (case require_pending ''cancel request'' r of
       Inl x \<Rightarrow> Inl x
     | Inr _ \<Rightarrow> (let (t, w') = now w in Inr (r\<lparr>ap_status := ''canceled'', ap_decided_at := t\<rparr>, w')))"

subsection \<open>The bridge\<close>

record bridge =
  br_mission :: string
  br_sessions :: "(string \<times> remote_session) list"
  br_approvals :: "(string \<times> approval) list"

definition create_bridge :: "string \<Rightarrow> bridge" where
  "create_bridge mid = \<lparr>br_mission = mid, br_sessions = [], br_approvals = []\<rparr>"

definition connect :: "string \<Rightarrow> session_role \<Rightarrow> bridge \<Rightarrow> world \<Rightarrow> remote_session \<times> bridge \<times> world" where
  "connect operator role b w =
     (let (s, w') = create_remote_session (br_mission b) operator role w
      in (s, b\<lparr>br_sessions := AList.update (rs_id s) s (br_sessions b)\<rparr>, w'))"

definition disconnect :: "string \<Rightarrow> bridge \<Rightarrow> bridge" where
  "disconnect rsid b = b\<lparr>br_sessions := AList.delete rsid (br_sessions b)\<rparr>"

definition connected_sessions :: "bridge \<Rightarrow> remote_session list" where
  "connected_sessions b = map snd (br_sessions b)"

definition request_approval :: "string \<Rightarrow> string \<Rightarrow> bridge \<Rightarrow> world \<Rightarrow> approval \<times> bridge \<times> world" where
  "request_approval action context b w =
     (let (r, w') = create_approval action context w
      in (r, b\<lparr>br_approvals := AList.update (ap_id r) r (br_approvals b)\<rparr>, w'))"

definition pending_approvals :: "bridge \<Rightarrow> approval list" where
  "pending_approvals b = filter (\<lambda>r. ap_status r = ''pending'') (map snd (br_approvals b))"

definition respond :: "string \<Rightarrow> bool \<Rightarrow> string \<Rightarrow> string \<Rightarrow> bridge \<Rightarrow> world \<Rightarrow> (bridge \<times> world) res" where
  "respond rid approved who reason b w =
     (case find_by rs_operator who (map snd (br_sessions b)) of
        None \<Rightarrow> Inl (PermissionError (''Operator '' @ [CHR 0x27] @ who @ [CHR 0x27] @
                       '' is not connected and cannot respond to approvals''))
      | Some s \<Rightarrow>
          (if rs_role s \<noteq> Controller
           then Inl (PermissionError (''Operator '' @ [CHR 0x27] @ who @ [CHR 0x27] @
                       '' is a viewer and cannot respond to approvals''))
           else (case map_of (br_approvals b) rid of
               None \<Rightarrow> Inl (KeyError (''Approval request '' @ [CHR 0x27] @ rid @ [CHR 0x27] @ '' not found''))
             | Some r \<Rightarrow>
                 (case (if approved then approval_approve who r w else approval_deny who reason r w) of
                    Inl x \<Rightarrow> Inl x
                  | Inr (r', w') \<Rightarrow> Inr (b\<lparr>br_approvals := AList.update rid r' (br_approvals b)\<rparr>, w')))))"

subsection \<open>Operations on a request\<close>

definition pending :: "approval \<Rightarrow> bool" where
  "pending r \<longleftrightarrow> ap_status r = ''pending''"

lemmas approval_op_defs = approval_approve_def approval_deny_def approval_timeout_def approval_cancel_def
  require_pending_def pending_def split_beta Let_def

lemma approval_approve_Inr: "approval_approve who r w = Inr (r', w') \<longleftrightarrow> pending r \<and> w' = snd (now w) \<and>
    r' = r\<lparr>ap_status := ''approved'', ap_decided_by := who, ap_decided_at := fst (now w)\<rparr>"
  by (auto simp: approval_op_defs)

lemma approval_deny_Inr: "approval_deny who reason r w = Inr (r', w') \<longleftrightarrow> pending r \<and> w' = snd (now w) \<and>
    r' = r\<lparr>ap_status := ''denied'', ap_decided_by := who, ap_denial_reason := reason, ap_decided_at := fst (now w)\<rparr>"
  by (auto simp: approval_op_defs)

lemma approval_timeout_Inr: "approval_timeout r w = Inr (r', w') \<longleftrightarrow> pending r \<and> w' = snd (now w) \<and>
    r' = r\<lparr>ap_status := ''timed_out'', ap_decided_at := fst (now w)\<rparr>"
  by (auto simp: approval_op_defs)

lemma approval_cancel_Inr: "approval_cancel r w = Inr (r', w') \<longleftrightarrow> pending r \<and> w' = snd (now w) \<and>
    r' = r\<lparr>ap_status := ''canceled'', ap_decided_at := fst (now w)\<rparr>"
  by (auto simp: approval_op_defs)

text \<open>What a caller can do with the request object it holds.\<close>

inductive approval_step :: "approval \<times> world \<Rightarrow> approval \<times> world \<Rightarrow> bool" where
  aps_approve: "approval_approve who r w = Inr r' \<Longrightarrow> approval_step (r, w) r'"
| aps_deny: "approval_deny who reason r w = Inr r' \<Longrightarrow> approval_step (r, w) r'"
| aps_timeout: "approval_timeout r w = Inr r' \<Longrightarrow> approval_step (r, w) r'"
| aps_cancel: "approval_cancel r w = Inr r' \<Longrightarrow> approval_step (r, w) r'"

lemma approval_step_effect:
  assumes "approval_step (r, w) (r', w')"
  shows "pending r" and "\<not> pending r'" and "w' = snd (now w)"
    and "ap_id r' = ap_id r" and "ap_action r' = ap_action r" and "ap_context r' = ap_context r"
  using assms
  by (cases; auto simp: approval_approve_Inr approval_deny_Inr approval_timeout_Inr approval_cancel_Inr
      pending_def)+

subsection \<open>Runs of the bridge\<close>

type_synonym bstate = "bridge \<times> world"

text \<open>
  \<open>relay_step\<close> is the interface of the bridge alone. \<open>bridge_call D\<close> adds the calls on a request
  object that its creator holds, for the requests with an identifier in \<open>D\<close>, and \<open>bridge_step\<close> allows
  them for all requests: it is everything that can happen.
\<close>

inductive relay_step :: "bstate \<Rightarrow> bstate \<Rightarrow> bool" where
  rl_connect: "connect operator role b w = (s, b', w') \<Longrightarrow> relay_step (b, w) (b', w')"
| rl_disconnect: "relay_step (b, w) (disconnect rsid b, w)"
| rl_request: "request_approval action context b w = (r, b', w') \<Longrightarrow> relay_step (b, w) (b', w')"
| rl_respond: "respond rid approved who reason b w = Inr (b', w') \<Longrightarrow> relay_step (b, w) (b', w')"

inductive bridge_call :: "string set \<Rightarrow> bstate \<Rightarrow> bstate \<Rightarrow> bool" for D where
  bs_relay: "relay_step s s' \<Longrightarrow> bridge_call D s s'"
| bs_object: "rid \<in> D \<Longrightarrow> map_of (br_approvals b) rid = Some r \<Longrightarrow> approval_step (r, w) (r', w') \<Longrightarrow>
    bridge_call D (b, w) (b\<lparr>br_approvals := AList.update rid r' (br_approvals b)\<rparr>, w')"

abbreviation bridge_step :: "bstate \<Rightarrow> bstate \<Rightarrow> bool" where
  "bridge_step \<equiv> bridge_call UNIV"

definition bridge_start :: "bstate \<Rightarrow> bool" where
  "bridge_start s \<longleftrightarrow> (\<exists>mid. fst s = create_bridge mid)"

text \<open>The first session that an operator still has decides its role.\<close>

definition acting_session :: "string \<Rightarrow> bridge \<Rightarrow> remote_session option" where
  "acting_session who b = find_by rs_operator who (connected_sessions b)"

lemma respond_Inr: "respond rid approved who reason b w = Inr (b', w') \<longleftrightarrow>
    (\<exists>s r r'. acting_session who b = Some s \<and> rs_role s = Controller \<and> map_of (br_approvals b) rid = Some r \<and>
       (if approved then approval_approve who r w else approval_deny who reason r w) = Inr (r', w') \<and>
       b' = b\<lparr>br_approvals := AList.update rid r' (br_approvals b)\<rparr>)"
  by (fastforce simp: respond_def acting_session_def connected_sessions_def
      split: option.splits sum.splits if_splits)

lemma respond_effect:
  assumes "respond rid approved who reason b w = Inr (b', w')"
  obtains s r r' where "acting_session who b = Some s" "rs_role s = Controller"
    "map_of (br_approvals b) rid = Some r" "approval_step (r, w) (r', w')"
    "ap_decided_by r' = who" "b' = b\<lparr>br_approvals := AList.update rid r' (br_approvals b)\<rparr>"
proof -
  from assms obtain s r r' where s: "acting_session who b = Some s" "rs_role s = Controller"
    and r: "map_of (br_approvals b) rid = Some r"
    and r': "(if approved then approval_approve who r w else approval_deny who reason r w) = Inr (r', w')"
    and b': "b' = b\<lparr>br_approvals := AList.update rid r' (br_approvals b)\<rparr>"
    by (auto simp: respond_Inr)
  from r' have "approval_step (r, w) (r', w')"
    by (auto split: if_splits intro: approval_step.intros)
  moreover from r' have "ap_decided_by r' = who"
    by (auto simp: approval_approve_Inr approval_deny_Inr split: if_splits)
  ultimately show thesis using that s r b' by blast
qed

text \<open>
  The requests of a bridge are filed under their own identifiers, all of which were drawn; a
  new request therefore never displaces an old one as long as the drawn identifiers differ.
\<close>

definition bridge_ok :: "bstate \<Rightarrow> bool" where
  "bridge_ok s \<longleftrightarrow> fst ` set (br_approvals (fst s)) \<subseteq> drawn_ids 12 (snd s) \<and>
     distinct (map fst (br_approvals (fst s)))"

lemma update_keys: "fst ` set (AList.update k v al) = insert k (fst ` set al)"
  using dom_update [of k v al] by (simp add: dom_map_of_conv_image_fst)

lemma bridge_ok_decide:
  assumes "bridge_ok (b, w)" and "map_of (br_approvals b) rid = Some r" and "approval_step (r, w) (r', w')"
  shows "bridge_ok (b\<lparr>br_approvals := AList.update rid r' (br_approvals b)\<rparr>, w')"
proof -
  have "rid \<in> fst ` set (br_approvals b)" using assms(2) by (force dest: map_of_SomeD)
  then have "insert rid (fst ` set (br_approvals b)) = fst ` set (br_approvals b)" by blast
  moreover have "drawn_ids 12 w' = drawn_ids 12 w" using approval_step_effect(3) [OF assms(3)] by simp
  ultimately show ?thesis using assms(1) by (simp add: bridge_ok_def update_keys AList.distinct_update)
qed

lemma bridge_ok_relay:
  assumes "bridge_ok s" and "relay_step s s'"
  shows "bridge_ok s'"
  using assms(2,1)
proof cases
  case (rl_connect operator role b w r b' w')
  then have "br_approvals (fst s') = br_approvals (fst s)"
    and "drawn_ids 12 (snd s) \<subseteq> drawn_ids 12 (snd s')"
    by (auto simp: connect_def create_remote_session_def split_beta Let_def drawn_ids_uuid)
  then show ?thesis using assms(1) unfolding bridge_ok_def by (metis subset_trans)
next
  case (rl_request action ctx b w r b' w')
  let ?k = "take 12 (uuids w (drawn w))"
  from rl_request have "\<exists>r. br_approvals (fst s') = AList.update ?k r (br_approvals (fst s))"
    and "drawn_ids 12 (snd s') = insert ?k (drawn_ids 12 (snd s))"
    by (auto simp: request_approval_def create_approval_def split_beta Let_def drawn_ids_uuid)
       (simp add: uuid_hex_def, blast)
  then show ?thesis using assms(1)
    by (elim exE) (simp add: bridge_ok_def update_keys AList.distinct_update subset_insertI2)
next
  case (rl_respond rid approved who reason b w b' w')
  from rl_respond(3) obtain r r' where "map_of (br_approvals b) rid = Some r" "approval_step (r, w) (r', w')"
    and b': "b' = b\<lparr>br_approvals := AList.update rid r' (br_approvals b)\<rparr>"
    by (rule respond_effect)
  then show ?thesis using assms(1) rl_respond(1,2) bridge_ok_decide by simp
qed (auto simp: bridge_ok_def disconnect_def)

lemma bridge_ok_step: "bridge_ok s \<Longrightarrow> bridge_step s s' \<Longrightarrow> bridge_ok s'"
proof (erule bridge_call.cases)
  fix b rid r w r' w'
  assume "bridge_ok s" "s = (b, w)" "s' = (b\<lparr>br_approvals := AList.update rid r' (br_approvals b)\<rparr>, w')"
    "map_of (br_approvals b) rid = Some r" "approval_step (r, w) (r', w')"
  then show "bridge_ok s'" using bridge_ok_decide by simp
qed (auto intro: bridge_ok_relay)

interpretation bridge_sys: invariant_system bridge_start bridge_step "\<lambda>_. True" bridge_ok
proof unfold_locales
  show "bridge_ok s" if "bridge_start s" for s
    using that by (auto simp: bridge_start_def bridge_ok_def create_bridge_def)
  show "bridge_ok s'" if "bridge_ok s" "bridge_step s s'" for s s'
    using that by (rule bridge_ok_step)
qed simp_all

subsection \<open>A decided request is final\<close>

text \<open>One step leaves the requests alone, adds one under a new identifier, or decides a pending one.\<close>

lemma bridge_step_requests:
  assumes "bridge_step s s'"
  shows "br_approvals (fst s') = br_approvals (fst s)
    \<or> (\<exists>r. pending r \<and> ap_id r = take 12 (uuids (snd s) (drawn (snd s))) \<and>
          snd s' = snd (now (snd (uuid_hex 12 (snd s)))) \<and>
          br_approvals (fst s') = AList.update (ap_id r) r (br_approvals (fst s)))
    \<or> (\<exists>rid r r'. map_of (br_approvals (fst s)) rid = Some r \<and> approval_step (r, snd s) (r', snd s') \<and>
          br_approvals (fst s') = AList.update rid r' (br_approvals (fst s)))"
  using assms
proof cases
  case bs_relay
  then show ?thesis
  proof cases
    case (rl_request action ctx b w r b' w')
    then have "pending r \<and> ap_id r = take 12 (uuids (snd s) (drawn (snd s))) \<and>
        snd s' = snd (now (snd (uuid_hex 12 (snd s)))) \<and>
        br_approvals (fst s') = AList.update (ap_id r) r (br_approvals (fst s))"
      by (auto simp: request_approval_def create_approval_def split_beta Let_def pending_def uuid_hex_def)
    then show ?thesis by blast
  next
    case (rl_respond rid approved who reason b w b' w')
    from rl_respond(3) obtain r r' where "map_of (br_approvals b) rid = Some r" "approval_step (r, w) (r', w')"
      "b' = b\<lparr>br_approvals := AList.update rid r' (br_approvals b)\<rparr>"
      by (rule respond_effect)
    then show ?thesis using rl_respond(1,2) by auto
  qed (auto simp: connect_def disconnect_def split_beta Let_def)
qed auto

text \<open>Steps after which the identifiers drawn so far still differ; \<open>fresh_bridge_step\<close> adds the invariant.\<close>

definition distinct_bridge_step :: "bstate \<Rightarrow> bstate \<Rightarrow> bool" where
  "distinct_bridge_step s s' \<longleftrightarrow> bridge_step s s' \<and> ids_fresh 12 (snd s')"

definition fresh_bridge_step :: "bstate \<Rightarrow> bstate \<Rightarrow> bool" where
  "fresh_bridge_step s s' \<longleftrightarrow> bridge_ok s \<and> bridge_step s s' \<and> ids_fresh 12 (snd s')"

lemma fresh_bridge_steps:
  assumes "distinct_bridge_step\<^sup>*\<^sup>* s s'" and "bridge_ok s"
  shows "bridge_ok s' \<and> fresh_bridge_step\<^sup>*\<^sup>* s s'"
  using assms
proof (induction rule: rtranclp_induct)
  case (step s' s'')
  then have "bridge_ok s'" and "fresh_bridge_step s' s''"
    by (simp_all add: fresh_bridge_step_def distinct_bridge_step_def)
  with step show ?case
    by (meson bridge_ok_step fresh_bridge_step_def rtranclp.rtrancl_into_rtrancl)
qed simp

definition decided :: "approval option \<Rightarrow> bool" where
  "decided req \<longleftrightarrow> (\<exists>r. req = Some r \<and> \<not> pending r)"

interpretation request_life: lifecycle fresh_bridge_step "\<lambda>s. map_of (br_approvals (fst s)) rid" decided for rid
proof unfold_locales
  fix s s' assume dec: "decided (map_of (br_approvals (fst s)) rid)" and st: "fresh_bridge_step s s'"
  then obtain r0 where r0: "map_of (br_approvals (fst s)) rid = Some r0" "\<not> pending r0"
    by (auto simp: decided_def)
  from st have key: "rid \<in> drawn_ids 12 (snd s)"
    using r0(1) by (auto simp: fresh_bridge_step_def bridge_ok_def dest: map_of_SomeD)
  from st have "bridge_step s s'" and fr: "ids_fresh 12 (snd s')" by (simp_all add: fresh_bridge_step_def)
  from bridge_step_requests [OF this(1)]
  show "map_of (br_approvals (fst s')) rid = map_of (br_approvals (fst s)) rid"
  proof (elim disjE exE conjE)
    fix r
    assume "ap_id r = take 12 (uuids (snd s) (drawn (snd s)))"
      and w': "snd s' = snd (now (snd (uuid_hex 12 (snd s))))"
      and "br_approvals (fst s') = AList.update (ap_id r) r (br_approvals (fst s))"
    moreover have "ids_fresh 12 (snd (uuid_hex 12 (snd s)))"
      using fr by (rule ids_fresh_later [rotated]) (simp add: w')
    then have "take 12 (uuids (snd s) (drawn (snd s))) \<noteq> rid" using fresh_draw(1) key by metis
    ultimately show ?thesis by (simp add: update_conv')
  next
    fix rid' r r'
    assume "map_of (br_approvals (fst s)) rid' = Some r" "approval_step (r, snd s) (r', snd s')"
      and "br_approvals (fst s') = AList.update rid' r' (br_approvals (fst s))"
    moreover from this have "rid' \<noteq> rid" using r0 approval_step_effect(1) by auto
    ultimately show ?thesis by (simp add: update_conv')
  qed simp
qed

end
