(* ===== verification/RemoteBridge_Claims.thy ===== *)
theory RemoteBridge_Claims
  imports RemoteBridge
begin

text \<open>The properties of the remote bridge.\<close>

subsection \<open>Who may respond\<close>

lemma find_by_first:
  "find_by f k xs = Some x \<longleftrightarrow> (\<exists>pre post. xs = pre @ x # post \<and> f x = k \<and> (\<forall>y \<in> set pre. f y \<noteq> k))"
proof (induction xs)
  case Nil
  then show ?case by simp
next
  case (Cons a xs)
  show ?case
  proof (cases "f a = k")
    case True
    then show ?thesis
      by (auto simp: Cons_eq_append_conv)
  next
    case False
    with Cons.IH show ?thesis by (auto simp: Cons_eq_append_conv) (metis append_Cons set_ConsD)+
  qed
qed

lemma respond_succeeds_iff:
  "(\<exists>b' w'. respond rid approved who reason b w = Inr (b', w')) \<longleftrightarrow>
     (\<exists>s r. acting_session who b = Some s \<and> rs_role s = Controller \<and>
        map_of (br_approvals b) rid = Some r \<and> pending r)"
  by (cases approved) (auto simp: respond_Inr approval_approve_Inr approval_deny_Inr)

text \<open>
  A response is accepted exactly when the request exists and is still pending and the
  responding operator's oldest live session is a controller: sessions that the operator opened
  later with another role make no difference, neither to grant nor to withdraw the right.
\<close>

theorem respond_accepted_iff:
  "(\<exists>b' w'. respond rid approved who reason b w = Inr (b', w')) \<longleftrightarrow>
     (\<exists>pre s post r. connected_sessions b = pre @ s # post \<and> rs_operator s = who \<and> rs_role s = Controller \<and>
        (\<forall>s' \<in> set pre. rs_operator s' \<noteq> who) \<and> map_of (br_approvals b) rid = Some r \<and> ap_status r = ''pending'')"
  unfolding respond_succeeds_iff acting_session_def find_by_first pending_def by blast

definition then_connect :: "string \<Rightarrow> session_role \<Rightarrow> bstate \<Rightarrow> bstate" where
  "then_connect operator role s = snd (connect operator role (fst s) (snd s))"

definition then_request :: "string \<Rightarrow> string \<Rightarrow> bstate \<Rightarrow> bstate" where
  "then_request action ctx s = snd (request_approval action ctx (fst s) (snd s))"

definition demo_bridge :: bstate where
  "demo_bridge = then_request ''deploy'' '''' (then_connect ''bob'' Viewer (then_connect ''bob'' Controller
     (then_connect ''ann'' Controller (then_connect ''ann'' Viewer (create_bridge ''m1'', demo_world)))))"

definition demo_request :: string where
  "demo_request = concat (map ap_id (pending_approvals (fst demo_bridge)))"

theorem respond_accepted_iff_witness:
  "(\<nexists>b' w'. respond demo_request True ''ann'' [] (fst demo_bridge) (snd demo_bridge) = Inr (b', w')) \<and>
   (\<exists>b' w'. respond demo_request True ''bob'' [] (fst demo_bridge) (snd demo_bridge) = Inr (b', w'))"
proof -
  let ?b = "fst demo_bridge" and ?ss = "connected_sessions (fst demo_bridge)"
  let ?r = "hd (pending_approvals (fst demo_bridge))"
  have req: "map_of (br_approvals ?b) demo_request = Some ?r" "ap_status ?r = ''pending''" by code_simp+
  have "find_by rs_operator ''ann'' ?ss = Some (hd ?ss)" and ann: "rs_role (hd ?ss) \<noteq> Controller" by code_simp+
  then have "\<nexists>b' w'. respond demo_request True ''ann'' [] ?b (snd demo_bridge) = Inr (b', w')"
    by (simp add: respond_succeeds_iff acting_session_def)
  moreover have "?ss = take 2 ?ss @ ?ss ! 2 # drop 3 ?ss" and "rs_operator (?ss ! 2) = ''bob''"
    and "rs_role (?ss ! 2) = Controller" and "\<forall>s' \<in> set (take 2 ?ss). rs_operator s' \<noteq> ''bob''" by code_simp+
  with req have "\<exists>b' w'. respond demo_request True ''bob'' [] ?b (snd demo_bridge) = Inr (b', w')"
    unfolding respond_accepted_iff by blast
  ultimately show ?thesis by blast
qed

subsection \<open>Decisions are final and authorised\<close>

text \<open>
  As long as drawn identifiers differ, a request that is no longer pending never changes
  again in any field, whatever is connected, disconnected, requested, answered or called on the
  request objects.
\<close>

theorem decided_request_final:
  assumes "reach bridge_start bridge_step s" and "distinct_bridge_step\<^sup>*\<^sup>* s s'"
    and "map_of (br_approvals (fst s)) rid = Some r" and "ap_status r \<noteq> ''pending''"
  shows "map_of (br_approvals (fst s')) rid = Some r"
proof -
  have "fresh_bridge_step\<^sup>*\<^sup>* s s'"
    using fresh_bridge_steps [OF assms(2)] bridge_sys.reach_inv [OF assms(1)] by simp
  from request_life.terminal_forever [OF this, of rid] assms(3,4) show ?thesis
    by (simp add: decided_def pending_def)
qed

text \<open>The state in which a request was decided, unless its creator decided it.\<close>

definition decided_in :: "string set \<Rightarrow> string \<Rightarrow> approval \<Rightarrow> bstate \<Rightarrow> bstate \<Rightarrow> bool" where
  "decided_in D rid r s s0 \<longleftrightarrow> reach bridge_start (bridge_call D) s0 \<and> (bridge_call D)\<^sup>*\<^sup>* s0 s \<and>
    (\<exists>x. acting_session (ap_decided_by r) (fst s0) = Some x \<and> rs_role x = Controller) \<and>
    (\<exists>r0. map_of (br_approvals (fst s0)) rid = Some r0 \<and> pending r0 \<and> ap_action r0 = ap_action r)"

lemma decision_origin:
  assumes "reach bridge_start (bridge_call D) s"
    and "map_of (br_approvals (fst s)) rid = Some r" and "\<not> pending r" and "rid \<notin> D"
  shows "\<exists>s0. decided_in D rid r s s0"
  using assms
proof (induction arbitrary: r rule: reach.induct)
  case (reach_start s)
  then show ?case by (auto simp: bridge_start_def create_bridge_def)
next
  case (reach_step s s')
  show ?case
  proof (cases "map_of (br_approvals (fst s)) rid = Some r")
    case True
    from reach_step.IH [OF True reach_step.prems(2,3)] reach_step.hyps(2) show ?thesis
      unfolding decided_in_def by (meson rtranclp.rtrancl_into_rtrancl)
  next
    case False
    from reach_step.hyps(2) show ?thesis
    proof cases
      case bs_object
      with False reach_step.prems show ?thesis by (auto simp: update_conv' split: if_splits)
    next
      case bs_relay
      then show ?thesis
      proof cases
        case (rl_respond rid' approved who reason b w b' w')
        from rl_respond(3) obtain x r0 r' where x: "acting_session who b = Some x" "rs_role x = Controller"
          and r0: "map_of (br_approvals b) rid' = Some r0" "approval_step (r0, w) (r', w')"
          and by_who: "ap_decided_by r' = who"
          and b': "b' = b\<lparr>br_approvals := AList.update rid' r' (br_approvals b)\<rparr>"
          by (rule respond_effect)
        from False reach_step.prems(1) b' rl_respond(1,2) have "rid' = rid" and "r = r'"
          by (auto simp: update_conv' split: if_splits)
        with x r0 by_who rl_respond(1) approval_step_effect [OF r0(2)] reach_step.hyps show ?thesis
          unfolding decided_in_def by (intro exI [of _ s]) (auto intro: r_into_rtranclp)
      next
        case (rl_request action ctx b w q b' w')
        then have "pending q" and "br_approvals b' = AList.update (ap_id q) q (br_approvals b)"
          by (auto simp: request_approval_def create_approval_def split_beta Let_def pending_def)
        with False reach_step.prems rl_request(1,2) show ?thesis
          by (auto simp: update_conv' split: if_splits)
      qed (use False reach_step.prems in \<open>auto simp: connect_def disconnect_def split_beta Let_def\<close>)
    qed
  qed
qed

text \<open>
  C27. Every decided request was decided by an authorised operator, except the requests that the
  holder of the request object decided with the object's own methods (\<open>D\<close> holds their identifiers;
  the bridge's interface alone is \<open>D = {}\<close>). Whatever else is connected, disconnected, requested,
  answered or called, there was an earlier reachable state of the same run in which the request,
  for the same action, was pending and the operator recorded in \<open>decided_by\<close> had a live session
  acting as controller.
\<close>

theorem decision_authorised:
  assumes "reach bridge_start (bridge_call D) s" and "rid \<notin> D"
    and "map_of (br_approvals (fst s)) rid = Some r" and "ap_status r \<noteq> ''pending''"
  shows "\<exists>s0. reach bridge_start (bridge_call D) s0 \<and> (bridge_call D)\<^sup>*\<^sup>* s0 s \<and>
    (\<exists>x \<in> set (connected_sessions (fst s0)). rs_operator x = ap_decided_by r \<and> rs_role x = Controller) \<and>
    (\<exists>r0. map_of (br_approvals (fst s0)) rid = Some r0 \<and> ap_status r0 = ''pending'' \<and> ap_action r0 = ap_action r)"
proof -
  from assms(4) have "\<not> pending r" by (simp add: pending_def)
  from decision_origin [OF assms(1,3) this assms(2)] obtain s0 where s0: "decided_in D rid r s s0" ..
  then have "\<exists>x \<in> set (connected_sessions (fst s0)).
      rs_operator x = ap_decided_by r \<and> rs_role x = Controller"
    unfolding decided_in_def acting_session_def by (metis find_by_SomeD)
  with s0 show ?thesis unfolding decided_in_def pending_def by blast
qed

subsection \<open>A run of the bridge\<close>

definition demo_denied :: bstate where
  "demo_denied = (case respond demo_request False ''bob'' ''risky'' (fst demo_bridge) (snd demo_bridge) of
     Inr s \<Rightarrow> s | Inl _ \<Rightarrow> demo_bridge)"

definition demo_later :: bstate where
  "demo_later = (disconnect (concat (map fst (take 1 (br_sessions (fst demo_denied))))) (fst demo_denied), snd demo_denied)"

lemma reach_connect:
  "reach bridge_start relay_step s \<Longrightarrow> reach bridge_start relay_step (then_connect operator role s)"
  by (erule reach_step) (cases s; cases "connect operator role (fst s) (snd s)";
    auto simp: then_connect_def intro: rl_connect)

lemma reach_request:
  "reach bridge_start relay_step s \<Longrightarrow> reach bridge_start relay_step (then_request action ctx s)"
  by (erule reach_step) (cases s; cases "request_approval action ctx (fst s) (snd s)";
    auto simp: then_request_def intro: rl_request)

lemma demo_bridge_reach: "reach bridge_start relay_step demo_bridge"
  unfolding demo_bridge_def
  by (intro reach_request reach_connect reach_start) (auto simp: bridge_start_def)

lemma demo_denied_step: "relay_step demo_bridge demo_denied"
proof -
  have "respond demo_request False ''bob'' ''risky'' (fst demo_bridge) (snd demo_bridge) = Inr demo_denied"
  proof -
    have "isl (respond demo_request False ''bob'' ''risky'' (fst demo_bridge) (snd demo_bridge)) = False"
      by code_simp
    then show ?thesis by (auto simp: demo_denied_def split: sum.splits)
  qed
  then show ?thesis using rl_respond [of demo_request False "''bob''" "''risky''" "fst demo_bridge"] by (metis prod.collapse)
qed

definition demo_decided :: approval where
  "demo_decided = hd (map snd (br_approvals (fst demo_denied)))"

lemma demo_decided_facts:
  "map_of (br_approvals (fst demo_denied)) demo_request = Some demo_decided"
  "ap_status demo_decided = ''denied''" "ap_decided_by demo_decided = ''bob''"
  by code_simp+

lemma relay_reach: "reach bridge_start relay_step s \<Longrightarrow> reach bridge_start (bridge_call D) s"
  by (induction rule: reach.induct) (auto intro: reach.intros bs_relay)

text \<open>Two requests: one is canceled by its creator, the other denied through the bridge.\<close>

definition demo_two :: bstate where
  "demo_two = then_request ''delete'' [] demo_denied"

definition demo_second :: string where
  "demo_second = concat (map ap_id (pending_approvals (fst demo_two)))"

definition demo_canceled :: bstate where
  "demo_canceled = (case map_of (br_approvals (fst demo_two)) demo_second of None \<Rightarrow> demo_two
     | Some r \<Rightarrow> (case approval_cancel r (snd demo_two) of Inl _ \<Rightarrow> demo_two
       | Inr (r', w') \<Rightarrow> ((fst demo_two)\<lparr>br_approvals := AList.update demo_second r' (br_approvals (fst demo_two))\<rparr>, w')))"

lemma demo_canceled_reach: "reach bridge_start (bridge_call {demo_second}) demo_canceled"
proof -
  have "reach bridge_start relay_step demo_denied"
    using demo_bridge_reach demo_denied_step by (rule reach_step)
  then have two: "reach bridge_start (bridge_call {demo_second}) demo_two"
    unfolding demo_two_def by (intro relay_reach reach_request)
  have "case map_of (br_approvals (fst demo_two)) demo_second of None \<Rightarrow> False
     | Some r \<Rightarrow> \<not> isl (approval_cancel r (snd demo_two))" by code_simp
  then obtain r r' w' where r: "map_of (br_approvals (fst demo_two)) demo_second = Some r"
      "approval_cancel r (snd demo_two) = Inr (r', w')"
    by (auto split: option.splits) (metis isl_def prod.collapse sum.collapse(2))
  then have "bridge_call {demo_second} (fst demo_two, snd demo_two) demo_canceled"
    using bs_object [of demo_second "{demo_second}" "fst demo_two" r "snd demo_two" r' w'] aps_cancel
    by (simp add: demo_canceled_def)
  with two show ?thesis by (auto intro: reach_step)
qed

theorem decision_authorised_witness:
  "map (\<lambda>r. (ap_action r, ap_status r)) (map snd (br_approvals (fst demo_canceled))) =
     [(''deploy'', ''denied''), (''delete'', ''canceled'')] \<and>
   (\<exists>s0. (bridge_call {demo_second})\<^sup>*\<^sup>* s0 demo_canceled \<and>
    (\<exists>x \<in> set (connected_sessions (fst s0)). rs_operator x = ''bob'' \<and> rs_role x = Controller))"
proof
  show "map (\<lambda>r. (ap_action r, ap_status r)) (map snd (br_approvals (fst demo_canceled))) =
     [(''deploy'', ''denied''), (''delete'', ''canceled'')]" by code_simp
  have "demo_request \<notin> {demo_second}" by code_simp
  moreover have "map_of (br_approvals (fst demo_canceled)) demo_request = Some demo_decided" by code_simp
  moreover have "ap_status demo_decided \<noteq> ''pending''" by (simp add: demo_decided_facts)
  ultimately have "\<exists>s0. reach bridge_start (bridge_call {demo_second}) s0 \<and> (bridge_call {demo_second})\<^sup>*\<^sup>* s0 demo_canceled \<and>
    (\<exists>x \<in> set (connected_sessions (fst s0)). rs_operator x = ap_decided_by demo_decided \<and> rs_role x = Controller) \<and>
    (\<exists>r0. map_of (br_approvals (fst s0)) demo_request = Some r0 \<and> ap_status r0 = ''pending'' \<and> ap_action r0 = ap_action demo_decided)"
    by (rule decision_authorised [OF demo_canceled_reach])
  then show "\<exists>s0. (bridge_call {demo_second})\<^sup>*\<^sup>* s0 demo_canceled \<and>
    (\<exists>x \<in> set (connected_sessions (fst s0)). rs_operator x = ''bob'' \<and> rs_role x = Controller)"
    unfolding demo_decided_facts(3) by blast
qed

theorem decided_request_final_witness:
  "\<exists>s'. distinct_bridge_step\<^sup>*\<^sup>* demo_denied s' \<and> connected_sessions (fst s') \<noteq> connected_sessions (fst demo_denied) \<and>
     map_of (br_approvals (fst s')) demo_request = Some demo_decided"
proof -
  have reach: "reach bridge_start bridge_step demo_denied"
    by (rule reach_step [OF relay_reach [OF demo_bridge_reach] bs_relay [OF demo_denied_step]])
  have "relay_step demo_denied demo_later"
    using rl_disconnect [of "fst demo_denied" "snd demo_denied"] by (simp add: demo_later_def)
  moreover have "ids_fresh 12 (snd demo_later)" by code_simp
  ultimately have run: "distinct_bridge_step\<^sup>*\<^sup>* demo_denied demo_later"
    by (auto simp: distinct_bridge_step_def intro!: r_into_rtranclp bs_relay)
  have "length (connected_sessions (fst demo_later)) \<noteq> length (connected_sessions (fst demo_denied))" by code_simp
  then have "connected_sessions (fst demo_later) \<noteq> connected_sessions (fst demo_denied)" by metis
  moreover have "map_of (br_approvals (fst demo_later)) demo_request = Some demo_decided"
    by (rule decided_request_final [OF reach run demo_decided_facts(1)]) (simp add: demo_decided_facts)
  ultimately show ?thesis using run by blast
qed

end
