(* ===== verification/Effects.thy ===== *)
theory Effects
  imports Prelude
begin

text \<open>
  Operations on a persistent state that may raise. A raise does not undo what was written
  before it (the database is in autocommit mode), so an operation returns a result and a state
  in every case: \<open>'s \<Rightarrow> 'a res \<times> 's\<close>. \<open>bind\<close> stops at the first raise, as the code does.

  \<open>keeps P m\<close> says that \<open>m\<close> preserves \<open>P\<close> whether it returns or raises; its rules are in the
  collection \<open>keeps_intros\<close> and follow the structure of an operation.
\<close>

named_theorems keeps_intros

type_synonym ('s, 'a) op = "'s \<Rightarrow> 'a res \<times> 's"

definition ret :: "'a \<Rightarrow> ('s, 'a) op" where
  "ret x s = (Inr x, s)"

definition raise :: "exc \<Rightarrow> ('s, 'a) op" where
  "raise e s = (Inl e, s)"

definition bind :: "('s, 'a) op \<Rightarrow> ('a \<Rightarrow> ('s, 'b) op) \<Rightarrow> ('s, 'b) op" where
  "bind m f s = (case m s of (Inl e, s') \<Rightarrow> (Inl e, s') | (Inr x, s') \<Rightarrow> f x s')"

definition andthen :: "('s, 'a) op \<Rightarrow> ('s, 'b) op \<Rightarrow> ('s, 'b) op" where
  "andthen m n = bind m (\<lambda>_. n)"

definition asks :: "('s \<Rightarrow> 'a) \<Rightarrow> ('s, 'a) op" where
  "asks f s = (Inr (f s), s)"

definition modify :: "('s \<Rightarrow> 's) \<Rightarrow> ('s, unit) op" where
  "modify f s = (Inr (), f s)"

definition lift_res :: "'a res \<Rightarrow> ('s, 'a) op" where
  "lift_res r s = (r, s)"

text \<open>\<open>try: m; except Exception as err: h(err)\<close>\<close>

definition catch :: "('s, 'a) op \<Rightarrow> (exc \<Rightarrow> ('s, 'a) op) \<Rightarrow> ('s, 'a) op" where
  "catch m h s = (case m s of (Inl e, s') \<Rightarrow> h e s' | (Inr x, s') \<Rightarrow> (Inr x, s'))"

fun each :: "('a \<Rightarrow> ('s, unit) op) \<Rightarrow> 'a list \<Rightarrow> ('s, unit) op" where
  "each f [] = ret ()"
| "each f (x # xs) = andthen (f x) (each f xs)"

lemma ret_run [simp]: "ret x s = (Inr x, s)"
  by (simp add: ret_def)

lemma raise_run [simp]: "raise e s = (Inl e, s)"
  by (simp add: raise_def)

lemma asks_run [simp]: "asks f s = (Inr (f s), s)"
  by (simp add: asks_def)

lemma modify_run [simp]: "modify f s = (Inr (), f s)"
  by (simp add: modify_def)

lemma lift_res_run [simp]: "lift_res r s = (r, s)"
  by (simp add: lift_res_def)

lemma bind_Inr [simp]: "m s = (Inr x, s') \<Longrightarrow> bind m f s = f x s'"
  by (simp add: bind_def)

lemma bind_Inl [simp]: "m s = (Inl e, s') \<Longrightarrow> bind m f s = (Inl e, s')"
  by (simp add: bind_def)

lemma andthen_run [simp]: "andthen m n s = bind m (\<lambda>_. n) s"
  by (simp add: andthen_def)

lemma bind_InrE:
  assumes "bind m f s = (Inr y, s'')"
  obtains x s' where "m s = (Inr x, s')" and "f x s' = (Inr y, s'')"
  using assms by (auto simp: bind_def split: prod.splits sum.splits)

lemma bind_cases:
  obtains (raised) e s' where "m s = (Inl e, s')" "bind m f s = (Inl e, s')"
  | (returned) x s' where "m s = (Inr x, s')" "bind m f s = f x s'"
  by (cases "m s"; cases "fst (m s)") (auto simp: bind_def)

subsection \<open>Preservation\<close>

definition keeps :: "('s \<Rightarrow> bool) \<Rightarrow> ('s, 'a) op \<Rightarrow> bool" where
  "keeps P m \<longleftrightarrow> (\<forall>s. P s \<longrightarrow> P (snd (m s)))"

lemma keepsD: "keeps P m \<Longrightarrow> P s \<Longrightarrow> P (snd (m s))"
  by (simp add: keeps_def)

lemma keepsI: "(\<And>s. P s \<Longrightarrow> P (snd (m s))) \<Longrightarrow> keeps P m"
  by (simp add: keeps_def)

lemma keeps_ret [keeps_intros]: "keeps P (ret x)"
  by (simp add: keeps_def)

lemma keeps_raise [keeps_intros]: "keeps P (raise e)"
  by (simp add: keeps_def)

lemma keeps_asks [keeps_intros]: "keeps P (asks f)"
  by (simp add: keeps_def)

lemma keeps_lift [keeps_intros]: "keeps P (lift_res r)"
  by (simp add: keeps_def)

lemma keeps_bind [keeps_intros]:
  assumes "keeps P m" and "\<And>x. keeps P (f x)"
  shows "keeps P (bind m f)"
proof (rule keepsI)
  fix s assume "P s"
  then have "P (snd (m s))" by (rule keepsD [OF assms(1)])
  then show "P (snd (bind m f s))"
    using assms(2) unfolding keeps_def by (auto simp: bind_def split: prod.splits sum.splits)
qed

lemma keeps_andthen [keeps_intros]: "keeps P m \<Longrightarrow> keeps P n \<Longrightarrow> keeps P (andthen m n)"
  unfolding andthen_def by (rule keeps_bind)

lemma keeps_catch [keeps_intros]:
  assumes "keeps P m" and "\<And>e. keeps P (h e)"
  shows "keeps P (catch m h)"
proof (rule keepsI)
  fix s assume "P s"
  then have "P (snd (m s))" by (rule keepsD [OF assms(1)])
  then show "P (snd (catch m h s))"
    using assms(2) unfolding keeps_def by (auto simp: catch_def split: prod.splits sum.splits)
qed

lemma keeps_each [keeps_intros]: "(\<And>x. keeps P (f x)) \<Longrightarrow> keeps P (each f xs)"
  by (induction xs) (simp_all add: keeps_ret keeps_andthen)

lemma keeps_modify: "(\<And>s. P s \<Longrightarrow> P (f s)) \<Longrightarrow> keeps P (modify f)"
  by (simp add: keeps_def)

lemma keeps_if [keeps_intros]: "(b \<Longrightarrow> keeps P m) \<Longrightarrow> (\<not> b \<Longrightarrow> keeps P n) \<Longrightarrow> keeps P (if b then m else n)"
  by simp

lemma keeps_option [keeps_intros]:
  "(x = None \<Longrightarrow> keeps P m) \<Longrightarrow> (\<And>y. x = Some y \<Longrightarrow> keeps P (f y)) \<Longrightarrow>
   keeps P (case x of None \<Rightarrow> m | Some y \<Rightarrow> f y)"
  by (cases x) simp_all

lemma keeps_sum [keeps_intros]:
  "(\<And>e. x = Inl e \<Longrightarrow> keeps P (g e)) \<Longrightarrow> (\<And>y. x = Inr y \<Longrightarrow> keeps P (f y)) \<Longrightarrow>
   keeps P (case x of Inl e \<Rightarrow> g e | Inr y \<Rightarrow> f y)"
  by (cases x) simp_all

text \<open>From \<open>P\<close> before to \<open>Q\<close> after, whether the operation returns or raises.\<close>

definition leads :: "('s \<Rightarrow> bool) \<Rightarrow> ('s, 'a) op \<Rightarrow> ('s \<Rightarrow> bool) \<Rightarrow> bool" where
  "leads P m Q \<longleftrightarrow> (\<forall>s. P s \<longrightarrow> Q (snd (m s)))"

lemma leadsD: "leads P m Q \<Longrightarrow> P s \<Longrightarrow> Q (snd (m s))"
  by (simp add: leads_def)

lemma keeps_leads: "keeps P m \<Longrightarrow> (\<And>s. P s \<Longrightarrow> Q s) \<Longrightarrow> leads P m Q"
  by (simp add: keeps_def leads_def)

lemma leads_bind:
  assumes "leads P m R" and "\<And>x. leads R (f x) Q" and "\<And>s. R s \<Longrightarrow> Q s"
  shows "leads P (bind m f) Q"
  unfolding leads_def
proof (intro allI impI)
  fix s assume "P s"
  then have "R (snd (m s))" by (rule leadsD [OF assms(1)])
  then show "Q (snd (bind m f s))"
    using assms(2,3) unfolding leads_def by (auto simp: bind_def split: prod.splits sum.splits)
qed

subsection \<open>Operations that only read\<close>

named_theorems pure_intros

definition pure_op :: "('s, 'a) op \<Rightarrow> bool" where
  "pure_op m \<longleftrightarrow> (\<forall>s. snd (m s) = s)"

lemma pure_ret [pure_intros]: "pure_op (ret x)"
  by (simp add: pure_op_def)

lemma pure_raise [pure_intros]: "pure_op (raise e)"
  by (simp add: pure_op_def)

lemma pure_asks [pure_intros]: "pure_op (asks f)"
  by (simp add: pure_op_def)

lemma pure_lift [pure_intros]: "pure_op (lift_res r)"
  by (simp add: pure_op_def)

lemma pure_bind [pure_intros]:
  assumes "pure_op m" and "\<And>x. pure_op (f x)"
  shows "pure_op (bind m f)"
  unfolding pure_op_def
proof
  fix s
  have "snd (m s) = s" using assms(1) by (simp add: pure_op_def)
  then show "snd (bind m f s) = s"
    using assms(2) by (auto simp: bind_def pure_op_def split: prod.splits sum.splits)
qed

lemma pure_if [pure_intros]: "pure_op m \<Longrightarrow> pure_op n \<Longrightarrow> pure_op (if b then m else n)"
  by simp

lemma pure_option [pure_intros]: "pure_op m \<Longrightarrow> (\<And>y. pure_op (f y)) \<Longrightarrow> pure_op (case x of None \<Rightarrow> m | Some y \<Rightarrow> f y)"
  by (cases x) simp_all

lemma pure_keeps: "pure_op m \<Longrightarrow> keeps P m"
  by (simp add: pure_op_def keeps_def)

subsection \<open>Results without a state\<close>

definition rbind :: "'a res \<Rightarrow> ('a \<Rightarrow> 'b res) \<Rightarrow> 'b res" where
  "rbind r f = (case r of Inl e \<Rightarrow> Inl e | Inr x \<Rightarrow> f x)"

definition ensure :: "bool \<Rightarrow> exc \<Rightarrow> unit res" where
  "ensure b e = (if b then Inr () else Inl e)"  \<comment> \<open>\<open>if not b: raise e\<close>\<close>

lemma rbind_simps [simp]: "rbind (Inr x) f = f x" "rbind (Inl e) f = Inl e"
  by (simp_all add: rbind_def)

lemma rbind_eq_Inr: "rbind r f = Inr y \<longleftrightarrow> (\<exists>x. r = Inr x \<and> f x = Inr y)"
  by (cases r) simp_all

lemma rbind_unit_Inr: "rbind r (\<lambda>_. m) = Inr y \<longleftrightarrow> r = Inr () \<and> m = Inr y"
  by (cases r) simp_all

lemma ensure_simps [simp]: "ensure True e = Inr ()" "ensure False e = Inl e"
  by (simp_all add: ensure_def)

lemma ensure_eq_Inr: "ensure b e = Inr u \<longleftrightarrow> b"
  by (simp add: ensure_def)

fun map_res :: "('a \<Rightarrow> 'b res) \<Rightarrow> 'a list \<Rightarrow> 'b list res" where
  "map_res f [] = Inr []"
| "map_res f (x # xs) = (case f x of Inl e \<Rightarrow> Inl e
     | Inr y \<Rightarrow> (case map_res f xs of Inl e \<Rightarrow> Inl e | Inr ys \<Rightarrow> Inr (y # ys)))"

lemma map_res_cong [fundef_cong]: "xs = ys \<Longrightarrow> (\<And>x. x \<in> set ys \<Longrightarrow> f x = g x) \<Longrightarrow> map_res f xs = map_res g ys"
proof -
  assume e: "xs = ys" and "\<And>x. x \<in> set ys \<Longrightarrow> f x = g x"
  from this(2) have "map_res f ys = map_res g ys" by (induction ys) (simp_all split: sum.split)
  with e show ?thesis by simp
qed

lemma map_res_total: "\<forall>x \<in> set xs. \<exists>y. f x = Inr y \<Longrightarrow> \<exists>ys. map_res f xs = Inr ys"
  by (induction xs) (auto split: sum.splits)

lemma map_res_Inr: "map_res f xs = Inr ys \<Longrightarrow> list_all2 (\<lambda>x y. f x = Inr y) xs ys"
  by (induction xs arbitrary: ys) (auto split: sum.splits)

lemma map_res_inverse: "(\<And>y. f (g y) = Inr y) \<Longrightarrow> map_res f (map g ys) = Inr ys"
  by (induction ys) auto

lemma map_res_map: "map_res f xs = Inr ys \<Longrightarrow> (\<And>x y. f x = Inr y \<Longrightarrow> k y = h x) \<Longrightarrow> map k ys = map h xs"
  by (induction xs arbitrary: ys) (auto split: sum.splits)

subsection \<open>JSON values as Python uses them\<close>

text \<open>\<open>bool(value)\<close>\<close>

definition truthy :: "json \<Rightarrow> bool" where
  "truthy j = (case j of JNull \<Rightarrow> False | JBool b \<Rightarrow> b | JInt n \<Rightarrow> n \<noteq> 0 | JFloat x \<Rightarrow> x \<noteq> 0 | JNonFinite f \<Rightarrow> True
     | JStr x \<Rightarrow> x \<noteq> [] | JList xs \<Rightarrow> xs \<noteq> [] | JObj d \<Rightarrow> d \<noteq> [])"

text \<open>The items of an iterable: \<open>tuple(value)\<close>\<close>

definition py_tuple :: "json \<Rightarrow> json list res" where
  "py_tuple j = (case j of
       JList xs \<Rightarrow> Inr xs
     | JObj d \<Rightarrow> Inr (map (JStr \<circ> fst) d)
     | JStr x \<Rightarrow> Inr (map (\<lambda>c. JStr [c]) x)
     | _ \<Rightarrow> Inl (TypeError ''object is not iterable''))"

end
