(* ===== verification/Mission_Types.thy ===== *)
theory Mission_Types
  imports Effects "HOL-Library.List_Lexorder" "HOL-Library.Char_ord"
begin

text \<open>
  The data model and the pure life-cycle functions of the mission subsystem:
  \<^verbatim>\<open>mission/types.py\<close>, \<^verbatim>\<open>mission/lifecycle.py\<close>, \<^verbatim>\<open>mission/verification.py\<close> and the event
  payloads of \<^verbatim>\<open>mission/events.py\<close>.

  Statuses are strings at run time (\<open>Literal\<close> types are checked by pydantic and by the store's
  guard only), so they are strings here; the three status sets are lists. Strings are compared
  by code point, as \<open>Char_ord\<close> and \<open>List_Lexorder\<close> do. A pydantic \<open>ValidationError\<close> is a
  \<open>ValueError\<close>; its message is the library's and is not modelled.
\<close>

subsection \<open>Statuses\<close>

definition mission_statuses :: "string list" where
  "mission_statuses = [''active'', ''paused'', ''completed'', ''failed'', ''canceled'', ''blocked'',
     ''budget_exhausted'', ''verifier_failed'']"

definition step_statuses :: "string list" where
  "step_statuses = [''pending'', ''running'', ''completed'', ''failed'', ''skipped'', ''blocked'']"

definition subgoal_statuses :: "string list" where
  "subgoal_statuses = [''pending'', ''active'', ''completed'', ''failed'', ''skipped'']"

definition validation_error :: "string \<Rightarrow> exc" where
  "validation_error model = ValueError (''1 validation error for '' @ model)"

subsection \<open>Models\<close>

record budget =
  max_steps :: "int option"
  max_cost_usd :: "rat option"
  max_duration_minutes :: "rat option"

record mission =
  m_id :: string
  m_name :: string
  m_goal :: string
  m_status :: string
  m_budget :: "budget option"
  m_metadata :: dict
  m_created_at :: string
  m_updated_at :: "string option"
  m_completed_at :: "string option"

record mission_step =
  ms_id :: string
  ms_mission :: string
  ms_description :: string
  ms_status :: string
  ms_result :: "string option"
  ms_created_at :: string
  ms_completed_at :: "string option"

record verifier_result =
  vr_passed :: bool
  vr_reason :: string
  vr_suggestions :: "string list"
  vr_metadata :: dict

record verification =
  mv_id :: string
  mv_passed :: bool
  mv_reason :: string
  mv_suggestions :: "string list"
  mv_metadata :: dict
  mv_created_at :: string

record mission_subgoal =
  sg_id :: string
  sg_mission :: string
  sg_description :: string
  sg_priority :: int
  sg_status :: string
  sg_created_at :: string
  sg_completed_at :: "string option"

record budget_usage =
  bu_steps_used :: int
  bu_max_steps :: "int option"
  bu_max_cost :: "rat option"
  bu_exhausted :: bool

text \<open>Construction of a budget checks \<open>gt=0\<close> on every field that is present.\<close>

definition positive :: "('a::{zero,ord}) option \<Rightarrow> bool" where
  "positive x = (case x of None \<Rightarrow> True | Some n \<Rightarrow> 0 < n)"

lemma positive_None [simp]: "positive None"
  by (simp add: positive_def)

definition make_budget :: "int option \<Rightarrow> rat option \<Rightarrow> rat option \<Rightarrow> budget res" where
  "make_budget n c d =
     (if positive n \<and> positive c \<and> positive d
      then Inr \<lparr>max_steps = n, max_cost_usd = c, max_duration_minutes = d\<rparr>
      else Inl (validation_error ''MissionBudget''))"

definition valid_budget :: "budget \<Rightarrow> bool" where
  "valid_budget b \<longleftrightarrow> positive (max_steps b) \<and> positive (max_cost_usd b) \<and> positive (max_duration_minutes b)"

subsection \<open>Life cycle\<close>

definition allowed_transitions :: "(string \<times> string list) list" where
  "allowed_transitions =
     [(''active'', [''active'', ''paused'', ''completed'', ''failed'', ''canceled'', ''blocked'',
                    ''budget_exhausted'', ''verifier_failed'']),
      (''paused'', [''paused'', ''active'', ''canceled'', ''failed'']),
      (''completed'', [''completed'']),
      (''failed'', [''failed'', ''active'', ''canceled'']),
      (''canceled'', [''canceled'', ''active'']),
      (''blocked'', [''blocked'', ''active'', ''canceled'', ''failed'']),
      (''budget_exhausted'', [''budget_exhausted'', ''active'', ''canceled'']),
      (''verifier_failed'', [''verifier_failed'', ''active'', ''failed'', ''canceled''])]"

text \<open>\<open>_ALLOWED_TRANSITIONS[previous_status]\<close> raises \<open>KeyError\<close> for an unknown status.\<close>

definition can_transition_mission_status :: "string option \<Rightarrow> string \<Rightarrow> bool res" where
  "can_transition_mission_status prev nxt = (case prev of
       None \<Rightarrow> Inr True
     | Some p \<Rightarrow> (case map_of allowed_transitions p of
           None \<Rightarrow> Inl (KeyError p)
         | Some row \<Rightarrow> Inr (nxt \<in> set row)))"

record status_transition =
  tr_next :: string
  tr_emit :: bool

definition resolve_mission_status_transition :: "string option \<Rightarrow> string \<Rightarrow> status_transition res" where
  "resolve_mission_status_transition prev nxt =
     (case can_transition_mission_status prev nxt of
        Inl e \<Rightarrow> Inl e
      | Inr ok \<Rightarrow>
          (if \<not> ok
           then Inl (ValueError (''Invalid mission status transition: '' @
                  (case prev of None \<Rightarrow> ''None'' | Some p \<Rightarrow> p) @ '' -> '' @ nxt))
           else Inr \<lparr>tr_next = nxt, tr_emit = (prev \<noteq> None \<and> prev \<noteq> Some nxt)\<rparr>))"

definition derive_mission_status_from_verifier_result :: "verifier_result \<Rightarrow> string option" where
  "derive_mission_status_from_verifier_result r = (if vr_passed r then Some ''completed'' else None)"

definition build_verifier_error_result :: "string \<Rightarrow> string \<Rightarrow> verifier_result" where
  "build_verifier_error_result message error_name =
     \<lparr>vr_passed = False, vr_reason = ''Verifier error: '' @ message, vr_suggestions = [],
      vr_metadata = [(''verifierThrew'', JBool True), (''errorName'', JStr error_name)]\<rparr>"

subsection \<open>Verification outcomes\<close>

record verification_outcome =
  vo_result :: verifier_result
  vo_next :: "string option"

definition build_missing_verifier_outcome :: verification_outcome where
  "build_missing_verifier_outcome =
     \<lparr>vo_result = \<lparr>vr_passed = False, vr_reason = ''No verifier registered'', vr_suggestions = [], vr_metadata = []\<rparr>,
      vo_next = None\<rparr>"

definition resolve_mission_verification_outcome :: "verifier_result \<Rightarrow> verification_outcome" where
  "resolve_mission_verification_outcome r =
     \<lparr>vo_result = r, vo_next = derive_mission_status_from_verifier_result r\<rparr>"

definition resolve_mission_verification_error_outcome :: "string \<Rightarrow> string \<Rightarrow> verification_outcome" where
  "resolve_mission_verification_error_outcome message error_name =
     \<lparr>vo_result = build_verifier_error_result message error_name, vo_next = None\<rparr>"

subsection \<open>Facts about the transition table\<close>

lemma transition_Inr: "resolve_mission_status_transition prev nxt = Inr t \<longleftrightarrow>
    t = \<lparr>tr_next = nxt, tr_emit = (prev \<noteq> None \<and> prev \<noteq> Some nxt)\<rparr> \<and>
    (case prev of None \<Rightarrow> True | Some p \<Rightarrow> \<exists>row. map_of allowed_transitions p = Some row \<and> nxt \<in> set row)"
  by (auto simp: resolve_mission_status_transition_def can_transition_mission_status_def split: option.splits)

text \<open>A move that the table allows.\<close>

definition allowed :: "string \<Rightarrow> string \<Rightarrow> bool" where
  "allowed p n = (case map_of allowed_transitions p of None \<Rightarrow> False | Some row \<Rightarrow> n \<in> set row)"

lemma transition_allowed:
  "(\<exists>t. resolve_mission_status_transition (Some p) n = Inr t) \<longleftrightarrow> allowed p n"
  by (auto simp: transition_Inr allowed_def split: option.splits)

lemma transition_from_None [simp]:
  "resolve_mission_status_transition None n = Inr \<lparr>tr_next = n, tr_emit = False\<rparr>"
  by (simp add: transition_Inr)

lemma transition_from_Some:
  "allowed p n \<Longrightarrow> resolve_mission_status_transition (Some p) n = Inr \<lparr>tr_next = n, tr_emit = (p \<noteq> n)\<rparr>"
  by (simp add: transition_Inr allowed_def split: option.splits)

text \<open>Facts about the finite table are checked entry by entry.\<close>

lemma allowed_key: "allowed p n \<Longrightarrow> p \<in> set mission_statuses"
proof -
  assume "allowed p n"
  then have "p \<in> set (map fst allowed_transitions)"
    by (auto simp: allowed_def split: option.splits dest!: map_of_SomeD intro: image_eqI [rotated])
  moreover have "map fst allowed_transitions = mission_statuses" by code_simp
  ultimately show ?thesis by simp
qed

lemma allowed_target: "allowed p n \<Longrightarrow> n \<in> set mission_statuses"
proof -
  assume "allowed p n"
  then obtain row where "(p, row) \<in> set allowed_transitions" and "n \<in> set row"
    by (auto simp: allowed_def split: option.splits dest!: map_of_SomeD)
  moreover have "list_all (\<lambda>(q, row). list_all (\<lambda>m. List.member mission_statuses m) row) allowed_transitions"
    by code_simp
  ultimately show ?thesis by (fastforce simp: list_all_iff)
qed

lemma allowed_completed: "allowed ''completed'' n \<longleftrightarrow> n = ''completed''"
proof -
  have "map_of allowed_transitions ''completed'' = Some [''completed'']" by code_simp
  then show ?thesis by (simp add: allowed_def)
qed

lemma allowed_active: "allowed ''active'' n \<longleftrightarrow> n \<in> set mission_statuses"
proof -
  have "map_of allowed_transitions ''active'' =
      Some [''active'', ''paused'', ''completed'', ''failed'', ''canceled'', ''blocked'',
            ''budget_exhausted'', ''verifier_failed'']" by code_simp
  then show ?thesis by (simp add: allowed_def mission_statuses_def)
qed

lemma allowed_to_completed: "allowed p ''completed'' \<longleftrightarrow> p = ''active'' \<or> p = ''completed''"
proof -
  have "list_all (\<lambda>p. allowed p ''completed'' = (p = ''active'' \<or> p = ''completed'')) mission_statuses"
    by code_simp
  moreover have "allowed ''active'' ''completed''" "allowed ''completed'' ''completed''" by code_simp+
  ultimately show ?thesis using allowed_key by (auto simp: list_all_iff)
qed

lemma allowed_refl: "p \<in> set mission_statuses \<Longrightarrow> allowed p p"
proof -
  have "list_all (\<lambda>p. allowed p p) mission_statuses" by code_simp
  then show "p \<in> set mission_statuses \<Longrightarrow> allowed p p" by (simp add: list_all_iff)
qed

end
