(* ===== verification/Mission_Store.thy ===== *)
theory Mission_Store
  imports Mission_Types
begin

text \<open>
  The SQLite store of \<^verbatim>\<open>mission/store.py\<close>. Each table is the list of its rows in insertion
  order, each JSON column holds the value itself. A statement checks the primary key and the
  foreign key and raises \<open>IntegrityError\<close> without changing the table; an \<open>UPDATE\<close> with an
  unknown key changes nothing. \<open>ORDER BY\<close> is a stable sort, so rows with equal keys come in
  insertion order. \<open>datetime('now')\<close> and the Python clock are both readings of the one clock.
\<close>

record mission_row =
  rw_id :: string
  rw_name :: string
  rw_goal :: string
  rw_status :: string
  rw_budget :: "dict option"
  rw_metadata :: "json option"
  rw_created_at :: string
  rw_updated_at :: "string option"
  rw_completed_at :: "string option"

record verification_row =
  vw_id :: string
  vw_mission :: string
  vw_passed :: int
  vw_reason :: string
  vw_suggestions :: "json option"
  vw_metadata :: "json option"
  vw_created_at :: string

record store =
  t_missions :: "mission_row list"
  t_steps :: "mission_step list"
  t_verifications :: "verification_row list"
  t_subgoals :: "mission_subgoal list"
  st_world :: world

definition empty_store :: "world \<Rightarrow> store" where
  "empty_store w = \<lparr>t_missions = [], t_steps = [], t_verifications = [], t_subgoals = [], st_world = w\<rparr>"

subsection \<open>Helpers\<close>

definition mission_terminal_statuses :: "string list" where
  "mission_terminal_statuses = [''completed'', ''failed'', ''canceled'']"

definition step_terminal_statuses :: "string list" where
  "step_terminal_statuses = [''completed'', ''failed'', ''blocked'', ''skipped'']"

definition subgoal_terminal_statuses :: "string list" where
  "subgoal_terminal_statuses = [''completed'', ''failed'', ''skipped'']"

definition require_known_status :: "string \<Rightarrow> string list \<Rightarrow> string \<Rightarrow> (store, unit) op" where
  "require_known_status x allowed_set kind =
     (if x \<notin> set allowed_set
      then raise (ValueError (''invalid '' @ kind @ '' status '' @ py_repr x @ ''; expected one of '' @
             py_repr_list (sort allowed_set)))
      else ret ())"

definition read_clock :: "(store, string) op" where
  "read_clock s = (let (t, w) = now (st_world s) in (Inr t, s\<lparr>st_world := w\<rparr>))"

definition generate_record_id :: "string \<Rightarrow> (store, string) op" where
  "generate_record_id prefix s =
     (let (u, w) = uuid_hex 8 (st_world s) in (Inr (prefix @ ''-'' @ u), s\<lparr>st_world := w\<rparr>))"

definition completion_timestamp :: "string \<Rightarrow> string list \<Rightarrow> (store, string option) op" where
  "completion_timestamp x terminal =
     (if x \<in> set terminal then bind read_clock (\<lambda>t. ret (Some t)) else ret None)"

definition unique_failed :: "string \<Rightarrow> exc" where
  "unique_failed t = IntegrityError (''UNIQUE constraint failed: '' @ t @ ''.id'')"

definition foreign_failed :: exc where
  "foreign_failed = IntegrityError ''FOREIGN KEY constraint failed''"

definition has_mission :: "string \<Rightarrow> store \<Rightarrow> bool" where
  "has_mission mid s \<longleftrightarrow> mid \<in> rw_id ` set (t_missions s)"

definition insert_mission :: "mission_row \<Rightarrow> (store, unit) op" where
  "insert_mission r s =
     (if has_mission (rw_id r) s then (Inl (unique_failed ''missions''), s)
      else (Inr (), s\<lparr>t_missions := t_missions s @ [r]\<rparr>))"

definition insert_step :: "mission_step \<Rightarrow> (store, unit) op" where
  "insert_step r s =
     (if ms_id r \<in> ms_id ` set (t_steps s) then (Inl (unique_failed ''mission_steps''), s)
      else if \<not> has_mission (ms_mission r) s then (Inl foreign_failed, s)
      else (Inr (), s\<lparr>t_steps := t_steps s @ [r]\<rparr>))"

definition insert_verification :: "verification_row \<Rightarrow> (store, unit) op" where
  "insert_verification r s =
     (if vw_id r \<in> vw_id ` set (t_verifications s) then (Inl (unique_failed ''mission_verifications''), s)
      else if \<not> has_mission (vw_mission r) s then (Inl foreign_failed, s)
      else (Inr (), s\<lparr>t_verifications := t_verifications s @ [r]\<rparr>))"

text \<open>An SQLite integer has 64 bits; binding a larger one raises before the statement runs.\<close>

definition sqlite_integer :: "int \<Rightarrow> bool" where
  "sqlite_integer n \<longleftrightarrow> - (2 ^ 63) \<le> n \<and> n < 2 ^ 63"

definition insert_subgoal :: "mission_subgoal \<Rightarrow> (store, unit) op" where
  "insert_subgoal r s =
     (if \<not> sqlite_integer (sg_priority r) then (Inl (OverflowError ''Python int too large to convert to SQLite INTEGER''), s)
      else if sg_id r \<in> sg_id ` set (t_subgoals s) then (Inl (unique_failed ''mission_subgoals''), s)
      else if \<not> has_mission (sg_mission r) s then (Inl foreign_failed, s)
      else (Inr (), s\<lparr>t_subgoals := t_subgoals s @ [r]\<rparr>))"

subsection \<open>Row mapping\<close>

definition budget_to_camel :: "budget \<Rightarrow> dict" where
  "budget_to_camel b =
     (case max_steps b of Some n \<Rightarrow> [(''maxSteps'', JInt n)] | None \<Rightarrow> []) @
     (case max_cost_usd b of Some c \<Rightarrow> [(''maxCostUsd'', JFloat c)] | None \<Rightarrow> []) @
     (case max_duration_minutes b of Some d \<Rightarrow> [(''maxDurationMinutes'', JFloat d)] | None \<Rightarrow> [])"

text \<open>Strict pydantic fields: an integer only, and a float or an integer; \<open>None\<close> is accepted.
  A limit that is infinite or not a number is outside the model: reading it raises here.\<close>

definition strict_int :: "json option \<Rightarrow> int option option" where
  "strict_int j = (case j of None \<Rightarrow> Some None | Some JNull \<Rightarrow> Some None
     | Some (JInt n) \<Rightarrow> Some (Some n) | _ \<Rightarrow> None)"

definition strict_float :: "json option \<Rightarrow> rat option option" where
  "strict_float j = (case j of None \<Rightarrow> Some None | Some JNull \<Rightarrow> Some None
     | Some (JFloat x) \<Rightarrow> Some (Some x) | Some (JInt n) \<Rightarrow> Some (Some (of_int n)) | _ \<Rightarrow> None)"

definition budget_from_camel :: "dict option \<Rightarrow> budget option res" where
  "budget_from_camel payload = (case payload of
       None \<Rightarrow> Inr None
     | Some [] \<Rightarrow> Inr None
     | Some d \<Rightarrow>
        (case (strict_int (map_of d ''maxSteps''), strict_float (map_of d ''maxCostUsd''),
               strict_float (map_of d ''maxDurationMinutes'')) of
           (Some n, Some c, Some m) \<Rightarrow>
             (case make_budget n c m of Inl e \<Rightarrow> Inl e | Inr b \<Rightarrow> Inr (Some b))
         | _ \<Rightarrow> Inl (validation_error ''MissionBudget'')))"

definition mission_from_row :: "mission_row \<Rightarrow> mission res" where
  "mission_from_row r = (case budget_from_camel (rw_budget r) of
       Inl e \<Rightarrow> Inl e
     | Inr b \<Rightarrow>
        (case (case rw_metadata r of None \<Rightarrow> JObj [] | Some j \<Rightarrow> j) of
           JObj md \<Rightarrow>
             (if rw_status r \<in> set mission_statuses
              then Inr \<lparr>m_id = rw_id r, m_name = rw_name r, m_goal = rw_goal r, m_status = rw_status r,
                        m_budget = b, m_metadata = md, m_created_at = rw_created_at r,
                        m_updated_at = rw_updated_at r, m_completed_at = rw_completed_at r\<rparr>
              else Inl (validation_error ''Mission''))
         | _ \<Rightarrow> Inl (validation_error ''Mission'')))"

definition step_from_row :: "mission_step \<Rightarrow> mission_step" where
  "step_from_row r =
     (if ms_status r \<in> set step_statuses then r else r\<lparr>ms_status := ''pending''\<rparr>)"

definition subgoal_from_row :: "mission_subgoal \<Rightarrow> mission_subgoal" where
  "subgoal_from_row r =
     (if sg_status r \<in> set subgoal_statuses then r else r\<lparr>sg_status := ''pending''\<rparr>)"

text \<open>A tuple of strict strings.\<close>

fun strict_strings :: "json list \<Rightarrow> string list option" where
  "strict_strings [] = Some []"
| "strict_strings (JStr x # xs) = map_option ((#) x) (strict_strings xs)"
| "strict_strings (_ # xs) = None"

definition verification_from_row :: "verification_row \<Rightarrow> verification res" where
  "verification_from_row r =
     (case py_tuple (case vw_suggestions r of None \<Rightarrow> JList [] | Some j \<Rightarrow> j) of
        Inl e \<Rightarrow> Inl e
      | Inr js \<Rightarrow>
         (case (strict_strings js, case vw_metadata r of None \<Rightarrow> JObj [] | Some j \<Rightarrow> j) of
            (Some xs, JObj md) \<Rightarrow>
              Inr \<lparr>mv_id = vw_id r, mv_passed = (vw_passed r \<noteq> 0), mv_reason = vw_reason r,
                   mv_suggestions = xs, mv_metadata = md, mv_created_at = vw_created_at r\<rparr>
          | _ \<Rightarrow> Inl (validation_error ''MissionVerificationRecord'')))"

subsection \<open>Missions\<close>

definition create_mission :: "string \<Rightarrow> string \<Rightarrow> budget option \<Rightarrow> dict option \<Rightarrow> (store, string) op" where
  "create_mission name goal b metadata =
     bind (generate_record_id ''mission'') (\<lambda>rid.
     bind read_clock (\<lambda>t.
     andthen (insert_mission
        \<lparr>rw_id = rid, rw_name = name, rw_goal = goal, rw_status = ''active'',
         rw_budget = map_option budget_to_camel b,
         rw_metadata = Some (JObj (case metadata of Some m \<Rightarrow> m | None \<Rightarrow> [])),
         rw_created_at = t, rw_updated_at = None, rw_completed_at = None\<rparr>)
     (ret rid)))"

definition get_mission :: "string \<Rightarrow> (store, mission option) op" where
  "get_mission mid = bind (asks (find_by rw_id mid \<circ> t_missions)) (\<lambda>row. case row of
       None \<Rightarrow> ret None
     | Some r \<Rightarrow> bind (lift_res (mission_from_row r)) (\<lambda>m. ret (Some m)))"

definition list_missions :: "string option \<Rightarrow> (store, mission list) op" where
  "list_missions status = bind (asks t_missions) (\<lambda>rows.
     lift_res (map_res mission_from_row
       (rev (sort_key rw_created_at (rev (case status of
          None \<Rightarrow> rows | Some x \<Rightarrow> filter (\<lambda>r. rw_status r = x) rows))))))"

definition update_mission_status :: "string \<Rightarrow> string \<Rightarrow> (store, unit) op" where
  "update_mission_status mid status =
     andthen (require_known_status status mission_statuses ''mission'')
     (bind (completion_timestamp status mission_terminal_statuses) (\<lambda>done_at.
      bind read_clock (\<lambda>t.
      modify (\<lambda>s. s\<lparr>t_missions := update_by rw_id mid
        (\<lambda>r. r\<lparr>rw_status := status, rw_updated_at := Some t, rw_completed_at := done_at\<rparr>) (t_missions s)\<rparr>))))"

subsection \<open>Steps\<close>

definition add_step :: "string \<Rightarrow> string \<Rightarrow> (store, string) op" where
  "add_step mid description =
     bind (generate_record_id ''step'') (\<lambda>rid.
     bind read_clock (\<lambda>t.
     andthen (insert_step
        \<lparr>ms_id = rid, ms_mission = mid, ms_description = description, ms_status = ''completed'',
         ms_result = None, ms_created_at = t, ms_completed_at = None\<rparr>)
     (ret rid)))"

definition get_steps :: "string \<Rightarrow> (store, mission_step list) op" where
  "get_steps mid = asks (\<lambda>s. map step_from_row
     (sort_key ms_created_at (filter (\<lambda>r. ms_mission r = mid) (t_steps s))))"

definition update_step_status :: "string \<Rightarrow> string \<Rightarrow> string option \<Rightarrow> (store, unit) op" where
  "update_step_status sid status result =
     andthen (require_known_status status step_statuses ''step'')
     (bind (completion_timestamp status step_terminal_statuses) (\<lambda>done_at.
      modify (\<lambda>s. s\<lparr>t_steps := update_by ms_id sid
        (\<lambda>r. r\<lparr>ms_status := status,
               ms_result := (case result of Some x \<Rightarrow> Some x | None \<Rightarrow> ms_result r),
               ms_completed_at := done_at\<rparr>) (t_steps s)\<rparr>)))"

subsection \<open>Verifications\<close>

definition record_verification :: "string \<Rightarrow> verifier_result \<Rightarrow> (store, unit) op" where
  "record_verification mid r =
     bind (generate_record_id ''verify'') (\<lambda>rid.
     bind read_clock (\<lambda>t.
     insert_verification
       \<lparr>vw_id = rid, vw_mission = mid, vw_passed = (if vr_passed r then 1 else 0), vw_reason = vr_reason r,
        vw_suggestions = Some (JList (map JStr (vr_suggestions r))), vw_metadata = Some (JObj (vr_metadata r)),
        vw_created_at = t\<rparr>))"

definition get_verifications :: "string \<Rightarrow> (store, verification list) op" where
  "get_verifications mid = bind (asks t_verifications) (\<lambda>rows.
     lift_res (map_res verification_from_row
       (sort_key vw_created_at (filter (\<lambda>r. vw_mission r = mid) rows))))"

subsection \<open>Subgoals\<close>

definition add_subgoal :: "string \<Rightarrow> string \<Rightarrow> int \<Rightarrow> (store, string) op" where
  "add_subgoal mid description priority =
     bind (generate_record_id ''subgoal'') (\<lambda>rid.
     bind read_clock (\<lambda>t.
     andthen (insert_subgoal
        \<lparr>sg_id = rid, sg_mission = mid, sg_description = description, sg_priority = priority,
         sg_status = ''pending'', sg_created_at = t, sg_completed_at = None\<rparr>)
     (ret rid)))"

text \<open>\<open>ORDER BY priority ASC, created_at ASC\<close>\<close>

definition get_subgoals :: "string \<Rightarrow> (store, mission_subgoal list) op" where
  "get_subgoals mid = asks (\<lambda>s. map subgoal_from_row
     (sort_key sg_priority (sort_key sg_created_at (filter (\<lambda>r. sg_mission r = mid) (t_subgoals s)))))"

definition update_subgoal_status :: "string \<Rightarrow> string \<Rightarrow> (store, unit) op" where
  "update_subgoal_status sgid status =
     andthen (require_known_status status subgoal_statuses ''subgoal'')
     (bind (completion_timestamp status subgoal_terminal_statuses) (\<lambda>done_at.
      modify (\<lambda>s. s\<lparr>t_subgoals := update_by sg_id sgid
        (\<lambda>r. r\<lparr>sg_status := status, sg_completed_at := done_at\<rparr>) (t_subgoals s)\<rparr>)))"

subsection \<open>Budget usage\<close>

definition get_budget_usage :: "string \<Rightarrow> (store, budget_usage) op" where
  "get_budget_usage mid =
     bind (get_mission mid) (\<lambda>m.
     bind (asks (\<lambda>s. int (length (filter (\<lambda>r. ms_mission r = mid) (t_steps s))))) (\<lambda>used.
     let cap = (case m of Some x \<Rightarrow> (case m_budget x of Some b \<Rightarrow> max_steps b | None \<Rightarrow> None) | None \<Rightarrow> None);
         cost = (case m of Some x \<Rightarrow> (case m_budget x of Some b \<Rightarrow> max_cost_usd b | None \<Rightarrow> None) | None \<Rightarrow> None)
     in ret \<lparr>bu_steps_used = used, bu_max_steps = cap, bu_max_cost = cost,
             bu_exhausted = (case cap of None \<Rightarrow> False | Some n \<Rightarrow> n \<le> used)\<rparr>))"

end
