(* ===== verification/Mission_Manager.thy ===== *)
theory Mission_Manager
  imports Mission_Store
begin

text \<open>
  The event emitter of \<^verbatim>\<open>mission/events.py\<close> and the mission manager of
  \<^verbatim>\<open>mission/manager.py\<close>.

  Verifiers and listeners are callables of the manager's users. A registered verifier is a
  value of the type parameter \<open>'v\<close> that the environment interprets: calling it may change the
  whole manager state, raise, or return a result or a coroutine. A listener is a name; calling
  it returns or raises, and every call is recorded in \<open>mg_delivered\<close>.
\<close>

datatype mission_event =
    MissionCreatedEvent string string string string
  | MissionStepEvent string string int string
  | MissionStatusChangedEvent string string string string
  | MissionVerifiedEvent string bool string string

type_synonym emitter = "(string \<times> string list) list"

record 'v mstate =
  mg_store :: store
  mg_verifiers :: "(string \<times> 'v) list"
  mg_events :: "emitter option"
  mg_delivered :: "(string \<times> mission_event) list"

text \<open>What a callable returned: a plain value, or a coroutine with the outcome of running it.\<close>

datatype 'a raw = Plain 'a | Coroutine "'a res"

record 'v env =
  ev_verify :: "'v \<Rightarrow> string \<Rightarrow> ('v mstate, verifier_result raw) op"
  ev_listen :: "string \<Rightarrow> mission_event \<Rightarrow> unit res"
  ev_loop :: bool  \<comment> \<open>\<open>has_running_loop()\<close>\<close>

definition on_store :: "(store, 'a) op \<Rightarrow> ('v mstate, 'a) op" where
  "on_store m s = (let (r, st) = m (mg_store s) in (r, s\<lparr>mg_store := st\<rparr>))"

definition create_manager :: "world \<Rightarrow> emitter option \<Rightarrow> 'v mstate" where
  "create_manager w events =
     \<lparr>mg_store = empty_store w, mg_verifiers = [], mg_events = events, mg_delivered = []\<rparr>"

subsection \<open>Events\<close>

definition event_kinds :: "string list" where
  "event_kinds = [''mission_created'', ''mission_step'', ''mission_status_changed'', ''mission_verified'']"

definition new_emitter :: emitter where
  "new_emitter = map (\<lambda>k. (k, [])) event_kinds"

definition emitter_on :: "string \<Rightarrow> string \<Rightarrow> emitter \<Rightarrow> emitter res" where
  "emitter_on kind callback em = (case map_of em kind of
       None \<Rightarrow> Inl (ValueError (''unknown mission event '' @ py_repr kind @ ''; expected one of '' @
              py_repr_list (map fst em)))
     | Some cs \<Rightarrow> Inr (AList.update kind (cs @ [callback]) em))"

text \<open>
  A listener sees an event and may raise. It is an observer: that a listener calls the manager back is
  not modelled, so every statement about runs is for listeners that do not.
\<close>

definition deliver :: "'v env \<Rightarrow> mission_event \<Rightarrow> string \<Rightarrow> ('v mstate, unit) op" where
  "deliver env ev callback =
     andthen (modify (\<lambda>s. s\<lparr>mg_delivered := mg_delivered s @ [(callback, ev)]\<rparr>))
     (lift_res (ev_listen env callback ev))"

text \<open>\<open>_emit\<close>; the manager calls the emit methods only when it has an emitter.\<close>

definition emit :: "'v env \<Rightarrow> string \<Rightarrow> (string \<Rightarrow> mission_event) \<Rightarrow> ('v mstate, unit) op" where
  "emit env kind payload =
     bind (asks mg_events) (\<lambda>em. case em of
       None \<Rightarrow> ret ()
     | Some e \<Rightarrow> bind (on_store read_clock) (\<lambda>t.
         case map_of e kind of
           None \<Rightarrow> raise (KeyError kind)
         | Some cs \<Rightarrow> each (deliver env (payload t)) cs))"

definition emit_created :: "'v env \<Rightarrow> string \<Rightarrow> string \<Rightarrow> string \<Rightarrow> ('v mstate, unit) op" where
  "emit_created env mid name goal = emit env ''mission_created'' (MissionCreatedEvent mid name goal)"

definition emit_step :: "'v env \<Rightarrow> string \<Rightarrow> string \<Rightarrow> int \<Rightarrow> ('v mstate, unit) op" where
  "emit_step env mid description n = emit env ''mission_step'' (MissionStepEvent mid description n)"

definition emit_status_change :: "'v env \<Rightarrow> string \<Rightarrow> string \<Rightarrow> string \<Rightarrow> ('v mstate, unit) op" where
  "emit_status_change env mid old new =
     emit env ''mission_status_changed'' (MissionStatusChangedEvent mid old new)"

definition emit_verified :: "'v env \<Rightarrow> string \<Rightarrow> bool \<Rightarrow> string \<Rightarrow> ('v mstate, unit) op" where
  "emit_verified env mid passed reason = emit env ''mission_verified'' (MissionVerifiedEvent mid passed reason)"

subsection \<open>Missions, steps and subgoals\<close>

definition mgr_create :: "'v env \<Rightarrow> string \<Rightarrow> string \<Rightarrow> budget option \<Rightarrow> dict option \<Rightarrow> ('v mstate, string) op" where
  "mgr_create env name goal b metadata =
     bind (on_store (create_mission name goal b metadata)) (\<lambda>mid.
     andthen (emit_created env mid name goal) (ret mid))"

definition mgr_get :: "string \<Rightarrow> ('v mstate, mission option) op" where
  "mgr_get mid = on_store (get_mission mid)"

definition mgr_list :: "string option \<Rightarrow> ('v mstate, mission list) op" where
  "mgr_list status = on_store (list_missions status)"

text \<open>The number of steps is counted only when there is an emitter.\<close>

definition advance :: "'v env \<Rightarrow> string \<Rightarrow> string \<Rightarrow> ('v mstate, string) op" where
  "advance env mid description =
     bind (on_store (add_step mid description)) (\<lambda>sid.
     bind (asks mg_events) (\<lambda>em.
     andthen (if em = None then ret ()
              else bind (on_store (get_steps mid)) (\<lambda>xs. emit_step env mid description (int (length xs))))
     (ret sid)))"

definition mgr_steps :: "string \<Rightarrow> ('v mstate, mission_step list) op" where
  "mgr_steps mid = on_store (get_steps mid)"

definition update_step :: "string \<Rightarrow> string \<Rightarrow> string option \<Rightarrow> ('v mstate, unit) op" where
  "update_step sid status result = on_store (update_step_status sid status result)"

definition mgr_subgoals :: "string \<Rightarrow> ('v mstate, mission_subgoal list) op" where
  "mgr_subgoals mid = on_store (get_subgoals mid)"

definition mgr_add_subgoal :: "string \<Rightarrow> string \<Rightarrow> int \<Rightarrow> ('v mstate, string) op" where
  "mgr_add_subgoal mid description priority = on_store (add_subgoal mid description priority)"

definition mgr_update_subgoal :: "string \<Rightarrow> string \<Rightarrow> ('v mstate, unit) op" where
  "mgr_update_subgoal sgid status = on_store (update_subgoal_status sgid status)"

subsection \<open>Verification\<close>

definition set_verifier :: "string \<Rightarrow> 'v \<Rightarrow> ('v mstate, unit) op" where
  "set_verifier mid v = modify (\<lambda>s. s\<lparr>mg_verifiers := AList.update mid v (mg_verifiers s)\<rparr>)"

definition has_verifier :: "string \<Rightarrow> ('v mstate, bool) op" where
  "has_verifier mid = asks (\<lambda>s. mid \<in> fst ` set (mg_verifiers s))"

definition async_verifier_error :: exc where
  "async_verifier_error = AsyncContextError
     (''MissionManager.verify received an async verifier while a running event loop is active. '' @
      ''Run from sync code, or await the verifier yourself and pass the resolved '' @
      ''VerifierResult into a future async-aware verify API.'')"

definition is_async_error :: "exc \<Rightarrow> bool" where
  "is_async_error e = (case e of AsyncContextError m \<Rightarrow> True | _ \<Rightarrow> False)"

text \<open>The \<open>try\<close> block of \<open>verify\<close> and its handlers.\<close>

definition run_verifier :: "'v env \<Rightarrow> 'v \<Rightarrow> string \<Rightarrow> ('v mstate, verification_outcome) op" where
  "run_verifier env v mid = catch
     (bind (ev_verify env v mid) (\<lambda>raw. case raw of
         Plain r \<Rightarrow> ret (resolve_mission_verification_outcome r)
       | Coroutine c \<Rightarrow>
           (if ev_loop env then raise async_verifier_error
            else bind (lift_res c) (\<lambda>r. ret (resolve_mission_verification_outcome r)))))
     (\<lambda>e. if is_async_error e then raise e
          else ret (resolve_mission_verification_error_outcome (exc_str e) (exc_name e)))"

definition verify_transition :: "string \<Rightarrow> verification_outcome \<Rightarrow> ('v mstate, (string option \<times> status_transition) option) op" where
  "verify_transition mid outcome = (case vo_next outcome of
       None \<Rightarrow> ret None
     | Some nxt \<Rightarrow>
         bind (on_store (get_mission mid)) (\<lambda>m.
         bind (lift_res (resolve_mission_status_transition (map_option m_status m) nxt)) (\<lambda>t.
         ret (Some (map_option m_status m, t)))))"

definition verify :: "'v env \<Rightarrow> string \<Rightarrow> ('v mstate, verifier_result) op" where
  "verify env mid =
     bind (asks (\<lambda>s. map_of (mg_verifiers s) mid)) (\<lambda>v.
     bind (case v of None \<Rightarrow> ret build_missing_verifier_outcome | Some f \<Rightarrow> run_verifier env f mid) (\<lambda>outcome.
     bind (verify_transition mid outcome) (\<lambda>tr.
     andthen (on_store (record_verification mid (vo_result outcome)))
     (andthen (case tr of None \<Rightarrow> ret () | Some (_, t) \<Rightarrow> on_store (update_mission_status mid (tr_next t)))
     (andthen (emit_verified env mid (vr_passed (vo_result outcome)) (vr_reason (vo_result outcome)))
     (andthen (case tr of
          Some (Some prev, t) \<Rightarrow> (if tr_emit t then emit_status_change env mid prev (tr_next t) else ret ())
        | _ \<Rightarrow> ret ())
     (ret (vo_result outcome))))))))"

definition mgr_verifications :: "string \<Rightarrow> ('v mstate, verification list) op" where
  "mgr_verifications mid = on_store (get_verifications mid)"

subsection \<open>Status transitions\<close>

definition transition_mission_status :: "'v env \<Rightarrow> string \<Rightarrow> string \<Rightarrow> ('v mstate, unit) op" where
  "transition_mission_status env mid status =
     bind (on_store (get_mission mid)) (\<lambda>m.
     bind (lift_res (resolve_mission_status_transition (map_option m_status m) status)) (\<lambda>t.
     andthen (on_store (update_mission_status mid (tr_next t)))
     (case map_option m_status m of
        Some prev \<Rightarrow> (if tr_emit t then emit_status_change env mid prev (tr_next t) else ret ())
      | None \<Rightarrow> ret ())))"

definition pause_mission :: "'v env \<Rightarrow> string \<Rightarrow> ('v mstate, unit) op" where
  "pause_mission env mid = transition_mission_status env mid ''paused''"

definition resume_mission :: "'v env \<Rightarrow> string \<Rightarrow> ('v mstate, unit) op" where
  "resume_mission env mid = transition_mission_status env mid ''active''"

definition cancel_mission :: "'v env \<Rightarrow> string \<Rightarrow> ('v mstate, unit) op" where
  "cancel_mission env mid = transition_mission_status env mid ''canceled''"

definition set_status :: "'v env \<Rightarrow> string \<Rightarrow> string \<Rightarrow> ('v mstate, unit) op" where
  "set_status env mid status = transition_mission_status env mid status"

definition mgr_budget_usage :: "string \<Rightarrow> ('v mstate, budget_usage) op" where
  "mgr_budget_usage mid = on_store (get_budget_usage mid)"

end
