(* ===== verification/Mission_Run.thy ===== *)
theory Mission_Run
  imports Mission_Manager
begin

text \<open>
  The bounded step loop of \<^verbatim>\<open>mission/executor.py\<close>. The step executor is a callable of the
  user: an operation on the whole manager state that returns a step result or an awaitable of
  one, or raises.
\<close>

datatype step_outcome = StepCompleted | StepFailed | StepBlocked

record step_result =
  sr_description :: string
  sr_status :: step_outcome
  sr_block_reason :: "string option"

record run_step_result =
  rs_recorded :: bool
  rs_exhausted :: bool
  rs_blocked :: bool
  rs_final :: "string option"
  rs_error :: "string option"

record run_result =
  rr_final :: string
  rr_steps :: int
  rr_passed :: bool

type_synonym 'v executor = "string \<Rightarrow> ('v mstate, step_result raw) op"

definition async_executor_error :: exc where
  "async_executor_error = AsyncContextError
     (''run_step received an async executor while a running event loop is active. '' @
      ''Run from sync code, or call the step executor yourself and pass the resolved '' @
      ''StepResult into run_step.'')"

definition await_if_needed :: "'v env \<Rightarrow> step_result raw \<Rightarrow> ('v mstate, step_result) op" where
  "await_if_needed env value = (case value of
       Plain r \<Rightarrow> ret r
     | Coroutine c \<Rightarrow> (if ev_loop env then raise async_executor_error else lift_res c))"

definition mission_not_found :: "string \<Rightarrow> exc" where
  "mission_not_found mid = ValueError (''Mission not found: '' @ mid)"

text \<open>The \<open>try\<close> block: \<open>Inl\<close> for the caught exception's message, \<open>Inr\<close> for the step result.\<close>

definition call_executor :: "'v env \<Rightarrow> 'v executor \<Rightarrow> string \<Rightarrow> ('v mstate, string + step_result) op" where
  "call_executor env ex mid = catch
     (bind (ex mid) (\<lambda>raw. bind (await_if_needed env raw) (\<lambda>r. ret (Inr r))))
     (\<lambda>e. if is_async_error e then raise e else ret (Inl (exc_str e)))"

definition py_or :: "string option \<Rightarrow> string \<Rightarrow> string" where
  "py_or x d = (case x of Some (c # cs) \<Rightarrow> c # cs | _ \<Rightarrow> d)"  \<comment> \<open>\<open>x or d\<close>\<close>

text \<open>After a completed step the budget is checked again.\<close>

definition finish_completed_step :: "'v env \<Rightarrow> string \<Rightarrow> ('v mstate, run_step_result) op" where
  "finish_completed_step env mid =
     bind (mgr_budget_usage mid) (\<lambda>u.
     if bu_exhausted u
     then andthen (set_status env mid ''budget_exhausted'')
          (ret \<lparr>rs_recorded = True, rs_exhausted = True, rs_blocked = False,
                rs_final = Some ''budget_exhausted'', rs_error = None\<rparr>)
     else ret \<lparr>rs_recorded = True, rs_exhausted = False, rs_blocked = False, rs_final = None,
               rs_error = None\<rparr>)"

definition finish_failed_step :: "string \<Rightarrow> step_result \<Rightarrow> ('v mstate, run_step_result) op" where
  "finish_failed_step sid result =
     andthen (update_step sid ''failed'' (Some (sr_description result)))
     (ret \<lparr>rs_recorded = True, rs_exhausted = False, rs_blocked = False, rs_final = None,
           rs_error = Some (sr_description result)\<rparr>)"

definition finish_blocked_step :: "'v env \<Rightarrow> string \<Rightarrow> string \<Rightarrow> step_result \<Rightarrow> ('v mstate, run_step_result) op" where
  "finish_blocked_step env mid sid result =
     (let reason = py_or (sr_block_reason result) (sr_description result) in
      andthen (update_step sid ''blocked'' (Some reason))
      (andthen (set_status env mid ''blocked'')
      (ret \<lparr>rs_recorded = True, rs_exhausted = False, rs_blocked = True, rs_final = Some ''blocked'',
            rs_error = Some reason\<rparr>)))"

definition record_step_result :: "'v env \<Rightarrow> string \<Rightarrow> step_result \<Rightarrow> ('v mstate, run_step_result) op" where
  "record_step_result env mid result =
     bind (advance env mid (sr_description result)) (\<lambda>sid.
     case sr_status result of
       StepFailed \<Rightarrow> finish_failed_step sid result
     | StepBlocked \<Rightarrow> finish_blocked_step env mid sid result
     | StepCompleted \<Rightarrow> finish_completed_step env mid)"

text \<open>The handler: the exception becomes a failed step.\<close>

definition record_failed_call :: "'v env \<Rightarrow> string \<Rightarrow> string \<Rightarrow> ('v mstate, run_step_result) op" where
  "record_failed_call env mid message =
     bind (advance env mid (''Error: '' @ message)) (\<lambda>sid.
     andthen (update_step sid ''failed'' (Some message))
     (ret \<lparr>rs_recorded = True, rs_exhausted = False, rs_blocked = False, rs_final = None,
           rs_error = Some message\<rparr>))"

text \<open>The rest of \<open>run_step\<close>, once the mission is known to be active.\<close>

definition run_active_step :: "'v env \<Rightarrow> 'v executor \<Rightarrow> string \<Rightarrow> ('v mstate, run_step_result) op" where
  "run_active_step env ex mid =
     bind (mgr_budget_usage mid) (\<lambda>u.
     if bu_exhausted u
     then andthen (set_status env mid ''budget_exhausted'')
          (ret \<lparr>rs_recorded = False, rs_exhausted = True, rs_blocked = False,
                rs_final = Some ''budget_exhausted'', rs_error = None\<rparr>)
     else bind (call_executor env ex mid) (\<lambda>r. case r of
         Inl message \<Rightarrow> record_failed_call env mid message
       | Inr result \<Rightarrow> record_step_result env mid result))"

definition run_step :: "'v env \<Rightarrow> 'v executor \<Rightarrow> string \<Rightarrow> ('v mstate, run_step_result) op" where
  "run_step env ex mid =
     bind (mgr_get mid) (\<lambda>mo. case mo of
       None \<Rightarrow> raise (mission_not_found mid)
     | Some m \<Rightarrow>
       if m_status m \<noteq> ''active''
       then ret \<lparr>rs_recorded = False, rs_exhausted = (m_status m = ''budget_exhausted''),
                 rs_blocked = (m_status m = ''blocked''), rs_final = Some (m_status m),
                 rs_error = Some (''Mission is '' @ m_status m)\<rparr>
       else run_active_step env ex mid)"

text \<open>
  What one iteration of \<open>run_until_done\<close> decides: return now (\<open>Inr\<close>), or go on with the number
  of steps executed so far (\<open>Inl\<close>). \<open>after_step\<close> reads the step result, \<open>verify_iteration\<close> asks
  the verifier.
\<close>

definition after_step :: "run_step_result \<Rightarrow> string option" where
  "after_step r = (case rs_final r of
       Some x \<Rightarrow> (if x \<noteq> ''active'' then Some x
                  else if rs_exhausted r then Some ''budget_exhausted''
                  else if rs_blocked r then Some ''blocked'' else None)
     | None \<Rightarrow> (if rs_exhausted r then Some ''budget_exhausted''
                else if rs_blocked r then Some ''blocked'' else None))"

definition verify_iteration :: "'v env \<Rightarrow> string \<Rightarrow> int \<Rightarrow> ('v mstate, int + run_result) op" where
  "verify_iteration env mid n =
     bind (verify env mid) (\<lambda>v.
     if vr_passed v
     then ret (Inr \<lparr>rr_final = ''completed'', rr_steps = n, rr_passed = True\<rparr>)
     else if map_of (vr_metadata v) ''verifierThrew'' = Some (JBool True)
     then andthen (set_status env mid ''verifier_failed'')
          (ret (Inr \<lparr>rr_final = ''verifier_failed'', rr_steps = n, rr_passed = False\<rparr>))
     else ret (Inl n))"

definition run_active_iteration :: "'v env \<Rightarrow> 'v executor \<Rightarrow> string \<Rightarrow> int \<Rightarrow> ('v mstate, int + run_result) op" where
  "run_active_iteration env ex mid n =
     bind (run_step env ex mid) (\<lambda>r.
     let n' = (if rs_recorded r then n + 1 else n) in
     case after_step r of
       Some x \<Rightarrow> ret (Inr \<lparr>rr_final = x, rr_steps = n', rr_passed = False\<rparr>)
     | None \<Rightarrow> verify_iteration env mid n')"

definition run_iteration :: "'v env \<Rightarrow> 'v executor \<Rightarrow> string \<Rightarrow> int \<Rightarrow> ('v mstate, int + run_result) op" where
  "run_iteration env ex mid n =
     bind (mgr_get mid) (\<lambda>mo. case mo of
       None \<Rightarrow> raise (mission_not_found mid)
     | Some m \<Rightarrow>
       if m_status m \<noteq> ''active''
       then ret (Inr \<lparr>rr_final = m_status m, rr_steps = n, rr_passed = False\<rparr>)
       else run_active_iteration env ex mid n)"

text \<open>
  An executor may keep state of its own between its calls; every iteration that goes on has
  called it once, so \<open>ex i\<close> is its \<open>i\<close>-th call.
\<close>

fun run_loop :: "nat \<Rightarrow> 'v env \<Rightarrow> (int \<Rightarrow> 'v executor) \<Rightarrow> string \<Rightarrow> int \<Rightarrow> int \<Rightarrow> ('v mstate, run_result) op" where
  "run_loop 0 env ex mid i n =
     bind (mgr_get mid) (\<lambda>mo.
     ret \<lparr>rr_final = (case mo of Some m \<Rightarrow> m_status m | None \<Rightarrow> ''active''), rr_steps = n, rr_passed = False\<rparr>)"
| "run_loop (Suc k) env ex mid i n =
     bind (run_iteration env (ex i) mid n) (\<lambda>d. case d of
       Inr r \<Rightarrow> ret r
     | Inl n' \<Rightarrow> run_loop k env ex mid (i + 1) n')"

definition run_until_done :: "'v env \<Rightarrow> (int \<Rightarrow> 'v executor) \<Rightarrow> int \<Rightarrow> string \<Rightarrow> ('v mstate, run_result) op" where
  "run_until_done env ex max_iterations mid = run_loop (nat max_iterations) env ex mid 1 0"

end
