(* ===== verification/Mission_Store_Props.thy ===== *)
theory Mission_Store_Props
  imports Mission_Store
begin

text \<open>
  The invariant of the mission store (primary keys, foreign keys, every row readable), its
  preservation by every operation, and what the reads return in a store that satisfies it.
\<close>

subsection \<open>Round trip of a budget\<close>

definition no_limits :: "budget \<Rightarrow> bool" where
  "no_limits b \<longleftrightarrow> max_steps b = None \<and> max_cost_usd b = None \<and> max_duration_minutes b = None"

lemma budget_round_trip:
  assumes "valid_budget b"
  shows "budget_from_camel (Some (budget_to_camel b)) = Inr (if no_limits b then None else Some b)"
  using assms
  by (cases b)
     (auto simp: budget_from_camel_def budget_to_camel_def no_limits_def make_budget_def valid_budget_def
       strict_int_def strict_float_def split: option.splits)

lemma strict_strings_JStr [simp]: "strict_strings (map JStr xs) = Some xs"
  by (induction xs) auto

subsection \<open>The invariant\<close>

definition readable_mission :: "mission_row \<Rightarrow> bool" where
  "readable_mission r \<longleftrightarrow> (\<exists>m. mission_from_row r = Inr m)"

definition readable_verification :: "verification_row \<Rightarrow> bool" where
  "readable_verification r \<longleftrightarrow> (\<exists>v. verification_from_row r = Inr v)"

definition missions_ok :: "mission_row list \<Rightarrow> bool" where
  "missions_ok rs \<longleftrightarrow> distinct (map rw_id rs) \<and> (\<forall>r \<in> set rs. readable_mission r)"

definition steps_ok :: "string set \<Rightarrow> mission_step list \<Rightarrow> bool" where
  "steps_ok ids rs \<longleftrightarrow> distinct (map ms_id rs) \<and> (\<forall>r \<in> set rs. ms_mission r \<in> ids \<and> ms_status r \<in> set step_statuses)"

definition verifications_ok :: "string set \<Rightarrow> verification_row list \<Rightarrow> bool" where
  "verifications_ok ids rs \<longleftrightarrow> distinct (map vw_id rs) \<and> (\<forall>r \<in> set rs. vw_mission r \<in> ids \<and> readable_verification r)"

definition subgoals_ok :: "string set \<Rightarrow> mission_subgoal list \<Rightarrow> bool" where
  "subgoals_ok ids rs \<longleftrightarrow> distinct (map sg_id rs) \<and> (\<forall>r \<in> set rs. sg_mission r \<in> ids \<and> sg_status r \<in> set subgoal_statuses)"

definition mission_ids :: "store \<Rightarrow> string set" where
  "mission_ids s = rw_id ` set (t_missions s)"

definition store_ok :: "store \<Rightarrow> bool" where
  "store_ok s \<longleftrightarrow> missions_ok (t_missions s) \<and> steps_ok (mission_ids s) (t_steps s) \<and>
     verifications_ok (mission_ids s) (t_verifications s) \<and> subgoals_ok (mission_ids s) (t_subgoals s)"

lemma store_ok_empty: "store_ok (empty_store w)"
  by (simp add: store_ok_def empty_store_def missions_ok_def steps_ok_def verifications_ok_def subgoals_ok_def)

lemma store_ok_world [simp]: "store_ok (s\<lparr>st_world := w\<rparr>) = store_ok s"
  by (simp add: store_ok_def mission_ids_def)

lemma keeps_read_clock [keeps_intros]: "keeps store_ok read_clock"
  by (rule keepsI) (simp add: read_clock_def split_beta)

lemma keeps_record_id [keeps_intros]: "keeps store_ok (generate_record_id p)"
  by (rule keepsI) (simp add: generate_record_id_def split_beta)

lemma keeps_require_status [keeps_intros]: "keeps P (require_known_status x xs k)"
  unfolding require_known_status_def by (intro keeps_intros)

lemma keeps_completion [keeps_intros]: "keeps store_ok (completion_timestamp x xs)"
  unfolding completion_timestamp_def by (intro keeps_intros)

lemma mono_ids:
  "ids \<subseteq> ids' \<Longrightarrow> steps_ok ids rs \<Longrightarrow> steps_ok ids' rs"
  "ids \<subseteq> ids' \<Longrightarrow> verifications_ok ids vs \<Longrightarrow> verifications_ok ids' vs"
  "ids \<subseteq> ids' \<Longrightarrow> subgoals_ok ids gs \<Longrightarrow> subgoals_ok ids' gs"
  by (auto simp: steps_ok_def verifications_ok_def subgoals_ok_def)

lemma keeps_insert_mission: "readable_mission r \<Longrightarrow> keeps store_ok (insert_mission r)"
  by (rule keepsI)
     (auto simp: insert_mission_def store_ok_def missions_ok_def mission_ids_def has_mission_def
       intro: mono_ids(1) [OF subset_insertI] mono_ids(2) [OF subset_insertI] mono_ids(3) [OF subset_insertI])

lemma keeps_insert_step: "ms_status r \<in> set step_statuses \<Longrightarrow> keeps store_ok (insert_step r)"
  by (rule keepsI) (auto simp: insert_step_def store_ok_def steps_ok_def mission_ids_def has_mission_def)

lemma keeps_insert_verification: "readable_verification r \<Longrightarrow> keeps store_ok (insert_verification r)"
  by (rule keepsI) (auto simp: insert_verification_def store_ok_def verifications_ok_def mission_ids_def has_mission_def)

lemma keeps_insert_subgoal: "sg_status r \<in> set subgoal_statuses \<Longrightarrow> keeps store_ok (insert_subgoal r)"
  by (rule keepsI) (auto simp: insert_subgoal_def store_ok_def subgoals_ok_def mission_ids_def has_mission_def)

subsection \<open>Preservation by every operation\<close>

lemma readable_new_mission:
  "(\<And>x. b = Some x \<Longrightarrow> valid_budget x) \<Longrightarrow>
   readable_mission \<lparr>rw_id = i, rw_name = n, rw_goal = g, rw_status = ''active'',
     rw_budget = map_option budget_to_camel b, rw_metadata = Some (JObj md),
     rw_created_at = t, rw_updated_at = None, rw_completed_at = None\<rparr>"
proof (cases b)
  case None
  then show ?thesis
    by (simp add: readable_mission_def mission_from_row_def budget_from_camel_def mission_statuses_def)
next
  case (Some x)
  moreover assume "\<And>x. b = Some x \<Longrightarrow> valid_budget x"
  ultimately show ?thesis
    using budget_round_trip [of x] by (simp add: readable_mission_def mission_from_row_def mission_statuses_def)
qed

lemma keeps_create_mission:
  "(\<And>x. b = Some x \<Longrightarrow> valid_budget x) \<Longrightarrow> keeps store_ok (create_mission name goal b md)"
  unfolding create_mission_def
  by (intro keeps_intros keeps_insert_mission readable_new_mission)

lemma readable_status:
  assumes "readable_mission r" and "x \<in> set mission_statuses"
  shows "readable_mission (r\<lparr>rw_status := x, rw_updated_at := u, rw_completed_at := c\<rparr>)"
  using assms by (auto simp: readable_mission_def mission_from_row_def split: sum.splits option.splits json.splits if_splits)

lemma map_key_update_by: "(\<And>r. key (g r) = key r) \<Longrightarrow> map key (update_by f k g rs) = map key rs"
  by (rule map_update_by_keep)

lemma ids_update_by: "(\<And>r. rw_id (g r) = rw_id r) \<Longrightarrow> rw_id ` set (update_by f k g rs) = rw_id ` set rs"
  by (metis list.set_map map_update_by_keep)

lemma keeps_update_mission_status [keeps_intros]: "keeps store_ok (update_mission_status mid x)"
proof (cases "x \<in> set mission_statuses")
  case False
  have "update_mission_status mid x s = (fst (update_mission_status mid x s), s)" for s
    using False by (simp add: update_mission_status_def require_known_status_def)
  then show ?thesis by (metis keepsI snd_conv)
next
  case True
  have "store_ok s \<Longrightarrow> store_ok (s\<lparr>t_missions := update_by rw_id mid
        (\<lambda>r. r\<lparr>rw_status := x, rw_updated_at := Some t, rw_completed_at := d\<rparr>) (t_missions s)\<rparr>)" for s t d
    using True by (auto simp: store_ok_def missions_ok_def mission_ids_def ids_update_by map_key_update_by
        dest!: set_update_by [THEN subsetD] intro: readable_status)
  then show ?thesis
    unfolding update_mission_status_def by (intro keeps_intros keeps_modify)
qed

lemma keeps_add_step [keeps_intros]: "keeps store_ok (add_step mid d)"
  unfolding add_step_def by (intro keeps_intros keeps_insert_step) (simp add: step_statuses_def)

lemma keeps_update_step_status [keeps_intros]: "keeps store_ok (update_step_status sid x r)"
proof (cases "x \<in> set step_statuses")
  case False
  have "update_step_status sid x r s = (fst (update_step_status sid x r s), s)" for s
    using False by (simp add: update_step_status_def require_known_status_def)
  then show ?thesis by (metis keepsI snd_conv)
next
  case True
  have "store_ok s \<Longrightarrow> store_ok (s\<lparr>t_steps := update_by ms_id sid (\<lambda>q. q\<lparr>ms_status := x,
        ms_result := (case r of Some y \<Rightarrow> Some y | None \<Rightarrow> ms_result q), ms_completed_at := d\<rparr>) (t_steps s)\<rparr>)" for s d
    using True by (auto simp: store_ok_def steps_ok_def mission_ids_def map_key_update_by intro!: update_by_all
        split del: if_split dest!: set_update_by [THEN subsetD])
  then show ?thesis
    unfolding update_step_status_def by (intro keeps_intros keeps_modify)
qed

lemma keeps_record_verification [keeps_intros]: "keeps store_ok (record_verification mid r)"
  unfolding record_verification_def
  by (intro keeps_intros keeps_insert_verification)
     (simp add: readable_verification_def verification_from_row_def py_tuple_def)

lemma keeps_add_subgoal [keeps_intros]: "keeps store_ok (add_subgoal mid d p)"
  unfolding add_subgoal_def by (intro keeps_intros keeps_insert_subgoal) (simp add: subgoal_statuses_def)

lemma keeps_update_subgoal_status [keeps_intros]: "keeps store_ok (update_subgoal_status sgid x)"
proof (cases "x \<in> set subgoal_statuses")
  case False
  have "update_subgoal_status sgid x s = (fst (update_subgoal_status sgid x s), s)" for s
    using False by (simp add: update_subgoal_status_def require_known_status_def)
  then show ?thesis by (metis keepsI snd_conv)
next
  case True
  have "store_ok s \<Longrightarrow> store_ok (s\<lparr>t_subgoals := update_by sg_id sgid
        (\<lambda>q. q\<lparr>sg_status := x, sg_completed_at := d\<rparr>) (t_subgoals s)\<rparr>)" for s d
    using True by (auto simp: store_ok_def subgoals_ok_def mission_ids_def map_key_update_by intro!: update_by_all
        split del: if_split dest!: set_update_by [THEN subsetD])
  then show ?thesis
    unfolding update_subgoal_status_def by (intro keeps_intros keeps_modify)
qed

subsection \<open>Reads\<close>

lemma pure_get_mission: "snd (get_mission mid s) = s"
  by (simp add: get_mission_def bind_def split: option.splits sum.splits prod.splits)

lemma get_mission_Inr:
  "get_mission mid s = (Inr m, s') \<longleftrightarrow> s' = s \<and>
     (case find_by rw_id mid (t_missions s) of None \<Rightarrow> m = None
      | Some r \<Rightarrow> \<exists>x. mission_from_row r = Inr x \<and> m = Some x)"
  by (cases "find_by rw_id mid (t_missions s)")
     (auto simp: get_mission_def bind_def simp del: find_by_None split: sum.splits)

lemma get_mission_None: "\<not> has_mission mid s \<Longrightarrow> get_mission mid s = (Inr None, s)"
proof -
  assume "\<not> has_mission mid s"
  then have "find_by rw_id mid (t_missions s) = None" by (simp add: has_mission_def)
  then show ?thesis by (simp add: get_mission_Inr del: find_by_None)
qed

lemma store_ok_row:
  assumes "store_ok s" and "r \<in> set (t_missions s)"
  obtains m where "mission_from_row r = Inr m" and "get_mission (rw_id r) s = (Inr (Some m), s)"
proof -
  from assms obtain m where m: "mission_from_row r = Inr m"
    by (auto simp: store_ok_def missions_ok_def readable_mission_def)
  moreover have "find_by rw_id (rw_id r) (t_missions s) = Some r"
    using assms by (simp add: store_ok_def missions_ok_def find_by_distinct)
  ultimately show thesis using that by (simp add: get_mission_Inr)
qed

lemma get_mission_total:
  assumes "store_ok s"
  shows "\<exists>m. get_mission mid s = (Inr m, s) \<and> (m = None \<longleftrightarrow> \<not> has_mission mid s)"
proof (cases "has_mission mid s")
  case True
  then obtain r where "r \<in> set (t_missions s)" "rw_id r = mid" by (auto simp: has_mission_def)
  with assms True show ?thesis by (metis option.distinct(1) store_ok_row)
qed (simp add: get_mission_None)

lemma mission_from_row_fields:
  assumes "mission_from_row r = Inr m"
  shows "m_id m = rw_id r" and "m_status m = rw_status r" and "m_goal m = rw_goal r" and "m_name m = rw_name r"
    and "budget_from_camel (rw_budget r) = Inr (m_budget m)" and "m_status m \<in> set mission_statuses"
    and "m_metadata m = (case rw_metadata r of Some (JObj md) \<Rightarrow> md | _ \<Rightarrow> [])"
  using assms by (auto simp: mission_from_row_def split: sum.splits option.splits json.splits if_splits)

lemma get_verifications_total:
  assumes "store_ok s"
  shows "\<exists>vs. get_verifications mid s = (Inr vs, s)"
proof -
  have "\<exists>vs. map_res verification_from_row (sort_key vw_created_at (filter (\<lambda>r. vw_mission r = mid) (t_verifications s))) = Inr vs"
    using assms by (intro map_res_total) (auto simp: store_ok_def verifications_ok_def readable_verification_def)
  then show ?thesis by (auto simp: get_verifications_def)
qed

lemma list_missions_total:
  assumes "store_ok s"
  shows "\<exists>ms. list_missions x s = (Inr ms, s)"
proof -
  have "\<exists>ms. map_res mission_from_row (rev (sort_key rw_created_at (rev (case x of
      None \<Rightarrow> t_missions s | Some y \<Rightarrow> filter (\<lambda>r. rw_status r = y) (t_missions s))))) = Inr ms"
    using assms by (intro map_res_total) (auto simp: store_ok_def missions_ok_def readable_mission_def split: option.splits)
  then show ?thesis by (auto simp: list_missions_def)
qed

lemma get_budget_usage_total:
  assumes "store_ok s"
  shows "\<exists>u. get_budget_usage mid s = (Inr u, s)"
  using get_mission_total [OF assms, of mid] by (auto simp: get_budget_usage_def Let_def)

end
