(* ===== verification/Mission_Run_Props.thy ===== *)
theory Mission_Run_Props
  imports Mission_Run Mission_Store_Props Transition
begin

text \<open>
  What the operations of the manager and of the step loop do to the tables: first operation by
  operation, then the contract that registered verifiers and step executors have to honour (a
  locale), and the facts about whole runs that hold under it.
\<close>

subsection \<open>The tables\<close>

definition tabs :: "store \<Rightarrow> mission_row list \<times> mission_step list \<times> verification_row list \<times> mission_subgoal list" where
  "tabs st = (t_missions st, t_steps st, t_verifications st, t_subgoals st)"

definition tables :: "'v mstate \<Rightarrow> mission_row list \<times> mission_step list \<times> verification_row list \<times> mission_subgoal list" where
  "tables s = tabs (mg_store s)"

definition status_of :: "string \<Rightarrow> 'v mstate \<Rightarrow> string option" where
  "status_of mid s = map_option rw_status (find_by rw_id mid (t_missions (mg_store s)))"

definition step_count :: "string \<Rightarrow> 'v mstate \<Rightarrow> nat" where
  "step_count mid s = length (filter (\<lambda>r. ms_mission r = mid) (t_steps (mg_store s)))"

lemma tables_fields:
  "tables s = tables s' \<Longrightarrow> t_missions (mg_store s) = t_missions (mg_store s')"
  "tables s = tables s' \<Longrightarrow> t_steps (mg_store s) = t_steps (mg_store s')"
  "tables s = tables s' \<Longrightarrow> status_of mid s = status_of mid s'"
  "tables s = tables s' \<Longrightarrow> step_count mid s = step_count mid s'"
  "tables s = tables s' \<Longrightarrow> store_ok (mg_store s) = store_ok (mg_store s')"
  by (simp_all add: tables_def tabs_def status_of_def step_count_def store_ok_def mission_ids_def)

lemma on_store_run [simp]: "on_store m s = (fst (m (mg_store s)), s\<lparr>mg_store := snd (m (mg_store s))\<rparr>)"
  by (simp add: on_store_def split_beta Let_def)

lemma on_store_Inr: "on_store m s = (Inr x, s') \<longleftrightarrow>
    (\<exists>st. m (mg_store s) = (Inr x, st) \<and> s' = s\<lparr>mg_store := st\<rparr>)"
  by (cases "m (mg_store s)") auto

lemma keeps_on_store: "keeps P m \<Longrightarrow> keeps (\<lambda>s. P (mg_store s)) (on_store m)"
  by (rule keepsI) (simp add: keepsD)

text \<open>Every emission reads the clock and calls listeners: the tables stay.\<close>

lemma tabs_read_clock: "snd (read_clock st) = st\<lparr>st_world := snd (now (st_world st))\<rparr>"
  by (simp add: read_clock_def split_beta)

lemma keeps_tables_clock [keeps_intros]: "keeps (\<lambda>s. Q (tables s)) (on_store read_clock)"
  by (rule keepsI) (simp add: tables_def tabs_def tabs_read_clock)

lemma keeps_tables_deliver [keeps_intros]: "keeps (\<lambda>s. Q (tables s)) (deliver env ev c)"
  unfolding deliver_def by (intro keeps_intros keeps_modify) (simp add: tables_def)

lemma keeps_tables_emit [keeps_intros]: "keeps (\<lambda>s. Q (tables s)) (emit env k p)"
  unfolding emit_def by (intro keeps_intros)

lemmas emit_defs = emit_created_def emit_step_def emit_status_change_def emit_verified_def

lemma emit_tables [simp]: "tables (snd (emit env k p s)) = tables s"
  using keepsD [OF keeps_tables_emit [of "\<lambda>t. t = tables s"], of s env k p] by simp

lemma emit_Inr_tables: "emit env k p s = (r, s') \<Longrightarrow> tables s' = tables s"
  by (metis emit_tables snd_conv)

subsection \<open>Store operations, table by table\<close>

lemma record_id_run: "generate_record_id p st = (Inr (p @ ''-'' @ fst (uuid_hex 8 (st_world st))),
    st\<lparr>st_world := snd (uuid_hex 8 (st_world st))\<rparr>)"
  by (simp add: generate_record_id_def split_beta)

lemma clock_run: "read_clock st = (Inr (fst (now (st_world st))), st\<lparr>st_world := snd (now (st_world st))\<rparr>)"
  by (simp add: read_clock_def split_beta)

lemma add_step_effect:
  "t_missions (snd (add_step mid d st)) = t_missions st"
  "t_verifications (snd (add_step mid d st)) = t_verifications st"
  "t_subgoals (snd (add_step mid d st)) = t_subgoals st"
  "t_steps (snd (add_step mid d st)) = t_steps st \<or> (\<exists>r. ms_mission r = mid \<and> t_steps (snd (add_step mid d st)) = t_steps st @ [r])"
  by (auto simp: add_step_def bind_def record_id_run clock_run insert_step_def andthen_def)

lemma add_step_Inr: "add_step mid d st = (Inr sid, st') \<Longrightarrow> has_mission mid st"
  by (auto simp: add_step_def bind_def record_id_run clock_run insert_step_def andthen_def has_mission_def split: if_splits)

lemma record_verification_effect:
  "t_missions (snd (record_verification mid r st)) = t_missions st"
  "t_steps (snd (record_verification mid r st)) = t_steps st"
  "t_subgoals (snd (record_verification mid r st)) = t_subgoals st"
  by (auto simp: record_verification_def bind_def record_id_run clock_run insert_verification_def)

lemma record_verification_Inr: "record_verification mid r st = (Inr u, st') \<Longrightarrow> has_mission mid st \<and>
    (\<exists>v. t_verifications st' = t_verifications st @ [v] \<and> vw_mission v = mid \<and> vw_passed v = (if vr_passed r then 1 else 0))"
  by (auto simp: record_verification_def bind_def record_id_run clock_run insert_verification_def has_mission_def
      split: if_splits)

lemma completion_effect: "\<exists>t w. completion_timestamp x xs st = (Inr t, st\<lparr>st_world := w\<rparr>)"
proof (cases "x \<in> set xs")
  case True
  then have "completion_timestamp x xs st = (Inr (Some (fst (now (st_world st)))), st\<lparr>st_world := snd (now (st_world st))\<rparr>)"
    by (simp add: completion_timestamp_def bind_def clock_run)
  then show ?thesis by blast
next
  case False
  then have "completion_timestamp x xs st = (Inr None, st\<lparr>st_world := st_world st\<rparr>)"
    by (simp add: completion_timestamp_def)
  then show ?thesis by blast
qed

lemma update_mission_status_effect:
  assumes "x \<in> set mission_statuses"
  shows "\<exists>t d w. update_mission_status mid x st = (Inr (), st\<lparr>st_world := w, t_missions := update_by rw_id mid
      (\<lambda>r. r\<lparr>rw_status := x, rw_updated_at := t, rw_completed_at := d\<rparr>) (t_missions st)\<rparr>)"
proof -
  obtain d w where c: "completion_timestamp x mission_terminal_statuses st = (Inr d, st\<lparr>st_world := w\<rparr>)"
    using completion_effect by blast
  have "update_mission_status mid x st = (Inr (), st\<lparr>st_world := snd (now w), t_missions := update_by rw_id mid
      (\<lambda>r. r\<lparr>rw_status := x, rw_updated_at := Some (fst (now w)), rw_completed_at := d\<rparr>) (t_missions st)\<rparr>)"
    using assms c by (simp add: update_mission_status_def require_known_status_def bind_def clock_run andthen_def)
  then show ?thesis by blast
qed

lemma update_mission_status_Inr: "update_mission_status mid x st = (Inr u, st') \<Longrightarrow> x \<in> set mission_statuses"
  by (auto simp: update_mission_status_def require_known_status_def bind_def andthen_def split: if_splits)

lemma update_mission_status_bad: "x \<notin> set mission_statuses \<Longrightarrow> \<exists>e. update_mission_status mid x st = (Inl e, st)"
  by (simp add: update_mission_status_def require_known_status_def bind_def andthen_def)

lemma status_update_by:
  "map_option rw_status (find_by rw_id mid' (update_by rw_id mid
      (\<lambda>r. r\<lparr>rw_status := x, rw_updated_at := t, rw_completed_at := d\<rparr>) rs)) =
   (if mid' = mid then map_option (\<lambda>_. x) (find_by rw_id mid rs) else map_option rw_status (find_by rw_id mid' rs))"
  by (simp add: find_by_update_by option.map_comp comp_def)

lemma find_mission: "has_mission mid st \<Longrightarrow> \<exists>r. find_by rw_id mid (t_missions st) = Some r"
  by (metis find_by_None has_mission_def not_Some_eq)

lemma status_has_mission: "status_of mid s \<noteq> None \<longleftrightarrow> has_mission mid (mg_store s)"
  by (simp add: status_of_def has_mission_def del: not_None_eq)

subsection \<open>Manager operations\<close>

lemma mgr_get_Inr:
  assumes "mgr_get mid s = (Inr m, s')"
  shows "s' = s" and "status_of mid s = map_option m_status m"
proof -
  from assms show "s' = s" by (auto simp: mgr_get_def on_store_Inr get_mission_Inr simp del: on_store_run)
  from assms show "status_of mid s = map_option m_status m"
    by (auto simp: mgr_get_def on_store_Inr get_mission_Inr status_of_def mission_from_row_fields(2)
        simp del: on_store_run split: option.splits)
qed

text \<open>A successful transition leaves the mission, if it exists, in the requested status.\<close>

lemma transition_Inr_status:
  assumes "transition_mission_status env mid x s = (Inr u, s')"
  shows "status_of mid s' = map_option (\<lambda>_. x) (status_of mid s)"
proof -
  from assms obtain m s1 t s2 s3 where m: "on_store (get_mission mid) s = (Inr m, s1)"
    and t: "resolve_mission_status_transition (map_option m_status m) x = Inr t"
    and upd: "on_store (update_mission_status mid (tr_next t)) s1 = (Inr (), s2)"
    and em: "(case map_option m_status m of Some prev \<Rightarrow> (if tr_emit t then emit_status_change env mid prev (tr_next t)
        else ret ()) | None \<Rightarrow> ret ()) s2 = (Inr u, s')"
    unfolding transition_mission_status_def
    by (elim bind_InrE) (auto simp: andthen_def simp del: on_store_run elim!: bind_InrE)
  have "tables s' = tables s2"
    using em by (auto simp: emit_defs dest: emit_Inr_tables split: option.splits if_splits)
  moreover have "s1 = s" using m by (auto simp: on_store_Inr get_mission_Inr simp del: on_store_run)
  moreover have "tr_next t = x" using t by (auto simp: transition_Inr)
  moreover from upd have "tr_next t \<in> set mission_statuses"
    by (auto simp: on_store_Inr dest: update_mission_status_Inr simp del: on_store_run)
  then obtain tt d w where "update_mission_status mid (tr_next t) (mg_store s1) = (Inr (), (mg_store s1)\<lparr>st_world := w,
      t_missions := update_by rw_id mid (\<lambda>r. r\<lparr>rw_status := tr_next t, rw_updated_at := tt, rw_completed_at := d\<rparr>)
        (t_missions (mg_store s1))\<rparr>)"
    using update_mission_status_effect by blast
  ultimately show ?thesis
    using upd by (auto simp: status_of_def tables_def tabs_def status_update_by option.map_comp comp_def)
qed

lemma advance_Inr:
  assumes "advance env mid d s = (Inr sid, s')"
  shows "status_of mid s' = status_of mid s" and "status_of mid s \<noteq> None"
proof -
  let ?P = "\<lambda>s'. status_of mid s' = status_of mid s"
  have rest: "keeps ?P (andthen (if em = None then ret () else bind (on_store (get_steps mid))
      (\<lambda>xs. emit_step env mid d (int (length xs)))) (ret i))" for em :: "emitter option" and i :: string
  proof -
    have "keeps ?P (emit env k p)" for k p
      by (rule keepsI) (metis emit_tables tables_fields(3))
    moreover have "keeps ?P (on_store (get_steps mid))"
      by (rule keepsI) (simp add: get_steps_def status_of_def)
    ultimately show ?thesis unfolding emit_defs by (intro keeps_intros)
  qed
  from assms obtain i s1 em s2 where a: "on_store (add_step mid d) s = (Inr i, s1)"
    and em: "asks mg_events s1 = (Inr em, s2)"
    and r: "andthen (if em = None then ret () else bind (on_store (get_steps mid))
      (\<lambda>xs. emit_step env mid d (int (length xs)))) (ret i) s2 = (Inr sid, s')"
    unfolding advance_def by (elim bind_InrE) (rule that)
  from a em have "?P s2" by (auto simp: status_of_def add_step_effect)
  from keepsD [OF rest this, of em i] r show "?P s'" by simp
  from a have "has_mission mid (mg_store s)"
    by (auto simp: on_store_Inr dest: add_step_Inr simp del: on_store_run)
  then show "status_of mid s \<noteq> None" by (simp only: status_has_mission)
qed

lemma verify_Inr:
  assumes "verify env mid s = (Inr v, s')"
  shows "status_of mid s' \<noteq> None" and "vr_passed v \<Longrightarrow> status_of mid s' = Some ''completed''"
proof -
  from assms obtain f0 s0 out s2 tr s3 u4 s4 u5 s5 u6 s6 u7 s7 where
        f0: "asks (\<lambda>s. map_of (mg_verifiers s) mid) s = (Inr f0, s0)"
    and out: "(case f0 of None \<Rightarrow> ret build_missing_verifier_outcome | Some f \<Rightarrow> run_verifier env f mid) s0 = (Inr out, s2)"
    and tr: "verify_transition mid out s2 = (Inr tr, s3)"
    and rec: "on_store (record_verification mid (vo_result out)) s3 = (Inr u4, s4)"
    and upd: "(case tr of None \<Rightarrow> ret () | Some (_, t) \<Rightarrow> on_store (update_mission_status mid (tr_next t))) s4 = (Inr u5, s5)"
    and em: "emit_verified env mid (vr_passed (vo_result out)) (vr_reason (vo_result out)) s5 = (Inr u6, s6)"
    and st: "(case tr of Some (Some prev, t) \<Rightarrow> (if tr_emit t then emit_status_change env mid prev (tr_next t) else ret ())
        | _ \<Rightarrow> ret ()) s6 = (Inr u7, s7)"
    and fin: "ret (vo_result out) s7 = (Inr v, s')"
    unfolding verify_def andthen_def by (elim bind_InrE) (rule that)
  from fin have v: "v = vo_result out" and s7: "s7 = s'" by auto
  have "tables s' = tables s6"
    using st s7 by (auto simp: emit_defs dest: emit_Inr_tables split: option.splits if_splits)
  also have "tables s6 = tables s5" using em by (auto simp: emit_defs dest: emit_Inr_tables)
  finally have same: "status_of mid s' = status_of mid s5" by (rule tables_fields(3))
  from rec have "has_mission mid (mg_store s3)" and "t_missions (mg_store s4) = t_missions (mg_store s3)"
    by (auto simp: on_store_Inr record_verification_effect(1) [of mid "vo_result out" "mg_store s3"]
        dest: record_verification_Inr simp del: on_store_run) (metis record_verification_effect(1) snd_conv)
  then have has4: "has_mission mid (mg_store s4)" by (simp add: has_mission_def)
  show "status_of mid s' \<noteq> None"
  proof (cases tr)
    case None
    with upd same has4 show ?thesis by (simp only: status_has_mission) simp
  next
    case (Some p)
    obtain pr t where p: "p = (pr, t)" by fastforce
    from upd Some p have "on_store (update_mission_status mid (tr_next t)) s4 = (Inr u5, s5)" by (simp del: on_store_run)
    moreover from this have "tr_next t \<in> set mission_statuses"
      by (auto simp: on_store_Inr dest: update_mission_status_Inr simp del: on_store_run)
    ultimately have "status_of mid s5 = map_option (\<lambda>_. tr_next t) (find_by rw_id mid (t_missions (mg_store s4)))"
      using update_mission_status_effect [of "tr_next t" mid "mg_store s4"]
      by (auto simp: status_of_def status_update_by)
    with same find_mission [OF has4] show ?thesis by (auto simp del: find_by_None)
  qed
  assume passed: "vr_passed v"
  have "vo_next out = Some ''completed''"
  proof (cases f0)
    case None
    with out passed v show ?thesis by (auto simp: build_missing_verifier_outcome_def)
  next
    case (Some f)
    with out passed v show ?thesis
      by (auto simp: run_verifier_def catch_def bind_def resolve_mission_verification_outcome_def
          derive_mission_status_from_verifier_result_def resolve_mission_verification_error_outcome_def
          build_verifier_error_result_def split: prod.splits sum.splits raw.splits if_splits)
  qed
  with tr obtain pr t where trt: "tr = Some (pr, t)" and nxt: "tr_next t = ''completed''"
    unfolding verify_transition_def
    by (auto simp: transition_Inr simp del: on_store_run elim!: bind_InrE)
  from upd trt have "on_store (update_mission_status mid (tr_next t)) s4 = (Inr u5, s5)" by (simp del: on_store_run)
  then have "status_of mid s5 = map_option (\<lambda>_. tr_next t) (find_by rw_id mid (t_missions (mg_store s4)))"
    using update_mission_status_effect [of "tr_next t" mid "mg_store s4"]
    by (auto simp: status_of_def status_update_by nxt mission_statuses_def)
  with nxt same find_mission [OF has4] show "status_of mid s' = Some ''completed''" by auto
qed

subsection \<open>Steps and iterations\<close>

lemma update_step_status_missions: "t_missions (snd (update_step_status sid x r st)) = t_missions st"
proof (cases "x \<in> set step_statuses")
  case True
  obtain d w where "completion_timestamp x step_terminal_statuses st = (Inr d, st\<lparr>st_world := w\<rparr>)"
    using completion_effect by blast
  with True show ?thesis
    by (simp add: update_step_status_def require_known_status_def bind_def andthen_def)
qed (simp add: update_step_status_def require_known_status_def bind_def andthen_def)

lemma update_step_status_of [simp]: "status_of mid (snd (update_step sid x r s)) = status_of mid s"
  by (simp add: update_step_def status_of_def update_step_status_missions)

lemma update_step_Inr: "update_step sid x r s = (y, s') \<Longrightarrow> status_of mid s' = status_of mid s"
  by (metis snd_conv update_step_status_of)

lemma budget_usage_Inr: "mgr_budget_usage mid s = (Inr u, s') \<Longrightarrow> s' = s"
  by (auto simp: mgr_budget_usage_def on_store_Inr get_budget_usage_def Let_def get_mission_Inr simp del: on_store_run
      elim!: bind_InrE)

lemma set_status_Inr: "set_status env mid x s = (Inr u, s') \<Longrightarrow> status_of mid s' = map_option (\<lambda>_. x) (status_of mid s)"
  unfolding set_status_def by (rule transition_Inr_status)

lemma finish_completed_Inr:
  "finish_completed_step env mid s = (Inr r, s') \<Longrightarrow> status_of mid s \<noteq> None \<Longrightarrow>
   after_step r = Some x \<Longrightarrow> status_of mid s' = Some x"
  by (auto simp: finish_completed_step_def after_step_def elim!: bind_InrE
      dest!: budget_usage_Inr set_status_Inr split: if_splits)

lemma finish_blocked_Inr:
  "finish_blocked_step env mid sid res s = (Inr r, s') \<Longrightarrow> status_of mid s \<noteq> None \<Longrightarrow>
   after_step r = Some x \<Longrightarrow> status_of mid s' = Some x"
  by (auto simp: finish_blocked_step_def after_step_def Let_def elim!: bind_InrE
      dest!: set_status_Inr update_step_Inr [of _ _ _ _ _ _ mid])

lemma finish_failed_Inr:
  "finish_failed_step sid res s = (Inr r, s') \<Longrightarrow> after_step r = None"
  by (auto simp: finish_failed_step_def after_step_def elim!: bind_InrE)

lemma record_step_result_Inr:
  assumes "record_step_result env mid result s = (Inr r, s')" and "after_step r = Some x"
  shows "status_of mid s' = Some x"
proof -
  from assms(1) obtain sid s1 where adv: "advance env mid (sr_description result) s = (Inr sid, s1)"
    and rest: "(case sr_status result of
       StepFailed \<Rightarrow> finish_failed_step sid result
     | StepBlocked \<Rightarrow> finish_blocked_step env mid sid result
     | StepCompleted \<Rightarrow> finish_completed_step env mid) s1 = (Inr r, s')"
    unfolding record_step_result_def by (elim bind_InrE) (rule that)
  have "status_of mid s1 \<noteq> None" using advance_Inr [OF adv] by simp
  with rest assms(2) show ?thesis
    by (cases "sr_status result")
       (simp_all add: finish_completed_Inr finish_blocked_Inr, metis finish_failed_Inr option.distinct(1))
qed

lemma record_failed_call_Inr: "record_failed_call env mid m s = (Inr r, s') \<Longrightarrow> after_step r = None"
  by (auto simp: record_failed_call_def after_step_def elim!: bind_InrE)

lemma run_active_step_Inr:
  assumes "run_active_step env ex mid s = (Inr r, s')" and "status_of mid s \<noteq> None" and "after_step r = Some x"
  shows "status_of mid s' = Some x"
proof -
  from assms(1) obtain u s0 where u: "mgr_budget_usage mid s = (Inr u, s0)"
    and rest: "(if bu_exhausted u
     then andthen (set_status env mid ''budget_exhausted'')
          (ret \<lparr>rs_recorded = False, rs_exhausted = True, rs_blocked = False,
                rs_final = Some ''budget_exhausted'', rs_error = None\<rparr>)
     else bind (call_executor env ex mid) (\<lambda>r. case r of
         Inl message \<Rightarrow> record_failed_call env mid message
       | Inr result \<Rightarrow> record_step_result env mid result)) s0 = (Inr r, s')"
    unfolding run_active_step_def by (elim bind_InrE) (rule that)
  show ?thesis
  proof (cases "bu_exhausted u")
    case True
    with rest assms(2,3) budget_usage_Inr [OF u] show ?thesis
      by (auto simp: after_step_def elim!: bind_InrE dest!: set_status_Inr)
  next
    case False
    with rest obtain q s1 where q: "(case q of
         Inl message \<Rightarrow> record_failed_call env mid message
       | Inr result \<Rightarrow> record_step_result env mid result) s1 = (Inr r, s')"
      by (auto elim!: bind_InrE)
    show ?thesis
    proof (cases q)
      case (Inl m)
      with q assms(3) record_failed_call_Inr [of env mid m s1 r s'] show ?thesis by simp
    next
      case (Inr result)
      with q assms(3) show ?thesis using record_step_result_Inr [of env mid result s1 r s' x] by simp
    qed
  qed
qed

text \<open>Both guards of the code: an unknown mission raises, a mission that is not active stops.\<close>

lemma guarded_Inr:
  assumes "bind (mgr_get mid) (\<lambda>mo. case mo of None \<Rightarrow> raise e | Some m \<Rightarrow>
      if m_status m \<noteq> ''active'' then ret (stop m) else go) s = (Inr r, s')"
  obtains (stopped) m where "status_of mid s = Some (m_status m)" "m_status m \<noteq> ''active''" "r = stop m" "s' = s"
  | (active) "status_of mid s = Some ''active''" "go s = (Inr r, s')"
proof -
  from assms obtain mo s0 where m: "mgr_get mid s = (Inr mo, s0)"
    and rest: "(case mo of None \<Rightarrow> raise e | Some m \<Rightarrow> if m_status m \<noteq> ''active'' then ret (stop m) else go) s0 = (Inr r, s')"
    by (rule bind_InrE)
  from rest obtain m0 where mo: "mo = Some m0" by (cases mo) auto
  with rest mgr_get_Inr [OF m] show thesis
    by (cases "m_status m0 = ''active''") (simp_all add: stopped active)
qed

lemma run_step_Inr:
  assumes "run_step env ex mid s = (Inr r, s')" and "after_step r = Some x"
  shows "status_of mid s' = Some x"
  using assms(1) unfolding run_step_def
proof (cases rule: guarded_Inr)
  case (stopped m)
  with assms(2) show ?thesis by (auto simp: after_step_def)
next
  case active
  with assms(2) show ?thesis using run_active_step_Inr [of env ex mid s r s' x] by simp
qed

definition sound_decision :: "string \<Rightarrow> int \<Rightarrow> int + run_result \<Rightarrow> 'v mstate \<Rightarrow> bool" where
  "sound_decision mid n d s' = (case d of
      Inr r \<Rightarrow> status_of mid s' = Some (rr_final r) \<and> (rr_passed r \<longrightarrow> rr_final r = ''completed'') \<and>
        n \<le> rr_steps r \<and> rr_steps r \<le> n + 1
    | Inl n' \<Rightarrow> status_of mid s' \<noteq> None \<and> n \<le> n' \<and> n' \<le> n + 1)"

lemma verify_iteration_Inr:
  assumes "verify_iteration env mid n' s = (Inr d, s')" and "n \<le> n'" and "n' \<le> n + 1"
  shows "sound_decision mid n d s'"
proof -
  from assms(1) obtain v s1 where v: "verify env mid s = (Inr v, s1)"
    and rest: "(if vr_passed v
     then ret (Inr \<lparr>rr_final = ''completed'', rr_steps = n', rr_passed = True\<rparr>)
     else if map_of (vr_metadata v) ''verifierThrew'' = Some (JBool True)
     then andthen (set_status env mid ''verifier_failed'')
          (ret (Inr \<lparr>rr_final = ''verifier_failed'', rr_steps = n', rr_passed = False\<rparr>))
     else ret (Inl n')) s1 = (Inr d, s')"
    unfolding verify_iteration_def by (elim bind_InrE) (rule that)
  from rest verify_Inr [OF v] assms(2,3) show ?thesis
    by (auto simp: sound_decision_def elim!: bind_InrE dest!: set_status_Inr split: if_splits)
qed

lemma run_iteration_Inr:
  assumes "run_iteration env ex mid n s = (Inr d, s')"
  shows "sound_decision mid n d s'"
  using assms unfolding run_iteration_def
proof (cases rule: guarded_Inr)
  case (stopped m)
  then show ?thesis by (simp add: sound_decision_def)
next
  case active
  then obtain r s1 where rs: "run_step env ex mid s = (Inr r, s1)"
    and rest: "(let n' = (if rs_recorded r then n + 1 else n) in
     case after_step r of
       Some x \<Rightarrow> ret (Inr \<lparr>rr_final = x, rr_steps = n', rr_passed = False\<rparr>)
     | None \<Rightarrow> verify_iteration env mid n') s1 = (Inr d, s')"
    unfolding run_active_iteration_def by (elim bind_InrE) (rule that)
  show ?thesis
  proof (cases "after_step r")
    case (Some x)
    with rest run_step_Inr [OF rs Some] show ?thesis by (auto simp: sound_decision_def Let_def)
  next
    case None
    with rest have "verify_iteration env mid (if rs_recorded r then n + 1 else n) s1 = (Inr d, s')"
      by (simp add: Let_def)
    then show ?thesis by (rule verify_iteration_Inr) simp_all
  qed
qed

lemma run_loop_Inr:
  assumes "run_loop k env ex mid i n s = (Inr r, s')" and "status_of mid s \<noteq> None \<or> 0 < k"
  shows "status_of mid s' = Some (rr_final r) \<and> (rr_passed r \<longrightarrow> rr_final r = ''completed'') \<and>
    n \<le> rr_steps r \<and> rr_steps r \<le> n + int k"
  using assms
proof (induction k arbitrary: i n s)
  case 0
  then obtain mo s0 where m: "mgr_get mid s = (Inr mo, s0)"
    and "ret \<lparr>rr_final = (case mo of Some m \<Rightarrow> m_status m | None \<Rightarrow> ''active''), rr_steps = n, rr_passed = False\<rparr> s0 = (Inr r, s')"
    by (auto elim!: bind_InrE)
  with 0 mgr_get_Inr [OF m] show ?case by (cases mo) auto
next
  case (Suc k)
  from Suc.prems(1) obtain d s1 where d: "run_iteration env (ex i) mid n s = (Inr d, s1)"
    and rest: "(case d of Inr r \<Rightarrow> ret r | Inl n' \<Rightarrow> run_loop k env ex mid (i + 1) n') s1 = (Inr r, s')"
    by (auto elim!: bind_InrE)
  show ?case
  proof (cases d)
    case (Inl n')
    with rest have "run_loop k env ex mid (i + 1) n' s1 = (Inr r, s')" by simp
    from Suc.IH [OF this] run_iteration_Inr [OF d] Inl show ?thesis by (auto simp: sound_decision_def)
  next
    case (Inr q)
    with rest run_iteration_Inr [OF d] show ?thesis by (auto simp: sound_decision_def)
  qed
qed

end
