(* ===== verification/Mission_Contracts.thy ===== *)
theory Mission_Contracts
  imports Mission_Run_Props
begin

text \<open>
  The contract between the store and everything above it, as the locale \<open>store_invariant\<close>: a
  predicate on the store that the store's operations preserve is preserved by the manager and
  by the step loop, as long as the registered verifiers and the step executor preserve it. It
  is interpreted twice: on the store's well-formedness, and on a mission being completed.
\<close>

lemma verify_transition_Inr:
  assumes "verify_transition mid out s = (Inr (Some (pr, t)), s')"
  obtains m x where "vo_next out = Some x" "get_mission mid (mg_store s) = (Inr m, mg_store s)"
    "pr = map_option m_status m" "resolve_mission_status_transition pr x = Inr t"
proof -
  from assms obtain x where x: "vo_next out = Some x"
    by (cases "vo_next out") (auto simp: verify_transition_def)
  with assms have "bind (on_store (get_mission mid)) (\<lambda>m. bind (lift_res
      (resolve_mission_status_transition (map_option m_status m) x)) (\<lambda>t. ret (Some (map_option m_status m, t)))) s =
      (Inr (Some (pr, t)), s')" by (simp add: verify_transition_def del: on_store_run)
  then obtain m s1 t' s2 where m: "on_store (get_mission mid) s = (Inr m, s1)"
    and t: "lift_res (resolve_mission_status_transition (map_option m_status m) x) s1 = (Inr t', s2)"
    and r: "ret (Some (map_option m_status m, t')) s2 = (Inr (Some (pr, t)), s')"
    by (elim bind_InrE) (rule that)
  from m have "get_mission mid (mg_store s) = (Inr m, mg_store s)"
    by (metis fst_conv on_store_run pure_get_mission prod.collapse)
  with that x t r show thesis by simp
qed

subsection \<open>The contract\<close>

locale store_frame =
  fixes Inv :: "store \<Rightarrow> bool"
  assumes inv_tables: "tabs st = tabs st' \<Longrightarrow> Inv st = Inv st'"
    and inv_update_step: "keeps Inv (update_step_status sid x r)"
    and inv_record: "keeps Inv (record_verification mid v)"
    and inv_move: "Inv st \<Longrightarrow> get_mission mid st = (Inr m, st) \<Longrightarrow>
      resolve_mission_status_transition (map_option m_status m) x = Inr t \<Longrightarrow>
      Inv (snd (update_mission_status mid x st))"
begin

lemma kp_tables:
  fixes m :: "('v mstate, 'a) op"
  shows "(\<And>s. tables (snd (m s)) = tables s) \<Longrightarrow> keeps (\<lambda>s. Inv (mg_store s)) m"
  by (rule keepsI) (metis inv_tables tables_def)

lemma kp_pure:
  fixes m :: "('v mstate, 'a) op"
  shows "(\<And>s. mg_store (snd (m s)) = mg_store s) \<Longrightarrow> keeps (\<lambda>s. Inv (mg_store s)) m"
  by (rule kp_tables) (simp add: tables_def)

lemma kp_emit: "keeps (\<lambda>s. Inv (mg_store s)) (emit env k p)"
  by (rule kp_tables) simp

lemma kp_get: "keeps (\<lambda>s. Inv (mg_store s)) (on_store (get_mission mid))"
  by (rule kp_pure) (simp add: pure_get_mission)

lemma kp_usage: "keeps (\<lambda>s. Inv (mg_store s)) (mgr_budget_usage mid)"
proof (rule kp_pure)
  fix s :: "'a mstate"
  have "snd (get_budget_usage mid st) = st" for st
    using pure_get_mission [of mid st]
    by (auto simp: get_budget_usage_def bind_def Let_def split: prod.splits sum.splits)
  then show "mg_store (snd (mgr_budget_usage mid s)) = mg_store s" by (simp add: mgr_budget_usage_def)
qed

lemma kp_update_step: "keeps (\<lambda>s. Inv (mg_store s)) (update_step sid x r)"
  unfolding update_step_def by (intro keeps_on_store inv_update_step)

lemma kp_transition: "keeps (\<lambda>s. Inv (mg_store s)) (transition_mission_status env mid x)"
proof (rule keepsI)
  fix s :: "'a mstate"
  assume I: "Inv (mg_store s)"
  obtain r st where g: "get_mission mid (mg_store s) = (r, st)" by fastforce
  have st: "st = mg_store s" using pure_get_mission [of mid "mg_store s"] g by simp
  show "Inv (mg_store (snd (transition_mission_status env mid x s)))"
  proof (cases "\<exists>m t. r = Inr m \<and> resolve_mission_status_transition (map_option m_status m) x = Inr t")
    case False
    then show ?thesis using I g st
      by (auto simp: transition_mission_status_def bind_def split: sum.splits)
  next
    case True
    then obtain m t where m: "r = Inr m" and t: "resolve_mission_status_transition (map_option m_status m) x = Inr t" by blast
    have x: "tr_next t = x" using t by (auto simp: transition_Inr)
    have I2: "Inv (snd (update_mission_status mid x (mg_store s)))" by (rule inv_move [OF I _ t]) (use g m st in simp)
    have "keeps (\<lambda>s. Inv (mg_store s)) (case map_option m_status m of
        Some prev \<Rightarrow> (if tr_emit t then emit_status_change env mid prev (tr_next t) else ret ()) | None \<Rightarrow> ret ())"
      unfolding emit_status_change_def by (intro keeps_intros kp_emit)
    from keepsD [OF this, of "s\<lparr>mg_store := snd (update_mission_status mid x (mg_store s))\<rparr>"] I2 show ?thesis
      using g m t st x by (auto simp: transition_mission_status_def bind_def split: sum.splits prod.splits)
  qed
qed

lemma kp_set_status: "keeps (\<lambda>s. Inv (mg_store s)) (set_status env mid x)"
  unfolding set_status_def by (rule kp_transition)

lemma kp_run_verifier:
  assumes "\<And>v m. keeps (\<lambda>s. Inv (mg_store s)) (ev_verify env v m)"
  shows "keeps (\<lambda>s. Inv (mg_store s)) (run_verifier env f mid)"
proof -
  have "keeps (\<lambda>s. Inv (mg_store s)) (case raw of
         Plain r \<Rightarrow> ret (resolve_mission_verification_outcome r)
       | Coroutine c \<Rightarrow> (if ev_loop env then raise async_verifier_error
            else bind (lift_res c) (\<lambda>r. ret (resolve_mission_verification_outcome r))))" for raw
    by (cases raw) (simp_all add: keeps_intros)
  then show ?thesis unfolding run_verifier_def by (intro keeps_intros assms)
qed

text \<open>The part of \<open>verify\<close> after the outcome: validate, record, move, notify.\<close>

lemma kp_verify_tail:
  "keeps (\<lambda>s. Inv (mg_store s)) (bind (verify_transition mid outcome) (\<lambda>tr.
     andthen (on_store (record_verification mid (vo_result outcome)))
     (andthen (case tr of None \<Rightarrow> ret () | Some (_, t) \<Rightarrow> on_store (update_mission_status mid (tr_next t)))
     (andthen (emit_verified env mid (vr_passed (vo_result outcome)) (vr_reason (vo_result outcome)))
     (andthen (case tr of
          Some (Some prev, t) \<Rightarrow> (if tr_emit t then emit_status_change env mid prev (tr_next t) else ret ())
        | _ \<Rightarrow> ret ())
     (ret (vo_result outcome)))))))"
  (is "keeps ?I (bind ?m ?f)")
proof (rule keepsI)
  fix s :: "'a mstate"
  assume I: "?I s"
  define ntf where "ntf tr = andthen (emit_verified env mid (vr_passed (vo_result outcome)) (vr_reason (vo_result outcome)))
     (andthen (case tr of
          Some (Some prev, t) \<Rightarrow> (if tr_emit t then emit_status_change env mid prev (tr_next t) else ret ())
        | _ \<Rightarrow> ret ())
     (ret (vo_result outcome)))" for tr :: "(string option \<times> status_transition) option"
  have ntf: "keeps ?I (ntf tr)" for tr
    unfolding ntf_def emit_verified_def emit_status_change_def
    by (cases tr; cases "fst (the tr)"; cases "the tr") (auto intro!: keeps_intros kp_emit)
  show "?I (snd (bind ?m ?f s))"
  proof (cases rule: bind_cases [of ?m s ?f])
    case (raised e s')
    then have "s' = s"
      by (auto simp: verify_transition_def bind_def pure_get_mission split: option.splits sum.splits prod.splits)
    with raised I show ?thesis by simp
  next
    case (returned tr s')
    have s': "s' = s"
      using returned(1)
      by (auto simp: verify_transition_def on_store_Inr get_mission_Inr simp del: on_store_run find_by_None
          elim!: bind_InrE split: option.splits)
    let ?r = "record_verification mid (vo_result outcome) (mg_store s)"
    have R: "Inv (snd ?r)" using keepsD [OF inv_record I] .
    have "?I (snd (?f tr s))"
    proof (cases "fst ?r")
      case (Inl e)
      then show ?thesis using R by (simp add: bind_def andthen_def)
    next
      case (Inr u)
      show ?thesis
      proof (cases tr)
        case None
        have "?f tr s = ntf None (s\<lparr>mg_store := snd ?r\<rparr>)"
          using Inr None by (simp add: bind_def andthen_def ntf_def)
        with keepsD [OF ntf, of "s\<lparr>mg_store := snd ?r\<rparr>" None] R show ?thesis by simp
      next
        case (Some p)
        obtain pr t where p: "p = (pr, t)" by fastforce
        from returned(1) Some p have "verify_transition mid outcome s = (Inr (Some (pr, t)), s')" by simp
        then obtain m x where m: "get_mission mid (mg_store s) = (Inr m, mg_store s)"
          "resolve_mission_status_transition (map_option m_status m) x = Inr t"
          by (rule verify_transition_Inr) auto
        then have m2: "resolve_mission_status_transition (map_option m_status m) (tr_next t) = Inr t"
          by (simp add: transition_Inr)
        have "get_mission mid (snd ?r) = (Inr m, snd ?r)"
          using m(1) by (auto simp: get_mission_Inr record_verification_effect)
        from inv_move [OF R this m2] have U: "Inv (snd (update_mission_status mid (tr_next t) (snd ?r)))" .
        let ?s2 = "s\<lparr>mg_store := snd (update_mission_status mid (tr_next t) (snd ?r))\<rparr>"
        have "?f tr s = (case fst (update_mission_status mid (tr_next t) (snd ?r)) of
            Inl e \<Rightarrow> (Inl e, ?s2) | Inr _ \<Rightarrow> ntf tr ?s2)"
          using Inr Some p by (simp add: bind_def andthen_def ntf_def split: sum.splits prod.splits)
        with keepsD [OF ntf, of ?s2 tr] U show ?thesis by (simp split: sum.splits)
      qed
    qed
    with returned s' show ?thesis by simp
  qed
qed

lemma kp_verify:
  assumes "\<And>v m. keeps (\<lambda>s. Inv (mg_store s)) (ev_verify env v m)"
  shows "keeps (\<lambda>s. Inv (mg_store s)) (verify env mid)"
  unfolding verify_def by (intro keeps_bind keeps_asks kp_verify_tail keeps_option keeps_ret kp_run_verifier assms)

lemma kp_call_executor:
  assumes e: "\<And>m. keeps (\<lambda>s. Inv (mg_store s)) (ex m)"
  shows "keeps (\<lambda>s. Inv (mg_store s)) (call_executor env ex mid)"
proof -
  have "keeps (\<lambda>s. Inv (mg_store s)) (await_if_needed env raw)" for raw
    by (cases raw) (simp_all add: await_if_needed_def keeps_intros)
  then show ?thesis unfolding call_executor_def by (intro keeps_intros e)
qed

end

text \<open>The operations that add rows, on top of the frame.\<close>

locale store_invariant = store_frame +
  assumes inv_create: "(\<And>x. b = Some x \<Longrightarrow> valid_budget x) \<Longrightarrow> keeps Inv (create_mission n g b md)"
    and inv_add_step: "keeps Inv (add_step mid d)"
    and inv_add_subgoal: "keeps Inv (add_subgoal mid d p)"
    and inv_update_subgoal: "keeps Inv (update_subgoal_status sgid x)"
begin

lemma kp_advance: "keeps (\<lambda>s. Inv (mg_store s)) (advance env mid d)"
proof -
  have "keeps Inv (get_steps mid)" by (rule keepsI) (simp add: get_steps_def)
  then show ?thesis unfolding advance_def emit_step_def
    by (intro keeps_intros kp_emit keeps_on_store inv_add_step)
qed

lemma kp_create: "(\<And>x. b = Some x \<Longrightarrow> valid_budget x) \<Longrightarrow> keeps (\<lambda>s. Inv (mg_store s)) (mgr_create env n g b md)"
  unfolding mgr_create_def emit_created_def by (intro keeps_intros kp_emit keeps_on_store inv_create)

lemma kp_subgoals:
  "keeps (\<lambda>s. Inv (mg_store s)) (mgr_add_subgoal mid d p)"
  "keeps (\<lambda>s. Inv (mg_store s)) (mgr_update_subgoal sgid x)"
  unfolding mgr_add_subgoal_def mgr_update_subgoal_def
  by (intro keeps_on_store inv_add_subgoal inv_update_subgoal)+

lemma kp_run_until_done:
  assumes v: "\<And>v m. keeps (\<lambda>s. Inv (mg_store s)) (ev_verify env v m)"
    and e: "\<And>i m. keeps (\<lambda>s. Inv (mg_store s)) (ex i m)"
  shows "keeps (\<lambda>s. Inv (mg_store s)) (run_until_done env ex k mid)"
proof -
  have call: "keeps (\<lambda>s. Inv (mg_store s)) (call_executor env (ex i) mid)" for i
    by (intro kp_call_executor e)
  have recorded: "keeps (\<lambda>s. Inv (mg_store s)) (record_step_result env mid result)" for result
    unfolding record_step_result_def
    by (cases "sr_status result")
       (auto simp: finish_failed_step_def finish_blocked_step_def finish_completed_step_def Let_def
         intro!: keeps_intros kp_advance kp_update_step kp_set_status kp_usage)
  have failed: "keeps (\<lambda>s. Inv (mg_store s)) (record_failed_call env mid m)" for m
    unfolding record_failed_call_def by (intro keeps_intros kp_advance kp_update_step)
  have step: "keeps (\<lambda>s. Inv (mg_store s)) (run_step env (ex i) mid)" for i
    unfolding run_step_def run_active_step_def mgr_get_def
    by (intro keeps_intros kp_get kp_usage kp_set_status call recorded failed)
  have iter: "keeps (\<lambda>s. Inv (mg_store s)) (run_iteration env (ex i) mid n)" for i n
    unfolding run_iteration_def run_active_iteration_def verify_iteration_def mgr_get_def Let_def
    by (intro keeps_intros kp_get step kp_verify v kp_set_status)
  have "keeps (\<lambda>s. Inv (mg_store s)) (run_loop k env ex mid i n)" for k i n
  proof (induction k arbitrary: i n)
    case 0
    show ?case unfolding run_loop.simps mgr_get_def by (intro keeps_intros kp_get)
  next
    case (Suc k)
    show ?case unfolding run_loop.simps by (intro keeps_intros iter Suc.IH)
  qed
  then show ?thesis unfolding run_until_done_def .
qed

end

subsection \<open>The store's own invariant\<close>

interpretation wf_store: store_invariant store_ok
proof unfold_locales
  show "tabs st = tabs st' \<Longrightarrow> store_ok st = store_ok st'" for st st'
    by (simp add: tabs_def store_ok_def mission_ids_def)
  show "store_ok st \<Longrightarrow> get_mission mid st = (Inr m, st) \<Longrightarrow>
      resolve_mission_status_transition (map_option m_status m) x = Inr t \<Longrightarrow>
      store_ok (snd (update_mission_status mid x st))" for st mid m x t
    by (rule keepsD [OF keeps_update_mission_status])
qed (intro keeps_create_mission keeps_intros; simp)+

subsection \<open>A completed mission stays completed\<close>

definition completed_in :: "string \<Rightarrow> store \<Rightarrow> bool" where
  "completed_in mid st \<longleftrightarrow> map_option rw_status (find_by rw_id mid (t_missions st)) = Some ''completed''"

lemma completed_status: "completed_in mid (mg_store s) \<longleftrightarrow> status_of mid s = Some ''completed''"
  by (simp add: completed_in_def status_of_def)

lemma keeps_same_missions:
  "(\<And>st. t_missions (snd (m st)) = t_missions st) \<Longrightarrow> keeps (completed_in mid) m"
  by (rule keepsI) (simp add: completed_in_def)

lemma add_subgoal_missions: "t_missions (snd (add_subgoal mid d p st)) = t_missions st"
  by (auto simp: add_subgoal_def bind_def record_id_run clock_run insert_subgoal_def andthen_def)

lemma update_subgoal_missions: "t_missions (snd (update_subgoal_status sgid x st)) = t_missions st"
proof (cases "x \<in> set subgoal_statuses")
  case True
  obtain d w where "completion_timestamp x subgoal_terminal_statuses st = (Inr d, st\<lparr>st_world := w\<rparr>)"
    using completion_effect by blast
  with True show ?thesis
    by (simp add: update_subgoal_status_def require_known_status_def bind_def andthen_def)
qed (simp add: update_subgoal_status_def require_known_status_def bind_def andthen_def)

lemma create_mission_missions: "\<exists>rs. t_missions (snd (create_mission n g b md st)) = t_missions st @ rs"
  by (auto simp: create_mission_def bind_def record_id_run clock_run insert_mission_def andthen_def)

interpretation completed_store: store_invariant "completed_in mid" for mid
proof unfold_locales
  show "tabs st = tabs st' \<Longrightarrow> completed_in mid st = completed_in mid st'" for st st'
    by (simp add: tabs_def completed_in_def)
  show "keeps (completed_in mid) (create_mission n g b md)" if "\<And>x. b = Some x \<Longrightarrow> valid_budget x" for n g b md
  proof (rule keepsI)
    fix st assume "completed_in mid st"
    moreover obtain rs where "t_missions (snd (create_mission n g b md st)) = t_missions st @ rs"
      using create_mission_missions by blast
    ultimately show "completed_in mid (snd (create_mission n g b md st))"
      by (auto simp: completed_in_def find_by_append simp del: find_by_None split: option.splits)
  qed
  show "completed_in mid (snd (update_mission_status m2 x st))"
    if c: "completed_in mid st" and g: "get_mission m2 st = (Inr m, st)"
      and t: "resolve_mission_status_transition (map_option m_status m) x = Inr t" for st m2 m x t
  proof -
    have x: "m2 = mid \<Longrightarrow> x = ''completed''"
    proof -
      assume "m2 = mid"
      with c g have "map_option m_status m = Some ''completed''"
        by (auto simp: completed_in_def get_mission_Inr mission_from_row_fields(2) split: option.splits)
      with t have "allowed ''completed'' x" using transition_allowed by metis
      then show ?thesis by (simp add: allowed_completed)
    qed
    show ?thesis
    proof (cases "x \<in> set mission_statuses")
      case True
      then obtain tt d w where eq: "update_mission_status m2 x st = (Inr (), st\<lparr>st_world := w,
          t_missions := update_by rw_id m2 (\<lambda>r. r\<lparr>rw_status := x, rw_updated_at := tt, rw_completed_at := d\<rparr>)
            (t_missions st)\<rparr>)" using update_mission_status_effect by blast
      from c x show ?thesis unfolding completed_in_def eq
        by (auto simp: status_update_by simp del: map_option_eq_Some)
    next
      case False
      with update_mission_status_bad [OF this, of m2 st] c show ?thesis by auto
    qed
  qed
qed (auto intro!: keeps_same_missions simp: add_step_effect update_step_status_missions record_verification_effect
      add_subgoal_missions update_subgoal_missions)

text \<open>Every operation of the manager and a whole run, from outside.\<close>

inductive mgr_step :: "'v env \<Rightarrow> (int \<Rightarrow> 'v executor) set \<Rightarrow> 'v mstate \<Rightarrow> 'v mstate \<Rightarrow> bool"
  for env exs where
  ms_create: "(\<And>x. b = Some x \<Longrightarrow> valid_budget x) \<Longrightarrow> mgr_step env exs s (snd (mgr_create env n g b md s))"
| ms_advance: "mgr_step env exs s (snd (advance env mid d s))"
| ms_update_step: "mgr_step env exs s (snd (update_step sid x r s))"
| ms_add_subgoal: "mgr_step env exs s (snd (mgr_add_subgoal mid d p s))"
| ms_update_subgoal: "mgr_step env exs s (snd (mgr_update_subgoal sgid x s))"
| ms_set_verifier: "mgr_step env exs s (snd (set_verifier mid v s))"
| ms_verify: "mgr_step env exs s (snd (verify env mid s))"
| ms_set_status: "mgr_step env exs s (snd (set_status env mid x s))"
| ms_run: "ex \<in> exs \<Longrightarrow> mgr_step env exs s (snd (run_until_done env ex k mid s))"

text \<open>Pausing, resuming and canceling are instances of setting the status.\<close>

lemma pause_resume_cancel_step:
  "mgr_step env exs s (snd (pause_mission env mid s))"
  "mgr_step env exs s (snd (resume_mission env mid s))"
  "mgr_step env exs s (snd (cancel_mission env mid s))"
  using ms_set_status [of env exs s mid] unfolding set_status_def pause_mission_def resume_mission_def cancel_mission_def
  by blast+

text \<open>Callables that leave the table of missions alone; or that keep the store well-formed.\<close>

definition leaves_missions :: "('v mstate, 'a) op \<Rightarrow> bool" where
  "leaves_missions m \<longleftrightarrow> (\<forall>s. t_missions (mg_store (snd (m s))) = t_missions (mg_store s))"

lemma leaves_keeps_completed: "leaves_missions m \<Longrightarrow> keeps (\<lambda>s. completed_in mid (mg_store s)) m"
  by (rule keepsI) (simp add: leaves_missions_def completed_in_def)

lemma mgr_step_completed:
  assumes "mgr_step env exs s s'" and "\<And>v m. leaves_missions (ev_verify env v m)"
    and "\<And>ex i m. ex \<in> exs \<Longrightarrow> leaves_missions (ex i m)" and "completed_in mid (mg_store s)"
  shows "completed_in mid (mg_store s')"
  using assms(1,4)
proof (induction rule: mgr_step.induct)
  case (ms_create b s n g md)
  then show ?case by (intro keepsD [OF completed_store.kp_create]) auto
next
  case (ms_set_verifier s m v)
  then show ?case by (simp add: set_verifier_def)
next
  case (ms_verify s m)
  show ?case
    by (rule keepsD [OF completed_store.kp_verify]) (auto intro: leaves_keeps_completed assms(2) ms_verify.prems)
next
  case (ms_run ex s k m)
  show ?case
    by (rule keepsD [OF completed_store.kp_run_until_done])
       (auto intro: leaves_keeps_completed assms(2,3) ms_run)
qed (auto intro: keepsD [OF completed_store.kp_advance] keepsD [OF completed_store.kp_update_step]
      keepsD [OF completed_store.kp_subgoals(1)] keepsD [OF completed_store.kp_subgoals(2)]
      keepsD [OF completed_store.kp_set_status])

lemma mgr_step_store_ok:
  assumes "mgr_step env exs s s'" and "\<And>v m. keeps (\<lambda>s. store_ok (mg_store s)) (ev_verify env v m)"
    and "\<And>ex i m. ex \<in> exs \<Longrightarrow> keeps (\<lambda>s. store_ok (mg_store s)) (ex i m)" and "store_ok (mg_store s)"
  shows "store_ok (mg_store s')"
  using assms(1,4)
proof (induction rule: mgr_step.induct)
  case (ms_create b s n g md)
  then show ?case by (intro keepsD [OF wf_store.kp_create]) auto
next
  case (ms_set_verifier s m v)
  then show ?case by (simp add: set_verifier_def)
next
  case (ms_verify s m)
  show ?case by (rule keepsD [OF wf_store.kp_verify]) (auto intro: assms(2) ms_verify.prems)
next
  case (ms_run ex s k m)
  show ?case by (rule keepsD [OF wf_store.kp_run_until_done]) (auto intro: assms(2,3) ms_run)
qed (auto intro: keepsD [OF wf_store.kp_advance] keepsD [OF wf_store.kp_update_step]
      keepsD [OF wf_store.kp_subgoals(1)] keepsD [OF wf_store.kp_subgoals(2)]
      keepsD [OF wf_store.kp_set_status])

end
