(* ===== verification/Mission_Budget.thy ===== *)
theory Mission_Budget
  imports Mission_Contracts
begin

text \<open>
  The step budget: the number of steps recorded for a mission never exceeds its cap, whatever
  the executor returns or raises, because the cap is checked before every step.
\<close>

definition cap_in :: "string \<Rightarrow> store \<Rightarrow> int option" where
  "cap_in mid st = (case find_by rw_id mid (t_missions st) of
       Some r \<Rightarrow> (case budget_from_camel (rw_budget r) of Inr (Some b) \<Rightarrow> max_steps b | _ \<Rightarrow> None)
     | None \<Rightarrow> None)"

definition steps_in :: "string \<Rightarrow> store \<Rightarrow> int" where
  "steps_in mid st = int (length (filter (\<lambda>r. ms_mission r = mid) (t_steps st)))"

definition under_cap :: "string \<Rightarrow> int \<Rightarrow> int \<Rightarrow> store \<Rightarrow> bool" where
  "under_cap mid n c st \<longleftrightarrow> cap_in mid st = Some n \<and> steps_in mid st \<le> c"

lemma steps_update_by:
  "(\<And>r. ms_mission (g r) = ms_mission r) \<Longrightarrow>
   length (filter (\<lambda>r. ms_mission r = mid) (update_by f k g xs)) = length (filter (\<lambda>r. ms_mission r = mid) xs)"
  by (induction xs) auto

lemma update_step_status_count: "steps_in mid (snd (update_step_status sid x r st)) = steps_in mid st"
proof (cases "x \<in> set step_statuses")
  case True
  obtain d w where "completion_timestamp x step_terminal_statuses st = (Inr d, st\<lparr>st_world := w\<rparr>)"
    using completion_effect by blast
  with True show ?thesis
    by (simp add: update_step_status_def require_known_status_def bind_def andthen_def steps_in_def steps_update_by)
qed (simp add: update_step_status_def require_known_status_def bind_def andthen_def)

lemma cap_update_by:
  "cap_in mid (st\<lparr>st_world := w, t_missions := update_by rw_id m2
     (\<lambda>r. r\<lparr>rw_status := x, rw_updated_at := t, rw_completed_at := d\<rparr>) (t_missions st)\<rparr>) = cap_in mid st"
  by (simp add: cap_in_def find_by_update_by del: find_by_None split: option.splits)

interpretation capped: store_frame "under_cap mid n c" for mid n c
proof unfold_locales
  show "tabs st = tabs st' \<Longrightarrow> under_cap mid n c st = under_cap mid n c st'" for st st'
    by (simp add: tabs_def under_cap_def cap_in_def steps_in_def)
  show "keeps (under_cap mid n c) (update_step_status sid x r)" for sid x r
    by (rule keepsI) (simp add: under_cap_def update_step_status_count cap_in_def update_step_status_missions)
  show "keeps (under_cap mid n c) (record_verification m v)" for m v
    by (rule keepsI) (simp add: under_cap_def cap_in_def steps_in_def record_verification_effect)
  show "under_cap mid n c (snd (update_mission_status m2 x st))"
    if w: "under_cap mid n c st" and "get_mission m2 st = (Inr m, st)"
      and "resolve_mission_status_transition (map_option m_status m) x = Inr t" for st m2 m x t
  proof (cases "x \<in> set mission_statuses")
    case True
    then obtain tt d wd where "update_mission_status m2 x st = (Inr (), st\<lparr>st_world := wd,
        t_missions := update_by rw_id m2 (\<lambda>r. r\<lparr>rw_status := x, rw_updated_at := tt, rw_completed_at := d\<rparr>)
          (t_missions st)\<rparr>)" using update_mission_status_effect by blast
    then show ?thesis using w by (simp add: under_cap_def cap_update_by) (simp add: steps_in_def)
  next
    case False
    with update_mission_status_bad [OF this, of m2 st] w show ?thesis by auto
  qed
qed

lemma under_cap_mono: "under_cap mid n c st \<Longrightarrow> c \<le> c' \<Longrightarrow> under_cap mid n c' st"
  by (simp add: under_cap_def)

lemma leads_advance:
  "leads (\<lambda>s. under_cap mid n c (mg_store s)) (advance env m2 d) (\<lambda>s. under_cap mid n (c + 1) (mg_store s))"
  unfolding advance_def
proof (rule leads_bind)
  show "leads (\<lambda>s :: 'a mstate. under_cap mid n c (mg_store s)) (on_store (add_step m2 d)) (\<lambda>s. under_cap mid n (c + 1) (mg_store s))"
    unfolding leads_def
  proof (intro allI impI)
    fix s :: "'a mstate"
    assume "under_cap mid n c (mg_store s)"
    with add_step_effect [of m2 d "mg_store s"]
    show "under_cap mid n (c + 1) (mg_store (snd (on_store (add_step m2 d) s)))"
      by (auto simp: under_cap_def cap_in_def steps_in_def)
  qed
  fix sid
  have "keeps (under_cap mid n (c + 1)) (get_steps m2)" by (rule keepsI) (simp add: get_steps_def)
  then have "keeps (\<lambda>s. under_cap mid n (c + 1) (mg_store s)) (bind (asks mg_events) (\<lambda>em.
     andthen (if em = None then ret ()
              else bind (on_store (get_steps m2)) (\<lambda>xs. emit_step env m2 d (int (length xs))))
     (ret sid)))"
    unfolding emit_step_def by (intro keeps_intros capped.kp_emit keeps_on_store)
  then show "leads (\<lambda>s. under_cap mid n (c + 1) (mg_store s)) (bind (asks mg_events) (\<lambda>em.
     andthen (if em = None then ret ()
              else bind (on_store (get_steps m2)) (\<lambda>xs. emit_step env m2 d (int (length xs))))
     (ret sid))) (\<lambda>s. under_cap mid n (c + 1) (mg_store s))"
    by (rule keeps_leads)
qed

lemma leads_record:
  "leads (\<lambda>s. under_cap mid n c (mg_store s)) (record_step_result env m2 res) (\<lambda>s. under_cap mid n (c + 1) (mg_store s))"
  unfolding record_step_result_def
proof (rule leads_bind [OF leads_advance])
  fix sid
  have "keeps (\<lambda>s. under_cap mid n (c + 1) (mg_store s)) (case sr_status res of
       StepFailed \<Rightarrow> finish_failed_step sid res
     | StepBlocked \<Rightarrow> finish_blocked_step env m2 sid res
     | StepCompleted \<Rightarrow> finish_completed_step env m2)"
    by (cases "sr_status res")
       (auto simp: finish_failed_step_def finish_blocked_step_def finish_completed_step_def Let_def
         intro!: keeps_intros capped.kp_update_step capped.kp_set_status capped.kp_usage)
  then show "leads (\<lambda>s. under_cap mid n (c + 1) (mg_store s)) (case sr_status res of
       StepFailed \<Rightarrow> finish_failed_step sid res
     | StepBlocked \<Rightarrow> finish_blocked_step env m2 sid res
     | StepCompleted \<Rightarrow> finish_completed_step env m2) (\<lambda>s. under_cap mid n (c + 1) (mg_store s))"
    by (rule keeps_leads)
qed

lemma leads_failed:
  "leads (\<lambda>s. under_cap mid n c (mg_store s)) (record_failed_call env m2 msg) (\<lambda>s. under_cap mid n (c + 1) (mg_store s))"
  unfolding record_failed_call_def
  by (rule leads_bind [OF leads_advance]) (auto intro!: keeps_leads keeps_intros capped.kp_update_step)

text \<open>Callables that leave the tables of missions and steps alone.\<close>

definition leaves_tables :: "('v mstate, 'a) op \<Rightarrow> bool" where
  "leaves_tables m \<longleftrightarrow> (\<forall>s. t_missions (mg_store (snd (m s))) = t_missions (mg_store s) \<and>
     t_steps (mg_store (snd (m s))) = t_steps (mg_store s))"

lemma leaves_tables_keeps: "leaves_tables m \<Longrightarrow> keeps (\<lambda>s. under_cap mid n c (mg_store s)) m"
  by (rule keepsI) (simp add: leaves_tables_def under_cap_def cap_in_def steps_in_def)

lemma usage_value:
  assumes "mgr_budget_usage mid s = (Inr u, s')" and "cap_in mid (mg_store s) = Some n"
  shows "s' = s" and "bu_exhausted u \<longleftrightarrow> n \<le> steps_in mid (mg_store s)"
proof -
  from assms(1) show "s' = s" by (rule budget_usage_Inr)
  from assms(1) obtain m s1 c s2 where m: "get_mission mid (mg_store s) = (Inr m, s1)"
    and c: "asks (\<lambda>s. int (length (filter (\<lambda>r. ms_mission r = mid) (t_steps s)))) s1 = (Inr c, s2)"
    and u: "(let cap = (case m of Some x \<Rightarrow> (case m_budget x of Some b \<Rightarrow> max_steps b | None \<Rightarrow> None) | None \<Rightarrow> None);
         cost = (case m of Some x \<Rightarrow> (case m_budget x of Some b \<Rightarrow> max_cost_usd b | None \<Rightarrow> None) | None \<Rightarrow> None)
     in ret \<lparr>bu_steps_used = c, bu_max_steps = cap, bu_max_cost = cost,
             bu_exhausted = (case cap of None \<Rightarrow> False | Some n \<Rightarrow> n \<le> c)\<rparr>) s2 = (Inr u, mg_store s')"
    unfolding mgr_budget_usage_def on_store_Inr get_budget_usage_def
    by (elim exE conjE bind_InrE) (rule that, assumption+, simp)
  from m have s1: "s1 = mg_store s" by (simp add: get_mission_Inr)
  from assms(2) obtain r b where r: "find_by rw_id mid (t_missions (mg_store s)) = Some r"
    and b: "budget_from_camel (rw_budget r) = Inr (Some b)" "max_steps b = Some n"
    by (auto simp: cap_in_def split: option.splits sum.splits)
  from m r obtain x where "mission_from_row r = Inr x" and mx: "m = Some x"
    by (auto simp: get_mission_Inr simp del: find_by_None split: option.splits)
  then have "m_budget x = Some b" using mission_from_row_fields(5) b by fastforce
  with u c s1 mx b(2) show "bu_exhausted u \<longleftrightarrow> n \<le> steps_in mid (mg_store s)"
    by (auto simp: steps_in_def Let_def)
qed

lemma usage_raises: "mgr_budget_usage mid s = (Inl e, s') \<Longrightarrow> under_cap mid n c (mg_store s) \<Longrightarrow> under_cap mid n c (mg_store s')"
  using keepsD [OF capped.kp_usage, of mid n c s mid] by simp

lemma keeps_run_active_step:
  assumes e: "\<And>m. leaves_tables (ex m)" and c: "n \<le> c"
  shows "keeps (\<lambda>s. under_cap mid n c (mg_store s)) (run_active_step env ex mid)"
proof (rule keepsI)
  fix s :: "'a mstate"
  assume W: "under_cap mid n c (mg_store s)"
  let ?rest = "\<lambda>u. if bu_exhausted u
     then andthen (set_status env mid ''budget_exhausted'')
          (ret \<lparr>rs_recorded = False, rs_exhausted = True, rs_blocked = False,
                rs_final = Some ''budget_exhausted'', rs_error = None\<rparr>)
     else bind (call_executor env ex mid) (\<lambda>r. case r of
         Inl message \<Rightarrow> record_failed_call env mid message
       | Inr result \<Rightarrow> record_step_result env mid result)"
  show "under_cap mid n c (mg_store (snd (run_active_step env ex mid s)))"
    unfolding run_active_step_def
  proof (cases rule: bind_cases [of "mgr_budget_usage mid" s ?rest])
    case (raised x s')
    then show "under_cap mid n c (mg_store (snd (bind (mgr_budget_usage mid) ?rest s)))"
      using usage_raises W by fastforce
  next
    case (returned u s')
    have s': "s' = s" and ex: "bu_exhausted u \<longleftrightarrow> n \<le> steps_in mid (mg_store s)"
      using usage_value [OF returned(1)] W by (auto simp: under_cap_def)
    have "under_cap mid n c (mg_store (snd (?rest u s)))"
    proof (cases "bu_exhausted u")
      case True
      have "keeps (\<lambda>s. under_cap mid n c (mg_store s)) (?rest u)"
        using True by (auto intro!: keeps_intros capped.kp_set_status)
      then show ?thesis using W by (rule keepsD)
    next
      case False
      then have "under_cap mid n (n - 1) (mg_store s)" using W ex by (simp add: under_cap_def)
      moreover have "leads (\<lambda>s. under_cap mid n (n - 1) (mg_store s)) (?rest u) (\<lambda>s. under_cap mid n (n - 1 + 1) (mg_store s))"
        unfolding if_not_P [OF False]
      proof (rule leads_bind)
        show "leads (\<lambda>s. under_cap mid n (n - 1) (mg_store s)) (call_executor env ex mid) (\<lambda>s. under_cap mid n (n - 1) (mg_store s))"
          by (intro keeps_leads capped.kp_call_executor leaves_tables_keeps e)
        show "leads (\<lambda>s. under_cap mid n (n - 1) (mg_store s)) (case r of
            Inl message \<Rightarrow> record_failed_call env mid message
          | Inr result \<Rightarrow> record_step_result env mid result) (\<lambda>s. under_cap mid n (n - 1 + 1) (mg_store s))" for r
          by (cases r) (simp_all only: sum.case leads_failed leads_record)
      qed (auto intro: under_cap_mono)
      ultimately have "under_cap mid n (n - 1 + 1) (mg_store (snd (?rest u s)))" by (rule leadsD [rotated])
      with c show ?thesis by (auto intro: under_cap_mono)
    qed
    with returned s' show "under_cap mid n c (mg_store (snd (bind (mgr_budget_usage mid) ?rest s)))" by simp
  qed
qed

lemma keeps_under_cap_run:
  assumes v: "\<And>v m. leaves_tables (ev_verify env v m)" and e: "\<And>i m. leaves_tables (ex i m)" and c: "n \<le> c"
  shows "keeps (\<lambda>s. under_cap mid n c (mg_store s)) (run_until_done env ex k mid)"
proof -
  have vk: "keeps (\<lambda>s. under_cap mid n c (mg_store s)) (ev_verify env v m)" for v m
    by (intro leaves_tables_keeps v)
  have step: "keeps (\<lambda>s. under_cap mid n c (mg_store s)) (run_step env (ex i) mid)" for i
    unfolding run_step_def mgr_get_def
    by (intro keeps_intros capped.kp_get keeps_run_active_step e c)
  have iter: "keeps (\<lambda>s. under_cap mid n c (mg_store s)) (run_iteration env (ex i) mid q)" for i q
    unfolding run_iteration_def run_active_iteration_def verify_iteration_def mgr_get_def Let_def
    by (intro keeps_intros capped.kp_get step capped.kp_verify vk capped.kp_set_status)
  have "keeps (\<lambda>s. under_cap mid n c (mg_store s)) (run_loop k env ex mid i q)" for k i q
  proof (induction k arbitrary: i q)
    case 0
    show ?case unfolding run_loop.simps mgr_get_def by (intro keeps_intros capped.kp_get)
  next
    case (Suc k)
    show ?case unfolding run_loop.simps by (intro keeps_intros iter Suc.IH)
  qed
  then show ?thesis unfolding run_until_done_def .
qed

end
