(* ===== verification/Json_Order.thy ===== *)
theory Json_Order
  imports Effects "HOL-Library.List_Lexorder" "HOL-Library.Char_ord" "HOL-Library.Countable"
begin

text \<open>
  JSON values regardless of the order of the keys of their objects: what \<open>json.loads\<close> gives back for a
  text that \<open>json.dumps(sort_keys=True)\<close> has written, and what Python compares when it compares dicts.
\<close>

instance nonfinite :: countable
  by countable_datatype

instance json :: countable
  by countable_datatype

lemma size_item: "(k, v) \<in> set d \<Longrightarrow> size v < Suc (size_list (size_prod (\<lambda>x. 0) size) d)"
  by (induction d) auto

lemma size_item_snd: "x \<in> set d \<Longrightarrow> size (snd x) < Suc (size_list (size_prod (\<lambda>x. 0) size) d)"
  using size_item [of "fst x" "snd x" d] by simp

function sorted_json :: "json \<Rightarrow> json" where
  "sorted_json JNull = JNull"
| "sorted_json (JBool b) = JBool b"
| "sorted_json (JInt n) = JInt n"
| "sorted_json (JFloat x) = JFloat x"
| "sorted_json (JNonFinite x) = JNonFinite x"
| "sorted_json (JStr x) = JStr x"
| "sorted_json (JList xs) = JList (map sorted_json xs)"
| "sorted_json (JObj d) = JObj (sort_key fst (map (\<lambda>x. (fst x, sorted_json (snd x))) d))"
  by pat_completeness auto
termination
  by (relation "measure size") (auto simp: size_item_snd dest: size_list_estimation' [of _ _ _ size])

text \<open>A finite double.\<close>

definition is_double :: "rat \<Rightarrow> bool" where
  "is_double x \<longleftrightarrow> (\<exists>m e :: int. \<bar>m\<bar> < 2 ^ 53 \<and> -1074 \<le> e \<and> e \<le> 971 \<and>
     x = (if 0 \<le> e then of_int m * 2 ^ nat e else of_int m / 2 ^ nat (- e)))"

text \<open>What \<open>json.dumps(allow_nan=False)\<close> can write and \<open>json.loads\<close> reads back: no key twice, finite doubles.\<close>

function plain_json :: "json \<Rightarrow> bool" where
  "plain_json JNull = True"
| "plain_json (JBool b) = True"
| "plain_json (JInt n) = True"
| "plain_json (JFloat x) = is_double x"
| "plain_json (JNonFinite x) = False"
| "plain_json (JStr x) = True"
| "plain_json (JList xs) = list_all plain_json xs"
| "plain_json (JObj d) = (distinct (map fst d) \<and> list_all (\<lambda>x. plain_json (snd x)) d)"
  by pat_completeness auto
termination
  by (relation "measure size") (auto simp: size_item_snd dest: size_list_estimation' [of _ _ _ size])

definition sorted_dict :: "dict \<Rightarrow> dict" where
  "sorted_dict d = sort_key fst (map (\<lambda>x. (fst x, sorted_json (snd x))) d)"

lemma sorted_json_obj: "sorted_json (JObj d) = JObj (sorted_dict d)"
  by (simp add: sorted_dict_def)

lemma keys_sorted_dict [simp]: "fst ` set (sorted_dict d) = fst ` set d"
  by (simp add: sorted_dict_def image_image)

lemma map_of_sort_key: "distinct (map fst d) \<Longrightarrow> map_of (sort_key fst d) = map_of d"
proof -
  assume d: "distinct (map fst d)"
  then have "distinct (map fst (sort_key fst d))"
    by (metis distinct_map set_sort distinct_sort)
  then show ?thesis using d by (intro map_of_eqI) (auto simp: map_of_eq_Some_iff)
qed

lemma map_of_sorted_dict:
  assumes "distinct (map fst d)"
  shows "map_of (sorted_dict d) k = map_option sorted_json (map_of d k)"
proof -
  have "distinct (map fst (map (\<lambda>x. (fst x, sorted_json (snd x))) d))" using assms by (simp add: comp_def)
  then have "map_of (sorted_dict d) k = map_of (map (\<lambda>x. (fst x, sorted_json (snd x))) d) k"
    unfolding sorted_dict_def by (simp add: map_of_sort_key)
  also have "\<dots> = map_option sorted_json (map_of d k)" by (induction d) auto
  finally show ?thesis .
qed

lemma plain_sorted: "plain_json j \<Longrightarrow> plain_json (sorted_json j)"
proof (induction j rule: sorted_json.induct)
  case (7 xs) then show ?case by (auto simp: list_all_iff)
next
  case (8 d)
  have "distinct (map fst (sorted_dict d))"
    using 8(2) by (simp add: sorted_dict_def distinct_map comp_def inj_on_def) (metis (no_types, lifting) prod.collapse inj_onD)
  with 8 show ?case by (auto simp: sorted_dict_def list_all_iff)
qed auto

subsection \<open>Sorting again\<close>

lemma insort_map: "(\<And>x. f (g x) = f x) \<Longrightarrow> insort_key f (g x) (map g xs) = map g (insort_key f x xs)"
  by (induction xs) auto

lemma sort_map: "(\<And>x. f (g x) = f x) \<Longrightarrow> sort_key f (map g xs) = map g (sort_key f xs)"
  by (induction xs) (simp_all add: insort_map)

lemma sort_sorted: "sorted (map f xs) \<Longrightarrow> sort_key f xs = xs"
  by (induction xs) (simp_all add: insort_is_Cons)

lemma sorted_json_twice: "sorted_json (sorted_json j) = sorted_json j"
proof (induction j rule: sorted_json.induct)
  case (8 d)
  let ?g = "\<lambda>x. (fst x, sorted_json (snd x))"
  have "map ?g (map ?g d) = map ?g d" using 8 by auto
  then have "map ?g (sort_key fst (map ?g d)) = sort_key fst (map ?g d)"
    by (metis (no_types, lifting) fst_conv sort_map)
  then show ?case by (simp add: sort_sorted)
qed auto

lemma sorted_append_item:
  assumes "distinct (map fst (d @ [x]))"
  shows "sorted_dict (sorted_dict d @ [x]) = sorted_dict (d @ [x])"
proof (rule map_sorted_distinct_set_unique [where f = fst])
  let ?g = "\<lambda>x. (fst x, sorted_json (snd x))"
  have e: "set (sorted_dict d) = ?g ` set d" by (simp add: sorted_dict_def)
  have dist: "distinct (map fst (sorted_dict e))" if "distinct (map fst e)" for e
  proof -
    have "distinct (map fst (map ?g e))" using that by (simp add: comp_def)
    then have "distinct (map fst (sort_key fst (map ?g e)))" by (simp only: distinct_map [of fst] set_sort distinct_sort)
    then show ?thesis by (simp only: sorted_dict_def)
  qed
  have d': "distinct (map fst (sorted_dict d @ [x]))"
    using assms dist [of d] by (auto simp: sorted_dict_def image_image)
  show "distinct (map fst (sorted_dict (sorted_dict d @ [x])))" "distinct (map fst (sorted_dict (d @ [x])))"
    by (rule dist [OF d'], rule dist [OF assms])
  show "sorted (map fst (sorted_dict (sorted_dict d @ [x])))" "sorted (map fst (sorted_dict (d @ [x])))"
    by (simp_all add: sorted_dict_def)
  show s: "set (sorted_dict (sorted_dict d @ [x])) = set (sorted_dict (d @ [x]))"
    by (simp add: sorted_dict_def image_image sorted_json_twice)
  show "inj_on fst (set (sorted_dict (sorted_dict d @ [x])) \<union> set (sorted_dict (d @ [x])))"
    unfolding s using dist [OF assms] by (simp add: distinct_map)
qed

text \<open>A dict in the order in which the model keeps it.\<close>

definition canonical_dict :: "dict \<Rightarrow> bool" where
  "canonical_dict d \<longleftrightarrow> plain_json (JObj d) \<and> sorted_dict d = d"

end
