(* ===== verification/Mission_Checkpoint.thy ===== *)
theory Mission_Checkpoint
  imports Mission_Store Json_Order
begin

text \<open>
  Mission checkpoints, \<^verbatim>\<open>mission/checkpoint.py\<close>: the JSON snapshot of a mission and its
  restoration in one transaction. The snapshot file holds the JSON value itself. The name of a
  file is built from clock and identifier texts; a path is the list of its components.

  Parameters stand for what the standard library and SQLite do to values that the store never
  writes itself: \<open>sq_str\<close> is Python's \<open>str\<close> of a float or a container, \<open>sq_real\<close> SQLite's text of
  a float bound to a text column. A \<open>null\<close> row identifier (which SQLite would store) and a
  subgoal priority that is neither an integer nor a boolean are outside the model; restoring
  such a checkpoint raises here.
\<close>

record sqlite =
  sq_str :: "json \<Rightarrow> string"
  sq_real :: "rat \<Rightarrow> string"

subsection \<open>Reading JSON as Python does\<close>

definition py_str :: "sqlite \<Rightarrow> json \<Rightarrow> string" where
  "py_str sq j = (case j of JNull \<Rightarrow> ''None'' | JBool b \<Rightarrow> (if b then ''True'' else ''False'')
     | JInt n \<Rightarrow> str_int n | JStr x \<Rightarrow> x | _ \<Rightarrow> sq_str sq j)"

definition as_object :: "json \<Rightarrow> dict res" where
  "as_object j = (case j of JObj d \<Rightarrow> Inr d | _ \<Rightarrow> Inl (TypeError ''indices must be integers''))"

definition item :: "string \<Rightarrow> dict \<Rightarrow> json res" where
  "item k d = (case map_of d k of Some j \<Rightarrow> Inr j | None \<Rightarrow> Inl (KeyError k))"

definition get_or_null :: "string \<Rightarrow> dict \<Rightarrow> json" where
  "get_or_null k d = (case map_of d k of Some j \<Rightarrow> j | None \<Rightarrow> JNull)"

fun pick :: "dict \<Rightarrow> string list \<Rightarrow> json option" where
  "pick d [] = None"
| "pick d (k # ks) = (case map_of d k of
      Some j \<Rightarrow> (if j \<noteq> JNull then Some j else pick d ks)
    | None \<Rightarrow> pick d ks)"

text \<open>A value bound to a \<open>NOT NULL\<close> text column, and to a nullable one.\<close>

definition bind_text :: "sqlite \<Rightarrow> json \<Rightarrow> string res" where
  "bind_text sq j = (case j of
       JNull \<Rightarrow> Inl (IntegrityError ''NOT NULL constraint failed'')
     | JBool b \<Rightarrow> Inr (if b then ''1'' else ''0'')
     | JInt n \<Rightarrow> Inr (str_int n)
     | JFloat x \<Rightarrow> Inr (sq_real sq x)
     | JNonFinite PosInf \<Rightarrow> Inr ''Inf''
     | JNonFinite NegInf \<Rightarrow> Inr ''-Inf''
     | JNonFinite NotANumber \<Rightarrow> Inl (IntegrityError ''NOT NULL constraint failed'')
     | JStr x \<Rightarrow> Inr x
     | _ \<Rightarrow> Inl (UserException ''ProgrammingError'' ''type is not supported''))"

definition bind_null_text :: "sqlite \<Rightarrow> json option \<Rightarrow> string option res" where
  "bind_null_text sq j = (case j of
       None \<Rightarrow> Inr None
     | Some JNull \<Rightarrow> Inr None
     | Some (JNonFinite NotANumber) \<Rightarrow> Inr None
     | Some v \<Rightarrow> (case bind_text sq v of Inl e \<Rightarrow> Inl e | Inr x \<Rightarrow> Inr (Some x)))"

definition bind_int :: "json \<Rightarrow> int res" where
  "bind_int j = (case j of JInt n \<Rightarrow> Inr n | JBool b \<Rightarrow> Inr (if b then 1 else 0)
     | JNull \<Rightarrow> Inl (IntegrityError ''NOT NULL constraint failed'')
     | _ \<Rightarrow> Inl (TypeError ''priority outside the model''))"

subsection \<open>Saving\<close>

definition json_opt :: "('a \<Rightarrow> json) \<Rightarrow> 'a option \<Rightarrow> json" where
  "json_opt f x = (case x of None \<Rightarrow> JNull | Some y \<Rightarrow> f y)"

text \<open>
  \<open>model_dump(mode="json")\<close> of a field of type \<open>dict[str, Any]\<close>: infinities and NaN, which JSON does not
  have, become \<open>null\<close> wherever they occur; every other JSON value is kept.
\<close>

function json_mode :: "json \<Rightarrow> json" where
  "json_mode JNull = JNull"
| "json_mode (JBool b) = JBool b"
| "json_mode (JInt n) = JInt n"
| "json_mode (JFloat x) = JFloat x"
| "json_mode (JNonFinite x) = JNull"
| "json_mode (JStr x) = JStr x"
| "json_mode (JList xs) = JList (map json_mode xs)"
| "json_mode (JObj d) = JObj (map (\<lambda>x. (fst x, json_mode (snd x))) d)"
  by pat_completeness auto
termination
  by (relation "measure size") (auto simp: size_item_snd dest: size_list_estimation' [of _ _ _ size])

definition json_dict :: "dict \<Rightarrow> dict" where
  "json_dict d = map (\<lambda>x. (fst x, json_mode (snd x))) d"

definition dump_budget :: "budget \<Rightarrow> json" where
  "dump_budget b = JObj [(''max_steps'', json_opt JInt (max_steps b)),
     (''max_cost_usd'', json_opt JFloat (max_cost_usd b)),
     (''max_duration_minutes'', json_opt JFloat (max_duration_minutes b))]"

definition dump_mission :: "mission \<Rightarrow> json" where
  "dump_mission m = JObj [(''id'', JStr (m_id m)), (''name'', JStr (m_name m)), (''goal'', JStr (m_goal m)),
     (''status'', JStr (m_status m)), (''budget'', json_opt dump_budget (m_budget m)),
     (''metadata'', JObj (json_dict (m_metadata m))), (''created_at'', JStr (m_created_at m)),
     (''updated_at'', json_opt JStr (m_updated_at m)), (''completed_at'', json_opt JStr (m_completed_at m))]"

definition dump_step :: "mission_step \<Rightarrow> json" where
  "dump_step x = JObj [(''id'', JStr (ms_id x)), (''mission_id'', JStr (ms_mission x)),
     (''description'', JStr (ms_description x)), (''status'', JStr (ms_status x)),
     (''result'', json_opt JStr (ms_result x)), (''created_at'', JStr (ms_created_at x)),
     (''completed_at'', json_opt JStr (ms_completed_at x))]"

definition dump_subgoal :: "mission_subgoal \<Rightarrow> json" where
  "dump_subgoal x = JObj [(''id'', JStr (sg_id x)), (''mission_id'', JStr (sg_mission x)),
     (''description'', JStr (sg_description x)), (''priority'', JInt (sg_priority x)),
     (''status'', JStr (sg_status x)), (''created_at'', JStr (sg_created_at x)),
     (''completed_at'', json_opt JStr (sg_completed_at x))]"

definition dump_verification :: "verification \<Rightarrow> json" where
  "dump_verification v = JObj [(''id'', JStr (mv_id v)), (''passed'', JBool (mv_passed v)),
     (''reason'', JStr (mv_reason v)), (''suggestions'', JList (map JStr (mv_suggestions v))),
     (''metadata'', JObj (json_dict (mv_metadata v))), (''created_at'', JStr (mv_created_at v))]"

definition dump_usage :: "budget_usage \<Rightarrow> json" where
  "dump_usage u = JObj [(''steps_used'', JInt (bu_steps_used u)), (''max_steps'', json_opt JInt (bu_max_steps u)),
     (''max_cost_usd'', json_opt JFloat (bu_max_cost u)), (''exhausted'', JBool (bu_exhausted u))]"

definition checkpoint_payload ::
  "string \<Rightarrow> mission \<Rightarrow> mission_step list \<Rightarrow> mission_subgoal list \<Rightarrow> verification list \<Rightarrow> budget_usage \<Rightarrow> json" where
  "checkpoint_payload t m xs gs vs u = JObj
     [(''version'', JInt 1), (''checkpointedAt'', JStr t), (''mission'', dump_mission m),
      (''steps'', JList (map dump_step xs)), (''subgoals'', JList (map dump_subgoal gs)),
      (''verifications'', JList (map dump_verification vs)), (''budgetUsage'', dump_usage u)]"

text \<open>The operation returns the path of the new file together with what it wrote there.\<close>

definition save_checkpoint :: "string \<Rightarrow> string list \<Rightarrow> (store, string list \<times> json) op" where
  "save_checkpoint mid dir =
     bind (get_mission mid) (\<lambda>mo. case mo of
       None \<Rightarrow> raise (ValueError (''Mission not found: '' @ mid))
     | Some m \<Rightarrow>
         bind (get_steps mid) (\<lambda>xs.
         bind (get_subgoals mid) (\<lambda>gs.
         bind (get_verifications mid) (\<lambda>vs.
         bind (get_budget_usage mid) (\<lambda>u.
         bind read_clock (\<lambda>t.
         bind read_clock (\<lambda>ns.
         bind (generate_record_id (mid @ ''-'' @ ns)) (\<lambda>name.
         ret (dir @ [name @ ''.json''], checkpoint_payload t m xs gs vs u)))))))))"

subsection \<open>Loading\<close>

text \<open>\<open>key in payload and payload[key] is not None\<close> for a payload that need not be a dict.\<close>

fun occurs_in :: "string \<Rightarrow> string \<Rightarrow> bool" where
  "occurs_in k [] = (k = [])"
| "occurs_in k (c # cs) = (take (length k) (c # cs) = k \<or> occurs_in k cs)"

fun pick_any :: "json \<Rightarrow> string list \<Rightarrow> json option res" where
  "pick_any p [] = Inr None"
| "pick_any p (k # ks) = (case p of
      JObj d \<Rightarrow> Inr (pick d (k # ks))
    | JList xs \<Rightarrow> (if JStr k \<in> set xs then Inl (TypeError ''list indices must be integers'') else pick_any p ks)
    | JStr x \<Rightarrow> (if occurs_in k x then Inl (TypeError ''string indices must be integers'') else pick_any p ks)
    | _ \<Rightarrow> Inl (TypeError ''argument is not iterable''))"

definition camel_field :: "string \<Rightarrow> json option \<Rightarrow> dict" where
  "camel_field k x = (case x of Some j \<Rightarrow> [(k, j)] | None \<Rightarrow> [])"

definition checkpoint_budget :: "json \<Rightarrow> dict option res" where
  "checkpoint_budget payload =
     (if \<not> truthy payload then Inr None
      else (case pick_any payload [''maxSteps'', ''max_steps''] of
          Inl e \<Rightarrow> Inl e
        | Inr a \<Rightarrow> (case pick_any payload [''maxCostUsd'', ''max_cost_usd''] of
             Inl e \<Rightarrow> Inl e
           | Inr b \<Rightarrow> (case pick_any payload [''maxDurationMinutes'', ''max_duration_minutes''] of
                Inl e \<Rightarrow> Inl e
              | Inr c \<Rightarrow> (let out = camel_field ''maxSteps'' a @ camel_field ''maxCostUsd'' b @
                                   camel_field ''maxDurationMinutes'' c
                         in Inr (if out = [] then None else Some out))))))"

text \<open>\<open>_pick(...) or _utc_now_iso()\<close>\<close>

definition picked_or_now :: "dict \<Rightarrow> string list \<Rightarrow> (store, json) op" where
  "picked_or_now d ks = (case pick d ks of
       Some j \<Rightarrow> (if truthy j then ret j else bind read_clock (\<lambda>t. ret (JStr t)))
     | None \<Rightarrow> bind read_clock (\<lambda>t. ret (JStr t)))"

definition restore_mission :: "sqlite \<Rightarrow> string \<Rightarrow> dict \<Rightarrow> dict option \<Rightarrow> json \<Rightarrow> (store, unit) op" where
  "restore_mission sq oid m budget md =
     bind (lift_res (item ''name'' m)) (\<lambda>name.
     bind (lift_res (item ''goal'' m)) (\<lambda>goal.
     bind (lift_res (item ''status'' m)) (\<lambda>status.
     bind (picked_or_now m [''createdAt'', ''created_at'']) (\<lambda>created.
     bind (lift_res (bind_text sq name)) (\<lambda>name'.
     bind (lift_res (bind_text sq goal)) (\<lambda>goal'.
     bind (lift_res (bind_text sq status)) (\<lambda>status'.
     bind (lift_res (bind_text sq created)) (\<lambda>created'.
     bind (lift_res (bind_null_text sq (pick m [''updatedAt'', ''updated_at'']))) (\<lambda>updated.
     bind (lift_res (bind_null_text sq (pick m [''completedAt'', ''completed_at'']))) (\<lambda>completed.
     insert_mission \<lparr>rw_id = oid, rw_name = name', rw_goal = goal', rw_status = status', rw_budget = budget,
       rw_metadata = Some md, rw_created_at = created', rw_updated_at = updated, rw_completed_at = completed\<rparr>))))))))))"

definition restore_step :: "sqlite \<Rightarrow> string \<Rightarrow> json \<Rightarrow> (store, unit) op" where
  "restore_step sq oid j =
     bind (lift_res (as_object j)) (\<lambda>x.
     bind (lift_res (item ''id'' x)) (\<lambda>i.
     bind (lift_res (item ''description'' x)) (\<lambda>d.
     bind (lift_res (item ''status'' x)) (\<lambda>status.
     bind (picked_or_now x [''createdAt'', ''created_at'']) (\<lambda>created.
     bind (lift_res (bind_text sq i)) (\<lambda>i'.
     bind (lift_res (bind_text sq d)) (\<lambda>d'.
     bind (lift_res (bind_text sq status)) (\<lambda>status'.
     bind (lift_res (bind_null_text sq (map_of x ''result''))) (\<lambda>result.
     bind (lift_res (bind_text sq created)) (\<lambda>created'.
     bind (lift_res (bind_null_text sq (pick x [''completedAt'', ''completed_at'']))) (\<lambda>completed.
     insert_step \<lparr>ms_id = i', ms_mission = oid, ms_description = d', ms_status = status', ms_result = result,
       ms_created_at = created', ms_completed_at = completed\<rparr>)))))))))))"

definition restore_subgoal :: "sqlite \<Rightarrow> string \<Rightarrow> json \<Rightarrow> (store, unit) op" where
  "restore_subgoal sq oid j =
     bind (lift_res (as_object j)) (\<lambda>x.
     bind (lift_res (item ''id'' x)) (\<lambda>i.
     bind (lift_res (item ''description'' x)) (\<lambda>d.
     bind (lift_res (item ''priority'' x)) (\<lambda>p.
     bind (lift_res (item ''status'' x)) (\<lambda>status.
     bind (picked_or_now x [''createdAt'', ''created_at'']) (\<lambda>created.
     bind (lift_res (bind_text sq i)) (\<lambda>i'.
     bind (lift_res (bind_text sq d)) (\<lambda>d'.
     bind (lift_res (bind_int p)) (\<lambda>p'.
     bind (lift_res (bind_text sq status)) (\<lambda>status'.
     bind (lift_res (bind_text sq created)) (\<lambda>created'.
     bind (lift_res (bind_null_text sq (pick x [''completedAt'', ''completed_at'']))) (\<lambda>completed.
     insert_subgoal \<lparr>sg_id = i', sg_mission = oid, sg_description = d', sg_priority = p', sg_status = status',
       sg_created_at = created', sg_completed_at = completed\<rparr>))))))))))))"

definition restored_record_id :: "dict \<Rightarrow> (store, string) op" where
  "restored_record_id x = (case map_of x ''id'' of
       Some (JStr (c # cs)) \<Rightarrow> ret (c # cs)
     | _ \<Rightarrow> generate_record_id ''verify-restored'')"

definition restore_verification :: "sqlite \<Rightarrow> string \<Rightarrow> json \<Rightarrow> (store, unit) op" where
  "restore_verification sq oid j =
     bind (lift_res (as_object j)) (\<lambda>x.
     bind (restored_record_id x) (\<lambda>rid.
     bind (lift_res (item ''passed'' x)) (\<lambda>passed.
     bind (lift_res (item ''reason'' x)) (\<lambda>reason.
     bind (picked_or_now x [''createdAt'', ''created_at'']) (\<lambda>created.
     bind (lift_res (bind_text sq reason)) (\<lambda>reason'.
     bind (lift_res (bind_text sq created)) (\<lambda>created'.
     let suggestions = get_or_null ''suggestions'' x; md = get_or_null ''metadata'' x in
     insert_verification \<lparr>vw_id = rid, vw_mission = oid, vw_passed = (if truthy passed then 1 else 0),
       vw_reason = reason', vw_suggestions = Some (if truthy suggestions then suggestions else JList []),
       vw_metadata = Some (if truthy md then md else JObj []), vw_created_at = created'\<rparr>)))))))"

text \<open>\<open>raw.get(key, [])\<close>, iterated.\<close>

definition rows_of :: "string \<Rightarrow> dict \<Rightarrow> json list res" where
  "rows_of k raw = (case map_of raw k of None \<Rightarrow> Inr [] | Some j \<Rightarrow> py_tuple j)"

text \<open>\<open>BEGIN\<close> ... \<open>COMMIT\<close>, or \<open>ROLLBACK\<close> of the tables and re-raise.\<close>

definition transaction :: "(store, 'a) op \<Rightarrow> (store, 'a) op" where
  "transaction m s = (case m s of
       (Inl e, s') \<Rightarrow> (Inl e, s\<lparr>st_world := st_world s'\<rparr>)
     | (Inr x, s') \<Rightarrow> (Inr x, s'))"

definition restore_rows :: "sqlite \<Rightarrow> string \<Rightarrow> dict \<Rightarrow> dict \<Rightarrow> dict option \<Rightarrow> json \<Rightarrow> (store, unit) op" where
  "restore_rows sq oid raw m budget md =
     andthen (restore_mission sq oid m budget md)
     (bind (lift_res (rows_of ''steps'' raw)) (\<lambda>xs.
      andthen (each (restore_step sq oid) xs)
     (bind (lift_res (rows_of ''subgoals'' raw)) (\<lambda>gs.
      andthen (each (restore_subgoal sq oid) gs)
     (bind (lift_res (rows_of ''verifications'' raw)) (\<lambda>vs.
      each (restore_verification sq oid) vs))))))"

definition load_checkpoint :: "sqlite \<Rightarrow> json \<Rightarrow> (store, string) op" where
  "load_checkpoint sq j =
     bind (lift_res (as_object j)) (\<lambda>raw.
     bind (lift_res (item ''mission'' raw)) (\<lambda>mj.
     bind (lift_res (as_object mj)) (\<lambda>m.
     bind (lift_res (item ''id'' m)) (\<lambda>ij.
     let oid = py_str sq ij in
     bind (asks (has_mission oid)) (\<lambda>there.
     if there
     then raise (ValueError (''Cannot restore checkpoint: mission '' @ oid @ '' already exists''))
     else
       bind (lift_res (checkpoint_budget (get_or_null ''budget'' m))) (\<lambda>budget.
       let mdj = get_or_null ''metadata'' m; md = (if truthy mdj then mdj else JObj []) in
       andthen (transaction (restore_rows sq oid raw m budget md))
       (ret oid)))))))"

end
