(* ===== verification/Mission_Control.thy ===== *)
theory Mission_Control
  imports Mission_Run Mission_Checkpoint
begin

text \<open>
  The command verifiers of \<^verbatim>\<open>mission/verifiers.py\<close> and the workflows of
  \<^verbatim>\<open>mission/control_plane.py\<close>.

  Running a shell command is the operating system's work: the parameter \<open>sh_run\<close> gives the
  outcome of a command in a directory at a moment (the number of clock readings so far), and
  \<open>sh_decode\<close> the UTF-8 decoding of captured bytes. A verifier that the program registers is a
  closure; it is represented by what it closes over. \<open>UserVerifier\<close> stands for a callable of
  the manager's user.
\<close>

datatype captured = NoOutput | OutText string | OutBytes string

datatype proc_outcome =
    TimedOut captured captured
  | SpawnFailed string
  | Exited int string string

record shell =
  sh_run :: "nat \<Rightarrow> string \<Rightarrow> string \<Rightarrow> proc_outcome"
  sh_decode :: "string \<Rightarrow> string"

datatype code_verifier =
    CommandVerifier string string
  | CompositeVerifier "(string \<times> string) list"

datatype verifier = UserVerifier string | CodeVerifier code_verifier | FallbackVerifier string

record code_mission_spec =
  cs_name :: string
  cs_goal :: string
  cs_repo_path :: string
  cs_test_command :: string
  cs_lint_command :: "string option"
  cs_build_command :: "string option"
  cs_budget :: "budget option"
  cs_metadata :: dict

subsection \<open>Command verifiers\<close>

definition truncate_text :: "string \<Rightarrow> nat \<Rightarrow> string" where
  "truncate_text t n = take n (strip t)"

definition coerce_str :: "shell \<Rightarrow> captured \<Rightarrow> string" where
  "coerce_str sh c = (case c of NoOutput \<Rightarrow> [] | OutText t \<Rightarrow> t | OutBytes b \<Rightarrow> sh_decode sh b)"

definition command_result :: "shell \<Rightarrow> string \<Rightarrow> proc_outcome \<Rightarrow> verifier_result" where
  "command_result sh cmd p = (case p of
       TimedOut out err \<Rightarrow>
         \<lparr>vr_passed = False, vr_reason = ''Command '' @ py_repr cmd @ '' timed out after 120s'', vr_suggestions = [],
          vr_metadata = [(''command'', JStr cmd), (''timeout'', JBool True), (''exitCode'', JInt (-1)),
            (''stdout'', JStr (truncate_text (coerce_str sh out) 2000)),
            (''stderr'', JStr (truncate_text (coerce_str sh err) 2000))]\<rparr>
     | SpawnFailed err \<Rightarrow>
         \<lparr>vr_passed = False, vr_reason = ''Command '' @ py_repr cmd @ '' could not start: '' @ err, vr_suggestions = [],
          vr_metadata = [(''command'', JStr cmd), (''spawnFailed'', JBool True)]\<rparr>
     | Exited code out err \<Rightarrow>
         (if code = 0
          then \<lparr>vr_passed = True, vr_reason = ''Command '' @ [CHR 0x27] @ cmd @ [CHR 0x27] @ '' passed (exit 0)'',
                vr_suggestions = [], vr_metadata = [(''stdout'', JStr (strip out)), (''command'', JStr cmd)]\<rparr>
          else \<lparr>vr_passed = False,
                vr_reason = ''Command '' @ [CHR 0x27] @ cmd @ [CHR 0x27] @ '' failed (exit '' @ str_int code @ '')'',
                vr_suggestions = (if strip err \<noteq> [] then [''stderr: '' @ take 500 (strip err)] else []),
                vr_metadata = [(''command'', JStr cmd), (''exitCode'', JInt code),
                  (''stdout'', JStr (truncate_text out 2000)), (''stderr'', JStr (truncate_text err 2000))]\<rparr>))"

definition command_verify :: "shell \<Rightarrow> string \<Rightarrow> string \<Rightarrow> ('v mstate, verifier_result) op" where
  "command_verify sh cmd cwd =
     asks (\<lambda>s. command_result sh cmd (sh_run sh (ticks (st_world (mg_store s))) cmd cwd))"

definition fail_composite :: "string \<Rightarrow> verifier_result \<Rightarrow> verifier_result" where
  "fail_composite label r =
     \<lparr>vr_passed = False, vr_reason = vr_reason r, vr_suggestions = vr_suggestions r,
      vr_metadata = AList.update ''failedVerifier'' (JStr label) (vr_metadata r)\<rparr>"

text \<open>\<open>n\<close> is the number of all verifiers of the composite; the label of a command is the command.\<close>

fun composite_verify :: "(string \<times> ('s, verifier_result) op) list \<Rightarrow> nat \<Rightarrow> ('s, verifier_result) op" where
  "composite_verify [] n = ret \<lparr>vr_passed = True, vr_reason = ''All '' @ str_int (int n) @ '' verifier(s) passed'',
      vr_suggestions = [], vr_metadata = [(''verifierCount'', JInt (int n))]\<rparr>"
| "composite_verify ((label, m) # vs) n =
     bind m (\<lambda>r. if \<not> vr_passed r then ret (fail_composite label r) else composite_verify vs n)"

definition code_verify :: "shell \<Rightarrow> code_verifier \<Rightarrow> ('v mstate, verifier_result) op" where
  "code_verify sh v = (case v of
       CommandVerifier cmd cwd \<Rightarrow> command_verify sh cmd cwd
     | CompositeVerifier cs \<Rightarrow>
         composite_verify (map (\<lambda>(cmd, cwd). (cmd, command_verify sh cmd cwd)) cs) (length cs))"

definition nonempty :: "string option \<Rightarrow> string list" where
  "nonempty x = (case x of Some (c # cs) \<Rightarrow> [c # cs] | _ \<Rightarrow> [])"

definition build_code_mission_verifier :: "code_mission_spec \<Rightarrow> code_verifier" where
  "build_code_mission_verifier spec =
     (let cs = map (\<lambda>c. (c, cs_repo_path spec))
            (cs_test_command spec # nonempty (cs_lint_command spec) @ nonempty (cs_build_command spec))
      in if length cs = 1 then CommandVerifier (cs_test_command spec) (cs_repo_path spec)
         else CompositeVerifier cs)"

definition attach_code_mission_verifier :: "string \<Rightarrow> code_mission_spec \<Rightarrow> (verifier mstate, unit) op" where
  "attach_code_mission_verifier mid spec = set_verifier mid (CodeVerifier (build_code_mission_verifier spec))"

definition json_string :: "json option \<Rightarrow> string option" where
  "json_string j = (case j of Some (JStr x) \<Rightarrow> Some x | _ \<Rightarrow> None)"

definition rehydrate_mission_verifier :: "mission \<Rightarrow> (verifier mstate, bool) op" where
  "rehydrate_mission_verifier m =
     (if map_of (m_metadata m) ''missionType'' \<noteq> Some (JStr ''code'') then ret False
      else (case (json_string (map_of (m_metadata m) ''repoPath''), json_string (map_of (m_metadata m) ''testCommand'')) of
          (Some repo, Some test) \<Rightarrow>
            andthen (attach_code_mission_verifier (m_id m)
              \<lparr>cs_name = m_name m, cs_goal = m_goal m, cs_repo_path = repo, cs_test_command = test,
               cs_lint_command = json_string (map_of (m_metadata m) ''lintCommand''),
               cs_build_command = json_string (map_of (m_metadata m) ''buildCommand''),
               cs_budget = None, cs_metadata = []\<rparr>)
            (ret True)
        | _ \<Rightarrow> ret False))"

text \<open>Re-validating a validated specification gives it back.\<close>

definition code_mission_metadata :: "code_mission_spec \<Rightarrow> dict" where
  "code_mission_metadata spec =
     (let md = dict_merge (cs_metadata spec) [(''missionType'', JStr ''code''),
            (''repoPath'', JStr (cs_repo_path spec)), (''testCommand'', JStr (cs_test_command spec))];
          md1 = (case cs_lint_command spec of Some c \<Rightarrow> AList.update ''lintCommand'' (JStr c) md | None \<Rightarrow> md)
      in (case cs_build_command spec of Some c \<Rightarrow> AList.update ''buildCommand'' (JStr c) md1 | None \<Rightarrow> md1))"

definition create_code_mission :: "verifier env \<Rightarrow> code_mission_spec \<Rightarrow> (verifier mstate, string) op" where
  "create_code_mission env spec =
     bind (mgr_create env (cs_name spec) (cs_goal spec) (cs_budget spec) (Some (code_mission_metadata spec))) (\<lambda>mid.
     andthen (attach_code_mission_verifier mid spec) (ret mid))"

subsection \<open>The fallback verifier\<close>

definition fallback_result :: "mission_subgoal list \<Rightarrow> verifier_result" where
  "fallback_result gs =
     (if gs = []
      then \<lparr>vr_passed = False, vr_reason = ''No verifier registered'', vr_suggestions = [],
            vr_metadata = [(''autoVerifier'', JStr ''none'')]\<rparr>
      else
        (let remaining = filter (\<lambda>g. sg_status g \<notin> {''completed'', ''skipped''}) gs in
         if remaining = []
         then \<lparr>vr_passed = True, vr_reason = ''All subgoals completed'', vr_suggestions = [],
               vr_metadata = [(''autoVerifier'', JStr ''subgoals'')]\<rparr>
         else \<lparr>vr_passed = False, vr_reason = str_int (int (length remaining)) @ '' subgoal(s) remaining'',
               vr_suggestions = map sg_description (take 3 remaining),
               vr_metadata = [(''autoVerifier'', JStr ''subgoals''),
                 (''remainingSubgoalIds'', JList (map (JStr \<circ> sg_id) remaining))]\<rparr>))"

definition fallback_verify :: "string \<Rightarrow> ('v mstate, verifier_result) op" where
  "fallback_verify mid = bind (mgr_subgoals mid) (\<lambda>gs. ret (fallback_result gs))"

text \<open>The environment of the control plane: user verifiers and listeners are still parameters.\<close>

definition call_verifier ::
  "shell \<Rightarrow> (string \<Rightarrow> string \<Rightarrow> (verifier mstate, verifier_result raw) op) \<Rightarrow>
   verifier \<Rightarrow> string \<Rightarrow> (verifier mstate, verifier_result raw) op" where
  "call_verifier sh user v mid = (case v of
       UserVerifier n \<Rightarrow> user n mid
     | CodeVerifier c \<Rightarrow> bind (code_verify sh c) (\<lambda>r. ret (Plain r))
     | FallbackVerifier m \<Rightarrow> bind (fallback_verify m) (\<lambda>r. ret (Plain r)))"

definition control_env ::
  "shell \<Rightarrow> (string \<Rightarrow> string \<Rightarrow> (verifier mstate, verifier_result raw) op) \<Rightarrow>
   (string \<Rightarrow> mission_event \<Rightarrow> unit res) \<Rightarrow> bool \<Rightarrow> verifier env" where
  "control_env sh user listen loop =
     \<lparr>ev_verify = call_verifier sh user, ev_listen = listen, ev_loop = loop\<rparr>"

subsection \<open>Payloads\<close>

definition mission_checkpoint_dir :: "string list \<Rightarrow> string \<Rightarrow> string list" where
  "mission_checkpoint_dir runs_root mid = runs_root @ [''missions'', mid, ''checkpoints'']"

definition require_mission :: "string \<Rightarrow> ('v mstate, mission) op" where
  "require_mission mid = bind (mgr_get mid) (\<lambda>mo. case mo of
       None \<Rightarrow> raise (mission_not_found mid)
     | Some m \<Rightarrow> ret m)"

definition latest :: "verification list \<Rightarrow> json" where
  "latest vs = (if vs = [] then JNull else dump_verification (last vs))"

definition build_mission_status_payload :: "string \<Rightarrow> ('v mstate, json) op" where
  "build_mission_status_payload mid =
     bind (require_mission mid) (\<lambda>m.
     bind (mgr_steps mid) (\<lambda>xs.
     bind (mgr_subgoals mid) (\<lambda>gs.
     bind (mgr_verifications mid) (\<lambda>vs.
     bind (mgr_budget_usage mid) (\<lambda>u.
     ret (case dump_mission m of
         JObj d \<Rightarrow> JObj (dict_merge d [(''stepsCount'', JInt (int (length xs))),
           (''subgoalCount'', JInt (int (length gs))), (''verificationCount'', JInt (int (length vs))),
           (''budgetUsage'', dump_usage u), (''latestVerification'', latest vs)])
       | j \<Rightarrow> j))))))"

definition build_mission_result_payload :: "string \<Rightarrow> ('v mstate, json) op" where
  "build_mission_result_payload mid =
     bind (require_mission mid) (\<lambda>m.
     bind (mgr_steps mid) (\<lambda>xs.
     bind (mgr_subgoals mid) (\<lambda>gs.
     bind (mgr_verifications mid) (\<lambda>vs.
     bind (mgr_budget_usage mid) (\<lambda>u.
     ret (JObj [(''mission'', dump_mission m), (''steps'', JList (map dump_step xs)),
       (''subgoals'', JList (map dump_subgoal gs)), (''verifications'', JList (map dump_verification vs)),
       (''budgetUsage'', dump_usage u), (''latestVerification'', latest vs)]))))))"

definition write_mission_checkpoint :: "string \<Rightarrow> string list \<Rightarrow> ('v mstate, string list \<times> json) op" where
  "write_mission_checkpoint mid runs_root =
     bind (require_mission mid) (\<lambda>_. on_store (save_checkpoint mid (mission_checkpoint_dir runs_root mid)))"

subsection \<open>The mission loop\<close>

definition open_subgoal :: "mission_subgoal \<Rightarrow> bool" where
  "open_subgoal g \<longleftrightarrow> sg_status g \<in> {''pending'', ''active''}"

text \<open>The executor closes over the counter of its own calls, here the argument \<open>i\<close>.\<close>

definition legacy_description :: "string \<Rightarrow> int \<Rightarrow> string option \<Rightarrow> int \<Rightarrow> string" where
  "legacy_description goal max_iterations explicit i = (case explicit of
       Some d \<Rightarrow> d
     | None \<Rightarrow> (if max_iterations = 1 then ''Advance mission toward goal: '' @ goal
                else ''Advance mission toward goal ('' @ str_int i @ ''/'' @ str_int max_iterations @ ''): '' @ goal))"

definition legacy_executor :: "string \<Rightarrow> int \<Rightarrow> string option \<Rightarrow> (int \<Rightarrow> 'v executor)" where
  "legacy_executor goal max_iterations explicit i mid =
     bind (mgr_subgoals mid) (\<lambda>gs. case find open_subgoal gs of
       Some g \<Rightarrow>
         andthen (mgr_update_subgoal (sg_id g) ''completed'')
         (ret (Plain \<lparr>sr_description = ''Completed subgoal: '' @ sg_description g, sr_status = StepCompleted,
                     sr_block_reason = None\<rparr>))
     | None \<Rightarrow>
         ret (Plain \<lparr>sr_description = legacy_description goal max_iterations explicit i,
                    sr_status = StepCompleted, sr_block_reason = None\<rparr>))"

definition explicit_description :: "string option \<Rightarrow> string option" where
  "explicit_description d = (case d of
       Some x \<Rightarrow> (if x \<noteq> [] \<and> strip x \<noteq> [] then Some (strip x) else None)
     | None \<Rightarrow> None)"

definition run_legacy_mission_loop ::
  "'v env \<Rightarrow> string \<Rightarrow> string \<Rightarrow> int \<Rightarrow> string option \<Rightarrow> ('v mstate, run_result) op" where
  "run_legacy_mission_loop env mid goal max_iterations description =
     run_until_done env (legacy_executor goal max_iterations (explicit_description description)) max_iterations mid"

definition ensure_verifier :: "string \<Rightarrow> mission \<Rightarrow> (verifier mstate, unit) op" where
  "ensure_verifier mid m =
     bind (has_verifier mid) (\<lambda>h.
     andthen (if h then ret () else bind (rehydrate_mission_verifier m) (\<lambda>_. ret ()))
     (bind (has_verifier mid) (\<lambda>h2.
      if h2 then ret () else set_verifier mid (FallbackVerifier mid))))"

record mission_loop_result =
  ml_id :: string
  ml_final :: string
  ml_steps :: int
  ml_passed :: bool
  ml_latest :: json
  ml_checkpoint :: "string list"
  ml_payload :: json  \<comment> \<open>what the checkpoint file holds\<close>

text \<open>A code mission whose last verification failed and that is still active is marked failed.\<close>

definition settle_code_mission ::
  "'v env \<Rightarrow> string \<Rightarrow> json option \<Rightarrow> verification list \<Rightarrow> run_result \<Rightarrow> ('v mstate, string) op" where
  "settle_code_mission env mid mission_type vs r =
     (if mission_type = Some (JStr ''code'') \<and> vs \<noteq> [] \<and> \<not> mv_passed (last vs) \<and> rr_final r = ''active''
      then andthen (set_status env mid ''failed'') (ret ''failed'')
      else ret (rr_final r))"

definition run_mission_loop ::
  "verifier env \<Rightarrow> string \<Rightarrow> string list \<Rightarrow> int \<Rightarrow> string option \<Rightarrow> (verifier mstate, mission_loop_result) op" where
  "run_mission_loop env mid runs_root max_iterations description =
     bind (require_mission mid) (\<lambda>m.
     andthen (ensure_verifier mid m)
     (bind (run_legacy_mission_loop env mid (m_goal m) max_iterations description) (\<lambda>r.
      bind (mgr_verifications mid) (\<lambda>vs.
      bind (settle_code_mission env mid (map_of (m_metadata m) ''missionType'') vs r) (\<lambda>final.
      bind (write_mission_checkpoint mid runs_root) (\<lambda>(path, payload).
      ret \<lparr>ml_id = mid, ml_final = final, ml_steps = rr_steps r, ml_passed = rr_passed r,
           ml_latest = latest vs, ml_checkpoint = path, ml_payload = payload\<rparr>))))))"

subsection \<open>The program's own verifiers only read\<close>

lemma pure_on_store: "pure_op m \<Longrightarrow> pure_op (on_store m)"
  by (simp add: pure_op_def on_store_def split_beta)

lemma pure_command [pure_intros]: "pure_op (command_verify sh a b)"
  unfolding command_verify_def by (intro pure_intros)

lemma pure_composite [pure_intros]:
  "(\<And>p. p \<in> set vs \<Longrightarrow> pure_op (snd p)) \<Longrightarrow> pure_op (composite_verify vs n)"
proof (induction vs)
  case Nil
  show ?case unfolding composite_verify.simps by (rule pure_ret)
next
  case (Cons p vs)
  obtain l m where p: "p = (l, m)" by fastforce
  have "pure_op m" using Cons.prems [of p] p by simp
  moreover have "pure_op (composite_verify vs n)" using Cons by simp
  ultimately show ?case unfolding p composite_verify.simps by (intro pure_intros)
qed

lemma pure_code [pure_intros]: "pure_op (code_verify sh c)"
  by (cases c) (auto simp: code_verify_def intro!: pure_intros)

lemma pure_fallback [pure_intros]: "pure_op (fallback_verify m)"
  unfolding fallback_verify_def mgr_subgoals_def get_subgoals_def by (intro pure_intros pure_on_store)

lemma pure_call_verifier:
  "(\<And>n. v = UserVerifier n \<Longrightarrow> pure_op (user n mid)) \<Longrightarrow> pure_op (call_verifier sh user v mid)"
  by (cases v) (auto simp: call_verifier_def intro: pure_intros)

end
