(* ===== verification/Mission_Claims.thy ===== *)
theory Mission_Claims
  imports Mission_Budget Mission_Control
begin

text \<open>The properties of the mission store, manager and step loop, with a concrete run for their witnesses.\<close>

subsection \<open>A concrete mission\<close>

definition demo_shell :: shell where
  "demo_shell = \<lparr>sh_run = (\<lambda>_ cmd _. if cmd = ''true'' then Exited 0 '''' '''' else Exited 1 '''' ''boom''),
     sh_decode = id\<rparr>"

definition demo_user :: "string \<Rightarrow> string \<Rightarrow> (verifier mstate, verifier_result raw) op" where
  "demo_user n mid = ret (Plain \<lparr>vr_passed = True, vr_reason = n, vr_suggestions = [], vr_metadata = []\<rparr>)"

definition demo_env :: "verifier env" where
  "demo_env = control_env demo_shell demo_user (\<lambda>_ _. Inr ()) False"

definition demo_mid :: string where
  "demo_mid = ''mission-aaaaaaaa''"

definition demo_budget :: "int \<Rightarrow> budget" where
  "demo_budget n = \<lparr>max_steps = Some n, max_cost_usd = None, max_duration_minutes = None\<rparr>"

text \<open>A mission with two subgoals and a cap on its steps; the user's verifier always passes.\<close>

definition demo_setup :: "int \<Rightarrow> (verifier mstate, unit) op" where
  "demo_setup n = bind (mgr_create demo_env ''m'' ''g'' (Some (demo_budget n)) None) (\<lambda>mid.
     bind (mgr_add_subgoal mid ''a'' 1) (\<lambda>_.
     bind (mgr_add_subgoal mid ''b'' 2) (\<lambda>_.
     set_verifier mid (FallbackVerifier mid))))"

definition demo_mission :: "int \<Rightarrow> verifier mstate" where
  "demo_mission n = snd (demo_setup n (create_manager demo_world None))"

definition demo_executor :: "int \<Rightarrow> verifier executor" where
  "demo_executor = legacy_executor ''g'' 5 None"

definition demo_outcome :: "int \<Rightarrow> run_result res \<times> verifier mstate" where
  "demo_outcome n = run_until_done demo_env demo_executor 5 demo_mid (demo_mission n)"

lemma demo_runs:
  "fst (demo_outcome 9) = Inr \<lparr>rr_final = ''completed'', rr_steps = 2, rr_passed = True\<rparr>"
  "fst (demo_outcome 1) = Inr \<lparr>rr_final = ''budget_exhausted'', rr_steps = 1, rr_passed = False\<rparr>"
  by code_simp+

subsection \<open>The run reports the truth\<close>

text \<open>
  Whatever the executor and the verifiers do, if the event listeners only observe: when a run of the
  step loop with at least one iteration returns, the final status that it reports is the status that the database holds, the
  number of steps it reports is at most the number of iterations, and it reports a passed
  verification only for a mission that is completed.
\<close>

theorem run_reports_database_status:
  assumes "run_until_done env ex k mid s = (Inr r, s')" and "1 \<le> k"
  shows "status_of mid s' = Some (rr_final r) \<and> 0 \<le> rr_steps r \<and> rr_steps r \<le> k \<and>
    (rr_passed r \<longrightarrow> rr_final r = ''completed'')"
  using run_loop_Inr [of "nat k" env ex mid 1 0 s r s'] assms
  by (auto simp: run_until_done_def)

theorem run_reports_database_status_witness:
  "status_of demo_mid (snd (demo_outcome 9)) = Some ''completed'' \<and>
   status_of demo_mid (snd (demo_outcome 1)) = Some ''budget_exhausted''"
proof -
  have "run_until_done demo_env demo_executor 5 demo_mid (demo_mission 9) =
      (Inr \<lparr>rr_final = ''completed'', rr_steps = 2, rr_passed = True\<rparr>, snd (demo_outcome 9))"
    using demo_runs(1) by (metis demo_outcome_def prod.collapse)
  moreover have "run_until_done demo_env demo_executor 5 demo_mid (demo_mission 1) =
      (Inr \<lparr>rr_final = ''budget_exhausted'', rr_steps = 1, rr_passed = False\<rparr>, snd (demo_outcome 1))"
    using demo_runs(2) by (metis demo_outcome_def prod.collapse)
  ultimately show ?thesis using run_reports_database_status by fastforce
qed

subsection \<open>Completed is final\<close>

lemma demo_env_pure: "pure_op (ev_verify demo_env v m)"
  unfolding demo_env_def control_env_def env.simps
  by (rule pure_call_verifier) (simp add: demo_user_def pure_ret)

lemma demo_env_leaves: "leaves_missions (ev_verify demo_env v m)"
  using demo_env_pure [of v m] by (simp add: pure_op_def leaves_missions_def)

lemma legacy_executor_leaves: "leaves_missions (legacy_executor g k d i m)"
  by (auto simp: legacy_executor_def leaves_missions_def bind_def mgr_subgoals_def get_subgoals_def andthen_def
      mgr_update_subgoal_def update_subgoal_missions split: option.splits sum.splits)

text \<open>
  C24. Once a mission is completed it stays completed, through any sequence of manager calls and
  whole runs (creating missions, recording steps, subgoals, verifications, pausing, resuming,
  canceling, setting any status), as long as the verifiers and executors that the users supply do
  not write to the table of missions themselves.
\<close>

theorem completed_mission_final:
  assumes "\<And>v m. leaves_missions (ev_verify env v m)"
    and "\<And>ex i m. ex \<in> exs \<Longrightarrow> leaves_missions (ex i m)"
    and "(mgr_step env exs)\<^sup>*\<^sup>* s s'" and "status_of mid s = Some ''completed''"
  shows "status_of mid s' = Some ''completed''"
  using assms(3,4)
  by (induction rule: rtranclp_induct)
     (simp, metis assms(1,2) completed_status mgr_step_completed)

theorem completed_mission_final_witness:
  "status_of demo_mid (snd (demo_outcome 9)) = Some ''completed'' \<and>
   status_of demo_mid (snd (cancel_mission demo_env demo_mid (snd (demo_outcome 9)))) = Some ''completed''"
proof -
  have final: "status_of demo_mid (snd (demo_outcome 9)) = Some ''completed''" by code_simp
  have "mgr_step demo_env {demo_executor} (snd (demo_outcome 9)) (snd (cancel_mission demo_env demo_mid (snd (demo_outcome 9))))"
    by (rule pause_resume_cancel_step)
  then have "(mgr_step demo_env {demo_executor})\<^sup>*\<^sup>* (snd (demo_outcome 9))
      (snd (cancel_mission demo_env demo_mid (snd (demo_outcome 9))))" ..
  with final show ?thesis
    using completed_mission_final [of demo_env "{demo_executor}", OF demo_env_leaves]
    by (auto simp: demo_executor_def legacy_executor_leaves)
qed

subsection \<open>The store is always readable\<close>

text \<open>
  C23. From an empty database, every sequence of manager calls and runs leads to a database in
  which every read returns: any mission, the list of missions, any mission's verifications and
  its budget usage. Primary and foreign keys hold, and no status outside the declared sets is
  ever stored. (The supplied verifiers and executors must preserve the same invariant.)
\<close>

theorem store_stays_readable:
  assumes "\<And>v m. keeps (\<lambda>s. store_ok (mg_store s)) (ev_verify env v m)"
    and "\<And>ex i m. ex \<in> exs \<Longrightarrow> keeps (\<lambda>s. store_ok (mg_store s)) (ex i m)"
    and "(mgr_step env exs)\<^sup>*\<^sup>* (create_manager w events) s"
  shows "store_ok (mg_store s) \<and> (\<exists>m. get_mission mid (mg_store s) = (Inr m, mg_store s)) \<and>
    (\<exists>ms. list_missions x (mg_store s) = (Inr ms, mg_store s)) \<and>
    (\<exists>vs. get_verifications mid (mg_store s) = (Inr vs, mg_store s)) \<and>
    (\<exists>u. get_budget_usage mid (mg_store s) = (Inr u, mg_store s))"
proof -
  have "store_ok (mg_store s)" using assms(3)
  proof (induction rule: rtranclp_induct)
    case base
    show ?case by (simp add: create_manager_def store_ok_empty)
  next
    case (step y z)
    show ?case by (rule mgr_step_store_ok [OF step.hyps(2)]) (auto intro: assms(1,2) step.IH)
  qed
  then show ?thesis
    using get_mission_total list_missions_total get_verifications_total get_budget_usage_total by metis
qed

lemma legacy_executor_store_ok: "keeps (\<lambda>s. store_ok (mg_store s)) (legacy_executor g k d i m)"
proof -
  have "keeps store_ok (get_subgoals m)" by (rule keepsI) (simp add: get_subgoals_def)
  then show ?thesis unfolding legacy_executor_def mgr_subgoals_def
    by (intro keeps_intros keeps_on_store wf_store.kp_subgoals)
qed

lemma demo_steps: "(mgr_step demo_env {demo_executor})\<^sup>*\<^sup>* (create_manager demo_world None)
    (snd (mgr_create demo_env ''m'' ''g'' (Some (demo_budget 9)) None (create_manager demo_world None)))"
  by (rule r_into_rtranclp, rule ms_create) (auto simp: demo_budget_def valid_budget_def positive_def)

theorem store_stays_readable_witness:
  "\<exists>ms. list_missions None (mg_store (snd (mgr_create demo_env ''m'' ''g'' (Some (demo_budget 9)) None
     (create_manager demo_world None)))) = (Inr ms, mg_store (snd (mgr_create demo_env ''m'' ''g'' (Some (demo_budget 9)) None
     (create_manager demo_world None))))"
proof -
  have "keeps (\<lambda>s. store_ok (mg_store s)) (ev_verify demo_env v m)" for v m
    by (rule pure_keeps [OF demo_env_pure])
  from store_stays_readable [OF this _ demo_steps] show ?thesis
    by (auto simp: demo_executor_def legacy_executor_store_ok)
qed

subsection \<open>The step budget\<close>

text \<open>
  C13. A run of the step loop never records more steps for a mission than its budget allows: if
  the mission has a cap of \<open>n\<close> steps, then after the run, whether it returned or raised, the
  mission has at most \<open>n\<close> steps, or as many as it had before if these were already more. The
  executor may return, fail, block or raise as it likes, but records no steps itself.
\<close>

theorem run_respects_step_budget:
  assumes "\<And>v m. leaves_tables (ev_verify env v m)" and "\<And>i m. leaves_tables (ex i m)"
    and "cap_in mid (mg_store s) = Some n"
  shows "steps_in mid (mg_store (snd (run_until_done env ex k mid s))) \<le> max n (steps_in mid (mg_store s))"
proof -
  let ?c = "max n (steps_in mid (mg_store s))"
  have "under_cap mid n ?c (mg_store s)" using assms(3) by (simp add: under_cap_def)
  moreover have "keeps (\<lambda>s. under_cap mid n ?c (mg_store s)) (run_until_done env ex k mid)"
    by (rule keeps_under_cap_run) (simp_all add: assms(1,2))
  ultimately have "under_cap mid n ?c (mg_store (snd (run_until_done env ex k mid s)))"
    by (rule keepsD [rotated])
  then show ?thesis by (simp add: under_cap_def)
qed

lemma legacy_executor_tables: "leaves_tables (legacy_executor g k d i m)"
proof -
  have "t_steps (snd (update_subgoal_status a x st)) = t_steps st" for a x st
  proof (cases "x \<in> set subgoal_statuses")
    case True
    obtain d w where "completion_timestamp x subgoal_terminal_statuses st = (Inr d, st\<lparr>st_world := w\<rparr>)"
      using completion_effect by blast
    with True show ?thesis
      by (simp add: update_subgoal_status_def require_known_status_def bind_def andthen_def)
  qed (simp add: update_subgoal_status_def require_known_status_def bind_def andthen_def)
  then show ?thesis
    by (auto simp: legacy_executor_def leaves_tables_def bind_def mgr_subgoals_def get_subgoals_def andthen_def
      mgr_update_subgoal_def update_subgoal_missions split: option.splits sum.splits)
qed

theorem run_respects_step_budget_witness:
  "cap_in demo_mid (mg_store (demo_mission 1)) = Some 1 \<and> steps_in demo_mid (mg_store (snd (demo_outcome 1))) \<le> 1"
proof -
  have cap: "cap_in demo_mid (mg_store (demo_mission 1)) = Some 1" by code_simp
  have "steps_in demo_mid (mg_store (demo_mission 1)) = 0" by code_simp
  moreover have "leaves_tables (ev_verify demo_env v m)" for v m
    using demo_env_pure [of v m] by (simp add: pure_op_def leaves_tables_def)
  ultimately show ?thesis
    using run_respects_step_budget [of demo_env demo_executor, OF _ _ cap, of 5] cap
    by (simp add: demo_outcome_def demo_executor_def legacy_executor_tables)
qed

subsection \<open>Transitions\<close>

lemma transition_runs:
  assumes "get_mission mid (mg_store s) = (Inr (Some m), mg_store s)"
  shows "resolve_mission_status_transition (Some (m_status m)) x = Inl e \<Longrightarrow> transition_mission_status env mid x s = (Inl e, s)"
    and "resolve_mission_status_transition (Some (m_status m)) x = Inr t \<Longrightarrow>
      status_of mid (snd (transition_mission_status env mid x s)) = Some x"
proof -
  show "resolve_mission_status_transition (Some (m_status m)) x = Inl e \<Longrightarrow> transition_mission_status env mid x s = (Inl e, s)"
    using assms by (simp add: transition_mission_status_def bind_def)
  assume t: "resolve_mission_status_transition (Some (m_status m)) x = Inr t"
  then have "allowed (m_status m) x" using transition_allowed by blast
  then have "x \<in> set mission_statuses" by (rule allowed_target)
  then obtain tt d w where upd: "update_mission_status mid x (mg_store s) = (Inr (), (mg_store s)\<lparr>st_world := w,
      t_missions := update_by rw_id mid (\<lambda>r. r\<lparr>rw_status := x, rw_updated_at := tt, rw_completed_at := d\<rparr>)
        (t_missions (mg_store s))\<rparr>)"
    using update_mission_status_effect by blast
  let ?s2 = "s\<lparr>mg_store := (mg_store s)\<lparr>st_world := w,
      t_missions := update_by rw_id mid (\<lambda>r. r\<lparr>rw_status := x, rw_updated_at := tt, rw_completed_at := d\<rparr>)
        (t_missions (mg_store s))\<rparr>\<rparr>"
  have "\<exists>r. find_by rw_id mid (t_missions (mg_store s)) = Some r"
    using assms by (auto simp: get_mission_Inr split: option.splits)
  then have s2: "status_of mid ?s2 = Some x" by (auto simp: status_of_def status_update_by)
  have "tr_next t = x" using t by (auto simp: transition_Inr)
  then have eq: "transition_mission_status env mid x s =
      (if tr_emit t then emit_status_change env mid (m_status m) x else ret ()) ?s2"
    using assms t upd by (simp add: transition_mission_status_def bind_def andthen_def)
  have em: "status_of mid (snd (emit_status_change env mid (m_status m) x ?s2)) = Some x"
    unfolding emit_status_change_def tables_fields(3) [OF emit_tables] by (rule s2)
  show "status_of mid (snd (transition_mission_status env mid x s)) = Some x"
    unfolding eq by (cases "tr_emit t") (simp_all only: if_True if_False em ret_run snd_conv s2)
qed

text \<open>
  Setting the status of an existing mission obeys the transition table exactly: a listed
  transition leaves the mission in the new status (even if a listener of the status event then
  raises), any other raises \<open>ValueError\<close> and changes nothing at all, not even the clock.
\<close>

theorem set_status_follows_table:
  assumes "store_ok (mg_store s)" and "status_of mid s = Some p"
  shows "if allowed p x
    then status_of mid (snd (set_status env mid x s)) = Some x
    else set_status env mid x s = (Inl (ValueError (''Invalid mission status transition: '' @ p @ '' -> '' @ x)), s)"
proof -
  from assms(2) obtain r where r: "r \<in> set (t_missions (mg_store s))" "rw_id r = mid" "rw_status r = p"
    by (auto simp: status_of_def dest: find_by_SomeD)
  obtain m where m: "mission_from_row r = Inr m"
    and "get_mission (rw_id r) (mg_store s) = (Inr (Some m), mg_store s)"
    by (rule store_ok_row [OF assms(1) r(1)])
  with r(2) have g: "get_mission mid (mg_store s) = (Inr (Some m), mg_store s)" by simp
  have p: "m_status m = p" using mission_from_row_fields(2) [OF m] r(3) by simp
  then have known: "p \<in> set mission_statuses" using mission_from_row_fields(6) [OF m] by simp
  show ?thesis
  proof (cases "allowed p x")
    case True
    then show ?thesis
      using transition_runs(2) [OF g] p transition_from_Some [OF True] by (simp add: set_status_def)
  next
    case False
    have "map_of allowed_transitions p \<noteq> None"
      using allowed_refl [OF known] by (auto simp: allowed_def split: option.splits)
    with False have "resolve_mission_status_transition (Some p) x =
        Inl (ValueError (''Invalid mission status transition: '' @ p @ '' -> '' @ x))"
      by (auto simp: resolve_mission_status_transition_def can_transition_mission_status_def allowed_def
          split: option.splits)
    with False transition_runs(1) [OF g] p show ?thesis by (simp add: set_status_def)
  qed
qed

lemma demo_store_ok: "store_ok (mg_store (demo_mission n))" if "0 < n"
proof -
  have b: "\<And>x. Some (demo_budget n) = Some x \<Longrightarrow> valid_budget x"
    using that by (auto simp: demo_budget_def valid_budget_def positive_def)
  have "keeps (\<lambda>s. store_ok (mg_store s)) (set_verifier m v)" for m :: string and v :: verifier
    by (rule keepsI) (simp add: set_verifier_def)
  then have "keeps (\<lambda>s. store_ok (mg_store s)) (demo_setup n)"
    unfolding demo_setup_def by (intro keeps_intros wf_store.kp_create wf_store.kp_subgoals b)
  moreover have "store_ok (mg_store (create_manager demo_world None))"
    by (simp add: create_manager_def store_ok_empty)
  ultimately show ?thesis unfolding demo_mission_def by (rule keepsD)
qed

theorem set_status_follows_table_witness:
  "status_of demo_mid (snd (set_status demo_env demo_mid ''paused'' (demo_mission 1))) = Some ''paused'' \<and>
   set_status demo_env demo_mid ''resumed'' (demo_mission 1) =
     (Inl (ValueError ''Invalid mission status transition: active -> resumed''), demo_mission 1)"
proof -
  have st: "status_of demo_mid (demo_mission 1) = Some ''active''" by code_simp
  have "allowed ''active'' ''paused''" and "\<not> allowed ''active'' ''resumed''" by code_simp+
  with set_status_follows_table [OF demo_store_ok st, of "''paused''" demo_env]
    set_status_follows_table [OF demo_store_ok st, of "''resumed''" demo_env]
  show ?thesis by simp
qed

subsection \<open>Verification\<close>

definition passing :: verifier_result where
  "passing = \<lparr>vr_passed = True, vr_reason = ''ok'', vr_suggestions = [], vr_metadata = []\<rparr>"

text \<open>
  C17. A passing verification of a mission whose status does not allow completion is rejected as a
  whole: the call raises \<open>ValueError\<close>, records no verification, emits no event and leaves the
  manager exactly as the verifier left it.
\<close>

theorem verify_validates_first:
  assumes "map_of (mg_verifiers s) mid = Some v" and "ev_verify env v mid s = (Inr (Plain r), s1)" and "vr_passed r"
    and "store_ok (mg_store s1)" and "status_of mid s1 = Some p" and "p \<notin> {''active'', ''completed''}"
  shows "verify env mid s = (Inl (ValueError (''Invalid mission status transition: '' @ p @ '' -> completed'')), s1)"
proof -
  from assms(5) obtain q where q: "q \<in> set (t_missions (mg_store s1))" "rw_id q = mid" "rw_status q = p"
    by (auto simp: status_of_def dest: find_by_SomeD)
  obtain m where m: "mission_from_row q = Inr m"
    and "get_mission (rw_id q) (mg_store s1) = (Inr (Some m), mg_store s1)"
    by (rule store_ok_row [OF assms(4) q(1)])
  with q(2) have g: "get_mission mid (mg_store s1) = (Inr (Some m), mg_store s1)" by simp
  have p: "m_status m = p" using mission_from_row_fields(2) [OF m] q(3) by simp
  then have known: "p \<in> set mission_statuses" using mission_from_row_fields(6) [OF m] by simp
  have "\<not> allowed p ''completed''" using assms(6) by (simp add: allowed_to_completed)
  moreover have "map_of allowed_transitions p \<noteq> None"
    using allowed_refl [OF known] by (auto simp: allowed_def split: option.splits)
  ultimately have bad: "resolve_mission_status_transition (Some p) ''completed'' =
      Inl (ValueError (''Invalid mission status transition: '' @ p @ '' -> completed''))"
    by (auto simp: resolve_mission_status_transition_def can_transition_mission_status_def allowed_def
        split: option.splits)
  let ?out = "resolve_mission_verification_outcome r"
  have out: "run_verifier env v mid s = (Inr ?out, s1)"
    using assms(2) by (simp add: run_verifier_def catch_def)
  have "vo_next ?out = Some ''completed''"
    using assms(3) by (simp add: resolve_mission_verification_outcome_def derive_mission_status_from_verifier_result_def)
  then have "verify_transition mid ?out s1 = (Inl (ValueError (''Invalid mission status transition: '' @ p @ '' -> completed'')), s1)"
    using g p bad by (simp add: verify_transition_def bind_def)
  then show ?thesis
    using assms(1) out by (simp add: verify_def bind_def)
qed

definition demo_paused :: "verifier mstate" where
  "demo_paused = snd (andthen (set_verifier demo_mid (UserVerifier ''ok''))
     (pause_mission demo_env demo_mid) (demo_mission 1))"

theorem verify_validates_first_witness:
  "verify demo_env demo_mid demo_paused =
     (Inl (ValueError ''Invalid mission status transition: paused -> completed''), demo_paused)"
proof -
  have v: "map_of (mg_verifiers demo_paused) demo_mid = Some (UserVerifier ''ok'')" by code_simp
  have e: "ev_verify demo_env (UserVerifier ''ok'') demo_mid demo_paused =
      (Inr (Plain passing), demo_paused)"
    by (simp add: passing_def demo_env_def control_env_def call_verifier_def demo_user_def)
  have ok: "store_ok (mg_store demo_paused)"
  proof -
    have sv: "keeps (\<lambda>s. store_ok (mg_store s)) (set_verifier m v)" for m :: string and v :: verifier
      by (rule keepsI) (simp add: set_verifier_def)
    have "keeps (\<lambda>s. store_ok (mg_store s)) (andthen (set_verifier demo_mid (UserVerifier ''ok''))
        (pause_mission demo_env demo_mid))"
      unfolding pause_mission_def by (intro keeps_intros sv wf_store.kp_transition)
    then show ?thesis unfolding demo_paused_def by (rule keepsD) (simp add: demo_store_ok)
  qed
  have st: "status_of demo_mid demo_paused = Some ''paused''" by code_simp
  show ?thesis
    using verify_validates_first [OF v e _ ok st] by (simp add: passing_def)
qed

end
