(* ===== verification/Mission_Loop.thy ===== *)
theory Mission_Loop
  imports Mission_Control Mission_Contracts
begin

text \<open>
  Progress of the mission loop with the subgoal executor and the fallback verifier: every
  iteration closes one open subgoal and goes on until none is left, then the mission is
  completed. Two conditions carry the induction: \<open>ready\<close>, what the tables hold, and
  \<open>fresh_ids\<close>, that the next identifiers to be drawn are new (otherwise an insert fails).
\<close>

subsection \<open>Conditions\<close>

definition next_id :: "store \<Rightarrow> nat \<Rightarrow> string" where
  "next_id st i = take 8 (uuids (st_world st) (drawn (st_world st) + i))"

definition fresh_ids :: "nat \<Rightarrow> store \<Rightarrow> bool" where
  "fresh_ids k st \<longleftrightarrow> distinct (map (next_id st) [0..<k]) \<and>
     (\<forall>i \<in> set [0..<k]. ''step-'' @ next_id st i \<notin> ms_id ` set (t_steps st) \<and>
        ''verify-'' @ next_id st i \<notin> vw_id ` set (t_verifications st))"

definition mission_subgoals :: "string \<Rightarrow> store \<Rightarrow> mission_subgoal list" where
  "mission_subgoals mid st = filter (\<lambda>g. sg_mission g = mid) (t_subgoals st)"

definition open_count :: "string \<Rightarrow> store \<Rightarrow> nat" where
  "open_count mid st = length (filter open_subgoal (mission_subgoals mid st))"

definition unlimited_active :: "string \<Rightarrow> store \<Rightarrow> bool" where
  "unlimited_active mid st \<longleftrightarrow> (\<exists>m. get_mission mid st = (Inr (Some m), st) \<and> m_status m = ''active'' \<and>
     (case m_budget m of None \<Rightarrow> True | Some b \<Rightarrow> max_steps b = None))"

definition settled_statuses :: "string set" where
  "settled_statuses = {''pending'', ''active'', ''completed'', ''skipped''}"

definition ready :: "string \<Rightarrow> nat \<Rightarrow> store \<Rightarrow> bool" where
  "ready mid n st \<longleftrightarrow> unlimited_active mid st \<and> open_count mid st = n \<and> mission_subgoals mid st \<noteq> [] \<and>
     (\<forall>g \<in> set (mission_subgoals mid st). sg_status g \<in> settled_statuses) \<and> distinct (map sg_id (t_subgoals st))"

definition watched :: "string \<Rightarrow> verifier mstate \<Rightarrow> bool" where
  "watched mid s \<longleftrightarrow> mg_events s = None \<and> map_of (mg_verifiers s) mid = Some (FallbackVerifier mid)"

subsection \<open>The tables that the conditions read\<close>

lemma ready_cong:
  assumes "t_missions st' = t_missions st" and "t_subgoals st' = t_subgoals st"
  shows "ready mid n st' = ready mid n st"
proof -
  have "unlimited_active mid st' = unlimited_active mid st"
    using assms(1) by (simp add: unlimited_active_def get_mission_Inr)
  then show ?thesis using assms(2) by (simp add: ready_def open_count_def mission_subgoals_def)
qed

lemma fresh_ids_cong:
  assumes "t_steps st' = t_steps st" and "t_verifications st' = t_verifications st"
    and "uuids (st_world st') = uuids (st_world st)" and "drawn (st_world st') = drawn (st_world st)"
  shows "fresh_ids k st' = fresh_ids k st"
proof -
  have "next_id st' = next_id st" by (rule ext) (simp add: next_id_def assms(3,4))
  then show ?thesis using assms(1,2) by (simp add: fresh_ids_def)
qed

lemma unlimited_has: "unlimited_active mid st \<Longrightarrow> has_mission mid st"
  by (rule ccontr) (auto simp: unlimited_active_def get_mission_None)

lemma fresh_ids_Suc:
  assumes "fresh_ids (Suc k) st"
    and "uuids (st_world st') = uuids (st_world st)" and "drawn (st_world st') = Suc (drawn (st_world st))"
    and "ms_id ` set (t_steps st') \<subseteq> insert (''step-'' @ next_id st 0) (ms_id ` set (t_steps st))"
    and "vw_id ` set (t_verifications st') \<subseteq> insert (''verify-'' @ next_id st 0) (vw_id ` set (t_verifications st))"
  shows "fresh_ids k st'"
proof -
  have shift: "next_id st' i = next_id st (Suc i)" for i
    using assms(2,3) by (simp add: next_id_def)
  have d: "distinct (map (next_id st) [0..<Suc k])" and f: "\<forall>i < Suc k. ''step-'' @ next_id st i \<notin> ms_id ` set (t_steps st) \<and>
      ''verify-'' @ next_id st i \<notin> vw_id ` set (t_verifications st)"
    using assms(1) by (auto simp: fresh_ids_def simp del: upt_Suc)
  have d2: "distinct (map (next_id st') [0..<k])" and ne: "\<And>i. i < k \<Longrightarrow> next_id st (Suc i) \<noteq> next_id st 0"
  proof -
    have "inj_on (next_id st) {0..<Suc k}" using d unfolding distinct_map set_upt by blast
    then have "inj_on (next_id st') {0..<k}"
      using shift by (intro inj_onI) (auto dest: inj_onD)
    then show "distinct (map (next_id st') [0..<k])" unfolding distinct_map set_upt by simp
    show "\<And>i. i < k \<Longrightarrow> next_id st (Suc i) \<noteq> next_id st 0"
      using \<open>inj_on (next_id st) {0..<Suc k}\<close> by (auto dest: inj_onD)
  qed
  have "''step-'' @ next_id st' i \<notin> ms_id ` set (t_steps st') \<and> ''verify-'' @ next_id st' i \<notin> vw_id ` set (t_verifications st')"
    if "i < k" for i
  proof -
    have "''step-'' @ next_id st (Suc i) \<notin> insert (''step-'' @ next_id st 0) (ms_id ` set (t_steps st))"
      and "''verify-'' @ next_id st (Suc i) \<notin> insert (''verify-'' @ next_id st 0) (vw_id ` set (t_verifications st))"
      using f ne [OF that] that by auto
    then show ?thesis using assms(4,5) unfolding shift by blast
  qed
  with d2 show ?thesis by (simp add: fresh_ids_def)
qed

lemma draw_run: "generate_record_id p st = (Inr (p @ ''-'' @ next_id st 0),
    st\<lparr>st_world := (st_world st)\<lparr>drawn := Suc (drawn (st_world st))\<rparr>\<rparr>)"
  by (simp add: generate_record_id_def uuid_hex_def next_id_def)

lemma clock_world: "now w = (clock w (ticks w), w\<lparr>ticks := Suc (ticks w)\<rparr>)"
  by (simp add: now_def)

lemma fresh_ids_first: "fresh_ids (Suc k) st \<Longrightarrow> ''step-'' @ next_id st 0 \<notin> ms_id ` set (t_steps st) \<and>
    ''verify-'' @ next_id st 0 \<notin> vw_id ` set (t_verifications st)"
  by (simp add: fresh_ids_def del: upt_Suc)

subsection \<open>Recording a step and a verification\<close>

lemma add_step_progress:
  assumes "fresh_ids (Suc k) st" and "has_mission mid st"
  obtains sid st' where "add_step mid d st = (Inr sid, st')" "fresh_ids k st'" "t_missions st' = t_missions st"
    "t_subgoals st' = t_subgoals st"
proof -
  let ?w1 = "(st_world st)\<lparr>drawn := Suc (drawn (st_world st))\<rparr>"
  let ?r = "\<lparr>ms_id = ''step-'' @ next_id st 0, ms_mission = mid, ms_description = d, ms_status = ''completed'',
         ms_result = None, ms_created_at = clock ?w1 (ticks ?w1), ms_completed_at = None\<rparr>"
  let ?st' = "st\<lparr>st_world := ?w1\<lparr>ticks := Suc (ticks ?w1)\<rparr>, t_steps := t_steps st @ [?r]\<rparr>"
  have "add_step mid d st = (Inr (''step-'' @ next_id st 0), ?st')"
    using fresh_ids_first [OF assms(1)] assms(2)
    by (simp add: add_step_def bind_def draw_run clock_run clock_world insert_step_def has_mission_def andthen_def)
  moreover have "fresh_ids k ?st'"
    by (rule fresh_ids_Suc [OF assms(1)]) auto
  ultimately show thesis using that by simp
qed

lemma advance_progress:
  assumes "fresh_ids (Suc k) (mg_store s)" and "ready mid n (mg_store s)" and "mg_events s = None"
  obtains sid st' where "advance env mid d s = (Inr sid, s\<lparr>mg_store := st'\<rparr>)" "fresh_ids k st'" "ready mid n st'"
proof -
  have "has_mission mid (mg_store s)"
    using assms(2) by (simp add: ready_def unlimited_has)
  from add_step_progress [OF assms(1) this, of d] obtain sid st' where
    a: "add_step mid d (mg_store s) = (Inr sid, st')" "fresh_ids k st'" "t_missions st' = t_missions (mg_store s)"
    "t_subgoals st' = t_subgoals (mg_store s)" by metis
  have "advance env mid d s = (Inr sid, s\<lparr>mg_store := st'\<rparr>)"
    using a(1) assms(3) by (simp add: advance_def bind_def)
  moreover have "ready mid n st'" using assms(2) unfolding ready_cong [OF a(3,4)] .
  ultimately show thesis using that a(2) by blast
qed

lemma record_progress:
  assumes "fresh_ids (Suc k) st" and "has_mission mid st"
  obtains st' where "record_verification mid v st = (Inr (), st')" "fresh_ids k st'" "t_missions st' = t_missions st"
    "t_subgoals st' = t_subgoals st"
proof -
  let ?w1 = "(st_world st)\<lparr>drawn := Suc (drawn (st_world st))\<rparr>"
  let ?r = "\<lparr>vw_id = ''verify-'' @ next_id st 0, vw_mission = mid, vw_passed = (if vr_passed v then 1 else 0),
        vw_reason = vr_reason v, vw_suggestions = Some (JList (map JStr (vr_suggestions v))),
        vw_metadata = Some (JObj (vr_metadata v)), vw_created_at = clock ?w1 (ticks ?w1)\<rparr>"
  let ?st' = "st\<lparr>st_world := ?w1\<lparr>ticks := Suc (ticks ?w1)\<rparr>, t_verifications := t_verifications st @ [?r]\<rparr>"
  have "record_verification mid v st = (Inr (), ?st')"
    using fresh_ids_first [OF assms(1)] assms(2)
    by (simp add: record_verification_def bind_def draw_run clock_run clock_world insert_verification_def has_mission_def)
  moreover have "fresh_ids k ?st'"
    by (rule fresh_ids_Suc [OF assms(1)]) auto
  ultimately show thesis using that by simp
qed

subsection \<open>Subgoals\<close>

lemma subgoals_read:
  assumes "\<forall>g \<in> set (mission_subgoals mid st). sg_status g \<in> settled_statuses"
  obtains gs where "get_subgoals mid st = (Inr gs, st)" "set gs = set (mission_subgoals mid st)"
proof -
  let ?rs = "sort_key sg_priority (sort_key sg_created_at (mission_subgoals mid st))"
  have "\<forall>g \<in> set ?rs. subgoal_from_row g = g"
    using assms by (auto simp: subgoal_from_row_def subgoal_statuses_def settled_statuses_def)
  then have "map subgoal_from_row ?rs = ?rs" by (intro map_idI) blast
  then have "get_subgoals mid st = (Inr ?rs, st)" by (simp add: get_subgoals_def mission_subgoals_def)
  then show thesis using that by simp
qed

lemma count_update_by:
  assumes "distinct (map sg_id gs)" and "g \<in> set gs" and "P g" and "Q g"
    and "\<And>x. \<not> Q (f x)" and "\<And>x. P (f x) = P x"
  shows "Suc (length (filter Q (filter P (update_by sg_id (sg_id g) f gs)))) = length (filter Q (filter P gs))"
  using assms(1,2)
proof (induction gs)
  case (Cons x gs)
  show ?case
  proof (cases "sg_id x = sg_id g")
    case True
    with Cons.prems have "x = g" by (auto simp: image_iff)
    then show ?thesis using assms(3-6) by simp
  next
    case False
    with Cons.prems have "g \<in> set gs" and "distinct (map sg_id gs)" by auto
    from Cons.IH [OF this(2,1)] False show ?thesis by simp
  qed
qed simp

lemma close_subgoal:
  assumes "ready mid (Suc n) st" and "g \<in> set (mission_subgoals mid st)" and "open_subgoal g" and "fresh_ids k st"
  obtains st' where "update_subgoal_status (sg_id g) ''completed'' st = (Inr (), st')" "ready mid n st'" "fresh_ids k st'"
proof -
  obtain d where "completion_timestamp ''completed'' subgoal_terminal_statuses st =
      (Inr d, st\<lparr>st_world := (st_world st)\<lparr>ticks := Suc (ticks (st_world st))\<rparr>\<rparr>)"
    by (simp add: completion_timestamp_def subgoal_terminal_statuses_def bind_def clock_run clock_world)
  then have run: "update_subgoal_status (sg_id g) ''completed'' st = (Inr (),
      st\<lparr>st_world := (st_world st)\<lparr>ticks := Suc (ticks (st_world st))\<rparr>,
         t_subgoals := update_by sg_id (sg_id g) (\<lambda>r. r\<lparr>sg_status := ''completed'', sg_completed_at := d\<rparr>) (t_subgoals st)\<rparr>)"
    (is "_ = (_, ?st')")
    by (simp add: update_subgoal_status_def require_known_status_def subgoal_statuses_def bind_def andthen_def)
  let ?f = "\<lambda>r. r\<lparr>sg_status := ''completed'', sg_completed_at := d\<rparr>"
  have dist: "distinct (map sg_id (t_subgoals st))" and g: "g \<in> set (t_subgoals st)" "sg_mission g = mid"
    using assms(1,2) by (auto simp: ready_def mission_subgoals_def)
  have "Suc (length (filter open_subgoal (filter (\<lambda>g. sg_mission g = mid) (update_by sg_id (sg_id g) ?f (t_subgoals st))))) =
      length (filter open_subgoal (filter (\<lambda>g. sg_mission g = mid) (t_subgoals st)))"
    by (rule count_update_by [OF dist g(1)]) (use assms(3) g(2) in \<open>auto simp: open_subgoal_def\<close>)
  then have cnt: "open_count mid ?st' = n"
    using assms(1) by (simp add: ready_def open_count_def mission_subgoals_def)
  have miss: "map sg_mission (update_by sg_id (sg_id g) ?f (t_subgoals st)) = map sg_mission (t_subgoals st)"
    by (rule map_update_by_keep) simp
  have "mid \<in> set (map sg_mission (t_subgoals st))" using g by auto
  then have "mid \<in> set (map sg_mission (update_by sg_id (sg_id g) ?f (t_subgoals st)))" by (simp only: miss)
  then have "mission_subgoals mid ?st' \<noteq> []"
    by (auto simp: mission_subgoals_def filter_empty_conv)
  moreover have "\<forall>x \<in> set (mission_subgoals mid ?st'). sg_status x \<in> settled_statuses"
    using assms(1)
    by (auto simp: ready_def mission_subgoals_def settled_statuses_def dest!: set_update_by [THEN subsetD])
  moreover have "distinct (map sg_id (t_subgoals ?st'))"
    using dist by (simp add: map_update_by_keep)
  moreover have "unlimited_active mid ?st'"
    using assms(1) by (simp add: ready_def unlimited_active_def get_mission_Inr)
  ultimately have "ready mid n ?st'" using cnt by (simp add: ready_def)
  moreover have "fresh_ids k ?st'" using assms(4) by (subst fresh_ids_cong [where st = st]) simp_all
  ultimately show thesis using that run by blast
qed

lemma executor_progress:
  assumes "ready mid (Suc n) (mg_store s)" and "fresh_ids k (mg_store s)"
  obtains d st' where "legacy_executor goal mx ex i mid s =
      (Inr (Plain \<lparr>sr_description = d, sr_status = StepCompleted, sr_block_reason = None\<rparr>), s\<lparr>mg_store := st'\<rparr>)"
    "ready mid n st'" "fresh_ids k st'"
proof -
  let ?st = "mg_store s"
  have "\<forall>g \<in> set (mission_subgoals mid ?st). sg_status g \<in> settled_statuses" using assms(1) by (simp add: ready_def)
  from subgoals_read [OF this] obtain gs where gs: "get_subgoals mid ?st = (Inr gs, ?st)"
    "set gs = set (mission_subgoals mid ?st)" by blast
  have "open_count mid ?st = Suc n" using assms(1) by (simp add: ready_def)
  then have "\<exists>g \<in> set (mission_subgoals mid ?st). open_subgoal g"
    unfolding open_count_def by (metis filter_False length_0_conv old.nat.distinct(1))
  with gs(2) obtain g where g: "find open_subgoal gs = Some g"
    by (metis find_None_iff not_Some_eq)
  then have "g \<in> set gs" and op: "open_subgoal g" by (auto simp: find_Some_iff)
  with gs(2) have "g \<in> set (mission_subgoals mid ?st)" by simp
  from close_subgoal [OF assms(1) this op assms(2)] obtain st' where
    st': "update_subgoal_status (sg_id g) ''completed'' ?st = (Inr (), st')" "ready mid n st'" "fresh_ids k st'" by blast
  have "legacy_executor goal mx ex i mid s =
      (Inr (Plain \<lparr>sr_description = ''Completed subgoal: '' @ sg_description g, sr_status = StepCompleted,
        sr_block_reason = None\<rparr>), s\<lparr>mg_store := st'\<rparr>)"
    using gs(1) g st'(1)
    by (simp add: legacy_executor_def bind_def mgr_subgoals_def mgr_update_subgoal_def andthen_def)
  then show thesis using that st'(2,3) by blast
qed

subsection \<open>Verification by subgoals\<close>

lemma fallback_outcome:
  assumes "ready mid n (mg_store s)"
  obtains r where "ev_verify (control_env sh user listen lp) (FallbackVerifier mid) mid s = (Inr (Plain r), s)"
    "vr_passed r \<longleftrightarrow> n = 0" "map_of (vr_metadata r) ''verifierThrew'' = None"
proof -
  let ?st = "mg_store s"
  have ok: "\<forall>g \<in> set (mission_subgoals mid ?st). sg_status g \<in> settled_statuses" using assms by (simp add: ready_def)
  from subgoals_read [OF this] obtain gs where gs: "get_subgoals mid ?st = (Inr gs, ?st)"
    "set gs = set (mission_subgoals mid ?st)" by blast
  have ne: "gs \<noteq> []" using gs(2) assms by (auto simp: ready_def)
  have open_iff: "sg_status g \<notin> {''completed'', ''skipped''} \<longleftrightarrow> open_subgoal g" if "g \<in> set gs" for g
    using ok gs(2) that by (auto simp: settled_statuses_def open_subgoal_def)
  have "n = 0 \<longleftrightarrow> (\<forall>g \<in> set gs. \<not> open_subgoal g)"
    using assms gs(2) by (auto simp: ready_def open_count_def filter_empty_conv)
  then have rem: "filter (\<lambda>g. sg_status g \<notin> {''completed'', ''skipped''}) gs = [] \<longleftrightarrow> n = 0"
    using open_iff by (auto simp: filter_empty_conv)
  let ?r = "fallback_result gs"
  have "ev_verify (control_env sh user listen lp) (FallbackVerifier mid) mid s = (Inr (Plain ?r), s)"
    using gs(1)
    by (simp add: control_env_def call_verifier_def fallback_verify_def mgr_subgoals_def bind_def)
  moreover have "vr_passed ?r \<longleftrightarrow> n = 0" using ne rem by (simp add: fallback_result_def Let_def)
  moreover have "map_of (vr_metadata ?r) ''verifierThrew'' = None" by (simp add: fallback_result_def Let_def)
  ultimately show thesis using that by blast
qed

lemma verify_progress:
  assumes "ready mid n (mg_store s)" and "fresh_ids (Suc k) (mg_store s)" and "watched mid s"
  obtains v s' where "verify (control_env sh user listen lp) mid s = (Inr v, s')" "vr_passed v \<longleftrightarrow> n = 0"
    "map_of (vr_metadata v) ''verifierThrew'' = None" "n > 0 \<Longrightarrow> watched mid s' \<and> ready mid n (mg_store s') \<and> fresh_ids k (mg_store s')"
proof -
  let ?env = "control_env sh user listen lp" and ?st = "mg_store s"
  from fallback_outcome [OF assms(1)] obtain r where r: "ev_verify ?env (FallbackVerifier mid) mid s = (Inr (Plain r), s)"
    "vr_passed r \<longleftrightarrow> n = 0" "map_of (vr_metadata r) ''verifierThrew'' = None" by blast
  let ?out = "resolve_mission_verification_outcome r"
  have run: "run_verifier ?env (FallbackVerifier mid) mid s = (Inr ?out, s)"
    using r(1) by (simp add: run_verifier_def catch_def)
  have has: "has_mission mid ?st"
    using assms(1) by (simp add: ready_def unlimited_has)
  from record_progress [OF assms(2) has, of r] obtain st' where
    st': "record_verification mid r ?st = (Inr (), st')" "fresh_ids k st'" "t_missions st' = t_missions ?st"
    "t_subgoals st' = t_subgoals ?st" by blast
  have reg: "map_of (mg_verifiers s) mid = Some (FallbackVerifier mid)" and ev: "mg_events s = None"
    using assms(3) by (simp_all add: watched_def)
  show thesis
  proof (cases "n = 0")
    case False
    then have "vo_next ?out = None"
      using r(2) by (simp add: resolve_mission_verification_outcome_def derive_mission_status_from_verifier_result_def)
    then have "verify ?env mid s = (Inr r, s\<lparr>mg_store := st'\<rparr>)"
      using reg run st'(1) ev
      by (simp add: verify_def bind_def andthen_def verify_transition_def resolve_mission_verification_outcome_def
          emit_verified_def emit_def)
    moreover have "ready mid n st'" using assms(1) unfolding ready_cong [OF st'(3,4)] .
    ultimately show thesis using that r(2,3) st'(2) assms(3) False by (simp add: watched_def)
  next
    case True
    then have nxt: "vo_next ?out = Some ''completed''"
      using r(2) by (simp add: resolve_mission_verification_outcome_def derive_mission_status_from_verifier_result_def)
    from assms(1) obtain m where m: "get_mission mid ?st = (Inr (Some m), ?st)" "m_status m = ''active''"
      by (auto simp: ready_def unlimited_active_def)
    have "resolve_mission_status_transition (Some ''active'') ''completed'' = Inr \<lparr>tr_next = ''completed'', tr_emit = True\<rparr>"
      using transition_from_Some [of "''active''" "''completed''"] by (simp add: allowed_active mission_statuses_def)
    then have tr: "verify_transition mid ?out s = (Inr (Some (Some ''active'', \<lparr>tr_next = ''completed'', tr_emit = True\<rparr>)), s)"
      using m nxt by (simp add: verify_transition_def bind_def)
    have "''completed'' \<in> set mission_statuses" by (simp add: mission_statuses_def)
    from update_mission_status_effect [OF this, of mid st'] obtain st2 where
      st2: "update_mission_status mid ''completed'' st' = (Inr (), st2)" by blast
    have "verify ?env mid s = (Inr r, s\<lparr>mg_store := st2\<rparr>)"
      using reg run tr st'(1) st2 ev
      by (simp add: verify_def bind_def andthen_def resolve_mission_verification_outcome_def
          emit_verified_def emit_status_change_def emit_def)
    then show thesis using that r(2,3) True by blast
  qed
qed

subsection \<open>One iteration, and the whole loop\<close>

lemma usage_unlimited:
  assumes "unlimited_active mid (mg_store s)"
  shows "\<exists>u. mgr_budget_usage mid s = (Inr u, s) \<and> \<not> bu_exhausted u"
  using assms
  by (auto simp: unlimited_active_def mgr_budget_usage_def get_budget_usage_def bind_def Let_def split: option.splits)

lemma iteration_progress:
  assumes "ready mid (Suc n) (mg_store s)" and "fresh_ids (Suc (Suc k)) (mg_store s)" and "watched mid s"
  obtains (last) s' where "n = 0" "run_iteration (control_env sh user listen lp) (legacy_executor goal mx ex i) mid q s =
      (Inr (Inr \<lparr>rr_final = ''completed'', rr_steps = q + 1, rr_passed = True\<rparr>), s')"
  | (more) s' where "0 < n" "run_iteration (control_env sh user listen lp) (legacy_executor goal mx ex i) mid q s =
      (Inr (Inl (q + 1)), s')" "ready mid n (mg_store s')" "fresh_ids k (mg_store s')" "watched mid s'"
proof -
  let ?env = "control_env sh user listen lp" and ?ex = "legacy_executor goal mx ex i"
  from assms(1) obtain m where m: "get_mission mid (mg_store s) = (Inr (Some m), mg_store s)" "m_status m = ''active''"
    and u0: "unlimited_active mid (mg_store s)" by (auto simp: ready_def unlimited_active_def)
  have get: "mgr_get mid s = (Inr (Some m), s)" using m(1) by (simp add: mgr_get_def)
  obtain u where u: "mgr_budget_usage mid s = (Inr u, s)" "\<not> bu_exhausted u" using usage_unlimited [OF u0] by blast
  from executor_progress [OF assms(1,2)] obtain d st1 where
    e: "?ex mid s = (Inr (Plain \<lparr>sr_description = d, sr_status = StepCompleted, sr_block_reason = None\<rparr>), s\<lparr>mg_store := st1\<rparr>)"
    "ready mid n st1" "fresh_ids (Suc (Suc k)) st1" by blast
  let ?s1 = "s\<lparr>mg_store := st1\<rparr>"
  have ev: "mg_events ?s1 = None" using assms(3) by (simp add: watched_def)
  from advance_progress [of "Suc k" ?s1 mid n ?env d] e(2,3) ev obtain sid st2 where
    a: "advance ?env mid d ?s1 = (Inr sid, ?s1\<lparr>mg_store := st2\<rparr>)" "fresh_ids (Suc k) st2" "ready mid n st2" by auto
  let ?s2 = "s\<lparr>mg_store := st2\<rparr>"
  have "unlimited_active mid (mg_store ?s2)" using a(3) by (simp add: ready_def)
  from usage_unlimited [OF this] obtain u2 where u2: "mgr_budget_usage mid ?s2 = (Inr u2, ?s2)" "\<not> bu_exhausted u2" by blast
  let ?r = "\<lparr>rs_recorded = True, rs_exhausted = False, rs_blocked = False, rs_final = None, rs_error = None\<rparr>"
  have call: "call_executor ?env ?ex mid s = (Inr (Inr \<lparr>sr_description = d, sr_status = StepCompleted,
      sr_block_reason = None\<rparr>), ?s1)"
    using e(1) by (simp add: call_executor_def catch_def bind_def await_if_needed_def)
  have rec: "record_step_result ?env mid \<lparr>sr_description = d, sr_status = StepCompleted, sr_block_reason = None\<rparr> ?s1 =
      (Inr ?r, ?s2)"
    using a(1) u2 by (simp add: record_step_result_def bind_def finish_completed_step_def)
  have step: "run_step ?env ?ex mid s = (Inr ?r, ?s2)"
    using get m(2) u call rec by (simp add: run_step_def run_active_step_def bind_def)
  have w2: "watched mid ?s2" using assms(3) by (simp add: watched_def)
  from verify_progress [of mid n ?s2 k sh user listen lp] a(2,3) w2 obtain v s3 where
    v: "verify ?env mid ?s2 = (Inr v, s3)" "vr_passed v \<longleftrightarrow> n = 0" "map_of (vr_metadata v) ''verifierThrew'' = None"
    "n > 0 \<Longrightarrow> watched mid s3 \<and> ready mid n (mg_store s3) \<and> fresh_ids k (mg_store s3)" by auto
  have it: "run_iteration ?env ?ex mid q s = verify_iteration ?env mid (q + 1) ?s2"
    using get m(2) step by (simp add: run_iteration_def run_active_iteration_def bind_def after_step_def)
  show thesis
  proof (cases "n = 0")
    case True
    with it v(1,2) show thesis by (intro last) (simp_all add: verify_iteration_def bind_def)
  next
    case False
    with it v show thesis by (intro more [of s3]) (simp_all add: verify_iteration_def bind_def)
  qed
qed

lemma loop_completes:
  assumes "ready mid (Suc n) (mg_store s)" and "fresh_ids (2 * Suc n) (mg_store s)" and "watched mid s" and "n < k"
  shows "\<exists>s'. run_loop k (control_env sh user listen lp) (legacy_executor goal mx ex) mid i q s =
    (Inr \<lparr>rr_final = ''completed'', rr_steps = q + int (Suc n), rr_passed = True\<rparr>, s')"
  using assms
proof (induction n arbitrary: k s i q)
  case 0
  then obtain k' where k: "k = Suc k'" by (cases k) auto
  have f: "fresh_ids (Suc (Suc 0)) (mg_store s)" using 0(2) by (simp add: numeral_2_eq_2)
  show ?case
    by (cases rule: iteration_progress [OF 0(1) f 0(3), of sh user listen lp goal mx ex i q])
       (auto simp: k bind_def)
next
  case (Suc n)
  then obtain k' where k: "k = Suc k'" by (cases k) auto
  have f: "fresh_ids (Suc (Suc (2 * Suc n))) (mg_store s)" using Suc.prems(2) by simp
  from Suc.prems(1) f Suc.prems(3) show ?case
  proof (cases rule: iteration_progress [where sh = sh and user = user and listen = listen and lp = lp
        and goal = goal and mx = mx and ex = ex and i = i and q = q])
    case (more s')
    have "n < k'" using Suc.prems(4) k by simp
    from Suc.IH [OF more(3) _ more(5) this, of "i + 1" "q + 1"] more(4) obtain s2 where
      "run_loop k' (control_env sh user listen lp) (legacy_executor goal mx ex) mid (i + 1) (q + 1) s' =
        (Inr \<lparr>rr_final = ''completed'', rr_steps = q + 1 + int (Suc n), rr_passed = True\<rparr>, s2)" by auto
    with more(2) k show ?thesis by (simp add: bind_def add.commute add.left_commute)
  qed simp
qed

end
