(* ===== verification/Mission_Checkpoint_Props.thy ===== *)
theory Mission_Checkpoint_Props
  imports Mission_Checkpoint Mission_Run_Props "HOL-Library.Multiset"
begin

text \<open>
  Restoring a checkpoint is atomic, and restores what was saved.
\<close>

subsection \<open>Atomicity\<close>

lemma transaction_Inl: "transaction m s = (Inl e, s') \<Longrightarrow> tabs s' = tabs s"
  by (auto simp: transaction_def tabs_def split: prod.splits sum.splits)

lemma lift_res_state: "lift_res r s = (x, s') \<Longrightarrow> s' = s"
  by simp

lemma load_checkpoint_Inl:
  assumes "load_checkpoint sq j s = (Inl e, s')"
  shows "tabs s' = tabs s"
  using assms unfolding load_checkpoint_def
  by (auto simp: bind_def andthen_def Let_def dest: transaction_Inl split: sum.splits prod.splits if_splits)

subsection \<open>Reading back what was dumped\<close>

lemma item_dump [simp]:
  "item k ((k, j) # d) = Inr j" "k \<noteq> k' \<Longrightarrow> item k ((k', j) # d) = item k d"
  by (simp_all add: item_def)

lemma pick_hit: "map_of d k = Some j \<Longrightarrow> j \<noteq> JNull \<Longrightarrow> pick d (k # ks) = Some j"
  by simp

lemma bind_null_text_json_opt [simp]:
  "bind_null_text sq (Some (json_opt JStr x)) = Inr x" "bind_null_text sq None = Inr None"
  by (cases x) (simp_all add: bind_null_text_def json_opt_def bind_text_def)

lemma pick_json_opt:
  "map_of d k1 = None \<Longrightarrow> map_of d k2 = Some (json_opt JStr x) \<Longrightarrow> bind_null_text sq (pick d [k1, k2]) = Inr x"
  by (cases x) (simp_all add: json_opt_def bind_null_text_def bind_text_def)

lemma picked_created:
  "map_of d ''createdAt'' = None \<Longrightarrow> map_of d ''created_at'' = Some (JStr (c # cs)) \<Longrightarrow>
   picked_or_now d [''createdAt'', ''created_at''] st = (Inr (JStr (c # cs)), st)"
  by (simp add: picked_or_now_def truthy_def)

lemma dump_step_object: "as_object (dump_step x) = Inr [(''id'', JStr (ms_id x)), (''mission_id'', JStr (ms_mission x)),
     (''description'', JStr (ms_description x)), (''status'', JStr (ms_status x)),
     (''result'', json_opt JStr (ms_result x)), (''created_at'', JStr (ms_created_at x)),
     (''completed_at'', json_opt JStr (ms_completed_at x))]"
  by (simp add: dump_step_def as_object_def)

lemma bind_text_JStr [simp]: "bind_text sq (JStr x) = Inr x"
  by (simp add: bind_text_def)

lemma restore_step_dump:
  assumes "ms_created_at x \<noteq> []" and "ms_id x \<notin> ms_id ` set (t_steps st)"
    and "has_mission (ms_mission x) st"
  shows "restore_step sq (ms_mission x) (dump_step x) st = (Inr (), st\<lparr>t_steps := t_steps st @ [x]\<rparr>)"
proof -
  obtain c cs where "ms_created_at x = c # cs" using assms(1) by (cases "ms_created_at x") auto
  with assms show ?thesis
    by (simp add: restore_step_def dump_step_object picked_created pick_json_opt insert_step_def bind_def
        del: pick.simps)
qed

lemma restore_steps_dump:
  assumes "has_mission oid st"
    and "distinct (map ms_id (t_steps st @ xs))"
    and "\<forall>x \<in> set xs. ms_mission x = oid \<and> ms_created_at x \<noteq> []"
  shows "each (restore_step sq oid) (map dump_step xs) st = (Inr (), st\<lparr>t_steps := t_steps st @ xs\<rparr>)"
  using assms
proof (induction xs arbitrary: st)
  case Nil
  then show ?case by simp
next
  case (Cons x xs)
  have x: "restore_step sq oid (dump_step x) st = (Inr (), st\<lparr>t_steps := t_steps st @ [x]\<rparr>)"
    using restore_step_dump [of x st sq] Cons.prems by auto
  have "each (restore_step sq oid) (map dump_step xs) (st\<lparr>t_steps := t_steps st @ [x]\<rparr>) =
      (Inr (), st\<lparr>t_steps := t_steps st @ x # xs\<rparr>)"
    using Cons.IH [of "st\<lparr>t_steps := t_steps st @ [x]\<rparr>"] Cons.prems by (simp add: has_mission_def)
  with x show ?case by simp
qed

lemma dump_subgoal_object: "as_object (dump_subgoal x) = Inr [(''id'', JStr (sg_id x)), (''mission_id'', JStr (sg_mission x)),
     (''description'', JStr (sg_description x)), (''priority'', JInt (sg_priority x)),
     (''status'', JStr (sg_status x)), (''created_at'', JStr (sg_created_at x)),
     (''completed_at'', json_opt JStr (sg_completed_at x))]"
  by (simp add: dump_subgoal_def as_object_def)

lemma restore_subgoal_dump:
  assumes "sg_created_at x \<noteq> []" and "sg_id x \<notin> sg_id ` set (t_subgoals st)"
    and "has_mission (sg_mission x) st" and "sqlite_integer (sg_priority x)"
  shows "restore_subgoal sq (sg_mission x) (dump_subgoal x) st = (Inr (), st\<lparr>t_subgoals := t_subgoals st @ [x]\<rparr>)"
proof -
  obtain c cs where "sg_created_at x = c # cs" using assms(1) by (cases "sg_created_at x") auto
  with assms show ?thesis
    by (simp add: restore_subgoal_def dump_subgoal_object picked_created pick_json_opt insert_subgoal_def bind_def
        bind_int_def del: pick.simps)
qed

lemma restore_subgoals_dump:
  assumes "has_mission oid st"
    and "distinct (map sg_id (t_subgoals st @ xs))"
    and "\<forall>x \<in> set xs. sg_mission x = oid \<and> sg_created_at x \<noteq> [] \<and> sqlite_integer (sg_priority x)"
  shows "each (restore_subgoal sq oid) (map dump_subgoal xs) st = (Inr (), st\<lparr>t_subgoals := t_subgoals st @ xs\<rparr>)"
  using assms
proof (induction xs arbitrary: st)
  case Nil
  then show ?case by simp
next
  case (Cons x xs)
  have x: "restore_subgoal sq oid (dump_subgoal x) st = (Inr (), st\<lparr>t_subgoals := t_subgoals st @ [x]\<rparr>)"
    using restore_subgoal_dump [of x st sq] Cons.prems by auto
  have "each (restore_subgoal sq oid) (map dump_subgoal xs) (st\<lparr>t_subgoals := t_subgoals st @ [x]\<rparr>) =
      (Inr (), st\<lparr>t_subgoals := t_subgoals st @ x # xs\<rparr>)"
    using Cons.IH [of "st\<lparr>t_subgoals := t_subgoals st @ [x]\<rparr>"] Cons.prems by (simp add: has_mission_def)
  with x show ?case by simp
qed

text \<open>A verification and a mission as they come back, and the row that a restored verification becomes.\<close>

definition json_verification :: "verification \<Rightarrow> verification" where
  "json_verification v = v\<lparr>mv_metadata := json_dict (mv_metadata v)\<rparr>"

definition json_mission :: "mission \<Rightarrow> mission" where
  "json_mission m = m\<lparr>m_metadata := json_dict (m_metadata m)\<rparr>"

text \<open>No infinity and no NaN anywhere in a value.\<close>

function finite_json :: "json \<Rightarrow> bool" where
  "finite_json JNull = True"
| "finite_json (JBool b) = True"
| "finite_json (JInt n) = True"
| "finite_json (JFloat x) = True"
| "finite_json (JNonFinite x) = False"
| "finite_json (JStr x) = True"
| "finite_json (JList xs) = list_all finite_json xs"
| "finite_json (JObj d) = list_all (\<lambda>x. finite_json (snd x)) d"
  by pat_completeness auto
termination
  by (relation "measure size") (auto simp: size_item_snd dest: size_list_estimation' [of _ _ _ size])

lemma json_mode_finite: "finite_json j \<Longrightarrow> json_mode j = j"
  by (induction j rule: json_mode.induct) (auto simp: list_all_iff intro!: map_idI)

lemma json_dict_finite: "finite_json (JObj d) \<Longrightarrow> json_dict d = d"
  using json_mode_finite [of "JObj d"] by (simp add: json_dict_def)

lemma json_mission_finite: "finite_json (JObj (m_metadata m)) \<Longrightarrow> json_mission m = m"
  by (simp add: json_mission_def json_dict_finite)

lemma json_verification_finite: "finite_json (JObj (mv_metadata v)) \<Longrightarrow> json_verification v = v"
  by (simp add: json_verification_def json_dict_finite)

lemma json_mission_fields [simp]:
  "m_id (json_mission m) = m_id m" "m_status (json_mission m) = m_status m" "m_budget (json_mission m) = m_budget m"
  by (simp_all add: json_mission_def)

lemma json_verification_fields [simp]:
  "mv_id (json_verification v) = mv_id v" "mv_created_at (json_verification v) = mv_created_at v"
  by (simp_all add: json_verification_def)

definition verification_row_of :: "string \<Rightarrow> verification \<Rightarrow> verification_row" where
  "verification_row_of oid v = \<lparr>vw_id = mv_id v, vw_mission = oid, vw_passed = (if mv_passed v then 1 else 0),
     vw_reason = mv_reason v, vw_suggestions = Some (JList (map JStr (mv_suggestions v))),
     vw_metadata = Some (JObj (mv_metadata v)), vw_created_at = mv_created_at v\<rparr>"

lemma verification_row_read: "verification_from_row (verification_row_of oid v) = Inr v"
  by (simp add: verification_from_row_def verification_row_of_def py_tuple_def)

lemma dump_verification_object: "as_object (dump_verification v) =
    Inr [(''id'', JStr (mv_id v)), (''passed'', JBool (mv_passed v)),
     (''reason'', JStr (mv_reason v)), (''suggestions'', JList (map JStr (mv_suggestions v))),
     (''metadata'', JObj (json_dict (mv_metadata v))), (''created_at'', JStr (mv_created_at v))]"
  by (simp add: dump_verification_def as_object_def)

lemma restore_verification_dump:
  assumes "mv_created_at v \<noteq> []" and "mv_id v \<noteq> []" and "mv_id v \<notin> vw_id ` set (t_verifications st)"
    and "has_mission oid st"
  shows "restore_verification sq oid (dump_verification v) st =
    (Inr (), st\<lparr>t_verifications := t_verifications st @ [verification_row_of oid (json_verification v)]\<rparr>)"
proof -
  obtain c cs where c: "mv_created_at v = c # cs" using assms(1) by (cases "mv_created_at v") auto
  obtain i ks where i: "mv_id v = i # ks" using assms(2) by (cases "mv_id v") auto
  from assms c i show ?thesis
    by (simp add: restore_verification_def dump_verification_object picked_created insert_verification_def bind_def
        restored_record_id_def get_or_null_def truthy_def verification_row_of_def json_verification_def Let_def del: pick.simps)
qed

lemma restore_verifications_dump:
  assumes "has_mission oid st"
    and "distinct (map vw_id (t_verifications st) @ map mv_id vs)"
    and "\<forall>v \<in> set vs. mv_id v \<noteq> [] \<and> mv_created_at v \<noteq> []"
  shows "each (restore_verification sq oid) (map dump_verification vs) st =
    (Inr (), st\<lparr>t_verifications := t_verifications st @ map (verification_row_of oid \<circ> json_verification) vs\<rparr>)"
  using assms
proof (induction vs arbitrary: st)
  case Nil
  then show ?case by simp
next
  case (Cons v vs)
  let ?st = "st\<lparr>t_verifications := t_verifications st @ [verification_row_of oid (json_verification v)]\<rparr>"
  have v: "restore_verification sq oid (dump_verification v) st = (Inr (), ?st)"
    using restore_verification_dump [of v st oid sq] Cons.prems by auto
  have id: "vw_id (verification_row_of oid (json_verification v)) = mv_id v" by (simp add: verification_row_of_def)
  have "each (restore_verification sq oid) (map dump_verification vs) ?st =
      (Inr (), st\<lparr>t_verifications := t_verifications st @ map (verification_row_of oid \<circ> json_verification) (v # vs)\<rparr>)"
    using Cons.IH [of ?st] Cons.prems by (simp add: has_mission_def id)
  with v show ?case by simp
qed

subsection \<open>The mission row\<close>

lemma checkpoint_budget_dump:
  "checkpoint_budget (dump_budget b) = Inr (if no_limits b then None else Some (budget_to_camel b))"
  by (cases "max_steps b"; cases "max_cost_usd b"; cases "max_duration_minutes b")
     (simp_all add: checkpoint_budget_def dump_budget_def truthy_def json_opt_def camel_field_def budget_to_camel_def
       no_limits_def Let_def)

definition mission_row_of :: "mission \<Rightarrow> mission_row" where
  "mission_row_of m = \<lparr>rw_id = m_id m, rw_name = m_name m, rw_goal = m_goal m, rw_status = m_status m,
     rw_budget = map_option budget_to_camel (m_budget m), rw_metadata = Some (JObj (m_metadata m)),
     rw_created_at = m_created_at m, rw_updated_at = m_updated_at m, rw_completed_at = m_completed_at m\<rparr>"

definition budget_restorable :: "mission \<Rightarrow> bool" where
  "budget_restorable m \<longleftrightarrow> (case m_budget m of None \<Rightarrow> True | Some b \<Rightarrow> valid_budget b \<and> \<not> no_limits b)"

lemma budget_restorable_json [simp]: "budget_restorable (json_mission m) = budget_restorable m"
  by (simp add: budget_restorable_def)

lemma mission_row_read:
  assumes "budget_restorable m" and "m_status m \<in> set mission_statuses"
  shows "mission_from_row (mission_row_of m) = Inr m"
proof (cases "m_budget m")
  case None
  then show ?thesis using assms by (simp add: mission_from_row_def mission_row_of_def budget_from_camel_def)
next
  case (Some b)
  with assms have "budget_from_camel (Some (budget_to_camel b)) = Inr (Some b)"
    by (simp add: budget_restorable_def budget_round_trip)
  with Some assms(2) show ?thesis by (simp add: mission_from_row_def mission_row_of_def)
qed

text \<open>The object that \<open>dump_mission\<close> writes.\<close>

definition mission_dict :: "mission \<Rightarrow> dict" where
  "mission_dict m = [(''id'', JStr (m_id m)), (''name'', JStr (m_name m)), (''goal'', JStr (m_goal m)),
     (''status'', JStr (m_status m)), (''budget'', json_opt dump_budget (m_budget m)),
     (''metadata'', JObj (json_dict (m_metadata m))), (''created_at'', JStr (m_created_at m)),
     (''updated_at'', json_opt JStr (m_updated_at m)), (''completed_at'', json_opt JStr (m_completed_at m))]"

lemma restore_mission_dump:
  assumes "m_created_at m \<noteq> []" and "\<not> has_mission (m_id m) st"
  shows "restore_mission sq (m_id m) (mission_dict m) (map_option budget_to_camel (m_budget m)) (JObj (json_dict (m_metadata m))) st =
    (Inr (), st\<lparr>t_missions := t_missions st @ [mission_row_of (json_mission m)]\<rparr>)"
proof -
  obtain c cs where "m_created_at m = c # cs" using assms(1) by (cases "m_created_at m") auto
  with assms(2) show ?thesis
    by (simp add: restore_mission_def mission_dict_def picked_created pick_json_opt insert_mission_def bind_def
        mission_row_of_def json_mission_def del: pick.simps)
qed

subsection \<open>The whole snapshot\<close>

text \<open>No row of the target clashes with a row of the snapshot.\<close>

definition restorable ::
  "mission \<Rightarrow> mission_step list \<Rightarrow> mission_subgoal list \<Rightarrow> verification list \<Rightarrow> store \<Rightarrow> bool" where
  "restorable m xs gs vs st \<longleftrightarrow> \<not> has_mission (m_id m) st \<and>
     distinct (map ms_id (t_steps st @ xs)) \<and> distinct (map sg_id (t_subgoals st @ gs)) \<and>
     distinct (map vw_id (t_verifications st) @ map mv_id vs)"

text \<open>Every time stamp and every verification identifier is a non-empty text.\<close>

definition stamped :: "mission \<Rightarrow> mission_step list \<Rightarrow> mission_subgoal list \<Rightarrow> verification list \<Rightarrow> bool" where
  "stamped m xs gs vs \<longleftrightarrow> m_created_at m \<noteq> [] \<and> (\<forall>x \<in> set xs. ms_created_at x \<noteq> []) \<and>
     (\<forall>g \<in> set gs. sg_created_at g \<noteq> []) \<and> (\<forall>v \<in> set vs. mv_created_at v \<noteq> [] \<and> mv_id v \<noteq> [])"

lemma load_dumped:
  assumes "restorable m xs gs vs st" and "stamped m xs gs vs" and "budget_restorable m"
    and "\<forall>x \<in> set xs. ms_mission x = m_id m" and "\<forall>g \<in> set gs. sg_mission g = m_id m \<and> sqlite_integer (sg_priority g)"
  shows "load_checkpoint sq (checkpoint_payload t m xs gs vs u) st = (Inr (m_id m),
    st\<lparr>t_missions := t_missions st @ [mission_row_of (json_mission m)], t_steps := t_steps st @ xs,
       t_subgoals := t_subgoals st @ gs, t_verifications := t_verifications st @ map (verification_row_of (m_id m) \<circ> json_verification) vs\<rparr>)"
proof -
  let ?raw = "[(''version'', JInt 1), (''checkpointedAt'', JStr t), (''mission'', dump_mission m),
      (''steps'', JList (map dump_step xs)), (''subgoals'', JList (map dump_subgoal gs)),
      (''verifications'', JList (map dump_verification vs)), (''budgetUsage'', dump_usage u)]"
  have budget: "checkpoint_budget (get_or_null ''budget'' (mission_dict m)) = Inr (map_option budget_to_camel (m_budget m))"
    using assms(3)
    by (cases "m_budget m")
       (simp_all add: get_or_null_def mission_dict_def json_opt_def checkpoint_budget_dump budget_restorable_def,
        simp add: checkpoint_budget_def truthy_def)
  have md: "(if truthy (get_or_null ''metadata'' (mission_dict m)) then get_or_null ''metadata'' (mission_dict m)
      else JObj []) = JObj (json_dict (m_metadata m))"
    by (simp add: get_or_null_def mission_dict_def truthy_def json_dict_def)
  have idj: "item ''id'' (mission_dict m) = Inr (JStr (m_id m))" by (simp add: mission_dict_def)
  have rows: "rows_of ''steps'' ?raw = Inr (map dump_step xs)" "rows_of ''subgoals'' ?raw = Inr (map dump_subgoal gs)"
    "rows_of ''verifications'' ?raw = Inr (map dump_verification vs)"
    by (simp_all add: rows_of_def py_tuple_def)
  let ?s1 = "st\<lparr>t_missions := t_missions st @ [mission_row_of (json_mission m)]\<rparr>"
  let ?s2 = "?s1\<lparr>t_steps := t_steps st @ xs\<rparr>"
  let ?s3 = "?s2\<lparr>t_subgoals := t_subgoals st @ gs\<rparr>"
  have has: "has_mission (m_id m) ?s1" by (simp add: has_mission_def mission_row_of_def)
  have m1: "restore_mission sq (m_id m) (mission_dict m) (map_option budget_to_camel (m_budget m)) (JObj (json_dict (m_metadata m))) st =
      (Inr (), ?s1)"
    using assms(1,2) by (simp add: restore_mission_dump restorable_def stamped_def)
  have x1: "each (restore_step sq (m_id m)) (map dump_step xs) ?s1 = (Inr (), ?s2)"
    using restore_steps_dump [OF has, of xs sq] assms(1,2,4) by (simp add: restorable_def stamped_def)
  have has2: "has_mission (m_id m) ?s2" and has3: "has_mission (m_id m) ?s3" using has by (simp_all add: has_mission_def)
  have g1: "each (restore_subgoal sq (m_id m)) (map dump_subgoal gs) ?s2 = (Inr (), ?s3)"
    using restore_subgoals_dump [OF has2, of gs sq] assms(1,2,5) by (simp add: restorable_def stamped_def)
  have v1: "each (restore_verification sq (m_id m)) (map dump_verification vs) ?s3 =
      (Inr (), ?s3\<lparr>t_verifications := t_verifications st @ map (verification_row_of (m_id m) \<circ> json_verification) vs\<rparr>)"
    using restore_verifications_dump [OF has3, of vs sq] assms(1,2) by (simp add: restorable_def stamped_def)
  have all: "restore_rows sq (m_id m) ?raw (mission_dict m) (map_option budget_to_camel (m_budget m)) (JObj (json_dict (m_metadata m))) st =
      (Inr (), ?s3\<lparr>t_verifications := t_verifications st @ map (verification_row_of (m_id m) \<circ> json_verification) vs\<rparr>)"
    unfolding restore_rows_def
    by (simp add: bind_def andthen_def m1 rows x1 g1 v1 del: each.simps)
  have "as_object (dump_mission m) = Inr (mission_dict m)" by (simp add: dump_mission_def as_object_def mission_dict_def)
  moreover have "has_mission (m_id m) st = False" using assms(1) by (simp add: restorable_def)
  moreover have "transaction (restore_rows sq (m_id m) ?raw (mission_dict m) (map_option budget_to_camel (m_budget m))
      (JObj (json_dict (m_metadata m)))) st = (Inr (), ?s3\<lparr>t_verifications := t_verifications st @ map (verification_row_of (m_id m) \<circ> json_verification) vs\<rparr>)"
    by (simp add: transaction_def all)
  ultimately show ?thesis
    unfolding load_checkpoint_def checkpoint_payload_def
    by (simp add: as_object_def [of "JObj _"] bind_def idj py_str_def budget md Let_def andthen_def)
qed

subsection \<open>The reads after restoring\<close>

lemma get_steps_restored:
  assumes "\<forall>r \<in> set (t_steps st). ms_mission r \<noteq> mid" and "get_steps mid s0 = (Inr xs, s0)"
    and "t_steps s1 = t_steps st @ xs"
  shows "get_steps mid s1 = (Inr xs, s1)"
proof -
  from assms(2) have xs: "xs = map step_from_row (sort_key ms_created_at (filter (\<lambda>r. ms_mission r = mid) (t_steps s0)))"
    by (simp add: get_steps_def)
  have key: "map ms_created_at xs = map ms_created_at (sort_key ms_created_at (filter (\<lambda>r. ms_mission r = mid) (t_steps s0)))"
    by (simp add: xs step_from_row_def)
  have "sort_key ms_created_at xs = xs" by (rule sort_key_id_if_sorted) (simp add: key)
  moreover have "\<forall>x \<in> set xs. ms_mission x = mid" by (auto simp: xs step_from_row_def)
  moreover have "\<forall>x \<in> set xs. step_from_row x = x" by (auto simp: xs step_from_row_def step_statuses_def)
  ultimately show ?thesis using assms(1,3) by (simp add: get_steps_def map_idI filter_True filter_False)
qed

lemma sort_by_two_idem:
  fixes f :: "'a \<Rightarrow> 'b::linorder" and g :: "'a \<Rightarrow> 'c::linorder" and xs :: "'a list"
  defines "ys \<equiv> sort_key f (sort_key g xs)"
  shows "sort_key f (sort_key g ys) = ys"
proof (rule properties_for_sort_key)
  show "mset ys = mset (sort_key g ys)" by simp
  show "filter (\<lambda>x. f k = f x) ys = filter (\<lambda>x. f k = f x) (sort_key g ys)" if "k \<in> set ys" for k
  proof -
    have "filter (\<lambda>x. f k = f x) ys = filter (\<lambda>x. f k = f x) (sort_key g xs)"
      using sort_key_stable [of f "f k" "sort_key g xs"] by (simp add: ys_def eq_commute)
    also have "\<dots> = sort_key g (filter (\<lambda>x. f k = f x) xs)" by (rule filter_sort)
    finally have eq: "filter (\<lambda>x. f k = f x) ys = sort_key g (filter (\<lambda>x. f k = f x) xs)" .
    have "filter (\<lambda>x. f k = f x) (sort_key g ys) = sort_key g (filter (\<lambda>x. f k = f x) ys)" by (rule filter_sort)
    also have "\<dots> = filter (\<lambda>x. f k = f x) ys" unfolding eq by (rule sort_key_id_if_sorted) simp
    finally show ?thesis by simp
  qed
  show "sorted (map f ys)" by (simp add: ys_def)
qed

lemma insort_key_map_keep:
  "(\<And>x. f (h x) = f x) \<Longrightarrow> insort_key f (h x) (map h xs) = map h (insort_key f x xs)"
  by (induction xs) simp_all

lemma sort_key_map_keep: "(\<And>x. f (h x) = f x) \<Longrightarrow> sort_key f (map h xs) = map h (sort_key f xs)"
  by (induction xs) (simp_all add: insort_key_map_keep)

lemma get_subgoals_restored:
  assumes "\<forall>r \<in> set (t_subgoals st). sg_mission r \<noteq> mid" and "get_subgoals mid s0 = (Inr gs, s0)"
    and "t_subgoals s1 = t_subgoals st @ gs"
  shows "get_subgoals mid s1 = (Inr gs, s1)"
proof -
  let ?rs = "filter (\<lambda>r. sg_mission r = mid) (t_subgoals s0)"
  have keep: "sg_priority (subgoal_from_row x) = sg_priority x" "sg_created_at (subgoal_from_row x) = sg_created_at x" for x
    by (simp_all add: subgoal_from_row_def)
  from assms(2) have gs: "gs = map subgoal_from_row (sort_key sg_priority (sort_key sg_created_at ?rs))"
    by (simp add: get_subgoals_def)
  have "gs = sort_key sg_priority (sort_key sg_created_at (map subgoal_from_row ?rs))"
    unfolding gs by (simp add: sort_key_map_keep keep)
  then have "sort_key sg_priority (sort_key sg_created_at gs) = gs" by (simp only: sort_by_two_idem)
  moreover have "\<forall>x \<in> set gs. sg_mission x = mid" by (auto simp: gs subgoal_from_row_def)
  moreover have "\<forall>x \<in> set gs. subgoal_from_row x = x" by (auto simp: gs subgoal_from_row_def subgoal_statuses_def)
  ultimately show ?thesis using assms(1,3) by (simp add: get_subgoals_def map_idI filter_True filter_False)
qed

lemma verification_from_row_stamp: "verification_from_row r = Inr v \<Longrightarrow> mv_created_at v = vw_created_at r"
  by (auto simp: verification_from_row_def split: sum.splits option.splits json.splits)

lemma get_verifications_restored:
  assumes "\<forall>r \<in> set (t_verifications st). vw_mission r \<noteq> mid" and "get_verifications mid s0 = (Inr vs, s0)"
    and "t_verifications s1 = t_verifications st @ map (verification_row_of mid) (map json_verification vs)"
  shows "get_verifications mid s1 = (Inr (map json_verification vs), s1)"
proof -
  let ?rs = "sort_key vw_created_at (filter (\<lambda>r. vw_mission r = mid) (t_verifications s0))"
  from assms(2) have vs: "map_res verification_from_row ?rs = Inr vs"
    by (simp add: get_verifications_def)
  have "map mv_created_at vs = map vw_created_at ?rs"
    using vs verification_from_row_stamp by (rule map_res_map)
  then have "sorted (map vw_created_at (map (verification_row_of mid) (map json_verification vs)))"
    by (simp add: comp_def verification_row_of_def)
  then have "sort_key vw_created_at (map (verification_row_of mid) (map json_verification vs)) =
      map (verification_row_of mid) (map json_verification vs)"
    by (rule sort_key_id_if_sorted)
  moreover have "filter (\<lambda>r. vw_mission r = mid) (t_verifications s1) = map (verification_row_of mid) (map json_verification vs)"
    using assms(1,3) by (simp add: filter_False filter_True verification_row_of_def)
  moreover have "map_res verification_from_row (map (verification_row_of mid) (map json_verification vs)) =
      Inr (map json_verification vs)"
    by (rule map_res_inverse) (rule verification_row_read)
  ultimately show ?thesis by (simp add: get_verifications_def)
qed

lemma get_mission_restored:
  assumes "\<not> has_mission (m_id m) st" and "t_missions s1 = t_missions st @ [mission_row_of m]"
    and "budget_restorable m" and "m_status m \<in> set mission_statuses"
  shows "get_mission (m_id m) s1 = (Inr (Some m), s1)"
proof -
  have "find_by rw_id (m_id m) (t_missions st) = None" using assms(1) by (simp add: has_mission_def)
  then have "find_by rw_id (m_id m) (t_missions s1) = Some (mission_row_of m)"
    by (simp add: assms(2) find_by_append mission_row_of_def del: find_by_None)
  with mission_row_read [OF assms(3,4)] show ?thesis by (simp add: get_mission_Inr)
qed

subsection \<open>What saving writes\<close>

lemma save_checkpoint_Inr:
  assumes "save_checkpoint mid dir s = (Inr (path, j), s')"
  obtains m xs gs vs u t where "get_mission mid s = (Inr (Some m), s)" "get_steps mid s = (Inr xs, s)"
    "get_subgoals mid s = (Inr gs, s)" "get_verifications mid s = (Inr vs, s)"
    "j = checkpoint_payload t m xs gs vs u"
proof -
  have pure: "snd (get_steps mid s) = s" "snd (get_subgoals mid s) = s" "snd (get_verifications mid s) = s"
    for s by (simp_all add: get_steps_def get_subgoals_def get_verifications_def)
  have pure_u: "snd (get_budget_usage mid s) = s" for s
    using pure_get_mission [of mid s]
    by (auto simp: get_budget_usage_def bind_def Let_def split: prod.splits sum.splits)
  from assms obtain mo s1 where m: "get_mission mid s = (Inr mo, s1)"
    and r1: "(case mo of
       None \<Rightarrow> raise (ValueError (''Mission not found: '' @ mid))
     | Some m \<Rightarrow>
         bind (get_steps mid) (\<lambda>xs.
         bind (get_subgoals mid) (\<lambda>gs.
         bind (get_verifications mid) (\<lambda>vs.
         bind (get_budget_usage mid) (\<lambda>u.
         bind read_clock (\<lambda>t.
         bind read_clock (\<lambda>ns.
         bind (generate_record_id (mid @ ''-'' @ ns)) (\<lambda>name.
         ret (dir @ [name @ ''.json''], checkpoint_payload t m xs gs vs u))))))))) s1 = (Inr (path, j), s')"
    unfolding save_checkpoint_def by (elim bind_InrE) (rule that)
  have s1: "s1 = s" using m pure_get_mission [of mid s] by simp
  from r1 obtain m0 where mo: "mo = Some m0" by (cases mo) auto
  with r1 have "bind (get_steps mid) (\<lambda>xs. bind (get_subgoals mid) (\<lambda>gs.
         bind (get_verifications mid) (\<lambda>vs. bind (get_budget_usage mid) (\<lambda>u.
         bind read_clock (\<lambda>t. bind read_clock (\<lambda>ns.
         bind (generate_record_id (mid @ ''-'' @ ns)) (\<lambda>name.
         ret (dir @ [name @ ''.json''], checkpoint_payload t m0 xs gs vs u)))))))) s1 = (Inr (path, j), s')" by simp
  then obtain xs s2 gs s3 vs s4 u s5 t s6 ns s7 name s8 where
    xs: "get_steps mid s1 = (Inr xs, s2)" and gs: "get_subgoals mid s2 = (Inr gs, s3)"
    and vs: "get_verifications mid s3 = (Inr vs, s4)" and "get_budget_usage mid s4 = (Inr u, s5)"
    and "read_clock s5 = (Inr t, s6)" and "read_clock s6 = (Inr ns, s7)"
    and "generate_record_id (mid @ ''-'' @ ns) s7 = (Inr name, s8)"
    and fin: "ret (dir @ [name @ ''.json''], checkpoint_payload t m0 xs gs vs u) s8 = (Inr (path, j), s')"
    by (elim bind_InrE) (rule that)
  have "s2 = s" using xs pure(1) [of s1] s1 by simp
  moreover from this have "s3 = s" using gs pure(2) [of s2] by simp
  moreover from this have "s4 = s" using vs pure(3) [of s3] by simp
  ultimately show thesis using that [of m0 xs gs vs t u] m mo s1 xs gs vs fin by simp
qed

text \<open>What SQLite can hold in the priority column.\<close>

definition priorities_fit :: "store \<Rightarrow> bool" where
  "priorities_fit s \<longleftrightarrow> list_all (\<lambda>r. sqlite_integer (sg_priority r)) (t_subgoals s)"

lemma saved_priorities:
  assumes "priorities_fit s" and "get_subgoals mid s = (Inr gs, s)"
  shows "\<forall>g \<in> set gs. sqlite_integer (sg_priority g)"
  using assms by (auto simp: get_subgoals_def subgoal_from_row_def priorities_fit_def list_all_iff)

lemma saved_rows_of_mission:
  assumes "get_mission mid s = (Inr (Some m), s)" and "get_steps mid s = (Inr xs, s)" and "get_subgoals mid s = (Inr gs, s)"
  shows "m_id m = mid" and "\<forall>x \<in> set xs. ms_mission x = mid" and "\<forall>g \<in> set gs. sg_mission g = mid"
    and "m_status m \<in> set mission_statuses"
proof -
  from assms(1) obtain r where "find_by rw_id mid (t_missions s) = Some r" and "mission_from_row r = Inr m"
    by (auto simp: get_mission_Inr split: option.splits)
  then show "m_id m = mid" and "m_status m \<in> set mission_statuses"
    by (auto simp: mission_from_row_fields(1,6) dest: find_by_SomeD)
  from assms(2,3) show "\<forall>x \<in> set xs. ms_mission x = mid" and "\<forall>g \<in> set gs. sg_mission g = mid"
    by (auto simp: get_steps_def get_subgoals_def step_from_row_def subgoal_from_row_def)
qed

end
