(* ===== verification/Mission_Planner.thy ===== *)
theory Mission_Planner
  imports Mission_Types
begin

text \<open>
  The adaptive planner of \<^verbatim>\<open>mission/planner.py\<close>. The language-model provider is a parameter:
  given which of the two system prompts and the user prompt, it returns a text or raises. The
  JSON parser of the standard library is the parameter \<open>loads\<close>, \<open>None\<close> for a
  \<open>JSONDecodeError\<close>.
\<close>

datatype system_prompt = DecomposeSystem | PlanStepSystem

type_synonym provider = "system_prompt \<Rightarrow> string \<Rightarrow> string res"

record subgoal_plan =
  sp_description :: string
  sp_priority :: int

record plan_result =
  pl_subgoals :: "subgoal_plan list"
  pl_reasoning :: "string option"

record verifier_feedback =
  fb_passed :: bool
  fb_reason :: string
  fb_suggestions :: "string list"

record plan_opts =
  po_goal :: string
  po_completed :: "string list"
  po_remaining :: "string list"
  po_feedback :: "verifier_feedback option"

record step_plan =
  sn_description :: string
  sn_reasoning :: string
  sn_revise :: bool
  sn_target :: "string option"
  sn_revised :: "subgoal_plan list"

subsection \<open>Parsing the reply\<close>

definition as_dict :: "json \<Rightarrow> dict option" where
  "as_dict j = (case j of JObj d \<Rightarrow> Some d | _ \<Rightarrow> None)"

text \<open>\<open>text.find("{")\<close> and \<open>text.rfind("}")\<close>\<close>

definition find_char :: "char \<Rightarrow> string \<Rightarrow> nat option" where
  "find_char c x = (if c \<in> set x then Some (length (takeWhile (\<lambda>d. d \<noteq> c) x)) else None)"

definition rfind_char :: "char \<Rightarrow> string \<Rightarrow> nat option" where
  "rfind_char c x = (if c \<in> set x then Some (length x - 1 - length (takeWhile (\<lambda>d. d \<noteq> c) (rev x))) else None)"

definition parse_json :: "(string \<Rightarrow> json option) \<Rightarrow> string \<Rightarrow> dict option" where
  "parse_json loads text =
     (let trimmed = strip text in
      case loads trimmed of
        Some j \<Rightarrow> as_dict j
      | None \<Rightarrow>
         (case (find_char (CHR 0x7B) trimmed, rfind_char (CHR 0x7D) trimmed) of
            (Some i, Some k) \<Rightarrow>
              (if k > i
               then (case loads (drop i (take (k + 1) trimmed)) of Some j \<Rightarrow> as_dict j | None \<Rightarrow> None)
               else None)
          | _ \<Rightarrow> None))"

text \<open>\<open>int(x)\<close> of a float truncates towards zero.\<close>

definition truncate_rat :: "rat \<Rightarrow> int" where
  "truncate_rat x = (if x < 0 then - \<lfloor>- x\<rfloor> else \<lfloor>x\<rfloor>)"

definition coerce_priority :: "json option \<Rightarrow> nat \<Rightarrow> int res" where
  "coerce_priority p index = (case p of
       Some (JInt n) \<Rightarrow> Inr n
     | Some (JFloat x) \<Rightarrow> Inr (truncate_rat x)
     | Some (JNonFinite NotANumber) \<Rightarrow> Inl (ValueError ''cannot convert float NaN to integer'')
     | Some (JNonFinite f) \<Rightarrow> Inl (OverflowError ''cannot convert float infinity to integer'')
     | _ \<Rightarrow> Inr (int index + 1))"

text \<open>The entries that are kept: objects with a non-blank description, at their index.\<close>

definition described :: "json \<Rightarrow> (string \<times> json option) option" where
  "described j = (case j of
       JObj d \<Rightarrow> (case map_of d ''description'' of
            Some (JStr desc) \<Rightarrow> (if strip desc = [] then None else Some (strip desc, map_of d ''priority''))
          | _ \<Rightarrow> None)
     | _ \<Rightarrow> None)"

fun coerce_entries :: "nat \<Rightarrow> json list \<Rightarrow> subgoal_plan list res" where
  "coerce_entries index [] = Inr []"
| "coerce_entries index (j # js) =
     (case described j of
        None \<Rightarrow> coerce_entries (Suc index) js
      | Some (desc, priority) \<Rightarrow>
         (case coerce_priority priority index of
            Inl e \<Rightarrow> Inl e
          | Inr n \<Rightarrow>
             (case coerce_entries (Suc index) js of
                Inl e \<Rightarrow> Inl e
              | Inr ps \<Rightarrow> Inr (\<lparr>sp_description = desc, sp_priority = n\<rparr> # ps))))"

definition coerce_subgoals :: "json list \<Rightarrow> subgoal_plan list res" where
  "coerce_subgoals payload = (case coerce_entries 0 payload of
       Inl e \<Rightarrow> Inl e
     | Inr ps \<Rightarrow> Inr (sort_key sp_priority ps))"

subsection \<open>Planning\<close>

definition fallback_plan :: "string \<Rightarrow> plan_result" where
  "fallback_plan goal = \<lparr>pl_subgoals = [\<lparr>sp_description = ''Work toward: '' @ goal, sp_priority = 1\<rparr>],
     pl_reasoning = Some ''Fallback: could not decompose goal via LLM''\<rparr>"

definition decompose_reply :: "string \<Rightarrow> dict \<Rightarrow> plan_result res" where
  "decompose_reply goal d =
     (case map_of d ''subgoals'' of
        Some (JList js) \<Rightarrow>
          (case coerce_subgoals js of
             Inl e \<Rightarrow> Inl e
           | Inr [] \<Rightarrow> Inr (fallback_plan goal)
           | Inr (p # ps) \<Rightarrow> Inr \<lparr>pl_subgoals = p # ps,
               pl_reasoning = (case map_of d ''reasoning'' of Some (JStr r) \<Rightarrow> Some r | _ \<Rightarrow> None)\<rparr>)
      | _ \<Rightarrow> Inr (fallback_plan goal))"

definition decompose :: "(string \<Rightarrow> json option) \<Rightarrow> provider \<Rightarrow> string \<Rightarrow> plan_result res" where
  "decompose loads llm goal =
     (case llm DecomposeSystem (''Mission goal: '' @ goal) of
        Inl e \<Rightarrow> Inr (fallback_plan goal)
      | Inr text \<Rightarrow>
         (case parse_json loads text of
            None \<Rightarrow> Inr (fallback_plan goal)
          | Some d \<Rightarrow> decompose_reply goal d))"

definition bullets :: "string list \<Rightarrow> string" where
  "bullets xs = joined [CHR 0x0A] (map (\<lambda>x. ''- '' @ x) xs)"

definition numbered :: "string list \<Rightarrow> string" where
  "numbered xs = joined [CHR 0x0A] (map (\<lambda>(i, x). str_int (int i + 1) @ ''. '' @ x) (enumerate 0 xs))"

definition feedback_sections :: "verifier_feedback \<Rightarrow> string list" where
  "feedback_sections f =
     [''## Verifier Feedback'' @ [CHR 0x0A] @ ''Passed: '' @ (if fb_passed f then ''true'' else ''false'') @
        [CHR 0x0A] @ ''Reason: '' @ fb_reason f] @
     (if fb_suggestions f \<noteq> [] then [''Suggestions:'' @ [CHR 0x0A] @ bullets (fb_suggestions f)] else [])"

definition build_step_prompt :: "plan_opts \<Rightarrow> string" where
  "build_step_prompt po = joined [CHR 0x0A, CHR 0x0A]
     ([''## Mission Goal'' @ [CHR 0x0A] @ po_goal po] @
      (if po_completed po \<noteq> [] then [''## Completed Steps'' @ [CHR 0x0A] @ numbered (po_completed po)] else []) @
      (if po_remaining po \<noteq> [] then [''## Remaining Subgoals'' @ [CHR 0x0A] @ bullets (po_remaining po)] else []) @
      (case po_feedback po of Some f \<Rightarrow> feedback_sections f | None \<Rightarrow> []))"

definition fallback_step :: "plan_opts \<Rightarrow> step_plan" where
  "fallback_step po = (case po_remaining po of
       g # gs \<Rightarrow> \<lparr>sn_description = ''Work on: '' @ g, sn_reasoning = ''Fallback: could not plan step via LLM'',
                 sn_revise = False, sn_target = Some g, sn_revised = []\<rparr>
     | [] \<Rightarrow> \<lparr>sn_description = ''Continue: '' @ po_goal po, sn_reasoning = ''Fallback: could not plan step via LLM'',
                 sn_revise = False, sn_target = None, sn_revised = []\<rparr>)"

definition step_target :: "plan_opts \<Rightarrow> bool \<Rightarrow> json option \<Rightarrow> string option" where
  "step_target po revise raw =
     (let otherwise = (if \<not> revise \<and> length (po_remaining po) = 1 then Some (hd (po_remaining po)) else None) in
      case raw of
        Some (JStr t) \<Rightarrow> (if t \<in> set (po_remaining po) then Some t else otherwise)
      | _ \<Rightarrow> otherwise)"

definition revised_subgoals :: "bool \<Rightarrow> dict \<Rightarrow> subgoal_plan list res" where
  "revised_subgoals revise d =
     (if revise
      then (case map_of d ''revisedSubgoals'' of Some (JList js) \<Rightarrow> coerce_subgoals js | _ \<Rightarrow> Inr [])
      else Inr [])"

definition plan_reply :: "plan_opts \<Rightarrow> dict \<Rightarrow> step_plan res" where
  "plan_reply po d =
     (case map_of d ''nextStep'' of
        Some (JStr nxt) \<Rightarrow>
          (let revise = (map_of d ''shouldRevise'' = Some (JBool True)) in
           case revised_subgoals revise d of
             Inl e \<Rightarrow> Inl e
           | Inr revised \<Rightarrow> Inr
              \<lparr>sn_description = strip nxt,
               sn_reasoning = (case map_of d ''reasoning'' of Some (JStr r) \<Rightarrow> r | _ \<Rightarrow> ''Continuing mission''),
               sn_revise = revise,
               sn_target = step_target po revise (map_of d ''targetSubgoal''),
               sn_revised = revised\<rparr>)
      | _ \<Rightarrow> Inr (fallback_step po))"

definition plan_next_step :: "(string \<Rightarrow> json option) \<Rightarrow> provider \<Rightarrow> plan_opts \<Rightarrow> step_plan res" where
  "plan_next_step loads llm po =
     (case llm PlanStepSystem (build_step_prompt po) of
        Inl e \<Rightarrow> Inr (fallback_step po)
      | Inr text \<Rightarrow>
         (case parse_json loads text of
            None \<Rightarrow> Inr (fallback_step po)
          | Some d \<Rightarrow> plan_reply po d))"

subsection \<open>Lemmas\<close>

lemma dropWhile_cons_head: "dropWhile P xs \<noteq> [] \<Longrightarrow> \<not> P (hd (dropWhile P xs))"
  by (rule hd_dropWhile)

lemma strip_strip [simp]: "strip (strip x) = strip x"
proof -
  let ?a = "dropWhile is_space x"
  let ?b = "rev (dropWhile is_space (rev ?a))"
  have last_ok: "?b \<noteq> [] \<Longrightarrow> \<not> is_space (last ?b)"
    by (metis hd_dropWhile last_rev rev_is_Nil_conv)
  have "\<exists>suf. ?a = ?b @ suf"
  proof -
    have "rev ?a = takeWhile is_space (rev ?a) @ dropWhile is_space (rev ?a)" by simp
    then have "?a = rev (dropWhile is_space (rev ?a)) @ rev (takeWhile is_space (rev ?a))"
      by (metis rev_append rev_rev_ident)
    then show ?thesis by blast
  qed
  then obtain suf where suf: "?a = ?b @ suf" by blast
  have "?b \<noteq> [] \<Longrightarrow> \<not> is_space (hd ?b)"
    by (metis append_is_Nil_conv hd_append2 hd_dropWhile suf)
  then have 1: "dropWhile is_space ?b = ?b" by (metis dropWhile_eq_self_iff)
  have 2: "dropWhile is_space (rev ?b) = rev ?b"
    using last_ok by (metis dropWhile_eq_self_iff hd_rev rev_is_Nil_conv)
  show ?thesis unfolding strip_def using 1 2 by simp
qed

text \<open>The kept entries, and those of them whose priority has no integer value.\<close>

definition not_finite :: "json option \<Rightarrow> bool" where
  "not_finite p \<longleftrightarrow> (case p of Some (JNonFinite f) \<Rightarrow> True | _ \<Rightarrow> False)"

definition unconvertible :: "json \<Rightarrow> bool" where
  "unconvertible j \<longleftrightarrow> (case described j of Some (desc, p) \<Rightarrow> not_finite p | None \<Rightarrow> False)"

lemma described_ok: "described j = Some q \<Longrightarrow> fst q \<noteq> [] \<and> strip (fst q) = fst q"
  by (auto simp: described_def split: json.splits option.splits if_splits)

lemma coerce_priority_raises: "(\<exists>e. coerce_priority p i = Inl e) \<longleftrightarrow> not_finite p"
  by (auto simp: coerce_priority_def not_finite_def split: option.splits json.splits nonfinite.splits)

lemma coerce_entries_raises: "(\<exists>e. coerce_entries i js = Inl e) \<longleftrightarrow> list_ex unconvertible js"
proof (induction js arbitrary: i)
  case (Cons j js)
  show ?case
  proof (cases "described j")
    case None
    with Cons.IH [of "Suc i"] show ?thesis by (simp add: unconvertible_def)
  next
    case (Some q)
    obtain desc p where q: "q = (desc, p)" by (cases q)
    have u: "unconvertible j \<longleftrightarrow> not_finite p" by (simp add: unconvertible_def Some q)
    show ?thesis
    proof (cases "coerce_priority p i")
      case (Inl e)
      with coerce_priority_raises [of p i] u Some q show ?thesis by simp
    next
      case (Inr n)
      with coerce_priority_raises [of p i] u have "\<not> unconvertible j" by simp
      with Cons.IH [of "Suc i"] Some q Inr show ?thesis
        by (cases "coerce_entries (Suc i) js") simp_all
    qed
  qed
qed simp

lemma coerce_entries_ok:
  "coerce_entries i js = Inr ps \<Longrightarrow> p \<in> set ps \<Longrightarrow> sp_description p \<noteq> [] \<and> strip (sp_description p) = sp_description p"
proof (induction js arbitrary: i ps)
  case (Cons j js)
  show ?case
  proof (cases "described j")
    case None
    with Cons show ?thesis by simp
  next
    case (Some q)
    with described_ok [OF Some] Cons.prems Cons.IH [of "Suc i"] show ?thesis
      by (cases q) (auto split: sum.splits)
  qed
qed simp

lemma coerce_entries_descriptions:
  "coerce_entries i js = Inr ps \<Longrightarrow> map sp_description ps = map fst (List.map_filter described js)"
proof (induction js arbitrary: i ps)
  case (Cons j js)
  then show ?case
    by (auto simp: List.map_filter_simps split: option.splits sum.splits prod.splits)
qed (simp add: List.map_filter_simps)

lemma coerce_subgoals_raises: "(\<exists>e. coerce_subgoals js = Inl e) \<longleftrightarrow> list_ex unconvertible js"
  using coerce_entries_raises [of 0 js] by (auto simp: coerce_subgoals_def split: sum.split)

lemma coerce_subgoals_ok:
  assumes "coerce_subgoals js = Inr ps"
  shows "sorted (map sp_priority ps)"
    and "p \<in> set ps \<Longrightarrow> sp_description p \<noteq> [] \<and> strip (sp_description p) = sp_description p"
  using assms coerce_entries_ok by (auto simp: coerce_subgoals_def split: sum.splits)

lemma step_target_in: "step_target po r j = Some t \<Longrightarrow> t \<in> set (po_remaining po)"
  by (cases "po_remaining po") (auto simp: step_target_def Let_def split: option.splits json.splits if_splits)

end
