(* ===== verification/Mission_Control_Claims.thy ===== *)
theory Mission_Control_Claims
  imports Mission_Loop Mission_Claims Mission_Checkpoint_Props Mission_Planner
begin

text \<open>The properties of the control plane, the code verifiers, the checkpoints and the planner.\<close>

subsection \<open>The mission loop finishes\<close>

text \<open>
  C18. The mission loop completes every mission that consists of subgoals: with the fallback
  verifier, \<open>n > 0\<close> open subgoals, none failed, no cap on the steps and at least \<open>n\<close> iterations
  allowed, it returns after exactly \<open>n\<close> steps with a passed verification, and the mission is
  completed in the database. (Identifiers drawn on the way must be new.)
\<close>

theorem subgoal_loop_completes:
  assumes "ready mid n (mg_store s)" and "fresh_ids (2 * n) (mg_store s)" and "watched mid s"
    and "0 < n" and "int n \<le> k"
  shows "\<exists>s'. run_legacy_mission_loop (control_env sh user listen lp) mid goal k desc s =
      (Inr \<lparr>rr_final = ''completed'', rr_steps = int n, rr_passed = True\<rparr>, s') \<and> status_of mid s' = Some ''completed''"
proof -
  obtain n' where n: "n = Suc n'" using assms(4) by (cases n) auto
  have "\<exists>s'. run_loop (nat k) (control_env sh user listen lp) (legacy_executor goal k (explicit_description desc)) mid 1 0 s =
      (Inr \<lparr>rr_final = ''completed'', rr_steps = 0 + int (Suc n'), rr_passed = True\<rparr>, s')"
    using assms n by (intro loop_completes) auto
  then obtain s' where s': "run_loop (nat k) (control_env sh user listen lp)
      (legacy_executor goal k (explicit_description desc)) mid 1 0 s =
      (Inr \<lparr>rr_final = ''completed'', rr_steps = int n, rr_passed = True\<rparr>, s')" using n by auto
  have "status_of mid s' = Some ''completed''" using run_loop_Inr [OF s'] assms(4,5) by auto
  with s' show ?thesis by (simp add: run_legacy_mission_loop_def run_until_done_def)
qed

definition demo_open :: "verifier mstate" where
  "demo_open = snd (bind (mgr_create demo_env ''m'' ''g'' None None) (\<lambda>mid.
     bind (mgr_add_subgoal mid ''a'' 1) (\<lambda>_.
     bind (mgr_add_subgoal mid ''b'' 2) (\<lambda>_.
     set_verifier mid (FallbackVerifier mid)))) (create_manager demo_world None))"

lemma demo_open_ready: "ready demo_mid 2 (mg_store demo_open)"
proof -
  let ?st = "mg_store demo_open"
  obtain m where m: "fst (get_mission demo_mid ?st) = Inr (Some m)" and "m_status m = ''active''" and "m_budget m = None"
  proof -
    have "(case fst (get_mission demo_mid ?st) of Inr (Some m) \<Rightarrow> m_status m = ''active'' \<and> m_budget m = None | _ \<Rightarrow> False)"
      by code_simp
    then show thesis using that by (auto split: sum.splits option.splits)
  qed
  moreover from m have "get_mission demo_mid ?st = (Inr (Some m), ?st)"
    using pure_get_mission [of demo_mid ?st] by (metis prod.collapse)
  ultimately have "unlimited_active demo_mid ?st" by (simp add: unlimited_active_def)
  moreover have "open_count demo_mid ?st = 2" by code_simp
  moreover have "mission_subgoals demo_mid ?st \<noteq> []" by code_simp
  moreover have "list_all (\<lambda>g. sg_status g \<in> settled_statuses) (mission_subgoals demo_mid ?st)" by code_simp
  moreover have "distinct (map sg_id (t_subgoals ?st))" by code_simp
  ultimately show ?thesis by (simp add: ready_def list_all_iff)
qed

theorem subgoal_loop_completes_witness:
  "\<exists>s'. run_legacy_mission_loop demo_env demo_mid ''g'' 5 None demo_open =
      (Inr \<lparr>rr_final = ''completed'', rr_steps = 2, rr_passed = True\<rparr>, s')"
proof -
  have f: "fresh_ids (2 * 2) (mg_store demo_open)" by code_simp
  have w: "watched demo_mid demo_open" by code_simp
  from subgoal_loop_completes [OF demo_open_ready f w, of 5 demo_shell demo_user "\<lambda>_ _. Inr ()" False "''g''" None]
  show ?thesis by (auto simp: demo_env_def)
qed

subsection \<open>Code missions\<close>

text \<open>
  The composite verifier passes exactly when every command exits with 0, and otherwise reports
  the result of the first failing command in declaration order, tagged with that command.
\<close>

theorem composite_first_failure:
  "code_verify sh (CompositeVerifier cs) s =
     (Inr (case find (\<lambda>(cmd, cwd). \<not> vr_passed (command_result sh cmd (sh_run sh (ticks (st_world (mg_store s))) cmd cwd))) cs of
         None \<Rightarrow> \<lparr>vr_passed = True, vr_reason = ''All '' @ str_int (int (length cs)) @ '' verifier(s) passed'',
                  vr_suggestions = [], vr_metadata = [(''verifierCount'', JInt (int (length cs)))]\<rparr>
       | Some (cmd, cwd) \<Rightarrow> fail_composite cmd
           (command_result sh cmd (sh_run sh (ticks (st_world (mg_store s))) cmd cwd))), s)"
proof -
  have "composite_verify (map (\<lambda>(cmd, cwd). (cmd, command_verify sh cmd cwd)) cs) n s =
     (Inr (case find (\<lambda>(cmd, cwd). \<not> vr_passed (command_result sh cmd (sh_run sh (ticks (st_world (mg_store s))) cmd cwd))) cs of
         None \<Rightarrow> \<lparr>vr_passed = True, vr_reason = ''All '' @ str_int (int n) @ '' verifier(s) passed'',
                  vr_suggestions = [], vr_metadata = [(''verifierCount'', JInt (int n))]\<rparr>
       | Some (cmd, cwd) \<Rightarrow> fail_composite cmd
           (command_result sh cmd (sh_run sh (ticks (st_world (mg_store s))) cmd cwd))), s)" for n
    by (induction cs) (auto simp: command_verify_def bind_def)
  then show ?thesis by (simp add: code_verify_def)
qed

lemma create_mission_Inr:
  assumes "create_mission name goal b md st = (Inr mid, st')"
  shows "\<exists>r. find_by rw_id mid (t_missions st') = Some r \<and> rw_metadata r = Some (JObj (case md of Some m \<Rightarrow> m | None \<Rightarrow> []))"
  using assms
  by (auto simp: create_mission_def bind_def record_id_run clock_run insert_mission_def andthen_def has_mission_def
      find_by_append simp del: find_by_None split: if_splits option.splits)
     (metis find_by_None option.distinct(1) image_eqI)+

lemma code_metadata_lookup:
  assumes "map_of (cs_metadata spec) ''lintCommand'' = None" and "map_of (cs_metadata spec) ''buildCommand'' = None"
  shows "map_of (code_mission_metadata spec) ''missionType'' = Some (JStr ''code'')"
    and "map_of (code_mission_metadata spec) ''repoPath'' = Some (JStr (cs_repo_path spec))"
    and "map_of (code_mission_metadata spec) ''testCommand'' = Some (JStr (cs_test_command spec))"
    and "json_string (map_of (code_mission_metadata spec) ''lintCommand'') = cs_lint_command spec"
    and "json_string (map_of (code_mission_metadata spec) ''buildCommand'') = cs_build_command spec"
  using assms
  by (auto simp: code_mission_metadata_def Let_def update_conv' map_of_dict_merge json_string_def map_add_def
      simp del: dict_merge_Cons split: option.splits)

text \<open>
  A restart loses no verifier of a code mission: rebuilding the verifier from the metadata
  that creation stored gives exactly the verifier that creation attached (provided the caller's
  own metadata does not already use the keys of the optional commands).
\<close>

theorem code_verifier_rehydrates:
  assumes "create_code_mission env spec s = (Inr mid, s1)"
    and "map_of (cs_metadata spec) ''lintCommand'' = None" and "map_of (cs_metadata spec) ''buildCommand'' = None"
    and "get_mission mid (mg_store s1) = (Inr (Some m), st)"
  shows "map_of (mg_verifiers s1) mid = Some (CodeVerifier (build_code_mission_verifier spec)) \<and>
    rehydrate_mission_verifier m s2 = (Inr True, s2\<lparr>mg_verifiers :=
      AList.update mid (CodeVerifier (build_code_mission_verifier spec)) (mg_verifiers s2)\<rparr>)"
proof -
  from assms(1) obtain mid' s' u s'' where c: "mgr_create env (cs_name spec) (cs_goal spec) (cs_budget spec)
      (Some (code_mission_metadata spec)) s = (Inr mid', s')"
    and a: "attach_code_mission_verifier mid' spec s' = (Inr u, s'')" and "ret mid' s'' = (Inr mid, s1)"
    unfolding create_code_mission_def andthen_def by (elim bind_InrE) (rule that)
  then have mid: "mid' = mid" and s1: "s1 = s'\<lparr>mg_verifiers :=
      AList.update mid (CodeVerifier (build_code_mission_verifier spec)) (mg_verifiers s')\<rparr>"
    by (auto simp: attach_code_mission_verifier_def set_verifier_def)
  from c obtain s3 where "on_store (create_mission (cs_name spec) (cs_goal spec) (cs_budget spec)
      (Some (code_mission_metadata spec))) s = (Inr mid, s3)" and "tables s' = tables s3"
    unfolding mgr_create_def mid
    by (elim bind_InrE) (auto simp: andthen_def emit_created_def dest: emit_Inr_tables elim!: bind_InrE simp del: on_store_run)
  then obtain r where "find_by rw_id mid (t_missions (mg_store s1)) = Some r"
    and "rw_metadata r = Some (JObj (code_mission_metadata spec))"
    using create_mission_Inr [of "cs_name spec" "cs_goal spec" "cs_budget spec" "Some (code_mission_metadata spec)"
        "mg_store s" mid "mg_store s3"] tables_fields(1) [of s' s3]
    by (auto simp: on_store_Inr s1 simp del: on_store_run)
  with assms(4) have md: "m_metadata m = code_mission_metadata spec" and id: "m_id m = mid"
    by (auto simp: get_mission_Inr mission_from_row_fields dest: find_by_SomeD)
  have "rehydrate_mission_verifier m s2 = (Inr True, s2\<lparr>mg_verifiers :=
      AList.update mid (CodeVerifier (build_code_mission_verifier spec)) (mg_verifiers s2)\<rparr>)"
    unfolding rehydrate_mission_verifier_def md code_metadata_lookup [OF assms(2,3)]
    by (simp add: json_string_def id attach_code_mission_verifier_def set_verifier_def build_code_mission_verifier_def)
  then show ?thesis by (simp add: s1 update_conv')
qed

definition demo_spec :: code_mission_spec where
  "demo_spec = \<lparr>cs_name = ''n'', cs_goal = ''g'', cs_repo_path = ''/r'', cs_test_command = ''true'',
     cs_lint_command = Some ''lint'', cs_build_command = None, cs_budget = None, cs_metadata = [(''owner'', JStr ''o'')]\<rparr>"

theorem code_verifier_rehydrates_witness:
  "\<exists>m s1. create_code_mission demo_env demo_spec (create_manager demo_world None) = (Inr demo_mid, s1) \<and>
     rehydrate_mission_verifier m (create_manager demo_world None) = (Inr True, (create_manager demo_world None)\<lparr>mg_verifiers :=
       [(demo_mid, CodeVerifier (CompositeVerifier [(''true'', ''/r''), (''lint'', ''/r'')]))]\<rparr>)"
proof -
  let ?s = "create_manager demo_world None"
  let ?c = "create_code_mission demo_env demo_spec ?s"
  have c: "?c = (Inr demo_mid, snd ?c)"
  proof -
    have "fst ?c = Inr demo_mid" by code_simp
    then show ?thesis by (metis prod.collapse)
  qed
  have "(case fst (get_mission demo_mid (mg_store (snd ?c))) of Inr (Some m) \<Rightarrow> True | _ \<Rightarrow> False)" by code_simp
  then obtain m where m: "get_mission demo_mid (mg_store (snd ?c)) = (Inr (Some m), snd (get_mission demo_mid (mg_store (snd ?c))))"
    by (auto split: sum.splits option.splits) (metis prod.collapse)
  have "build_code_mission_verifier demo_spec = CompositeVerifier [(''true'', ''/r''), (''lint'', ''/r'')]" by code_simp
  moreover have "mg_verifiers (?s :: verifier mstate) = []" by (simp add: create_manager_def)
  moreover have "map_of (cs_metadata demo_spec) ''lintCommand'' = None" "map_of (cs_metadata demo_spec) ''buildCommand'' = None"
    by (simp_all add: demo_spec_def)
  ultimately have "rehydrate_mission_verifier m ?s = (Inr True, ?s\<lparr>mg_verifiers :=
       [(demo_mid, CodeVerifier (CompositeVerifier [(''true'', ''/r''), (''lint'', ''/r'')]))]\<rparr>)"
    using code_verifier_rehydrates [OF c _ _ m, of ?s] by simp
  with c show ?thesis by blast
qed

subsection \<open>Checkpoints\<close>

text \<open>
  C25. Saving a mission and loading the file into a database in which its identifiers are not taken
  gives the mission back: the same mission record, the same steps, subgoals and verifications in
  the same order, but for infinities and NaN in the metadata of the mission and of the
  verifications, which come back as \<open>null\<close>; without any, everything comes back as it was. (Its texts
  have to be stamped and its budget, if any, must contain a limit.)
\<close>

theorem checkpoint_round_trip:
  assumes "save_checkpoint mid dir s = (Inr (path, j), s')" and "priorities_fit s" and "store_ok st"
    and "get_mission mid s = (Inr (Some m), s)" and "get_steps mid s = (Inr xs, s)"
    and "get_subgoals mid s = (Inr gs, s)" and "get_verifications mid s = (Inr vs, s)"
    and "restorable m xs gs vs st" and "stamped m xs gs vs" and "budget_restorable m"
  shows "(\<exists>st'. load_checkpoint sq j st = (Inr mid, st') \<and> get_mission mid st' = (Inr (Some (json_mission m)), st') \<and>
      get_steps mid st' = (Inr xs, st') \<and> get_subgoals mid st' = (Inr gs, st') \<and>
      get_verifications mid st' = (Inr (map json_verification vs), st')) \<and>
    (finite_json (JObj (m_metadata m)) \<longrightarrow> json_mission m = m) \<and>
    (list_all (\<lambda>v. finite_json (JObj (mv_metadata v))) vs \<longrightarrow> map json_verification vs = vs)"
proof -
  note rows = saved_rows_of_mission [OF assms(4-6)]
  from save_checkpoint_Inr [OF assms(1)] obtain u t where j: "j = checkpoint_payload t m xs gs vs u"
    using assms(4-7) by (metis Pair_inject option.inject sum.inject(2))
  let ?st' = "st\<lparr>t_missions := t_missions st @ [mission_row_of (json_mission m)], t_steps := t_steps st @ xs,
       t_subgoals := t_subgoals st @ gs,
       t_verifications := t_verifications st @ map (verification_row_of mid) (map json_verification vs)\<rparr>"
  have load: "load_checkpoint sq j st = (Inr mid, ?st')"
    using load_dumped [OF assms(8-10)] rows(1-3) saved_priorities [OF assms(2,6)] by (simp add: j flip: comp_def)
  have new: "\<not> has_mission mid st" using assms(8) rows(1) by (simp add: restorable_def)
  then have "mid \<notin> mission_ids st" by (simp add: has_mission_def mission_ids_def)
  then have none: "\<forall>r \<in> set (t_steps st). ms_mission r \<noteq> mid" "\<forall>r \<in> set (t_subgoals st). sg_mission r \<noteq> mid"
    "\<forall>r \<in> set (t_verifications st). vw_mission r \<noteq> mid"
    using assms(3) by (auto simp: store_ok_def steps_ok_def subgoals_ok_def verifications_ok_def)
  have "get_mission mid ?st' = (Inr (Some (json_mission m)), ?st')"
    using get_mission_restored [of "json_mission m" st ?st'] new rows(1,4) assms(10) by simp
  moreover have "get_steps mid ?st' = (Inr xs, ?st')" by (rule get_steps_restored [OF none(1) assms(5)]) simp
  moreover have "get_subgoals mid ?st' = (Inr gs, ?st')" by (rule get_subgoals_restored [OF none(2) assms(6)]) simp
  moreover have "get_verifications mid ?st' = (Inr (map json_verification vs), ?st')"
    by (rule get_verifications_restored [OF none(3) assms(7)]) simp
  moreover have "list_all (\<lambda>v. finite_json (JObj (mv_metadata v))) vs \<Longrightarrow> map json_verification vs = vs"
    by (induction vs) (simp_all add: json_verification_finite)
  ultimately show ?thesis using load json_mission_finite by blast
qed

definition demo_sqlite :: sqlite where
  "demo_sqlite = \<lparr>sq_str = (\<lambda>_. ''?''), sq_real = (\<lambda>_. ''0.0'')\<rparr>"

definition unfinite :: verifier_result where
  "unfinite = passing\<lparr>vr_metadata := [(''cost'', JList [JInt 1, JNonFinite NotANumber])]\<rparr>"

definition demo_saved :: store where
  "demo_saved = snd (bind (create_mission ''m'' ''g'' (Some (demo_budget 9)) None) (\<lambda>mid.
     andthen (bind (add_step mid ''first'') (\<lambda>_. add_step mid ''second''))
     (andthen (bind (add_subgoal mid ''a'' 2) (\<lambda>_. add_subgoal mid ''b'' 1))
     (record_verification mid unfinite))) (empty_store demo_world))"

definition demo_saved_mission :: mission where
  "demo_saved_mission = the (projr (fst (get_mission demo_mid demo_saved)))"

definition demo_saved_steps :: "mission_step list" where
  "demo_saved_steps = projr (fst (get_steps demo_mid demo_saved))"

definition demo_saved_subgoals :: "mission_subgoal list" where
  "demo_saved_subgoals = projr (fst (get_subgoals demo_mid demo_saved))"

definition demo_saved_verifications :: "verification list" where
  "demo_saved_verifications = projr (fst (get_verifications demo_mid demo_saved))"

lemma demo_reads:
  "fst (get_mission demo_mid demo_saved) = Inr (Some demo_saved_mission)"
  "fst (get_steps demo_mid demo_saved) = Inr demo_saved_steps"
  "fst (get_subgoals demo_mid demo_saved) = Inr demo_saved_subgoals"
  "fst (get_verifications demo_mid demo_saved) = Inr demo_saved_verifications"
  by code_simp+

lemma demo_stamps:
  "m_id demo_saved_mission = demo_mid" "m_budget demo_saved_mission = Some (demo_budget 9)"
  "distinct (map ms_id demo_saved_steps)" "distinct (map sg_id demo_saved_subgoals)"
  "distinct (map mv_id demo_saved_verifications)" "m_created_at demo_saved_mission \<noteq> []"
  "list_all (\<lambda>x. ms_created_at x \<noteq> []) demo_saved_steps" "list_all (\<lambda>x. sg_created_at x \<noteq> []) demo_saved_subgoals"
  "list_all (\<lambda>x. mv_created_at x \<noteq> [] \<and> mv_id x \<noteq> []) demo_saved_verifications" "priorities_fit demo_saved"
  "map mv_metadata (map json_verification demo_saved_verifications) = [[(''cost'', JList [JInt 1, JNull])]]"
  by code_simp+

theorem checkpoint_round_trip_witness:
  "\<exists>path j s' st'. save_checkpoint demo_mid [''runs''] demo_saved = (Inr (path, j), s') \<and>
     load_checkpoint demo_sqlite j (empty_store demo_world) = (Inr demo_mid, st') \<and>
     fst (get_steps demo_mid st') = fst (get_steps demo_mid demo_saved) \<and>
     map mv_metadata (projr (fst (get_verifications demo_mid st'))) = [[(''cost'', JList [JInt 1, JNull])]]"
proof -
  let ?s = demo_saved
  have pure: "snd (get_mission demo_mid ?s) = ?s" "snd (get_steps demo_mid ?s) = ?s" "snd (get_subgoals demo_mid ?s) = ?s"
    "snd (get_verifications demo_mid ?s) = ?s"
    by (simp_all add: pure_get_mission get_steps_def get_subgoals_def get_verifications_def)
  let ?m = demo_saved_mission and ?xs = demo_saved_steps and ?gs = demo_saved_subgoals and ?vs = demo_saved_verifications
  from demo_reads pure have r: "get_mission demo_mid ?s = (Inr (Some ?m), ?s)" "get_steps demo_mid ?s = (Inr ?xs, ?s)"
    "get_subgoals demo_mid ?s = (Inr ?gs, ?s)" "get_verifications demo_mid ?s = (Inr ?vs, ?s)"
    by (metis prod.collapse)+
  have "\<not> isl (fst (save_checkpoint demo_mid [''runs''] ?s))" by code_simp
  then obtain path j s' where save: "save_checkpoint demo_mid [''runs''] ?s = (Inr (path, j), s')"
    by (cases "save_checkpoint demo_mid [''runs''] ?s"; cases "fst (save_checkpoint demo_mid [''runs''] ?s)") auto
  have "restorable ?m ?xs ?gs ?vs (empty_store demo_world)"
    using demo_stamps by (simp add: restorable_def empty_store_def has_mission_def)
  moreover have "stamped ?m ?xs ?gs ?vs" using demo_stamps by (auto simp: stamped_def list_all_iff)
  moreover have "budget_restorable ?m"
    by (simp add: demo_stamps budget_restorable_def valid_budget_def no_limits_def demo_budget_def positive_def)
  ultimately obtain st' where "load_checkpoint demo_sqlite j (empty_store demo_world) = (Inr demo_mid, st')"
      "get_steps demo_mid st' = (Inr ?xs, st')" "get_verifications demo_mid st' = (Inr (map json_verification ?vs), st')"
    using checkpoint_round_trip [OF save demo_stamps(10) store_ok_empty r, of demo_world demo_sqlite] by blast
  with save r(2) demo_stamps(11) show ?thesis
    by (intro exI [of _ path] exI [of _ j] exI [of _ s'] exI [of _ st']) (simp del: map_map)
qed

text \<open>
  C26. Loading a checkpoint is all or nothing: if it raises, whatever the file contains and
  wherever the failure happens, the tables of missions, steps, subgoals and verifications are as
  they were.
\<close>

theorem load_checkpoint_atomic:
  assumes "load_checkpoint sq j st = (Inl e, st')"
  shows "t_missions st' = t_missions st \<and> t_steps st' = t_steps st \<and>
    t_verifications st' = t_verifications st \<and> t_subgoals st' = t_subgoals st"
  using load_checkpoint_Inl [OF assms] by (simp add: tabs_def)

theorem load_checkpoint_atomic_witness:
  "\<exists>e st'. load_checkpoint demo_sqlite (JObj [(''mission'', JObj [(''id'', JStr ''m1''), (''name'', JStr ''n''),
      (''goal'', JStr ''g''), (''status'', JStr ''active'')]), (''steps'', JList [JObj [(''id'', JStr ''s1'')]])])
      (empty_store demo_world) = (Inl e, st') \<and> t_missions st' = []"
proof -
  let ?l = "load_checkpoint demo_sqlite (JObj [(''mission'', JObj [(''id'', JStr ''m1''), (''name'', JStr ''n''),
      (''goal'', JStr ''g''), (''status'', JStr ''active'')]), (''steps'', JList [JObj [(''id'', JStr ''s1'')]])])
      (empty_store demo_world)"
  have "fst ?l = Inl (KeyError ''description'')" by code_simp
  then have "?l = (Inl (KeyError ''description''), snd ?l)" by (metis prod.collapse)
  then show ?thesis using load_checkpoint_atomic by (fastforce simp: empty_store_def)
qed

text \<open>
  Loading does not check statuses: a file with a mission status outside the declared set is
  restored and committed, and from then on every read of that mission raises. (The store guards
  every status it writes itself against this.)
\<close>

theorem load_accepts_unknown_status:
  assumes "restorable m xs gs vs st" and "stamped m xs gs vs" and "budget_restorable m"
    and "\<forall>x \<in> set xs. ms_mission x = m_id m" and "\<forall>g \<in> set gs. sg_mission g = m_id m \<and> sqlite_integer (sg_priority g)"
    and "m_status m \<notin> set mission_statuses"
  shows "\<exists>st'. load_checkpoint sq (checkpoint_payload t m xs gs vs u) st = (Inr (m_id m), st') \<and>
    get_mission (m_id m) st' = (Inl (validation_error ''Mission''), st')"
proof -
  have "find_by rw_id (m_id m) (t_missions st) = None"
    using assms(1) by (simp add: restorable_def has_mission_def)
  moreover have "mission_from_row (mission_row_of (json_mission m)) = Inl (validation_error ''Mission'')"
  proof (cases "m_budget m")
    case None
    then show ?thesis using assms(6) by (simp add: mission_from_row_def mission_row_of_def budget_from_camel_def)
  next
    case (Some b)
    with assms(3) have "budget_from_camel (Some (budget_to_camel b)) = Inr (Some b)"
      by (simp add: budget_restorable_def budget_round_trip)
    with Some assms(6) show ?thesis by (simp add: mission_from_row_def mission_row_of_def)
  qed
  ultimately show ?thesis
    unfolding load_dumped [OF assms(1-5)]
    by (simp add: get_mission_def bind_def find_by_append mission_row_of_def [of "json_mission m", THEN arg_cong [where f = rw_id]]
        del: find_by_None)
qed

definition demo_bad_mission :: mission where
  "demo_bad_mission = \<lparr>m_id = ''m1'', m_name = ''n'', m_goal = ''g'', m_status = ''done'', m_budget = None, m_metadata = [],
     m_created_at = ''t'', m_updated_at = None, m_completed_at = None\<rparr>"

theorem load_accepts_unknown_status_witness:
  "\<exists>j st'. load_checkpoint demo_sqlite j (empty_store demo_world) = (Inr ''m1'', st') \<and>
     get_mission ''m1'' st' = (Inl (validation_error ''Mission''), st')"
  using load_accepts_unknown_status [of demo_bad_mission "[]" "[]" "[]" "empty_store demo_world" demo_sqlite "''t''"
      "\<lparr>bu_steps_used = 0, bu_max_steps = None, bu_max_cost = None, bu_exhausted = False\<rparr>"]
  by (auto simp: demo_bad_mission_def restorable_def stamped_def budget_restorable_def empty_store_def has_mission_def
      mission_statuses_def)

subsection \<open>Planning\<close>

definition good_plan :: "string \<Rightarrow> plan_result \<Rightarrow> bool" where
  "good_plan goal p \<longleftrightarrow> pl_subgoals p \<noteq> [] \<and> sorted (map sp_priority (pl_subgoals p)) \<and>
     (p = fallback_plan goal \<or>
      list_all (\<lambda>q. sp_description q \<noteq> [] \<and> strip (sp_description q) = sp_description q) (pl_subgoals p))"

definition good_step :: "plan_opts \<Rightarrow> step_plan \<Rightarrow> bool" where
  "good_step po p \<longleftrightarrow> pred_option (\<lambda>t. t \<in> set (po_remaining po)) (sn_target p) \<and>
     (sn_revise p \<or> sn_revised p = []) \<and> sorted (map sp_priority (sn_revised p))"

lemma fallback_plan_good: "good_plan goal (fallback_plan goal)"
  by (simp add: good_plan_def fallback_plan_def)

lemma fallback_step_good: "good_step po (fallback_step po)"
  by (simp add: good_step_def fallback_step_def split: list.split)

lemma decompose_reply_cases:
  "(\<exists>js. map_of d ''subgoals'' = Some (JList js) \<and> list_ex unconvertible js \<and> (\<exists>e. decompose_reply goal d = Inl e)) \<or>
   (\<nexists>js. map_of d ''subgoals'' = Some (JList js) \<and> list_ex unconvertible js) \<and>
      (\<exists>p. decompose_reply goal d = Inr p \<and> good_plan goal p)"
proof (cases "\<exists>js. map_of d ''subgoals'' = Some (JList js)")
  case False
  then have "decompose_reply goal d = Inr (fallback_plan goal)"
    by (auto simp: decompose_reply_def split: option.splits json.splits)
  with False fallback_plan_good show ?thesis by blast
next
  case True
  then obtain js where js: "map_of d ''subgoals'' = Some (JList js)" by blast
  show ?thesis
  proof (cases "coerce_subgoals js")
    case (Inl e)
    with js coerce_subgoals_raises [of js] show ?thesis by (auto simp: decompose_reply_def)
  next
    case (Inr ps)
    with coerce_subgoals_raises [of js] have "\<not> list_ex unconvertible js" by auto
    moreover have "\<exists>p. decompose_reply goal d = Inr p \<and> good_plan goal p"
      using coerce_subgoals_ok [OF Inr] fallback_plan_good
      by (cases ps) (simp_all add: decompose_reply_def js Inr good_plan_def list_all_iff)
    ultimately show ?thesis using js by auto
  qed
qed

lemma plan_reply_good: "plan_reply po d = Inr p \<Longrightarrow> good_step po p"
proof (cases "\<exists>nxt. map_of d ''nextStep'' = Some (JStr nxt)")
  case False
  then have "plan_reply po d = Inr (fallback_step po)"
    by (auto simp: plan_reply_def split: option.splits json.splits)
  moreover assume "plan_reply po d = Inr p"
  ultimately show ?thesis using fallback_step_good by simp
next
  case True
  assume p: "plan_reply po d = Inr p"
  have "sorted (map sp_priority ps)" "\<not> r \<Longrightarrow> ps = []" if "revised_subgoals r d = Inr ps" for r ps
    using that coerce_subgoals_ok(1) by (auto simp: revised_subgoals_def split: if_splits option.splits json.splits)
  moreover have "pred_option (\<lambda>t. t \<in> set (po_remaining po)) (step_target po r j)" for r j
    using step_target_in by (auto simp: pred_option_def)
  moreover obtain nxt where "map_of d ''nextStep'' = Some (JStr nxt)" using True by blast
  moreover define r where "r = (map_of d ''shouldRevise'' = Some (JBool True))"
  moreover obtain ps where "revised_subgoals r d = Inr ps"
    using p True by (auto simp: plan_reply_def Let_def r_def split: sum.splits)
  ultimately show ?thesis
    using p by (auto simp: plan_reply_def Let_def good_step_def simp flip: r_def) (cases r; simp)
qed

text \<open>
  Planning survives whatever the model answers, with one exception. A decomposition raises
  exactly when the model's JSON lists a described subgoal whose priority is \<open>Infinity\<close>,
  \<open>-Infinity\<close> or \<open>NaN\<close>; otherwise it has at least one subgoal, in order of priority, and is the
  fallback plan or has only non-blank stripped descriptions. A planned step that names a target
  names one of the remaining subgoals, and revised subgoals appear only in a revision, in order.
\<close>

theorem planner_output_well_formed:
  "(case decompose loads llm goal of
      Inl e \<Rightarrow> \<exists>reply d js. llm DecomposeSystem (''Mission goal: '' @ goal) = Inr reply \<and>
        parse_json loads reply = Some d \<and> map_of d ''subgoals'' = Some (JList js) \<and> list_ex unconvertible js
    | Inr p \<Rightarrow> good_plan goal p \<and>
        (\<nexists>reply d js. llm DecomposeSystem (''Mission goal: '' @ goal) = Inr reply \<and>
          parse_json loads reply = Some d \<and> map_of d ''subgoals'' = Some (JList js) \<and> list_ex unconvertible js)) \<and>
   (case plan_next_step loads llm po of Inl e \<Rightarrow> True | Inr p \<Rightarrow> good_step po p)"
proof
  show "case decompose loads llm goal of
      Inl e \<Rightarrow> \<exists>reply d js. llm DecomposeSystem (''Mission goal: '' @ goal) = Inr reply \<and>
        parse_json loads reply = Some d \<and> map_of d ''subgoals'' = Some (JList js) \<and> list_ex unconvertible js
    | Inr p \<Rightarrow> good_plan goal p \<and>
        (\<nexists>reply d js. llm DecomposeSystem (''Mission goal: '' @ goal) = Inr reply \<and>
          parse_json loads reply = Some d \<and> map_of d ''subgoals'' = Some (JList js) \<and> list_ex unconvertible js)"
  proof (cases "llm DecomposeSystem (''Mission goal: '' @ goal)")
    case (Inl e)
    then show ?thesis by (simp add: decompose_def fallback_plan_good)
  next
    case (Inr reply)
    show ?thesis
    proof (cases "parse_json loads reply")
      case None
      with Inr show ?thesis by (simp add: decompose_def fallback_plan_good)
    next
      case (Some d)
      then show ?thesis using Inr decompose_reply_cases [of d goal] by (auto simp: decompose_def)
    qed
  qed
  show "case plan_next_step loads llm po of Inl e \<Rightarrow> True | Inr p \<Rightarrow> good_step po p"
    using plan_reply_good fallback_step_good
    by (auto simp: plan_next_step_def split: sum.split option.split)
qed

text \<open>
  The exception is real: a reply that lists a subgoal with the priority \<open>Infinity\<close> (or a number
  too large for a double) makes \<open>decompose\<close> raise \<open>OverflowError\<close> instead of falling back.
\<close>

theorem decompose_raises_on_infinity:
  assumes "llm DecomposeSystem (''Mission goal: '' @ goal) = Inr reply"
    and "loads (strip reply) = Some (JObj d)"
    and "map_of d ''subgoals'' = Some (JList (JObj g # js))"
    and "map_of g ''description'' = Some (JStr desc)" and "strip desc \<noteq> []"
    and "map_of g ''priority'' = Some (JNonFinite PosInf)"
  shows "decompose loads llm goal = Inl (OverflowError ''cannot convert float infinity to integer'')"
  using assms by (simp add: decompose_def parse_json_def as_dict_def decompose_reply_def coerce_subgoals_def
      described_def coerce_priority_def)

definition demo_reply_dict :: dict where
  "demo_reply_dict = [(''subgoals'', JList [JObj [(''description'', JStr ''a''), (''priority'', JNonFinite PosInf)]])]"

theorem decompose_raises_on_infinity_witness:
  "decompose (\<lambda>x. if x = ''R'' then Some (JObj demo_reply_dict) else None) (\<lambda>sp p. Inr ''R'') ''g'' =
     Inl (OverflowError ''cannot convert float infinity to integer'')"
  by (rule decompose_raises_on_infinity
      [of _ _ "''R''" _ demo_reply_dict "[(''description'', JStr ''a''), (''priority'', JNonFinite PosInf)]" "[]" "''a''"])
     (simp_all add: demo_reply_dict_def strip_def is_space_def)

end
