(* ===== verification/Sched_Types.thy ===== *)
theory Sched_Types
  imports Effects
begin

text \<open>
  The value types of the campaign scheduler, \<^verbatim>\<open>execution/campaign_scheduler_models.py\<close>:
  resources, budgets, evaluation lanes, workers, evidence grants, jobs, results and leases.

  Amounts that the code keeps as floating-point numbers (seconds, cores, compute units) have an
  abstract type \<open>'f\<close> with an order, a zero, an addition and a subtraction, and no law of
  arithmetic at all: nothing proved here relies on sums of doubles being exact. The constructors'
  checks that such a number is finite are part of the type; a sum that overflows to infinity is
  outside the model. Amounts that the code requires to be integers are integers. The SHA-256
  digest of a canonical JSON text is the parameter \<open>digest\<close> of the definitions that use it.

  A \<open>frozenset\<close> of strings is a set, a dict of labels the set of its items; the payload of a job
  is a JSON object with sorted keys.
\<close>

text \<open>An optional value that is present and satisfies \<open>P\<close>.\<close>

fun some_such :: "('a \<Rightarrow> bool) \<Rightarrow> 'a option \<Rightarrow> bool" where
  "some_such P None = False"
| "some_such P (Some x) = P x"

lemma some_such_iff: "some_such P x \<longleftrightarrow> (\<exists>y. x = Some y \<and> P y)"
  by (cases x) simp_all

subsection \<open>Resources\<close>

record 'f resources =
  res_cpu :: 'f
  res_memory :: 'f
  res_disk :: 'f
  res_kind :: "string option"
  res_count :: int

definition make_resources ::
  "'f \<Rightarrow> 'f \<Rightarrow> 'f \<Rightarrow> string option \<Rightarrow> int \<Rightarrow> ('f::{linorder,plus,minus,zero}) resources res" where
  "make_resources cpu memory disk kind n =
     (if some_such (\<lambda>k. strip k = []) kind
      then Inl (TypeError ''scheduler resource accelerator_kind must be a non-empty string when provided'')
      else if cpu < 0 \<or> memory < 0 \<or> disk < 0 \<or> n < 0
      then Inl (ValueError ''scheduler resources cannot be negative'')
      else if n \<noteq> 0 \<and> kind = None then Inl (ValueError ''accelerator_count requires accelerator_kind'')
      else Inr \<lparr>res_cpu = cpu, res_memory = memory, res_disk = disk, res_kind = kind, res_count = n\<rparr>)"

definition resources_fit :: "('f::linorder) resources \<Rightarrow> 'f resources \<Rightarrow> bool" where
  "resources_fit a required \<longleftrightarrow>
     res_cpu a \<ge> res_cpu required \<and> res_memory a \<ge> res_memory required \<and> res_disk a \<ge> res_disk required \<and>
     (res_count required = 0 \<or> res_kind a = res_kind required \<and> res_count a \<ge> res_count required)"

definition resources_add :: "('f::{linorder,plus,minus,zero}) resources \<Rightarrow> 'f resources \<Rightarrow> 'f resources res" where
  "resources_add a b =
     (if res_count a \<noteq> 0 \<and> res_count b \<noteq> 0 \<and> res_kind a \<noteq> res_kind b
      then Inl (ValueError ''cannot add unlike accelerator resources'')
      else make_resources (res_cpu a + res_cpu b) (res_memory a + res_memory b) (res_disk a + res_disk b)
             (case res_kind a of Some k \<Rightarrow> Some k | None \<Rightarrow> res_kind b) (res_count a + res_count b))"

text \<open>Python's \<open>max(0.0, x - y)\<close>: the difference, but not below zero.\<close>

definition diff0 :: "'f \<Rightarrow> 'f \<Rightarrow> ('f::{linorder,minus,zero})" where
  "diff0 x y = max 0 (x - y)"

definition resources_subtract :: "('f::{linorder,minus,zero}) resources \<Rightarrow> 'f resources \<Rightarrow> 'f resources" where
  "resources_subtract a b =
     \<lparr>res_cpu = diff0 (res_cpu a) (res_cpu b), res_memory = diff0 (res_memory a) (res_memory b),
      res_disk = diff0 (res_disk a) (res_disk b), res_kind = res_kind a,
      res_count = diff0 (res_count a) (res_count b)\<rparr>"

subsection \<open>Budgets\<close>

text \<open>A limit of 0 means that the dimension is not limited.\<close>

record 'f sched_budget =
  sb_tokens :: int
  sb_wall :: 'f
  sb_compute :: 'f
  sb_jobs :: int
  sb_shared :: int

definition no_budget :: "('f::zero) sched_budget" where
  "no_budget = \<lparr>sb_tokens = 0, sb_wall = 0, sb_compute = 0, sb_jobs = 0, sb_shared = 0\<rparr>"

definition make_sched_budget ::
  "int \<Rightarrow> 'f \<Rightarrow> 'f \<Rightarrow> int \<Rightarrow> int \<Rightarrow> ('f::{linorder,zero}) sched_budget res" where
  "make_sched_budget tokens wall compute jobs shared =
     (if tokens < 0 \<or> wall < 0 \<or> compute < 0 \<or> jobs < 0 \<or> shared < 0
      then Inl (ValueError ''scheduler budgets cannot be negative'')
      else Inr \<lparr>sb_tokens = tokens, sb_wall = wall, sb_compute = compute, sb_jobs = jobs, sb_shared = shared\<rparr>)"

text \<open>
  The sum of two budgets. (The constructor's check that it is not negative cannot fail: both
  summands have passed it, and rounding keeps the sum of two non-negative doubles non-negative.)
\<close>

definition budget_add :: "('f::plus) sched_budget \<Rightarrow> 'f sched_budget \<Rightarrow> 'f sched_budget" where
  "budget_add a b =
     \<lparr>sb_tokens = sb_tokens a + sb_tokens b, sb_wall = sb_wall a + sb_wall b,
      sb_compute = sb_compute a + sb_compute b, sb_jobs = sb_jobs a + sb_jobs b,
      sb_shared = sb_shared a + sb_shared b\<rparr>"

definition budget_subtract :: "('f::{linorder,minus,zero}) sched_budget \<Rightarrow> 'f sched_budget \<Rightarrow> 'f sched_budget" where
  "budget_subtract a b =
     \<lparr>sb_tokens = diff0 (sb_tokens a) (sb_tokens b), sb_wall = diff0 (sb_wall a) (sb_wall b),
      sb_compute = diff0 (sb_compute a) (sb_compute b), sb_jobs = diff0 (sb_jobs a) (sb_jobs b),
      sb_shared = diff0 (sb_shared a) (sb_shared b)\<rparr>"

definition within_limit :: "('f::{linorder,zero}) \<Rightarrow> 'f \<Rightarrow> bool" where
  "within_limit x limit \<longleftrightarrow> limit = 0 \<or> x \<le> limit"

definition budget_within :: "('f::{linorder,zero}) sched_budget \<Rightarrow> 'f sched_budget \<Rightarrow> bool" where
  "budget_within a limit \<longleftrightarrow>
     within_limit (sb_tokens a) (sb_tokens limit) \<and> within_limit (sb_wall a) (sb_wall limit) \<and>
     within_limit (sb_compute a) (sb_compute limit) \<and> within_limit (sb_jobs a) (sb_jobs limit) \<and>
     within_limit (sb_shared a) (sb_shared limit)"

definition one_job :: "('f::zero) sched_budget" where
  "one_job = no_budget\<lparr>sb_jobs := 1\<rparr>"

definition shared_tokens :: "int \<Rightarrow> ('f::zero) sched_budget" where
  "shared_tokens n = no_budget\<lparr>sb_shared := n\<rparr>"

subsection \<open>Lanes, workers, grants\<close>

record lane =
  ln_id :: string
  ln_fixture :: string
  ln_seeds :: "string list"
  ln_epoch :: string
  ln_contract :: string
  ln_environment :: string

definition check_lane :: "lane \<Rightarrow> unit res" where
  "check_lane l =
     (if list_all (\<lambda>x. strip x \<noteq> []) [ln_id l, ln_fixture l, ln_epoch l, ln_contract l] then Inr ()
      else Inl (ValueError ''evaluation lane identity fields must be non-empty''))"

record 'f worker_descriptor =
  wd_id :: string
  wd_runtime :: string
  wd_resources :: "'f resources"
  wd_capabilities :: "string set"
  wd_features :: "string set"
  wd_locality :: string
  wd_concurrency :: int
  wd_labels :: "(string \<times> string) set"

definition check_worker :: "'f worker_descriptor \<Rightarrow> unit res" where
  "check_worker d =
     (if strip (wd_id d) = [] \<or> strip (wd_runtime d) = [] \<or> wd_concurrency d < 1
      then Inl (ValueError ''worker id/runtime must be non-empty and concurrency must be positive'')
      else Inr ())"

text \<open>What is digested: a lane, or the environment of a worker (everything but its name and its slots).\<close>

datatype 'f digest_input =
    LaneIdentity lane
  | WorkerEnvironment string "'f resources" "string set" "string set" string "(string \<times> string) set"

definition lane_digest :: "('f digest_input \<Rightarrow> string) \<Rightarrow> lane \<Rightarrow> string" where
  "lane_digest digest l = digest (LaneIdentity l)"

definition environment_fingerprint :: "('f digest_input \<Rightarrow> string) \<Rightarrow> 'f worker_descriptor \<Rightarrow> string" where
  "environment_fingerprint digest d =
     digest (WorkerEnvironment (wd_runtime d) (wd_resources d) (wd_capabilities d) (wd_features d)
       (wd_locality d) (wd_labels d))"

record evidence_grant =
  gr_id :: string
  gr_campaign :: string
  gr_from :: string
  gr_to :: string
  gr_evidence :: string
  gr_cost :: int

definition check_grant :: "evidence_grant \<Rightarrow> unit res" where
  "check_grant g = (if gr_cost g < 0 then Inl (ValueError ''campaign evidence token_cost cannot be negative'') else Inr ())"

subsection \<open>Jobs, results, leases\<close>

datatype job_status =
    Queued | Leased | Canceling | Succeeded | CandidateFailed | InfrastructureFailed | BudgetExhausted | Canceled

datatype job_outcome = CandidateSuccess | CandidateFailure | InfrastructureFailure

datatype lifecycle_policy = EphemeralPerEval | ReuseMatchedTrials | WarmSnapshot

definition terminal_statuses :: "job_status set" where
  "terminal_statuses = {Succeeded, CandidateFailed, InfrastructureFailed, BudgetExhausted, Canceled}"

record 'f job_request =
  jr_id :: string
  jr_key :: string
  jr_campaign :: string
  jr_branch :: string
  jr_kind :: string
  jr_lane :: lane
  jr_resources :: "'f resources"
  jr_capabilities :: "string set"
  jr_reservation :: "'f sched_budget"
  jr_max_attempts :: int
  jr_cohort :: string
  jr_prefer_warm :: bool
  jr_grants :: "string list"
  jr_payload :: dict
  jr_retry_expired :: bool

definition check_request :: "'f job_request \<Rightarrow> unit res" where
  "check_request r =
     (if \<not> list_all (\<lambda>x. strip x \<noteq> []) [jr_id r, jr_key r, jr_campaign r, jr_branch r]
      then Inl (ValueError ''campaign job identity fields must be non-empty'')
      else if jr_max_attempts r < 1 then Inl (ValueError ''campaign job max_attempts must be positive'')
      else Inr ())"

text \<open>
  Metadata and payloads are JSON values: a Python tuple inside them, which the process that recorded it keeps
  as a tuple until a replay makes it a list, is a list here from the start.
\<close>

record 'f job_result =
  jx_outcome :: job_outcome
  jx_consumed :: "'f sched_budget"
  jx_output :: string
  jx_detail :: string
  jx_cleanup :: bool
  jx_metadata :: dict
  jx_retryable :: bool

record 'f lease =
  le_id :: string
  le_job :: string
  le_worker :: string
  le_attempt :: int
  le_issued :: 'f
  le_expires :: 'f
  le_environment :: string
  le_lifecycle :: lifecycle_policy
  le_reuse :: string

record 'f assignment =
  as_job :: "'f job_request"
  as_lease :: "'f lease"

definition replace_lease_expiry :: "'f lease \<Rightarrow> 'f \<Rightarrow> 'f lease" where
  "replace_lease_expiry l x = \<lparr>le_id = le_id l, le_job = le_job l, le_worker = le_worker l,
     le_attempt = le_attempt l, le_issued = le_issued l, le_expires = x,
     le_environment = le_environment l, le_lifecycle = le_lifecycle l, le_reuse = le_reuse l\<rparr>"

definition job_reuse_key :: "'f job_request \<Rightarrow> string" where
  "job_reuse_key r =
     jr_campaign r @ '':'' @ jr_branch r @ '':'' @ (if jr_cohort r \<noteq> [] then jr_cohort r else jr_id r)"

subsection \<open>Provisional results\<close>

text \<open>
  \<^verbatim>\<open>campaign_scheduler_cancellation.py\<close>: the charge for dispatched work whose result is not
  known. It is the full reservation, and at least one job.
\<close>

definition provisional_cancellation_result :: "'f job_request \<Rightarrow> string \<Rightarrow> 'f job_result" where
  "provisional_cancellation_result r reason =
     \<lparr>jx_outcome = InfrastructureFailure,
      jx_consumed = \<lparr>sb_tokens = sb_tokens (jr_reservation r), sb_wall = sb_wall (jr_reservation r),
        sb_compute = sb_compute (jr_reservation r), sb_jobs = max 1 (sb_jobs (jr_reservation r)),
        sb_shared = sb_shared (jr_reservation r)\<rparr>,
      jx_output = [], jx_detail = reason, jx_cleanup = False,
      jx_metadata = [(''usage_estimated'', JBool True), (''cancellation_provisional'', JBool True)],
      jx_retryable = False\<rparr>"

definition provisional_expired_lease_result ::
  "'f job_request \<Rightarrow> 'f lease option \<Rightarrow> ('f::{linorder,minus,zero}) job_result" where
  "provisional_expired_lease_result r l =
     \<lparr>jx_outcome = InfrastructureFailure,
      jx_consumed = \<lparr>sb_tokens = sb_tokens (jr_reservation r),
        sb_wall = max (sb_wall (jr_reservation r)) (case l of None \<Rightarrow> 0 | Some l \<Rightarrow> diff0 (le_expires l) (le_issued l)),
        sb_compute = sb_compute (jr_reservation r), sb_jobs = max 1 (sb_jobs (jr_reservation r)),
        sb_shared = sb_shared (jr_reservation r)\<rparr>,
      jx_output = [], jx_detail = ''lease_expired'', jx_cleanup = False,
      jx_metadata = [(''usage_estimated'', JBool True)], jx_retryable = jr_retry_expired r\<rparr>"

text \<open>A result that reports no job is charged as one.\<close>

definition normalized_consumption :: "('f::{plus,zero}) job_result \<Rightarrow> 'f sched_budget" where
  "normalized_consumption x =
     (if sb_jobs (jx_consumed x) \<noteq> 0 then jx_consumed x else budget_add (jx_consumed x) one_job)"

definition select_lifecycle :: "'f worker_descriptor \<Rightarrow> 'f job_request \<Rightarrow> lifecycle_policy" where
  "select_lifecycle d r =
     (if \<not> jr_prefer_warm r then EphemeralPerEval
      else if {''warm'', ''snapshot''} \<subseteq> wd_features d then WarmSnapshot
      else if ''session_reuse'' \<in> wd_features d then ReuseMatchedTrials
      else EphemeralPerEval)"

subsection \<open>Lemmas\<close>

lemma diff0_nonneg [simp]: "0 \<le> diff0 x y"
  by (simp add: diff0_def)

lemma diff0_add [simp]: "0 \<le> x \<Longrightarrow> diff0 (x + y) y = (x::int)"
  by (simp add: diff0_def)

lemma budget_add_fields [simp]:
  "sb_tokens (budget_add a b) = sb_tokens a + sb_tokens b"
  "sb_jobs (budget_add a b) = sb_jobs a + sb_jobs b"
  "sb_shared (budget_add a b) = sb_shared a + sb_shared b"
  by (simp_all add: budget_add_def)

lemma budget_subtract_fields [simp]:
  "sb_tokens (budget_subtract a b) = diff0 (sb_tokens a) (sb_tokens b)"
  "sb_jobs (budget_subtract a b) = diff0 (sb_jobs a) (sb_jobs b)"
  "sb_shared (budget_subtract a b) = diff0 (sb_shared a) (sb_shared b)"
  by (simp_all add: budget_subtract_def)

lemma no_budget_fields [simp]: "sb_tokens no_budget = 0" "sb_jobs no_budget = 0" "sb_shared no_budget = 0"
  by (simp_all add: no_budget_def)

end
