(* ===== verification/Sched_State.thy ===== *)
theory Sched_State
  imports Sched_Types
begin

text \<open>
  The state of \<^verbatim>\<open>CampaignScheduler\<close> and the reducer of \<^verbatim>\<open>campaign_scheduler_replay.py\<close>:
  the state changes only by applying an event, and a restart applies the events of the log
  again. Dicts are association lists in insertion order, sets of lease identifiers are lists.
  Events carry their payload decoded; an optional payload entry is an option.
\<close>

subsection \<open>State\<close>

record 'f job_state =
  js_request :: "'f job_request"
  js_status :: job_status
  js_attempts :: int
  js_lease :: "'f lease option"
  js_result :: "'f job_result option"
  js_accounting :: "'f job_result option"
  js_late :: "'f job_result option"
  js_error :: string

definition new_job :: "'f job_request \<Rightarrow> 'f job_state" where
  "new_job r = \<lparr>js_request = r, js_status = Queued, js_attempts = 0, js_lease = None, js_result = None,
     js_accounting = None, js_late = None, js_error = []\<rparr>"

record 'f worker_state =
  ws_descriptor :: "'f worker_descriptor"
  ws_heartbeat :: 'f
  ws_active :: "string list"
  ws_completed :: int
  ws_failed :: int
  ws_cleaned :: int
  ws_uncleaned :: int
  ws_consumed :: "'f sched_budget"

type_synonym branch_key = "string \<times> string"

record 'f sched =
  sc_sequence :: nat
  sc_jobs :: "(string \<times> 'f job_state) list"
  sc_idempotency :: "((string \<times> string) \<times> string) list"
  sc_leases :: "(string \<times> string) list"
  sc_history :: "(string \<times> string) list"
  sc_records :: "(string \<times> 'f lease) list"
  sc_workers :: "(string \<times> 'f worker_state) list"
  sc_limits :: "(string \<times> 'f sched_budget) list"
  sc_branch_limits :: "(branch_key \<times> 'f sched_budget) list"
  sc_reserved :: "(string \<times> 'f sched_budget) list"
  sc_consumed :: "(string \<times> 'f sched_budget) list"
  sc_cleanup :: "(string \<times> (int \<times> int)) list"
  sc_plans :: "(string \<times> string) list"
  sc_audits :: "(string \<times> (string \<times> string) list) list"
  sc_branch_reserved :: "(branch_key \<times> 'f sched_budget) list"
  sc_branch_consumed :: "(branch_key \<times> 'f sched_budget) list"
  sc_cohort_lanes :: "(branch_key \<times> string) list"
  sc_cohort_environments :: "(branch_key \<times> string) list"
  sc_grants :: "(string \<times> evidence_grant) list"
  sc_retries :: nat
  sc_late :: nat
  sc_late_leases :: "string list"
  sc_result_leases :: "string list"
  sc_provisional :: "(string \<times> 'f job_result) list"
  sc_durable :: "string list"

definition empty_sched :: "'f sched" where
  "empty_sched = \<lparr>sc_sequence = 0, sc_jobs = [], sc_idempotency = [], sc_leases = [], sc_history = [],
     sc_records = [], sc_workers = [], sc_limits = [], sc_branch_limits = [], sc_reserved = [],
     sc_consumed = [], sc_cleanup = [], sc_plans = [], sc_audits = [], sc_branch_reserved = [],
     sc_branch_consumed = [], sc_cohort_lanes = [], sc_cohort_environments = [], sc_grants = [],
     sc_retries = 0, sc_late = 0, sc_late_leases = [], sc_result_leases = [], sc_provisional = [],
     sc_durable = []\<rparr>"

subsection \<open>Events\<close>

datatype 'f sched_event =
    CampaignConfigured string "'f sched_budget" "(string \<times> 'f sched_budget) list"
  | RuntimePlanBound string string
  | AuditCheckpointFailed string string string
  | WorkerRegistered "'f worker_descriptor" 'f
  | WorkerHeartbeat string 'f "string list" 'f
  | EvidenceGranted evidence_grant
  | JobEnqueued "'f job_request"
  | WarmDegraded string string string
  | JobLeased "'f lease" "'f sched_budget"
  | JobBudgetExhausted string
  | JobCancelRequested string string
  | JobCanceledLate string string "'f job_result"
  | JobStaleCompleted string string "'f job_result"
  | JobRequeued string string string "'f job_result option" bool
  | JobLeaseFailed string string string "'f job_result option" bool
  | JobCanceled string string "(string \<times> 'f job_result) option" bool
  | JobFinished string string "'f job_result"

record 'f log_record =
  lr_sequence :: nat
  lr_id :: string
  lr_time :: 'f
  lr_event :: "'f sched_event"

subsection \<open>Accounting\<close>

definition budget_at :: "'k \<Rightarrow> ('k \<times> 'f sched_budget) list \<Rightarrow> ('f::zero) sched_budget" where
  "budget_at k m = (case map_of m k of Some b \<Rightarrow> b | None \<Rightarrow> no_budget)"

definition job_branch :: "'f job_request \<Rightarrow> branch_key" where
  "job_branch r = (jr_campaign r, jr_branch r)"

definition job_cohort :: "'f job_request \<Rightarrow> branch_key" where
  "job_cohort r = (jr_campaign r, jr_cohort r)"

definition charge :: "'k \<Rightarrow> 'f sched_budget \<Rightarrow> ('k \<times> 'f sched_budget) list \<Rightarrow> ('k \<times> ('f::{plus,zero}) sched_budget) list" where
  "charge k b m = AList.update k (budget_add (budget_at k m) b) m"

definition refund ::
  "'k \<Rightarrow> 'f sched_budget \<Rightarrow> ('k \<times> 'f sched_budget) list \<Rightarrow> ('k \<times> ('f::{linorder,minus,zero}) sched_budget) list" where
  "refund k b m = AList.update k (budget_subtract (budget_at k m) b) m"

definition reserve :: "'f job_request \<Rightarrow> 'f sched \<Rightarrow> ('f::{plus,zero}) sched" where
  "reserve r s = s\<lparr>sc_reserved := charge (jr_campaign r) (jr_reservation r) (sc_reserved s),
     sc_branch_reserved := charge (job_branch r) (jr_reservation r) (sc_branch_reserved s)\<rparr>"

definition unreserve :: "'f job_request \<Rightarrow> 'f sched \<Rightarrow> ('f::{linorder,minus,zero}) sched" where
  "unreserve r s = s\<lparr>sc_reserved := refund (jr_campaign r) (jr_reservation r) (sc_reserved s),
     sc_branch_reserved := refund (job_branch r) (jr_reservation r) (sc_branch_reserved s)\<rparr>"

definition consume :: "'f job_request \<Rightarrow> 'f sched_budget \<Rightarrow> 'f sched \<Rightarrow> ('f::{plus,zero}) sched" where
  "consume r b s = s\<lparr>sc_consumed := charge (jr_campaign r) b (sc_consumed s),
     sc_branch_consumed := charge (job_branch r) b (sc_branch_consumed s)\<rparr>"

definition put_job :: "string \<Rightarrow> 'f job_state \<Rightarrow> 'f sched \<Rightarrow> 'f sched" where
  "put_job j st s = s\<lparr>sc_jobs := AList.update j st (sc_jobs s)\<rparr>"

text \<open>\<open>self._workers[worker_id]\<close>, changed in place; a \<open>KeyError\<close> when it is not registered.\<close>

definition on_worker :: "string \<Rightarrow> ('f worker_state \<Rightarrow> 'f worker_state) \<Rightarrow> ('f sched, unit) op" where
  "on_worker w f s = (case map_of (sc_workers s) w of
       None \<Rightarrow> (Inl (KeyError w), s)
     | Some ws \<Rightarrow> (Inr (), s\<lparr>sc_workers := AList.update w (f ws) (sc_workers s)\<rparr>))"

definition cleanup_at :: "string \<Rightarrow> (string \<times> (int \<times> int)) list \<Rightarrow> int \<times> int" where
  "cleanup_at c m = (case map_of m c of Some p \<Rightarrow> p | None \<Rightarrow> (0, 0))"

definition count_cleanup :: "bool \<Rightarrow> int \<times> int \<Rightarrow> int \<times> int" where
  "count_cleanup ok p = (if ok then (fst p + 1, snd p) else (fst p, snd p + 1))"

definition uncount_cleanup :: "bool \<Rightarrow> int \<times> int \<Rightarrow> int \<times> int" where
  "uncount_cleanup ok p = (if ok then (max 0 (fst p - 1), snd p) else (fst p, max 0 (snd p - 1)))"

definition worker_cleanup :: "(int \<times> int \<Rightarrow> int \<times> int) \<Rightarrow> 'f worker_state \<Rightarrow> 'f worker_state" where
  "worker_cleanup f ws = (case f (ws_cleaned ws, ws_uncleaned ws) of
     (a, b) \<Rightarrow> ws\<lparr>ws_cleaned := a, ws_uncleaned := b\<rparr>)"

definition record_cleanup :: "string \<Rightarrow> string \<Rightarrow> bool \<Rightarrow> ('f sched, unit) op" where
  "record_cleanup c w ok =
     andthen (modify (\<lambda>s. s\<lparr>sc_cleanup := AList.update c (count_cleanup ok (cleanup_at c (sc_cleanup s))) (sc_cleanup s)\<rparr>))
       (if w \<noteq> [] then on_worker w (worker_cleanup (count_cleanup ok)) else ret ())"

definition account_result :: "'f job_request \<Rightarrow> string \<Rightarrow> 'f job_result \<Rightarrow> bool \<Rightarrow> (('f::{plus,zero}) sched, unit) op" where
  "account_result r w x failed =
     andthen (modify (consume r (normalized_consumption x)))
       (andthen (record_cleanup (jr_campaign r) w (jx_cleanup x))
         (if w \<noteq> []
          then on_worker w (\<lambda>ws. ws\<lparr>ws_completed := ws_completed ws + (if failed then 0 else 1),
                 ws_failed := ws_failed ws + (if failed then 1 else 0),
                 ws_consumed := budget_add (ws_consumed ws) (normalized_consumption x)\<rparr>)
          else ret ()))"

definition rebook :: "'k \<Rightarrow> 'f sched_budget \<Rightarrow> 'f sched_budget \<Rightarrow> ('k \<times> 'f sched_budget) list \<Rightarrow>
    ('k \<times> ('f::{linorder,plus,minus,zero}) sched_budget) list" where
  "rebook k prior current m =
     AList.update k (budget_add (budget_subtract (budget_at k m) prior) current) m"

definition replace_accounted_result :: "'f job_request \<Rightarrow> string \<Rightarrow> 'f job_result \<Rightarrow> 'f job_result \<Rightarrow>
    (('f::{linorder,plus,minus,zero}) sched, unit) op" where
  "replace_accounted_result r w provisional actual =
     (let prior = normalized_consumption provisional; current = normalized_consumption actual;
          move = count_cleanup (jx_cleanup actual) \<circ> uncount_cleanup (jx_cleanup provisional) in
      andthen (modify (\<lambda>s. s\<lparr>
          sc_consumed := rebook (jr_campaign r) prior current (sc_consumed s),
          sc_branch_consumed := rebook (job_branch r) prior current (sc_branch_consumed s),
          sc_cleanup := AList.update (jr_campaign r) (move (cleanup_at (jr_campaign r) (sc_cleanup s))) (sc_cleanup s)\<rparr>))
        (if w \<noteq> []
         then on_worker w (\<lambda>ws. worker_cleanup move
                (ws\<lparr>ws_consumed := budget_add (budget_subtract (ws_consumed ws) prior) current\<rparr>))
         else ret ()))"

text \<open>\<open>_release_lease\<close>: the lease leaves the tables, the reservation is given back.\<close>

definition drop_active :: "string \<Rightarrow> 'f worker_state \<Rightarrow> 'f worker_state" where
  "drop_active l ws = ws\<lparr>ws_active := removeAll l (ws_active ws)\<rparr>"

definition release_lease :: "string \<Rightarrow> 'f job_state \<Rightarrow> 'f sched \<Rightarrow> ('f::{linorder,minus,zero}) sched" where
  "release_lease j st s = (case js_lease st of
       None \<Rightarrow> s
     | Some l \<Rightarrow> put_job j (st\<lparr>js_lease := None\<rparr>) (unreserve (js_request st)
         (s\<lparr>sc_leases := AList.delete (le_id l) (sc_leases s),
            sc_workers := (case map_of (sc_workers s) (le_worker l) of
               None \<Rightarrow> sc_workers s
             | Some ws \<Rightarrow> AList.update (le_worker l) (drop_active (le_id l) ws) (sc_workers s))\<rparr>)))"

subsection \<open>The reducer\<close>

definition with_job :: "string \<Rightarrow> ('f job_state \<Rightarrow> ('f sched, 'a) op) \<Rightarrow> ('f sched, 'a) op" where
  "with_job j f s = (case map_of (sc_jobs s) j of None \<Rightarrow> (Inl (KeyError j), s) | Some st \<Rightarrow> f st s)"

definition modify_job :: "string \<Rightarrow> ('f job_state \<Rightarrow> 'f job_state) \<Rightarrow> 'f sched \<Rightarrow> 'f sched" where
  "modify_job j f s = (case map_of (sc_jobs s) j of None \<Rightarrow> s | Some st \<Rightarrow> put_job j (f st) s)"

definition lease_worker :: "'f job_state \<Rightarrow> string" where
  "lease_worker st = (case js_lease st of Some l \<Rightarrow> le_worker l | None \<Rightarrow> [])"

definition apply_configured :: "string \<Rightarrow> 'f sched_budget \<Rightarrow> (string \<times> 'f sched_budget) list \<Rightarrow> 'f sched \<Rightarrow> 'f sched" where
  "apply_configured c b branches s = s\<lparr>sc_limits := AList.update c b (sc_limits s),
     sc_branch_limits := fold (\<lambda>(br, x). AList.update (c, br) x) branches (sc_branch_limits s)\<rparr>"

definition apply_audit_failed :: "string \<Rightarrow> string \<Rightarrow> string \<Rightarrow> 'f sched \<Rightarrow> 'f sched" where
  "apply_audit_failed c checkpoint failure s = s\<lparr>sc_audits := AList.update c
     ((case map_of (sc_audits s) c of Some xs \<Rightarrow> xs | None \<Rightarrow> []) @ [(checkpoint, failure)]) (sc_audits s)\<rparr>"

text \<open>Registering a known worker again keeps its leases and counters.\<close>

definition apply_worker_registered :: "'f worker_descriptor \<Rightarrow> 'f \<Rightarrow> 'f sched \<Rightarrow> ('f::zero) sched" where
  "apply_worker_registered d at_time s = s\<lparr>sc_workers := AList.update (wd_id d)
     (case map_of (sc_workers s) (wd_id d) of
        None \<Rightarrow> \<lparr>ws_descriptor = d, ws_heartbeat = at_time, ws_active = [], ws_completed = 0, ws_failed = 0,
                 ws_cleaned = 0, ws_uncleaned = 0, ws_consumed = no_budget\<rparr>
      | Some p \<Rightarrow> \<lparr>ws_descriptor = d, ws_heartbeat = at_time, ws_active = ws_active p,
                 ws_completed = ws_completed p, ws_failed = ws_failed p, ws_cleaned = ws_cleaned p,
                 ws_uncleaned = ws_uncleaned p, ws_consumed = ws_consumed p\<rparr>) (sc_workers s)\<rparr>"

definition extend_lease :: "'f \<Rightarrow> string \<Rightarrow> ('f sched, unit) op" where
  "extend_lease expires lid s = (case map_of (sc_leases s) lid of
       None \<Rightarrow> (Inr (), s)
     | Some j \<Rightarrow> with_job j (\<lambda>st. case js_lease st of
           Some l \<Rightarrow> if js_status st = Leased \<and> le_id l = lid
                     then modify (put_job j (st\<lparr>js_lease := Some (replace_lease_expiry l expires)\<rparr>))
                     else ret ()
         | None \<Rightarrow> ret ()) s)"

definition apply_heartbeat :: "string \<Rightarrow> 'f \<Rightarrow> string list \<Rightarrow> 'f \<Rightarrow> ('f sched, unit) op" where
  "apply_heartbeat w at_time lids expires =
     andthen (on_worker w (\<lambda>ws. ws\<lparr>ws_heartbeat := at_time\<rparr>)) (each (extend_lease expires) lids)"

definition apply_evidence :: "evidence_grant \<Rightarrow> 'f sched \<Rightarrow> ('f::{plus,zero}) sched" where
  "apply_evidence g s = s\<lparr>sc_grants := AList.update (gr_id g) g (sc_grants s),
     sc_consumed := charge (gr_campaign g) (shared_tokens (gr_cost g)) (sc_consumed s)\<rparr>"

definition apply_enqueued :: "('f digest_input \<Rightarrow> string) \<Rightarrow> 'f job_request \<Rightarrow> ('f sched, unit) op" where
  "apply_enqueued digest r s =
     (if map_of (sc_jobs s) (jr_id r) \<noteq> None
      then (Inl (ValueError (''duplicate campaign job_id in event log: '' @ jr_id r)), s)
      else if map_of (sc_idempotency s) (jr_campaign r, jr_key r) \<noteq> None
      then (Inl (ValueError ''duplicate campaign idempotency key in event log''), s)
      else (Inr (), s\<lparr>sc_jobs := AList.update (jr_id r) (new_job r) (sc_jobs s),
          sc_idempotency := AList.update (jr_campaign r, jr_key r) (jr_id r) (sc_idempotency s),
          sc_cohort_lanes := (if jr_cohort r \<noteq> []
            then AList.update (job_cohort r) (lane_digest digest (jr_lane r)) (sc_cohort_lanes s)
            else sc_cohort_lanes s)\<rparr>))"

definition register_lease :: "'f lease \<Rightarrow> 'f job_request \<Rightarrow> 'f worker_state \<Rightarrow> 'f sched \<Rightarrow> ('f::{plus,zero}) sched" where
  "register_lease l r ws s = reserve r (s\<lparr>
     sc_leases := AList.update (le_id l) (le_job l) (sc_leases s),
     sc_history := AList.update (le_id l) (le_job l) (sc_history s),
     sc_records := AList.update (le_id l) l (sc_records s),
     sc_durable := (if wd_locality (ws_descriptor ws) = ''remote'' \<and> ''durable_result_replay'' \<in> wd_features (ws_descriptor ws)
        then List.insert (le_id l) (sc_durable s) else sc_durable s),
     sc_workers := AList.update (le_worker l) (ws\<lparr>ws_active := List.insert (le_id l) (ws_active ws)\<rparr>) (sc_workers s),
     sc_cohort_environments := (if jr_cohort r \<noteq> []
        then AList.update (job_cohort r) (le_environment l) (sc_cohort_environments s)
        else sc_cohort_environments s)\<rparr>)"

definition apply_leased :: "'f lease \<Rightarrow> (('f::{plus,zero}) sched, unit) op" where
  "apply_leased l = with_job (le_job l) (\<lambda>st s. case map_of (sc_workers s) (le_worker l) of
       None \<Rightarrow> (Inl (KeyError (le_worker l)), s)
     | Some ws \<Rightarrow> (Inr (), register_lease l (js_request st) ws
         (put_job (le_job l) (st\<lparr>js_status := Leased, js_attempts := le_attempt l, js_lease := Some l\<rparr>) s)))"

definition set_status_of :: "job_status \<Rightarrow> string \<Rightarrow> ('f sched, unit) op" where
  "set_status_of x j = with_job j (\<lambda>st. modify (put_job j (st\<lparr>js_status := x\<rparr>)))"

definition note_result :: "string \<Rightarrow> 'f sched \<Rightarrow> 'f sched" where
  "note_result lid s = s\<lparr>sc_result_leases := List.insert lid (sc_result_leases s)\<rparr>"

definition note_provisional :: "bool \<Rightarrow> string \<Rightarrow> 'f job_result \<Rightarrow> 'f sched \<Rightarrow> 'f sched" where
  "note_provisional p lid x s = (if p then s\<lparr>sc_provisional := AList.update lid x (sc_provisional s)\<rparr> else s)"

definition has_lease :: "string \<Rightarrow> 'f job_state \<Rightarrow> bool" where
  "has_lease lid st \<longleftrightarrow> (case js_lease st of Some l \<Rightarrow> le_id l = lid | None \<Rightarrow> False)"

text \<open>
  A result that arrives after its lease was given up: it is noted, and the provisional charge, if
  there is one, is replaced by the actual usage.
\<close>

definition book_late :: "bool \<Rightarrow> string \<Rightarrow> string \<Rightarrow> 'f job_result \<Rightarrow> 'f sched \<Rightarrow> 'f sched" where
  "book_late cancel j lid x s =
     (let s1 = modify_job j (\<lambda>st. st\<lparr>js_status := (if cancel then Canceled else js_status st),
            js_late := Some x, js_accounting := Some x\<rparr>) s in
      note_result lid (s1\<lparr>sc_late_leases := List.insert lid (sc_late_leases s1),
        sc_provisional := AList.delete lid (sc_provisional s1)\<rparr>))"

definition bill_late :: "'f job_request \<Rightarrow> string \<Rightarrow> 'f job_result \<Rightarrow> 'f job_result option \<Rightarrow>
    (('f::{linorder,plus,minus,zero}) sched, unit) op" where
  "bill_late r w x provisional = (case provisional of
       None \<Rightarrow> account_result r w x True
     | Some p \<Rightarrow> replace_accounted_result r w p x)"

definition apply_late :: "bool \<Rightarrow> string \<Rightarrow> string \<Rightarrow> 'f job_result \<Rightarrow> (('f::{linorder,plus,minus,zero}) sched, unit) op" where
  "apply_late cancel j lid x = with_job j (\<lambda>st s.
     let w = (case map_of (sc_records s) lid of Some l \<Rightarrow> le_worker l | None \<Rightarrow> []);
         s1 = (if has_lease lid st then release_lease j st s else s) in
     andthen (bill_late (js_request st) w x (map_of (sc_provisional s) lid))
       (modify (\<lambda>s. s\<lparr>sc_late := Suc (sc_late s)\<rparr>)) (book_late cancel j lid x s1))"

definition settle_lease :: "string \<Rightarrow> 'f job_request \<Rightarrow> string \<Rightarrow> 'f job_result \<Rightarrow> bool \<Rightarrow> (('f::{plus,zero}) sched, unit) op" where
  "settle_lease lid r w x provisional =
     andthen (modify (note_result lid))
       (andthen (account_result r w x True) (modify (note_provisional provisional lid x)))"

definition apply_requeued :: "string \<Rightarrow> string \<Rightarrow> string \<Rightarrow> 'f job_result option \<Rightarrow> bool \<Rightarrow>
    (('f::{linorder,plus,minus,zero}) sched, unit) op" where
  "apply_requeued j lid reason result provisional = with_job j (\<lambda>st.
     let old = (result = None \<and> reason = ''lease_expired'');
         x = (if old then Some (provisional_expired_lease_result (js_request st) (js_lease st)) else result) in
     andthen (modify (release_lease j st))
       (andthen (case x of None \<Rightarrow> ret () | Some x \<Rightarrow> settle_lease lid (js_request st) (lease_worker st) x (old \<or> provisional))
         (modify (\<lambda>s. (modify_job j (\<lambda>st. st\<lparr>js_status := Queued, js_error := reason\<rparr>) s)\<lparr>sc_retries := Suc (sc_retries s)\<rparr>))))"

definition apply_lease_failed :: "string \<Rightarrow> string \<Rightarrow> 'f job_result option \<Rightarrow> bool \<Rightarrow>
    (('f::{linorder,plus,minus,zero}) sched, unit) op" where
  "apply_lease_failed j lid result provisional = with_job j (\<lambda>st.
     let x = (case result of Some x \<Rightarrow> x | None \<Rightarrow> provisional_expired_lease_result (js_request st) (js_lease st)) in
     andthen (modify (modify_job j (\<lambda>st. st\<lparr>js_status := InfrastructureFailed, js_result := Some x\<rparr>) \<circ> release_lease j st))
       (settle_lease lid (js_request st) (lease_worker st) x (result = None \<or> provisional)))"

definition apply_canceled :: "string \<Rightarrow> (string \<times> 'f job_result) option \<Rightarrow> bool \<Rightarrow>
    (('f::{linorder,plus,minus,zero}) sched, unit) op" where
  "apply_canceled j result provisional = with_job j (\<lambda>st.
     andthen (modify (release_lease j st))
       (andthen (case result of
           None \<Rightarrow> ret ()
         | Some (lid, x) \<Rightarrow> andthen (settle_lease lid (js_request st) (lease_worker st) x provisional)
             (modify (modify_job j (\<lambda>st. st\<lparr>js_accounting := Some x\<rparr>))))
         (modify (modify_job j (\<lambda>st. st\<lparr>js_status := Canceled\<rparr>)))))"

definition status_by_outcome :: "job_outcome \<Rightarrow> job_status" where
  "status_by_outcome x = (case x of CandidateSuccess \<Rightarrow> Succeeded | CandidateFailure \<Rightarrow> CandidateFailed
     | InfrastructureFailure \<Rightarrow> InfrastructureFailed)"

definition apply_finished :: "string \<Rightarrow> string \<Rightarrow> 'f job_result \<Rightarrow> (('f::{linorder,plus,minus,zero}) sched, unit) op" where
  "apply_finished j lid x = with_job j (\<lambda>st.
     andthen (modify (modify_job j (\<lambda>st. st\<lparr>js_result := Some x, js_status := status_by_outcome (jx_outcome x)\<rparr>) \<circ>
                release_lease j st \<circ> note_result lid))
       (account_result (js_request st) (lease_worker st) x (jx_outcome x \<noteq> CandidateSuccess)))"

fun reduce_event :: "('f digest_input \<Rightarrow> string) \<Rightarrow> 'f sched_event \<Rightarrow> (('f::{linorder,plus,minus,zero}) sched, unit) op" where
  "reduce_event digest (CampaignConfigured c b br) = modify (apply_configured c b br)"
| "reduce_event digest (RuntimePlanBound c f) = modify (\<lambda>s. s\<lparr>sc_plans := AList.update c f (sc_plans s)\<rparr>)"
| "reduce_event digest (AuditCheckpointFailed c k f) = modify (apply_audit_failed c k f)"
| "reduce_event digest (WorkerRegistered d t) = modify (apply_worker_registered d t)"
| "reduce_event digest (WorkerHeartbeat w t lids x) = apply_heartbeat w t lids x"
| "reduce_event digest (EvidenceGranted g) = modify (apply_evidence g)"
| "reduce_event digest (JobEnqueued r) = apply_enqueued digest r"
| "reduce_event digest (WarmDegraded j w reason) = ret ()"
| "reduce_event digest (JobLeased l reservation) = apply_leased l"
| "reduce_event digest (JobBudgetExhausted j) = set_status_of BudgetExhausted j"
| "reduce_event digest (JobCancelRequested j lid) = set_status_of Canceling j"
| "reduce_event digest (JobCanceledLate j lid x) = apply_late True j lid x"
| "reduce_event digest (JobStaleCompleted j lid x) = apply_late False j lid x"
| "reduce_event digest (JobRequeued j lid reason x p) = apply_requeued j lid reason x p"
| "reduce_event digest (JobLeaseFailed j lid reason x p) = apply_lease_failed j lid x p"
| "reduce_event digest (JobCanceled j reason x p) = apply_canceled j x p"
| "reduce_event digest (JobFinished j lid x) = apply_finished j lid x"

definition apply_scheduler_event :: "('f digest_input \<Rightarrow> string) \<Rightarrow> 'f log_record \<Rightarrow> (('f::{linorder,plus,minus,zero}) sched, unit) op" where
  "apply_scheduler_event digest e =
     andthen (modify (\<lambda>s. s\<lparr>sc_sequence := lr_sequence e\<rparr>)) (reduce_event digest (lr_event e))"

end
