(* ===== verification/Sched_Ops.thy ===== *)
theory Sched_Ops
  imports Sched_State "HOL-Library.List_Lexorder" "HOL-Library.Char_ord"
begin

text \<open>
  The operations of \<^verbatim>\<open>CampaignScheduler\<close>. A node is one scheduler process: its reduced
  state, what it keeps besides (which workers have an executor here, which leases it found at
  its start), and its view of the shared event log, together with the streams of identifiers and
  clock readings that it draws from. Every change of the reduced state goes through
  \<open>record_event\<close>: append to the log, then apply.

  The operations hold the scheduler's lock; where the code releases it in the middle (an audit
  after a completion, a worker's own cancellation), the parts are separate definitions. Executors
  and audits are the parameters of \<open>sched_env\<close>; an audit that raises is an exception value.
\<close>

subsection \<open>Nodes\<close>

record 'f node =
  nd_sched :: "'f sched"
  nd_executors :: "string list"
  nd_orphans :: "string list"
  nd_replayable :: "string list"
  nd_log :: "'f log_record list"
  nd_lease_seconds :: 'f
  nd_max_concurrency :: int
  nd_uuids :: "nat \<Rightarrow> string"
  nd_drawn :: nat
  nd_clock :: "nat \<Rightarrow> 'f"
  nd_ticks :: nat

datatype 'f audit_packet =
    IntegrityEvidence "'f assignment" "'f job_result" string
  | FinalSummary string string "'f job_state list" "'f sched_budget"

record 'f sched_env =
  sv_digest :: "'f digest_input \<Rightarrow> string"
  sv_cancel :: "string \<Rightarrow> ('f assignment \<Rightarrow> bool) option"
  sv_audit :: "('f audit_packet \<Rightarrow> exc option) option"

definition draw_uuid :: "('f node, string) op" where
  "draw_uuid n = (Inr (nd_uuids n (nd_drawn n)), n\<lparr>nd_drawn := Suc (nd_drawn n)\<rparr>)"

definition read_time :: "('f node, 'f) op" where
  "read_time n = (Inr (nd_clock n (nd_ticks n)), n\<lparr>nd_ticks := Suc (nd_ticks n)\<rparr>)"

definition last_sequence :: "'f log_record list \<Rightarrow> nat" where
  "last_sequence es = (if es = [] then 0 else lr_sequence (last es))"

definition stale_scheduler :: "nat \<Rightarrow> nat \<Rightarrow> exc" where
  "stale_scheduler attempted expected = UserException ''StaleCampaignSchedulerError''
     (''scheduler event log advanced concurrently: attempted sequence '' @ str_int (int attempted) @
      '', expected '' @ str_int (int expected) @ ''; construct a fresh CampaignScheduler before retrying'')"

text \<open>\<open>CampaignSchedulerEventStore.append\<close> on the log as a list of records.\<close>

definition append_record :: "'f log_record \<Rightarrow> ('f node, unit) op" where
  "append_record e n =
     (if lr_sequence e \<noteq> last_sequence (nd_log n) + 1
      then (Inl (stale_scheduler (lr_sequence e) (last_sequence (nd_log n) + 1)), n)
      else (Inr (), n\<lparr>nd_log := nd_log n @ [e]\<rparr>))"

definition on_sched :: "('f sched, 'a) op \<Rightarrow> ('f node, 'a) op" where
  "on_sched m n = (case m (nd_sched n) of (r, s') \<Rightarrow> (r, n\<lparr>nd_sched := s'\<rparr>))"

definition record_event :: "'f sched_env \<Rightarrow> 'f sched_event \<Rightarrow> (('f::{linorder,plus,minus,zero}) node, unit) op" where
  "record_event env ev =
     bind (asks (\<lambda>n. sc_sequence (nd_sched n) + 1)) (\<lambda>q.
     bind draw_uuid (\<lambda>u.
     bind read_time (\<lambda>t.
       let e = \<lparr>lr_sequence = q, lr_id = u, lr_time = t, lr_event = ev\<rparr> in
       andthen (append_record e) (on_sched (apply_scheduler_event (sv_digest env) e)))))"

definition reads :: "('f sched \<Rightarrow> 'a) \<Rightarrow> ('f node, 'a) op" where
  "reads f = asks (\<lambda>n. f (nd_sched n))"

subsection \<open>Configuration and workers\<close>

definition configure_campaign :: "'f sched_env \<Rightarrow> string \<Rightarrow> 'f sched_budget \<Rightarrow> (string \<times> 'f sched_budget) list \<Rightarrow>
    (('f::{linorder,plus,minus,zero}) node, unit) op" where
  "configure_campaign env c b branches =
     (if strip c = [] then raise (ValueError ''campaign_id must be non-empty'')
      else record_event env (CampaignConfigured c b branches))"

definition bind_runtime_plan :: "'f sched_env \<Rightarrow> string \<Rightarrow> string \<Rightarrow> (('f::{linorder,plus,minus,zero}) node, unit) op" where
  "bind_runtime_plan env c fp =
     (if strip c = [] \<or> strip fp = [] then raise (ValueError ''campaign runtime-plan identity must be non-empty'')
      else bind (reads (\<lambda>s. map_of (sc_plans s) c)) (\<lambda>existing. case existing of
          Some old \<Rightarrow> (if old \<noteq> fp
            then raise (ValueError ''campaign scheduler runtime plan conflicts with durable plan identity'') else ret ())
        | None \<Rightarrow> record_event env (RuntimePlanBound c fp)))"

definition register_worker :: "'f sched_env \<Rightarrow> 'f worker_descriptor \<Rightarrow> bool \<Rightarrow> (('f::{linorder,plus,minus,zero}) node, unit) op" where
  "register_worker env d executor =
     bind (reads (\<lambda>s. map_of (sc_workers s) (wd_id d))) (\<lambda>current.
       andthen
         (if some_such (\<lambda>ws. ws_descriptor ws = d) current then ret ()
          else bind read_time (\<lambda>t. record_event env (WorkerRegistered d t)))
         (if executor then modify (\<lambda>n. n\<lparr>nd_executors := List.insert (wd_id d) (nd_executors n)\<rparr>) else ret ()))"

definition require_worker :: "string \<Rightarrow> ('f node, 'f worker_state) op" where
  "require_worker w = bind (reads (\<lambda>s. map_of (sc_workers s) w)) (\<lambda>x. case x of
       Some ws \<Rightarrow> ret ws
     | None \<Rightarrow> raise (KeyError (''unknown campaign worker: '' @ w)))"

text \<open>The job that holds a lease, through the two tables; a broken link is a \<open>KeyError\<close>.\<close>

definition leased_job :: "'f sched \<Rightarrow> string \<Rightarrow> (string \<times> 'f job_state) option res" where
  "leased_job s lid = (case map_of (sc_leases s) lid of
       None \<Rightarrow> Inr None
     | Some j \<Rightarrow> (case map_of (sc_jobs s) j of None \<Rightarrow> Inl (KeyError j) | Some st \<Rightarrow> Inr (Some (j, st))))"

fun valid_leases :: "'f sched \<Rightarrow> string \<Rightarrow> string list \<Rightarrow> string list res" where
  "valid_leases s w [] = Inr []"
| "valid_leases s w (lid # lids) =
     (case leased_job s lid of
        Inl e \<Rightarrow> Inl e
      | Inr x \<Rightarrow> (case valid_leases s w lids of
            Inl e \<Rightarrow> Inl e
          | Inr ys \<Rightarrow> Inr (if some_such (\<lambda>(j, st). js_status st = Leased \<and> some_such (\<lambda>l. le_worker l = w) (js_lease st)) x
                          then lid # ys else ys)))"

definition sched_heartbeat :: "'f sched_env \<Rightarrow> string \<Rightarrow> string list \<Rightarrow> (('f::{linorder,plus,minus,zero}) node, unit) op" where
  "sched_heartbeat env w lids =
     bind (require_worker w) (\<lambda>_.
     bind read_time (\<lambda>t.
     bind (reads (\<lambda>s. valid_leases s w lids)) (\<lambda>v. bind (lift_res v) (\<lambda>valid.
     bind (asks nd_lease_seconds) (\<lambda>d. record_event env (WorkerHeartbeat w t valid (t + d)))))))"

subsection \<open>Evidence grants and jobs\<close>

definition grant_evidence_share :: "'f sched_env \<Rightarrow> evidence_grant \<Rightarrow> (('f::{linorder,plus,minus,zero}) node, unit) op" where
  "grant_evidence_share env g =
     (if gr_cost g < 0 then raise (ValueError ''evidence token cost cannot be negative'')
      else bind (reads id) (\<lambda>s.
        if map_of (sc_grants s) (gr_id g) \<noteq> None then ret ()
        else if (case map_of (sc_limits s) (gr_campaign g) of None \<Rightarrow> False
             | Some limit \<Rightarrow> \<not> budget_within (budget_add (budget_add (budget_at (gr_campaign g) (sc_consumed s))
                 (budget_at (gr_campaign g) (sc_reserved s))) (shared_tokens (gr_cost g))) limit)
        then raise (RuntimeError ''campaign shared-evidence budget exhausted'')
        else record_event env (EvidenceGranted g)))"

fun validate_evidence_grants :: "'f sched \<Rightarrow> 'f job_request \<Rightarrow> string list \<Rightarrow> unit res" where
  "validate_evidence_grants s r [] = Inr ()"
| "validate_evidence_grants s r (g # gs) =
     (case map_of (sc_grants s) g of
        None \<Rightarrow> Inl (ValueError (''unknown campaign evidence grant: '' @ g))
      | Some x \<Rightarrow>
          (if gr_campaign x \<noteq> jr_campaign r \<or> gr_to x \<noteq> jr_branch r
           then Inl (PermissionError (''evidence grant is not scoped to branch '' @ jr_branch r @ '': '' @ g))
           else validate_evidence_grants s r gs))"

definition enqueue :: "'f sched_env \<Rightarrow> 'f job_request \<Rightarrow> (('f::{linorder,plus,minus,zero}) node, string) op" where
  "enqueue env r = bind (reads id) (\<lambda>s.
     case map_of (sc_idempotency s) (jr_campaign r, jr_key r) of
       Some j \<Rightarrow> (case map_of (sc_jobs s) j of
           None \<Rightarrow> raise (KeyError j)
         | Some st \<Rightarrow> (if js_request st \<noteq> r
             then raise (ValueError ''campaign idempotency key conflicts with a different durable job request'')
             else ret j))
     | None \<Rightarrow>
         (if map_of (sc_jobs s) (jr_id r) \<noteq> None
          then raise (ValueError (''campaign job_id already exists: '' @ jr_id r))
          else if jr_cohort r \<noteq> [] \<and> some_such (\<lambda>x. x \<noteq> lane_digest (sv_digest env) (jr_lane r))
                 (map_of (sc_cohort_lanes s) (job_cohort r))
          then raise (ValueError ''matched cohort jobs must use the same evaluation lane identity'')
          else bind (lift_res (validate_evidence_grants s r (jr_grants r))) (\<lambda>_.
               bind (record_event env (JobEnqueued r)) (\<lambda>_. ret (jr_id r)))))"

end
