(* ===== verification/Sched_Dispatch.thy ===== *)
theory Sched_Dispatch
  imports Sched_Ops
begin

text \<open>
  Claiming, completing, cancelling and reconciling leases, the dispatch wave of
  \<^verbatim>\<open>campaign_scheduler_dispatch.py\<close>, and the report of \<^verbatim>\<open>CampaignScheduler\<close>.
\<close>

subsection \<open>Budget and fit\<close>

datatype budget_state = BudgetAvailable | BudgetReserved | BudgetSpent

definition limit_state :: "'f sched_budget option \<Rightarrow> 'f sched_budget \<Rightarrow> 'f sched_budget \<Rightarrow>
    ('f::{linorder,plus,zero}) sched_budget \<Rightarrow> budget_state" where
  "limit_state limit consumed reserved reservation = (case limit of
       None \<Rightarrow> BudgetAvailable
     | Some x \<Rightarrow>
        (if \<not> budget_within (budget_add consumed reservation) x then BudgetSpent
         else if \<not> budget_within (budget_add (budget_add reserved consumed) reservation) x then BudgetReserved
         else BudgetAvailable))"

definition job_budget_state :: "('f::{linorder,plus,zero}) sched \<Rightarrow> 'f job_request \<Rightarrow> budget_state" where
  "job_budget_state s r =
     (let c = limit_state (map_of (sc_limits s) (jr_campaign r)) (budget_at (jr_campaign r) (sc_consumed s))
            (budget_at (jr_campaign r) (sc_reserved s)) (jr_reservation r);
          b = limit_state (map_of (sc_branch_limits s) (job_branch r)) (budget_at (job_branch r) (sc_branch_consumed s))
            (budget_at (job_branch r) (sc_branch_reserved s)) (jr_reservation r) in
      if c = BudgetSpent \<or> b = BudgetSpent then BudgetSpent
      else if c = BudgetReserved \<or> b = BudgetReserved then BudgetReserved
      else BudgetAvailable)"

text \<open>The resources of a worker's active leases, added up (in the order in which they were granted).\<close>

fun used_resources :: "'f sched \<Rightarrow> 'f resources \<Rightarrow> string list \<Rightarrow> ('f::{linorder,plus,minus,zero}) resources res" where
  "used_resources s used [] = Inr used"
| "used_resources s used (lid # lids) = (case map_of (sc_leases s) lid of
       None \<Rightarrow> used_resources s used lids
     | Some j \<Rightarrow> (if j = [] then used_resources s used lids
         else (case map_of (sc_jobs s) j of
             None \<Rightarrow> Inl (KeyError j)
           | Some st \<Rightarrow> (case resources_add used (jr_resources (js_request st)) of
               Inl e \<Rightarrow> Inl e | Inr u \<Rightarrow> used_resources s u lids))))"

definition no_resources :: "('f::zero) resources" where
  "no_resources = \<lparr>res_cpu = 0, res_memory = 0, res_disk = 0, res_kind = None, res_count = 0\<rparr>"

definition worker_matches :: "'f sched_env \<Rightarrow> 'f sched \<Rightarrow> 'f worker_state \<Rightarrow>
    ('f::{linorder,plus,minus,zero}) job_request \<Rightarrow> bool res" where
  "worker_matches env s ws r = (case used_resources s no_resources (ws_active ws) of
       Inl e \<Rightarrow> Inl e
     | Inr used \<Rightarrow> Inr
        (resources_fit (resources_subtract (wd_resources (ws_descriptor ws)) used) (jr_resources r) \<and>
         jr_capabilities r \<subseteq> wd_capabilities (ws_descriptor ws) \<and>
         (jr_cohort r = [] \<or>
          (case map_of (sc_cohort_environments s) (job_cohort r) of
             None \<Rightarrow> True
           | Some pinned \<Rightarrow> pinned = environment_fingerprint (sv_digest env) (ws_descriptor ws)))))"

subsection \<open>Claiming\<close>

definition new_lease :: "'f sched_env \<Rightarrow> string \<Rightarrow> 'f job_state \<Rightarrow> 'f worker_state \<Rightarrow> 'f \<Rightarrow> 'f \<Rightarrow> string \<Rightarrow> ('f::plus) lease" where
  "new_lease env w st ws t d lid =
     \<lparr>le_id = lid, le_job = jr_id (js_request st), le_worker = w,
      le_attempt = js_attempts st + 1, le_issued = t, le_expires = t + d,
      le_environment = environment_fingerprint (sv_digest env) (ws_descriptor ws),
      le_lifecycle = select_lifecycle (ws_descriptor ws) (js_request st), le_reuse = job_reuse_key (js_request st)\<rparr>"

definition lease_job :: "'f sched_env \<Rightarrow> string \<Rightarrow> 'f worker_state \<Rightarrow> 'f job_state \<Rightarrow>
    (('f::{linorder,plus,minus,zero}) node, 'f assignment) op" where
  "lease_job env w ws st =
     bind read_time (\<lambda>t.
     bind (if jr_prefer_warm (js_request st) \<and> select_lifecycle (ws_descriptor ws) (js_request st) = EphemeralPerEval
           then record_event env (WarmDegraded (jr_id (js_request st)) w ''capability_unavailable'')
           else ret ()) (\<lambda>_.
     bind draw_uuid (\<lambda>lid.
     bind (asks nd_lease_seconds) (\<lambda>d.
     bind (record_event env (JobLeased (new_lease env w st ws t d lid) (jr_reservation (js_request st)))) (\<lambda>_.
       ret \<lparr>as_job = js_request st, as_lease = new_lease env w st ws t d lid\<rparr>)))))"

definition claim_job :: "'f sched_env \<Rightarrow> string \<Rightarrow> string \<Rightarrow>
    (('f::{linorder,plus,minus,zero}) node, 'f assignment option) op" where
  "claim_job env w j =
     bind (require_worker w) (\<lambda>ws.
     bind (reads id) (\<lambda>s. case map_of (sc_jobs s) j of
       None \<Rightarrow> ret None
     | Some st \<Rightarrow>
        (if js_status st \<noteq> Queued then ret None
         else bind (lift_res (worker_matches env s ws (js_request st))) (\<lambda>ok.
           if \<not> ok then ret None
           else (case job_budget_state s (js_request st) of
               BudgetSpent \<Rightarrow> bind (record_event env (JobBudgetExhausted (jr_id (js_request st)))) (\<lambda>_. ret None)
             | BudgetReserved \<Rightarrow> ret None
             | BudgetAvailable \<Rightarrow> bind (lease_job env w ws st) (\<lambda>a. ret (Some a)))))))"

fun claim_jobs :: "'f sched_env \<Rightarrow> string \<Rightarrow> nat \<Rightarrow> string list \<Rightarrow> 'f assignment list \<Rightarrow>
    (('f::{linorder,plus,minus,zero}) node, 'f assignment list) op" where
  "claim_jobs env w slots [] acc = ret acc"
| "claim_jobs env w slots (j # js) acc =
     (if length acc \<ge> slots then ret acc
      else bind (claim_job env w j) (\<lambda>a. claim_jobs env w slots js (case a of Some x \<Rightarrow> acc @ [x] | None \<Rightarrow> acc)))"

definition leases_in_use :: "'f sched \<Rightarrow> int" where
  "leases_in_use s = (\<Sum>p \<leftarrow> sc_workers s. int (length (ws_active (snd p))))"

definition free_slots :: "'f node \<Rightarrow> 'f worker_state \<Rightarrow> int option \<Rightarrow> int" where
  "free_slots n ws limit =
     (let available = wd_concurrency (ws_descriptor ws) - int (length (ws_active ws));
          global = nd_max_concurrency n - leases_in_use (nd_sched n) in
      max 0 (min (min available global) (case limit of Some x \<Rightarrow> x | None \<Rightarrow> available)))"

definition claim :: "'f sched_env \<Rightarrow> string \<Rightarrow> int option \<Rightarrow> (('f::{linorder,plus,minus,zero}) node, 'f assignment list) op" where
  "claim env w limit =
     bind (require_worker w) (\<lambda>ws.
     bind (asks (\<lambda>n. nat (free_slots n ws limit))) (\<lambda>slots.
     bind (reads (\<lambda>s. map fst (sc_jobs s))) (\<lambda>js. claim_jobs env w slots js [])))"

subsection \<open>Completion\<close>

definition record_audit_failure :: "'f sched_env \<Rightarrow> string \<Rightarrow> string \<Rightarrow> string \<Rightarrow> (('f::{linorder,plus,minus,zero}) node, unit) op" where
  "record_audit_failure env c checkpoint failure = record_event env (AuditCheckpointFailed c checkpoint failure)"

text \<open>\<open>review_scheduler_checkpoint\<close>: the name of the exception that the audit raised, if it did.\<close>

definition review_scheduler_checkpoint :: "'f sched_env \<Rightarrow> 'f audit_packet \<Rightarrow> string option" where
  "review_scheduler_checkpoint env p = (case sv_audit env of
       None \<Rightarrow> None
     | Some audit \<Rightarrow> map_option exc_name (audit p))"

definition integrity_alert :: "'f sched_env \<Rightarrow> 'f assignment \<Rightarrow> 'f job_result \<Rightarrow> string \<Rightarrow>
    (('f::{linorder,plus,minus,zero}) node, unit) op" where
  "integrity_alert env a x source = (case review_scheduler_checkpoint env (IntegrityEvidence a x source) of
       None \<Rightarrow> ret ()
     | Some failure \<Rightarrow> record_audit_failure env (jr_campaign (as_job a)) ''integrity_alert'' failure)"

definition default_result :: "'a option \<Rightarrow> 'a \<Rightarrow> 'a" where
  "default_result x y = (case x of Some z \<Rightarrow> z | None \<Rightarrow> y)"

text \<open>A completion for a lease that is no longer active.\<close>

definition complete_historical :: "'f sched_env \<Rightarrow> string \<Rightarrow> 'f job_result \<Rightarrow>
    (('f::{linorder,plus,minus,zero}) node, 'f job_result) op" where
  "complete_historical env lid x = bind (reads id) (\<lambda>s.
     case map_of (sc_history s) lid of
       None \<Rightarrow> raise (ValueError ''lease is stale or unknown'')
     | Some j \<Rightarrow> (case map_of (sc_jobs s) j of
         None \<Rightarrow> raise (KeyError j)
       | Some st \<Rightarrow>
          (if lid \<in> set (sc_result_leases s) \<and> map_of (sc_provisional s) lid = None
           then ret (default_result (js_result st) x)
           else bind (record_event env (if js_status st = Canceled then JobCanceledLate j lid x
                   else JobStaleCompleted j lid x)) (\<lambda>_. ret (default_result (js_result st) x)))))"

text \<open>The part of \<open>complete\<close> under the lock: its result, and the assignment when an audit may follow.\<close>

definition complete_locked :: "'f sched_env \<Rightarrow> string \<Rightarrow> 'f job_result \<Rightarrow>
    (('f::{linorder,plus,minus,zero}) node, 'f job_result \<times> 'f assignment option) op" where
  "complete_locked env lid x = bind (reads id) (\<lambda>s. bind (lift_res (leased_job s lid)) (\<lambda>found.
     case found of
       None \<Rightarrow> bind (complete_historical env lid x) (\<lambda>y. ret (y, None))
     | Some (j, st) \<Rightarrow> (case js_lease st of
         Some l \<Rightarrow>
          (if js_status st = Canceling \<and> le_id l = lid
           then bind (record_event env (JobCanceledLate j lid x)) (\<lambda>_. ret (x, None))
           else if js_status st \<noteq> Leased \<or> le_id l \<noteq> lid
           then (case js_result st of Some y \<Rightarrow> ret (y, None) | None \<Rightarrow> raise (ValueError ''lease is no longer active''))
           else bind (record_event env
               (if jx_outcome x = InfrastructureFailure \<and> jx_retryable x \<and> js_attempts st < jr_max_attempts (js_request st)
                then JobRequeued j lid (if jx_detail x \<noteq> [] then jx_detail x else ''infrastructure_failure'') (Some x) False
                else JobFinished j lid x)) (\<lambda>_. ret (x, Some \<lparr>as_job = js_request st, as_lease = l\<rparr>)))
       | None \<Rightarrow> (case js_result st of Some y \<Rightarrow> ret (y, None) | None \<Rightarrow> raise (ValueError ''lease is no longer active'')))))"

definition complete_lease :: "'f sched_env \<Rightarrow> string \<Rightarrow> 'f job_result \<Rightarrow>
    (('f::{linorder,plus,minus,zero}) node, 'f job_result) op" where
  "complete_lease env lid x = bind (complete_locked env lid x) (\<lambda>(y, a). case a of
       Some a \<Rightarrow> (if jx_outcome x = InfrastructureFailure
          then bind (integrity_alert env a x ''worker_completion'') (\<lambda>_. ret y) else ret y)
     | None \<Rightarrow> ret y)"

subsection \<open>Cancellation\<close>

definition cancellation_event :: "'f job_request \<Rightarrow> 'f lease \<Rightarrow> string \<Rightarrow> 'f sched_event" where
  "cancellation_event r l reason =
     JobCanceled (jr_id r) reason (Some (le_id l, provisional_cancellation_result r reason)) True"

text \<open>The first critical section of \<open>cancel\<close>: an answer, or the assignment whose worker is to be asked.\<close>

definition request_cancel :: "'f sched_env \<Rightarrow> string \<Rightarrow> (('f::{linorder,plus,minus,zero}) node, bool + 'f assignment) op" where
  "request_cancel env j = bind (reads (\<lambda>s. map_of (sc_jobs s) j)) (\<lambda>x. case x of
       None \<Rightarrow> ret (Inl False)
     | Some st \<Rightarrow>
        (if js_status st \<in> terminal_statuses then ret (Inl False)
         else if js_status st = Queued
         then bind (record_event env (JobCanceled j ''canceled_before_dispatch'' None False)) (\<lambda>_. ret (Inl True))
         else if js_status st = Canceling then ret (Inl True)
         else (case js_lease st of
             None \<Rightarrow> ret (Inl False)
           | Some l \<Rightarrow> bind (record_event env (JobCancelRequested j (le_id l)))
               (\<lambda>_. ret (Inr \<lparr>as_job = js_request st, as_lease = l\<rparr>)))))"

text \<open>The second one, after the worker has confirmed.\<close>

definition acknowledge_cancel :: "'f sched_env \<Rightarrow> string \<Rightarrow> 'f assignment \<Rightarrow> (('f::{linorder,plus,minus,zero}) node, unit) op" where
  "acknowledge_cancel env j a = bind (reads (\<lambda>s. map_of (sc_jobs s) j)) (\<lambda>x. case x of
       None \<Rightarrow> raise (KeyError j)
     | Some st \<Rightarrow> (if js_status st = Canceling
         then record_event env (cancellation_event (js_request st) (as_lease a) ''worker_acknowledged'') else ret ()))"

definition worker_confirms :: "'f sched_env \<Rightarrow> bool \<Rightarrow> 'f assignment \<Rightarrow> bool" where
  "worker_confirms env bound a \<longleftrightarrow> bound \<and>
     (case sv_cancel env (le_worker (as_lease a)) of Some f \<Rightarrow> f a | None \<Rightarrow> False)"

definition cancel_job :: "'f sched_env \<Rightarrow> string \<Rightarrow> (('f::{linorder,plus,minus,zero}) node, bool) op" where
  "cancel_job env j = bind (request_cancel env j) (\<lambda>x. case x of
       Inl b \<Rightarrow> ret b
     | Inr a \<Rightarrow> bind (asks (\<lambda>n. le_worker (as_lease a) \<in> set (nd_executors n))) (\<lambda>bound.
         if worker_confirms env bound a then bind (acknowledge_cancel env j a) (\<lambda>_. ret True) else ret True))"

text \<open>The last section of \<open>cancel_active_jobs\<close>: what is still unresolved is sealed.\<close>

definition seal_job :: "'f sched_env \<Rightarrow> string \<Rightarrow> (('f::{linorder,plus,minus,zero}) node, unit) op" where
  "seal_job env j = bind (reads (\<lambda>s. map_of (sc_jobs s) j)) (\<lambda>x. case x of
       None \<Rightarrow> raise (KeyError j)
     | Some st \<Rightarrow> (case js_lease st of
         Some l \<Rightarrow> (if js_status st \<in> {Leased, Canceling}
           then record_event env (cancellation_event (js_request st) l ''cancel_grace_expired'') else ret ())
       | None \<Rightarrow> ret ()))"

definition active_jobs :: "'f sched \<Rightarrow> string list" where
  "active_jobs s = map (jr_id \<circ> js_request \<circ> snd) (filter (\<lambda>p. js_status (snd p) \<in> {Leased, Canceling}) (sc_jobs s))"

definition seal_active_jobs :: "'f sched_env \<Rightarrow> string list \<Rightarrow> (('f::{linorder,plus,minus,zero}) node, unit) op" where
  "seal_active_jobs env js = each (seal_job env) js"

subsection \<open>Reconciliation\<close>

definition restart_lease_has_durable_replay :: "'f sched_env \<Rightarrow> 'f node \<Rightarrow> 'f lease \<Rightarrow> bool" where
  "restart_lease_has_durable_replay env n l \<longleftrightarrow>
     le_id l \<in> set (nd_orphans n) \<and> le_id l \<in> set (nd_replayable n) \<and> le_worker l \<in> set (nd_executors n) \<and>
     (case map_of (sc_workers (nd_sched n)) (le_worker l) of
        None \<Rightarrow> False
      | Some ws \<Rightarrow> wd_locality (ws_descriptor ws) = ''remote'' \<and>
          environment_fingerprint (sv_digest env) (ws_descriptor ws) = le_environment l \<and>
          ''durable_result_replay'' \<in> wd_features (ws_descriptor ws))"

text \<open>
  One job of \<open>reconcile\<close>: a dispatched job whose lease has expired is canceled, requeued or failed
  with a provisional charge. The answer says whether it was reconciled, and what to audit.
\<close>

definition expire_lease :: "'f sched_env \<Rightarrow> 'f job_state \<Rightarrow> 'f lease \<Rightarrow>
    (('f::{linorder,plus,minus,zero}) node, ('f assignment \<times> 'f job_result) option) op" where
  "expire_lease env st l = bind (asks (\<lambda>n. le_id l \<in> set (nd_replayable n))) (\<lambda>durable.
     let r = js_request st; retry = (\<not> durable \<and> jr_retry_expired r \<and> js_attempts st < jr_max_attempts r);
         x = provisional_expired_lease_result r (Some l);
         provisional = (if durable then x\<lparr>jx_retryable := False\<rparr> else x) in
     bind (record_event env (if retry then JobRequeued (jr_id r) (le_id l) ''lease_expired'' (Some provisional) True
             else JobLeaseFailed (jr_id r) (le_id l) ''lease_expired'' (Some provisional) True))
       (\<lambda>_. ret (if retry then None else Some (\<lparr>as_job = r, as_lease = l\<rparr>, provisional))))"

definition reconcile_job :: "'f sched_env \<Rightarrow> 'f \<Rightarrow> string \<Rightarrow>
    (('f::{linorder,plus,minus,zero}) node, (string \<times> ('f assignment \<times> 'f job_result) option) option) op" where
  "reconcile_job env current j = bind (reads (\<lambda>s. map_of (sc_jobs s) j)) (\<lambda>x. case x of
       None \<Rightarrow> ret None
     | Some st \<Rightarrow> (case js_lease st of
         None \<Rightarrow> ret None
       | Some l \<Rightarrow>
          (if js_status st \<notin> {Leased, Canceling} \<or> le_expires l > current then ret None
           else if js_status st = Canceling
           then bind (record_event env (cancellation_event (js_request st) l ''cancel_lease_expired''))
                  (\<lambda>_. ret (Some (jr_id (js_request st), None)))
           else bind (asks (\<lambda>n. restart_lease_has_durable_replay env n l)) (\<lambda>replay.
             if replay then ret None
             else bind (expire_lease env st l) (\<lambda>a. ret (Some (jr_id (js_request st), a)))))))"

fun reconcile_jobs :: "'f sched_env \<Rightarrow> 'f \<Rightarrow> string list \<Rightarrow>
    (('f::{linorder,plus,minus,zero}) node, (string \<times> ('f assignment \<times> 'f job_result) option) list) op" where
  "reconcile_jobs env current [] = ret []"
| "reconcile_jobs env current (j # js) = bind (reconcile_job env current j) (\<lambda>a.
     bind (reconcile_jobs env current js) (\<lambda>xs. ret (case a of Some y \<Rightarrow> y # xs | None \<Rightarrow> xs)))"

definition reconcile :: "'f sched_env \<Rightarrow> 'f option \<Rightarrow> (('f::{linorder,plus,minus,zero}) node, string list) op" where
  "reconcile env at_time =
     bind (case at_time of Some t \<Rightarrow> ret t | None \<Rightarrow> read_time) (\<lambda>current.
     bind (reads (\<lambda>s. map fst (sc_jobs s))) (\<lambda>js.
     bind (reconcile_jobs env current js) (\<lambda>xs.
     andthen (each (\<lambda>(a, x). integrity_alert env a x ''lease_reconciliation'') (List.map_filter snd xs))
       (ret (map fst xs)))))"

subsection \<open>Start, dispatch wave, report\<close>

fun replay_log :: "('f digest_input \<Rightarrow> string) \<Rightarrow> 'f log_record list \<Rightarrow> (('f::{linorder,plus,minus,zero}) sched, unit) op" where
  "replay_log digest [] = ret ()"
| "replay_log digest (e # es) = andthen (apply_scheduler_event digest e) (replay_log digest es)"

definition orphan_leases :: "'f sched \<Rightarrow> string list" where
  "orphan_leases s = concat (map (\<lambda>(j, st). case js_lease st of
       Some l \<Rightarrow> (if js_status st = Leased then [le_id l] else []) | None \<Rightarrow> []) (sc_jobs s))"

definition restart_orphan_lease_sets :: "'f sched \<Rightarrow> string list \<times> string list" where
  "restart_orphan_lease_sets s = (orphan_leases s, filter (\<lambda>l. l \<in> set (sc_durable s)) (orphan_leases s))"

definition new_node :: "'f sched_env \<Rightarrow> 'f log_record list \<Rightarrow> 'f \<Rightarrow> int \<Rightarrow> (nat \<Rightarrow> string) \<Rightarrow> (nat \<Rightarrow> 'f) \<Rightarrow>
    (('f::{linorder,plus,minus,zero}) node) res" where
  "new_node env es lease_seconds max_concurrency ids clk =
     (if \<not> lease_seconds > 0 then Inl (ValueError ''lease_seconds must be a positive finite number'')
      else if max_concurrency < 1 then Inl (ValueError ''lease_seconds and max_concurrency must be positive'')
      else (case replay_log (sv_digest env) es empty_sched of
          (Inl e, s) \<Rightarrow> Inl e
        | (Inr _, s) \<Rightarrow> Inr \<lparr>nd_sched = s, nd_executors = [], nd_orphans = fst (restart_orphan_lease_sets s),
            nd_replayable = snd (restart_orphan_lease_sets s), nd_log = es, nd_lease_seconds = lease_seconds,
            nd_max_concurrency = max_concurrency, nd_uuids = ids, nd_drawn = 0, nd_clock = clk, nd_ticks = 0\<rparr>))"

definition forget_orphan :: "string \<Rightarrow> 'f node \<Rightarrow> 'f node" where
  "forget_orphan lid n = n\<lparr>nd_orphans := removeAll lid (nd_orphans n)\<rparr>"

text \<open>
  An expired lease of an earlier process whose worker promises a durable replay is extended and
  handed to that worker again.
\<close>

definition resume_orphan :: "'f sched_env \<Rightarrow> string \<Rightarrow> (('f::{linorder,plus,minus,zero}) node, 'f assignment option) op" where
  "resume_orphan env lid = bind (reads (\<lambda>s. map_of (sc_leases s) lid)) (\<lambda>j.
     bind (reads (\<lambda>s. case j of Some j \<Rightarrow> map_of (sc_jobs s) j | None \<Rightarrow> None)) (\<lambda>x. case x of
       None \<Rightarrow> andthen (modify (forget_orphan lid)) (ret None)
     | Some st \<Rightarrow> (case js_lease st of
         None \<Rightarrow> andthen (modify (forget_orphan lid)) (ret None)
       | Some l \<Rightarrow>
          (if js_status st \<noteq> Leased then andthen (modify (forget_orphan lid)) (ret None)
           else bind read_time (\<lambda>t. bind (asks (\<lambda>n. restart_lease_has_durable_replay env n l)) (\<lambda>replay.
             if le_expires l > t \<or> \<not> replay then ret None
             else bind (sched_heartbeat env (le_worker l) [lid]) (\<lambda>_.
                  bind (reads (\<lambda>s. map_of (sc_jobs s) (jr_id (js_request st)))) (\<lambda>y.
                  andthen (modify (forget_orphan lid)) (ret (case y of
                      None \<Rightarrow> None
                    | Some st' \<Rightarrow> map_option (\<lambda>l'. \<lparr>as_job = js_request st', as_lease = l'\<rparr>) (js_lease st')))))))))))"

fun claim_expired_restart_leases :: "'f sched_env \<Rightarrow> string list \<Rightarrow>
    (('f::{linorder,plus,minus,zero}) node, 'f assignment list) op" where
  "claim_expired_restart_leases env [] = ret []"
| "claim_expired_restart_leases env (lid # lids) = bind (resume_orphan env lid) (\<lambda>a.
     bind (claim_expired_restart_leases env lids) (\<lambda>xs. ret (case a of Some y \<Rightarrow> y # xs | None \<Rightarrow> xs)))"

fun claim_workers :: "'f sched_env \<Rightarrow> string list \<Rightarrow> int \<Rightarrow> (('f::{linorder,plus,minus,zero}) node, 'f assignment list) op" where
  "claim_workers env [] available = ret []"
| "claim_workers env (w # ws) available = bind (asks (\<lambda>n. w \<in> set (nd_executors n))) (\<lambda>bound.
     if \<not> bound \<or> available \<le> 0 then claim_workers env ws available
     else bind (claim env w (Some available)) (\<lambda>xs.
          bind (claim_workers env ws (available - int (length xs))) (\<lambda>ys. ret (xs @ ys))))"

definition claim_dispatch_wave :: "'f sched_env \<Rightarrow> (('f::{linorder,plus,minus,zero}) node, 'f assignment list) op" where
  "claim_dispatch_wave env =
     bind (asks (\<lambda>n. sort (nd_orphans n))) (\<lambda>lids.
     bind (claim_expired_restart_leases env lids) (\<lambda>xs.
     bind (asks (\<lambda>n. nd_max_concurrency n - leases_in_use (nd_sched n))) (\<lambda>available.
     bind (reads (\<lambda>s. sort (map fst (sc_workers s)))) (\<lambda>ws.
     bind (claim_workers env ws available) (\<lambda>ys. ret (xs @ ys))))))"

definition count_status :: "job_status set \<Rightarrow> 'f sched \<Rightarrow> nat" where
  "count_status xs s = length (filter (\<lambda>p. js_status (snd p) \<in> xs) (sc_jobs s))"

definition work_counts :: "'f sched \<Rightarrow> nat \<times> nat" where
  "work_counts s = (count_status {Queued} s, count_status {Leased, Canceling} s)"

definition sched_job_status :: "string \<Rightarrow> 'f sched \<Rightarrow> job_status res" where
  "sched_job_status j s = (case map_of (sc_jobs s) j of None \<Rightarrow> Inl (KeyError j) | Some st \<Rightarrow> Inr (js_status st))"

definition sched_job_result :: "string \<Rightarrow> 'f sched \<Rightarrow> 'f job_result option res" where
  "sched_job_result j s = (case map_of (sc_jobs s) j of None \<Rightarrow> Inl (KeyError j) | Some st \<Rightarrow> Inr (js_result st))"

definition consumed_for_branch :: "string \<Rightarrow> string \<Rightarrow> ('f::zero) sched \<Rightarrow> 'f sched_budget" where
  "consumed_for_branch c b s = budget_at (c, b) (sc_branch_consumed s)"

definition campaign_ids :: "'f sched \<Rightarrow> string list" where
  "campaign_ids s = remdups (map fst (sc_limits s) @ map (jr_campaign \<circ> js_request \<circ> snd) (sc_jobs s))"

text \<open>The report; the audit records in it are those of the auditor's own store and left out.\<close>

record 'f worker_usage =
  wu_runtime :: string
  wu_locality :: string
  wu_active :: nat
  wu_concurrency :: int
  wu_completed :: int
  wu_failed :: int
  wu_cleaned :: int
  wu_uncleaned :: int
  wu_consumed :: "'f sched_budget"
  wu_heartbeat :: 'f

definition worker_usage_of :: "'f worker_state \<Rightarrow> 'f worker_usage" where
  "worker_usage_of ws = \<lparr>wu_runtime = wd_runtime (ws_descriptor ws), wu_locality = wd_locality (ws_descriptor ws),
     wu_active = length (ws_active ws), wu_concurrency = wd_concurrency (ws_descriptor ws),
     wu_completed = ws_completed ws, wu_failed = ws_failed ws, wu_cleaned = ws_cleaned ws, wu_uncleaned = ws_uncleaned ws,
     wu_consumed = ws_consumed ws, wu_heartbeat = ws_heartbeat ws\<rparr>"

record 'f sched_report =
  rp_queued :: nat
  rp_running :: nat
  rp_succeeded :: nat
  rp_candidate_failed :: nat
  rp_infrastructure_failed :: nat
  rp_budget_exhausted :: nat
  rp_canceled :: nat
  rp_late :: nat
  rp_retries :: nat
  rp_reserved :: "(string \<times> 'f sched_budget) list"
  rp_consumed :: "(string \<times> 'f sched_budget) list"
  rp_branches :: "(string \<times> (string \<times> 'f sched_budget) list) list"
  rp_cleanup :: "(string \<times> (int \<times> int)) list"
  rp_workers :: "(string \<times> 'f worker_usage) list"
  rp_events :: nat
  rp_audit_failures :: "(string \<times> (string \<times> string) list) list"

definition scheduler_report :: "'f sched \<Rightarrow> 'f sched_report" where
  "scheduler_report s = \<lparr>rp_queued = count_status {Queued} s,
     rp_running = count_status {Leased} s + count_status {Canceling} s,
     rp_succeeded = count_status {Succeeded} s, rp_candidate_failed = count_status {CandidateFailed} s,
     rp_infrastructure_failed = count_status {InfrastructureFailed} s,
     rp_budget_exhausted = count_status {BudgetExhausted} s, rp_canceled = count_status {Canceled} s,
     rp_late = sc_late s, rp_retries = sc_retries s, rp_reserved = sc_reserved s, rp_consumed = sc_consumed s,
     rp_branches = map (\<lambda>c. (c, sort_key fst (List.map_filter (\<lambda>((c', b), x). if c' = c then Some (b, x) else None)
       (sc_branch_consumed s)))) (sort (campaign_ids s)),
     rp_cleanup = sort_key fst (sc_cleanup s),
     rp_workers = map (\<lambda>(w, ws). (w, worker_usage_of ws)) (sort_key fst (sc_workers s)),
     rp_events = sc_sequence s, rp_audit_failures = sort_key fst (sc_audits s)\<rparr>"

text \<open>The final audit of a campaign all of whose jobs have ended.\<close>

definition campaign_jobs :: "string \<Rightarrow> 'f sched \<Rightarrow> 'f job_state list" where
  "campaign_jobs c s = filter (\<lambda>st. jr_campaign (js_request st) = c) (map snd (sc_jobs s))"

definition summary_status :: "'f job_state list \<Rightarrow> string" where
  "summary_status jobs = (let xs = set (map js_status jobs) in
     if jobs \<noteq> [] \<and> xs \<subseteq> {Succeeded} then ''completed''
     else if InfrastructureFailed \<in> xs \<or> CandidateFailed \<in> xs then ''failed''
     else if BudgetExhausted \<in> xs then ''budget_exhausted''
     else if Canceled \<in> xs then ''canceled'' else ''active'')"

definition final_summary_evidence :: "string \<Rightarrow> 'f job_state list \<Rightarrow> 'f sched_budget \<Rightarrow> 'f audit_packet" where
  "final_summary_evidence c jobs consumed =
     FinalSummary c (summary_status jobs) (sort_key (jr_id \<circ> js_request) jobs) consumed"

definition final_summaries :: "('f::zero) sched \<Rightarrow> (string \<times> 'f audit_packet) list" where
  "final_summaries s = List.map_filter (\<lambda>c.
     if campaign_jobs c s \<noteq> [] \<and> list_all (\<lambda>st. js_status st \<in> terminal_statuses) (campaign_jobs c s)
     then Some (c, final_summary_evidence c (campaign_jobs c s) (budget_at c (sc_consumed s))) else None)
     (sort (campaign_ids s))"

definition audit_final_summaries :: "'f sched_env \<Rightarrow> (('f::{linorder,plus,minus,zero}) node, unit) op" where
  "audit_final_summaries env = bind (reads final_summaries) (each (\<lambda>(c, p).
     case review_scheduler_checkpoint env p of
       None \<Rightarrow> ret ()
     | Some failure \<Rightarrow> record_audit_failure env c ''final_completion'' failure))"

end
