(* ===== verification/Sched_Machine.thy ===== *)
theory Sched_Machine
  imports Sched_Dispatch "HOL-Library.Sublist"
begin

text \<open>
  The scheduler as an abstract event machine. \<open>admissible ev s\<close> is the guard of an event: what the
  operations have checked when they record it. \<open>sched_ok\<close> is the well-formedness of the reduced
  state: the tables of jobs, leases, workers and results agree with each other. Applying an
  admissible event to a well-formed state never raises and gives a well-formed state; so does
  every operation, because every operation is a sequence of admissible recorded events.
\<close>

subsection \<open>Well-formed states\<close>

definition sound_budget :: "('f::{linorder,zero}) sched_budget \<Rightarrow> bool" where
  "sound_budget b \<longleftrightarrow> 0 \<le> sb_tokens b \<and> 0 \<le> sb_wall b \<and> 0 \<le> sb_compute b \<and> 0 \<le> sb_jobs b \<and> 0 \<le> sb_shared b"

definition valid_request :: "('f::{linorder,zero}) job_request \<Rightarrow> bool" where
  "valid_request r \<longleftrightarrow> check_request r = Inr () \<and> sound_budget (jr_reservation r)"

definition registered :: "'f sched \<Rightarrow> string \<Rightarrow> bool" where
  "registered s w \<longleftrightarrow> map_of (sc_workers s) w \<noteq> None"

definition active_at :: "'f sched \<Rightarrow> string \<Rightarrow> string list" where
  "active_at s w = (case map_of (sc_workers s) w of Some ws \<Rightarrow> ws_active ws | None \<Rightarrow> [])"

definition holds :: "'f sched \<Rightarrow> string \<Rightarrow> string \<Rightarrow> string \<Rightarrow> bool" where
  "holds s j w lid \<longleftrightarrow> (\<exists>st l. map_of (sc_jobs s) j = Some st \<and> js_lease st = Some l \<and> le_id l = lid \<and> le_worker l = w)"

text \<open>A job on its own: its attempts, and a lease exactly while it is dispatched.\<close>

definition job_ok :: "string \<Rightarrow> ('f::{linorder,zero}) job_state \<Rightarrow> bool" where
  "job_ok j st \<longleftrightarrow> jr_id (js_request st) = j \<and> valid_request (js_request st) \<and>
     0 \<le> js_attempts st \<and> js_attempts st \<le> jr_max_attempts (js_request st) \<and>
     (js_status st = Queued \<longrightarrow> js_attempts st < jr_max_attempts (js_request st)) \<and>
     (js_lease st = None \<longleftrightarrow> js_status st \<notin> {Leased, Canceling}) \<and>
     (\<forall>l. js_lease st = Some l \<longrightarrow> le_job l = j)"

definition jobs_ok :: "('f::{linorder,zero}) sched \<Rightarrow> bool" where
  "jobs_ok s \<longleftrightarrow> distinct (map fst (sc_jobs s)) \<and> (\<forall>j st. map_of (sc_jobs s) j = Some st \<longrightarrow> job_ok j st)"

text \<open>The tables of leases: exactly the leases that jobs hold are active, at the job's worker.\<close>

definition leases_ok :: "'f sched \<Rightarrow> bool" where
  "leases_ok s \<longleftrightarrow>
     (\<forall>lid j. map_of (sc_leases s) lid = Some j \<longleftrightarrow> (\<exists>w. holds s j w lid)) \<and>
     (\<forall>w lid. lid \<in> set (active_at s w) \<longleftrightarrow> (\<exists>j. holds s j w lid)) \<and>
     (\<forall>w. distinct (active_at s w)) \<and>
     (\<forall>j w lid. holds s j w lid \<longrightarrow> registered s w \<and> map_of (sc_history s) lid = Some j \<and> lid \<notin> set (sc_result_leases s))"

definition history_ok :: "'f sched \<Rightarrow> bool" where
  "history_ok s \<longleftrightarrow>
     (\<forall>lid j. map_of (sc_history s) lid = Some j \<longrightarrow> map_of (sc_jobs s) j \<noteq> None \<and> map_of (sc_records s) lid \<noteq> None) \<and>
     (\<forall>lid l. map_of (sc_records s) lid = Some l \<longrightarrow> registered s (le_worker l)) \<and>
     (\<forall>lid. map_of (sc_provisional s) lid \<noteq> None \<longrightarrow> lid \<in> set (sc_result_leases s)) \<and>
     (\<forall>k j. map_of (sc_idempotency s) k = Some j \<longrightarrow> map_of (sc_jobs s) j \<noteq> None) \<and>
     set (sc_result_leases s) \<subseteq> dom (map_of (sc_history s))"

definition sched_ok :: "('f::{linorder,zero}) sched \<Rightarrow> bool" where
  "sched_ok s \<longleftrightarrow> jobs_ok s \<and> leases_ok s \<and> history_ok s"

subsection \<open>Guards\<close>

definition job_in :: "'f sched \<Rightarrow> string \<Rightarrow> ('f job_state \<Rightarrow> bool) \<Rightarrow> bool" where
  "job_in s j P \<longleftrightarrow> (\<exists>st. map_of (sc_jobs s) j = Some st \<and> P st)"

fun admissible :: "'f sched_env \<Rightarrow> 'f sched_event \<Rightarrow> ('f::{linorder,plus,minus,zero}) sched \<Rightarrow> bool" where
  "admissible env (WorkerHeartbeat w t lids x) s \<longleftrightarrow> registered s w"
| "admissible env (JobEnqueued r) s \<longleftrightarrow> valid_request r \<and> map_of (sc_jobs s) (jr_id r) = None \<and>
     map_of (sc_idempotency s) (jr_campaign r, jr_key r) = None"
| "admissible env (JobLeased l b) s \<longleftrightarrow> map_of (sc_history s) (le_id l) = None \<and>
     (\<exists>st ws. map_of (sc_jobs s) (le_job l) = Some st \<and> js_status st = Queued \<and> b = jr_reservation (js_request st) \<and>
       le_attempt l = js_attempts st + 1 \<and> map_of (sc_workers s) (le_worker l) = Some ws \<and>
       job_budget_state s (js_request st) = BudgetAvailable \<and> worker_matches env s ws (js_request st) = Inr True \<and>
       int (length (ws_active ws)) < wd_concurrency (ws_descriptor ws))"
| "admissible env (JobBudgetExhausted j) s \<longleftrightarrow> job_in s j (\<lambda>st. js_status st = Queued)"
| "admissible env (JobCancelRequested j lid) s \<longleftrightarrow> job_in s j (\<lambda>st. js_status st = Leased)"
| "admissible env (JobCanceledLate j lid x) s \<longleftrightarrow> map_of (sc_history s) lid = Some j \<and>
     (lid \<in> set (sc_result_leases s) \<longrightarrow> map_of (sc_provisional s) lid \<noteq> None) \<and>
     job_in s j (\<lambda>st. js_status st = Canceled \<or> js_status st = Canceling \<and> has_lease lid st)"
| "admissible env (JobStaleCompleted j lid x) s \<longleftrightarrow> map_of (sc_history s) lid = Some j \<and>
     (lid \<in> set (sc_result_leases s) \<longrightarrow> map_of (sc_provisional s) lid \<noteq> None) \<and>
     job_in s j (\<lambda>st. js_status st \<noteq> Canceled \<and> \<not> has_lease lid st)"
| "admissible env (JobRequeued j lid reason x p) s \<longleftrightarrow> x \<noteq> None \<and>
     job_in s j (\<lambda>st. js_status st = Leased \<and> has_lease lid st \<and> js_attempts st < jr_max_attempts (js_request st))"
| "admissible env (JobLeaseFailed j lid reason x p) s \<longleftrightarrow> x \<noteq> None \<and>
     job_in s j (\<lambda>st. js_status st = Leased \<and> has_lease lid st)"
| "admissible env (JobCanceled j reason x p) s \<longleftrightarrow> (case x of
       None \<Rightarrow> job_in s j (\<lambda>st. js_status st = Queued)
     | Some (lid, y) \<Rightarrow> job_in s j (\<lambda>st. js_status st \<in> {Leased, Canceling} \<and> has_lease lid st))"
| "admissible env (JobFinished j lid x) s \<longleftrightarrow> job_in s j (\<lambda>st. js_status st = Leased \<and> has_lease lid st)"
| "admissible env ev s \<longleftrightarrow> True"

subsection \<open>Frames\<close>

definition same_tables :: "'f sched \<Rightarrow> 'f sched \<Rightarrow> bool" where
  "same_tables s s' \<longleftrightarrow> sc_leases s' = sc_leases s \<and> sc_history s' = sc_history s \<and> sc_records s' = sc_records s \<and>
     sc_idempotency s' = sc_idempotency s \<and> (\<forall>w. registered s' w = registered s w) \<and> (\<forall>w. active_at s' w = active_at s w)"

definition same_core :: "'f sched \<Rightarrow> 'f sched \<Rightarrow> bool" where
  "same_core s s' \<longleftrightarrow> same_tables s s' \<and> sc_jobs s' = sc_jobs s \<and> sc_result_leases s' = sc_result_leases s \<and>
     sc_provisional s' = sc_provisional s"

lemma same_tables_refl [simp]: "same_tables s s"
  by (simp add: same_tables_def)

lemma same_core_refl [simp]: "same_core s s"
  by (simp add: same_core_def)

lemma same_tables_trans: "same_tables s s' \<Longrightarrow> same_tables s' s'' \<Longrightarrow> same_tables s s''"
  by (simp add: same_tables_def)

lemma same_core_trans: "same_core s s' \<Longrightarrow> same_core s' s'' \<Longrightarrow> same_core s s''"
  by (auto simp: same_core_def intro: same_tables_trans)

lemma holds_cong: "sc_jobs s' = sc_jobs s \<Longrightarrow> holds s' = holds s"
  by (intro ext) (simp add: holds_def)

lemma same_core_ok:
  assumes "same_core s s'" and "sched_ok s"
  shows "sched_ok s'"
proof -
  note c = assms(1) [unfolded same_core_def same_tables_def]
  from c have h: "holds s' = holds s" by (intro holds_cong) simp
  have "jobs_ok s' = jobs_ok s" using c by (simp add: jobs_ok_def)
  moreover have "leases_ok s' = leases_ok s" using c h by (simp add: leases_ok_def)
  moreover have "history_ok s' = history_ok s" using c by (simp add: history_ok_def)
  ultimately show ?thesis using assms(2) by (simp add: sched_ok_def)
qed

lemma map_of_update [simp]: "map_of (AList.update k v al) = (map_of al)(k \<mapsto> v)"
  by (rule AList.update_conv')

lemma map_of_alist_delete [simp]: "map_of (AList.delete k al) = (map_of al)(k := None)"
  by (rule AList.delete_conv')

lemma on_worker_run:
  assumes "registered s w" and "\<And>ws. ws_active (f ws) = ws_active ws"
  shows "\<exists>s'. on_worker w f s = (Inr (), s') \<and> same_core s s'"
  using assms by (auto simp: on_worker_def registered_def same_core_def same_tables_def active_at_def)

lemma worker_cleanup_active [simp]: "ws_active (worker_cleanup f ws) = ws_active ws"
  by (simp add: worker_cleanup_def split: prod.split)

text \<open>Accounting touches no table, and does not raise when the worker is known.\<close>

lemma record_cleanup_run:
  assumes "w \<noteq> [] \<Longrightarrow> registered s w"
  shows "\<exists>s'. record_cleanup c w ok s = (Inr (), s') \<and> same_core s s'"
proof -
  let ?s = "s\<lparr>sc_cleanup := AList.update c (count_cleanup ok (cleanup_at c (sc_cleanup s))) (sc_cleanup s)\<rparr>"
  have core: "same_core s ?s" by (simp add: same_core_def same_tables_def registered_def active_at_def)
  show ?thesis
  proof (cases "w = []")
    case True
    with core show ?thesis by (simp add: record_cleanup_def)
  next
    case False
    with assms have "registered ?s w" by (simp add: registered_def)
    from on_worker_run [OF this, of "worker_cleanup (count_cleanup ok)"] False core show ?thesis
      by (auto simp: record_cleanup_def intro: same_core_trans)
  qed
qed

lemma account_result_run:
  assumes "w \<noteq> [] \<Longrightarrow> registered s w"
  shows "\<exists>s'. account_result r w x failed s = (Inr (), s') \<and> same_core s s'"
proof -
  let ?s = "consume r (normalized_consumption x) s"
  have core: "same_core s ?s"
    by (simp add: consume_def same_core_def same_tables_def registered_def active_at_def)
  from assms have "w \<noteq> [] \<Longrightarrow> registered ?s w" by (simp add: consume_def registered_def)
  then obtain s1 where s1: "record_cleanup (jr_campaign r) w (jx_cleanup x) ?s = (Inr (), s1)" "same_core ?s s1"
    using record_cleanup_run by blast
  show ?thesis
  proof (cases "w = []")
    case True
    with core s1 show ?thesis by (auto simp: account_result_def intro: same_core_trans)
  next
    case False
    with assms core s1(2) have "registered s1 w" by (simp add: same_core_def same_tables_def)
    from on_worker_run [OF this, of "\<lambda>ws. ws\<lparr>ws_completed := ws_completed ws + (if failed then 0 else 1),
                 ws_failed := ws_failed ws + (if failed then 1 else 0),
                 ws_consumed := budget_add (ws_consumed ws) (normalized_consumption x)\<rparr>"] False core s1
    show ?thesis by (auto simp: account_result_def) (meson same_core_trans)+
  qed
qed

lemma replace_accounted_run:
  assumes "w \<noteq> [] \<Longrightarrow> registered s w"
  shows "\<exists>s'. replace_accounted_result r w p x s = (Inr (), s') \<and> same_core s s'"
proof -
  let ?prior = "normalized_consumption p" and ?current = "normalized_consumption x"
  let ?move = "count_cleanup (jx_cleanup x) \<circ> uncount_cleanup (jx_cleanup p)"
  let ?s = "s\<lparr>sc_consumed := rebook (jr_campaign r) ?prior ?current (sc_consumed s),
          sc_branch_consumed := rebook (job_branch r) ?prior ?current (sc_branch_consumed s),
          sc_cleanup := AList.update (jr_campaign r) (?move (cleanup_at (jr_campaign r) (sc_cleanup s))) (sc_cleanup s)\<rparr>"
  have core: "same_core s ?s" by (simp add: same_core_def same_tables_def registered_def active_at_def)
  show ?thesis
  proof (cases "w = []")
    case True
    with core show ?thesis by (simp add: replace_accounted_result_def Let_def)
  next
    case False
    with assms have "registered ?s w" by (simp add: registered_def)
    from on_worker_run [OF this, of "\<lambda>ws. worker_cleanup ?move
                (ws\<lparr>ws_consumed := budget_add (budget_subtract (ws_consumed ws) ?prior) ?current\<rparr>)"] False core
    show ?thesis by (auto simp: replace_accounted_result_def Let_def intro: same_core_trans)
  qed
qed

end
