(* ===== verification/Sched_Preserve.thy ===== *)
theory Sched_Preserve
  imports Sched_Machine
begin

text \<open>
  Every admissible event, applied to a well-formed state, gives a well-formed state. Three kinds of
  change cover all events: a job changes and keeps its lease, a job's lease ends, a job gets a
  lease.
\<close>

subsection \<open>A job changes and keeps its lease\<close>

definition lease_key :: "'f job_state \<Rightarrow> (string \<times> string) option" where
  "lease_key st = map_option (\<lambda>l. (le_id l, le_worker l)) (js_lease st)"

lemma holds_key: "holds s j w lid \<longleftrightarrow> (\<exists>st. map_of (sc_jobs s) j = Some st \<and> lease_key st = Some (lid, w))"
  by (auto simp: holds_def lease_key_def)

lemma holds_change:
  assumes "map_of (sc_jobs s) j = Some st" and "lease_key st' = lease_key st"
    and "map_of (sc_jobs s') = (map_of (sc_jobs s))(j \<mapsto> st')"
  shows "holds s' = holds s"
  using assms by (intro ext) (auto simp: holds_key)

lemma jobs_ok_change:
  assumes "jobs_ok s" and "job_ok j st'" and "sc_jobs s' = AList.update j st' (sc_jobs s)"
  shows "jobs_ok s'"
  using assms by (auto simp: jobs_ok_def AList.distinct_update)

lemma sched_ok_change:
  assumes "sched_ok s" and "map_of (sc_jobs s) j = Some st" and "job_ok j st'" and "lease_key st' = lease_key st"
    and "sc_jobs s' = AList.update j st' (sc_jobs s)" and "same_tables s s'"
    and "sc_provisional s' = sc_provisional s" and "sc_result_leases s' = sc_result_leases s"
  shows "sched_ok s'"
proof -
  note ok = assms(1) [unfolded sched_ok_def]
  note t = assms(6) [unfolded same_tables_def]
  have h: "holds s' = holds s" using assms(2,4,5) by (intro holds_change [of s j st st']) simp_all
  have "jobs_ok s'" using ok assms(3,5) by (auto intro: jobs_ok_change)
  moreover have "leases_ok s' = leases_ok s" using t h assms(8) by (simp add: leases_ok_def)
  moreover have "history_ok s'" using ok t assms(2,5,7,8) by (auto simp: history_ok_def)
  ultimately show ?thesis using ok by (simp add: sched_ok_def)
qed

lemma same_tables_put_job [simp]: "same_tables s (put_job j st s)"
  by (simp add: same_tables_def put_job_def registered_def active_at_def)

lemma put_job_ok:
  assumes "sched_ok s" and "map_of (sc_jobs s) j = Some st" and "job_ok j st'" and "lease_key st' = lease_key st"
  shows "sched_ok (put_job j st' s)"
  by (rule sched_ok_change [OF assms]) (simp_all add: put_job_def same_tables_def registered_def active_at_def)

lemma sched_ok_job: "sched_ok s \<Longrightarrow> map_of (sc_jobs s) j = Some st \<Longrightarrow> job_ok j st"
  by (simp add: sched_ok_def jobs_ok_def)

text \<open>The conjuncts of \<open>leases_ok\<close>, to be used one at a time.\<close>

lemma leases_okD:
  assumes "sched_ok s"
  shows "map_of (sc_leases s) lid = Some j \<longleftrightarrow> (\<exists>w. holds s j w lid)"
    and "lid \<in> set (active_at s w) \<longleftrightarrow> (\<exists>j. holds s j w lid)"
    and "distinct (active_at s w)"
    and "holds s j w lid \<Longrightarrow> registered s w \<and> map_of (sc_history s) lid = Some j \<and> lid \<notin> set (sc_result_leases s)"
proof -
  from assms have "leases_ok s" by (simp add: sched_ok_def)
  note c = this [unfolded leases_ok_def]
  show "map_of (sc_leases s) lid = Some j \<longleftrightarrow> (\<exists>w. holds s j w lid)"
    by (rule c [THEN conjunct1, THEN spec, THEN spec])
  show "lid \<in> set (active_at s w) \<longleftrightarrow> (\<exists>j. holds s j w lid)"
    by (rule c [THEN conjunct2, THEN conjunct1, THEN spec, THEN spec])
  show "distinct (active_at s w)"
    by (rule c [THEN conjunct2, THEN conjunct2, THEN conjunct1, THEN spec])
  show "holds s j w lid \<Longrightarrow> registered s w \<and> map_of (sc_history s) lid = Some j \<and> lid \<notin> set (sc_result_leases s)"
    by (rule c [THEN conjunct2, THEN conjunct2, THEN conjunct2, THEN spec, THEN spec, THEN spec, THEN mp])
qed

lemma holds_leased:
  assumes "sched_ok s" and "holds s j w lid"
  shows "map_of (sc_leases s) lid = Some j"
proof -
  from assms(2) have "\<exists>w. holds s j w lid" by (rule exI)
  then show ?thesis unfolding leases_okD(1) [OF assms(1)] .
qed

lemma sched_ok_holds:
  assumes "sched_ok s" and "map_of (sc_jobs s) j = Some st" and "js_lease st = Some l"
  shows "holds s j (le_worker l) (le_id l)" and "registered s (le_worker l)"
    and "map_of (sc_history s) (le_id l) = Some j" and "le_id l \<notin> set (sc_result_leases s)"
    and "map_of (sc_leases s) (le_id l) = Some j"
proof -
  show h: "holds s j (le_worker l) (le_id l)" using assms(2,3) by (auto simp: holds_def)
  from leases_okD(4) [OF assms(1) h]
  show "registered s (le_worker l)" "map_of (sc_history s) (le_id l) = Some j" "le_id l \<notin> set (sc_result_leases s)"
    by simp_all
  show "map_of (sc_leases s) (le_id l) = Some j" by (rule holds_leased [OF assms(1) h])
qed

text \<open>A lease identifier is held by one job only.\<close>

lemma holds_unique:
  assumes "sched_ok s" and "holds s j w lid" and "holds s j' w' lid"
  shows "j = j' \<and> w = w'"
proof -
  have eq: "j = j'" using holds_leased [OF assms(1,2)] holds_leased [OF assms(1,3)] by simp
  obtain st l st' l' where "map_of (sc_jobs s) j = Some st" "js_lease st = Some l" "le_worker l = w"
    and "map_of (sc_jobs s) j' = Some st'" "js_lease st' = Some l'" "le_worker l' = w'"
    using assms(2,3) unfolding holds_def by blast
  then have "w = w'" unfolding eq by simp
  with eq show ?thesis by simp
qed

subsection \<open>A lease ends\<close>

text \<open>What ends a lease: the job loses it, the tables forget it, its result may be noted.\<close>

definition ends_lease :: "'f sched \<Rightarrow> string \<Rightarrow> 'f lease \<Rightarrow> 'f job_state \<Rightarrow> 'f sched \<Rightarrow> bool" where
  "ends_lease s j l st' s' \<longleftrightarrow>
     sc_jobs s' = AList.update j st' (sc_jobs s) \<and> lease_key st' = None \<and>
     map_of (sc_leases s') = (map_of (sc_leases s))(le_id l := None) \<and>
     (\<forall>w. set (active_at s' w) = set (active_at s w) - (if w = le_worker l then {le_id l} else {}) \<and>
          (distinct (active_at s w) \<longrightarrow> distinct (active_at s' w))) \<and>
     (\<forall>w. registered s' w = registered s w) \<and>
     sc_history s' = sc_history s \<and> sc_records s' = sc_records s \<and> sc_idempotency s' = sc_idempotency s \<and>
     set (sc_result_leases s') \<subseteq> insert (le_id l) (set (sc_result_leases s)) \<and>
     dom (map_of (sc_provisional s')) \<subseteq> set (sc_result_leases s')"

lemma ends_lease_ok:
  assumes "sched_ok s" and job: "map_of (sc_jobs s) j = Some st" and l: "js_lease st = Some l"
    and "job_ok j st'" and e: "ends_lease s j l st' s'"
  shows "sched_ok s'"
proof -
  note ok = assms(1) [unfolded sched_ok_def]
  note e' = e [unfolded ends_lease_def]
  note held = sched_ok_holds [OF assms(1) job l]
  have h: "holds s' k w lid \<longleftrightarrow> holds s k w lid \<and> lid \<noteq> le_id l" for k w lid
  proof
    assume "holds s' k w lid"
    then have "k \<noteq> j" "holds s k w lid" using e' by (auto simp: holds_key split: if_splits)
    then show "holds s k w lid \<and> lid \<noteq> le_id l" using holds_unique [OF assms(1) held(1)] by blast
  next
    assume k: "holds s k w lid \<and> lid \<noteq> le_id l"
    then have "k \<noteq> j" using job l by (auto simp: holds_def)
    with k e' show "holds s' k w lid" by (auto simp: holds_key)
  qed
  have "jobs_ok s'" using ok assms(4) e' by (auto intro: jobs_ok_change)
  moreover have "leases_ok s'"
    unfolding leases_ok_def
  proof (intro conjI allI)
    fix lid k
    show "map_of (sc_leases s') lid = Some k \<longleftrightarrow> (\<exists>w. holds s' k w lid)"
      using e' leases_okD(1) [OF assms(1), of lid k] by (simp add: h)
  next
    fix w lid
    have "lid \<in> set (active_at s' w) \<longleftrightarrow> lid \<in> set (active_at s w) \<and> \<not> (w = le_worker l \<and> lid = le_id l)"
      using e' by (simp split: if_splits)
    also have "\<dots> \<longleftrightarrow> (\<exists>k. holds s k w lid) \<and> \<not> (w = le_worker l \<and> lid = le_id l)"
      using leases_okD(2) [OF assms(1), of lid w] by simp
    also have "\<dots> \<longleftrightarrow> (\<exists>k. holds s' k w lid)"
    proof -
      have "(\<exists>k. holds s k w lid) \<and> w = le_worker l \<and> lid = le_id l \<Longrightarrow> \<nexists>k. holds s' k w lid" by (simp add: h)
      moreover have "holds s k w lid \<Longrightarrow> \<not> (w = le_worker l \<and> lid = le_id l) \<Longrightarrow> lid \<noteq> le_id l" for k
        using holds_unique [OF assms(1) held(1), of k w] by blast
      ultimately show ?thesis using h by blast
    qed
    finally show "lid \<in> set (active_at s' w) \<longleftrightarrow> (\<exists>k. holds s' k w lid)" .
  next
    fix w
    show "distinct (active_at s' w)" using leases_okD(3) [OF assms(1)] e' by simp
  next
    fix k w lid
    show "holds s' k w lid \<longrightarrow> registered s' w \<and> map_of (sc_history s') lid = Some k \<and> lid \<notin> set (sc_result_leases s')"
    proof
      assume "holds s' k w lid"
      then have k: "holds s k w lid" "lid \<noteq> le_id l" by (simp_all add: h)
      have "set (sc_result_leases s') \<subseteq> insert (le_id l) (set (sc_result_leases s))" using e' by simp
      with leases_okD(4) [OF assms(1) k(1)] k(2) e'
      show "registered s' w \<and> map_of (sc_history s') lid = Some k \<and> lid \<notin> set (sc_result_leases s')" by auto
    qed
  qed
  moreover have "history_ok s'"
  proof -
    have "set (sc_result_leases s') \<subseteq> dom (map_of (sc_history s'))"
      using ok e' held(3) by (auto simp: history_ok_def)
    moreover have "map_of (sc_jobs s') k \<noteq> None" if "map_of (sc_jobs s) k \<noteq> None" for k
      using that e' by auto
    ultimately show ?thesis using ok e' by (auto simp: history_ok_def)
  qed
  ultimately show ?thesis by (simp add: sched_ok_def)
qed

text \<open>\<open>_release_lease\<close>, and what surrounds it.\<close>

lemma release_lease_ends:
  assumes "sched_ok s" and "map_of (sc_jobs s) j = Some st" and "js_lease st = Some l"
  shows "ends_lease s j l (st\<lparr>js_lease := None\<rparr>) (release_lease j st s)"
proof -
  obtain ws where ws: "map_of (sc_workers s) (le_worker l) = Some ws"
    using sched_ok_holds(2) [OF assms] by (auto simp: registered_def)
  have p: "dom (map_of (sc_provisional s)) \<subseteq> set (sc_result_leases s)"
    using assms(1) by (auto simp: sched_ok_def history_ok_def)
  show ?thesis
    using assms(3) ws p
    by (auto simp: ends_lease_def release_lease_def unreserve_def put_job_def lease_key_def active_at_def
        registered_def drop_active_def distinct_removeAll)
qed

lemma modify_job_ends:
  assumes "ends_lease s j l st' s'" and "lease_key (f st') = None"
  shows "ends_lease s j l (f st') (modify_job j f s')"
proof -
  from assms(1) have "map_of (sc_jobs s') j = Some st'" by (simp add: ends_lease_def)
  moreover have "AList.update j x (AList.update j y m) = AList.update j x m" for x y and m :: "(string \<times> 'a job_state) list"
    by (induction m) auto
  ultimately show ?thesis
    using assms by (simp add: ends_lease_def modify_job_def put_job_def active_at_def registered_def)
qed

lemma note_result_ends: "ends_lease s j l st' s' \<Longrightarrow> ends_lease s j l st' (note_result (le_id l) s')"
  by (auto simp: ends_lease_def note_result_def active_at_def registered_def)

lemma note_provisional_ends:
  "ends_lease s j l st' s' \<Longrightarrow> le_id l \<in> set (sc_result_leases s') \<Longrightarrow>
   ends_lease s j l st' (note_provisional p (le_id l) x s')"
  by (auto simp: ends_lease_def note_provisional_def active_at_def registered_def)

lemma same_core_ends: "ends_lease s j l st' s' \<Longrightarrow> same_core s' s'' \<Longrightarrow> ends_lease s j l st' s''"
  by (auto simp: ends_lease_def same_core_def same_tables_def)

lemma settle_lease_ends:
  assumes "ends_lease s j l st' s1" and "w \<noteq> [] \<Longrightarrow> registered s w"
  shows "\<exists>s2. settle_lease (le_id l) r w x p s1 = (Inr (), s2) \<and> ends_lease s j l st' s2"
proof -
  let ?s = "note_result (le_id l) s1"
  have e: "ends_lease s j l st' ?s" by (rule note_result_ends [OF assms(1)])
  with assms(2) have "w \<noteq> [] \<Longrightarrow> registered ?s w" by (simp add: ends_lease_def)
  then obtain s2 where s2: "account_result r w x True ?s = (Inr (), s2)" "same_core ?s s2"
    using account_result_run by blast
  have "le_id l \<in> set (sc_result_leases s2)" using s2(2) by (simp add: same_core_def note_result_def)
  with same_core_ends [OF e s2(2)] have "ends_lease s j l st' (note_provisional p (le_id l) x s2)"
    by (rule note_provisional_ends)
  with s2(1) show ?thesis by (simp add: settle_lease_def)
qed

subsection \<open>A job gets a lease\<close>

lemma job_ok_lease:
  assumes "job_ok j st" and "js_status st = Queued" and "le_job l = j" and "le_attempt l = js_attempts st + 1"
  shows "job_ok j (st\<lparr>js_status := Leased, js_attempts := le_attempt l, js_lease := Some l\<rparr>)"
  using assms by (simp add: job_ok_def)

lemma register_lease_fields:
  assumes "map_of (sc_workers s) (le_worker l) = Some ws"
  shows "sc_jobs (register_lease l r ws s) = sc_jobs s"
    and "sc_leases (register_lease l r ws s) = AList.update (le_id l) (le_job l) (sc_leases s)"
    and "sc_history (register_lease l r ws s) = AList.update (le_id l) (le_job l) (sc_history s)"
    and "sc_records (register_lease l r ws s) = AList.update (le_id l) l (sc_records s)"
    and "sc_idempotency (register_lease l r ws s) = sc_idempotency s"
    and "sc_result_leases (register_lease l r ws s) = sc_result_leases s"
    and "sc_provisional (register_lease l r ws s) = sc_provisional s"
    and "registered (register_lease l r ws s) = registered s"
    and "active_at (register_lease l r ws s) =
      (active_at s)(le_worker l := List.insert (le_id l) (active_at s (le_worker l)))"
  using assms by (auto simp: register_lease_def reserve_def registered_def active_at_def fun_eq_iff)

lemma leased_ok:
  assumes ok: "sched_ok s" and job: "map_of (sc_jobs s) j = Some st" and "js_status st = Queued"
    and l: "le_job l = j" "le_attempt l = js_attempts st + 1" and fresh: "map_of (sc_history s) (le_id l) = None"
    and ws: "map_of (sc_workers s) (le_worker l) = Some ws"
  shows "sched_ok (register_lease l r ws (put_job j (st\<lparr>js_status := Leased, js_attempts := le_attempt l, js_lease := Some l\<rparr>) s))"
    (is "sched_ok ?s'")
proof -
  let ?st = "st\<lparr>js_status := Leased, js_attempts := le_attempt l, js_lease := Some l\<rparr>"
  have jok: "job_ok j st" by (rule sched_ok_job [OF ok job])
  have none: "js_lease st = None" using jok assms(3) by (simp add: job_ok_def)
  have ws': "map_of (sc_workers (put_job j ?st s)) (le_worker l) = Some ws" using ws by (simp add: put_job_def)
  note f = register_lease_fields [OF ws']
  have jobs: "sc_jobs ?s' = AList.update j ?st (sc_jobs s)" by (simp add: f(1)) (simp add: put_job_def)
  have reg: "registered ?s' = registered s" by (simp add: f(8)) (simp add: put_job_def registered_def fun_eq_iff)
  have act: "active_at ?s' = (active_at s)(le_worker l := List.insert (le_id l) (active_at s (le_worker l)))"
    by (simp add: f(9)) (simp add: put_job_def active_at_def fun_eq_iff)
  have old: "lid \<noteq> le_id l" if "holds s k w lid" for k w lid
    using leases_okD(4) [OF ok that] fresh by auto
  have h: "holds s' k w lid \<longleftrightarrow> holds s k w lid \<or> k = j \<and> w = le_worker l \<and> lid = le_id l" if "s' = ?s'" for s' k w lid
    using none job unfolding that by (auto simp: holds_def jobs)
  have h: "holds ?s' k w lid \<longleftrightarrow> holds s k w lid \<or> k = j \<and> w = le_worker l \<and> lid = le_id l" for k w lid
    by (rule h) simp
  have t: "map_of (sc_leases ?s') = (map_of (sc_leases s))(le_id l \<mapsto> j)"
    "map_of (sc_history ?s') = (map_of (sc_history s))(le_id l \<mapsto> j)"
    "map_of (sc_records ?s') = (map_of (sc_records s))(le_id l \<mapsto> l)"
    "sc_result_leases ?s' = sc_result_leases s" "sc_provisional ?s' = sc_provisional s"
    "sc_idempotency ?s' = sc_idempotency s"
    by (simp_all only: f map_of_update l(1)) (simp_all add: put_job_def)
  have hist: "history_ok s" and jobs_s: "jobs_ok s" using ok by (simp_all add: sched_ok_def)
  have noresult: "le_id l \<notin> set (sc_result_leases s)" using hist fresh by (auto simp: history_ok_def)
  have "jobs_ok ?s'" by (rule jobs_ok_change [OF jobs_s job_ok_lease [OF jok assms(3) l] jobs])
  moreover have "leases_ok ?s'"
    unfolding leases_ok_def
  proof (intro conjI allI impI)
    fix lid k
    have "map_of (sc_leases s) (le_id l) = None"
      using leases_okD(1) [OF ok, of "le_id l"] old by (metis not_Some_eq)
    then show "map_of (sc_leases ?s') lid = Some k \<longleftrightarrow> (\<exists>w. holds ?s' k w lid)"
      using leases_okD(1) [OF ok, of lid k] old by (auto simp: t h)
  next
    fix w lid
    show "lid \<in> set (active_at ?s' w) \<longleftrightarrow> (\<exists>k. holds ?s' k w lid)"
      using leases_okD(2) [OF ok, of lid w] by (auto simp: act h)
  next
    fix w
    show "distinct (active_at ?s' w)" using leases_okD(3) [OF ok, of w] by (auto simp: act)
  next
    fix k w lid assume "holds ?s' k w lid"
    then consider "holds s k w lid" | "k = j" "w = le_worker l" "lid = le_id l" by (auto simp: h)
    then show "registered ?s' w" "map_of (sc_history ?s') lid = Some k" "lid \<notin> set (sc_result_leases ?s')"
      by (cases; use leases_okD(4) [OF ok, of k w lid] old [of k w lid] ws noresult in \<open>simp add: reg t registered_def\<close>)+
  qed
  moreover have "history_ok ?s'"
    unfolding history_ok_def
  proof (intro conjI allI impI)
    fix lid k assume "map_of (sc_history ?s') lid = Some k"
    then show "map_of (sc_jobs ?s') k \<noteq> None" "map_of (sc_records ?s') lid \<noteq> None"
      using hist by (auto simp: t jobs history_ok_def split: if_splits)
  next
    fix lid k assume "map_of (sc_records ?s') lid = Some k"
    then show "registered ?s' (le_worker k)"
      using hist ws by (auto simp: t reg history_ok_def registered_def split: if_splits)
  next
    fix lid assume "map_of (sc_provisional ?s') lid \<noteq> None"
    then show "lid \<in> set (sc_result_leases ?s')" using hist by (auto simp: t history_ok_def)
  next
    fix k i assume "map_of (sc_idempotency ?s') k = Some i"
    then show "map_of (sc_jobs ?s') i \<noteq> None" using hist by (cases k) (auto simp: t jobs history_ok_def)
  next
    show "set (sc_result_leases ?s') \<subseteq> dom (map_of (sc_history ?s'))" using hist by (auto simp: t history_ok_def)
  qed
  ultimately show ?thesis by (simp add: sched_ok_def)
qed

subsection \<open>The events\<close>

lemma holds_jobs: "sc_jobs s' = sc_jobs s \<Longrightarrow> holds s' k w lid = holds s k w lid"
  by (simp add: holds_def)

lemma worker_registered_ok:
  assumes "sched_ok s"
  shows "sched_ok (apply_worker_registered d t s)" (is "sched_ok ?s'")
proof -
  have reg: "registered ?s' w \<longleftrightarrow> w = wd_id d \<or> registered s w" for w
    by (simp add: apply_worker_registered_def registered_def)
  have act: "active_at ?s' w = active_at s w" for w
    by (auto simp: apply_worker_registered_def active_at_def split: option.split)
  have h: "holds ?s' k w lid = holds s k w lid" for k w lid
    by (rule holds_jobs) (simp add: apply_worker_registered_def)
  have f: "sc_jobs ?s' = sc_jobs s" "sc_leases ?s' = sc_leases s" "sc_history ?s' = sc_history s"
    "sc_records ?s' = sc_records s" "sc_result_leases ?s' = sc_result_leases s"
    "sc_provisional ?s' = sc_provisional s" "sc_idempotency ?s' = sc_idempotency s"
    by (simp_all add: apply_worker_registered_def)
  have "leases_ok ?s'"
    unfolding leases_ok_def f act h
    using leases_okD [OF assms] reg by blast
  moreover have "history_ok s" using assms by (simp add: sched_ok_def)
  then have "history_ok ?s'" unfolding history_ok_def f reg by blast
  ultimately show ?thesis using assms by (simp add: sched_ok_def jobs_ok_def f)
qed

lemma enqueued_ok:
  assumes ok: "sched_ok s" and r: "valid_request r" and new: "map_of (sc_jobs s) (jr_id r) = None"
    and key: "map_of (sc_idempotency s) (jr_campaign r, jr_key r) = None"
  shows "\<exists>s'. apply_enqueued digest r s = (Inr (), s') \<and> sched_ok s'"
proof -
  obtain s' where s': "apply_enqueued digest r s = (Inr (), s')" and jobs: "sc_jobs s' = AList.update (jr_id r) (new_job r) (sc_jobs s)"
    and idem: "sc_idempotency s' = AList.update (jr_campaign r, jr_key r) (jr_id r) (sc_idempotency s)"
    and f: "sc_leases s' = sc_leases s" "sc_history s' = sc_history s" "sc_records s' = sc_records s"
      "sc_result_leases s' = sc_result_leases s" "sc_provisional s' = sc_provisional s" "sc_workers s' = sc_workers s"
    using new key by (simp add: apply_enqueued_def)
  have h: "holds s' k w lid = holds s k w lid" for k w lid
    using new by (simp add: holds_def jobs new_job_def)
  have reg: "registered s' w = registered s w" "active_at s' w = active_at s w" for w
    by (simp_all add: registered_def active_at_def f)
  have "1 \<le> jr_max_attempts r" using r by (simp add: valid_request_def check_request_def split: if_splits)
  then have "job_ok (jr_id r) (new_job r)" using r by (simp add: job_ok_def new_job_def)
  with ok jobs have "jobs_ok s'" by (auto simp: sched_ok_def intro: jobs_ok_change)
  moreover have "leases_ok s' = leases_ok s" by (simp add: leases_ok_def f h reg)
  moreover have "history_ok s'"
  proof -
    have "history_ok s" using ok by (simp add: sched_ok_def)
    then show ?thesis unfolding history_ok_def reg f idem jobs map_of_update
      by simp
  qed
  ultimately show ?thesis using s' ok by (auto simp: sched_ok_def)
qed

lemma extend_lease_ok:
  assumes "sched_ok s"
  shows "\<exists>s'. extend_lease x lid s = (Inr (), s') \<and> sched_ok s'"
proof (cases "map_of (sc_leases s) lid")
  case None
  with assms show ?thesis by (simp add: extend_lease_def)
next
  case (Some j)
  then obtain w where "holds s j w lid" using leases_okD(1) [OF assms, of lid j] by auto
  then obtain st l where st: "map_of (sc_jobs s) j = Some st" "js_lease st = Some l" by (auto simp: holds_def)
  have "sched_ok (put_job j (st\<lparr>js_lease := Some (replace_lease_expiry l x)\<rparr>) s)"
    using sched_ok_job [OF assms st(1)] st(2)
    by (intro put_job_ok [OF assms st(1)]) (auto simp: job_ok_def lease_key_def replace_lease_expiry_def)
  with assms Some st show ?thesis by (simp add: extend_lease_def with_job_def)
qed

lemma extend_leases_ok: "sched_ok s \<Longrightarrow> \<exists>s'. each (extend_lease x) lids s = (Inr (), s') \<and> sched_ok s'"
proof (induction lids arbitrary: s)
  case (Cons lid lids)
  from extend_lease_ok [OF Cons.prems] obtain s1 where s1: "extend_lease x lid s = (Inr (), s1)" "sched_ok s1" by blast
  from Cons.IH [OF s1(2)] s1(1) show ?case by simp
qed simp

lemma heartbeat_ok:
  assumes "sched_ok s" and "registered s w"
  shows "\<exists>s'. apply_heartbeat w t lids x s = (Inr (), s') \<and> sched_ok s'"
proof -
  from on_worker_run [OF assms(2), of "\<lambda>ws. ws\<lparr>ws_heartbeat := t\<rparr>"] obtain s1
    where s1: "on_worker w (\<lambda>ws. ws\<lparr>ws_heartbeat := t\<rparr>) s = (Inr (), s1)" "same_core s s1" by auto
  from extend_leases_ok [OF same_core_ok [OF s1(2) assms(1)]] s1(1) show ?thesis by (simp add: apply_heartbeat_def)
qed

lemma set_status_ok:
  assumes "sched_ok s" and "map_of (sc_jobs s) j = Some st"
    and "js_status st = Queued \<and> x = BudgetExhausted \<or> js_status st = Leased \<and> x = Canceling"
  shows "\<exists>s'. set_status_of x j s = (Inr (), s') \<and> sched_ok s'"
proof -
  have "sched_ok (put_job j (st\<lparr>js_status := x\<rparr>) s)"
    using sched_ok_job [OF assms(1,2)] assms(3)
    by (intro put_job_ok [OF assms(1,2)]) (auto simp: job_ok_def lease_key_def)
  with assms(2) show ?thesis by (simp add: set_status_of_def with_job_def)
qed

lemma ends_lease_counters:
  "ends_lease s j l st' s' \<Longrightarrow> ends_lease s j l st' (s'\<lparr>sc_retries := n\<rparr>)"
  "ends_lease s j l st' s' \<Longrightarrow> ends_lease s j l st' (s'\<lparr>sc_late := n\<rparr>)"
  "ends_lease s j l st' s' \<Longrightarrow> ends_lease s j l st' (s'\<lparr>sc_late_leases := xs\<rparr>)"
  by (simp_all add: ends_lease_def active_at_def registered_def)

lemma lease_worker_eq [simp]: "js_lease st = Some l \<Longrightarrow> lease_worker st = le_worker l"
  by (simp add: lease_worker_def)

lemma job_ok_ended:
  assumes "job_ok j st" and "x \<notin> {Leased, Canceling}" and "x = Queued \<Longrightarrow> js_attempts st < jr_max_attempts (js_request st)"
    and "js_request st' = js_request st" "js_attempts st' = js_attempts st" "js_status st' = x" "js_lease st' = None"
  shows "job_ok j st'"
  using assms by (simp add: job_ok_def)

lemma requeued_ok:
  assumes ok: "sched_ok s" and job: "map_of (sc_jobs s) j = Some st" and l: "js_lease st = Some l"
    and "js_attempts st < jr_max_attempts (js_request st)"
  shows "\<exists>s'. apply_requeued j (le_id l) reason (Some x) p s = (Inr (), s') \<and> sched_ok s'"
proof -
  let ?f = "\<lambda>st. st\<lparr>js_status := Queued, js_error := reason\<rparr>"
  obtain s2 where s2: "settle_lease (le_id l) (js_request st) (le_worker l) x p (release_lease j st s) = (Inr (), s2)"
    and e: "ends_lease s j l (st\<lparr>js_lease := None\<rparr>) s2"
    using settle_lease_ends [OF release_lease_ends [OF ok job l]] sched_ok_holds(2) [OF ok job l] by blast
  have "ends_lease s j l (?f (st\<lparr>js_lease := None\<rparr>)) ((modify_job j ?f s2)\<lparr>sc_retries := Suc (sc_retries s2)\<rparr>)"
    by (intro ends_lease_counters(1) modify_job_ends [OF e]) (simp add: lease_key_def)
  from ends_lease_ok [OF ok job l job_ok_ended [OF sched_ok_job [OF ok job], of Queued] this] assms(4)
  have "sched_ok ((modify_job j ?f s2)\<lparr>sc_retries := Suc (sc_retries s2)\<rparr>)" by simp
  moreover have "sc_retries (modify_job j ?f s2) = sc_retries s2"
    by (simp add: modify_job_def put_job_def split: option.split)
  ultimately show ?thesis using job l s2 by (simp add: apply_requeued_def with_job_def)
qed

lemma lease_failed_ok:
  assumes ok: "sched_ok s" and job: "map_of (sc_jobs s) j = Some st" and l: "js_lease st = Some l"
  shows "\<exists>s'. apply_lease_failed j (le_id l) (Some x) p s = (Inr (), s') \<and> sched_ok s'"
proof -
  let ?f = "\<lambda>st. st\<lparr>js_status := InfrastructureFailed, js_result := Some x\<rparr>"
  have e: "ends_lease s j l (?f (st\<lparr>js_lease := None\<rparr>)) (modify_job j ?f (release_lease j st s))"
    by (rule modify_job_ends [OF release_lease_ends [OF ok job l]]) (simp add: lease_key_def)
  obtain s2 where s2: "settle_lease (le_id l) (js_request st) (le_worker l) x p (modify_job j ?f (release_lease j st s)) = (Inr (), s2)"
    and e2: "ends_lease s j l (?f (st\<lparr>js_lease := None\<rparr>)) s2"
    using settle_lease_ends [OF e] sched_ok_holds(2) [OF ok job l] by blast
  from ends_lease_ok [OF ok job l job_ok_ended [OF sched_ok_job [OF ok job], of InfrastructureFailed] e2]
  show ?thesis using job l s2 by (simp add: apply_lease_failed_def with_job_def)
qed

lemma canceled_ok:
  assumes ok: "sched_ok s" and job: "map_of (sc_jobs s) j = Some st" and l: "js_lease st = Some l"
  shows "\<exists>s'. apply_canceled j (Some (le_id l, x)) p s = (Inr (), s') \<and> sched_ok s'"
proof -
  let ?f = "\<lambda>st. st\<lparr>js_accounting := Some x\<rparr>" and ?g = "\<lambda>st. st\<lparr>js_status := Canceled\<rparr>"
  obtain s2 where s2: "settle_lease (le_id l) (js_request st) (le_worker l) x p (release_lease j st s) = (Inr (), s2)"
    and e: "ends_lease s j l (st\<lparr>js_lease := None\<rparr>) s2"
    using settle_lease_ends [OF release_lease_ends [OF ok job l]] sched_ok_holds(2) [OF ok job l] by blast
  have "ends_lease s j l (?g (?f (st\<lparr>js_lease := None\<rparr>))) (modify_job j ?g (modify_job j ?f s2))"
    by (intro modify_job_ends e) (simp_all add: lease_key_def)
  from ends_lease_ok [OF ok job l job_ok_ended [OF sched_ok_job [OF ok job], of Canceled] this]
  show ?thesis using job l s2 by (simp add: apply_canceled_def with_job_def)
qed

lemma canceled_queued_ok:
  assumes ok: "sched_ok s" and job: "map_of (sc_jobs s) j = Some st" and "js_status st = Queued"
  shows "\<exists>s'. apply_canceled j None p s = (Inr (), s') \<and> sched_ok s'"
proof -
  have jok: "job_ok j st" by (rule sched_ok_job [OF ok job])
  with assms(3) have none: "js_lease st = None" by (simp add: job_ok_def)
  have "sched_ok (put_job j (st\<lparr>js_status := Canceled\<rparr>) s)"
    using jok assms(3) by (intro put_job_ok [OF ok job]) (auto simp: job_ok_def lease_key_def)
  with job none show ?thesis by (simp add: apply_canceled_def with_job_def release_lease_def modify_job_def)
qed

lemma finished_ok:
  assumes ok: "sched_ok s" and job: "map_of (sc_jobs s) j = Some st" and l: "js_lease st = Some l"
  shows "\<exists>s'. apply_finished j (le_id l) x s = (Inr (), s') \<and> sched_ok s'"
proof -
  let ?f = "\<lambda>st. st\<lparr>js_result := Some x, js_status := status_by_outcome (jx_outcome x)\<rparr>"
  have swap: "release_lease j st (note_result (le_id l) s) = note_result (le_id l) (release_lease j st s)"
    using l by (simp add: release_lease_def note_result_def unreserve_def put_job_def split: option.split)
  have "ends_lease s j l (?f (st\<lparr>js_lease := None\<rparr>)) (modify_job j ?f (note_result (le_id l) (release_lease j st s)))"
    by (intro modify_job_ends note_result_ends release_lease_ends ok job l) (simp add: lease_key_def)
  then have e: "ends_lease s j l (?f (st\<lparr>js_lease := None\<rparr>)) (modify_job j ?f (release_lease j st (note_result (le_id l) s)))"
    by (simp only: swap)
  then have "registered (modify_job j ?f (release_lease j st (note_result (le_id l) s))) (le_worker l)"
    using sched_ok_holds(2) [OF ok job l] by (simp add: ends_lease_def)
  then obtain s2 where s2: "account_result (js_request st) (le_worker l) x (jx_outcome x \<noteq> CandidateSuccess)
      (modify_job j ?f (release_lease j st (note_result (le_id l) s))) = (Inr (), s2)"
    and c: "same_core (modify_job j ?f (release_lease j st (note_result (le_id l) s))) s2"
    using account_result_run by blast
  have "status_by_outcome (jx_outcome x) \<notin> {Leased, Canceling, Queued}"
    by (simp add: status_by_outcome_def split: job_outcome.split)
  with ends_lease_ok [OF ok job l job_ok_ended [OF sched_ok_job [OF ok job], of "status_by_outcome (jx_outcome x)"]
      same_core_ends [OF e c]]
  show ?thesis using job l s2 by (simp add: apply_finished_def with_job_def)
qed

text \<open>Late results: of a lease being canceled, and of a lease that ended before.\<close>

lemma apply_late_run:
  assumes ok: "sched_ok s" and job: "map_of (sc_jobs s) j = Some st" and hist: "map_of (sc_history s) lid = Some j"
    and s1: "s1 = book_late cancel j lid x (if has_lease lid st then release_lease j st s else s)"
    and reg: "registered s1 = registered s"
  shows "\<exists>s2. apply_late cancel j lid x s = (Inr (), s2\<lparr>sc_late := Suc (sc_late s2)\<rparr>) \<and> same_core s1 s2"
proof -
  obtain l where l: "map_of (sc_records s) lid = Some l" "registered s (le_worker l)"
    using ok hist unfolding sched_ok_def history_ok_def by blast
  have "\<exists>s2. bill_late (js_request st) (le_worker l) x (map_of (sc_provisional s) lid) s1 = (Inr (), s2) \<and> same_core s1 s2"
    using account_result_run [of "le_worker l" s1 "js_request st" x True]
      replace_accounted_run [of "le_worker l" s1 "js_request st" _ x] l reg
    by (cases "map_of (sc_provisional s) lid") (simp_all add: bill_late_def)
  then show ?thesis
    using job l(1) unfolding s1 by (auto simp: apply_late_def with_job_def Let_def)
qed

lemma book_late_fields:
  defines "s1 cancel j x s \<equiv> modify_job j (\<lambda>st. st\<lparr>js_status := (if cancel then Canceled else js_status st),
     js_late := Some x, js_accounting := Some x\<rparr>) s"
  shows "sc_jobs (book_late cancel j lid x s) = sc_jobs (s1 cancel j x s)"
    and "sc_leases (book_late cancel j lid x s) = sc_leases s" and "sc_history (book_late cancel j lid x s) = sc_history s"
    and "sc_records (book_late cancel j lid x s) = sc_records s"
    and "sc_idempotency (book_late cancel j lid x s) = sc_idempotency s"
    and "registered (book_late cancel j lid x s) = registered s" and "active_at (book_late cancel j lid x s) = active_at s"
    and "set (sc_result_leases (book_late cancel j lid x s)) = insert lid (set (sc_result_leases s))"
    and "map_of (sc_provisional (book_late cancel j lid x s)) = (map_of (sc_provisional s))(lid := None)"
  by (simp_all add: s1_def book_late_def Let_def note_result_def modify_job_def put_job_def registered_def
      active_at_def fun_eq_iff split: option.split)

lemma book_late_ends:
  assumes "ends_lease s j l st' (modify_job j (\<lambda>st. st\<lparr>js_status := (if cancel then Canceled else js_status st),
     js_late := Some x, js_accounting := Some x\<rparr>) s0)"
  shows "ends_lease s j l st' (book_late cancel j (le_id l) x s0)"
proof -
  have m: "sc_leases (modify_job j f s0) = sc_leases s0" "sc_history (modify_job j f s0) = sc_history s0"
    "sc_records (modify_job j f s0) = sc_records s0" "sc_idempotency (modify_job j f s0) = sc_idempotency s0"
    "registered (modify_job j f s0) = registered s0" "active_at (modify_job j f s0) = active_at s0"
    "sc_result_leases (modify_job j f s0) = sc_result_leases s0" "sc_provisional (modify_job j f s0) = sc_provisional s0" for f
    by (simp_all add: modify_job_def put_job_def registered_def active_at_def fun_eq_iff split: option.split)
  show ?thesis
    using assms unfolding ends_lease_def book_late_fields m by auto
qed

lemma canceled_late_active_ok:
  assumes ok: "sched_ok s" and job: "map_of (sc_jobs s) j = Some st" and l: "js_lease st = Some l"
  shows "\<exists>s'. apply_late True j (le_id l) x s = (Inr (), s') \<and> sched_ok s'"
proof -
  let ?f = "\<lambda>st. st\<lparr>js_status := Canceled, js_late := Some x, js_accounting := Some x\<rparr>"
  let ?s1 = "book_late True j (le_id l) x (release_lease j st s)"
  have e: "ends_lease s j l (?f (st\<lparr>js_lease := None\<rparr>)) (modify_job j ?f (release_lease j st s))"
    by (rule modify_job_ends [OF release_lease_ends [OF ok job l]]) (simp add: lease_key_def)
  have e1: "ends_lease s j l (?f (st\<lparr>js_lease := None\<rparr>)) ?s1" by (rule book_late_ends) (simp add: e)
  then have reg: "registered ?s1 = registered s" by (intro ext) (simp add: ends_lease_def)
  have "has_lease (le_id l) st" using l by (simp add: has_lease_def)
  then obtain s2 where s2: "apply_late True j (le_id l) x s = (Inr (), s2\<lparr>sc_late := Suc (sc_late s2)\<rparr>)" "same_core ?s1 s2"
    using apply_late_run [OF ok job sched_ok_holds(3) [OF ok job l], of ?s1 True x] reg
    by (simp only: if_True simp_thms) blast
  from ends_lease_ok [OF ok job l job_ok_ended [OF sched_ok_job [OF ok job], of Canceled]
      ends_lease_counters(2) [OF same_core_ends [OF e1 s2(2)]]]
  show ?thesis using s2(1) by simp
qed

lemma late_ended_ok:
  assumes ok: "sched_ok s" and job: "map_of (sc_jobs s) j = Some st" and hist: "map_of (sc_history s) lid = Some j"
    and no: "\<not> has_lease lid st" and c: "cancel \<Longrightarrow> js_status st = Canceled"
  shows "\<exists>s'. apply_late cancel j lid x s = (Inr (), s') \<and> sched_ok s'"
proof -
  let ?f = "\<lambda>st. st\<lparr>js_status := (if cancel then Canceled else js_status st), js_late := Some x, js_accounting := Some x\<rparr>"
  let ?s1 = "book_late cancel j lid x s"
  have mj: "modify_job j ?f s = put_job j (?f st) s" using job by (simp add: modify_job_def)
  have "job_ok j (?f st)" using sched_ok_job [OF ok job] c by (auto simp: job_ok_def)
  then have ok1: "sched_ok (put_job j (?f st) s)" by (intro put_job_ok [OF ok job]) (simp_all add: lease_key_def)
  have jobs: "sc_jobs ?s1 = sc_jobs (put_job j (?f st) s)" by (simp only: book_late_fields mj)
  note f = jobs book_late_fields(2-)
  have h: "holds ?s1 = holds s"
    by (rule holds_change [OF job, of "?f st"]) (simp_all add: lease_key_def f(1), simp add: put_job_def)
  have free: "lid' \<noteq> lid" if "holds s k w lid'" for k w lid'
  proof
    assume "lid' = lid"
    with that leases_okD(4) [OF ok that] hist have "k = j" by auto
    with that job no \<open>lid' = lid\<close> show False by (auto simp: holds_def has_lease_def)
  qed
  have "leases_ok ?s1"
    unfolding leases_ok_def h f using leases_okD [OF ok] free by blast
  moreover have "jobs_ok ?s1" using ok1 by (simp add: sched_ok_def jobs_ok_def f(1))
  moreover have "history_ok ?s1"
    using ok1 ok hist unfolding sched_ok_def history_ok_def f by (auto simp: put_job_def)
  ultimately have ok2: "sched_ok ?s1" by (simp add: sched_ok_def)
  obtain s2 where s2: "apply_late cancel j lid x s = (Inr (), s2\<lparr>sc_late := Suc (sc_late s2)\<rparr>)" "same_core ?s1 s2"
    using apply_late_run [OF ok job hist, of ?s1 cancel x] no book_late_fields(6) [of cancel j lid x s]
    by (simp only: if_False simp_thms) blast
  have "same_core s2 (s2\<lparr>sc_late := Suc (sc_late s2)\<rparr>)"
    by (simp add: same_core_def same_tables_def registered_def active_at_def)
  with same_core_ok [OF same_core_trans [OF s2(2)] ok2] s2(1) show ?thesis by auto
qed

text \<open>Every admissible event can be applied, and keeps the state well-formed.\<close>

lemma reduce_ok:
  assumes ok: "sched_ok s" and adm: "admissible env ev s"
  shows "\<exists>s'. reduce_event (sv_digest env) ev s = (Inr (), s') \<and> sched_ok s'"
proof (cases ev)
  case (CampaignConfigured c b br)
  have "same_core s (apply_configured c b br s)"
    by (simp add: apply_configured_def same_core_def same_tables_def registered_def active_at_def)
  with CampaignConfigured same_core_ok ok show ?thesis by simp
next
  case (RuntimePlanBound c f)
  have "same_core s (s\<lparr>sc_plans := AList.update c f (sc_plans s)\<rparr>)"
    by (simp add: same_core_def same_tables_def registered_def active_at_def)
  with RuntimePlanBound same_core_ok ok show ?thesis by simp
next
  case (AuditCheckpointFailed c k f)
  have "same_core s (apply_audit_failed c k f s)"
    by (simp add: apply_audit_failed_def same_core_def same_tables_def registered_def active_at_def)
  with AuditCheckpointFailed same_core_ok ok show ?thesis by simp
next
  case (WorkerRegistered d t)
  with worker_registered_ok [OF ok] show ?thesis by simp
next
  case (WorkerHeartbeat w t lids x)
  with heartbeat_ok [OF ok, of w] adm show ?thesis by simp
next
  case (EvidenceGranted g)
  have "same_core s (apply_evidence g s)"
    by (simp add: apply_evidence_def same_core_def same_tables_def registered_def active_at_def)
  with EvidenceGranted same_core_ok ok show ?thesis by simp
next
  case (JobEnqueued r)
  with enqueued_ok [OF ok] adm show ?thesis by simp
next
  case (WarmDegraded j w reason)
  with ok show ?thesis by simp
next
  case (JobLeased l b)
  with adm obtain st ws where "map_of (sc_jobs s) (le_job l) = Some st" "js_status st = Queued"
    "le_attempt l = js_attempts st + 1" "map_of (sc_workers s) (le_worker l) = Some ws"
    "map_of (sc_history s) (le_id l) = None" by auto
  with leased_ok [OF ok, of "le_job l" st l ws] JobLeased show ?thesis
    by (simp add: apply_leased_def with_job_def put_job_def)
next
  case (JobBudgetExhausted j)
  with set_status_ok [OF ok] adm show ?thesis by (auto simp: job_in_def)
next
  case (JobCancelRequested j lid)
  with set_status_ok [OF ok] adm show ?thesis by (auto simp: job_in_def)
next
  case (JobCanceledLate j lid x)
  with adm obtain st where st: "map_of (sc_jobs s) j = Some st" "map_of (sc_history s) lid = Some j"
    "js_status st = Canceled \<or> js_status st = Canceling \<and> has_lease lid st" by (auto simp: job_in_def)
  show ?thesis
  proof (cases "has_lease lid st")
    case True
    then obtain l where "js_lease st = Some l" "le_id l = lid" by (auto simp: has_lease_def split: option.splits)
    with canceled_late_active_ok [OF ok st(1)] JobCanceledLate show ?thesis by auto
  next
    case False
    with late_ended_ok [OF ok st(1,2)] st(3) JobCanceledLate show ?thesis by auto
  qed
next
  case (JobStaleCompleted j lid x)
  with adm obtain st where "map_of (sc_jobs s) j = Some st" "map_of (sc_history s) lid = Some j" "\<not> has_lease lid st"
    by (auto simp: job_in_def)
  with late_ended_ok [OF ok, of j st lid False] JobStaleCompleted show ?thesis by simp
next
  case (JobRequeued j lid reason x p)
  with adm obtain st l y where "map_of (sc_jobs s) j = Some st" "js_lease st = Some l" "le_id l = lid" "x = Some y"
    "js_attempts st < jr_max_attempts (js_request st)"
    by (auto simp: job_in_def has_lease_def split: option.splits)
  with requeued_ok [OF ok, of j st l] JobRequeued show ?thesis by auto
next
  case (JobLeaseFailed j lid reason x p)
  with adm obtain st l y where "map_of (sc_jobs s) j = Some st" "js_lease st = Some l" "le_id l = lid" "x = Some y"
    by (auto simp: job_in_def has_lease_def split: option.splits)
  with lease_failed_ok [OF ok, of j st l] JobLeaseFailed show ?thesis by auto
next
  case (JobCanceled j reason x p)
  show ?thesis
  proof (cases x)
    case None
    with canceled_queued_ok [OF ok] adm JobCanceled show ?thesis by (auto simp: job_in_def)
  next
    case (Some q)
    with adm JobCanceled obtain st l y where "map_of (sc_jobs s) j = Some st" "js_lease st = Some l" "x = Some (le_id l, y)"
      by (cases q) (auto simp: job_in_def has_lease_def split: option.splits)
    with canceled_ok [OF ok, of j st l] JobCanceled show ?thesis by auto
  qed
next
  case (JobFinished j lid x)
  with adm obtain st l where "map_of (sc_jobs s) j = Some st" "js_lease st = Some l" "le_id l = lid"
    by (auto simp: job_in_def has_lease_def split: option.splits)
  with finished_ok [OF ok, of j st l] JobFinished show ?thesis by auto
qed

end
