(* ===== verification/Sched_Runs.thy ===== *)
theory Sched_Runs
  imports Sched_Preserve
begin

text \<open>
  Every operation of the scheduler is a sequence of admissible recorded events. \<open>logged\<close> is one
  such event, on the reduced state and the log; \<open>runs_at\<close> says of an operation, started at a node,
  that what it does is a path of such steps, whether it returns or raises. Lease identifiers
  drawn in the run must differ, as a condition on the log at its end.
\<close>

subsection \<open>Logged events\<close>

definition granted :: "'f log_record list \<Rightarrow> string list" where
  "granted es = concat (map (\<lambda>e. case lr_event e of JobLeased l b \<Rightarrow> [le_id l] | _ \<Rightarrow> []) es)"

lemma granted_simps [simp]:
  "granted [] = []" "granted (xs @ ys) = granted xs @ granted ys"
  "granted [e] = (case lr_event e of JobLeased l b \<Rightarrow> [le_id l] | _ \<Rightarrow> [])"
  by (simp_all add: granted_def)

inductive logged :: "'f sched_env \<Rightarrow> ('f::{linorder,plus,minus,zero}) sched \<times> 'f log_record list \<Rightarrow>
    'f sched \<times> 'f log_record list \<Rightarrow> bool" for env where
  logged_event: "admissible env (lr_event e) s \<Longrightarrow> lr_sequence e = sc_sequence s + 1 \<Longrightarrow>
     sc_sequence s = last_sequence es \<Longrightarrow> apply_scheduler_event (sv_digest env) e s = (Inr (), s') \<Longrightarrow>
     logged env (s, es) (s', es @ [e])"

inductive_cases logged_cases: "logged env x (s', es')"

definition tracked :: "('f::{linorder,zero}) sched \<times> 'f log_record list \<Rightarrow> bool" where
  "tracked x \<longleftrightarrow> sched_ok (fst x) \<and> dom (map_of (sc_history (fst x))) \<subseteq> set (granted (snd x))"

subsection \<open>Only a granted lease enters the history\<close>

definition same_history :: "(string \<times> string) list \<times> nat \<Rightarrow> 'f sched \<Rightarrow> bool" where
  "same_history h s \<longleftrightarrow> (sc_history s, sc_sequence s) = h"

lemma keeps_with_job [keeps_intros]:
  "(\<And>st. keeps P (f st)) \<Longrightarrow> keeps P (with_job j f)"
  by (auto simp: keeps_def with_job_def split: option.split)

lemma history_fields [simp]:
  "sc_history (put_job j st s) = sc_history s" "sc_history (modify_job j f s1) = sc_history s1"
  "sc_history (consume r b s2) = sc_history s2" "sc_history (note_result lid s3) = sc_history s3"
  "sc_history (release_lease j st' s4) = sc_history s4" "sc_history (note_provisional p lid x s5) = sc_history s5"
  "sc_history (book_late c j lid y s6) = sc_history s6"
  by (simp_all add: put_job_def modify_job_def consume_def note_result_def release_lease_def unreserve_def
      note_provisional_def book_late_def Let_def split: option.split)

lemma sequence_fields [simp]:
  "sc_sequence (put_job j st s) = sc_sequence s" "sc_sequence (modify_job j f s1) = sc_sequence s1"
  "sc_sequence (consume r b s2) = sc_sequence s2" "sc_sequence (note_result lid s3) = sc_sequence s3"
  "sc_sequence (release_lease j st' s4) = sc_sequence s4" "sc_sequence (note_provisional p lid x s5) = sc_sequence s5"
  "sc_sequence (book_late c j lid y s6) = sc_sequence s6"
  by (simp_all add: put_job_def modify_job_def consume_def note_result_def release_lease_def unreserve_def
      note_provisional_def book_late_def Let_def split: option.split)

lemma keeps_on_worker [keeps_intros]: "keeps (same_history h) (on_worker w f)"
  by (auto simp: keeps_def same_history_def on_worker_def split: option.split)

lemma keeps_history [keeps_intros]:
  assumes "\<And>s. (sc_history (f s), sc_sequence (f s)) = (sc_history s, sc_sequence s)"
  shows "keeps (same_history h) (modify f)"
  using assms by (auto simp: keeps_def same_history_def)

lemma keeps_account [keeps_intros]: "keeps (same_history h) (account_result r w x failed)"
  unfolding account_result_def record_cleanup_def by (intro keeps_intros) simp_all

lemma keeps_bill [keeps_intros]: "keeps (same_history h) (bill_late r w x p)"
  unfolding bill_late_def replace_accounted_result_def Let_def by (intro keeps_intros) (simp_all split: option.split)

lemma keeps_settle [keeps_intros]: "keeps (same_history h) (settle_lease lid r w x p)"
  unfolding settle_lease_def by (intro keeps_intros) simp_all

lemma keeps_extend [keeps_intros]: "keeps (same_history h) (extend_lease x lid)"
proof (rule keepsI)
  fix s :: "'a sched" assume "same_history h s"
  then show "same_history h (snd (extend_lease x lid s))"
    by (auto simp: extend_lease_def with_job_def same_history_def split: option.split)
qed

lemma keeps_late [keeps_intros]: "keeps (same_history h) (apply_late c j lid x)"
proof (rule keepsI)
  fix s :: "'a sched" assume s: "same_history h s"
  show "same_history h (snd (apply_late c j lid x s))"
  proof (cases "map_of (sc_jobs s) j")
    case None
    with s show ?thesis by (simp add: apply_late_def with_job_def)
  next
    case (Some st)
    let ?s1 = "book_late c j lid x (if has_lease lid st then release_lease j st s else s)"
    have "same_history h ?s1" using s by (simp add: same_history_def)
    from keepsD [OF keeps_andthen [OF keeps_bill keeps_history] this] Some show ?thesis
      by (simp add: apply_late_def with_job_def Let_def)
  qed
qed

lemma reduce_history:
  assumes "\<And>l b. ev \<noteq> JobLeased l b"
  shows "keeps (same_history h) (reduce_event digest ev)"
proof (cases ev)
  case (JobLeased l b)
  with assms show ?thesis by blast
next
  case (JobEnqueued r)
  then show ?thesis by (auto simp: keeps_def same_history_def apply_enqueued_def)
next
  case (JobRequeued j lid reason x p)
  then show ?thesis unfolding reduce_event.simps JobRequeued apply_requeued_def Let_def
    by (intro keeps_intros) (simp_all)
next
  case (JobLeaseFailed j lid reason x p)
  then show ?thesis unfolding reduce_event.simps JobLeaseFailed apply_lease_failed_def Let_def
    by (intro keeps_intros) (simp_all)
next
  case (JobCanceled j reason x p)
  then show ?thesis unfolding reduce_event.simps JobCanceled apply_canceled_def Let_def
    by (cases x) (auto intro!: keeps_intros)
next
  case (JobFinished j lid x)
  then show ?thesis unfolding reduce_event.simps JobFinished apply_finished_def Let_def
    by (intro keeps_intros) (simp_all)
qed (auto simp: apply_configured_def apply_audit_failed_def apply_worker_registered_def apply_evidence_def
    apply_heartbeat_def set_status_of_def intro!: keeps_intros)

lemma leased_history:
  "apply_leased l s = (Inr (), s') \<Longrightarrow>
     sc_history s' = AList.update (le_id l) (le_job l) (sc_history s) \<and> sc_sequence s' = sc_sequence s"
  by (auto simp: apply_leased_def with_job_def register_lease_def reserve_def split: option.splits)

lemma apply_event_run: "apply_scheduler_event digest e s =
    reduce_event digest (lr_event e) (s\<lparr>sc_sequence := lr_sequence e\<rparr>)"
  by (simp add: apply_scheduler_event_def)

lemma same_core_sequence: "same_core s (s\<lparr>sc_sequence := q\<rparr>)"
  by (simp add: same_core_def same_tables_def registered_def active_at_def)

lemma used_resources_sequence: "used_resources (s\<lparr>sc_sequence := q\<rparr>) u lids = used_resources s u lids"
  by (induction lids arbitrary: u) (simp_all split: option.split sum.split)

lemma admissible_sequence: "admissible env ev (s\<lparr>sc_sequence := q\<rparr>) \<longleftrightarrow> admissible env ev s"
  by (cases ev) (simp_all add: registered_def job_in_def job_budget_state_def worker_matches_def used_resources_sequence
      split: option.split)

lemma applied_history:
  assumes "apply_scheduler_event digest e s = (Inr (), s')"
  shows "sc_sequence s' = lr_sequence e \<and> sc_history s' = (case lr_event e of
     JobLeased l b \<Rightarrow> AList.update (le_id l) (le_job l) (sc_history s) | _ \<Rightarrow> sc_history s)"
proof (cases "\<exists>l b. lr_event e = JobLeased l b")
  case True
  then show ?thesis using assms unfolding apply_event_run by (auto dest!: leased_history)
next
  case False
  then have "same_history (sc_history s, lr_sequence e) s'"
    using keepsD [OF reduce_history, of "lr_event e" "(sc_history s, lr_sequence e)" "s\<lparr>sc_sequence := lr_sequence e\<rparr>" digest]
      assms unfolding apply_event_run by (simp add: same_history_def)
  with False show ?thesis by (simp add: same_history_def split: sched_event.split)
qed

text \<open>An admissible event can always be applied, and a logged step keeps the state tracked.\<close>

lemma admissible_applies:
  assumes "sched_ok s" and "admissible env (lr_event e) s"
  shows "\<exists>s'. apply_scheduler_event (sv_digest env) e s = (Inr (), s') \<and> sched_ok s'"
  unfolding apply_event_run
  by (rule reduce_ok [OF same_core_ok [OF same_core_sequence assms(1)]]) (simp add: admissible_sequence assms(2))

lemma logged_tracked: "logged env x y \<Longrightarrow> tracked x \<Longrightarrow> tracked y"
proof (induction rule: logged.induct)
  case (logged_event e s es s')
  have "sched_ok s" and hist: "dom (map_of (sc_history s)) \<subseteq> set (granted es)"
    using logged_event.prems by (simp_all add: tracked_def)
  from admissible_applies [OF this(1) logged_event.hyps(1)] logged_event.hyps(4) have ok: "sched_ok s'" by auto
  have "dom (map_of (sc_history s')) \<subseteq> set (granted (es @ [e]))"
    using applied_history [OF logged_event.hyps(4)] hist by (auto split: sched_event.splits)
  with ok show ?case by (simp add: tracked_def)
qed

lemma logged_path_tracked: "(logged env)\<^sup>*\<^sup>* x y \<Longrightarrow> tracked x \<Longrightarrow> tracked y"
  by (induction rule: rtranclp_induct) (auto intro: logged_tracked)

subsection \<open>Operations as paths\<close>

definition view :: "'f node \<Rightarrow> 'f sched \<times> 'f log_record list" where
  "view n = (nd_sched n, nd_log n)"

definition fresh_log :: "'f node \<Rightarrow> bool" where
  "fresh_log n \<longleftrightarrow> distinct (granted (nd_log n))"

definition runs_at :: "'f sched_env \<Rightarrow> ('f::{linorder,plus,minus,zero}) node \<Rightarrow> ('f node, 'a) op \<Rightarrow> bool" where
  "runs_at env n m \<longleftrightarrow> (tracked (view n) \<longrightarrow> fresh_log (snd (m n)) \<longrightarrow> (logged env)\<^sup>*\<^sup>* (view n) (view (snd (m n))))"

definition grows :: "('f node, 'a) op \<Rightarrow> bool" where
  "grows m \<longleftrightarrow> (\<forall>L. keeps (\<lambda>n. prefix L (nd_log n)) m)"

lemma growsD: "grows m \<Longrightarrow> prefix (nd_log n) (nd_log (snd (m n)))"
  by (auto simp: grows_def keeps_def)

named_theorems grows_intros

lemma grows_basic [grows_intros]:
  "grows (ret x)" "grows (raise e)" "grows (asks f)" "grows (lift_res r)" "grows (reads g)" "grows draw_uuid" "grows read_time"
  by (auto simp: grows_def reads_def draw_uuid_def read_time_def keeps_def)

lemma grows_bind [grows_intros]: "grows m \<Longrightarrow> (\<And>x. grows (f x)) \<Longrightarrow> grows (bind m f)"
  unfolding grows_def by (blast intro: keeps_bind)

lemma grows_andthen [grows_intros]: "grows m \<Longrightarrow> grows k \<Longrightarrow> grows (andthen m k)"
  unfolding grows_def by (blast intro: keeps_andthen)

lemma grows_modify [grows_intros]: "(\<And>n. nd_log (f n) = nd_log n) \<Longrightarrow> grows (modify f)"
  by (simp add: grows_def keeps_def)

lemma grows_if [grows_intros]: "grows m \<Longrightarrow> grows k \<Longrightarrow> grows (if b then m else k)"
  by simp

lemma grows_option [grows_intros]: "grows m \<Longrightarrow> (\<And>x. grows (f x)) \<Longrightarrow> grows (case y of None \<Rightarrow> m | Some x \<Rightarrow> f x)"
  by (simp split: option.split)

lemma grows_sum [grows_intros]: "(\<And>x. grows (g x)) \<Longrightarrow> (\<And>x. grows (f x)) \<Longrightarrow> grows (case y of Inl x \<Rightarrow> g x | Inr x \<Rightarrow> f x)"
  by (simp split: sum.split)

lemma grows_prod [grows_intros]: "(\<And>a b. grows (f a b)) \<Longrightarrow> grows (case y of (a, b) \<Rightarrow> f a b)"
  by (simp split: prod.split)

lemma grows_each [grows_intros]: "(\<And>x. grows (f x)) \<Longrightarrow> grows (each f xs)"
  by (induction xs) (auto intro: grows_intros)

lemma grows_record [grows_intros]: "grows (record_event env ev)"
  unfolding record_event_def Let_def
  by (intro grows_intros) (auto simp: grows_def keeps_def append_record_def on_sched_def split: prod.split)

subsection \<open>Rules\<close>

lemma runs_same_view: "view (snd (m n)) = view n \<Longrightarrow> runs_at env n m"
  by (simp add: runs_at_def)

lemma runs_basic [simp]: "runs_at env n (ret x)" "runs_at env n (raise e)" "runs_at env n (lift_res r)" "runs_at env n (asks f)"
  by (simp_all add: runs_at_def)

lemma runs_reads: "runs_at env n (g (f (nd_sched n))) \<Longrightarrow> runs_at env n (bind (reads f) g)"
  by (simp add: runs_at_def reads_def bind_def)

lemma runs_asks: "runs_at env n (g (f n)) \<Longrightarrow> runs_at env n (bind (asks f) g)"
  by (simp add: runs_at_def bind_def)

lemma runs_lift: "(\<And>x. r = Inr x \<Longrightarrow> runs_at env n (g x)) \<Longrightarrow> runs_at env n (bind (lift_res r) g)"
  by (cases r) (simp_all add: runs_at_def bind_def)

lemma runs_read_time: "(\<And>t. runs_at env (n\<lparr>nd_ticks := Suc (nd_ticks n)\<rparr>) (g t)) \<Longrightarrow> runs_at env n (bind read_time g)"
  by (simp add: runs_at_def bind_def read_time_def view_def)

lemma runs_draw: "(\<And>u. runs_at env (n\<lparr>nd_drawn := Suc (nd_drawn n)\<rparr>) (g u)) \<Longrightarrow> runs_at env n (bind draw_uuid g)"
  by (simp add: runs_at_def bind_def draw_uuid_def view_def)

text \<open>In sequence: the second part starts where the first one ended, in a tracked state.\<close>

lemma runs_bind:
  assumes m: "runs_at env n m" and f: "\<And>x n'. m n = (Inr x, n') \<Longrightarrow> tracked (view n') \<Longrightarrow> runs_at env n' (f x)"
    and g: "\<And>x. grows (f x)"
  shows "runs_at env n (bind m f)"
  unfolding runs_at_def
proof (intro impI)
  assume t: "tracked (view n)" and fresh: "fresh_log (snd (bind m f n))"
  show "(logged env)\<^sup>*\<^sup>* (view n) (view (snd (bind m f n)))"
  proof (cases rule: bind_cases [of m n f])
    case (raised e n')
    with m t fresh show ?thesis by (simp add: runs_at_def)
  next
    case (returned x n')
    have "prefix (nd_log n') (nd_log (snd (f x n')))" using g by (rule growsD)
    then have "fresh_log n'" using fresh returned(2) by (auto simp: fresh_log_def prefix_def)
    with m t returned(1) have p: "(logged env)\<^sup>*\<^sup>* (view n) (view n')" by (simp add: runs_at_def)
    then have t': "tracked (view n')" using t by (rule logged_path_tracked)
    with f [OF returned(1) t'] fresh returned(2) have "(logged env)\<^sup>*\<^sup>* (view n') (view (snd (f x n')))"
      by (simp add: runs_at_def)
    with p returned(2) show ?thesis by simp
  qed
qed

text \<open>Recording an admissible event; a scheduler that is behind the log records nothing.\<close>

definition next_record :: "('f::{linorder,plus,minus,zero}) node \<Rightarrow> 'f sched_event \<Rightarrow> 'f log_record" where
  "next_record n ev = \<lparr>lr_sequence = sc_sequence (nd_sched n) + 1, lr_id = nd_uuids n (nd_drawn n),
     lr_time = nd_clock n (nd_ticks n), lr_event = ev\<rparr>"

definition drew :: "'f node \<Rightarrow> 'f node" where
  "drew n = n\<lparr>nd_drawn := Suc (nd_drawn n), nd_ticks := Suc (nd_ticks n)\<rparr>"

lemma record_event_run:
  "record_event env ev n =
     (if sc_sequence (nd_sched n) = last_sequence (nd_log n)
      then (case apply_scheduler_event (sv_digest env) (next_record n ev) (nd_sched n) of
         (r, s') \<Rightarrow> (r, (drew n)\<lparr>nd_log := nd_log n @ [next_record n ev], nd_sched := s'\<rparr>))
      else (Inl (stale_scheduler (sc_sequence (nd_sched n) + 1) (last_sequence (nd_log n) + 1)), drew n))"
  by (simp add: record_event_def bind_def draw_uuid_def read_time_def Let_def append_record_def on_sched_def
      next_record_def drew_def split: prod.split)

lemma runs_record:
  assumes "tracked (view n) \<Longrightarrow> distinct (granted (nd_log n @ [next_record n ev])) \<Longrightarrow> admissible env ev (nd_sched n)"
  shows "runs_at env n (record_event env ev)"
proof (cases "sc_sequence (nd_sched n) = last_sequence (nd_log n)")
  case False
  then show ?thesis by (simp add: runs_same_view record_event_run view_def drew_def)
next
  case True
  show ?thesis
    unfolding runs_at_def
  proof (intro impI)
    assume t: "tracked (view n)" and fresh: "fresh_log (snd (record_event env ev n))"
    obtain r s' where a: "apply_scheduler_event (sv_digest env) (next_record n ev) (nd_sched n) = (r, s')"
      by (cases "apply_scheduler_event (sv_digest env) (next_record n ev) (nd_sched n)")
    with fresh True have "distinct (granted (nd_log n @ [next_record n ev]))"
      by (simp add: record_event_run fresh_log_def)
    with t have adm: "admissible env ev (nd_sched n)" by (rule assms)
    moreover have "sched_ok (nd_sched n)" using t by (simp add: tracked_def view_def)
    ultimately have "r = Inr ()"
      using admissible_applies [of "nd_sched n" env "next_record n ev"] a by (auto simp: next_record_def)
    with a adm True have "logged env (nd_sched n, nd_log n) (s', nd_log n @ [next_record n ev])"
      by (intro logged_event) (simp_all add: next_record_def)
    with True a show "(logged env)\<^sup>*\<^sup>* (view n) (view (snd (record_event env ev n)))"
      by (simp add: record_event_run view_def r_into_rtranclp)
  qed
qed

text \<open>Events that are always admissible.\<close>

lemma runs_record_free:
  "(\<And>s. admissible env ev s) \<Longrightarrow> runs_at env n (record_event env ev)"
  by (rule runs_record)

end
