(* ===== verification/Sched_Operations.thy ===== *)
theory Sched_Operations
  imports Sched_Runs
begin

text \<open>
  One lemma for each operation: it is a path of admissible logged events. The interface of a
  scheduler, as a step relation on nodes, is \<open>node_op\<close> at the end.
\<close>

lemma runs_andthen:
  assumes "runs_at env n m" and "\<And>n'. tracked (view n') \<Longrightarrow> runs_at env n' k" and "grows k"
  shows "runs_at env n (andthen m k)"
  unfolding andthen_def using assms by (intro runs_bind)

lemma runs_Pair [simp]: "runs_at env n (Pair x)"
  by (simp add: runs_at_def)

lemma grows_Pair [simp, grows_intros]: "grows (Pair x)"
  by (simp add: grows_def keeps_def)

lemma runs_modify: "view (f n) = view n \<Longrightarrow> runs_at env n (modify f)"
  by (simp add: runs_at_def)

lemma runs_then_ret: "runs_at env n m \<Longrightarrow> runs_at env n (bind m (\<lambda>x. ret (f x)))"
  by (intro runs_bind grows_intros) auto

lemma tracked_ok: "tracked (view n) \<Longrightarrow> sched_ok (nd_sched n)"
  by (simp add: tracked_def view_def)

subsection \<open>Configuration, workers, grants, jobs\<close>

lemma runs_configure: "runs_at env n (configure_campaign env c b br)"
  by (simp add: configure_campaign_def runs_record_free)

lemma runs_bind_plan: "runs_at env n (bind_runtime_plan env c fp)"
  unfolding bind_runtime_plan_def by (auto intro!: runs_reads runs_record_free split: option.split)

lemma runs_register: "runs_at env n (register_worker env d x)"
  unfolding register_worker_def
  by (auto intro!: runs_reads runs_andthen runs_read_time runs_record_free runs_modify grows_intros simp: view_def)

lemma require_worker_run: "require_worker w n = (case map_of (sc_workers (nd_sched n)) w of
     Some ws \<Rightarrow> (Inr ws, n) | None \<Rightarrow> (Inl (KeyError (''unknown campaign worker: '' @ w)), n))"
  by (simp add: require_worker_def reads_def bind_def split: option.split)

lemma runs_require:
  assumes "\<And>ws. map_of (sc_workers (nd_sched n)) w = Some ws \<Longrightarrow> runs_at env n (g ws)"
  shows "runs_at env n (bind (require_worker w) g)"
  using assms by (cases "map_of (sc_workers (nd_sched n)) w") (simp_all add: runs_at_def bind_def require_worker_run)

lemma grows_require [grows_intros]: "grows (require_worker w)"
  unfolding require_worker_def by (intro grows_intros)

lemma runs_heartbeat: "runs_at env n (sched_heartbeat env w lids)"
  unfolding sched_heartbeat_def
  by (intro runs_require runs_read_time runs_reads runs_lift runs_asks runs_record) (simp add: registered_def)

lemma runs_grant: "runs_at env n (grant_evidence_share env g)"
  unfolding grant_evidence_share_def by (auto intro!: runs_reads runs_record_free)

lemma runs_enqueue:
  assumes "valid_request r"
  shows "runs_at env n (enqueue env r)"
  unfolding enqueue_def
proof (intro runs_reads)
  show "runs_at env n (case map_of (sc_idempotency (id (nd_sched n))) (jr_campaign r, jr_key r) of
       Some j \<Rightarrow> (case map_of (sc_jobs (id (nd_sched n))) j of
           None \<Rightarrow> raise (KeyError j)
         | Some st \<Rightarrow> (if js_request st \<noteq> r
             then raise (ValueError ''campaign idempotency key conflicts with a different durable job request'')
             else ret j))
     | None \<Rightarrow>
         (if map_of (sc_jobs (id (nd_sched n))) (jr_id r) \<noteq> None
          then raise (ValueError (''campaign job_id already exists: '' @ jr_id r))
          else if jr_cohort r \<noteq> [] \<and> some_such (\<lambda>x. x \<noteq> lane_digest (sv_digest env) (jr_lane r))
                 (map_of (sc_cohort_lanes (id (nd_sched n))) (job_cohort r))
          then raise (ValueError ''matched cohort jobs must use the same evaluation lane identity'')
          else bind (lift_res (validate_evidence_grants (id (nd_sched n)) r (jr_grants r))) (\<lambda>_.
               bind (record_event env (JobEnqueued r)) (\<lambda>_. ret (jr_id r)))))"
    using assms by (auto intro!: runs_lift runs_then_ret runs_record split: option.split)
qed

subsection \<open>Claiming\<close>

text \<open>What the loop of \<open>claim\<close> relies on: the worker has a slot for every job still to be claimed.\<close>

definition has_slots :: "string \<Rightarrow> int \<Rightarrow> 'f node \<Rightarrow> bool" where
  "has_slots w k n \<longleftrightarrow> (\<exists>ws. map_of (sc_workers (nd_sched n)) w = Some ws \<and>
     int (length (ws_active ws)) + k \<le> wd_concurrency (ws_descriptor ws))"

lemma length_insert_le: "length (List.insert x xs) \<le> Suc (length xs)"
  by (simp add: List.insert_def)

lemma leased_workers:
  "apply_leased l s = (Inr x, s') \<Longrightarrow> \<exists>ws. map_of (sc_workers s) (le_worker l) = Some ws \<and>
     sc_workers s' = AList.update (le_worker l) (ws\<lparr>ws_active := List.insert (le_id l) (ws_active ws)\<rparr>) (sc_workers s)"
  by (auto simp: apply_leased_def with_job_def register_lease_def reserve_def put_job_def split: option.splits)

lemma record_workers:
  assumes "record_event env ev n = (Inr x, n')" and "has_slots w k n"
  shows "(\<exists>j w' r. ev = WarmDegraded j w' r) \<or> (\<exists>j. ev = JobBudgetExhausted j) \<Longrightarrow> has_slots w k n'"
    and "ev = JobLeased l b \<Longrightarrow> has_slots w (k - 1) n'"
proof -
  from assms(1) have q: "sc_sequence (nd_sched n) = last_sequence (nd_log n)"
    and a: "apply_scheduler_event (sv_digest env) (next_record n ev) (nd_sched n) = (Inr x, nd_sched n')"
    by (auto simp: record_event_run split: if_splits prod.splits)
  let ?s = "(nd_sched n)\<lparr>sc_sequence := sc_sequence (nd_sched n) + 1\<rparr>"
  have a': "reduce_event (sv_digest env) ev ?s = (Inr x, nd_sched n')"
    using a by (simp add: apply_event_run next_record_def)
  show "(\<exists>j w' r. ev = WarmDegraded j w' r) \<or> (\<exists>j. ev = JobBudgetExhausted j) \<Longrightarrow> has_slots w k n'"
  proof -
    assume "(\<exists>j w' r. ev = WarmDegraded j w' r) \<or> (\<exists>j. ev = JobBudgetExhausted j)"
    then have "sc_workers (snd (reduce_event (sv_digest env) ev ?s)) = sc_workers (nd_sched n)"
      by (auto simp: set_status_of_def with_job_def put_job_def split: option.split)
    then have "sc_workers (nd_sched n') = sc_workers (nd_sched n)" using a' by simp
    with assms(2) show "has_slots w k n'" by (simp add: has_slots_def)
  qed
  show "has_slots w (k - 1) n'" if ev: "ev = JobLeased l b"
  proof -
    from a' ev obtain ws where "map_of (sc_workers (nd_sched n)) (le_worker l) = Some ws"
      and "sc_workers (nd_sched n') = AList.update (le_worker l) (ws\<lparr>ws_active := List.insert (le_id l) (ws_active ws)\<rparr>) (sc_workers (nd_sched n))"
      using leased_workers by force
    with assms(2) length_insert_le [of "le_id l" "ws_active ws"] show ?thesis
      by (auto simp: has_slots_def)
  qed
qed

lemma has_slots_mono: "has_slots w k n \<Longrightarrow> k' \<le> k \<Longrightarrow> has_slots w k' n"
  by (auto simp: has_slots_def)

lemma has_slots_view: "nd_sched n' = nd_sched n \<Longrightarrow> has_slots w k n' = has_slots w k n"
  by (simp add: has_slots_def)

lemma bind_read_time [simp]: "bind read_time g n = g (nd_clock n (nd_ticks n)) (n\<lparr>nd_ticks := Suc (nd_ticks n)\<rparr>)"
  by (simp add: bind_def read_time_def)

lemma bind_draw_uuid [simp]: "bind draw_uuid g n = g (nd_uuids n (nd_drawn n)) (n\<lparr>nd_drawn := Suc (nd_drawn n)\<rparr>)"
  by (simp add: bind_def draw_uuid_def)

lemma bind_asks [simp]: "bind (asks f) g n = g (f n) n"
  by (simp add: bind_def)

lemma bind_reads [simp]: "bind (reads f) g n = g (f (nd_sched n)) n"
  by (simp add: bind_def reads_def)

text \<open>The state in which a lease is recorded is the state that was inspected.\<close>

definition claimable :: "'f sched_env \<Rightarrow> ('f::{linorder,plus,minus,zero}) sched \<Rightarrow> string \<Rightarrow> 'f worker_state \<Rightarrow> 'f job_state \<Rightarrow> bool" where
  "claimable env s w ws st \<longleftrightarrow> map_of (sc_workers s) w = Some ws \<and>
     map_of (sc_jobs s) (jr_id (js_request st)) = Some st \<and> js_status st = Queued \<and>
     worker_matches env s ws (js_request st) = Inr True \<and> job_budget_state s (js_request st) = BudgetAvailable"

lemma claimable_sequence: "claimable env (s\<lparr>sc_sequence := q\<rparr>) w ws st = claimable env s w ws st"
  by (simp add: claimable_def worker_matches_def job_budget_state_def used_resources_sequence cong: option.case_cong sum.case_cong)

lemma record_warm:
  assumes "record_event env (WarmDegraded j w reason) n = (Inr x, n')"
  shows "\<exists>q. nd_sched n' = (nd_sched n)\<lparr>sc_sequence := q\<rparr>"
  using assms by (auto simp: record_event_run apply_event_run next_record_def split: if_splits prod.splits)

lemma runs_grant_lease:
  assumes "claimable env (nd_sched n) w ws st" and "has_slots w 1 n"
  shows "runs_at env n (bind draw_uuid (\<lambda>lid. bind (asks nd_lease_seconds) (\<lambda>d.
     bind (record_event env (JobLeased (new_lease env w st ws t d lid) (jr_reservation (js_request st)))) (\<lambda>_.
       ret \<lparr>as_job = js_request st, as_lease = new_lease env w st ws t d lid\<rparr>))))"
proof (intro runs_draw runs_asks runs_then_ret runs_record)
  fix lid
  let ?n = "n\<lparr>nd_drawn := Suc (nd_drawn n)\<rparr>"
  let ?l = "new_lease env w st ws t (nd_lease_seconds ?n) lid"
  assume t: "tracked (view ?n)" and d: "distinct (granted (nd_log ?n @ [next_record ?n (JobLeased ?l (jr_reservation (js_request st)))]))"
  have "map_of (sc_history (nd_sched n)) lid = None"
    using t d by (auto simp: tracked_def view_def next_record_def new_lease_def)
  with assms show "admissible env (JobLeased ?l (jr_reservation (js_request st))) (nd_sched ?n)"
    by (auto simp: claimable_def new_lease_def has_slots_def)
qed

definition warm_notice :: "'f sched_env \<Rightarrow> string \<Rightarrow> 'f worker_state \<Rightarrow> 'f job_state \<Rightarrow>
    (('f::{linorder,plus,minus,zero}) node, unit) op" where
  "warm_notice env w ws st =
     (if jr_prefer_warm (js_request st) \<and> select_lifecycle (ws_descriptor ws) (js_request st) = EphemeralPerEval
      then record_event env (WarmDegraded (jr_id (js_request st)) w ''capability_unavailable'') else ret ())"

lemma warm_notice_state:
  assumes "warm_notice env w ws st n = (Inr x, n')" and "claimable env (nd_sched n) w ws st"
  shows "claimable env (nd_sched n') w ws st"
  using assms record_warm [of env "jr_id (js_request st)" w "''capability_unavailable''" n x n']
  by (auto simp: warm_notice_def claimable_sequence split: if_splits)

lemma warm_notice_slots:
  assumes "warm_notice env w ws st n = (Inr x, n')" and "has_slots w k n"
  shows "has_slots w k n'"
  using assms record_workers(1) [OF _ assms(2)] by (auto simp: warm_notice_def split: if_splits)

lemma runs_lease_job:
  assumes "claimable env (nd_sched n) w ws st" and "has_slots w 1 n"
  shows "runs_at env n (lease_job env w ws st)"
  unfolding lease_job_def warm_notice_def [symmetric]
proof (rule runs_read_time, rule runs_bind)
  let ?n = "n\<lparr>nd_ticks := Suc (nd_ticks n)\<rparr>"
  show "runs_at env ?n (warm_notice env w ws st)" by (simp add: warm_notice_def runs_record_free)
  fix t :: 'a and x n'
  assume "warm_notice env w ws st ?n = (Inr x, n')"
  note w = this
  have c: "claimable env (nd_sched ?n) w ws st" "has_slots w 1 ?n" using assms by (simp_all add: has_slots_def)
  show "runs_at env n' (bind draw_uuid (\<lambda>lid. bind (asks nd_lease_seconds) (\<lambda>d.
     bind (record_event env (JobLeased (new_lease env w st ws t d lid) (jr_reservation (js_request st)))) (\<lambda>_.
       ret \<lparr>as_job = js_request st, as_lease = new_lease env w st ws t d lid\<rparr>))))"
    by (rule runs_grant_lease [OF warm_notice_state [OF w c(1)] warm_notice_slots [OF w c(2)]])
qed (intro grows_intros)

lemma lease_job_slots:
  assumes "lease_job env w ws st n = (Inr a, n')" and "has_slots w k n"
  shows "has_slots w (k - 1) n'"
proof -
  let ?n = "n\<lparr>nd_ticks := Suc (nd_ticks n)\<rparr>"
  from assms(1) obtain x n1 lid t d n2 where
    warm: "warm_notice env w ws st ?n = (Inr x, n1)"
    and rec: "record_event env (JobLeased (new_lease env w st ws t d lid) (jr_reservation (js_request st)))
      (n1\<lparr>nd_drawn := Suc (nd_drawn n1)\<rparr>) = (Inr (), n2)" and "n' = n2"
    unfolding lease_job_def warm_notice_def [symmetric] bind_read_time by (auto elim!: bind_InrE simp: draw_uuid_def)
  have h: "has_slots w k ?n" using assms(2) by (simp add: has_slots_def)
  have "has_slots w k n1" by (rule warm_notice_slots [OF warm h])
  then have "has_slots w k (n1\<lparr>nd_drawn := Suc (nd_drawn n1)\<rparr>)" by (simp add: has_slots_def)
  from record_workers(2) [OF rec this] \<open>n' = n2\<close> show ?thesis by simp
qed

lemma grows_lease_job [grows_intros]: "grows (lease_job env w ws st)"
  unfolding lease_job_def by (intro grows_intros)

lemma claim_job_unfold: "claim_job env w j n =
   bind (require_worker w) (\<lambda>ws. case map_of (sc_jobs (nd_sched n)) j of
       None \<Rightarrow> ret None
     | Some st \<Rightarrow>
        (if js_status st \<noteq> Queued then ret None
         else bind (lift_res (worker_matches env (nd_sched n) ws (js_request st))) (\<lambda>ok.
           if \<not> ok then ret None
           else (case job_budget_state (nd_sched n) (js_request st) of
               BudgetSpent \<Rightarrow> bind (record_event env (JobBudgetExhausted (jr_id (js_request st)))) (\<lambda>_. ret None)
             | BudgetReserved \<Rightarrow> ret None
             | BudgetAvailable \<Rightarrow> bind (lease_job env w ws st) (\<lambda>a. ret (Some a)))))) n"
  by (cases "map_of (sc_workers (nd_sched n)) w") (simp_all add: claim_job_def bind_def require_worker_run reads_def)

lemma runs_claim_job:
  assumes "tracked (view n)" and "has_slots w 1 n"
  shows "runs_at env n (claim_job env w j)"
proof -
  have ids: "jr_id (js_request st) = j" if "map_of (sc_jobs (nd_sched n)) j = Some st" for st
    using sched_ok_job [OF tracked_ok [OF assms(1)] that] by (simp add: job_ok_def)
  have "runs_at env n (bind (require_worker w) (\<lambda>ws. case map_of (sc_jobs (nd_sched n)) j of
       None \<Rightarrow> ret None
     | Some st \<Rightarrow>
        (if js_status st \<noteq> Queued then ret None
         else bind (lift_res (worker_matches env (nd_sched n) ws (js_request st))) (\<lambda>ok.
           if \<not> ok then ret None
           else (case job_budget_state (nd_sched n) (js_request st) of
               BudgetSpent \<Rightarrow> bind (record_event env (JobBudgetExhausted (jr_id (js_request st)))) (\<lambda>_. ret None)
             | BudgetReserved \<Rightarrow> ret None
             | BudgetAvailable \<Rightarrow> bind (lease_job env w ws st) (\<lambda>a. ret (Some a)))))))"
  proof (intro runs_require)
    fix ws assume ws: "map_of (sc_workers (nd_sched n)) w = Some ws"
    show "runs_at env n (case map_of (sc_jobs (nd_sched n)) j of
       None \<Rightarrow> ret None
     | Some st \<Rightarrow>
        (if js_status st \<noteq> Queued then ret None
         else bind (lift_res (worker_matches env (nd_sched n) ws (js_request st))) (\<lambda>ok.
           if \<not> ok then ret None
           else (case job_budget_state (nd_sched n) (js_request st) of
               BudgetSpent \<Rightarrow> bind (record_event env (JobBudgetExhausted (jr_id (js_request st)))) (\<lambda>_. ret None)
             | BudgetReserved \<Rightarrow> ret None
             | BudgetAvailable \<Rightarrow> bind (lease_job env w ws st) (\<lambda>a. ret (Some a))))))"
    proof (cases "map_of (sc_jobs (nd_sched n)) j")
      case (Some st)
      show ?thesis
      proof (cases "js_status st = Queued")
        case True
        have lease: "runs_at env n (lease_job env w ws st)"
          if "worker_matches env (nd_sched n) ws (js_request st) = Inr True"
            "job_budget_state (nd_sched n) (js_request st) = BudgetAvailable"
          using that True Some ids [OF Some] ws assms(2) by (intro runs_lease_job) (auto simp: claimable_def)
        have spent: "runs_at env n (record_event env (JobBudgetExhausted (jr_id (js_request st))))"
          using Some True ids [OF Some] by (intro runs_record) (auto simp: job_in_def)
        show ?thesis
          using Some True lease spent
          by (auto intro!: runs_lift runs_then_ret split: budget_state.split)
      qed (simp add: Some)
    qed simp
  qed
  then show ?thesis by (simp add: runs_at_def claim_job_unfold)
qed

lemma grows_budget_state [grows_intros]:
  "grows k \<Longrightarrow> grows l \<Longrightarrow> grows m \<Longrightarrow>
   grows (case b of BudgetAvailable \<Rightarrow> k | BudgetReserved \<Rightarrow> l | BudgetSpent \<Rightarrow> m)"
  by (cases b) simp_all

lemma grows_claim_job [grows_intros]: "grows (claim_job env w j)"
  unfolding claim_job_def by (intro grows_intros)

lemma claim_job_slots:
  assumes "claim_job env w j n = (Inr a, n')" and "has_slots w k n"
  shows "has_slots w (if a = None then k else k - 1) n'"
proof -
  from assms(2) obtain ws where ws: "map_of (sc_workers (nd_sched n)) w = Some ws" by (auto simp: has_slots_def)
  show ?thesis
  proof (cases "map_of (sc_jobs (nd_sched n)) j")
    case None
    with assms ws show ?thesis by (simp add: claim_job_unfold bind_def require_worker_run)
  next
    case (Some st)
    show ?thesis
    proof (cases "js_status st = Queued \<and> worker_matches env (nd_sched n) ws (js_request st) = Inr True")
      case False
      with assms ws Some show ?thesis
        by (auto simp: claim_job_unfold bind_def require_worker_run split: if_splits sum.splits)
    next
      case True
      with assms(1) ws Some have c: "(case job_budget_state (nd_sched n) (js_request st) of
               BudgetSpent \<Rightarrow> bind (record_event env (JobBudgetExhausted (jr_id (js_request st)))) (\<lambda>_. ret None)
             | BudgetReserved \<Rightarrow> ret None
             | BudgetAvailable \<Rightarrow> bind (lease_job env w ws st) (\<lambda>a. ret (Some a))) n = (Inr a, n')"
        by (simp add: claim_job_unfold bind_def require_worker_run)
      show ?thesis
      proof (cases "job_budget_state (nd_sched n) (js_request st)")
        case BudgetAvailable
        with c obtain y where "lease_job env w ws st n = (Inr y, n')" "a = Some y" by (auto elim!: bind_InrE)
        with lease_job_slots [OF _ assms(2)] show ?thesis by auto
      next
        case BudgetReserved
        with c assms(2) show ?thesis by simp
      next
        case BudgetSpent
        with c obtain y where "record_event env (JobBudgetExhausted (jr_id (js_request st))) n = (Inr y, n')" "a = None"
          by (auto elim!: bind_InrE)
        with record_workers(1) [OF _ assms(2)] show ?thesis by auto
      qed
    qed
  qed
qed

lemma grows_claim_jobs [grows_intros]: "grows (claim_jobs env w k js acc)"
  by (induction js arbitrary: acc) (auto intro!: grows_intros split: option.split)

lemma runs_claim_jobs:
  "tracked (view n) \<Longrightarrow> has_slots w (int k - int (length acc)) n \<Longrightarrow> runs_at env n (claim_jobs env w k js acc)"
proof (induction js arbitrary: acc n)
  case (Cons j js)
  show ?case
  proof (cases "length acc \<ge> k")
    case False
    then have one: "has_slots w 1 n" using Cons.prems(2) by (auto intro: has_slots_mono)
    have "runs_at env n (bind (claim_job env w j) (\<lambda>a. claim_jobs env w k js (case a of Some x \<Rightarrow> acc @ [x] | None \<Rightarrow> acc)))"
    proof (rule runs_bind [OF runs_claim_job [OF Cons.prems(1) one] _ grows_claim_jobs])
      fix a n' assume a: "claim_job env w j n = (Inr a, n')" and t: "tracked (view n')"
      show "runs_at env n' (claim_jobs env w k js (case a of Some x \<Rightarrow> acc @ [x] | None \<Rightarrow> acc))"
        using claim_job_slots [OF a Cons.prems(2)] t
        by (intro Cons.IH) (auto split: option.split elim: has_slots_mono)
    qed
    with False show ?thesis by simp
  qed simp
qed simp

lemma runs_claim: "runs_at env n (claim env w limit)"
  unfolding runs_at_def
proof (rule impI)
  assume t: "tracked (view n)"
  have "runs_at env n (claim env w limit)"
    unfolding claim_def
  proof (intro runs_require runs_asks runs_reads)
    fix ws assume ws: "map_of (sc_workers (nd_sched n)) w = Some ws"
    show "runs_at env n (claim_jobs env w (nat (free_slots n ws limit)) (map fst (sc_jobs (nd_sched n))) [])"
    proof (cases "free_slots n ws limit = 0")
      case True
      then show ?thesis by (cases "map fst (sc_jobs (nd_sched n))") simp_all
    next
      case False
      then have "has_slots w (free_slots n ws limit) n"
        using ws by (auto simp: has_slots_def free_slots_def Let_def split: if_splits)
      moreover have "0 \<le> free_slots n ws limit" by (simp add: free_slots_def Let_def)
      ultimately show ?thesis using t by (intro runs_claim_jobs) simp_all
    qed
  qed
  with t show "fresh_log (snd (claim env w limit n)) \<longrightarrow> (logged env)\<^sup>*\<^sup>* (view n) (view (snd (claim env w limit n)))"
    by (simp add: runs_at_def)
qed

lemma grows_claim [grows_intros]: "grows (claim env w limit)"
  unfolding claim_def by (intro grows_intros)

subsection \<open>Completion and cancellation\<close>

text \<open>Operations are analysed in a tracked state.\<close>

lemma runs_atI: "(tracked (view n) \<Longrightarrow> runs_at env n m) \<Longrightarrow> runs_at env n m"
  by (auto simp: runs_at_def)

lemma runs_if: "(b \<Longrightarrow> runs_at env n m) \<Longrightarrow> (\<not> b \<Longrightarrow> runs_at env n k) \<Longrightarrow> runs_at env n (if b then m else k)"
  by simp

lemma runs_option:
  "(y = None \<Longrightarrow> runs_at env n m) \<Longrightarrow> (\<And>x. y = Some x \<Longrightarrow> runs_at env n (f x)) \<Longrightarrow>
   runs_at env n (case y of None \<Rightarrow> m | Some x \<Rightarrow> f x)"
  by (cases y) simp_all

lemma leased_job_holds:
  assumes "sched_ok s" and "leased_job s lid = Inr (Some (j, st))"
  shows "map_of (sc_jobs s) j = Some st" and "has_lease lid st" and "js_status st \<in> {Leased, Canceling}"
    and "map_of (sc_history s) lid = Some j" and "lid \<notin> set (sc_result_leases s)" and "jr_id (js_request st) = j"
proof -
  from assms(2) have l: "map_of (sc_leases s) lid = Some j" and job: "map_of (sc_jobs s) j = Some st"
    by (auto simp: leased_job_def split: option.splits)
  from l leases_okD(1) [OF assms(1), of lid j] obtain w where h: "holds s j w lid" by auto
  show "map_of (sc_jobs s) j = Some st" by (rule job)
  from h job show lease: "has_lease lid st" by (auto simp: holds_def has_lease_def)
  from sched_ok_job [OF assms(1) job] lease show "js_status st \<in> {Leased, Canceling}"
    by (auto simp: job_ok_def has_lease_def split: option.splits)
  from leases_okD(4) [OF assms(1) h] show "map_of (sc_history s) lid = Some j" "lid \<notin> set (sc_result_leases s)" by simp_all
  from sched_ok_job [OF assms(1) job] show "jr_id (js_request st) = j" by (simp add: job_ok_def)
qed

lemma has_lease_table:
  assumes "sched_ok s" and "map_of (sc_jobs s) j = Some st" and "has_lease lid st"
  shows "map_of (sc_leases s) lid = Some j"
proof -
  from assms(3) obtain l where "js_lease st = Some l" "le_id l = lid" by (auto simp: has_lease_def split: option.splits)
  with sched_ok_holds(5) [OF assms(1,2)] show ?thesis by auto
qed

lemma runs_complete_historical:
  assumes "map_of (sc_leases (nd_sched n)) lid = None"
  shows "runs_at env n (complete_historical env lid x)"
proof (rule runs_atI)
  assume "tracked (view n)"
  then have ok: "sched_ok (nd_sched n)" by (rule tracked_ok)
  show "runs_at env n (complete_historical env lid x)"
    unfolding complete_historical_def
  proof (intro runs_reads runs_option runs_if runs_then_ret runs_record runs_basic)
    fix j st
    assume h: "map_of (sc_history (id (nd_sched n))) lid = Some j" and job: "map_of (sc_jobs (id (nd_sched n))) j = Some st"
      and p: "\<not> (lid \<in> set (sc_result_leases (id (nd_sched n))) \<and> map_of (sc_provisional (id (nd_sched n))) lid = None)"
    have "\<not> has_lease lid st" using has_lease_table [OF ok] job assms by fastforce
    with h job p show "admissible env (if js_status st = Canceled then JobCanceledLate j lid x else JobStaleCompleted j lid x) (nd_sched n)"
      by (auto simp: job_in_def)
  qed
qed

lemma runs_complete_locked: "runs_at env n (complete_locked env lid x)"
proof (rule runs_atI)
  assume t: "tracked (view n)"
  have ok: "sched_ok (nd_sched n)" using t by (rule tracked_ok)
  show "runs_at env n (complete_locked env lid x)"
    unfolding complete_locked_def
  proof (intro runs_reads runs_lift runs_option)
    fix found assume "leased_job (id (nd_sched n)) lid = Inr found" and "found = None"
    then have "map_of (sc_leases (nd_sched n)) lid = None" by (auto simp: leased_job_def split: option.splits)
    then show "runs_at env n (bind (complete_historical env lid x) (\<lambda>y. ret (y, None)))"
      by (intro runs_then_ret runs_complete_historical)
  next
    fix found p assume "leased_job (id (nd_sched n)) lid = Inr found" and "found = Some p"
    then obtain j st where p: "p = (j, st)" and leased: "leased_job (nd_sched n) lid = Inr (Some (j, st))" by (cases p) auto
    note l = leased_job_holds [OF ok leased]
    show "runs_at env n (case p of (j, st) \<Rightarrow> (case js_lease st of
         None \<Rightarrow> (case js_result st of None \<Rightarrow> raise (ValueError ''lease is no longer active'') | Some y \<Rightarrow> ret (y, None))
       | Some l \<Rightarrow>
          (if js_status st = Canceling \<and> le_id l = lid
           then bind (record_event env (JobCanceledLate j lid x)) (\<lambda>_. ret (x, None))
           else if js_status st \<noteq> Leased \<or> le_id l \<noteq> lid
           then (case js_result st of None \<Rightarrow> raise (ValueError ''lease is no longer active'') | Some y \<Rightarrow> ret (y, None))
           else bind (record_event env
               (if jx_outcome x = InfrastructureFailure \<and> jx_retryable x \<and> js_attempts st < jr_max_attempts (js_request st)
                then JobRequeued j lid (if jx_detail x \<noteq> [] then jx_detail x else ''infrastructure_failure'') (Some x) False
                else JobFinished j lid x)) (\<lambda>_. ret (x, Some \<lparr>as_job = js_request st, as_lease = l\<rparr>)))))"
      unfolding p prod.case
    proof (intro runs_option runs_if runs_then_ret runs_record runs_basic)
      fix l' assume "js_status st = Canceling \<and> le_id l' = lid"
      then show "admissible env (JobCanceledLate j lid x) (nd_sched n)" using l by (simp add: job_in_def)
    next
      fix l' assume "\<not> (js_status st \<noteq> Leased \<or> le_id l' \<noteq> lid)"
      then show "admissible env (if jx_outcome x = InfrastructureFailure \<and> jx_retryable x \<and> js_attempts st < jr_max_attempts (js_request st)
                then JobRequeued j lid (if jx_detail x \<noteq> [] then jx_detail x else ''infrastructure_failure'') (Some x) False
                else JobFinished j lid x) (nd_sched n)" using l by (simp add: job_in_def)
    qed
  qed
qed

lemma runs_integrity_alert: "runs_at env n (integrity_alert env a x src)"
  by (simp add: integrity_alert_def record_audit_failure_def runs_record_free split: option.split)

lemma grows_integrity_alert [grows_intros]: "grows (integrity_alert env a x src)"
  unfolding integrity_alert_def record_audit_failure_def by (intro grows_intros)

lemma runs_complete: "runs_at env n (complete_lease env lid x)"
  unfolding complete_lease_def
  by (intro runs_bind [OF runs_complete_locked])
     (auto intro!: runs_then_ret runs_integrity_alert grows_intros split: option.split)

lemma runs_request_cancel: "runs_at env n (request_cancel env j)"
  unfolding request_cancel_def
  by (intro runs_reads runs_option runs_if runs_then_ret runs_record runs_basic)
     (auto simp: job_in_def terminal_statuses_def, metis job_status.exhaust)

lemma lease_has: "js_lease st = Some l \<Longrightarrow> has_lease (le_id l) st"
  by (simp add: has_lease_def)

text \<open>
  A worker's confirmation cancels the lease for which it was asked: a job that is being canceled
  keeps that lease until it is canceled.
\<close>

definition confirms_current :: "'f sched \<Rightarrow> string \<Rightarrow> 'f assignment \<Rightarrow> bool" where
  "confirms_current s j a \<longleftrightarrow> (\<forall>st. map_of (sc_jobs s) j = Some st \<longrightarrow> js_status st = Canceling \<longrightarrow>
     has_lease (le_id (as_lease a)) st)"

lemma runs_acknowledge:
  assumes "confirms_current (nd_sched n) j a"
  shows "runs_at env n (acknowledge_cancel env j a)"
proof (rule runs_atI)
  assume t: "tracked (view n)"
  show "runs_at env n (acknowledge_cancel env j a)"
    unfolding acknowledge_cancel_def
  proof (intro runs_reads runs_option runs_if runs_record runs_basic)
    fix st assume job: "map_of (sc_jobs (nd_sched n)) j = Some st" and "js_status st = Canceling"
    with assms sched_ok_job [OF tracked_ok [OF t] job]
    show "admissible env (cancellation_event (js_request st) (as_lease a) ''worker_acknowledged'') (nd_sched n)"
      by (simp add: cancellation_event_def job_in_def confirms_current_def job_ok_def)
  qed
qed

lemma request_cancel_confirms:
  assumes "request_cancel env j n = (Inr (Inr a), n')"
  shows "confirms_current (nd_sched n') j a"
proof -
  from assms obtain st l x where st: "map_of (sc_jobs (nd_sched n)) j = Some st" "js_lease st = Some l"
      "a = \<lparr>as_job = js_request st, as_lease = l\<rparr>" and r: "record_event env (JobCancelRequested j (le_id l)) n = (Inr x, n')"
    unfolding request_cancel_def bind_reads by (auto elim!: bind_InrE split: option.splits if_splits)
  from r st have "nd_sched n' = put_job j (st\<lparr>js_status := Canceling\<rparr>) ((nd_sched n)\<lparr>sc_sequence := sc_sequence (nd_sched n) + 1\<rparr>)"
    by (auto simp: record_event_run apply_event_run next_record_def set_status_of_def with_job_def split: if_splits prod.splits)
  then show ?thesis using st by (simp add: confirms_current_def put_job_def has_lease_def)
qed

lemma grows_acknowledge [grows_intros]: "grows (acknowledge_cancel env j a)"
  unfolding acknowledge_cancel_def by (intro grows_intros)

lemma runs_cancel: "runs_at env n (cancel_job env j)"
  unfolding cancel_job_def
proof (rule runs_bind [OF runs_request_cancel])
  fix x n' assume "request_cancel env j n = (Inr x, n')"
  then show "runs_at env n' (case x of Inl b \<Rightarrow> ret b
     | Inr a \<Rightarrow> bind (asks (\<lambda>n. le_worker (as_lease a) \<in> set (nd_executors n))) (\<lambda>bound.
         if worker_confirms env bound a then bind (acknowledge_cancel env j a) (\<lambda>_. ret True) else ret True))"
    using request_cancel_confirms by (cases x) (auto intro!: runs_asks runs_then_ret runs_acknowledge)
qed (intro grows_intros)

lemma runs_seal: "runs_at env n (seal_job env j)"
proof (rule runs_atI)
  assume t: "tracked (view n)"
  show "runs_at env n (seal_job env j)"
    unfolding seal_job_def
  proof (intro runs_reads runs_option runs_if runs_record runs_basic)
    fix st l assume job: "map_of (sc_jobs (nd_sched n)) j = Some st" and l: "js_lease st = Some l"
      and "js_status st \<in> {Leased, Canceling}"
    with sched_ok_job [OF tracked_ok [OF t] job] lease_has [OF l]
    show "admissible env (cancellation_event (js_request st) l ''cancel_grace_expired'') (nd_sched n)"
      by (auto simp: cancellation_event_def job_in_def job_ok_def)
  qed
qed

lemma runs_each:
  assumes "\<And>x n. runs_at env n (f x)" and "\<And>x. grows (f x)"
  shows "runs_at env n (each f xs)"
proof (induction xs arbitrary: n)
  case (Cons x xs)
  then show ?case using assms by (auto intro!: runs_andthen grows_intros simp del: andthen_run)
qed simp

lemma grows_seal [grows_intros]: "grows (seal_job env j)"
  unfolding seal_job_def by (intro grows_intros)

lemma runs_seal_active: "runs_at env n (seal_active_jobs env js)"
  unfolding seal_active_jobs_def by (intro runs_each runs_seal grows_seal)

subsection \<open>Reconciliation and dispatch\<close>

lemma runs_expire:
  assumes "map_of (sc_jobs (nd_sched n)) j = Some st" and "js_status st = Leased" and "js_lease st = Some l"
    and "jr_id (js_request st) = j"
  shows "runs_at env n (expire_lease env st l)"
  unfolding expire_lease_def Let_def
  by (intro runs_asks runs_then_ret runs_record) (use assms lease_has [OF assms(3)] in \<open>auto simp: job_in_def\<close>)

lemma grows_expire [grows_intros]: "grows (expire_lease env st l)"
  unfolding expire_lease_def Let_def by (intro grows_intros)

lemma runs_reconcile_job: "runs_at env n (reconcile_job env t j)"
proof (rule runs_atI)
  assume t: "tracked (view n)"
  show "runs_at env n (reconcile_job env t j)"
    unfolding reconcile_job_def
  proof (intro runs_reads runs_option runs_if runs_asks runs_then_ret runs_basic)
    fix st l assume job: "map_of (sc_jobs (nd_sched n)) j = Some st" and l: "js_lease st = Some l"
    have id: "jr_id (js_request st) = j" using sched_ok_job [OF tracked_ok [OF t] job] by (simp add: job_ok_def)
    show "runs_at env n (record_event env (cancellation_event (js_request st) l ''cancel_lease_expired''))"
      if "js_status st = Canceling"
      using that job id lease_has [OF l] by (intro runs_record) (auto simp: cancellation_event_def job_in_def)
    show "runs_at env n (expire_lease env st l)"
      if "\<not> (js_status st \<notin> {Leased, Canceling} \<or> t < le_expires l)" "js_status st \<noteq> Canceling"
      using that job l id by (intro runs_expire) auto
  qed
qed

lemma grows_reconcile_job [grows_intros]: "grows (reconcile_job env t j)"
  unfolding reconcile_job_def by (intro grows_intros)

lemma grows_reconcile_jobs [grows_intros]: "grows (reconcile_jobs env t js)"
  by (induction js) (auto intro!: grows_intros)

lemma runs_reconcile_jobs: "runs_at env n (reconcile_jobs env t js)"
proof (induction js arbitrary: n)
  case (Cons j js)
  show ?case unfolding reconcile_jobs.simps
    by (intro runs_bind [OF runs_reconcile_job] runs_then_ret Cons.IH grows_intros)
qed simp

lemma runs_reconcile: "runs_at env n (reconcile env t)"
proof -
  have audits: "runs_at env m (each (\<lambda>(a, x). integrity_alert env a x src) ys)" for m src ys
    by (intro runs_each) (auto intro: runs_integrity_alert grows_intros split: prod.split)
  show ?thesis
    unfolding reconcile_def
  proof (rule runs_bind)
    show "runs_at env n (case t of None \<Rightarrow> read_time | Some t \<Rightarrow> ret t)"
      by (cases t) (simp_all add: runs_at_def read_time_def view_def)
  qed (intro runs_reads runs_bind [OF runs_reconcile_jobs] runs_andthen [OF audits] runs_basic grows_intros)+
qed

lemma grows_heartbeat [grows_intros]: "grows (sched_heartbeat env w lids)"
  unfolding sched_heartbeat_def by (intro grows_intros)

lemma grows_forget [grows_intros]: "grows (modify (forget_orphan lid))"
  by (intro grows_intros) (simp add: forget_orphan_def)

lemma grows_resume [grows_intros]: "grows (resume_orphan env lid)"
  unfolding resume_orphan_def by (intro grows_intros)

lemma runs_forget: "runs_at env n (andthen (modify (forget_orphan lid)) (ret x))"
  by (intro runs_andthen runs_modify grows_intros) (simp_all add: view_def forget_orphan_def)

lemma runs_resume: "runs_at env n (resume_orphan env lid)"
  unfolding resume_orphan_def
  by (intro runs_reads runs_option runs_if runs_read_time runs_asks runs_forget runs_basic
      runs_bind [OF runs_heartbeat] grows_intros)

lemma grows_orphans [grows_intros]: "grows (claim_expired_restart_leases env lids)"
  by (induction lids) (auto intro!: grows_intros)

lemma runs_orphans: "runs_at env n (claim_expired_restart_leases env lids)"
proof (induction lids arbitrary: n)
  case (Cons lid lids)
  show ?case unfolding claim_expired_restart_leases.simps
    by (intro runs_bind [OF runs_resume] runs_then_ret Cons.IH grows_intros)
qed simp

lemma grows_claim_workers [grows_intros]: "grows (claim_workers env ws k)"
proof (induction ws arbitrary: k)
  case (Cons w ws)
  show ?case unfolding claim_workers.simps by (intro grows_intros Cons.IH)
qed (simp add: grows_intros)

lemma runs_claim_workers: "runs_at env n (claim_workers env ws k)"
proof (induction ws arbitrary: k n)
  case (Cons w ws)
  show ?case unfolding claim_workers.simps
    by (intro runs_asks runs_if Cons.IH runs_bind [OF runs_claim] runs_then_ret grows_intros)
qed simp

lemma runs_dispatch_wave: "runs_at env n (claim_dispatch_wave env)"
  unfolding claim_dispatch_wave_def
  by (intro runs_asks runs_bind [OF runs_orphans] runs_reads runs_then_ret runs_claim_workers grows_intros)

lemma runs_final_summaries: "runs_at env n (audit_final_summaries env)"
  unfolding audit_final_summaries_def record_audit_failure_def
  by (intro runs_reads runs_each grows_intros)
     (auto intro!: runs_record_free grows_intros split: option.split prod.split)

subsection \<open>The interface\<close>

text \<open>
  What a process can do to its scheduler. The parts of \<open>complete\<close> and \<open>cancel\<close> between which the lock
  is released are listed on their own besides the whole operations.
\<close>

inductive node_op :: "'f sched_env \<Rightarrow> ('f::{linorder,plus,minus,zero}) node \<Rightarrow> 'f node \<Rightarrow> bool" for env where
  op_configure: "node_op env n (snd (configure_campaign env c b br n))"
| op_plan: "node_op env n (snd (bind_runtime_plan env c fp n))"
| op_register: "node_op env n (snd (register_worker env d x n))"
| op_heartbeat: "node_op env n (snd (sched_heartbeat env w lids n))"
| op_grant: "node_op env n (snd (grant_evidence_share env g n))"
| op_enqueue: "valid_request r \<Longrightarrow> node_op env n (snd (enqueue env r n))"
| op_claim: "node_op env n (snd (claim env w limit n))"
| op_complete: "node_op env n (snd (complete_lease env lid res n))"
| op_complete_locked: "node_op env n (snd (complete_locked env lid res n))"
| op_audit_failure: "node_op env n (snd (record_audit_failure env c k f n))"
| op_cancel: "node_op env n (snd (cancel_job env j n))"
| op_request_cancel: "node_op env n (snd (request_cancel env j n))"
| op_acknowledge: "confirms_current (nd_sched n) j a \<Longrightarrow> node_op env n (snd (acknowledge_cancel env j a n))"
| op_seal: "node_op env n (snd (seal_active_jobs env js n))"
| op_reconcile: "node_op env n (snd (reconcile env t n))"
| op_wave: "node_op env n (snd (claim_dispatch_wave env n))"
| op_summaries: "node_op env n (snd (audit_final_summaries env n))"

lemmas operation_runs =
  runs_configure runs_bind_plan runs_register runs_heartbeat runs_grant runs_enqueue runs_claim
  runs_complete runs_complete_locked runs_cancel runs_request_cancel runs_acknowledge runs_seal_active
  runs_reconcile runs_dispatch_wave runs_final_summaries

text \<open>Refinement: every operation of the code is a path of the event machine.\<close>

lemma runs_atD: "runs_at env n m \<Longrightarrow> tracked (view n) \<Longrightarrow> fresh_log (snd (m n)) \<Longrightarrow> (logged env)\<^sup>*\<^sup>* (view n) (view (snd (m n)))"
  by (simp add: runs_at_def)

lemma runs_audit_failure: "runs_at env n (record_audit_failure env c k f)"
  by (simp add: record_audit_failure_def runs_record_free)

lemma node_op_path:
  assumes "node_op env n n'" and "tracked (view n)" and "fresh_log n'"
  shows "(logged env)\<^sup>*\<^sup>* (view n) (view n')"
  using assms by (cases rule: node_op.cases) (auto intro: runs_atD operation_runs runs_audit_failure)

end
