(* ===== verification/Sched_Jobs.thy ===== *)
theory Sched_Jobs
  imports Sched_Operations
begin

text \<open>
  The jobs of a scheduler, seen as independent state machines: of every job only its request, its
  status, its attempts and its scored result. Applying an event to the scheduler is, under this
  abstraction, a step of one job's machine. Job-level properties are proved on the machine.
\<close>

subsection \<open>The abstract machine of one job\<close>

record 'f job_core =
  jc_request :: "'f job_request"
  jc_status :: job_status
  jc_attempts :: int
  jc_result :: "'f job_result option"

definition job_core_of :: "'f job_state \<Rightarrow> 'f job_core" where
  "job_core_of st = \<lparr>jc_request = js_request st, jc_status = js_status st, jc_attempts = js_attempts st, jc_result = js_result st\<rparr>"

fun event_job :: "'f sched_event \<Rightarrow> string option" where
  "event_job (JobLeased l b) = Some (le_job l)"
| "event_job (JobBudgetExhausted j) = Some j"
| "event_job (JobCancelRequested j lid) = Some j"
| "event_job (JobCanceledLate j lid x) = Some j"
| "event_job (JobRequeued j lid reason x p) = Some j"
| "event_job (JobLeaseFailed j lid reason x p) = Some j"
| "event_job (JobCanceled j reason x p) = Some j"
| "event_job (JobFinished j lid x) = Some j"
| "event_job _ = None"

fun core_step :: "'f sched_event \<Rightarrow> 'f job_core \<Rightarrow> 'f job_core" where
  "core_step (JobLeased l b) c = c\<lparr>jc_status := Leased, jc_attempts := le_attempt l\<rparr>"
| "core_step (JobBudgetExhausted j) c = c\<lparr>jc_status := BudgetExhausted\<rparr>"
| "core_step (JobCancelRequested j lid) c = c\<lparr>jc_status := Canceling\<rparr>"
| "core_step (JobCanceledLate j lid x) c = c\<lparr>jc_status := Canceled\<rparr>"
| "core_step (JobRequeued j lid reason x p) c = c\<lparr>jc_status := Queued\<rparr>"
| "core_step (JobLeaseFailed j lid reason x p) c = c\<lparr>jc_status := InfrastructureFailed, jc_result := x\<rparr>"
| "core_step (JobCanceled j reason x p) c = c\<lparr>jc_status := Canceled\<rparr>"
| "core_step (JobFinished j lid x) c = c\<lparr>jc_status := status_by_outcome (jx_outcome x), jc_result := Some x\<rparr>"
| "core_step _ c = c"

definition jobs_abs :: "'f sched \<Rightarrow> string \<Rightarrow> 'f job_core option" where
  "jobs_abs s j = map_option job_core_of (map_of (sc_jobs s) j)"

definition abs_step :: "'f sched_event \<Rightarrow> (string \<Rightarrow> 'f job_core option) \<Rightarrow> string \<Rightarrow> 'f job_core option" where
  "abs_step ev m = (case ev of
       JobEnqueued r \<Rightarrow> m(jr_id r \<mapsto> job_core_of (new_job r))
     | _ \<Rightarrow> (case event_job ev of
           Some j \<Rightarrow> m(j := map_option (core_step ev) (m j))
         | None \<Rightarrow> m))"

subsection \<open>Accounting leaves the jobs alone\<close>

definition has_jobs :: "(string \<times> 'f job_state) list \<Rightarrow> 'f sched \<Rightarrow> bool" where
  "has_jobs J s \<longleftrightarrow> sc_jobs s = J"

lemma has_jobs_on_worker [keeps_intros]: "keeps (has_jobs J) (on_worker w f)"
  by (auto simp: keeps_def has_jobs_def on_worker_def split: option.split)

lemma has_jobs_modify [keeps_intros]: "(\<And>s. sc_jobs (f s) = sc_jobs s) \<Longrightarrow> keeps (has_jobs J) (modify f)"
  by (auto simp: keeps_def has_jobs_def)

lemma has_jobs_account [keeps_intros]: "keeps (has_jobs J) (account_result r w x failed)"
  unfolding account_result_def record_cleanup_def by (intro keeps_intros) (simp_all add: consume_def)

lemma has_jobs_bill [keeps_intros]: "keeps (has_jobs J) (bill_late r w x p)"
  unfolding bill_late_def replace_accounted_result_def Let_def by (intro keeps_intros) simp

lemma has_jobs_settle [keeps_intros]: "keeps (has_jobs J) (settle_lease lid r w x p)"
  unfolding settle_lease_def by (intro keeps_intros) (simp_all add: note_result_def note_provisional_def)

lemma jobs_kept: "keeps (has_jobs J) m \<Longrightarrow> sc_jobs s = J \<Longrightarrow> m s = (x, s') \<Longrightarrow> sc_jobs s' = J"
  by (drule keepsD [of _ _ s]) (simp_all add: has_jobs_def)

lemma settle_jobs: "settle_lease lid r w x p s = (Inr (), s') \<Longrightarrow> sc_jobs s' = sc_jobs s"
  by (rule jobs_kept [OF has_jobs_settle refl])

lemma account_jobs: "account_result r w x f s = (Inr (), s') \<Longrightarrow> sc_jobs s' = sc_jobs s"
  by (rule jobs_kept [OF has_jobs_account refl])

lemma bill_jobs: "bill_late r w x p s = (Inr (), s') \<Longrightarrow> sc_jobs s' = sc_jobs s"
  by (rule jobs_kept [OF has_jobs_bill refl])

subsection \<open>The refinement\<close>

text \<open>A table of jobs in which only the job \<open>j\<close> differs.\<close>

lemma abs_put:
  assumes "map_of (sc_jobs s) j = Some st" and "map_of (sc_jobs s') = (map_of (sc_jobs s))(j \<mapsto> st')"
  shows "jobs_abs s' = (jobs_abs s)(j := Some (job_core_of st'))"
  using assms by (auto simp: jobs_abs_def fun_eq_iff)

lemma release_jobs:
  "map_of (sc_jobs s) j = Some st \<Longrightarrow>
   map_of (sc_jobs (release_lease j st s)) = (map_of (sc_jobs s))(j \<mapsto> st\<lparr>js_lease := None\<rparr>)"
proof (cases "js_lease st")
  case None
  then have "st\<lparr>js_lease := None\<rparr> = st" by simp
  moreover assume "map_of (sc_jobs s) j = Some st"
  ultimately show ?thesis using None by (auto simp: release_lease_def fun_eq_iff)
qed (simp add: release_lease_def put_job_def unreserve_def)

lemma modify_jobs:
  "map_of (sc_jobs s) j = Some st \<Longrightarrow> map_of (sc_jobs (modify_job j f s)) = (map_of (sc_jobs s))(j \<mapsto> f st)"
  by (simp add: modify_job_def put_job_def)

lemma requeued_abs:
  assumes "apply_requeued j lid reason x p s = (Inr (), s')"
  shows "\<exists>st. map_of (sc_jobs s) j = Some st \<and>
    map_of (sc_jobs s') = (map_of (sc_jobs s))(j \<mapsto> st\<lparr>js_lease := None, js_status := Queued, js_error := reason\<rparr>)"
proof -
  obtain st where st: "map_of (sc_jobs s) j = Some st" using assms by (auto simp: apply_requeued_def with_job_def split: option.splits)
  let ?s = "release_lease j st s" and ?f = "\<lambda>st. st\<lparr>js_status := Queued, js_error := reason\<rparr>"
  let ?old = "x = None \<and> reason = ''lease_expired''"
  let ?x = "if ?old then Some (provisional_expired_lease_result (js_request st) (js_lease st)) else x"
  have "bind (case ?x of None \<Rightarrow> ret () | Some x \<Rightarrow> settle_lease lid (js_request st) (lease_worker st) x (?old \<or> p))
      (\<lambda>_. modify (\<lambda>s. (modify_job j ?f s)\<lparr>sc_retries := Suc (sc_retries s)\<rparr>)) ?s = (Inr (), s')"
    using assms st by (simp add: apply_requeued_def with_job_def Let_def)
  then obtain s2 where m: "(case ?x of None \<Rightarrow> ret () | Some x \<Rightarrow> settle_lease lid (js_request st) (lease_worker st) x (?old \<or> p)) ?s = (Inr (), s2)"
    and s': "s' = (modify_job j ?f s2)\<lparr>sc_retries := Suc (sc_retries s2)\<rparr>"
    by (rule bind_InrE) simp
  have s2: "sc_jobs s2 = sc_jobs ?s" using m by (cases ?x) (simp_all only: option.case ret_run prod.inject settle_jobs)
  have "map_of (sc_jobs s2) j = Some (st\<lparr>js_lease := None\<rparr>)" using release_jobs [OF st] s2 by simp
  from modify_jobs [OF this, of ?f] s' release_jobs [OF st] s2 st show ?thesis by simp
qed

lemma lease_failed_abs:
  assumes "apply_lease_failed j lid (Some x) p s = (Inr (), s')"
  shows "\<exists>st. map_of (sc_jobs s) j = Some st \<and>
    map_of (sc_jobs s') = (map_of (sc_jobs s))(j \<mapsto> st\<lparr>js_lease := None, js_status := InfrastructureFailed, js_result := Some x\<rparr>)"
proof -
  obtain st where st: "map_of (sc_jobs s) j = Some st" using assms by (auto simp: apply_lease_failed_def with_job_def split: option.splits)
  let ?s = "modify_job j (\<lambda>st. st\<lparr>js_status := InfrastructureFailed, js_result := Some x\<rparr>) (release_lease j st s)"
  from assms st have "sc_jobs s' = sc_jobs ?s"
    by (auto simp: apply_lease_failed_def with_job_def Let_def dest: settle_jobs)
  with modify_jobs [of "release_lease j st s" j "st\<lparr>js_lease := None\<rparr>"] release_jobs [OF st] st show ?thesis by simp
qed

lemma finished_abs:
  assumes "apply_finished j lid x s = (Inr (), s')"
  shows "\<exists>st. map_of (sc_jobs s) j = Some st \<and>
    map_of (sc_jobs s') = (map_of (sc_jobs s))(j \<mapsto> st\<lparr>js_lease := None, js_result := Some x,
      js_status := status_by_outcome (jx_outcome x)\<rparr>)"
proof -
  obtain st where st: "map_of (sc_jobs s) j = Some st" using assms by (auto simp: apply_finished_def with_job_def split: option.splits)
  let ?n = "note_result lid s"
  have n: "sc_jobs ?n = sc_jobs s" by (simp add: note_result_def)
  let ?s = "modify_job j (\<lambda>st. st\<lparr>js_result := Some x, js_status := status_by_outcome (jx_outcome x)\<rparr>) (release_lease j st ?n)"
  from assms st have "sc_jobs s' = sc_jobs ?s"
    by (auto simp: apply_finished_def with_job_def dest: account_jobs)
  with modify_jobs [of "release_lease j st ?n" j "st\<lparr>js_lease := None\<rparr>"] release_jobs [of ?n j st] st n show ?thesis by simp
qed

lemma canceled_abs:
  assumes "apply_canceled j x p s = (Inr (), s')"
  shows "\<exists>st y. map_of (sc_jobs s) j = Some st \<and>
    map_of (sc_jobs s') = (map_of (sc_jobs s))(j \<mapsto> st\<lparr>js_lease := None, js_accounting := y, js_status := Canceled\<rparr>)"
proof -
  obtain st where st: "map_of (sc_jobs s) j = Some st" using assms by (auto simp: apply_canceled_def with_job_def split: option.splits)
  let ?s = "release_lease j st s" and ?g = "\<lambda>st. st\<lparr>js_status := Canceled\<rparr>"
  have r: "map_of (sc_jobs ?s) = (map_of (sc_jobs s))(j \<mapsto> st\<lparr>js_lease := None\<rparr>)" by (rule release_jobs [OF st])
  show ?thesis
  proof (cases x)
    case None
    with assms st have "s' = modify_job j ?g ?s" by (simp add: apply_canceled_def with_job_def)
    with modify_jobs [of ?s j "st\<lparr>js_lease := None\<rparr>"] r have
      "map_of (sc_jobs s') = (map_of (sc_jobs s))(j \<mapsto> (st\<lparr>js_lease := None\<rparr>)\<lparr>js_status := Canceled\<rparr>)" by simp
    then show ?thesis using st by (intro exI [of _ st] exI [of _ "js_accounting st"]) simp
  next
    case (Some q)
    obtain lid y where q: "q = (lid, y)" by (cases q)
    from assms st Some q obtain s2 where "settle_lease lid (js_request st) (lease_worker st) y p ?s = (Inr (), s2)"
      and s': "s' = modify_job j ?g (modify_job j (\<lambda>st. st\<lparr>js_accounting := Some y\<rparr>) s2)"
      by (auto simp: apply_canceled_def with_job_def elim!: bind_InrE)
    then have "sc_jobs s2 = sc_jobs ?s" by (auto dest: settle_jobs)
    then have 1: "map_of (sc_jobs (modify_job j (\<lambda>st. st\<lparr>js_accounting := Some y\<rparr>) s2)) =
        (map_of (sc_jobs s))(j \<mapsto> st\<lparr>js_lease := None, js_accounting := Some y\<rparr>)"
      using modify_jobs [of s2 j "st\<lparr>js_lease := None\<rparr>"] r by simp
    from modify_jobs [of "modify_job j (\<lambda>st. st\<lparr>js_accounting := Some y\<rparr>) s2" j "st\<lparr>js_lease := None, js_accounting := Some y\<rparr>" ?g] 1 s'
    show ?thesis using st by auto
  qed
qed

lemma late_abs:
  assumes "apply_late cancel j lid x s = (Inr (), s')"
  shows "\<exists>st l. map_of (sc_jobs s) j = Some st \<and> map_of (sc_jobs s') = (map_of (sc_jobs s))(j \<mapsto>
      st\<lparr>js_lease := l, js_status := (if cancel then Canceled else js_status st), js_late := Some x, js_accounting := Some x\<rparr>)"
proof -
  obtain st where st: "map_of (sc_jobs s) j = Some st" using assms by (auto simp: apply_late_def with_job_def split: option.splits)
  let ?s = "if has_lease lid st then release_lease j st s else s"
  let ?l = "if has_lease lid st then None else js_lease st"
  have r: "map_of (sc_jobs ?s) = (map_of (sc_jobs s))(j \<mapsto> st\<lparr>js_lease := ?l\<rparr>)"
    using release_jobs [OF st] st by (auto simp: fun_eq_iff)
  from assms st obtain s2 where "bill_late (js_request st) (case map_of (sc_records s) lid of Some l \<Rightarrow> le_worker l | None \<Rightarrow> [])
      x (map_of (sc_provisional s) lid) (book_late cancel j lid x ?s) = (Inr (), s2)" and "s' = s2\<lparr>sc_late := Suc (sc_late s2)\<rparr>"
    by (auto simp: apply_late_def with_job_def Let_def elim!: bind_InrE)
  then have "sc_jobs s' = sc_jobs (book_late cancel j lid x ?s)" by (simp add: bill_jobs)
  also have "\<dots> = sc_jobs (modify_job j (\<lambda>st. st\<lparr>js_status := (if cancel then Canceled else js_status st),
     js_late := Some x, js_accounting := Some x\<rparr>) ?s)" by (rule book_late_fields)
  finally have "map_of (sc_jobs s') = (map_of (sc_jobs s))(j \<mapsto> (st\<lparr>js_lease := ?l\<rparr>)\<lparr>js_status := (if cancel then Canceled else js_status st),
     js_late := Some x, js_accounting := Some x\<rparr>)"
    using modify_jobs [of ?s j "st\<lparr>js_lease := ?l\<rparr>"] r by simp
  then show ?thesis using st by (intro exI [of _ st] exI [of _ ?l]) simp
qed

text \<open>A heartbeat extends leases, which the abstract machine does not see.\<close>

lemma put_core_same:
  "map_of (sc_jobs s) j = Some st \<Longrightarrow> job_core_of st' = job_core_of st \<Longrightarrow> jobs_abs (put_job j st' s) = jobs_abs s"
  by (auto simp: jobs_abs_def put_job_def fun_eq_iff)

lemma core_extend [keeps_intros]: "keeps (\<lambda>s. jobs_abs s = M) (extend_lease x lid)"
  by (rule keepsI)
     (auto simp: extend_lease_def with_job_def put_core_same job_core_of_def split: option.split)

lemma heartbeat_jobs: "apply_heartbeat w t lids x s = (r, s') \<Longrightarrow> jobs_abs s' = jobs_abs s"
proof -
  have "keeps (\<lambda>s. jobs_abs s = jobs_abs s0) (on_worker w f)" for s0 f
    by (auto simp: keeps_def jobs_abs_def on_worker_def fun_eq_iff split: option.split)
  then have "keeps (\<lambda>s1. jobs_abs s1 = jobs_abs s) (apply_heartbeat w t lids x)"
    unfolding apply_heartbeat_def by (intro keeps_intros)
  from keepsD [OF this, of s] show "apply_heartbeat w t lids x s = (r, s') \<Longrightarrow> jobs_abs s' = jobs_abs s" by simp
qed

text \<open>An event of the job \<open>j\<close>, from the table it leaves behind.\<close>

lemma abs_stepI:
  assumes "event_job ev = Some j" and "\<And>r. ev \<noteq> JobEnqueued r"
    and "map_of (sc_jobs s) j = Some st" and "map_of (sc_jobs s') = (map_of (sc_jobs s))(j \<mapsto> st')"
    and "job_core_of st' = core_step ev (job_core_of st)"
  shows "jobs_abs s' = abs_step ev (jobs_abs s)"
proof -
  have "abs_step ev m = m(j := map_option (core_step ev) (m j))" for m :: "string \<Rightarrow> 'a job_core option"
    using assms(1,2) by (cases ev) (simp_all add: abs_step_def)
  with abs_put [OF assms(3,4)] assms(3,5) show ?thesis by (simp add: jobs_abs_def)
qed

lemma set_status_table:
  "set_status_of x j s = (Inr (), s') \<Longrightarrow> \<exists>st. map_of (sc_jobs s) j = Some st \<and>
     map_of (sc_jobs s') = (map_of (sc_jobs s))(j \<mapsto> st\<lparr>js_status := x\<rparr>)"
  by (auto simp: set_status_of_def with_job_def put_job_def split: option.splits)

lemma leased_table:
  "apply_leased l s = (Inr (), s') \<Longrightarrow> \<exists>st. map_of (sc_jobs s) (le_job l) = Some st \<and>
     map_of (sc_jobs s') = (map_of (sc_jobs s))(le_job l \<mapsto> st\<lparr>js_status := Leased, js_attempts := le_attempt l, js_lease := Some l\<rparr>)"
  by (auto simp: apply_leased_def with_job_def put_job_def register_lease_def reserve_def split: option.splits)

lemma no_job_event:
  "sc_jobs s' = sc_jobs s \<Longrightarrow> jobs_abs s' = jobs_abs s"
  by (simp add: jobs_abs_def fun_eq_iff)

lemma reduce_abs:
  assumes "reduce_event d ev s = (Inr (), s')" and "admissible env ev s"
  shows "jobs_abs s' = abs_step ev (jobs_abs s)"
proof (cases ev)
  case (JobEnqueued r)
  with assms(1) have "map_of (sc_jobs s') = (map_of (sc_jobs s))(jr_id r \<mapsto> new_job r)"
    by (auto simp: apply_enqueued_def split: if_splits)
  with JobEnqueued show ?thesis by (auto simp: abs_step_def jobs_abs_def fun_eq_iff)
next
  case (JobLeased l b)
  with leased_table [of l s s'] assms(1) obtain st where st: "map_of (sc_jobs s) (le_job l) = Some st"
    and s': "map_of (sc_jobs s') = (map_of (sc_jobs s))(le_job l \<mapsto> st\<lparr>js_status := Leased, js_attempts := le_attempt l, js_lease := Some l\<rparr>)"
    by auto
  show ?thesis by (rule abs_stepI [OF _ _ st s']) (simp_all add: JobLeased job_core_of_def)
next
  case (JobBudgetExhausted j)
  with set_status_table [of BudgetExhausted j s s'] assms(1) obtain st where st: "map_of (sc_jobs s) j = Some st"
    and s': "map_of (sc_jobs s') = (map_of (sc_jobs s))(j \<mapsto> st\<lparr>js_status := BudgetExhausted\<rparr>)" by auto
  show ?thesis by (rule abs_stepI [OF _ _ st s']) (simp_all add: JobBudgetExhausted job_core_of_def)
next
  case (JobCancelRequested j lid)
  with set_status_table [of Canceling j s s'] assms(1) obtain st where st: "map_of (sc_jobs s) j = Some st"
    and s': "map_of (sc_jobs s') = (map_of (sc_jobs s))(j \<mapsto> st\<lparr>js_status := Canceling\<rparr>)" by auto
  show ?thesis by (rule abs_stepI [OF _ _ st s']) (simp_all add: JobCancelRequested job_core_of_def)
next
  case (JobCanceledLate j lid x)
  with late_abs [of True j lid x s s'] assms(1) obtain st l where st: "map_of (sc_jobs s) j = Some st"
    and s': "map_of (sc_jobs s') = (map_of (sc_jobs s))(j \<mapsto> st\<lparr>js_lease := l, js_status := Canceled, js_late := Some x, js_accounting := Some x\<rparr>)" by auto
  show ?thesis by (rule abs_stepI [OF _ _ st s']) (simp_all add: JobCanceledLate job_core_of_def)
next
  case (JobStaleCompleted j lid x)
  with late_abs [of False j lid x s s'] assms(1) obtain st l where st: "map_of (sc_jobs s) j = Some st"
    and s': "map_of (sc_jobs s') = (map_of (sc_jobs s))(j \<mapsto> st\<lparr>js_lease := l, js_late := Some x, js_accounting := Some x\<rparr>)"
    by auto
  from abs_put [OF st s'] st JobStaleCompleted show ?thesis
    by (simp add: abs_step_def jobs_abs_def job_core_of_def fun_eq_iff)
next
  case (JobRequeued j lid reason x p)
  with requeued_abs [of j lid reason x p s s'] assms(1) obtain st where st: "map_of (sc_jobs s) j = Some st"
    and s': "map_of (sc_jobs s') = (map_of (sc_jobs s))(j \<mapsto> st\<lparr>js_lease := None, js_status := Queued, js_error := reason\<rparr>)" by auto
  show ?thesis by (rule abs_stepI [OF _ _ st s']) (simp_all add: JobRequeued job_core_of_def)
next
  case (JobLeaseFailed j lid reason x p)
  with assms(2) obtain y where "x = Some y" by auto
  with JobLeaseFailed lease_failed_abs [of j lid y p s s'] assms(1) obtain st where st: "map_of (sc_jobs s) j = Some st"
    and s': "map_of (sc_jobs s') = (map_of (sc_jobs s))(j \<mapsto> st\<lparr>js_lease := None, js_status := InfrastructureFailed, js_result := Some y\<rparr>)" by auto
  show ?thesis by (rule abs_stepI [OF _ _ st s']) (simp_all add: JobLeaseFailed \<open>x = Some y\<close> job_core_of_def)
next
  case (JobCanceled j reason x p)
  with canceled_abs [of j x p s s'] assms(1) obtain st l where st: "map_of (sc_jobs s) j = Some st"
    and s': "map_of (sc_jobs s') = (map_of (sc_jobs s))(j \<mapsto> st\<lparr>js_lease := None, js_accounting := l, js_status := Canceled\<rparr>)" by auto
  show ?thesis by (rule abs_stepI [OF _ _ st s']) (simp_all add: JobCanceled job_core_of_def)
next
  case (JobFinished j lid x)
  with finished_abs [of j lid x s s'] assms(1) obtain st where st: "map_of (sc_jobs s) j = Some st"
    and s': "map_of (sc_jobs s') = (map_of (sc_jobs s))(j \<mapsto> st\<lparr>js_lease := None, js_result := Some x,
      js_status := status_by_outcome (jx_outcome x)\<rparr>)" by auto
  show ?thesis by (rule abs_stepI [OF _ _ st s']) (simp_all add: JobFinished job_core_of_def)
next
  case (WorkerHeartbeat w t lids x)
  with assms(1) show ?thesis by (simp add: heartbeat_jobs abs_step_def)
qed (use assms(1) in \<open>auto simp: abs_step_def apply_configured_def apply_audit_failed_def
      apply_worker_registered_def apply_evidence_def intro!: no_job_event\<close>)

end
