(* ===== verification/Sched_System.thy ===== *)
theory Sched_System
  imports Sched_Jobs Transition
begin

text \<open>
  Several scheduler processes over one event log. A process starts by replaying the log, acts on
  what it has replayed, and may stop at any time; each operation is one step, and appends to the
  log that all of them share. \<open>cluster_ok\<close> is the invariant from which the run-level properties
  follow: the log is lawful (every record was admissible in the state that the records before it
  reduce to), and every process holds the reduction of a prefix of it.
\<close>

subsection \<open>Lawful logs\<close>

definition replayed :: "'f sched_env \<Rightarrow> 'f log_record list \<Rightarrow> ('f::{linorder,plus,minus,zero}) sched" where
  "replayed env es = snd (replay_log (sv_digest env) es empty_sched)"

definition lawful :: "'f sched_env \<Rightarrow> ('f::{linorder,plus,minus,zero}) log_record list \<Rightarrow> bool" where
  "lawful env es \<longleftrightarrow> (logged env)\<^sup>*\<^sup>* (empty_sched, []) (replayed env es, es)"

lemma replay_append:
  "replay_log d (es @ es') s = bind (replay_log d es) (\<lambda>_. replay_log d es') s"
  by (induction es arbitrary: s) (auto simp: bind_def split: prod.split sum.split)

lemma replayed_Nil [simp]: "replayed env [] = empty_sched"
  by (simp add: replayed_def)

lemma lawful_Nil [simp]: "lawful env []"
  by (simp add: lawful_def)

text \<open>What a path of logged events leaves behind is what a restart would replay.\<close>

definition replays :: "'f sched_env \<Rightarrow> ('f::{linorder,plus,minus,zero}) sched \<times> 'f log_record list \<Rightarrow> bool" where
  "replays env x \<longleftrightarrow> replay_log (sv_digest env) (snd x) empty_sched = (Inr (), fst x) \<and>
     sc_sequence (fst x) = length (snd x) \<and> last_sequence (snd x) = length (snd x) \<and>
     map lr_sequence (snd x) = [1..<Suc (length (snd x))]"

lemma path_replays: "(logged env)\<^sup>*\<^sup>* x y \<Longrightarrow> replays env x \<Longrightarrow> replays env y"
proof (induction rule: rtranclp_induct)
  case (step y z)
  from step.IH [OF step.prems] have y: "replays env y" .
  from step.hyps(2) show ?case
  proof (cases rule: logged.cases)
    case (logged_event e s es s')
    from applied_history [OF logged_event(6)] have "sc_sequence s' = lr_sequence e" by simp
    with logged_event y show ?thesis
      by (simp add: replays_def replay_append last_sequence_def bind_def)
  qed
qed

lemma empty_replays: "replays env (empty_sched, [])"
  by (simp add: replays_def last_sequence_def empty_sched_def)

lemma path_replayed: "(logged env)\<^sup>*\<^sup>* (empty_sched, []) (s, es) \<Longrightarrow> replays env (s, es) \<and> s = replayed env es"
  by (drule path_replays [OF _ empty_replays]) (auto simp: replays_def replayed_def)

lemma lawful_replays: "lawful env es \<Longrightarrow> replays env (replayed env es, es)"
  unfolding lawful_def by (drule path_replayed) simp

lemma lawful_sequence: "lawful env es \<Longrightarrow> sc_sequence (replayed env es) = length es \<and> last_sequence es = length es"
  by (drule lawful_replays) (simp add: replays_def)

lemma lawful_step:
  assumes "lawful env es" and "logged env (replayed env es, es) (s', es')"
  shows "lawful env es' \<and> s' = replayed env es'"
proof -
  from assms have "(logged env)\<^sup>*\<^sup>* (empty_sched, []) (s', es')"
    unfolding lawful_def by (rule rtranclp.rtrancl_into_rtrancl)
  with path_replayed [OF this] show ?thesis by (simp add: lawful_def)
qed

lemma lawful_snoc:
  assumes "lawful env (es @ [e])"
  shows "lawful env es \<and> logged env (replayed env es, es) (replayed env (es @ [e]), es @ [e])"
  using assms [unfolded lawful_def]
proof (cases rule: rtranclp.cases)
  case (rtrancl_into_rtrancl y)
  from rtrancl_into_rtrancl(2) obtain s where y: "y = (s, es)" by (cases rule: logged.cases) auto
  from rtrancl_into_rtrancl(1) have "s = replayed env es" unfolding y by (blast dest: path_replayed)
  with rtrancl_into_rtrancl y show ?thesis by (simp add: lawful_def)
qed simp

lemma lawful_induct [consumes 1, case_names Nil snoc]:
  assumes "lawful env es" and "P []"
    and "\<And>es e. lawful env es \<Longrightarrow> logged env (replayed env es, es) (replayed env (es @ [e]), es @ [e]) \<Longrightarrow> P es \<Longrightarrow> P (es @ [e])"
  shows "P es"
  using assms(1)
  by (induction es rule: rev_induct) (use assms(2,3) in \<open>auto dest: lawful_snoc\<close>)

lemma lawful_take: "lawful env es \<Longrightarrow> lawful env (take k es)"
  by (induction es rule: rev_induct) (auto dest: lawful_snoc simp: take_Cons' split: if_splits)

lemma logged_guard:
  "logged env (s, es) (s', es @ [e]) \<Longrightarrow> admissible env (lr_event e) s \<and>
     apply_scheduler_event (sv_digest env) e s = (Inr (), s')"
  by (auto elim: logged.cases)

lemma lawful_nth:
  assumes "lawful env es" and "k < length es"
  shows "admissible env (lr_event (es ! k)) (replayed env (take k es))"
proof -
  have "lawful env (take k es @ [es ! k])" using lawful_take [OF assms(1), of "Suc k"] assms(2)
    by (simp add: take_Suc_conv_app_nth)
  from lawful_snoc [OF this] show ?thesis by (auto dest: logged_guard)
qed

lemma tracked_empty: "tracked (empty_sched, [])"
  by (simp add: tracked_def empty_sched_def sched_ok_def jobs_ok_def leases_ok_def history_ok_def holds_def active_at_def)

lemma lawful_tracked: "lawful env es \<Longrightarrow> tracked (replayed env es, es)"
  unfolding lawful_def by (rule logged_path_tracked [OF _ tracked_empty])

lemma lawful_ok: "lawful env es \<Longrightarrow> sched_ok (replayed env es)"
  by (drule lawful_tracked) (simp add: tracked_def)

subsection \<open>Processes\<close>

record 'f cluster =
  cl_log :: "'f log_record list"
  cl_nodes :: "string \<Rightarrow> 'f node option"

definition cluster_start :: "'f cluster \<Rightarrow> bool" where
  "cluster_start c \<longleftrightarrow> cl_log c = [] \<and> cl_nodes c = Map.empty"

inductive cluster_step :: "'f sched_env \<Rightarrow> ('f::{linorder,plus,minus,zero}) cluster \<Rightarrow> 'f cluster \<Rightarrow> bool" for env where
  step_start: "new_node env (cl_log c) d k ids clk = Inr n \<Longrightarrow>
     cluster_step env c (c\<lparr>cl_nodes := (cl_nodes c)(p \<mapsto> n)\<rparr>)"
| step_act: "cl_nodes c p = Some n \<Longrightarrow> node_op env (n\<lparr>nd_log := cl_log c\<rparr>) n' \<Longrightarrow>
     cluster_step env c (c\<lparr>cl_log := nd_log n', cl_nodes := (cl_nodes c)(p \<mapsto> n')\<rparr>)"
| step_stop: "cluster_step env c (c\<lparr>cl_nodes := (cl_nodes c)(p := None)\<rparr>)"

text \<open>The identifiers drawn for leases differ.\<close>

definition fresh_leases :: "'f cluster \<Rightarrow> bool" where
  "fresh_leases c \<longleftrightarrow> distinct (granted (cl_log c))"

definition follows :: "'f sched_env \<Rightarrow> ('f::{linorder,plus,minus,zero}) log_record list \<Rightarrow> 'f sched \<Rightarrow> bool" where
  "follows env es s \<longleftrightarrow> sc_sequence s \<le> length es \<and> s = replayed env (take (sc_sequence s) es)"

definition cluster_ok :: "'f sched_env \<Rightarrow> ('f::{linorder,plus,minus,zero}) cluster \<Rightarrow> bool" where
  "cluster_ok env c \<longleftrightarrow> lawful env (cl_log c) \<and> (\<forall>p n. cl_nodes c p = Some n \<longrightarrow> follows env (cl_log c) (nd_sched n))"

lemma path_follows:
  assumes "(logged env)\<^sup>*\<^sup>* x y" and "lawful env (snd x)" and "follows env (snd x) (fst x)"
  shows "lawful env (snd y) \<and> follows env (snd y) (fst y) \<and> prefix (snd x) (snd y)"
  using assms
proof (induction rule: rtranclp_induct)
  case (step y z)
  then have y: "lawful env (snd y)" "follows env (snd y) (fst y)" "prefix (snd x) (snd y)" by blast+
  from step.hyps(2) show ?case
  proof (cases rule: logged.cases)
    case (logged_event e s es s')
    with y have "s = replayed env es" by (simp add: follows_def lawful_sequence)
    with lawful_step [of env es s' "es @ [e]"] logged_event y step.hyps(2)
    have l: "lawful env (es @ [e])" "s' = replayed env (es @ [e])" by auto
    moreover have "prefix (snd x) (es @ [e])" using y(3) logged_event(1) by simp
    ultimately show ?thesis using lawful_sequence [OF l(1)] logged_event(2) by (simp add: follows_def)
  qed
qed simp

lemma follows_prefix: "follows env es s \<Longrightarrow> prefix es es' \<Longrightarrow> follows env es' s"
  by (auto simp: follows_def prefix_def)

lemma granted_take: "set (granted (take k es)) \<subseteq> set (granted es)"
  by (metis append_take_drop_id granted_simps(2) set_append Un_upper1)

lemma follows_tracked:
  assumes "lawful env es" and "follows env es s"
  shows "tracked (s, es)"
  using lawful_tracked [OF lawful_take [OF assms(1)], of "sc_sequence s"] assms(2) granted_take [of "sc_sequence s" es]
  by (auto simp: follows_def tracked_def)

lemma grows_configure [grows_intros]: "grows (configure_campaign env c b br)"
  unfolding configure_campaign_def by (intro grows_intros)

lemma grows_bind_plan [grows_intros]: "grows (bind_runtime_plan env c fp)"
  unfolding bind_runtime_plan_def by (intro grows_intros)

lemma grows_register [grows_intros]: "grows (register_worker env d x)"
  unfolding register_worker_def by (intro grows_intros) simp

lemma grows_grant [grows_intros]: "grows (grant_evidence_share env g)"
  unfolding grant_evidence_share_def by (intro grows_intros)

lemma grows_enqueue [grows_intros]: "grows (enqueue env r)"
  unfolding enqueue_def by (intro grows_intros)

lemma grows_historical [grows_intros]: "grows (complete_historical env lid x)"
  unfolding complete_historical_def by (intro grows_intros)

lemma grows_complete_locked [grows_intros]: "grows (complete_locked env lid x)"
  unfolding complete_locked_def by (intro grows_intros)

lemma grows_complete [grows_intros]: "grows (complete_lease env lid x)"
  unfolding complete_lease_def by (intro grows_intros)

lemma grows_audit_failure [grows_intros]: "grows (record_audit_failure env c k f)"
  unfolding record_audit_failure_def by (intro grows_intros)

lemma grows_request_cancel [grows_intros]: "grows (request_cancel env j)"
  unfolding request_cancel_def by (intro grows_intros)

lemma grows_cancel [grows_intros]: "grows (cancel_job env j)"
  unfolding cancel_job_def by (intro grows_intros)

lemma grows_seal_active [grows_intros]: "grows (seal_active_jobs env js)"
  unfolding seal_active_jobs_def by (intro grows_intros)

lemma grows_reconcile [grows_intros]: "grows (reconcile env t)"
  unfolding reconcile_def by (intro grows_intros)

lemma grows_wave [grows_intros]: "grows (claim_dispatch_wave env)"
  unfolding claim_dispatch_wave_def by (intro grows_intros)

lemma grows_summaries [grows_intros]: "grows (audit_final_summaries env)"
  unfolding audit_final_summaries_def by (intro grows_intros)

lemma node_op_grows: "node_op env n n' \<Longrightarrow> prefix (nd_log n) (nd_log n')"
  by (cases rule: node_op.cases) (auto intro: growsD grows_intros)

lemma act_follows:
  assumes "cluster_ok env c" and "cl_nodes c p = Some n" and "node_op env (n\<lparr>nd_log := cl_log c\<rparr>) n'"
    and "distinct (granted (nd_log n'))"
  shows "lawful env (nd_log n') \<and> follows env (nd_log n') (nd_sched n') \<and> prefix (cl_log c) (nd_log n')"
proof -
  from assms(1,2) have l: "lawful env (cl_log c)" and f: "follows env (cl_log c) (nd_sched n)"
    by (auto simp: cluster_ok_def)
  from node_op_path [OF assms(3)] follows_tracked [OF l f] assms(4)
  have "(logged env)\<^sup>*\<^sup>* (nd_sched n, cl_log c) (nd_sched n', nd_log n')"
    by (simp add: view_def fresh_log_def)
  from path_follows [OF this] l f show ?thesis by simp
qed

lemma start_follows:
  assumes "lawful env es" and "new_node env es d k ids clk = Inr n"
  shows "follows env es (nd_sched n)"
  using assms lawful_replays [OF assms(1)]
  by (auto simp: new_node_def follows_def replays_def split: if_splits prod.splits sum.splits)

interpretation cl: invariant_system cluster_start "cluster_step env" fresh_leases "cluster_ok env" for env
proof unfold_locales
  show "cluster_ok env c" if "cluster_start c" for c
    using that by (simp add: cluster_ok_def cluster_start_def)
  show "fresh_leases c" if "cluster_step env c c'" "fresh_leases c'" for c c'
    using that
  proof (cases rule: cluster_step.cases)
    case (step_act p n n')
    with that(2) node_op_grows [OF step_act(3)] show ?thesis by (auto simp: fresh_leases_def prefix_def)
  qed (simp_all add: fresh_leases_def)
  show "cluster_ok env c'" if ok: "cluster_ok env c" and fresh: "fresh_leases c'" and step: "cluster_step env c c'" for c c'
    using step
  proof (cases rule: cluster_step.cases)
    case (step_start d k ids clk n p)
    with ok start_follows [of env "cl_log c" d k ids clk n] show ?thesis by (simp add: cluster_ok_def)
  next
    case (step_act p n n')
    from act_follows [OF ok step_act(2,3)] fresh step_act(1)
    have "lawful env (nd_log n')" "follows env (nd_log n') (nd_sched n')" "prefix (cl_log c) (nd_log n')"
      by (simp_all add: fresh_leases_def)
    with ok step_act(1) show ?thesis by (auto simp: cluster_ok_def intro: follows_prefix)
  next
    case (step_stop p)
    with ok show ?thesis by (simp add: cluster_ok_def)
  qed
qed

abbreviation reachable_cluster :: "'f sched_env \<Rightarrow> ('f::{linorder,plus,minus,zero}) cluster \<Rightarrow> bool" where
  "reachable_cluster env \<equiv> reach cluster_start (cluster_step env)"

lemma reachable_lawful: "reachable_cluster env c \<Longrightarrow> fresh_leases c \<Longrightarrow> lawful env (cl_log c)"
  using cl.reach_inv [of env c] by (simp add: cluster_ok_def)

end
