(* ===== verification/Sched_Ledger.thy ===== *)
theory Sched_Ledger
  imports Sched_System
begin

text \<open>
  The reservation ledger. The code keeps, per campaign and per branch, a running total that it
  raises when a lease is granted and lowers when the lease ends. The reference definition adds the
  reservations of the jobs that hold a lease; on the integer dimensions of a budget the two
  agree in every state that a log reduces to. (On the others the code adds doubles.)
\<close>

subsection \<open>The reference definition\<close>

definition lease_load :: "('f sched_budget \<Rightarrow> int) \<Rightarrow> ('f job_request \<Rightarrow> 'k) \<Rightarrow> 'k \<Rightarrow> 'f job_state \<Rightarrow> int" where
  "lease_load d key k st =
     (if js_lease st \<noteq> None \<and> key (js_request st) = k then d (jr_reservation (js_request st)) else 0)"

definition in_flight :: "('f sched_budget \<Rightarrow> int) \<Rightarrow> ('f job_request \<Rightarrow> 'k) \<Rightarrow> 'k \<Rightarrow> 'f sched \<Rightarrow> int" where
  "in_flight d key k s = (\<Sum>p \<leftarrow> sc_jobs s. lease_load d key k (snd p))"

definition whole_dims :: "('f sched_budget \<Rightarrow> int) set" where
  "whole_dims = {sb_tokens, sb_jobs, sb_shared}"

definition reserved_exact :: "('f::zero) sched \<Rightarrow> bool" where
  "reserved_exact s \<longleftrightarrow> (\<forall>d\<in>whole_dims.
     (\<forall>c. d (budget_at c (sc_reserved s)) = in_flight d jr_campaign c s) \<and>
     (\<forall>b. d (budget_at b (sc_branch_reserved s)) = in_flight d job_branch b s))"

text \<open>What the ledger's own steps need of the jobs, in the middle of an event too.\<close>

definition books_ok :: "('f::{linorder,zero}) sched \<Rightarrow> bool" where
  "books_ok s \<longleftrightarrow> distinct (map fst (sc_jobs s)) \<and>
     (\<forall>st \<in> snd ` set (sc_jobs s). sound_budget (jr_reservation (js_request st))) \<and> reserved_exact s"

subsection \<open>Arithmetic\<close>

lemma sum_update:
  fixes f :: "'v \<Rightarrow> int"
  assumes "distinct (map fst xs)"
  shows "(\<Sum>p \<leftarrow> AList.update j v xs. f (snd p)) =
     (\<Sum>p \<leftarrow> xs. f (snd p)) - (case map_of xs j of None \<Rightarrow> 0 | Some u \<Rightarrow> f u) + f v"
  using assms by (induction xs) (auto split: option.split simp: map_of_eq_None_iff)

lemma in_flight_put:
  assumes "distinct (map fst (sc_jobs s))"
  shows "in_flight d key k (put_job j st' s) =
     in_flight d key k s - (case map_of (sc_jobs s) j of None \<Rightarrow> 0 | Some st \<Rightarrow> lease_load d key k st) + lease_load d key k st'"
  using sum_update [OF assms, of "lease_load d key k" j st'] by (simp add: in_flight_def put_job_def)

lemma in_flight_cong: "sc_jobs s' = sc_jobs s \<Longrightarrow> in_flight d key k s' = in_flight d key k s"
  by (simp add: in_flight_def)

lemma whole_add: "d \<in> whole_dims \<Longrightarrow> d (budget_add a b) = d a + d b"
  by (auto simp: whole_dims_def)

lemma whole_subtract: "d \<in> whole_dims \<Longrightarrow> d (budget_subtract a b) = diff0 (d a) (d b)"
  by (auto simp: whole_dims_def)

lemma whole_zero: "d \<in> whole_dims \<Longrightarrow> d no_budget = 0"
  by (auto simp: whole_dims_def)

lemma whole_nonneg: "d \<in> whole_dims \<Longrightarrow> sound_budget a \<Longrightarrow> 0 \<le> d a"
  by (auto simp: whole_dims_def sound_budget_def)

lemma budget_at_update [simp]: "budget_at k (AList.update c b m) = (if k = c then b else budget_at k m)"
  by (simp add: budget_at_def)

lemma load_bounds:
  assumes "d \<in> whole_dims" and "books_ok s" and "map_of (sc_jobs s) j = Some st"
  shows "0 \<le> lease_load d key k st" and "lease_load d key k st \<le> in_flight d key k s"
proof -
  have pos: "0 \<le> lease_load d key k (snd p)" if "p \<in> set (sc_jobs s)" for p
    using assms(2) that by (auto simp: lease_load_def books_ok_def whole_nonneg [OF assms(1)])
  from map_of_SomeD [OF assms(3)] have in_jobs: "(j, st) \<in> set (sc_jobs s)" .
  from pos [OF this] show "0 \<le> lease_load d key k st" by simp
  have "lease_load d key k (snd (j, st)) \<in> set (map (\<lambda>p. lease_load d key k (snd p)) (sc_jobs s))"
    using imageI [OF in_jobs, of "\<lambda>p. lease_load d key k (snd p)"] by simp
  then have "lease_load d key k (snd (j, st)) \<le> (\<Sum>p \<leftarrow> sc_jobs s. lease_load d key k (snd p))"
    using pos by (intro member_le_sum_list) auto
  then show "lease_load d key k st \<le> in_flight d key k s" by (simp add: in_flight_def)
qed

subsection \<open>Steps that keep the books\<close>

lemma books_frame:
  assumes "books_ok s" and "sc_jobs s' = sc_jobs s" and "sc_reserved s' = sc_reserved s"
    and "sc_branch_reserved s' = sc_branch_reserved s"
  shows "books_ok s'"
  using assms(1) by (simp add: books_ok_def reserved_exact_def assms(2-) in_flight_cong [OF assms(2)])

lemma put_valid:
  assumes "books_ok s" and "sound_budget (jr_reservation (js_request st'))"
  shows "distinct (map fst (sc_jobs (put_job j st' s)))"
    and "\<forall>st \<in> snd ` set (sc_jobs (put_job j st' s)). sound_budget (jr_reservation (js_request st))"
proof -
  have d: "distinct (map fst (sc_jobs s))" using assms(1) by (simp add: books_ok_def)
  then show d': "distinct (map fst (sc_jobs (put_job j st' s)))" by (simp add: put_job_def distinct_update)
  have "st = st' \<or> st \<in> snd ` set (sc_jobs s)" if "(k, st) \<in> set (sc_jobs (put_job j st' s))" for k st
  proof -
    from map_of_is_SomeI [OF d' that] have "k = j \<and> st = st' \<or> map_of (sc_jobs s) k = Some st"
      by (auto simp: put_job_def split: if_splits)
    then show ?thesis by (force dest: map_of_SomeD)
  qed
  moreover have "sound_budget (jr_reservation (js_request st))" if "st \<in> snd ` set (sc_jobs s)" for st
    using assms(1) that unfolding books_ok_def by blast
  ultimately have v: "sound_budget (jr_reservation (js_request (snd p)))" if "p \<in> set (sc_jobs (put_job j st' s))" for p
    using that assms(2) by (metis prod.collapse)
  show "\<forall>st \<in> snd ` set (sc_jobs (put_job j st' s)). sound_budget (jr_reservation (js_request st))"
    using v by blast
qed

lemma job_valid:
  "books_ok s \<Longrightarrow> map_of (sc_jobs s) j = Some st \<Longrightarrow> sound_budget (jr_reservation (js_request st))"
  by (force simp: books_ok_def dest: map_of_SomeD)

text \<open>A job that keeps its request and keeps, or keeps lacking, a lease.\<close>

lemma books_put:
  assumes ok: "books_ok s" and st: "map_of (sc_jobs s) j = Some st"
    and "js_request st' = js_request st" and "js_lease st' = None \<longleftrightarrow> js_lease st = None"
  shows "books_ok (put_job j st' s)"
proof -
  have d: "distinct (map fst (sc_jobs s))" using ok by (simp add: books_ok_def)
  have l: "lease_load d key k st' = lease_load d key k st"
    for d :: "'a sched_budget \<Rightarrow> int" and key :: "'a job_request \<Rightarrow> 'k" and k
    using assms(3,4) by (simp add: lease_load_def)
  have i: "in_flight d key k (put_job j st' s) = in_flight d key k s"
    for d :: "'a sched_budget \<Rightarrow> int" and key :: "'a job_request \<Rightarrow> 'k" and k
    using in_flight_put [OF d, of d key k j st'] st l by simp
  have "sc_reserved (put_job j st' s) = sc_reserved s" "sc_branch_reserved (put_job j st' s) = sc_branch_reserved s"
    by (simp_all add: put_job_def)
  with put_valid [OF ok, of st' j] job_valid [OF ok st] assms(3) ok show ?thesis
    by (simp add: books_ok_def reserved_exact_def i)
qed

text \<open>Giving a lease back: the refund is exact, because the total covers this reservation.\<close>

lemma refund_load:
  assumes dim: "d \<in> whole_dims" and ok: "books_ok s" and st: "map_of (sc_jobs s) j = Some st"
    and l: "js_lease st = Some l" and total: "\<And>k. d (budget_at k m) = in_flight d key k s"
  shows "d (budget_at k (refund (key (js_request st)) (jr_reservation (js_request st)) m)) =
     in_flight d key k s - lease_load d key k st"
proof -
  have "0 \<le> in_flight d key k s - lease_load d key k st" using load_bounds [OF dim ok st, of key k] by simp
  then show ?thesis using l total by (auto simp: refund_def whole_subtract [OF dim] lease_load_def diff0_def max_def split: if_splits)
qed

lemma books_release:
  assumes ok: "books_ok s" and st: "map_of (sc_jobs s) j = Some st"
  shows "books_ok (release_lease j st s)"
proof (cases "js_lease st")
  case None
  with ok show ?thesis by (simp add: release_lease_def)
next
  case (Some l)
  let ?st = "st\<lparr>js_lease := None\<rparr>"
  let ?s = "release_lease j st s"
  have d: "distinct (map fst (sc_jobs s))" and exact: "reserved_exact s" using ok by (simp_all add: books_ok_def)
  have jobs: "sc_jobs ?s = sc_jobs (put_job j ?st s)" and
    res: "sc_reserved ?s = refund (jr_campaign (js_request st)) (jr_reservation (js_request st)) (sc_reserved s)" and
    branch: "sc_branch_reserved ?s = refund (job_branch (js_request st)) (jr_reservation (js_request st)) (sc_branch_reserved s)"
    using Some by (simp_all add: release_lease_def put_job_def unreserve_def)
  have i: "in_flight d key k ?s = in_flight d key k s - lease_load d key k st"
    for d :: "'a sched_budget \<Rightarrow> int" and key :: "'a job_request \<Rightarrow> 'k" and k
    using in_flight_put [OF d, of d key k j ?st] st in_flight_cong [OF jobs, of d key k]
    by (simp add: lease_load_def [of d key k ?st])
  have "reserved_exact ?s"
    unfolding reserved_exact_def res branch i
  proof (intro ballI conjI allI)
    fix d :: "'a sched_budget \<Rightarrow> int" and c b
    assume d: "d \<in> whole_dims"
    show "d (budget_at c (refund (jr_campaign (js_request st)) (jr_reservation (js_request st)) (sc_reserved s))) =
        in_flight d jr_campaign c s - lease_load d jr_campaign c st"
      using exact d unfolding reserved_exact_def by (intro refund_load [OF d ok st Some]) blast
    show "d (budget_at b (refund (job_branch (js_request st)) (jr_reservation (js_request st)) (sc_branch_reserved s))) =
        in_flight d job_branch b s - lease_load d job_branch b st"
      using exact d unfolding reserved_exact_def by (intro refund_load [OF d ok st Some]) blast
  qed
  with put_valid [OF ok, of ?st j] job_valid [OF ok st] show ?thesis unfolding books_ok_def jobs by simp
qed

subsection \<open>The books along a log\<close>

lemma keeps_books_on_worker [keeps_intros]: "keeps books_ok (on_worker w f)"
  by (rule keepsI) (auto simp: on_worker_def split: option.split intro: books_frame)

lemma keeps_books_frame [keeps_intros]:
  assumes "\<And>s. sc_jobs (f s) = sc_jobs s" and "\<And>s. sc_reserved (f s) = sc_reserved s"
    and "\<And>s. sc_branch_reserved (f s) = sc_branch_reserved s"
  shows "keeps books_ok (modify f)"
  using assms by (intro keeps_modify) (auto intro: books_frame)

lemma keeps_books_account [keeps_intros]: "keeps books_ok (account_result r w x failed)"
  unfolding account_result_def record_cleanup_def by (intro keeps_intros) (simp_all add: consume_def)

lemma keeps_books_bill [keeps_intros]: "keeps books_ok (bill_late r w x p)"
  unfolding bill_late_def replace_accounted_result_def Let_def by (intro keeps_intros) simp_all

lemma keeps_books_settle [keeps_intros]: "keeps books_ok (settle_lease lid r w x p)"
  unfolding settle_lease_def by (intro keeps_intros) (simp_all add: note_result_def note_provisional_def)

lemma books_modify_job:
  assumes "books_ok s" and "\<And>st. js_request (f st) = js_request st" and "\<And>st. js_lease (f st) = js_lease st"
  shows "books_ok (modify_job j f s)"
proof (cases "map_of (sc_jobs s) j")
  case None
  with assms(1) show ?thesis by (simp add: modify_job_def)
next
  case (Some st)
  with books_put [OF assms(1) Some assms(2)] assms(3) show ?thesis by (simp add: modify_job_def)
qed

lemma keeps_books_modify_job [keeps_intros]:
  assumes "\<And>st. js_request (f st) = js_request st" and "\<And>st. js_lease (f st) = js_lease st"
  shows "keeps books_ok (modify (modify_job j f))"
  using assms by (intro keeps_modify books_modify_job)

lemma keeps_books_retry [keeps_intros]:
  assumes "\<And>st. js_request (f st) = js_request st" and "\<And>st. js_lease (f st) = js_lease st"
  shows "keeps books_ok (modify (\<lambda>s. (modify_job j f s)\<lparr>sc_retries := g s\<rparr>))"
proof (rule keeps_modify)
  fix s :: "'a sched" assume "books_ok s"
  then have "books_ok (modify_job j f s)" by (rule books_modify_job) (rule assms)+
  then show "books_ok ((modify_job j f s)\<lparr>sc_retries := g s\<rparr>)" by (rule books_frame) simp_all
qed

lemma books_with_job:
  assumes "books_ok s" and "\<And>st. map_of (sc_jobs s) j = Some st \<Longrightarrow> books_ok (snd (f st s))"
  shows "books_ok (snd (with_job j f s))"
  using assms by (auto simp: with_job_def split: option.split)

lemma keeps_books_extend [keeps_intros]: "keeps books_ok (extend_lease x lid)"
proof (rule keepsI)
  fix s :: "'a sched" assume ok: "books_ok s"
  then show "books_ok (snd (extend_lease x lid s))"
    by (auto simp: extend_lease_def with_job_def split: option.split intro: books_put [OF ok])
qed

lemma books_note: "books_ok s \<Longrightarrow> books_ok (note_result lid s)"
  by (rule books_frame) (simp_all add: note_result_def)

lemma books_late:
  assumes ok: "books_ok s" shows "books_ok (snd (apply_late cancel j lid x s))"
  unfolding apply_late_def Let_def
proof (rule books_with_job [OF ok])
  fix st assume st: "map_of (sc_jobs s) j = Some st"
  let ?s = "if has_lease lid st then release_lease j st s else s"
  have "books_ok ?s" using ok books_release [OF ok st] by simp
  then have "books_ok (modify_job j (\<lambda>st. st\<lparr>js_status := (if cancel then Canceled else js_status st),
      js_late := Some x, js_accounting := Some x\<rparr>) ?s)" (is "books_ok ?s1")
    by (rule books_modify_job) simp_all
  then have "books_ok (book_late cancel j lid x ?s)"
    unfolding book_late_def Let_def by (intro books_note) (rule books_frame, simp_all)
  then show "books_ok (snd (andthen (bill_late (js_request st)
        (case map_of (sc_records s) lid of Some l \<Rightarrow> le_worker l | None \<Rightarrow> []) x (map_of (sc_provisional s) lid))
        (modify (\<lambda>s. s\<lparr>sc_late := Suc (sc_late s)\<rparr>)) (book_late cancel j lid x ?s)))"
    by (rule keepsD [rotated]) (intro keeps_intros, simp_all)
qed

lemma books_released_then:
  assumes "books_ok s" and "map_of (sc_jobs s) j = Some st" and "keeps books_ok m"
  shows "books_ok (snd (andthen (modify (release_lease j st)) m s))"
  using keepsD [OF assms(3) books_release [OF assms(1,2)]] by simp

lemma books_leased:
  assumes ok: "books_ok s" and st: "map_of (sc_jobs s) (le_job l) = Some st" and free: "js_lease st = None"
  shows "books_ok (snd (apply_leased l s))"
proof (cases "map_of (sc_workers s) (le_worker l)")
  case None
  with st ok show ?thesis by (simp add: apply_leased_def with_job_def)
next
  case (Some ws)
  let ?st = "st\<lparr>js_status := Leased, js_attempts := le_attempt l, js_lease := Some l\<rparr>" and ?r = "js_request st"
  let ?p = "put_job (le_job l) ?st s"
  let ?s = "snd (apply_leased l s)"
  have jobs: "sc_jobs ?s = sc_jobs ?p" and
    res: "sc_reserved ?s = charge (jr_campaign ?r) (jr_reservation ?r) (sc_reserved s)" and
    branch: "sc_branch_reserved ?s = charge (job_branch ?r) (jr_reservation ?r) (sc_branch_reserved s)"
    using st Some by (simp_all add: apply_leased_def with_job_def register_lease_def reserve_def put_job_def)
  have d: "distinct (map fst (sc_jobs s))" and exact: "reserved_exact s" using ok by (simp_all add: books_ok_def)
  have i: "in_flight d key k ?s = in_flight d key k s + (if key ?r = k then d (jr_reservation ?r) else 0)"
    for d :: "'a sched_budget \<Rightarrow> int" and key :: "'a job_request \<Rightarrow> 'k" and k
    using in_flight_put [OF d, of d key k "le_job l" ?st] st free in_flight_cong [OF jobs, of d key k]
    by (simp add: lease_load_def)
  have "reserved_exact ?s"
    using exact unfolding reserved_exact_def res branch i by (auto simp: charge_def whole_add)
  with put_valid [OF ok, of ?st "le_job l"] job_valid [OF ok st] show ?thesis unfolding books_ok_def jobs by simp
qed

lemma books_set_status: "books_ok s \<Longrightarrow> books_ok (snd (set_status_of x j s))"
  unfolding set_status_of_def by (rule books_with_job) (simp_all add: books_put)

lemma reduce_books:
  assumes ok: "books_ok s" and "sched_ok s" and adm: "admissible env ev s"
  shows "books_ok (snd (reduce_event d ev s))"
proof (cases ev)
  case (WorkerHeartbeat w t lids x)
  have "keeps books_ok (apply_heartbeat w t lids x)" unfolding apply_heartbeat_def by (intro keeps_intros)
  from keepsD [OF this ok] WorkerHeartbeat show ?thesis by simp
next
  case (JobEnqueued r)
  with adm have v: "sound_budget (jr_reservation (js_request (new_job r)))" and new: "map_of (sc_jobs s) (jr_id r) = None"
    by (simp_all add: valid_request_def new_job_def)
  have i: "in_flight d key k (put_job (jr_id r) (new_job r) s) = in_flight d key k s"
    for d :: "'a sched_budget \<Rightarrow> int" and key :: "'a job_request \<Rightarrow> 'k" and k
    using in_flight_put [of s d key k "jr_id r" "new_job r"] ok new
    by (simp add: books_ok_def lease_load_def new_job_def)
  have "books_ok (put_job (jr_id r) (new_job r) s)"
    using put_valid [OF ok v, of "jr_id r"] ok
    by (simp add: books_ok_def reserved_exact_def i) (simp add: put_job_def)
  with ok JobEnqueued show ?thesis by (auto simp: apply_enqueued_def put_job_def intro: books_frame)
next
  case (JobLeased l b)
  with adm obtain st where st: "map_of (sc_jobs s) (le_job l) = Some st" "js_status st = Queued" by auto
  with sched_ok_job [OF assms(2) st(1)] have "js_lease st = None" by (simp add: job_ok_def)
  with books_leased [OF ok st(1)] JobLeased show ?thesis by simp
next
  case (JobBudgetExhausted j)
  with books_set_status [OF ok] show ?thesis by simp
next
  case (JobCancelRequested j lid)
  with books_set_status [OF ok] show ?thesis by simp
next
  case (JobCanceledLate j lid x)
  with books_late [OF ok] show ?thesis by simp
next
  case (JobStaleCompleted j lid x)
  with books_late [OF ok] show ?thesis by simp
next
  case (JobRequeued j lid reason x p)
  show ?thesis unfolding reduce_event.simps JobRequeued apply_requeued_def Let_def
    by (intro books_with_job [OF ok] books_released_then [OF ok] keeps_intros, simp_all)
next
  case (JobLeaseFailed j lid reason x p)
  show ?thesis unfolding reduce_event.simps JobLeaseFailed apply_lease_failed_def Let_def
  proof (rule books_with_job [OF ok])
    fix st assume st: "map_of (sc_jobs s) j = Some st"
    let ?x = "case x of Some x \<Rightarrow> x | None \<Rightarrow> provisional_expired_lease_result (js_request st) (js_lease st)"
    have "books_ok (modify_job j (\<lambda>st. st\<lparr>js_status := InfrastructureFailed, js_result := Some ?x\<rparr>) (release_lease j st s))"
      by (intro books_modify_job books_release [OF ok st]) simp_all
    from keepsD [OF keeps_books_settle this]
    show "books_ok (snd (andthen (modify (modify_job j (\<lambda>st. st\<lparr>js_status := InfrastructureFailed, js_result := Some ?x\<rparr>) \<circ> release_lease j st))
       (settle_lease lid (js_request st) (lease_worker st) ?x (x = None \<or> p)) s))" by simp
  qed
next
  case (JobCanceled j reason x p)
  show ?thesis unfolding reduce_event.simps JobCanceled apply_canceled_def Let_def
    by (intro books_with_job [OF ok] books_released_then [OF ok] keeps_intros)
       (auto intro!: keeps_intros split: option.split prod.split)
next
  case (JobFinished j lid x)
  show ?thesis unfolding reduce_event.simps JobFinished apply_finished_def
  proof (rule books_with_job [OF ok])
    fix st assume st: "map_of (sc_jobs s) j = Some st"
    have "books_ok (modify_job j (\<lambda>st. st\<lparr>js_result := Some x, js_status := status_by_outcome (jx_outcome x)\<rparr>)
        (release_lease j st (note_result lid s)))"
      by (intro books_modify_job books_release books_note ok) (simp_all add: note_result_def st)
    from keepsD [OF keeps_books_account this]
    show "books_ok (snd (andthen (modify (modify_job j (\<lambda>st. st\<lparr>js_result := Some x, js_status := status_by_outcome (jx_outcome x)\<rparr>) \<circ>
           release_lease j st \<circ> note_result lid))
       (account_result (js_request st) (lease_worker st) x (jx_outcome x \<noteq> CandidateSuccess)) s))" by simp
  qed
qed (use ok in \<open>auto simp: apply_configured_def apply_audit_failed_def apply_worker_registered_def apply_evidence_def
      intro: books_frame [OF ok]\<close>)

lemma lawful_books: "lawful env es \<Longrightarrow> books_ok (replayed env es)"
proof (induction rule: lawful_induct)
  case Nil
  then show ?case by (auto simp: books_ok_def reserved_exact_def empty_sched_def in_flight_def budget_at_def whole_dims_def)
next
  case (snoc es e)
  let ?s = "(replayed env es)\<lparr>sc_sequence := lr_sequence e\<rparr>"
  have "books_ok ?s" using snoc.IH by (rule books_frame) simp_all
  moreover have "sched_ok ?s" by (rule same_core_ok [OF same_core_sequence lawful_ok [OF snoc.hyps(1)]])
  moreover have "admissible env (lr_event e) ?s" using logged_guard [OF snoc.hyps(2)] by (simp add: admissible_sequence)
  ultimately have "books_ok (snd (reduce_event (sv_digest env) (lr_event e) ?s))" by (rule reduce_books)
  with logged_guard [OF snoc.hyps(2)] show ?case by (simp add: apply_event_run)
qed

end
