(* ===== verification/Sched_Trace.thy ===== *)
theory Sched_Trace
  imports Sched_Ledger
begin

text \<open>
  Properties of the jobs and leases along a log: how often a job has been dispatched, that a job
  which has ended stays as it is, and that a lease is billed for one actual result.
\<close>

subsection \<open>Attempts\<close>

fun dispatches_job :: "string \<Rightarrow> 'f sched_event \<Rightarrow> bool" where
  "dispatches_job j (JobLeased l b) = (le_job l = j)"
| "dispatches_job j _ = False"

definition dispatches :: "string \<Rightarrow> 'f log_record list \<Rightarrow> nat" where
  "dispatches j es = length (filter (\<lambda>e. dispatches_job j (lr_event e)) es)"

lemma dispatches_simps [simp]:
  "dispatches j [] = 0" "dispatches j (es @ [e]) = dispatches j es + (if dispatches_job j (lr_event e) then 1 else 0)"
  by (simp_all add: dispatches_def)

lemma logged_abs:
  assumes "logged env (s, es) (s', es @ [e])"
  shows "jobs_abs s' = abs_step (lr_event e) (jobs_abs s)"
proof -
  let ?s = "s\<lparr>sc_sequence := lr_sequence e\<rparr>"
  have "jobs_abs ?s = jobs_abs s" by (simp add: jobs_abs_def fun_eq_iff)
  moreover have "jobs_abs s' = abs_step (lr_event e) (jobs_abs ?s)"
    using logged_guard [OF assms]
    by (intro reduce_abs [of "sv_digest env" _ _ _ env]) (simp_all add: apply_event_run admissible_sequence)
  ultimately show ?thesis by simp
qed

lemma admissible_abs: "job_in s j (\<lambda>st. P (js_status st)) \<Longrightarrow> \<exists>c. jobs_abs s j = Some c \<and> P (jc_status c)"
  by (auto simp: job_in_def jobs_abs_def job_core_of_def)

lemma abs_attempts:
  assumes adm: "admissible env ev s" and count: "\<And>j. (case jobs_abs s j of None \<Rightarrow> m j = 0 | Some c \<Rightarrow> jc_attempts c = int (m j))"
  shows "(case abs_step ev (jobs_abs s) j of None \<Rightarrow> m j = 0
     | Some c \<Rightarrow> jc_attempts c = int (m j + (if dispatches_job j ev then 1 else 0)))"
proof (cases ev)
  case (JobEnqueued r)
  with adm have "jobs_abs s (jr_id r) = None" by (simp add: jobs_abs_def)
  with count [of "jr_id r"] count [of j] JobEnqueued show ?thesis
    by (simp add: abs_step_def job_core_of_def new_job_def split: option.splits)
next
  case (JobLeased l b)
  with adm obtain st where "map_of (sc_jobs s) (le_job l) = Some st" "le_attempt l = js_attempts st + 1" by auto
  with count [of "le_job l"] count [of j] JobLeased show ?thesis
    by (simp add: abs_step_def jobs_abs_def job_core_of_def split: option.splits)
qed (use count [of j] in \<open>auto simp: abs_step_def split: option.splits\<close>)

lemma abs_attempts_none:
  "abs_step ev m j = None \<Longrightarrow> m j = None"
  by (cases ev) (auto simp: abs_step_def split: if_splits)

lemma lawful_attempts:
  assumes "lawful env es"
  shows "case jobs_abs (replayed env es) j of None \<Rightarrow> dispatches j es = 0 | Some c \<Rightarrow> jc_attempts c = int (dispatches j es)"
  using assms
proof (induction arbitrary: j rule: lawful_induct)
  case Nil
  then show ?case by (simp add: jobs_abs_def empty_sched_def)
next
  case (snoc es e)
  have step: "jobs_abs (replayed env (es @ [e])) = abs_step (lr_event e) (jobs_abs (replayed env es))"
    by (rule logged_abs [OF snoc.hyps(2)])
  have adm: "admissible env (lr_event e) (replayed env es)" using logged_guard [OF snoc.hyps(2)] by simp
  show ?case
  proof (cases "jobs_abs (replayed env (es @ [e])) j")
    case None
    then have "jobs_abs (replayed env es) j = None" unfolding step by (rule abs_attempts_none)
    moreover from this have "\<not> dispatches_job j (lr_event e)"
      using adm by (cases "lr_event e") (auto simp: jobs_abs_def)
    ultimately show ?thesis using None snoc.IH [of j] by simp
  next
    case (Some c)
    with abs_attempts [OF adm, of "\<lambda>j. dispatches j es" j] snoc.IH show ?thesis by (simp add: step)
  qed
qed

lemma lawful_attempts_job:
  "lawful env es \<Longrightarrow> map_of (sc_jobs (replayed env es)) j = Some st \<Longrightarrow> js_attempts st = int (dispatches j es)"
  by (drule lawful_attempts [of _ _ j]) (simp add: jobs_abs_def job_core_of_def)

subsection \<open>Ended jobs\<close>

definition ended :: "'f job_core option \<Rightarrow> bool" where
  "ended x \<longleftrightarrow> (\<exists>c. x = Some c \<and> jc_status c \<in> terminal_statuses)"

lemma abs_ended:
  assumes "admissible env ev s" and "ended (jobs_abs s j)"
  shows "abs_step ev (jobs_abs s) j = jobs_abs s j"
  using assms
  by (cases ev) (auto simp: abs_step_def ended_def jobs_abs_def job_core_of_def job_in_def terminal_statuses_def
      split: option.splits)

interpretation job: lifecycle "logged env" "\<lambda>x. jobs_abs (fst x) j" ended for env j
proof unfold_locales
  fix x y assume e: "ended (jobs_abs (fst x) j)" and "logged env x y"
  from this(2) show "jobs_abs (fst y) j = jobs_abs (fst x) j"
  proof (cases rule: logged.cases)
    case (logged_event ev s es s')
    with logged_abs [of env s es s' ev] abs_ended [of env "lr_event ev" s j] e \<open>logged env x y\<close> show ?thesis by simp
  qed
qed

lemma lawful_path:
  assumes "lawful env es'" and "prefix es es'"
  shows "(logged env)\<^sup>*\<^sup>* (replayed env es, es) (replayed env es', es')"
  using assms
proof (induction rule: lawful_induct)
  case (snoc fs e)
  from snoc.prems consider "es = fs @ [e]" | "prefix es fs" by (auto simp: prefix_snoc)
  then show ?case
  proof cases
    case 2
    from snoc.IH [OF this] snoc.hyps(2) show ?thesis by (rule rtranclp.rtrancl_into_rtrancl)
  qed simp
qed simp

lemma lawful_ended:
  assumes "lawful env es'" and "prefix es es'" and "ended (jobs_abs (replayed env es) j)"
  shows "jobs_abs (replayed env es') j = jobs_abs (replayed env es) j"
  using job.terminal_forever [OF lawful_path [OF assms(1,2)], of j] assms(3) by simp

subsection \<open>Billing\<close>

text \<open>The events that carry an actual result of the lease, not a provisional charge for it.\<close>

fun actual_result :: "string \<Rightarrow> 'f sched_event \<Rightarrow> bool" where
  "actual_result lid (JobCanceledLate j l x) = (l = lid)"
| "actual_result lid (JobStaleCompleted j l x) = (l = lid)"
| "actual_result lid (JobRequeued j l reason x p) = (l = lid \<and> \<not> p)"
| "actual_result lid (JobLeaseFailed j l reason x p) = (l = lid \<and> \<not> p)"
| "actual_result lid (JobCanceled j reason x p) = (case x of Some (l, y) \<Rightarrow> l = lid \<and> \<not> p | None \<Rightarrow> False)"
| "actual_result lid (JobFinished j l x) = (l = lid)"
| "actual_result lid _ = False"

text \<open>The two tables of results, as each event changes them.\<close>

fun results_step :: "'f sched_event \<Rightarrow> string set \<times> string set \<Rightarrow> string set \<times> string set" where
  "results_step (JobCanceledLate j l x) (R, P) = (insert l R, P - {l})"
| "results_step (JobStaleCompleted j l x) (R, P) = (insert l R, P - {l})"
| "results_step (JobRequeued j l reason x p) (R, P) = (insert l R, if p then insert l P else P)"
| "results_step (JobLeaseFailed j l reason x p) (R, P) = (insert l R, if p then insert l P else P)"
| "results_step (JobCanceled j reason x p) (R, P) = (case x of None \<Rightarrow> (R, P) | Some (l, y) \<Rightarrow> (insert l R, if p then insert l P else P))"
| "results_step (JobFinished j l x) (R, P) = (insert l R, P)"
| "results_step _ X = X"

definition results_of :: "'f sched \<Rightarrow> string set \<times> string set" where
  "results_of s = (set (sc_result_leases s), dom (map_of (sc_provisional s)))"

definition has_results :: "string set \<times> string set \<Rightarrow> 'f sched \<Rightarrow> bool" where
  "has_results X s \<longleftrightarrow> results_of s = X"

lemma has_results_worker [keeps_intros]: "keeps (has_results X) (on_worker w f)"
  by (auto simp: keeps_def has_results_def results_of_def on_worker_def split: option.split)

lemma has_results_modify [keeps_intros]:
  assumes "\<And>s. sc_result_leases (f s) = sc_result_leases s" and "\<And>s. sc_provisional (f s) = sc_provisional s"
  shows "keeps (has_results X) (modify f)"
  using assms by (auto simp: keeps_def has_results_def results_of_def)

lemma has_results_account [keeps_intros]: "keeps (has_results X) (account_result r w x failed)"
  unfolding account_result_def record_cleanup_def by (intro keeps_intros) (simp_all add: consume_def)

lemma has_results_bill [keeps_intros]: "keeps (has_results X) (bill_late r w x p)"
  unfolding bill_late_def replace_accounted_result_def Let_def by (intro keeps_intros) simp_all

lemma results_fields [simp]:
  "results_of (put_job j st s) = results_of s" "results_of (modify_job j f s1) = results_of s1"
  "results_of (release_lease j st' s2) = results_of s2" "results_of (s3\<lparr>sc_late := n\<rparr>) = results_of s3"
  "results_of (s4\<lparr>sc_retries := n\<rparr>) = results_of s4"
  by (simp_all add: results_of_def put_job_def modify_job_def release_lease_def unreserve_def split: option.split)

lemma results_note: "results_of (note_result lid s) = (insert lid (fst (results_of s)), snd (results_of s))"
  by (simp add: results_of_def note_result_def)

lemma results_account:
  "account_result r w x failed s = (r', s') \<Longrightarrow> results_of s' = results_of s"
  using keepsD [OF has_results_account, of "results_of s" s r w x failed] by (simp add: has_results_def)

lemma results_bill: "bill_late r w x p s = (r', s') \<Longrightarrow> results_of s' = results_of s"
  using keepsD [OF has_results_bill, of "results_of s" s r w x p] by (simp add: has_results_def)

lemma results_settle:
  assumes "settle_lease lid r w x p s = (Inr (), s')"
  shows "results_of s' = (insert lid (fst (results_of s)), if p then insert lid (snd (results_of s)) else snd (results_of s))"
proof -
  from assms obtain s2 where "account_result r w x True (note_result lid s) = (Inr (), s2)" "s' = note_provisional p lid x s2"
    by (auto simp: settle_lease_def elim!: bind_InrE)
  then show ?thesis using results_account [of r w x True "note_result lid s"] results_note [of lid s]
    by (auto simp: note_provisional_def results_of_def)
qed

lemma results_book_late:
  "results_of (book_late cancel j lid x s) = (insert lid (fst (results_of s)), snd (results_of s) - {lid})"
  by (simp add: book_late_def Let_def results_note) (simp add: results_of_def modify_job_def put_job_def split: option.split)

lemma results_late:
  assumes "apply_late cancel j lid x s = (Inr (), s')"
  shows "results_of s' = (insert lid (fst (results_of s)), snd (results_of s) - {lid})"
proof -
  from assms obtain st where st: "map_of (sc_jobs s) j = Some st" by (auto simp: apply_late_def with_job_def split: option.splits)
  let ?s = "if has_lease lid st then release_lease j st s else s"
  from assms st obtain s2 where "bill_late (js_request st) (case map_of (sc_records s) lid of Some l \<Rightarrow> le_worker l | None \<Rightarrow> [])
      x (map_of (sc_provisional s) lid) (book_late cancel j lid x ?s) = (Inr (), s2)" and "s' = s2\<lparr>sc_late := Suc (sc_late s2)\<rparr>"
    by (auto simp: apply_late_def with_job_def Let_def elim!: bind_InrE)
  then have "results_of s' = results_of (book_late cancel j lid x ?s)" by (simp add: results_bill)
  also have "\<dots> = (insert lid (fst (results_of ?s)), snd (results_of ?s) - {lid})" by (rule results_book_late)
  also have "results_of ?s = results_of s" by simp
  finally show ?thesis .
qed

lemma results_with_job:
  assumes "with_job j f s = (Inr (), s')"
  obtains st where "map_of (sc_jobs s) j = Some st" and "f st s = (Inr (), s')"
  using assms by (auto simp: with_job_def split: option.splits)

lemma results_heartbeat: "apply_heartbeat w t lids x s = (r, s') \<Longrightarrow> results_of s' = results_of s"
proof -
  have "keeps (has_results X) (extend_lease x lid)" for X lid
    by (auto simp: keeps_def has_results_def extend_lease_def with_job_def split: option.split)
  then have "keeps (has_results X) (apply_heartbeat w t lids x)" for X
    unfolding apply_heartbeat_def by (intro keeps_intros)
  from keepsD [OF this, of "results_of s" s] show "apply_heartbeat w t lids x s = (r, s') \<Longrightarrow> results_of s' = results_of s"
    by (simp add: has_results_def)
qed

lemma reduce_results:
  assumes run: "reduce_event d ev s = (Inr (), s')" and adm: "admissible env ev s"
  shows "results_of s' = results_step ev (results_of s)"
proof (cases ev)
  case (JobCanceledLate j lid x)
  with run show ?thesis by (cases "results_of s") (auto dest: results_late)
next
  case (JobStaleCompleted j lid x)
  with run show ?thesis by (cases "results_of s") (auto dest: results_late)
next
  case (WorkerHeartbeat w t lids x)
  with run show ?thesis by (cases "results_of s") (auto dest: results_heartbeat)
next
  case (JobEnqueued r)
  with run show ?thesis by (cases "results_of s") (auto simp: apply_enqueued_def results_of_def split: if_splits)
next
  case (JobLeased l b)
  with run show ?thesis
    by (cases "results_of s") (auto simp: apply_leased_def with_job_def register_lease_def reserve_def results_of_def
      put_job_def split: option.splits)
next
  case (JobRequeued j lid reason x p)
  with adm obtain y where y: "x = Some y" by auto
  from run JobRequeued obtain st where m: "andthen (modify (release_lease j st))
       (andthen (settle_lease lid (js_request st) (lease_worker st) y p)
         (modify (\<lambda>s. (modify_job j (\<lambda>st. st\<lparr>js_status := Queued, js_error := reason\<rparr>) s)\<lparr>sc_retries := Suc (sc_retries s)\<rparr>))) s = (Inr (), s')"
    by (auto simp: apply_requeued_def y Let_def elim: results_with_job)
  then obtain s2 where "settle_lease lid (js_request st) (lease_worker st) y p (release_lease j st s) = (Inr (), s2)"
    and "results_of s' = results_of s2"
    by (auto elim!: bind_InrE)
  with results_settle [OF this(1)] JobRequeued show ?thesis by (cases "results_of s") simp
next
  case (JobLeaseFailed j lid reason x p)
  with adm obtain y where y: "x = Some y" by auto
  from run JobLeaseFailed obtain st where "settle_lease lid (js_request st) (lease_worker st) y p
      (modify_job j (\<lambda>st. st\<lparr>js_status := InfrastructureFailed, js_result := Some y\<rparr>) (release_lease j st s)) = (Inr (), s')"
    by (auto simp: apply_lease_failed_def y Let_def elim: results_with_job)
  from results_settle [OF this] JobLeaseFailed show ?thesis by (cases "results_of s") simp
next
  case (JobCanceled j reason x p)
  show ?thesis
  proof (cases x)
    case None
    with run JobCanceled show ?thesis by (cases "results_of s") (auto simp: apply_canceled_def elim!: results_with_job)
  next
    case (Some q)
    obtain lid y where q: "q = (lid, y)" by (cases q)
    from run JobCanceled Some q obtain st s2 where "settle_lease lid (js_request st) (lease_worker st) y p (release_lease j st s) = (Inr (), s2)"
      and "results_of s' = results_of s2"
      by (auto simp: apply_canceled_def elim!: results_with_job bind_InrE)
    with results_settle [OF this(1)] JobCanceled Some q show ?thesis by (cases "results_of s") simp
  qed
next
  case (JobFinished j lid x)
  with run obtain st where "account_result (js_request st) (lease_worker st) x (jx_outcome x \<noteq> CandidateSuccess)
     (modify_job j (\<lambda>st. st\<lparr>js_result := Some x, js_status := status_by_outcome (jx_outcome x)\<rparr>)
       (release_lease j st (note_result lid s))) = (Inr (), s')"
    by (auto simp: apply_finished_def elim: results_with_job)
  from results_account [OF this] JobFinished show ?thesis by (cases "results_of s") (simp add: results_note)
qed (use run in \<open>cases "results_of s", auto simp: set_status_of_def apply_configured_def apply_audit_failed_def
      apply_worker_registered_def apply_evidence_def results_of_def put_job_def elim!: results_with_job\<close>)+

text \<open>A lease that a job holds has no result yet, not even a provisional one.\<close>

lemma held_unbilled:
  assumes ok: "sched_ok s" and "job_in s j (\<lambda>st. Q st \<and> has_lease lid st)"
  shows "lid \<notin> fst (results_of s) \<and> lid \<notin> snd (results_of s)"
proof -
  from assms(2) obtain st l where "map_of (sc_jobs s) j = Some st" "js_lease st = Some l" "le_id l = lid"
    by (auto simp: job_in_def has_lease_def split: option.splits)
  with sched_ok_holds(4) [OF ok this(1,2)] have "lid \<notin> set (sc_result_leases s)" by simp
  moreover from this have "map_of (sc_provisional s) lid = None"
    using ok unfolding sched_ok_def history_ok_def by blast
  ultimately show ?thesis by (simp add: results_of_def domIff)
qed

definition has_bill :: "string \<Rightarrow> string set \<times> string set \<Rightarrow> nat" where
  "has_bill lid X = (if lid \<in> fst X \<and> lid \<notin> snd X then 1 else 0)"

lemma bill_step:
  assumes ok: "sched_ok s" and adm: "admissible env ev s"
  shows "has_bill lid (results_step ev (results_of s)) =
     has_bill lid (results_of s) + (if actual_result lid ev then 1 else 0)"
proof -
  obtain R P where X: "results_of s = (R, P)" by (cases "results_of s")
  have late: "l \<in> R \<longrightarrow> l \<in> P" if "l \<in> set (sc_result_leases s) \<longrightarrow> map_of (sc_provisional s) l \<noteq> None" for l
    using that X by (auto simp: results_of_def)
  have held: "l \<notin> R \<and> l \<notin> P" if "job_in s j (\<lambda>st. Q st \<and> has_lease l st)" for j Q l
    using held_unbilled [OF ok that] X by simp
  show ?thesis
  proof (cases ev)
    case (JobCanceledLate j l x)
    with adm late [of l] show ?thesis by (auto simp: has_bill_def X)
  next
    case (JobStaleCompleted j l x)
    with adm late [of l] show ?thesis by (auto simp: has_bill_def X)
  next
    case (JobRequeued j l reason x p)
    with adm held [of j "\<lambda>st. js_status st = Leased" l] show ?thesis
      by (auto simp: has_bill_def X job_in_def)
  next
    case (JobLeaseFailed j l reason x p)
    with adm held [of j "\<lambda>st. js_status st = Leased" l] show ?thesis by (auto simp: has_bill_def X)
  next
    case (JobCanceled j reason x p)
    with adm held [of j "\<lambda>st. js_status st \<in> {Leased, Canceling}"] show ?thesis
      by (auto simp: has_bill_def X split: option.splits)
  next
    case (JobFinished j l x)
    with adm held [of j "\<lambda>st. js_status st = Leased" l] show ?thesis by (auto simp: has_bill_def X)
  qed (simp_all add: has_bill_def X)
qed

lemma logged_results:
  assumes "logged env (s, es) (s', es @ [e])"
  shows "results_of s' = results_step (lr_event e) (results_of s)"
proof -
  let ?s = "s\<lparr>sc_sequence := lr_sequence e\<rparr>"
  have "results_of ?s = results_of s" by (simp add: results_of_def)
  moreover have "results_of s' = results_step (lr_event e) (results_of ?s)"
    using logged_guard [OF assms]
    by (intro reduce_results [of "sv_digest env" _ _ _ env]) (simp_all add: apply_event_run admissible_sequence)
  ultimately show ?thesis by simp
qed

lemma lawful_bill:
  "lawful env es \<Longrightarrow> length (filter (\<lambda>e. actual_result lid (lr_event e)) es) = has_bill lid (results_of (replayed env es))"
proof (induction rule: lawful_induct)
  case Nil
  then show ?case by (simp add: has_bill_def results_of_def empty_sched_def)
next
  case (snoc es e)
  from logged_guard [OF snoc.hyps(2)] have "admissible env (lr_event e) (replayed env es)" by simp
  from bill_step [OF lawful_ok [OF snoc.hyps(1)] this, of lid] snoc.IH show ?case
    by (simp add: logged_results [OF snoc.hyps(2)])
qed

end
