(* ===== verification/Sched_Example.thy ===== *)
theory Sched_Example
  imports Sched_Trace
begin

text \<open>
  A concrete run for the witnesses: one worker with one slot, a campaign limited to 100 tokens,
  two jobs of 60 tokens each. The first job is dispatched and completed; the second is then over
  the limit. Two processes take part, one of which falls behind the log.
\<close>

definition act :: "string \<Rightarrow> (('f node, 'a) op) \<Rightarrow> 'f cluster \<Rightarrow> 'f cluster" where
  "act p m c = (case cl_nodes c p of None \<Rightarrow> c
     | Some n \<Rightarrow> c\<lparr>cl_log := nd_log (snd (m (n\<lparr>nd_log := cl_log c\<rparr>))),
         cl_nodes := (cl_nodes c)(p \<mapsto> snd (m (n\<lparr>nd_log := cl_log c\<rparr>)))\<rparr>)"

definition boot :: "'f sched_env \<Rightarrow> string \<Rightarrow> 'f \<Rightarrow> int \<Rightarrow> (nat \<Rightarrow> string) \<Rightarrow> (nat \<Rightarrow> 'f) \<Rightarrow>
    ('f::{linorder,plus,minus,zero}) cluster \<Rightarrow> 'f cluster" where
  "boot env p d k ids clk c = (case new_node env (cl_log c) d k ids clk of
       Inl e \<Rightarrow> c | Inr n \<Rightarrow> c\<lparr>cl_nodes := (cl_nodes c)(p \<mapsto> n)\<rparr>)"

lemma boot_steps: "(cluster_step env)\<^sup>*\<^sup>* c (boot env p d k ids clk c)"
  by (auto simp: boot_def split: sum.split intro!: r_into_rtranclp step_start)

lemma act_steps:
  assumes "\<And>n. node_op env n (snd (m n))"
  shows "(cluster_step env)\<^sup>*\<^sup>* c (act p m c)"
  using assms by (auto simp: act_def split: option.split intro!: r_into_rtranclp step_act)

lemma reach_steps: "(cluster_step env)\<^sup>*\<^sup>* c c' \<Longrightarrow> reachable_cluster env c \<Longrightarrow> reachable_cluster env c'"
  by (induction rule: rtranclp_induct) (auto intro: reach_step)

definition ex_env :: "int sched_env" where
  "ex_env = \<lparr>sv_digest = (\<lambda>x. ''d''), sv_cancel = (\<lambda>w. None), sv_audit = None\<rparr>"

definition ex_worker :: "int worker_descriptor" where
  "ex_worker = \<lparr>wd_id = ''w'', wd_runtime = ''local'',
     wd_resources = \<lparr>res_cpu = 4, res_memory = 8, res_disk = 8, res_kind = None, res_count = 0\<rparr>,
     wd_capabilities = {}, wd_features = {}, wd_locality = ''local'', wd_concurrency = 1, wd_labels = {}\<rparr>"

definition ex_budget :: "int \<Rightarrow> int sched_budget" where
  "ex_budget n = \<lparr>sb_tokens = n, sb_wall = 0, sb_compute = 0, sb_jobs = 0, sb_shared = 0\<rparr>"

definition ex_job :: "string \<Rightarrow> int job_request" where
  "ex_job j = \<lparr>jr_id = j, jr_key = j, jr_campaign = ''c'', jr_branch = ''b'', jr_kind = ''eval'',
     jr_lane = \<lparr>ln_id = ''l'', ln_fixture = ''f'', ln_seeds = [], ln_epoch = ''e'', ln_contract = ''k'', ln_environment = ''''\<rparr>,
     jr_resources = \<lparr>res_cpu = 1, res_memory = 1, res_disk = 1, res_kind = None, res_count = 0\<rparr>,
     jr_capabilities = {}, jr_reservation = ex_budget 60, jr_max_attempts = 2, jr_cohort = [], jr_prefer_warm = False,
     jr_grants = [], jr_payload = [], jr_retry_expired = True\<rparr>"

definition ex_result :: "int job_result" where
  "ex_result = \<lparr>jx_outcome = CandidateSuccess, jx_consumed = ex_budget 50, jx_output = ''out'', jx_detail = [],
     jx_cleanup = True, jx_metadata = [], jx_retryable = False\<rparr>"

definition ex_ids :: "nat \<Rightarrow> string" where
  "ex_ids n = replicate (Suc n) (CHR ''u'')"

definition ex_boot :: "int cluster" where
  "ex_boot = boot ex_env ''q'' 30 4 ex_ids int (boot ex_env ''p'' 30 4 ex_ids int \<lparr>cl_log = [], cl_nodes = Map.empty\<rparr>)"

definition ex_queued :: "int cluster" where
  "ex_queued = act ''p'' (enqueue ex_env (ex_job ''j2'')) (act ''p'' (enqueue ex_env (ex_job ''j1''))
     (act ''p'' (configure_campaign ex_env ''c'' (ex_budget 100) [])
       (act ''p'' (register_worker ex_env ex_worker True) ex_boot)))"

definition ex_leased :: "int cluster" where
  "ex_leased = act ''p'' (claim ex_env ''w'' None) ex_queued"

definition ex_completed :: "int cluster" where
  "ex_completed = act ''p'' (complete_lease ex_env ''uuuuu'' ex_result) ex_leased"

lemma ex_valid: "valid_request (ex_job ''j1'')" "valid_request (ex_job ''j2'')"
  by code_simp+

lemma ex_queued_reachable: "reachable_cluster ex_env ex_queued"
proof -
  have "reachable_cluster ex_env \<lparr>cl_log = [], cl_nodes = Map.empty\<rparr>"
    by (rule reach_start) (simp add: cluster_start_def)
  then show ?thesis unfolding ex_queued_def ex_boot_def
    by (intro reach_steps [OF act_steps] reach_steps [OF boot_steps] node_op.intros ex_valid)
qed

lemma ex_leased_reachable: "reachable_cluster ex_env ex_leased"
  unfolding ex_leased_def by (intro reach_steps [OF act_steps] node_op.intros ex_queued_reachable)

lemma ex_completed_steps: "(cluster_step ex_env)\<^sup>*\<^sup>* ex_leased ex_completed"
  unfolding ex_completed_def by (intro act_steps node_op.intros)

lemma ex_completed_reachable: "reachable_cluster ex_env ex_completed"
  by (rule reach_steps [OF ex_completed_steps ex_leased_reachable])

lemma ex_fresh: "fresh_leases ex_completed" "fresh_leases ex_leased"
  by code_simp+

lemma ex_log: "map lr_sequence (cl_log ex_completed) = [1, 2, 3, 4, 5, 6]"
  by code_simp

end
