(* ===== verification/Sched_Claims.thy ===== *)
theory Sched_Claims
  imports Sched_Example
begin

text \<open>
  The properties of the campaign scheduler: of any number of processes that share an event log,
  at any point of any run. All of them rest on the interpretation \<open>cl\<close> of the transition-system
  locale, and speak of the state that a log reduces to, \<open>replayed\<close>.
\<close>

subsection \<open>Lemmas\<close>

lemma cluster_follows:
  "reachable_cluster env c \<Longrightarrow> fresh_leases c \<Longrightarrow> cl_nodes c p = Some n \<Longrightarrow> follows env (cl_log c) (nd_sched n)"
  using cl.reach_inv [of env c] by (simp add: cluster_ok_def)

lemma cluster_tracked:
  assumes "reachable_cluster env c" and "fresh_leases c" and "cl_nodes c p = Some n"
  shows "tracked (nd_sched n, cl_log c)"
  by (rule follows_tracked [OF reachable_lawful [OF assms(1,2)] cluster_follows [OF assms]])

lemma steps_back: "(cluster_step env)\<^sup>*\<^sup>* c c' \<Longrightarrow> fresh_leases c' \<Longrightarrow> fresh_leases c"
  by (induction rule: rtranclp_induct) (auto dest: cl.env_back)

lemma steps_prefix: "(cluster_step env)\<^sup>*\<^sup>* c c' \<Longrightarrow> prefix (cl_log c) (cl_log c')"
proof (induction rule: rtranclp_induct)
  case (step c1 c2)
  from step.hyps(2) have "prefix (cl_log c1) (cl_log c2)"
    by (cases rule: cluster_step.cases) (auto dest: node_op_grows)
  with step.IH show ?case by (rule prefix_order.trans)
qed simp

text \<open>A process behind the log takes no step of the event machine.\<close>

lemma stale_path:
  assumes "(logged env)\<^sup>*\<^sup>* (s, es) y" and "sc_sequence s \<noteq> last_sequence es"
  shows "y = (s, es)"
  using assms by (cases rule: converse_rtranclpE) (auto elim: logged.cases)

subsection \<open>Properties\<close>

text \<open>
  C1. Event sourcing across processes: whatever the processes do, every scheduler's reduced state
  is exactly the replay of the first \<open>sc_sequence\<close> records of the shared log, the records are
  numbered 1, 2, 3 without a gap, and replaying the whole log never raises.
\<close>

theorem scheduler_follows_log:
  assumes "reachable_cluster env c" and "fresh_leases c" and "cl_nodes c p = Some n"
  shows "sc_sequence (nd_sched n) \<le> length (cl_log c) \<and>
    replay_log (sv_digest env) (take (sc_sequence (nd_sched n)) (cl_log c)) empty_sched = (Inr (), nd_sched n) \<and>
    replay_log (sv_digest env) (cl_log c) empty_sched = (Inr (), replayed env (cl_log c)) \<and>
    map lr_sequence (cl_log c) = [1..<Suc (length (cl_log c))]"
proof -
  let ?k = "sc_sequence (nd_sched n)"
  have l: "lawful env (cl_log c)" by (rule reachable_lawful [OF assms(1,2)])
  have f: "?k \<le> length (cl_log c)" "nd_sched n = replayed env (take ?k (cl_log c))"
    using cluster_follows [OF assms] by (auto simp: follows_def)
  have "replay_log (sv_digest env) (take ?k (cl_log c)) empty_sched = (Inr (), nd_sched n)"
    using lawful_replays [OF lawful_take [OF l, of ?k]] f(2) by (simp add: replays_def)
  with f(1) lawful_replays [OF l] show ?thesis by (simp add: replays_def)
qed

theorem scheduler_follows_log_witness:
  "replay_log (sv_digest ex_env) (cl_log ex_completed) empty_sched = (Inr (), replayed ex_env (cl_log ex_completed)) \<and>
   map lr_sequence (cl_log ex_completed) = [1, 2, 3, 4, 5, 6]"
proof -
  have "\<not> Option.is_none (cl_nodes ex_completed ''q'')" by code_simp
  then obtain n where "cl_nodes ex_completed ''q'' = Some n" by (auto simp: Option.is_none_def)
  from scheduler_follows_log [OF ex_completed_reachable ex_fresh(1) this] ex_log show ?thesis by simp
qed

text \<open>
  Optimistic concurrency: a scheduler that another process has overtaken appends nothing and
  changes nothing of its own state, whichever operation it runs, and the record it tries to
  write is refused with \<open>StaleCampaignSchedulerError\<close>.
\<close>

theorem stale_scheduler_is_inert:
  assumes "reachable_cluster env c" and "fresh_leases c" and "cl_nodes c p = Some n"
    and "sc_sequence (nd_sched n) < length (cl_log c)"
    and "node_op env (n\<lparr>nd_log := cl_log c\<rparr>) n'" and "distinct (granted (nd_log n'))"
  shows "nd_log n' = cl_log c \<and> nd_sched n' = nd_sched n \<and>
    fst (record_event env ev (n\<lparr>nd_log := cl_log c\<rparr>)) =
      Inl (stale_scheduler (sc_sequence (nd_sched n) + 1) (length (cl_log c) + 1))"
proof -
  have last: "last_sequence (cl_log c) = length (cl_log c)"
    using lawful_sequence [OF reachable_lawful [OF assms(1,2)]] by simp
  have "(logged env)\<^sup>*\<^sup>* (nd_sched n, cl_log c) (nd_sched n', nd_log n')"
    using node_op_path [OF assms(5)] cluster_tracked [OF assms(1-3)] assms(6) by (simp add: view_def fresh_log_def)
  from stale_path [OF this] last assms(4) show ?thesis by (simp add: record_event_run)
qed

theorem stale_scheduler_is_inert_witness:
  "\<exists>n n'. cl_nodes ex_completed ''q'' = Some n \<and> sc_sequence (nd_sched n) < length (cl_log ex_completed) \<and>
     node_op ex_env (n\<lparr>nd_log := cl_log ex_completed\<rparr>) n' \<and> nd_log n' = cl_log ex_completed"
proof -
  have "\<not> Option.is_none (cl_nodes ex_completed ''q'')" by code_simp
  then obtain n where n: "cl_nodes ex_completed ''q'' = Some n" by (auto simp: Option.is_none_def)
  have "(case cl_nodes ex_completed ''q'' of Some n \<Rightarrow> sc_sequence (nd_sched n) < length (cl_log ex_completed) \<and>
      distinct (granted (nd_log (snd (reconcile ex_env None (n\<lparr>nd_log := cl_log ex_completed\<rparr>))))) | None \<Rightarrow> False)" by code_simp
  with n have s: "sc_sequence (nd_sched n) < length (cl_log ex_completed)"
    and d: "distinct (granted (nd_log (snd (reconcile ex_env None (n\<lparr>nd_log := cl_log ex_completed\<rparr>)))))" by simp_all
  from stale_scheduler_is_inert [OF ex_completed_reachable ex_fresh(1) n s op_reconcile d] n s op_reconcile
  show ?thesis by blast
qed

text \<open>
  C20. Bounded retries: the number of leases that the log grants for a job is its attempt
  counter, and never exceeds the job's \<open>max_attempts\<close>.
\<close>

theorem dispatches_bounded:
  assumes "reachable_cluster env c" and "fresh_leases c"
    and "map_of (sc_jobs (replayed env (cl_log c))) j = Some st"
  shows "int (dispatches j (cl_log c)) = js_attempts st \<and> js_attempts st \<le> jr_max_attempts (js_request st)"
proof -
  have l: "lawful env (cl_log c)" by (rule reachable_lawful [OF assms(1,2)])
  from lawful_attempts_job [OF l assms(3)] sched_ok_job [OF lawful_ok [OF l] assms(3)]
  show ?thesis by (simp add: job_ok_def)
qed

theorem dispatches_bounded_witness: "dispatches ''j1'' (cl_log ex_completed) = 1"
proof -
  have "(case map_of (sc_jobs (replayed ex_env (cl_log ex_completed))) ''j1'' of Some st \<Rightarrow> js_attempts st = 1 | None \<Rightarrow> False)"
    by code_simp
  then obtain st where "map_of (sc_jobs (replayed ex_env (cl_log ex_completed))) ''j1'' = Some st" "js_attempts st = 1"
    by (auto split: option.splits)
  with dispatches_bounded [OF ex_completed_reachable ex_fresh(1) this(1)] show ?thesis by simp
qed

text \<open>
  C16. Ended jobs are final: once a job has succeeded, failed, run out of budget or been canceled,
  no later operation of any process changes its status, its attempts or its scored result, not
  even a late or a repeated completion.
\<close>

theorem ended_job_is_final:
  assumes "reachable_cluster env c" and "(cluster_step env)\<^sup>*\<^sup>* c c'" and "fresh_leases c'"
    and "map_of (sc_jobs (replayed env (cl_log c))) j = Some st" and "js_status st \<in> terminal_statuses"
  shows "\<exists>st'. map_of (sc_jobs (replayed env (cl_log c'))) j = Some st' \<and> js_request st' = js_request st \<and>
    js_status st' = js_status st \<and> js_attempts st' = js_attempts st \<and> js_result st' = js_result st"
proof -
  have l: "lawful env (cl_log c')" by (rule reachable_lawful [OF reach_steps [OF assms(2,1)] assms(3)])
  have core: "jobs_abs (replayed env (cl_log c)) j = Some (job_core_of st)" using assms(4) by (simp add: jobs_abs_def)
  with assms(5) have "ended (jobs_abs (replayed env (cl_log c)) j)" by (simp add: ended_def job_core_of_def)
  from lawful_ended [OF l steps_prefix [OF assms(2)] this] core
  show ?thesis by (auto simp: jobs_abs_def job_core_of_def)
qed

theorem ended_job_is_final_witness:
  "\<exists>st'. map_of (sc_jobs (replayed ex_env (cl_log (act ''p'' (complete_lease ex_env ''uuuuu'' (ex_result\<lparr>jx_outcome := CandidateFailure\<rparr>))
     ex_completed)))) ''j1'' = Some st' \<and> js_status st' = Succeeded"
proof -
  let ?c = "act ''p'' (complete_lease ex_env ''uuuuu'' (ex_result\<lparr>jx_outcome := CandidateFailure\<rparr>)) ex_completed"
  have s: "(cluster_step ex_env)\<^sup>*\<^sup>* ex_completed ?c" by (intro act_steps node_op.intros)
  have f: "fresh_leases ?c" by code_simp
  have "(case map_of (sc_jobs (replayed ex_env (cl_log ex_completed))) ''j1'' of Some st \<Rightarrow> js_status st = Succeeded | None \<Rightarrow> False)"
    by code_simp
  then obtain st where st: "map_of (sc_jobs (replayed ex_env (cl_log ex_completed))) ''j1'' = Some st" "js_status st = Succeeded"
    by (auto split: option.splits)
  from ended_job_is_final [OF ex_completed_reachable s f st(1)] st(2) show ?thesis by (auto simp: terminal_statuses_def)
qed

end
