(* ===== verification/Sched_Safety_Claims.thy ===== *)
theory Sched_Safety_Claims
  imports Sched_Claims
begin

text \<open>
  What the scheduler promises of budgets, capacities and results: no lease is granted beyond a
  limit or a worker's capacity, the reservation ledger is exact, a lease is billed for one
  actual result, and repeating a completion or a submission changes nothing.
\<close>

subsection \<open>Lemmas\<close>

text \<open>The guard under which a lease was granted.\<close>

lemma lease_record:
  assumes "lawful env es" and "k < length es" and "lr_event (es ! k) = JobLeased l b" and "s = replayed env (take k es)"
  obtains st ws where "map_of (sc_jobs s) (le_job l) = Some st" and "map_of (sc_workers s) (le_worker l) = Some ws"
    and "js_status st = Queued" and "job_budget_state s (js_request st) = BudgetAvailable"
    and "worker_matches env s ws (js_request st) = Inr True"
    and "int (length (ws_active ws)) < wd_concurrency (ws_descriptor ws)"
  using lawful_nth [OF assms(1,2)] assms(3,4) by auto

lemma limit_available:
  assumes "limit_state (Some x) c r b = BudgetAvailable" and "d \<in> whole_dims" and "d x \<noteq> 0"
  shows "d c + d r + d b \<le> d x"
proof -
  have "budget_within (budget_add (budget_add r c) b) x"
    using assms(1) by (simp add: limit_state_def split: if_splits)
  then show ?thesis using assms(2,3) by (auto simp: budget_within_def within_limit_def whole_dims_def)
qed

lemma joint_state:
  "(if c = BudgetSpent \<or> b = BudgetSpent then BudgetSpent
    else if c = BudgetReserved \<or> b = BudgetReserved then BudgetReserved else BudgetAvailable) = BudgetAvailable \<Longrightarrow>
   c = BudgetAvailable \<and> b = BudgetAvailable"
  by (cases c; cases b) simp_all

lemma available_both:
  "job_budget_state s r = BudgetAvailable \<Longrightarrow>
     limit_state (map_of (sc_limits s) (jr_campaign r)) (budget_at (jr_campaign r) (sc_consumed s))
       (budget_at (jr_campaign r) (sc_reserved s)) (jr_reservation r) = BudgetAvailable \<and>
     limit_state (map_of (sc_branch_limits s) (job_branch r)) (budget_at (job_branch r) (sc_branch_consumed s))
       (budget_at (job_branch r) (sc_branch_reserved s)) (jr_reservation r) = BudgetAvailable"
  unfolding job_budget_state_def Let_def by (rule joint_state)

text \<open>A lease whose actual result is booked: completing it again changes nothing.\<close>

lemma billed_completion:
  assumes ok: "sched_ok (nd_sched n)" and b: "has_bill lid (results_of (nd_sched n)) = 1"
  shows "\<exists>y. complete_locked env lid x n = (Inr (y, None), n)"
proof -
  let ?s = "nd_sched n"
  from b have noted: "lid \<in> set (sc_result_leases ?s)" and p: "map_of (sc_provisional ?s) lid = None"
    by (auto simp: has_bill_def results_of_def split: if_splits)
  have "\<exists>j. map_of (sc_history ?s) lid = Some j" using ok noted unfolding sched_ok_def history_ok_def by blast
  then obtain j where j: "map_of (sc_history ?s) lid = Some j" by blast
  moreover from j have "\<exists>st. map_of (sc_jobs ?s) j = Some st" using ok unfolding sched_ok_def history_ok_def by blast
  then obtain st where "map_of (sc_jobs ?s) j = Some st" by blast
  moreover have "map_of (sc_leases ?s) lid = None"
    using leases_okD(1) [OF ok, of lid] leases_okD(4) [OF ok] noted by (metis not_Some_eq)
  ultimately show ?thesis using noted p
    by (simp add: complete_locked_def complete_historical_def leased_job_def reads_def bind_def)
qed

lemma record_ran:
  assumes run: "record_event env ev n = (Inr u, n')" and t: "tracked (view n)" and adm: "admissible env ev (nd_sched n)"
  shows "sched_ok (nd_sched n') \<and> results_of (nd_sched n') = results_step ev (results_of (nd_sched n))"
proof -
  from run have q: "sc_sequence (nd_sched n) = last_sequence (nd_log n)"
    and a: "apply_scheduler_event (sv_digest env) (next_record n ev) (nd_sched n) = (Inr u, nd_sched n')"
    by (auto simp: record_event_run split: if_splits prod.splits)
  from a q adm have l: "logged env (nd_sched n, nd_log n) (nd_sched n', nd_log n @ [next_record n ev])"
    by (intro logged_event) (simp_all add: next_record_def)
  from logged_results [OF l] logged_tracked [OF l] t show ?thesis
    by (simp add: next_record_def tracked_def view_def)
qed

lemma bill_recorded:
  assumes "record_event env ev n = (Inr u, n')" and t: "tracked (view n)" and adm: "admissible env ev (nd_sched n)"
    and "actual_result lid ev"
  shows "sched_ok (nd_sched n') \<and> has_bill lid (results_of (nd_sched n')) = 1"
  using record_ran [OF assms(1-3)] bill_step [OF tracked_ok [OF t] adm, of lid] assms(4)
  by (auto simp: has_bill_def split: if_splits)

lemma historical_bills:
  assumes run: "complete_historical env lid x n = (Inr y, n')" and t: "tracked (view n)"
    and none: "map_of (sc_leases (nd_sched n)) lid = None"
  shows "sched_ok (nd_sched n') \<and> has_bill lid (results_of (nd_sched n')) = 1"
proof -
  have ok: "sched_ok (nd_sched n)" by (rule tracked_ok [OF t])
  from run obtain j st where h: "map_of (sc_history (nd_sched n)) lid = Some j" and job: "map_of (sc_jobs (nd_sched n)) j = Some st"
    by (auto simp: complete_historical_def reads_def bind_def split: option.splits)
  have nl: "\<not> has_lease lid st" using has_lease_table [OF ok job] none by auto
  show ?thesis
  proof (cases "lid \<in> set (sc_result_leases (nd_sched n)) \<and> map_of (sc_provisional (nd_sched n)) lid = None")
    case True
    with run h job have "n' = n" by (simp add: complete_historical_def reads_def bind_def)
    with True ok show ?thesis by (simp add: has_bill_def results_of_def domIff)
  next
    case False
    let ?ev = "if js_status st = Canceled then JobCanceledLate j lid x else JobStaleCompleted j lid x"
    from run h job False obtain u where "record_event env ?ev n = (Inr u, n')"
      by (auto simp: complete_historical_def reads_def elim!: bind_InrE)
    moreover have "admissible env ?ev (nd_sched n)" using h job nl False by (auto simp: job_in_def)
    ultimately show ?thesis using t by (intro bill_recorded [of env ?ev n u n' lid]) simp_all
  qed
qed

lemma completion_bills:
  assumes run: "complete_locked env lid x n = (Inr (y, a), n')" and t: "tracked (view n)"
  shows "sched_ok (nd_sched n') \<and> has_bill lid (results_of (nd_sched n')) = 1"
proof (cases "leased_job (nd_sched n) lid")
  case (Inl e)
  with run show ?thesis by (simp add: complete_locked_def reads_def bind_def)
next
  case (Inr found)
  show ?thesis
  proof (cases found)
    case None
    with Inr have "map_of (sc_leases (nd_sched n)) lid = None" by (auto simp: leased_job_def split: option.splits)
    moreover from run Inr None have "complete_historical env lid x n = (Inr y, n')"
      by (auto simp: complete_locked_def reads_def elim!: bind_InrE)
    ultimately show ?thesis using t by (intro historical_bills)
  next
    case (Some q)
    obtain j st where q: "q = (j, st)" by (cases q)
    note l = leased_job_holds [OF tracked_ok [OF t] Inr [unfolded Some q]]
    obtain l' where l': "js_lease st = Some l'" "le_id l' = lid" using l(2) by (auto simp: has_lease_def split: option.splits)
    let ?ev = "if js_status st = Canceling then JobCanceledLate j lid x
       else if jx_outcome x = InfrastructureFailure \<and> jx_retryable x \<and> js_attempts st < jr_max_attempts (js_request st)
       then JobRequeued j lid (if jx_detail x \<noteq> [] then jx_detail x else ''infrastructure_failure'') (Some x) False
       else JobFinished j lid x"
    from run Inr Some q l' l(3) obtain u where "record_event env ?ev n = (Inr u, n')"
      by (cases "js_status st = Canceling") (auto simp: complete_locked_def reads_def elim!: bind_InrE)
    moreover have "admissible env ?ev (nd_sched n)" using l by (auto simp: job_in_def)
    ultimately show ?thesis using t by (intro bill_recorded [of env ?ev n u n' lid]) simp_all
  qed
qed

lemma enqueue_again:
  assumes "map_of (sc_idempotency (nd_sched n)) (jr_campaign r, jr_key r) = Some j"
    and "map_of (sc_jobs (nd_sched n)) j = Some st"
    and "jr_campaign r' = jr_campaign r" and "jr_key r' = jr_key r"
  shows "enqueue env r' n = (if js_request st = r' then (Inr j, n)
     else (Inl (ValueError ''campaign idempotency key conflicts with a different durable job request''), n))"
  using assms by (simp add: enqueue_def reads_def bind_def)

lemma enqueue_books:
  assumes "enqueue env r n = (Inr j, n')"
  shows "\<exists>st. map_of (sc_idempotency (nd_sched n')) (jr_campaign r, jr_key r) = Some j \<and>
     map_of (sc_jobs (nd_sched n')) j = Some st \<and> js_request st = r"
proof (cases "map_of (sc_idempotency (nd_sched n)) (jr_campaign r, jr_key r)")
  case (Some k)
  with assms show ?thesis by (auto simp: enqueue_def reads_def bind_def split: option.splits if_splits)
next
  case None
  with assms obtain u where r: "record_event env (JobEnqueued r) n = (Inr u, n')" and j: "j = jr_id r"
    by (auto simp: enqueue_def reads_def elim!: bind_InrE split: if_splits)
  from r have "apply_enqueued (sv_digest env) r ((nd_sched n)\<lparr>sc_sequence := sc_sequence (nd_sched n) + 1\<rparr>) = (Inr u, nd_sched n')"
    by (auto simp: record_event_run next_record_def apply_event_run split: if_splits prod.splits)
  with j show ?thesis by (cases n') (auto simp: apply_enqueued_def new_job_def split: if_splits)
qed

lemma set_orphans:
  "set (orphan_leases s) = {lid. \<exists>j st l. (j, st) \<in> set (sc_jobs s) \<and> js_status st = Leased \<and> js_lease st = Some l \<and> le_id l = lid}"
    (is "?A = ?B")
proof (intro equalityI subsetI)
  show "lid \<in> ?B" if "lid \<in> ?A" for lid
    using that by (auto simp: orphan_leases_def split: option.splits if_splits) (metis option.inject)
  fix lid assume "lid \<in> ?B"
  then obtain j st l where "(j, st) \<in> set (sc_jobs s)" "js_status st = Leased" "js_lease st = Some l" "le_id l = lid" by blast
  then show "lid \<in> ?A" unfolding orphan_leases_def by (auto intro!: bexI [of _ "(j, st)"])
qed

subsection \<open>Properties\<close>

text \<open>
  C5. Admission control: whenever a lease is granted under a campaign limit, what the campaign has
  consumed, the reservations of all its leases in flight and the new reservation together stay
  within the limit, on each integer dimension that is limited; and the same for a branch limit.
\<close>

theorem dispatch_within_budget:
  assumes "reachable_cluster env c" and "fresh_leases c" and "k < length (cl_log c)"
    and "lr_event (cl_log c ! k) = JobLeased l b"
  shows "\<exists>st. map_of (sc_jobs (replayed env (take k (cl_log c)))) (le_job l) = Some st \<and>
    (let s = replayed env (take k (cl_log c)); r = js_request st in
     \<forall>d \<in> whole_dims.
       (\<forall>x. map_of (sc_limits s) (jr_campaign r) = Some x \<longrightarrow> d x \<noteq> 0 \<longrightarrow>
          d (budget_at (jr_campaign r) (sc_consumed s)) + in_flight d jr_campaign (jr_campaign r) s + d (jr_reservation r) \<le> d x) \<and>
       (\<forall>x. map_of (sc_branch_limits s) (job_branch r) = Some x \<longrightarrow> d x \<noteq> 0 \<longrightarrow>
          d (budget_at (job_branch r) (sc_branch_consumed s)) + in_flight d job_branch (job_branch r) s + d (jr_reservation r) \<le> d x))"
proof -
  let ?s = "replayed env (take k (cl_log c))"
  have l: "lawful env (cl_log c)" by (rule reachable_lawful [OF assms(1,2)])
  obtain st ws where st: "map_of (sc_jobs ?s) (le_job l) = Some st"
    and av: "job_budget_state ?s (js_request st) = BudgetAvailable"
    by (rule lease_record [OF l assms(3,4) refl])
  have exact: "d (budget_at i (sc_reserved ?s)) = in_flight d jr_campaign i ?s"
    "d (budget_at i' (sc_branch_reserved ?s)) = in_flight d job_branch i' ?s" if "d \<in> whole_dims" for d i i'
    using lawful_books [OF lawful_take [OF l, of k]] that unfolding books_ok_def reserved_exact_def by blast+
  note limits = available_both [OF av]
  show ?thesis
    unfolding Let_def
  proof (intro exI conjI ballI allI impI)
    show "map_of (sc_jobs ?s) (le_job l) = Some st" by (rule st)
  next
    fix d :: "'a sched_budget \<Rightarrow> int" and x assume d: "d \<in> whole_dims" "d x \<noteq> 0"
    let ?r = "js_request st"
    show "d (budget_at (jr_campaign ?r) (sc_consumed ?s)) + in_flight d jr_campaign (jr_campaign ?r) ?s + d (jr_reservation ?r) \<le> d x"
      if "map_of (sc_limits ?s) (jr_campaign ?r) = Some x"
      using limit_available [OF _ d] limits exact [OF d(1)] that by metis
    show "d (budget_at (job_branch ?r) (sc_branch_consumed ?s)) + in_flight d job_branch (job_branch ?r) ?s + d (jr_reservation ?r) \<le> d x"
      if "map_of (sc_branch_limits ?s) (job_branch ?r) = Some x"
      using limit_available [OF _ d] limits exact [OF d(1)] that by metis
  qed
qed

lemma ex_lease_record:
  "\<exists>l b. lr_event (cl_log ex_completed ! 4) = JobLeased l b \<and> le_job l = ''j1'' \<and> le_worker l = ''w''"
proof -
  have "(case lr_event (cl_log ex_completed ! 4) of JobLeased l b \<Rightarrow> le_job l = ''j1'' \<and> le_worker l = ''w'' | _ \<Rightarrow> False)"
    by code_simp
  then show ?thesis by (auto split: sched_event.splits)
qed

lemma ex_length: "length (cl_log ex_completed) = 6"
  by code_simp

theorem dispatch_within_budget_witness:
  "\<exists>st. map_of (sc_jobs (replayed ex_env (take 4 (cl_log ex_completed)))) ''j1'' = Some st"
proof -
  have k: "4 < length (cl_log ex_completed)" by (simp add: ex_length)
  obtain l b where l: "lr_event (cl_log ex_completed ! 4) = JobLeased l b" "le_job l = ''j1''"
    using ex_lease_record by auto
  from dispatch_within_budget [OF ex_completed_reachable ex_fresh(1) k l(1)] l(2) show ?thesis by auto
qed

text \<open>
  C31. Capacity: whenever a lease is granted, the worker is registered and has a free slot, the
  resources of its active leases can be added up, what they leave of the worker's resources
  covers the job's, and the worker has every capability that the job asks for.
\<close>

theorem dispatch_fits_worker:
  assumes "reachable_cluster env c" and "fresh_leases c" and "k < length (cl_log c)"
    and "lr_event (cl_log c ! k) = JobLeased l b" and "s = replayed env (take k (cl_log c))"
  shows "\<exists>st ws used. map_of (sc_jobs s) (le_job l) = Some st \<and> map_of (sc_workers s) (le_worker l) = Some ws \<and>
    card {lid. \<exists>j. holds s j (le_worker l) lid} < nat (wd_concurrency (ws_descriptor ws)) \<and>
    used_resources s no_resources (ws_active ws) = Inr used \<and>
    resources_fit (resources_subtract (wd_resources (ws_descriptor ws)) used) (jr_resources (js_request st)) \<and>
    jr_capabilities (js_request st) \<subseteq> wd_capabilities (ws_descriptor ws)"
proof -
  have l: "lawful env (cl_log c)" by (rule reachable_lawful [OF assms(1,2)])
  have ok: "sched_ok s" unfolding assms(5) by (rule lawful_ok [OF lawful_take [OF l]])
  obtain st ws where st: "map_of (sc_jobs s) (le_job l) = Some st" and ws: "map_of (sc_workers s) (le_worker l) = Some ws"
    and m: "worker_matches env s ws (js_request st) = Inr True" and slot: "int (length (ws_active ws)) < wd_concurrency (ws_descriptor ws)"
    by (rule lease_record [OF l assms(3,4,5)])
  have a: "active_at s (le_worker l) = ws_active ws" using ws by (simp add: active_at_def)
  have "{lid. \<exists>j. holds s j (le_worker l) lid} = set (ws_active ws)"
    using leases_okD(2) [OF ok, of _ "le_worker l"] a by auto
  moreover have "distinct (ws_active ws)" using leases_okD(3) [OF ok, of "le_worker l"] a by simp
  ultimately have "card {lid. \<exists>j. holds s j (le_worker l) lid} = length (ws_active ws)" by (simp add: distinct_card)
  with st ws m slot show ?thesis by (auto simp: worker_matches_def split: sum.splits)
qed

theorem dispatch_fits_worker_witness:
  "\<exists>ws. map_of (sc_workers (replayed ex_env (take 4 (cl_log ex_completed)))) ''w'' = Some ws"
proof -
  have k: "4 < length (cl_log ex_completed)" by (simp add: ex_length)
  obtain l b where l: "lr_event (cl_log ex_completed ! 4) = JobLeased l b" "le_worker l = ''w''"
    using ex_lease_record by auto
  from dispatch_fits_worker [OF ex_completed_reachable ex_fresh(1) k l(1) refl] l(2) show ?thesis by auto
qed

text \<open>
  C22. The reservation ledger agrees with its definition: on each integer dimension the running
  totals that the scheduler keeps per campaign and per branch are the sums of the reservations
  of the jobs that hold a lease. Nothing leaks and nothing is released twice.
\<close>

theorem reserved_is_in_flight:
  assumes "reachable_cluster env c" and "fresh_leases c" and "s = replayed env (cl_log c)" and "d \<in> whole_dims"
  shows "d (budget_at i (sc_reserved s)) = in_flight d jr_campaign i s \<and>
    d (budget_at (i, b) (sc_branch_reserved s)) = in_flight d job_branch (i, b) s"
  using lawful_books [OF reachable_lawful [OF assms(1,2)]] assms(3,4) unfolding books_ok_def reserved_exact_def by blast

theorem reserved_is_in_flight_witness:
  "in_flight sb_tokens jr_campaign ''c'' (replayed ex_env (cl_log ex_leased)) = 60"
proof -
  have "sb_tokens (budget_at ''c'' (sc_reserved (replayed ex_env (cl_log ex_leased)))) = 60" by code_simp
  with reserved_is_in_flight [OF ex_leased_reachable ex_fresh(2) refl, of sb_tokens "''c''"]
  show ?thesis by (simp add: whole_dims_def)
qed

text \<open>
  C12. One actual result per lease: whatever is completed, repeated, late, canceled or expired, in
  whatever order and by whichever process, the log never books two actual results of one lease.
\<close>

theorem lease_billed_once:
  assumes "reachable_cluster env c" and "fresh_leases c"
  shows "length (filter (\<lambda>e. actual_result lid (lr_event e)) (cl_log c)) \<le> 1"
  using lawful_bill [OF reachable_lawful [OF assms], of lid] by (simp add: has_bill_def)

theorem lease_billed_once_witness:
  "length (filter (\<lambda>e. actual_result ''uuuuu'' (lr_event e)) (cl_log ex_completed)) \<le> 1"
  by (rule lease_billed_once [OF ex_completed_reachable ex_fresh(1)])

text \<open>
  Completion is idempotent: after a completion of a lease has returned, any further completion
  of that lease, whatever result it reports, returns as well and changes nothing.
\<close>

theorem complete_is_idempotent:
  assumes "reachable_cluster env c" and "fresh_leases c" and "cl_nodes c p = Some n"
    and "complete_locked env lid x (n\<lparr>nd_log := cl_log c\<rparr>) = (Inr (y, a), n')"
  shows "\<exists>z. complete_locked env lid x' n' = (Inr (z, None), n')"
proof -
  have "tracked (view (n\<lparr>nd_log := cl_log c\<rparr>))" using cluster_tracked [OF assms(1-3)] by (simp add: view_def)
  from completion_bills [OF assms(4) this] show ?thesis by (intro billed_completion) simp_all
qed

theorem complete_is_idempotent_witness:
  "\<exists>n'. (\<exists>n y a. cl_nodes ex_leased ''p'' = Some n \<and>
       complete_locked ex_env ''uuuuu'' ex_result (n\<lparr>nd_log := cl_log ex_leased\<rparr>) = (Inr (y, a), n')) \<and>
     (\<exists>z. complete_locked ex_env ''uuuuu'' (ex_result\<lparr>jx_outcome := CandidateFailure\<rparr>) n' = (Inr (z, None), n'))"
proof -
  have "(case cl_nodes ex_leased ''p'' of None \<Rightarrow> False
    | Some n \<Rightarrow> (case fst (complete_locked ex_env ''uuuuu'' ex_result (n\<lparr>nd_log := cl_log ex_leased\<rparr>)) of
        Inl e \<Rightarrow> False | Inr y \<Rightarrow> True))" by code_simp
  then obtain n y where n: "cl_nodes ex_leased ''p'' = Some n"
    and y: "fst (complete_locked ex_env ''uuuuu'' ex_result (n\<lparr>nd_log := cl_log ex_leased\<rparr>)) = Inr y"
    by (auto split: option.splits sum.splits)
  obtain n' where r: "complete_locked ex_env ''uuuuu'' ex_result (n\<lparr>nd_log := cl_log ex_leased\<rparr>) = (Inr (fst y, snd y), n')"
    using y by (metis prod.collapse)
  from complete_is_idempotent [OF ex_leased_reachable ex_fresh(2) n r] n r show ?thesis by blast
qed

text \<open>
  Submission is idempotent: after \<open>enqueue\<close> has returned, submitting the same request again
  returns the same job and changes nothing, and any other request under the same campaign and
  key is refused without a change.
\<close>

theorem enqueue_is_idempotent:
  assumes "enqueue env r n = (Inr j, n')"
  shows "enqueue env r n' = (Inr j, n') \<and>
    (r' \<noteq> r \<and> jr_campaign r' = jr_campaign r \<and> jr_key r' = jr_key r \<longrightarrow>
      enqueue env r' n' = (Inl (ValueError ''campaign idempotency key conflicts with a different durable job request''), n'))"
proof -
  from enqueue_books [OF assms] obtain st where b: "map_of (sc_idempotency (nd_sched n')) (jr_campaign r, jr_key r) = Some j"
    "map_of (sc_jobs (nd_sched n')) j = Some st" and r: "js_request st = r" by blast
  from enqueue_again [OF b, of r env] enqueue_again [OF b, of r' env] r show ?thesis by auto
qed

theorem enqueue_is_idempotent_witness:
  "\<exists>n'. enqueue ex_env (ex_job ''j1'') n' = (Inr ''j1'', n')"
proof -
  have "(case cl_nodes ex_boot ''p'' of None \<Rightarrow> False
    | Some n \<Rightarrow> (case fst (enqueue ex_env (ex_job ''j1'') n) of Inl e \<Rightarrow> False | Inr y \<Rightarrow> y = ''j1''))" by code_simp
  then obtain n where "fst (enqueue ex_env (ex_job ''j1'') n) = Inr ''j1''" by (auto split: option.splits sum.splits)
  then obtain n' where "enqueue ex_env (ex_job ''j1'') n = (Inr ''j1'', n')" by (metis prod.collapse)
  from enqueue_is_idempotent [OF this] show ?thesis by blast
qed

text \<open>
  C32. A restart always succeeds: whatever the processes have done, a new scheduler with a positive
  lease time and a positive concurrency starts from the log without raising, its state is
  well-formed (each job's attempts within bounds, a lease exactly while it is dispatched, the
  tables of leases and workers in agreement), and its orphans are exactly the leases in force.
\<close>

theorem restart_succeeds:
  assumes "reachable_cluster env c" and "fresh_leases c" and "0 < d" and "1 \<le> k"
  shows "\<exists>n. new_node env (cl_log c) d k ids clk = Inr n \<and> sched_ok (nd_sched n) \<and>
    set (nd_orphans n) = {lid. \<exists>j st l. map_of (sc_jobs (nd_sched n)) j = Some st \<and> js_status st = Leased \<and>
      js_lease st = Some l \<and> le_id l = lid}"
proof -
  have l: "lawful env (cl_log c)" by (rule reachable_lawful [OF assms(1,2)])
  let ?s = "replayed env (cl_log c)"
  have run: "replay_log (sv_digest env) (cl_log c) empty_sched = (Inr (), ?s)"
    using lawful_replays [OF l] by (simp add: replays_def)
  have ok: "sched_ok ?s" by (rule lawful_ok [OF l])
  then have d: "distinct (map fst (sc_jobs ?s))" by (simp add: sched_ok_def jobs_ok_def)
  have "set (orphan_leases ?s) = {lid. \<exists>j st l. (j, st) \<in> set (sc_jobs ?s) \<and> js_status st = Leased \<and> js_lease st = Some l \<and> le_id l = lid}"
    by (rule set_orphans)
  also have "\<dots> = {lid. \<exists>j st l. map_of (sc_jobs ?s) j = Some st \<and> js_status st = Leased \<and> js_lease st = Some l \<and> le_id l = lid}"
    using map_of_eq_Some_iff [OF d] by simp
  finally show ?thesis using run ok assms(3,4) by (simp add: new_node_def restart_orphan_lease_sets_def)
qed

theorem restart_succeeds_witness:
  "\<exists>n. new_node ex_env (cl_log ex_completed) 30 4 ex_ids int = Inr n \<and> sched_ok (nd_sched n)"
  using restart_succeeds [OF ex_completed_reachable ex_fresh(1), of 30 4 ex_ids int] by auto

end
