(* ===== verification/Sched_Log.thy ===== *)
theory Sched_Log
  imports Sched_Ops
begin

text \<open>
  The event log as a file, \<^verbatim>\<open>execution/campaign_scheduler_store.py\<close>: one record per line, appended
  under a lock, read back from the start. A process may die in the middle of a write, so a file
  may end in a part of a record; a part that has no newline is dropped when the file is read,
  any other damage is refused. A file is its text, \<open>None\<close> when it does not exist; an operation
  gives its result and the file that it leaves.

  What a record is as an object, its line, the reading of a line and the digest are the interface
  \<open>log_codec\<close>, which \<open>Sched_Records\<close> implements. \<open>lc_parse\<close> gives the object without its checksum,
  and the checksum; \<open>Unreadable\<close> where the code catches what decoding, parsing or the missing key raises.
\<close>

subsection \<open>Lines\<close>

definition newline :: "char \<Rightarrow> bool" where
  "newline ch \<longleftrightarrow> ch = CHR 0x0A \<or> ch = CHR 0x0D"

text \<open>\<open>bytes.splitlines(keepends=True)\<close>: a line ends with LF, CR or CR LF.\<close>

fun split_lines :: "string \<Rightarrow> string list" where
  "split_lines [] = []"
| "split_lines (ch # cs) =
     (if ch = CHR 0x0A \<or> ch = CHR 0x0D \<and> take 1 cs \<noteq> [CHR 0x0A] then [ch] # split_lines cs
      else (case split_lines cs of [] \<Rightarrow> [[ch]] | l # ls \<Rightarrow> (ch # l) # ls))"

definition terminated :: "string \<Rightarrow> bool" where
  "terminated l \<longleftrightarrow> l \<noteq> [] \<and> newline (last l)"

definition rstrip_newlines :: "string \<Rightarrow> string" where
  "rstrip_newlines l = rev (dropWhile newline (rev l))"

subsection \<open>Reading\<close>

datatype parsed = Parsed dict string | Unreadable | Escapes exc

record 'f log_codec =
  lc_body :: "'f log_record \<Rightarrow> dict"
  lc_encode :: "'f log_record \<Rightarrow> string"
  lc_parse :: "string \<Rightarrow> parsed"
  lc_digest :: "dict \<Rightarrow> string res"
  lc_event :: "nat \<Rightarrow> dict \<Rightarrow> 'f log_record res"

text \<open>Python's \<open>data.get("sequence") == n\<close> for an integer \<open>n\<close>.\<close>

definition json_is_int :: "json option \<Rightarrow> int \<Rightarrow> bool" where
  "json_is_int x n = (case x of
       Some (JInt k) \<Rightarrow> k = n
     | Some (JFloat q) \<Rightarrow> q = of_int n
     | Some (JBool b) \<Rightarrow> n = (if b then 1 else 0)
     | _ \<Rightarrow> False)"

text \<open>
  The loop of \<open>_read_unlocked\<close>, at line number \<open>n\<close> and byte offset \<open>off\<close>: all lines read, a torn
  last line to be cut off at an offset, or an exception.
\<close>

datatype 'f scan = ScanDone "'f log_record list" | ScanTorn "'f log_record list" nat | ScanFailed exc

fun scan_lines :: "'f log_codec \<Rightarrow> string list \<Rightarrow> nat \<Rightarrow> nat \<Rightarrow> 'f log_record list \<Rightarrow> 'f scan" where
  "scan_lines c [] n off es = ScanDone es"
| "scan_lines c (l # ls) n off es =
     (let bad = (\<lambda>msg. if ls = [] \<and> \<not> terminated l then ScanTorn es off
                 else ScanFailed (ValueError (msg @ '' at line '' @ str_int (int n)))) in
      case lc_parse c (rstrip_newlines l) of
        Unreadable \<Rightarrow> bad ''invalid scheduler event''
      | Escapes e \<Rightarrow> ScanFailed e
      | Parsed d checksum \<Rightarrow> (case lc_digest c d of Inl e \<Rightarrow> ScanFailed e | Inr digest \<Rightarrow>
          (if digest \<noteq> checksum then bad ''scheduler event checksum mismatch''
           else if \<not> json_is_int (map_of d ''sequence'') (int (length es) + 1) then bad ''scheduler event sequence mismatch''
           else (case lc_event c (length es + 1) d of
               Inl e \<Rightarrow> ScanFailed e
             | Inr e \<Rightarrow> scan_lines c ls (n + 1) (off + length l) (es @ [e])))))"

definition read_log :: "'f log_codec \<Rightarrow> string option \<Rightarrow> 'f log_record list res \<times> string option" where
  "read_log c file = (case file of
       None \<Rightarrow> (Inr [], None)
     | Some raw \<Rightarrow> (case scan_lines c (split_lines raw) 1 0 [] of
         ScanFailed e \<Rightarrow> (Inl e, Some raw)
       | ScanTorn es off \<Rightarrow> (Inr es, Some (take off raw))
       | ScanDone es \<Rightarrow> (Inr es, Some (if split_lines raw \<noteq> [] \<and> es \<noteq> [] \<and> \<not> terminated (last (split_lines raw))
             then raw @ [CHR 0x0A] else raw))))"

subsection \<open>Appending\<close>

definition log_line :: "'f log_codec \<Rightarrow> 'f log_record \<Rightarrow> string" where
  "log_line c e = lc_encode c e @ [CHR 0x0A]"

text \<open>\<open>append\<close>, cut off after \<open>k\<close> bytes when the process dies; \<open>None\<close> when it runs to its end.\<close>

definition append_log :: "'f log_codec \<Rightarrow> nat option \<Rightarrow> 'f log_record \<Rightarrow> string option \<Rightarrow> unit res \<times> string option" where
  "append_log c stop e file = (case lc_digest c (lc_body c e) of Inl ex \<Rightarrow> (Inl ex, file) | Inr _ \<Rightarrow>
    (case read_log c file of
       (Inl ex, f) \<Rightarrow> (Inl ex, f)
     | (Inr es, f) \<Rightarrow>
        (if lr_sequence e \<noteq> last_sequence es + 1
         then (Inl (stale_scheduler (lr_sequence e) (last_sequence es + 1)), f)
         else (Inr (), Some ((case f of Some raw \<Rightarrow> raw | None \<Rightarrow> []) @
                (case stop of Some k \<Rightarrow> take k (log_line c e) | None \<Rightarrow> log_line c e))))))"

definition log_text :: "'f log_codec \<Rightarrow> 'f log_record list \<Rightarrow> string" where
  "log_text c es = concat (map (log_line c) es)"

subsection \<open>What the code relies on\<close>

text \<open>
  Of the records in question: the JSON text has no newline and is not empty, parsing it gives
  back the object with its sequence number and its checksum, the object gives back the record, and
  no proper beginning of a JSON object's text is JSON.
\<close>

definition record_faithful :: "'f log_codec \<Rightarrow> 'f log_record \<Rightarrow> bool" where
  "record_faithful c e \<longleftrightarrow>
     lc_encode c e \<noteq> [] \<and> (\<forall>ch \<in> set (lc_encode c e). \<not> newline ch) \<and>
     (\<exists>h. lc_digest c (lc_body c e) = Inr h) \<and>
     (\<exists>d h. lc_parse c (lc_encode c e) = Parsed d h \<and> lc_digest c d = Inr h \<and>
        json_is_int (map_of d ''sequence'') (int (lr_sequence e)) \<and> lc_event c (lr_sequence e) d = Inr e) \<and>
     (\<forall>k < length (lc_encode c e). lc_parse c (take k (lc_encode c e)) = Unreadable)"

definition codec_faithful :: "'f log_codec \<Rightarrow> 'f log_record list \<Rightarrow> bool" where
  "codec_faithful c es \<longleftrightarrow> (\<forall>e \<in> set es. record_faithful c e)"

subsection \<open>Lemmas\<close>

lemma split_plain:
  "\<forall>ch \<in> set x. \<not> newline ch \<Longrightarrow> split_lines x = (if x = [] then [] else [x])"
  by (induction x) (auto simp: newline_def)

lemma split_line: "\<forall>ch \<in> set x. \<not> newline ch \<Longrightarrow> split_lines (x @ CHR 0x0A # y) = (x @ [CHR 0x0A]) # split_lines y"
  by (induction x) (auto simp: newline_def)

lemma rstrip_plain:
  assumes "\<forall>ch \<in> set x. \<not> newline ch"
  shows "rstrip_newlines x = x" and "rstrip_newlines (x @ [CHR 0x0A]) = x"
proof -
  have "dropWhile newline (rev x) = rev x"
    using assms by (intro dropWhile_eq_self_iff [THEN iffD2]) (auto simp: hd_rev)
  then show "rstrip_newlines x = x" "rstrip_newlines (x @ [CHR 0x0A]) = x"
    by (simp_all add: rstrip_newlines_def newline_def)
qed

lemma terminated_line [simp]: "terminated (log_line c e)"
  by (simp add: terminated_def log_line_def newline_def)

lemma terminated_plain: "\<forall>ch \<in> set x. \<not> newline ch \<Longrightarrow> \<not> terminated x"
  by (auto simp: terminated_def)

lemma log_text_simps [simp]:
  "log_text c [] = []" "log_text c (e # es) = log_line c e @ log_text c es" "log_text c (es @ fs) = log_text c es @ log_text c fs"
  by (simp_all add: log_text_def)

lemma faithful_simps [simp]:
  "codec_faithful c []"
  "codec_faithful c (e # es) \<longleftrightarrow> record_faithful c e \<and> codec_faithful c es"
  "codec_faithful c (es @ fs) \<longleftrightarrow> codec_faithful c es \<and> codec_faithful c fs"
  by (auto simp: codec_faithful_def)

lemma split_text:
  "codec_faithful c es \<Longrightarrow> split_lines (log_text c es @ t) = map (log_line c) es @ split_lines t"
proof (induction es)
  case (Cons e es)
  then have "\<forall>ch \<in> set (lc_encode c e). \<not> newline ch" by (simp add: record_faithful_def)
  from split_line [OF this, of "log_text c es @ t"] Cons show ?case by (simp add: log_line_def)
qed simp

text \<open>One good record, with or without its newline.\<close>

lemma scan_good:
  assumes "record_faithful c e" and "lr_sequence e = Suc (length es)" and "l = lc_encode c e \<or> l = log_line c e"
  shows "scan_lines c (l # ls) n off es = scan_lines c ls (Suc n) (off + length l) (es @ [e])"
proof -
  from assms(1) obtain d h where d: "lc_parse c (lc_encode c e) = Parsed d h" "lc_digest c d = Inr h"
      "json_is_int (map_of d ''sequence'') (int (lr_sequence e))" "lc_event c (lr_sequence e) d = Inr e"
    and plain: "\<forall>ch \<in> set (lc_encode c e). \<not> newline ch" by (auto simp: record_faithful_def)
  have "rstrip_newlines l = lc_encode c e" using assms(3) rstrip_plain [OF plain] by (auto simp: log_line_def)
  with d assms(2) show ?thesis by (simp add: add.commute)
qed

lemma scan_text:
  assumes "codec_faithful c es" and "map lr_sequence es = [Suc (length es0)..<Suc (length es0 + length es)]"
  shows "scan_lines c (map (log_line c) es @ ls) n off es0 =
     scan_lines c ls (n + length es) (off + length (log_text c es)) (es0 @ es)"
  using assms
proof (induction es arbitrary: n off es0)
  case (Cons e es)
  have seq: "lr_sequence e = Suc (length es0)" "map lr_sequence es = [Suc (length (es0 @ [e]))..<Suc (length (es0 @ [e]) + length es)]"
    using Cons.prems(2) by (simp_all add: upt_conv_Cons del: upt_Suc)
  have f: "record_faithful c e" "codec_faithful c es" using Cons.prems(1) by simp_all
  from scan_good [OF f(1) seq(1), of "log_line c e" "map (log_line c) es @ ls" n off] Cons.IH [OF f(2) seq(2)]
  show ?case by (simp add: add.assoc)
qed simp

lemma scan_from_start:
  assumes "codec_faithful c es" and "map lr_sequence es = [1..<Suc (length es)]"
  shows "scan_lines c (split_lines (log_text c es @ t)) 1 0 [] =
     scan_lines c (split_lines t) (Suc (length es)) (length (log_text c es)) es"
  using scan_text [OF assms(1), of "[]" "split_lines t" 1 0] assms(2) split_text [OF assms(1), of t] by simp

lemma last_line_terminated: "es = [] \<or> terminated (last (map (log_line c) es))"
  by (cases es rule: rev_cases) simp_all

lemma read_text:
  assumes "codec_faithful c es" and "map lr_sequence es = [1..<Suc (length es)]"
  shows "read_log c (Some (log_text c es)) = (Inr es, Some (log_text c es))"
  using scan_from_start [OF assms, of "[]"] split_text [OF assms(1), of "[]"] last_line_terminated [of es c]
  by (simp add: read_log_def)

lemma read_torn:
  assumes "codec_faithful c es" and "map lr_sequence es = [1..<Suc (length es)]"
    and "record_faithful c e" and "k < length (lc_encode c e)"
  shows "read_log c (Some (log_text c es @ take k (lc_encode c e))) = (Inr es, Some (log_text c es))"
proof (cases "k = 0")
  case True
  with read_text [OF assms(1,2)] show ?thesis by simp
next
  case False
  let ?t = "take k (lc_encode c e)"
  have t: "?t \<noteq> []" using False assms(4) by auto
  have plain: "\<forall>ch \<in> set ?t. \<not> newline ch" using assms(3) by (auto simp: record_faithful_def dest: in_set_takeD)
  have "lc_parse c ?t = Unreadable" using assms(3,4) by (simp add: record_faithful_def)
  then have "scan_lines c (split_lines (log_text c es @ ?t)) 1 0 [] = ScanTorn es (length (log_text c es))"
    using t unfolding scan_from_start [OF assms(1,2)]
    by (simp add: split_plain [OF plain] rstrip_plain [OF plain] terminated_plain [OF plain])
  then show ?thesis by (simp add: read_log_def)
qed

lemma read_unterminated:
  assumes "codec_faithful c es" and "map lr_sequence es = [1..<Suc (length es)]"
    and "record_faithful c e" and "lr_sequence e = Suc (length es)"
  shows "read_log c (Some (log_text c es @ lc_encode c e)) = (Inr (es @ [e]), Some (log_text c (es @ [e])))"
proof -
  have plain: "\<forall>ch \<in> set (lc_encode c e). \<not> newline ch" and ne: "lc_encode c e \<noteq> []"
    using assms(3) by (auto simp: record_faithful_def)
  have split: "split_lines (log_text c es @ lc_encode c e) = map (log_line c) es @ [lc_encode c e]"
    using split_text [OF assms(1)] split_plain [OF plain] ne by simp
  have "scan_lines c (split_lines (log_text c es @ lc_encode c e)) 1 0 [] = ScanDone (es @ [e])"
    using scan_from_start [OF assms(1,2), of "lc_encode c e"] scan_good [OF assms(3,4), of "lc_encode c e" "[]"]
      split_plain [OF plain] ne by simp
  then show ?thesis using terminated_plain [OF plain] by (simp add: read_log_def split log_line_def)
qed

text \<open>What a reader finds after a write that stopped after \<open>k\<close> bytes.\<close>

definition surviving :: "'f log_codec \<Rightarrow> nat \<Rightarrow> 'f log_record list \<Rightarrow> 'f log_record \<Rightarrow> 'f log_record list" where
  "surviving c k es e = (if k < length (lc_encode c e) then es else es @ [e])"

lemma read_after_cut:
  assumes f: "codec_faithful c (es @ [e])" and seq: "map lr_sequence (es @ [e]) = [1..<Suc (Suc (length es))]"
  shows "read_log c (Some (log_text c es @ take k (log_line c e))) =
     (Inr (surviving c k es e), Some (log_text c (surviving c k es e)))"
proof -
  have f1: "codec_faithful c es" "record_faithful c e" using f by simp_all
  have s1: "map lr_sequence es = [1..<Suc (length es)]" "lr_sequence e = Suc (length es)" using seq by auto
  consider "k < length (lc_encode c e)" | "k = length (lc_encode c e)" | "length (lc_encode c e) < k" by linarith
  then show ?thesis
  proof cases
    case 1
    with read_torn [OF f1(1) s1(1) f1(2), of k] show ?thesis by (simp add: surviving_def log_line_def)
  next
    case 2
    with read_unterminated [OF f1(1) s1(1) f1(2) s1(2)] show ?thesis by (simp add: surviving_def log_line_def)
  next
    case 3
    with read_text [OF f] seq show ?thesis by (simp add: surviving_def log_line_def)
  qed
qed

text \<open>
  A line that holds record \<open>n\<close>: it reads as an object whose digest is the checksum on the line, whose
  sequence number is \<open>n\<close>, and which decodes to the record.
\<close>

definition intact :: "'f log_codec \<Rightarrow> nat \<Rightarrow> string \<Rightarrow> 'f log_record \<Rightarrow> bool" where
  "intact c n l r \<longleftrightarrow> (\<exists>d h. lc_parse c l = Parsed d h \<and> lc_digest c d = Inr h \<and>
     json_is_int (map_of d ''sequence'') (int n) \<and> lc_event c n d = Inr r)"

text \<open>
  What a reader takes as record \<open>n\<close> is intact, whatever the file is: the scan only ever ends well
  when each line but a torn last one was an intact record under its number.
\<close>

definition read_records :: "'f scan \<Rightarrow> 'f log_record list option" where
  "read_records s = (case s of ScanDone es \<Rightarrow> Some es | ScanTorn es off \<Rightarrow> Some es | ScanFailed e \<Rightarrow> None)"

lemma scan_step:
  "scan_lines c (l # ls) n off es = s \<Longrightarrow>
     (\<exists>r. intact c (Suc (length es)) (rstrip_newlines l) r \<and> s = scan_lines c ls (n + 1) (off + length l) (es @ [r])) \<or>
     ((\<nexists>r. intact c (Suc (length es)) (rstrip_newlines l) r) \<and> ((\<exists>e. s = ScanFailed e) \<or> (s = ScanTorn es off \<and> ls = [] \<and> \<not> terminated l)))"
  by (auto simp: intact_def Let_def add.commute split: parsed.splits sum.splits if_splits)

lemma scan_intact:
  fixes ls :: "string list"
  assumes "read_records (scan_lines c ls n off es) = Some rs"
  shows "\<exists>new. rs = es @ new \<and> length new \<le> length ls \<and>
    (\<forall>i < length new. intact c (Suc (length es + i)) (rstrip_newlines (ls ! i)) (new ! i)) \<and>
    (length new < length ls \<longrightarrow> length ls = Suc (length new) \<and> \<not> terminated (last ls))"
  using assms
proof (induction ls arbitrary: n off es)
  case (Cons l ls)
  from scan_step [OF refl, where c = c and l = l and ls = ls and n = n and off = off and es = es] show ?case
  proof (elim disjE exE conjE)
    fix r assume r: "intact c (Suc (length es)) (rstrip_newlines l) r"
      "scan_lines c (l # ls) n off es = scan_lines c ls (n + 1) (off + length l) (es @ [r])"
    with Cons.prems have "read_records (scan_lines c ls (n + 1) (off + length l) (es @ [r])) = Some rs" by simp
    from Cons.IH [OF this] obtain new where new: "rs = (es @ [r]) @ new" "length new \<le> length ls"
      "\<forall>i < length new. intact c (Suc (length (es @ [r]) + i)) (rstrip_newlines (ls ! i)) (new ! i)"
      "length new < length ls \<longrightarrow> length ls = Suc (length new) \<and> \<not> terminated (last ls)" by blast
    have "\<forall>i < length (r # new). intact c (Suc (length es + i)) (rstrip_newlines ((l # ls) ! i)) ((r # new) ! i)"
      using r(1) new(3) by (auto simp: nth_Cons split: nat.split)
    with new(1,2,4) show ?thesis by (intro exI [of _ "r # new"]) auto
  qed (use Cons.prems in \<open>auto simp: read_records_def\<close>)
qed (simp add: read_records_def)

lemma read_log_records: "read_log c (Some raw) = (Inr rs, f) \<Longrightarrow> read_records (scan_lines c (split_lines raw) 1 0 []) = Some rs"
  by (auto simp: read_log_def read_records_def split: scan.splits)

text \<open>Damage before the end is refused, and the file is left as it is.\<close>

lemma read_damaged:
  assumes "codec_faithful c es" and "map lr_sequence es = [1..<Suc (length es)]"
    and "\<forall>ch \<in> set b. \<not> newline ch" and "\<nexists>r. intact c (Suc (length es)) b r"
  shows "\<exists>x. read_log c (Some (log_text c es @ b @ CHR 0x0A # t)) = (Inl x, Some (log_text c es @ b @ CHR 0x0A # t))"
proof -
  let ?raw = "log_text c es @ b @ CHR 0x0A # t"
  have "scan_lines c (split_lines ?raw) 1 0 [] =
      scan_lines c ((b @ [CHR 0x0A]) # split_lines t) (Suc (length es)) (length (log_text c es)) es"
    using scan_from_start [OF assms(1,2), of "b @ CHR 0x0A # t"] split_line [OF assms(3), of t] by simp
  moreover have "terminated (b @ [CHR 0x0A])" by (simp add: terminated_def newline_def)
  ultimately obtain x where "scan_lines c (split_lines ?raw) 1 0 [] = ScanFailed x"
    using scan_step [OF refl, where c = c and l = "b @ [CHR 0x0A]" and ls = "split_lines t" and n = "Suc (length es)"
        and off = "length (log_text c es)" and es = es]
      rstrip_plain(2) [OF assms(3)] assms(4) by auto
  then show ?thesis by (simp add: read_log_def)
qed

lemma last_sequence_numbered: "map lr_sequence es = [1..<Suc (length es)] \<Longrightarrow> last_sequence es = length es"
  by (cases es rule: rev_cases) (auto simp: last_sequence_def)

end
