(* ===== verification/Sched_Log_Claims.thy ===== *)
theory Sched_Log_Claims
  imports Sched_Log
begin

text \<open>Crash safety of the event log, with a concrete codec for the witness.\<close>

text \<open>
  C14. A crash in the middle of an append loses at most the record being written. If the process
  dies after any number of bytes of the line, the next reader finds exactly the earlier
  records, or these and the whole new record, and leaves a clean file behind; retrying the same
  append then writes the record once, or is refused as stale if it had survived. Any other damage
  is refused: if the line after the records is complete but not intact (it does not read as an object,
  its digest is not the checksum on it, it has another sequence number, or it does not decode) the
  reader raises and leaves the file alone; and whatever a file holds, every record that a reader
  gives out came from an intact line under its number, only a last line without its end being dropped.
\<close>

theorem log_survives_crash:
  assumes "codec_faithful c (es @ [e])" and "map lr_sequence (es @ [e]) = [1..<Suc (Suc (length es))]"
    and "append_log c (Some k) e (Some (log_text c es)) = (Inr (), file)"
  shows "read_log c file = (Inr (surviving c k es e), Some (log_text c (surviving c k es e))) \<and>
    append_log c None e file =
      (if k < length (lc_encode c e) then Inr () else Inl (stale_scheduler (lr_sequence e) (lr_sequence e + 1)),
       Some (log_text c (es @ [e]))) \<and>
    ((\<forall>ch \<in> set b. \<not> newline ch) \<longrightarrow> (\<nexists>r. intact c (Suc (length es)) b r) \<longrightarrow>
      (\<exists>x. read_log c (Some (log_text c es @ b @ CHR 0x0A # t)) = (Inl x, Some (log_text c es @ b @ CHR 0x0A # t)))) \<and>
    (\<forall>raw rs f. read_log c (Some raw) = (Inr rs, f) \<longrightarrow>
      (\<forall>i < length rs. intact c (Suc i) (rstrip_newlines (split_lines raw ! i)) (rs ! i)) \<and>
      (length rs = length (split_lines raw) \<or> length (split_lines raw) = Suc (length rs) \<and> \<not> terminated (last (split_lines raw))))"
proof -
  have f: "codec_faithful c es" and s: "map lr_sequence es = [1..<Suc (length es)]" "lr_sequence e = Suc (length es)"
    using assms(1,2) by auto
  have r: "read_log c (Some (log_text c es)) = (Inr es, Some (log_text c es))" by (rule read_text [OF f s(1)])
  have last: "last_sequence es = length es" "last_sequence (es @ [e]) = Suc (length es)"
    using last_sequence_numbered [OF s(1)] s(2) by (simp_all add: last_sequence_def)
  have raw: "file = Some (log_text c es @ take k (log_line c e))"
    using assms(1,3) r last s(2) by (auto simp: append_log_def record_faithful_def)
  have cut: "read_log c file = (Inr (surviving c k es e), Some (log_text c (surviving c k es e)))"
    unfolding raw by (rule read_after_cut [OF assms(1,2)])
  moreover have "append_log c None e file =
      (if k < length (lc_encode c e) then Inr () else Inl (stale_scheduler (lr_sequence e) (lr_sequence e + 1)),
       Some (log_text c (es @ [e])))"
    using assms(1) cut last s(2) by (auto simp: append_log_def surviving_def record_faithful_def)
  moreover have "(\<forall>i < length rs. intact c (Suc i) (rstrip_newlines (split_lines raw ! i)) (rs ! i)) \<and>
      (length rs = length (split_lines raw) \<or> length (split_lines raw) = Suc (length rs) \<and> \<not> terminated (last (split_lines raw)))"
    if "read_log c (Some raw) = (Inr rs, f)" for raw rs f
    using scan_intact [OF read_log_records [OF that]] by fastforce
  ultimately show ?thesis using read_damaged [OF f s(1)] by blast
qed

definition ex_record :: "nat \<Rightarrow> int log_record" where
  "ex_record n = \<lparr>lr_sequence = n, lr_id = [], lr_time = 0, lr_event = RuntimePlanBound ''c'' ''f''\<rparr>"

definition ex_codec :: "int log_codec" where
  "ex_codec = \<lparr>lc_body = (\<lambda>e. [(''sequence'', JInt (int (lr_sequence e)))]), lc_encode = (\<lambda>e. replicate (lr_sequence e) (CHR ''1'') @ ''}''),
     lc_parse = (\<lambda>x. if x \<noteq> [] \<and> last x = CHR ''}''
         then Parsed [(''sequence'', JInt (int (length x) - 1))] (replicate (length (filter (\<lambda>ch. ch = CHR ''1'') x)) (CHR ''k''))
         else Unreadable),
     lc_digest = (\<lambda>d. Inr (case map_of d ''sequence'' of Some (JInt n) \<Rightarrow> replicate (nat n) (CHR ''k'') | _ \<Rightarrow> ''x'')), lc_event = (\<lambda>n d. Inr (ex_record n))\<rparr>"

lemma ex_codec_faithful: "codec_faithful ex_codec [ex_record 1, ex_record 2]"
proof -
  have beginning: "take k (replicate n (CHR ''1'') @ ''}'') = replicate k (CHR ''1'')" if "k < Suc n" for k n
    using that by (simp add: min_def)
  have "record_faithful ex_codec (ex_record n)" for n
    by (auto simp: record_faithful_def ex_codec_def ex_record_def newline_def json_is_int_def beginning)
  then show ?thesis by simp
qed

text \<open>The second record of \<open>11}\<close> with a character changed still reads as an object with the right number.\<close>

theorem log_survives_crash_witness:
  "read_log ex_codec (Some (''1}'' @ CHR 0x0A # ''11'')) = (Inr [ex_record 1], Some (''1}'' @ [CHR 0x0A])) \<and>
   lc_parse ex_codec ''12}'' = Parsed [(''sequence'', JInt 2)] ''k'' \<and>
   (\<exists>x. read_log ex_codec (Some (''1}'' @ CHR 0x0A # ''12}'' @ CHR 0x0A # ''111}'')) =
      (Inl x, Some (''1}'' @ CHR 0x0A # ''12}'' @ CHR 0x0A # ''111}'')))"
proof -
  have f: "codec_faithful ex_codec ([ex_record 1] @ [ex_record 2])" using ex_codec_faithful by simp
  have s: "map lr_sequence ([ex_record 1] @ [ex_record 2]) = [1..<Suc (Suc (length [ex_record 1]))]"
    by (simp add: ex_record_def)
  have a: "append_log ex_codec (Some 2) (ex_record 2) (Some (log_text ex_codec [ex_record 1])) = (Inr (), Some (''1}'' @ CHR 0x0A # ''11''))"
    by code_simp
  have k: "surviving ex_codec 2 [ex_record 1] (ex_record 2) = [ex_record 1]"
    by (simp add: surviving_def ex_codec_def ex_record_def)
  have x: "log_text ex_codec [ex_record 1] = ''1}'' @ [CHR 0x0A]" by (simp add: log_line_def ex_codec_def ex_record_def)
  have p: "lc_parse ex_codec ''12}'' = Parsed [(''sequence'', JInt 2)] ''k''" by (simp add: ex_codec_def)
  have d: "\<nexists>r. intact ex_codec (Suc (length [ex_record 1])) ''12}'' r"
    unfolding intact_def p by (simp add: ex_codec_def numeral_2_eq_2)
  from log_survives_crash [OF f s a, of "''12}''" "''111}''"] k x p d show ?thesis by (simp add: newline_def)
qed

end
