(* ===== verification/Canonical_Json.thy ===== *)
theory Canonical_Json
  imports Json_Order
begin

text \<open>
  Canonical JSON and the digest over it, \<open>canonical_json\<close> and \<open>stable_digest\<close> of
  \<^verbatim>\<open>context_bundles/models.py\<close>: one text for equal values, in Python and in JavaScript.

  The characters of the model are bytes, on which the UTF-16 order of keys is the order of characters, and there are
  no surrogates. Of the library the parameter \<open>cl\<close> gives the digest, the parser, the quoted text of a string, the line of a
  value (\<open>json.dumps(sort_keys=True)\<close>), the shortest decimal digits of a double with their exponent, and the conversions
  \<open>float\<close>, \<open>int\<close> and \<open>str\<close> that the readers of events use.
\<close>

record codec_lib =
  cl_sha256 :: "string \<Rightarrow> string"
  cl_quote :: "string \<Rightarrow> string"               \<comment> \<open>\<open>json.dumps(text, ensure_ascii=False)\<close>\<close>
  cl_digits :: "rat \<Rightarrow> nat list \<times> int"        \<comment> \<open>\<open>Decimal(repr(x)).as_tuple()\<close>\<close>
  cl_line :: "json \<Rightarrow> string"
  cl_loads :: "string \<Rightarrow> json option"          \<comment> \<open>\<open>None\<close>: not UTF-8, or not JSON\<close>
  cl_str :: "json \<Rightarrow> string"                  \<comment> \<open>\<open>str\<close> of a value that is not a string\<close>
  cl_float :: "int \<Rightarrow> rat option"              \<comment> \<open>\<open>None\<close>: \<open>OverflowError\<close>\<close>
  cl_float_text :: "string \<Rightarrow> rat option"      \<comment> \<open>\<open>None\<close>: \<open>ValueError\<close>\<close>
  cl_int_text :: "string \<Rightarrow> int option"

subsection \<open>Numbers\<close>

definition max_safe_integer :: int where
  "max_safe_integer = 2 ^ 53 - 1"

text \<open>The loop that drops trailing zeros.\<close>

fun drop_zeros :: "nat list \<Rightarrow> int \<Rightarrow> nat list \<times> int" where
  "drop_zeros ds e = (if 1 < length ds \<and> last ds = 0 then drop_zeros (butlast ds) (e + 1) else (ds, e))"

declare drop_zeros.simps [simp del]

definition digit_text :: "nat list \<Rightarrow> string" where
  "digit_text ds = map (\<lambda>d. char_of (48 + d)) ds"

definition zeros :: "int \<Rightarrow> string" where
  "zeros n = replicate (nat n) CHR ''0''"

text \<open>The spelling of a positive double from its digits and exponent.\<close>

definition decimal_text :: "nat list \<times> int \<Rightarrow> string" where
  "decimal_text p = (case drop_zeros (fst p) (snd p) of (ds, e) \<Rightarrow>
     (let digits = digit_text ds; point = int (length digits) + e in
      if 0 < point \<and> point \<le> 21
      then (if point \<ge> int (length digits) then digits @ zeros (point - int (length digits))
            else take (nat point) digits @ ''.'' @ drop (nat point) digits)
      else if - 6 < point \<and> point \<le> 0 then ''0.'' @ zeros (- point) @ digits
      else (let mantissa = (if length digits = 1 then digits else take 1 digits @ ''.'' @ drop 1 digits); x = point - 1 in
        mantissa @ ''e'' @ (if x \<ge> 0 then ''+'' else '''') @ str_int x)))"

definition unsafe_integer :: exc where
  "unsafe_integer = ValueError ''canonical JSON integers must be within the JavaScript safe integer range''"

definition canonical_double :: "codec_lib \<Rightarrow> rat \<Rightarrow> string res" where
  "canonical_double cl x =
     (if of_int \<lfloor>x\<rfloor> = x \<and> \<bar>x\<bar> > of_int max_safe_integer then Inl unsafe_integer
      else if x = 0 then Inr ''0''
      else let text = decimal_text (cl_digits cl \<bar>x\<bar>) in Inr (if x < 0 then ''-'' @ text else text))"

text \<open>An integer in the safe range is a double.\<close>

definition canonical_number :: "codec_lib \<Rightarrow> json \<Rightarrow> string res" where
  "canonical_number cl v = (case v of
       JInt n \<Rightarrow> if \<bar>n\<bar> > max_safe_integer then Inl unsafe_integer else canonical_double cl (of_int n)
     | JFloat x \<Rightarrow> canonical_double cl x
     | _ \<Rightarrow> Inl (ValueError ''canonical JSON does not permit non-finite numbers''))"

subsection \<open>Values\<close>

function canonical_value :: "codec_lib \<Rightarrow> json \<Rightarrow> string res" where
  "canonical_value cl JNull = Inr ''null''"
| "canonical_value cl (JBool b) = Inr (if b then ''true'' else ''false'')"
| "canonical_value cl (JStr x) = Inr (cl_quote cl x)"
| "canonical_value cl (JInt n) = canonical_number cl (JInt n)"
| "canonical_value cl (JFloat y) = canonical_number cl (JFloat y)"
| "canonical_value cl (JNonFinite z) = canonical_number cl (JNonFinite z)"
| "canonical_value cl (JList xs) = rbind (map_res (canonical_value cl) xs) (\<lambda>ts. Inr (''['' @ joined '','' ts @ '']''))"
| "canonical_value cl (JObj d) =
     rbind (map_res (\<lambda>x. rbind (canonical_value cl (snd x)) (\<lambda>t. Inr (cl_quote cl (fst x) @ '':'' @ t))) (sort_key fst d)) (\<lambda>ts.
     Inr (''{'' @ joined '','' ts @ ''}''))"
  by pat_completeness auto
termination
  by (relation "measure (size \<circ> snd)") (auto simp: size_item_snd dest: size_list_estimation' [of _ _ _ size])

definition stable_digest :: "codec_lib \<Rightarrow> json \<Rightarrow> string res" where
  "stable_digest cl j = rbind (canonical_value cl j) (\<lambda>t. Inr (cl_sha256 cl t))"

subsection \<open>Lemmas\<close>

lemma map_res_map_cong: "(\<And>x. x \<in> set xs \<Longrightarrow> f (g x) = h x) \<Longrightarrow> map_res f (map g xs) = map_res h xs"
  by (induction xs) (simp_all split: sum.split)

text \<open>The digest does not depend on the order of keys.\<close>

lemma canonical_sorted: "canonical_value cl (sorted_json j) = canonical_value cl j"
proof (induction j rule: sorted_json.induct)
  case (7 xs) then show ?case by (simp add: map_res_map_cong)
next
  case (8 d)
  let ?g = "\<lambda>x. (fst x, sorted_json (snd x))" and ?f = "\<lambda>x. rbind (canonical_value cl (snd x)) (\<lambda>t. Inr (cl_quote cl (fst x) @ '':'' @ t))"
  have "sort_key fst (sort_key fst (map ?g d)) = map ?g (sort_key fst d)"
    by (simp add: sort_sorted sort_map)
  moreover have "map_res ?f (map ?g (sort_key fst d)) = map_res ?f (sort_key fst d)"
    by (rule map_res_map_cong) (simp add: 8)
  ultimately show ?case by simp
qed simp_all

lemma digest_sorted: "stable_digest cl (sorted_json j) = stable_digest cl j"
  by (simp add: stable_digest_def canonical_sorted)

text \<open>Values whose integers JavaScript can represent have a digest.\<close>

function safe_json :: "json \<Rightarrow> bool" where
  "safe_json JNull = True"
| "safe_json (JBool b) = True"
| "safe_json (JInt n) = (\<bar>n\<bar> \<le> max_safe_integer)"
| "safe_json (JFloat x) = (of_int \<lfloor>x\<rfloor> = x \<longrightarrow> \<bar>x\<bar> \<le> of_int max_safe_integer)"
| "safe_json (JNonFinite x) = False"
| "safe_json (JStr x) = True"
| "safe_json (JList xs) = list_all safe_json xs"
| "safe_json (JObj d) = list_all (\<lambda>x. safe_json (snd x)) d"
  by pat_completeness auto
termination
  by (relation "measure size") (auto simp: size_item_snd dest: size_list_estimation' [of _ _ _ size])

lemma canonical_safe: "(\<exists>t. canonical_value cl j = Inr t) \<longleftrightarrow> safe_json j"
proof (induction j rule: safe_json.induct)
  case (3 n)
  have "\<bar>rat_of_int n\<bar> = of_int \<bar>n\<bar>" by simp
  then show ?case by (auto simp: canonical_number_def canonical_double_def Let_def simp del: of_int_abs)
next
  case (4 x) then show ?case by (auto simp: canonical_number_def canonical_double_def Let_def)
next
  case (5 x) then show ?case by (simp add: canonical_number_def)
next
  case (7 xs)
  have "(\<exists>ts. map_res f ys = Inr ts) \<longleftrightarrow> (\<forall>y \<in> set ys. \<exists>t. f y = Inr t)" for f :: "json \<Rightarrow> string res" and ys
    by (induction ys) (auto split: sum.split)
  with 7 show ?case by (auto simp: rbind_eq_Inr list_all_iff)
next
  case (8 d)
  have "(\<exists>ts. map_res f ys = Inr ts) \<longleftrightarrow> (\<forall>y \<in> set ys. \<exists>t. f y = Inr t)" for f :: "string \<times> json \<Rightarrow> string res" and ys
    by (induction ys) (auto split: sum.split)
  with 8 show ?case by (auto simp: rbind_eq_Inr list_all_iff)
qed simp_all

lemma digest_safe: "(\<exists>h. stable_digest cl j = Inr h) \<longleftrightarrow> safe_json j"
  using canonical_safe [of cl j] by (auto simp: stable_digest_def rbind_eq_Inr)

end
