(* ===== verification/Sched_Codec.thy ===== *)
theory Sched_Codec
  imports Canonical_Json Sched_Log "HOL-Library.Product_Lexorder"
begin

text \<open>
  The records of the event log as JSON: \<^verbatim>\<open>execution/campaign_scheduler_codecs.py\<close>, the payloads
  that the operations of \<^verbatim>\<open>campaign_scheduler.py\<close> write and the reducer of
  \<^verbatim>\<open>campaign_scheduler_replay.py\<close> reads, and the record around them of \<^verbatim>\<open>campaign_scheduler_store.py\<close>.

  Amounts are rational numbers here, the exact values of doubles; an amount is written as a double. What the
  reducer reads of a payload is decoded at once, so a payload that lacks a value which the reducer reads only in some
  states is refused here, and a missing key raises before anything is changed. A double that is not finite, and a lifecycle that is not one
  of the three, have no counterpart in the state and are refused.
\<close>

subsection \<open>Reading JSON as Python does\<close>

definition as_text :: "codec_lib \<Rightarrow> json \<Rightarrow> string" where
  "as_text cl j = (case j of JStr x \<Rightarrow> x | _ \<Rightarrow> cl_str cl j)"

definition mapping_of :: "json \<Rightarrow> dict res" where
  "mapping_of j = (case j of JObj d \<Rightarrow> Inr d | _ \<Rightarrow> Inl (TypeError ''expected a mapping''))"

definition sequence_of :: "json \<Rightarrow> json list res" where
  "sequence_of j = (case j of JList xs \<Rightarrow> Inr xs | _ \<Rightarrow> Inl (TypeError ''expected a sequence''))"

definition required :: "dict \<Rightarrow> string \<Rightarrow> json res" where
  "required d k = (case map_of d k of Some j \<Rightarrow> Inr j | None \<Rightarrow> Inl (KeyError k))"

definition given :: "dict \<Rightarrow> string \<Rightarrow> json \<Rightarrow> json" where
  "given d k default1 = (case map_of d k of Some j \<Rightarrow> j | None \<Rightarrow> default1)"

definition required_text :: "codec_lib \<Rightarrow> dict \<Rightarrow> string \<Rightarrow> string res" where
  "required_text cl d k = rbind (required d k) (\<lambda>j. Inr (as_text cl j))"

text \<open>\<open>float(value)\<close>, and \<open>as_float\<close>, which does not take every type.\<close>

definition float_of :: "codec_lib \<Rightarrow> json \<Rightarrow> rat res" where
  "float_of cl j = (case j of
       JFloat x \<Rightarrow> Inr x
     | JInt n \<Rightarrow> (case cl_float cl n of Some x \<Rightarrow> Inr x | None \<Rightarrow> Inl (OverflowError ''int too large to convert to float''))
     | JBool b \<Rightarrow> Inr (if b then 1 else 0)
     | JStr x \<Rightarrow> (case cl_float_text cl x of Some y \<Rightarrow> Inr y | None \<Rightarrow> Inl (ValueError (''could not convert string to float: '' @ py_repr x)))
     | JNonFinite z \<Rightarrow> Inl (ValueError ''not a finite number'')
     | _ \<Rightarrow> Inl (TypeError ''float() argument must be a string or a real number''))"

definition as_float :: "codec_lib \<Rightarrow> json \<Rightarrow> rat res" where
  "as_float cl j = (case j of JNull \<Rightarrow> Inl (TypeError ''expected a number'') | JList xs \<Rightarrow> Inl (TypeError ''expected a number'')
     | JObj d \<Rightarrow> Inl (TypeError ''expected a number'') | _ \<Rightarrow> float_of cl j)"

definition int_of :: "codec_lib \<Rightarrow> json \<Rightarrow> int res" where
  "int_of cl j = (case j of
       JInt n \<Rightarrow> Inr n
     | JBool b \<Rightarrow> Inr (if b then 1 else 0)
     | JFloat x \<Rightarrow> Inr (if x \<ge> 0 then \<lfloor>x\<rfloor> else \<lceil>x\<rceil>)
     | JStr x \<Rightarrow> (case cl_int_text cl x of Some n \<Rightarrow> Inr n | None \<Rightarrow> Inl (ValueError (''invalid literal for int() with base 10: '' @ py_repr x)))
     | JNonFinite z \<Rightarrow> Inl (OverflowError ''cannot convert float to integer'')
     | _ \<Rightarrow> Inl (TypeError ''int() argument must be a string or a real number''))"

definition as_bool :: "json \<Rightarrow> bool res" where
  "as_bool j = (case j of JBool b \<Rightarrow> Inr b | _ \<Rightarrow> Inl (TypeError ''expected a boolean''))"

definition texts_of :: "codec_lib \<Rightarrow> json \<Rightarrow> string list res" where
  "texts_of cl j = rbind (py_tuple j) (\<lambda>xs. Inr (map (as_text cl) xs))"

subsection \<open>Budgets and resources: the constructor, called with the items of a mapping\<close>

definition known_fields :: "dict \<Rightarrow> string list \<Rightarrow> unit res" where
  "known_fields d ks = ensure (fst ` set d \<subseteq> set ks) (TypeError ''got an unexpected keyword argument'')"

definition integer_field :: "dict \<Rightarrow> string \<Rightarrow> int res" where
  "integer_field d k = (case map_of d k of
       None \<Rightarrow> Inr 0 | Some (JInt n) \<Rightarrow> Inr n | Some _ \<Rightarrow> Inl (TypeError (''scheduler '' @ k @ '' must be an integer'')))"

definition number_field :: "dict \<Rightarrow> string \<Rightarrow> rat \<Rightarrow> rat res" where
  "number_field d k default1 = (case map_of d k of
       None \<Rightarrow> Inr default1 | Some (JInt n) \<Rightarrow> Inr (of_int n) | Some (JFloat x) \<Rightarrow> Inr x
     | Some _ \<Rightarrow> Inl (TypeError (''scheduler '' @ k @ '' must be a finite number'')))"

definition kind_field :: "dict \<Rightarrow> string option res" where
  "kind_field d = (case map_of d ''accelerator_kind'' of
       None \<Rightarrow> Inr None | Some JNull \<Rightarrow> Inr None | Some (JStr x) \<Rightarrow> Inr (Some x)
     | Some _ \<Rightarrow> Inl (TypeError ''scheduler resource accelerator_kind must be a non-empty string when provided''))"

definition budget_keys :: "string list" where
  "budget_keys = [''tokens'', ''wall_seconds'', ''compute_units'', ''jobs'', ''shared_evidence_tokens'']"

definition budget_from :: "json \<Rightarrow> rat sched_budget res" where
  "budget_from j =
     rbind (mapping_of j) (\<lambda>d.
     rbind (known_fields d budget_keys) (\<lambda>_.
     rbind (integer_field d ''tokens'') (\<lambda>tokens.
     rbind (integer_field d ''jobs'') (\<lambda>jobs.
     rbind (integer_field d ''shared_evidence_tokens'') (\<lambda>shared.
     rbind (number_field d ''wall_seconds'' 0) (\<lambda>wall.
     rbind (number_field d ''compute_units'' 0) (\<lambda>compute.
     make_sched_budget tokens wall compute jobs shared)))))))"

definition budget_payload :: "rat sched_budget \<Rightarrow> json" where
  "budget_payload b = JObj [(''tokens'', JInt (sb_tokens b)), (''wall_seconds'', JFloat (sb_wall b)),
     (''compute_units'', JFloat (sb_compute b)), (''jobs'', JInt (sb_jobs b)), (''shared_evidence_tokens'', JInt (sb_shared b))]"

definition resource_keys :: "string list" where
  "resource_keys = [''cpu_cores'', ''memory_gb'', ''disk_gb'', ''accelerator_kind'', ''accelerator_count'']"

definition resources_from :: "json \<Rightarrow> rat resources res" where
  "resources_from j =
     rbind (mapping_of j) (\<lambda>d.
     rbind (known_fields d resource_keys) (\<lambda>_.
     rbind (number_field d ''cpu_cores'' 1) (\<lambda>cpu.
     rbind (number_field d ''memory_gb'' 1) (\<lambda>memory.
     rbind (number_field d ''disk_gb'' 1) (\<lambda>disk.
     rbind (integer_field d ''accelerator_count'') (\<lambda>n.
     rbind (kind_field d) (\<lambda>kind.
     make_resources cpu memory disk kind n)))))))"

definition text_or_null :: "string option \<Rightarrow> json" where
  "text_or_null x = (case x of None \<Rightarrow> JNull | Some y \<Rightarrow> JStr y)"

definition sched_resources_payload :: "rat resources \<Rightarrow> json" where
  "sched_resources_payload r = JObj [(''cpu_cores'', JFloat (res_cpu r)), (''memory_gb'', JFloat (res_memory r)),
     (''disk_gb'', JFloat (res_disk r)), (''accelerator_kind'', text_or_null (res_kind r)),
     (''accelerator_count'', JInt (res_count r))]"

subsection \<open>Lanes, workers, grants\<close>

definition text_list :: "string list \<Rightarrow> json" where
  "text_list xs = JList (map JStr xs)"

definition lane_payload :: "lane \<Rightarrow> json" where
  "lane_payload l = JObj [(''lane_id'', JStr (ln_id l)), (''fixture_digest'', JStr (ln_fixture l)), (''seeds'', text_list (ln_seeds l)),
     (''evaluator_epoch'', JStr (ln_epoch l)), (''verifier_contract_ref'', JStr (ln_contract l)),
     (''execution_environment_digest'', JStr (ln_environment l))]"

definition lane_from :: "codec_lib \<Rightarrow> json \<Rightarrow> lane res" where
  "lane_from cl j =
     rbind (mapping_of j) (\<lambda>d.
     rbind (required_text cl d ''lane_id'') (\<lambda>i.
     rbind (required_text cl d ''fixture_digest'') (\<lambda>f.
     rbind (rbind (required d ''seeds'') (texts_of cl)) (\<lambda>seeds.
     rbind (required_text cl d ''evaluator_epoch'') (\<lambda>e.
     rbind (required_text cl d ''verifier_contract_ref'') (\<lambda>v.
      let l = \<lparr>ln_id = i, ln_fixture = f, ln_seeds = seeds, ln_epoch = e, ln_contract = v,
          ln_environment = as_text cl (given d ''execution_environment_digest'' (JStr []))\<rparr>
      in rbind (check_lane l) (\<lambda>_. Inr l)))))))"

definition worker_to_dict :: "rat worker_descriptor \<Rightarrow> json" where
  "worker_to_dict w = JObj [(''worker_id'', JStr (wd_id w)), (''runtime'', JStr (wd_runtime w)),
     (''resources'', sched_resources_payload (wd_resources w)),
     (''capabilities'', text_list (sorted_list_of_set (wd_capabilities w))),
     (''sandbox_features'', text_list (sorted_list_of_set (wd_features w))), (''locality'', JStr (wd_locality w)),
     (''concurrency'', JInt (wd_concurrency w)),
     (''environment_labels'', JObj (map (\<lambda>x. (fst x, JStr (snd x))) (sorted_list_of_set (wd_labels w))))]"

definition worker_from :: "codec_lib \<Rightarrow> json \<Rightarrow> rat worker_descriptor res" where
  "worker_from cl j =
     rbind (mapping_of j) (\<lambda>d.
     rbind (required_text cl d ''worker_id'') (\<lambda>i.
     rbind (required_text cl d ''runtime'') (\<lambda>runtime.
     rbind (rbind (required d ''resources'') resources_from) (\<lambda>r.
     rbind (texts_of cl (given d ''capabilities'' (JList []))) (\<lambda>caps.
     rbind (texts_of cl (given d ''sandbox_features'' (JList []))) (\<lambda>features.
     rbind (int_of cl (given d ''concurrency'' (JInt 1))) (\<lambda>n.
     rbind (mapping_of (given d ''environment_labels'' (JObj []))) (\<lambda>labels.
      let w = \<lparr>wd_id = i, wd_runtime = runtime, wd_resources = r, wd_capabilities = set caps, wd_features = set features,
          wd_locality = as_text cl (given d ''locality'' (JStr ''local'')), wd_concurrency = n,
          wd_labels = set (map (\<lambda>x. (fst x, as_text cl (snd x))) labels)\<rparr>
      in rbind (check_worker w) (\<lambda>_. Inr w)))))))))"

definition grant_payload :: "evidence_grant \<Rightarrow> json" where
  "grant_payload g = JObj [(''grant_id'', JStr (gr_id g)), (''campaign_id'', JStr (gr_campaign g)),
     (''from_branch_id'', JStr (gr_from g)), (''to_branch_id'', JStr (gr_to g)), (''evidence_ref'', JStr (gr_evidence g)),
     (''token_cost'', JInt (gr_cost g))]"

definition evidence_from :: "codec_lib \<Rightarrow> json \<Rightarrow> evidence_grant res" where
  "evidence_from cl j =
     rbind (mapping_of j) (\<lambda>d.
     rbind (required_text cl d ''grant_id'') (\<lambda>i.
     rbind (required_text cl d ''campaign_id'') (\<lambda>c.
     rbind (required_text cl d ''from_branch_id'') (\<lambda>f.
     rbind (required_text cl d ''to_branch_id'') (\<lambda>t.
     rbind (required_text cl d ''evidence_ref'') (\<lambda>e.
     rbind (rbind (required d ''token_cost'') (int_of cl)) (\<lambda>n.
      let g = \<lparr>gr_id = i, gr_campaign = c, gr_from = f, gr_to = t, gr_evidence = e, gr_cost = n\<rparr>
      in rbind (check_grant g) (\<lambda>_. Inr g))))))))"

subsection \<open>Jobs, leases, results\<close>

definition job_to_dict :: "rat job_request \<Rightarrow> json" where
  "job_to_dict r = JObj [(''job_id'', JStr (jr_id r)), (''idempotency_key'', JStr (jr_key r)), (''campaign_id'', JStr (jr_campaign r)),
     (''branch_id'', JStr (jr_branch r)), (''job_kind'', JStr (jr_kind r)), (''lane'', lane_payload (jr_lane r)),
     (''resources'', sched_resources_payload (jr_resources r)),
     (''required_capabilities'', text_list (sorted_list_of_set (jr_capabilities r))),
     (''reservation'', budget_payload (jr_reservation r)), (''max_attempts'', JInt (jr_max_attempts r)),
     (''cohort_id'', JStr (jr_cohort r)), (''prefer_warm_reuse'', JBool (jr_prefer_warm r)),
     (''evidence_grant_ids'', text_list (jr_grants r)), (''payload'', JObj (jr_payload r)),
     (''retry_expired_lease'', JBool (jr_retry_expired r))]"

definition job_from :: "codec_lib \<Rightarrow> json \<Rightarrow> rat job_request res" where
  "job_from cl j =
     rbind (mapping_of j) (\<lambda>d.
     rbind (required_text cl d ''job_id'') (\<lambda>i.
     rbind (required_text cl d ''idempotency_key'') (\<lambda>key.
     rbind (required_text cl d ''campaign_id'') (\<lambda>c.
     rbind (required_text cl d ''branch_id'') (\<lambda>b.
     rbind (required_text cl d ''job_kind'') (\<lambda>kind.
     rbind (rbind (required d ''lane'') (lane_from cl)) (\<lambda>l.
     rbind (rbind (required d ''resources'') resources_from) (\<lambda>rs.
     rbind (texts_of cl (given d ''required_capabilities'' (JList []))) (\<lambda>caps.
     rbind (rbind (required d ''reservation'') budget_from) (\<lambda>reservation.
     rbind (rbind (required d ''max_attempts'') (int_of cl)) (\<lambda>n.
     rbind (texts_of cl (given d ''evidence_grant_ids'' (JList []))) (\<lambda>grants.
     rbind (mapping_of (given d ''payload'' (JObj []))) (\<lambda>payload.
     rbind (as_bool (given d ''retry_expired_lease'' (JBool True))) (\<lambda>retry.
      let r = \<lparr>jr_id = i, jr_key = key, jr_campaign = c, jr_branch = b, jr_kind = kind, jr_lane = l, jr_resources = rs,
          jr_capabilities = set caps, jr_reservation = reservation, jr_max_attempts = n,
          jr_cohort = as_text cl (given d ''cohort_id'' (JStr [])), jr_prefer_warm = truthy (given d ''prefer_warm_reuse'' (JBool False)),
          jr_grants = grants, jr_payload = sorted_dict payload, jr_retry_expired = retry\<rparr>
      in rbind (check_request r) (\<lambda>_. Inr r)))))))))))))))"

definition lifecycle_text :: "lifecycle_policy \<Rightarrow> string" where
  "lifecycle_text p = (case p of EphemeralPerEval \<Rightarrow> ''ephemeral_per_eval'' | ReuseMatchedTrials \<Rightarrow> ''reuse_matched_trials''
     | WarmSnapshot \<Rightarrow> ''warm_snapshot'')"

definition lifecycle_of :: "string \<Rightarrow> lifecycle_policy res" where
  "lifecycle_of x = (if x = ''ephemeral_per_eval'' then Inr EphemeralPerEval
     else if x = ''reuse_matched_trials'' then Inr ReuseMatchedTrials
     else if x = ''warm_snapshot'' then Inr WarmSnapshot
     else Inl (ValueError ''unknown lifecycle''))"

definition lease_payload :: "rat lease \<Rightarrow> json" where
  "lease_payload l = JObj [(''lease_id'', JStr (le_id l)), (''job_id'', JStr (le_job l)), (''worker_id'', JStr (le_worker l)),
     (''attempt'', JInt (le_attempt l)), (''issued_at'', JFloat (le_issued l)), (''expires_at'', JFloat (le_expires l)),
     (''environment_fingerprint'', JStr (le_environment l)), (''lifecycle'', JStr (lifecycle_text (le_lifecycle l))),
     (''reuse_key'', JStr (le_reuse l))]"

definition lease_from :: "codec_lib \<Rightarrow> json \<Rightarrow> rat lease res" where
  "lease_from cl j =
     rbind (mapping_of j) (\<lambda>d.
     rbind (required_text cl d ''lease_id'') (\<lambda>i.
     rbind (required_text cl d ''job_id'') (\<lambda>job.
     rbind (required_text cl d ''worker_id'') (\<lambda>w.
     rbind (rbind (required d ''attempt'') (int_of cl)) (\<lambda>n.
     rbind (rbind (required d ''issued_at'') (float_of cl)) (\<lambda>issued.
     rbind (rbind (required d ''expires_at'') (float_of cl)) (\<lambda>expires.
     rbind (required_text cl d ''environment_fingerprint'') (\<lambda>e.
     rbind (rbind (required_text cl d ''lifecycle'') lifecycle_of) (\<lambda>p.
     rbind (required_text cl d ''reuse_key'') (\<lambda>reuse.
     Inr \<lparr>le_id = i, le_job = job, le_worker = w, le_attempt = n, le_issued = issued, le_expires = expires,
       le_environment = e, le_lifecycle = p, le_reuse = reuse\<rparr>))))))))))"

definition outcome_text :: "job_outcome \<Rightarrow> string" where
  "outcome_text x = (case x of CandidateSuccess \<Rightarrow> ''candidate_success'' | CandidateFailure \<Rightarrow> ''candidate_failure''
     | InfrastructureFailure \<Rightarrow> ''infrastructure_failure'')"

definition job_outcome_of :: "string \<Rightarrow> job_outcome res" where
  "job_outcome_of x = (if x = ''candidate_success'' then Inr CandidateSuccess
     else if x = ''candidate_failure'' then Inr CandidateFailure
     else if x = ''infrastructure_failure'' then Inr InfrastructureFailure
     else Inl (ValueError (''unsupported campaign job outcome: '' @ x)))"

definition result_to_dict :: "rat job_result \<Rightarrow> json" where
  "result_to_dict x = JObj [(''outcome'', JStr (outcome_text (jx_outcome x))), (''consumed'', budget_payload (jx_consumed x)),
     (''output_ref'', JStr (jx_output x)), (''detail'', JStr (jx_detail x)), (''cleanup_succeeded'', JBool (jx_cleanup x)),
     (''metadata'', JObj (jx_metadata x)), (''retryable'', JBool (jx_retryable x))]"

definition result_from :: "codec_lib \<Rightarrow> json \<Rightarrow> rat job_result res" where
  "result_from cl j =
     rbind (mapping_of j) (\<lambda>d.
     rbind (required_text cl d ''outcome'') (\<lambda>o1.
     rbind (rbind (required d ''consumed'') budget_from) (\<lambda>b.
     rbind (as_bool (given d ''cleanup_succeeded'' (JBool True))) (\<lambda>cleanup.
     rbind (mapping_of (given d ''metadata'' (JObj []))) (\<lambda>md.
     rbind (as_bool (given d ''retryable'' (JBool True))) (\<lambda>retry.
     rbind (job_outcome_of o1) (\<lambda>outcome.
     Inr \<lparr>jx_outcome = outcome, jx_consumed = b, jx_output = as_text cl (given d ''output_ref'' (JStr [])),
       jx_detail = as_text cl (given d ''detail'' (JStr [])), jx_cleanup = cleanup, jx_metadata = sorted_dict md,
       jx_retryable = retry\<rparr>)))))))"

end
