(* ===== verification/Sched_Records.thy ===== *)
theory Sched_Records
  imports Sched_Codec
begin

text \<open>
  The records of the event log: the payload that each operation of \<^verbatim>\<open>campaign_scheduler.py\<close> writes, what
  \<^verbatim>\<open>campaign_scheduler_replay.py\<close> reads of it, and the implementation of the \<open>log_codec\<close> interface, as
  \<^verbatim>\<open>campaign_scheduler_store.py\<close> has it.
\<close>

subsection \<open>Payloads\<close>

definition job_lease_items :: "string \<Rightarrow> string \<Rightarrow> dict" where
  "job_lease_items j lid = [(''job_id'', JStr j), (''lease_id'', JStr lid)]"

definition result_items :: "rat job_result option \<Rightarrow> bool \<Rightarrow> dict" where
  "result_items x provisional = (case x of None \<Rightarrow> [] | Some x \<Rightarrow> [(''result'', result_to_dict x)]) @
     (if provisional then [(''provisional_usage'', JBool True)] else [])"

fun event_type_of :: "rat sched_event \<Rightarrow> string" where
  "event_type_of (CampaignConfigured c b bs) = ''campaign_configured''"
| "event_type_of (RuntimePlanBound c f) = ''runtime_plan_bound''"
| "event_type_of (AuditCheckpointFailed c k f) = ''audit_checkpoint_failed''"
| "event_type_of (WorkerRegistered w t) = ''worker_registered''"
| "event_type_of (WorkerHeartbeat w t ls e) = ''worker_heartbeat''"
| "event_type_of (EvidenceGranted g) = ''evidence_granted''"
| "event_type_of (JobEnqueued r) = ''job_enqueued''"
| "event_type_of (WarmDegraded j w r) = ''warm_degraded''"
| "event_type_of (JobLeased l b) = ''job_leased''"
| "event_type_of (JobBudgetExhausted j) = ''job_budget_exhausted''"
| "event_type_of (JobCancelRequested j l) = ''job_cancel_requested''"
| "event_type_of (JobCanceledLate j l x) = ''job_canceled_late''"
| "event_type_of (JobStaleCompleted j l x) = ''job_stale_completed''"
| "event_type_of (JobRequeued j l r x p) = ''job_requeued''"
| "event_type_of (JobLeaseFailed j l r x p) = ''job_lease_failed''"
| "event_type_of (JobCanceled j r x p) = ''job_canceled''"
| "event_type_of (JobFinished j l x) = ''job_finished''"

fun event_payload_of :: "rat sched_event \<Rightarrow> dict" where
  "event_payload_of (CampaignConfigured c b bs) = [(''campaign_id'', JStr c), (''budget'', budget_payload b),
     (''branch_budgets'', JObj (map (\<lambda>x. (fst x, budget_payload (snd x))) bs))]"
| "event_payload_of (RuntimePlanBound c f) = [(''campaign_id'', JStr c), (''fingerprint'', JStr f)]"
| "event_payload_of (AuditCheckpointFailed c k f) = [(''campaign_id'', JStr c), (''checkpoint'', JStr k), (''failure'', JStr f)]"
| "event_payload_of (WorkerRegistered w t) = [(''worker'', worker_to_dict w), (''at'', JFloat t)]"
| "event_payload_of (WorkerHeartbeat w t ls e) = [(''worker_id'', JStr w), (''at'', JFloat t), (''lease_ids'', text_list ls),
     (''expires_at'', JFloat e)]"
| "event_payload_of (EvidenceGranted g) = [(''grant'', grant_payload g)]"
| "event_payload_of (JobEnqueued r) = [(''job'', job_to_dict r)]"
| "event_payload_of (WarmDegraded j w r) = [(''job_id'', JStr j), (''worker_id'', JStr w), (''reason'', JStr r)]"
| "event_payload_of (JobLeased l b) = [(''lease'', lease_payload l), (''reservation'', budget_payload b)]"
| "event_payload_of (JobBudgetExhausted j) = [(''job_id'', JStr j)]"
| "event_payload_of (JobCancelRequested j l) = job_lease_items j l"
| "event_payload_of (JobCanceledLate j l x) = job_lease_items j l @ result_items (Some x) False"
| "event_payload_of (JobStaleCompleted j l x) = job_lease_items j l @ result_items (Some x) False"
| "event_payload_of (JobRequeued j l r x p) = job_lease_items j l @ [(''reason'', JStr r)] @ result_items x p"
| "event_payload_of (JobLeaseFailed j l r x p) = job_lease_items j l @ [(''reason'', JStr r)] @ result_items x p"
| "event_payload_of (JobCanceled j r x p) = (case x of
       None \<Rightarrow> [(''job_id'', JStr j), (''reason'', JStr r)] @ result_items None p
     | Some (l, y) \<Rightarrow> job_lease_items j l @ [(''reason'', JStr r)] @ result_items (Some y) p)"
| "event_payload_of (JobFinished j l x) = job_lease_items j l @ result_items (Some x) False"

text \<open>\<open>payload.get("result")\<close>, a value that is present and not \<open>None\<close>; and \<open>payload.get("provisional_usage") is True\<close>.\<close>

definition optional_result :: "codec_lib \<Rightarrow> dict \<Rightarrow> rat job_result option res" where
  "optional_result cl d = (let j = given d ''result'' JNull in if j = JNull then Inr None else rbind (result_from cl j) (\<lambda>x. Inr (Some x)))"

definition provisional_usage :: "dict \<Rightarrow> bool" where
  "provisional_usage d \<longleftrightarrow> given d ''provisional_usage'' JNull = JBool True"

definition given_text :: "codec_lib \<Rightarrow> dict \<Rightarrow> string \<Rightarrow> string" where
  "given_text cl d k = as_text cl (given d k (JStr []))"

definition required_result :: "codec_lib \<Rightarrow> dict \<Rightarrow> rat job_result res" where
  "required_result cl d = rbind (required d ''result'') (result_from cl)"

definition branch_budget :: "string \<times> json \<Rightarrow> (string \<times> rat sched_budget) res" where
  "branch_budget x = rbind (budget_from (snd x)) (\<lambda>b. Inr (fst x, b))"

text \<open>
  An event of a type that the reducer does not know changes nothing but the sequence number, as
  \<open>warm_degraded\<close> does, whose payload is not read either.
\<close>

definition event_from :: "codec_lib \<Rightarrow> string \<Rightarrow> dict \<Rightarrow> rat sched_event res" where
  "event_from cl ty d =
     (if ty = ''campaign_configured'' then
        rbind (required_text cl d ''campaign_id'') (\<lambda>c.
        rbind (rbind (required d ''budget'') budget_from) (\<lambda>b.
        rbind (mapping_of (given d ''branch_budgets'' (JObj []))) (\<lambda>bs.
        rbind (map_res branch_budget bs) (\<lambda>branches. Inr (CampaignConfigured c b branches)))))
      else if ty = ''runtime_plan_bound'' then
        rbind (required_text cl d ''campaign_id'') (\<lambda>c.
        rbind (required_text cl d ''fingerprint'') (\<lambda>f. Inr (RuntimePlanBound c f)))
      else if ty = ''audit_checkpoint_failed'' then
        rbind (required_text cl d ''campaign_id'') (\<lambda>c.
        rbind (required_text cl d ''checkpoint'') (\<lambda>k.
        rbind (required_text cl d ''failure'') (\<lambda>f. Inr (AuditCheckpointFailed c k f))))
      else if ty = ''worker_registered'' then
        rbind (rbind (required d ''worker'') (worker_from cl)) (\<lambda>w.
        rbind (rbind (required d ''at'') (as_float cl)) (\<lambda>t. Inr (WorkerRegistered w t)))
      else if ty = ''worker_heartbeat'' then
        rbind (required_text cl d ''worker_id'') (\<lambda>w.
        rbind (rbind (required d ''at'') (as_float cl)) (\<lambda>t.
        rbind (sequence_of (given d ''lease_ids'' (JList []))) (\<lambda>ls.
        rbind (rbind (required d ''expires_at'') (as_float cl)) (\<lambda>e. Inr (WorkerHeartbeat w t (map (as_text cl) ls) e)))))
      else if ty = ''evidence_granted'' then
        rbind (rbind (required d ''grant'') (evidence_from cl)) (\<lambda>g. Inr (EvidenceGranted g))
      else if ty = ''job_enqueued'' then
        rbind (rbind (required d ''job'') (job_from cl)) (\<lambda>r. Inr (JobEnqueued r))
      else if ty = ''job_leased'' then
        rbind (rbind (required d ''lease'') (lease_from cl)) (\<lambda>l.
        Inr (JobLeased l (case rbind (required d ''reservation'') budget_from of Inr b \<Rightarrow> b | Inl e \<Rightarrow> no_budget)))
      else if ty = ''job_budget_exhausted'' then
        rbind (required_text cl d ''job_id'') (\<lambda>j. Inr (JobBudgetExhausted j))
      else if ty = ''job_cancel_requested'' then
        rbind (required_text cl d ''job_id'') (\<lambda>j. Inr (JobCancelRequested j (given_text cl d ''lease_id'')))
      else if ty = ''job_canceled_late'' \<or> ty = ''job_stale_completed'' then
        rbind (required_text cl d ''job_id'') (\<lambda>j.
        rbind (required_result cl d) (\<lambda>x.
        rbind (required_text cl d ''lease_id'') (\<lambda>l.
        Inr (if ty = ''job_canceled_late'' then JobCanceledLate j l x else JobStaleCompleted j l x))))
      else if ty = ''job_requeued'' then
        rbind (required_text cl d ''job_id'') (\<lambda>j.
        rbind (optional_result cl d) (\<lambda>x.
        rbind (if x = None \<and> given_text cl d ''reason'' \<noteq> ''lease_expired'' then Inr (given_text cl d ''lease_id'')
          else required_text cl d ''lease_id'') (\<lambda>l.
        Inr (JobRequeued j l (given_text cl d ''reason'') x (provisional_usage d)))))
      else if ty = ''job_lease_failed'' then
        rbind (required_text cl d ''job_id'') (\<lambda>j.
        rbind (optional_result cl d) (\<lambda>x.
        rbind (required_text cl d ''lease_id'') (\<lambda>l.
        Inr (JobLeaseFailed j l (given_text cl d ''reason'') x (provisional_usage d)))))
      else if ty = ''job_canceled'' then
        rbind (required_text cl d ''job_id'') (\<lambda>j.
        rbind (optional_result cl d) (\<lambda>x.
        rbind (case x of None \<Rightarrow> Inr None | Some y \<Rightarrow> rbind (required_text cl d ''lease_id'') (\<lambda>l. Inr (Some (l, y)))) (\<lambda>ly.
        Inr (JobCanceled j (given_text cl d ''reason'') ly (provisional_usage d)))))
      else if ty = ''job_finished'' then
        rbind (required_text cl d ''job_id'') (\<lambda>j.
        rbind (required_result cl d) (\<lambda>x.
        rbind (required_text cl d ''lease_id'') (\<lambda>l. Inr (JobFinished j l x))))
      else Inr (WarmDegraded (given_text cl d ''job_id'') (given_text cl d ''worker_id'') (given_text cl d ''reason'')))"

subsection \<open>Records\<close>

definition record_body :: "rat log_record \<Rightarrow> dict" where
  "record_body e = [(''sequence'', JInt (int (lr_sequence e))), (''event_id'', JStr (lr_id e)), (''timestamp'', JFloat (lr_time e)),
     (''event_type'', JStr (event_type_of (lr_event e))), (''payload'', JObj (event_payload_of (lr_event e)))]"

text \<open>The line of a record; when the body has no digest, \<open>append\<close> raises before it writes a line.\<close>

definition record_line :: "codec_lib \<Rightarrow> rat log_record \<Rightarrow> string" where
  "record_line cl e = (case stable_digest cl (JObj (record_body e)) of
       Inr h \<Rightarrow> cl_line cl (JObj (record_body e @ [(''checksum'', JStr h)])) | Inl _ \<Rightarrow> [])"

text \<open>
  \<open>json.loads(...)\<close> and \<open>data.pop("checksum")\<close>: what has no \<open>pop\<close> raises an \<open>AttributeError\<close>, which is not caught;
  the \<open>pop\<close> of a list raises a \<open>TypeError\<close>, which is.
\<close>

definition parse_record :: "codec_lib \<Rightarrow> string \<Rightarrow> parsed" where
  "parse_record cl line = (case cl_loads cl line of
       None \<Rightarrow> Unreadable
     | Some (JObj d) \<Rightarrow> (case map_of d ''checksum'' of None \<Rightarrow> Unreadable
         | Some h \<Rightarrow> Parsed (filter (\<lambda>x. fst x \<noteq> ''checksum'') d) (as_text cl h))
     | Some (JList xs) \<Rightarrow> Unreadable
     | Some _ \<Rightarrow> Escapes (UserException ''AttributeError'' ''object has no attribute pop''))"

text \<open>The event of a record; a payload that is not an object is refused, also the lists that \<open>dict(...)\<close> would take.\<close>

definition record_from :: "codec_lib \<Rightarrow> nat \<Rightarrow> dict \<Rightarrow> rat log_record res" where
  "record_from cl n d =
     rbind (required_text cl d ''event_id'') (\<lambda>i.
     rbind (rbind (required d ''timestamp'') (float_of cl)) (\<lambda>t.
     rbind (required_text cl d ''event_type'') (\<lambda>ty.
     rbind (rbind (required d ''payload'') mapping_of) (\<lambda>p.
     rbind (event_from cl ty p) (\<lambda>ev.
     Inr \<lparr>lr_sequence = n, lr_id = i, lr_time = t, lr_event = ev\<rparr>)))))"

definition sched_codec :: "codec_lib \<Rightarrow> rat log_codec" where
  "sched_codec cl = \<lparr>lc_body = record_body, lc_encode = record_line cl, lc_parse = parse_record cl,
     lc_digest = (\<lambda>d. stable_digest cl (JObj d)), lc_event = record_from cl\<rparr>"

end
