(* ===== verification/Sched_Records_Props.thy ===== *)
theory Sched_Records_Props
  imports Sched_Records
begin

text \<open>
  What the scheduler writes it reads back: the round trip of every value and of every event through sorted JSON, and from
  it that the codec of the scheduler keeps the contract of \<open>log_codec\<close>, \<open>record_faithful\<close>.
\<close>

text \<open>
  The documented behaviour of the library: a line of JSON is read back with its keys sorted, has no line break and
  is not empty, and no proper beginning of the text of an object is JSON.
\<close>

definition codec_lib_ok :: "codec_lib \<Rightarrow> bool" where
  "codec_lib_ok cl \<longleftrightarrow> (\<forall>d. plain_json (JObj d) \<longrightarrow>
     cl_loads cl (cl_line cl (JObj d)) = Some (sorted_json (JObj d)) \<and> cl_line cl (JObj d) \<noteq> [] \<and>
     (\<forall>ch \<in> set (cl_line cl (JObj d)). \<not> newline ch) \<and>
     (\<forall>k < length (cl_line cl (JObj d)). cl_loads cl (take k (cl_line cl (JObj d))) = None))"

subsection \<open>Looking up in a sorted object\<close>

named_theorems read_back

lemma required_sorted [read_back]:
  "distinct (map fst d) \<Longrightarrow> required (sorted_dict d) k = (case map_of d k of Some j \<Rightarrow> Inr (sorted_json j) | None \<Rightarrow> Inl (KeyError k))"
  by (simp add: required_def map_of_sorted_dict split: option.split)

lemma given_sorted [read_back]:
  "distinct (map fst d) \<Longrightarrow> given (sorted_dict d) k x = (case map_of d k of Some j \<Rightarrow> sorted_json j | None \<Rightarrow> x)"
  by (simp add: given_def map_of_sorted_dict split: option.split)

lemma integer_sorted [read_back]: "distinct (map fst d) \<Longrightarrow> integer_field (sorted_dict d) k = integer_field d k"
  by (simp add: integer_field_def map_of_sorted_dict split: option.split json.split)

lemma number_sorted [read_back]: "distinct (map fst d) \<Longrightarrow> number_field (sorted_dict d) k x = number_field d k x"
  by (simp add: number_field_def map_of_sorted_dict split: option.split json.split)

lemma kind_sorted [read_back]: "distinct (map fst d) \<Longrightarrow> kind_field (sorted_dict d) = kind_field d"
  by (simp add: kind_field_def map_of_sorted_dict split: option.split json.split)

lemma known_sorted [read_back]: "known_fields (sorted_dict d) ks = known_fields d ks"
  by (simp add: known_fields_def)

lemma text_sorted [read_back]: "required_text cl (sorted_dict d) k = (case map_of d k of Some j \<Rightarrow> Inr (as_text cl (sorted_json j)) | None \<Rightarrow> Inl (KeyError k))"
  if "distinct (map fst d)"
  using that by (simp add: required_text_def required_sorted split: option.split)

lemma mapping_sorted [read_back]: "mapping_of (sorted_json (JObj d)) = Inr (sorted_dict d)"
  by (simp only: sorted_json_obj mapping_of_def json.case)

lemma as_text_JStr [simp]: "as_text cl (JStr x) = x"
  by (simp add: as_text_def)

lemma texts_back [read_back]: "texts_of cl (sorted_json (text_list xs)) = Inr xs"
  by (simp add: texts_of_def text_list_def py_tuple_def comp_def)

lemma scalars_back [simp]:
  "int_of cl (JInt n) = Inr n" "float_of cl (JFloat x) = Inr x" "as_float cl (JFloat x) = Inr x" "as_bool (JBool b) = Inr b"
  "truthy (JBool b) = b"
  by (simp_all add: int_of_def float_of_def as_float_def as_bool_def truthy_def)

lemma record_again [read_back]:
  "\<lparr>ln_id = ln_id l, ln_fixture = ln_fixture l, ln_seeds = ln_seeds l, ln_epoch = ln_epoch l, ln_contract = ln_contract l,
     ln_environment = ln_environment l\<rparr> = l"
  "\<lparr>gr_id = gr_id g, gr_campaign = gr_campaign g, gr_from = gr_from g, gr_to = gr_to g, gr_evidence = gr_evidence g,
     gr_cost = gr_cost g\<rparr> = g"
  "\<lparr>wd_id = wd_id w, wd_runtime = wd_runtime w, wd_resources = wd_resources w, wd_capabilities = wd_capabilities w,
     wd_features = wd_features w, wd_locality = wd_locality w, wd_concurrency = wd_concurrency w, wd_labels = wd_labels w\<rparr> = w"
  "\<lparr>jr_id = jr_id r, jr_key = jr_key r, jr_campaign = jr_campaign r, jr_branch = jr_branch r, jr_kind = jr_kind r, jr_lane = jr_lane r,
     jr_resources = jr_resources r, jr_capabilities = jr_capabilities r, jr_reservation = jr_reservation r,
     jr_max_attempts = jr_max_attempts r, jr_cohort = jr_cohort r, jr_prefer_warm = jr_prefer_warm r, jr_grants = jr_grants r,
     jr_payload = jr_payload r, jr_retry_expired = jr_retry_expired r\<rparr> = r"
  by simp_all

subsection \<open>Values\<close>

definition valid_budget :: "rat sched_budget \<Rightarrow> bool" where
  "valid_budget b \<longleftrightarrow> 0 \<le> sb_tokens b \<and> 0 \<le> sb_wall b \<and> 0 \<le> sb_compute b \<and> 0 \<le> sb_jobs b \<and> 0 \<le> sb_shared b \<and>
     is_double (sb_wall b) \<and> is_double (sb_compute b)"

lemma budget_back:
  assumes "valid_budget b"
  shows "budget_from (sorted_json (budget_payload b)) = Inr b"
proof -
  let ?d = "[(''tokens'', JInt (sb_tokens b)), (''wall_seconds'', JFloat (sb_wall b)),
     (''compute_units'', JFloat (sb_compute b)), (''jobs'', JInt (sb_jobs b)), (''shared_evidence_tokens'', JInt (sb_shared b))]"
  have dist: "distinct (map fst ?d)" by simp
  show ?thesis
    unfolding budget_payload_def budget_from_def
    using assms
    by (simp add: mapping_sorted known_sorted integer_sorted [OF dist] number_sorted [OF dist] del: sorted_json.simps(7,8))
      (simp add: known_fields_def budget_keys_def ensure_def integer_field_def number_field_def make_sched_budget_def valid_budget_def)
qed

lemma budget_plain: "valid_budget b \<Longrightarrow> plain_json (budget_payload b)"
  by (simp add: budget_payload_def valid_budget_def)

definition valid_resources :: "rat resources \<Rightarrow> bool" where
  "valid_resources r \<longleftrightarrow> make_resources (res_cpu r) (res_memory r) (res_disk r) (res_kind r) (res_count r) = Inr r \<and>
     is_double (res_cpu r) \<and> is_double (res_memory r) \<and> is_double (res_disk r)"

lemma resources_back:
  assumes "valid_resources r"
  shows "resources_from (sorted_json (sched_resources_payload r)) = Inr r"
proof -
  let ?d = "[(''cpu_cores'', JFloat (res_cpu r)), (''memory_gb'', JFloat (res_memory r)),
     (''disk_gb'', JFloat (res_disk r)), (''accelerator_kind'', text_or_null (res_kind r)), (''accelerator_count'', JInt (res_count r))]"
  have dist: "distinct (map fst ?d)" by simp
  have "kind_field ?d = Inr (res_kind r)" by (simp add: kind_field_def text_or_null_def split: option.split)
  then show ?thesis
    unfolding sched_resources_payload_def resources_from_def
    using assms
    by (simp add: mapping_sorted known_sorted integer_sorted [OF dist] number_sorted [OF dist] kind_sorted [OF dist] del: sorted_json.simps(7,8))
      (simp add: known_fields_def resource_keys_def ensure_def integer_field_def number_field_def valid_resources_def)
qed

lemma sched_resources_plain: "valid_resources r \<Longrightarrow> plain_json (sched_resources_payload r)"
  by (simp add: sched_resources_payload_def valid_resources_def text_or_null_def split: option.split)

lemma texts_plain [simp]: "plain_json (text_list xs)"
  by (simp add: text_list_def list_all_iff)

lemma lane_back:
  assumes "check_lane l = Inr ()"
  shows "lane_from cl (sorted_json (lane_payload l)) = Inr l"
proof -
  let ?d = "[(''lane_id'', JStr (ln_id l)), (''fixture_digest'', JStr (ln_fixture l)), (''seeds'', text_list (ln_seeds l)),
     (''evaluator_epoch'', JStr (ln_epoch l)), (''verifier_contract_ref'', JStr (ln_contract l)),
     (''execution_environment_digest'', JStr (ln_environment l))]"
  have dist: "distinct (map fst ?d)" by simp
  have t: "texts_of cl (sorted_json (text_list (ln_seeds l))) = Inr (ln_seeds l)" by (rule texts_back)
  show ?thesis
    unfolding lane_payload_def lane_from_def
    using assms t by (simp add: record_again mapping_sorted required_sorted [OF dist] text_sorted [OF dist] given_sorted [OF dist] Let_def del: sorted_json.simps(7,8))
qed

lemma lane_plain: "plain_json (lane_payload l)"
  by (simp add: lane_payload_def)

definition valid_labels :: "(string \<times> string) set \<Rightarrow> bool" where
  "valid_labels ls \<longleftrightarrow> finite ls \<and> inj_on fst ls"

definition valid_worker :: "rat worker_descriptor \<Rightarrow> bool" where
  "valid_worker w \<longleftrightarrow> check_worker w = Inr () \<and> valid_resources (wd_resources w) \<and> finite (wd_capabilities w) \<and>
     finite (wd_features w) \<and> valid_labels (wd_labels w)"

lemma labels_distinct: "valid_labels ls \<Longrightarrow> distinct (map fst (sorted_list_of_set ls))"
  by (simp add: valid_labels_def distinct_map)

lemma labels_back:
  assumes "valid_labels ls"
  shows "set (map (\<lambda>x. (fst x, as_text cl (snd x))) (sorted_dict (map (\<lambda>x. (fst x, JStr (snd x))) (sorted_list_of_set ls)))) = ls"
  using assms by (simp add: sorted_dict_def image_image valid_labels_def)

lemma worker_back:
  assumes "valid_worker w"
  shows "worker_from cl (sorted_json (worker_to_dict w)) = Inr w"
proof -
  let ?ls = "JObj (map (\<lambda>x. (fst x, JStr (snd x))) (sorted_list_of_set (wd_labels w)))"
  let ?d = "[(''worker_id'', JStr (wd_id w)), (''runtime'', JStr (wd_runtime w)), (''resources'', sched_resources_payload (wd_resources w)),
     (''capabilities'', text_list (sorted_list_of_set (wd_capabilities w))),
     (''sandbox_features'', text_list (sorted_list_of_set (wd_features w))), (''locality'', JStr (wd_locality w)),
     (''concurrency'', JInt (wd_concurrency w)), (''environment_labels'', ?ls)]"
  have dist: "distinct (map fst ?d)" by simp
  note v = assms [unfolded valid_worker_def]
  have r: "resources_from (sorted_json (sched_resources_payload (wd_resources w))) = Inr (wd_resources w)" using v resources_back by blast
  have c: "set (sorted_list_of_set (wd_capabilities w)) = wd_capabilities w" "set (sorted_list_of_set (wd_features w)) = wd_features w" using v by simp_all
  show ?thesis
    unfolding worker_to_dict_def worker_from_def
    using v labels_back [of "wd_labels w" cl] by (simp add: record_again mapping_sorted required_sorted [OF dist] text_sorted [OF dist] given_sorted [OF dist] r c texts_back Let_def
        del: sorted_json.simps(7,8) set_map)
qed

lemma worker_plain: "valid_worker w \<Longrightarrow> plain_json (worker_to_dict w)"
  using labels_distinct [of "wd_labels w"]
  by (simp add: worker_to_dict_def valid_worker_def sched_resources_plain comp_def list_all_iff)

lemma grant_back:
  assumes "check_grant g = Inr ()"
  shows "evidence_from cl (sorted_json (grant_payload g)) = Inr g"
proof -
  let ?d = "[(''grant_id'', JStr (gr_id g)), (''campaign_id'', JStr (gr_campaign g)), (''from_branch_id'', JStr (gr_from g)),
     (''to_branch_id'', JStr (gr_to g)), (''evidence_ref'', JStr (gr_evidence g)), (''token_cost'', JInt (gr_cost g))]"
  have dist: "distinct (map fst ?d)" by simp
  show ?thesis
    unfolding grant_payload_def evidence_from_def
    using assms by (simp add: record_again mapping_sorted required_sorted [OF dist] text_sorted [OF dist] Let_def del: sorted_json.simps(7,8))
qed

lemma grant_plain: "plain_json (grant_payload g)"
  by (simp add: grant_payload_def)

definition valid_job :: "rat job_request \<Rightarrow> bool" where
  "valid_job r \<longleftrightarrow> check_request r = Inr () \<and> check_lane (jr_lane r) = Inr () \<and> valid_resources (jr_resources r) \<and>
     finite (jr_capabilities r) \<and> valid_budget (jr_reservation r) \<and> canonical_dict (jr_payload r)"

lemma job_back:
  assumes "valid_job r"
  shows "job_from cl (sorted_json (job_to_dict r)) = Inr r"
proof -
  let ?d = "[(''job_id'', JStr (jr_id r)), (''idempotency_key'', JStr (jr_key r)), (''campaign_id'', JStr (jr_campaign r)),
     (''branch_id'', JStr (jr_branch r)), (''job_kind'', JStr (jr_kind r)), (''lane'', lane_payload (jr_lane r)),
     (''resources'', sched_resources_payload (jr_resources r)),
     (''required_capabilities'', text_list (sorted_list_of_set (jr_capabilities r))),
     (''reservation'', budget_payload (jr_reservation r)), (''max_attempts'', JInt (jr_max_attempts r)),
     (''cohort_id'', JStr (jr_cohort r)), (''prefer_warm_reuse'', JBool (jr_prefer_warm r)),
     (''evidence_grant_ids'', text_list (jr_grants r)), (''payload'', JObj (jr_payload r)),
     (''retry_expired_lease'', JBool (jr_retry_expired r))]"
  have dist: "distinct (map fst ?d)" by simp
  note v = assms [unfolded valid_job_def]
  have parts: "resources_from (sorted_json (sched_resources_payload (jr_resources r))) = Inr (jr_resources r)"
    "lane_from cl (sorted_json (lane_payload (jr_lane r))) = Inr (jr_lane r)"
    "budget_from (sorted_json (budget_payload (jr_reservation r))) = Inr (jr_reservation r)"
    using v resources_back lane_back budget_back by blast+
  have c: "set (sorted_list_of_set (jr_capabilities r)) = jr_capabilities r" using v by simp
  have p: "sorted_dict (jr_payload r) = jr_payload r" using v by (simp add: canonical_dict_def)
  show ?thesis
    unfolding job_to_dict_def job_from_def
    using v by (simp add: record_again mapping_sorted required_sorted [OF dist] text_sorted [OF dist] given_sorted [OF dist] parts c p
        texts_back Let_def del: sorted_json.simps(7,8))
qed

lemma job_plain: "valid_job r \<Longrightarrow> plain_json (job_to_dict r)"
  by (simp add: job_to_dict_def valid_job_def sched_resources_plain budget_plain lane_plain canonical_dict_def)

definition valid_lease :: "rat lease \<Rightarrow> bool" where
  "valid_lease l \<longleftrightarrow> is_double (le_issued l) \<and> is_double (le_expires l)"

lemma lease_back: "lease_from cl (sorted_json (lease_payload l)) = Inr l"
proof -
  let ?d = "[(''lease_id'', JStr (le_id l)), (''job_id'', JStr (le_job l)), (''worker_id'', JStr (le_worker l)),
     (''attempt'', JInt (le_attempt l)), (''issued_at'', JFloat (le_issued l)), (''expires_at'', JFloat (le_expires l)),
     (''environment_fingerprint'', JStr (le_environment l)), (''lifecycle'', JStr (lifecycle_text (le_lifecycle l))),
     (''reuse_key'', JStr (le_reuse l))]"
  have dist: "distinct (map fst ?d)" by simp
  have p: "lifecycle_of (lifecycle_text (le_lifecycle l)) = Inr (le_lifecycle l)"
    by (cases "le_lifecycle l") (simp_all add: lifecycle_text_def lifecycle_of_def)
  show ?thesis
    unfolding lease_payload_def lease_from_def
    by (simp add: mapping_sorted required_sorted [OF dist] text_sorted [OF dist] p del: sorted_json.simps(7,8))
qed

lemma lease_plain: "valid_lease l \<Longrightarrow> plain_json (lease_payload l)"
  by (simp add: lease_payload_def valid_lease_def)

definition valid_job_result :: "rat job_result \<Rightarrow> bool" where
  "valid_job_result x \<longleftrightarrow> valid_budget (jx_consumed x) \<and> canonical_dict (jx_metadata x)"

lemma job_result_back:
  assumes "valid_job_result x"
  shows "result_from cl (sorted_json (result_to_dict x)) = Inr x"
proof -
  let ?d = "[(''outcome'', JStr (outcome_text (jx_outcome x))), (''consumed'', budget_payload (jx_consumed x)),
     (''output_ref'', JStr (jx_output x)), (''detail'', JStr (jx_detail x)), (''cleanup_succeeded'', JBool (jx_cleanup x)),
     (''metadata'', JObj (jx_metadata x)), (''retryable'', JBool (jx_retryable x))]"
  have dist: "distinct (map fst ?d)" by simp
  have o1: "job_outcome_of (outcome_text (jx_outcome x)) = Inr (jx_outcome x)"
    by (cases "jx_outcome x") (simp_all add: outcome_text_def job_outcome_of_def)
  have parts: "budget_from (sorted_json (budget_payload (jx_consumed x))) = Inr (jx_consumed x)" "sorted_dict (jx_metadata x) = jx_metadata x"
    using assms budget_back by (auto simp: valid_job_result_def canonical_dict_def)
  show ?thesis
    unfolding result_to_dict_def result_from_def
    by (simp add: mapping_sorted required_sorted [OF dist] text_sorted [OF dist] given_sorted [OF dist] o1 parts del: sorted_json.simps(7,8))
qed

lemma job_result_plain: "valid_job_result x \<Longrightarrow> plain_json (result_to_dict x)"
  by (simp add: result_to_dict_def valid_job_result_def budget_plain canonical_dict_def)

subsection \<open>Events\<close>

fun valid_event_of :: "rat sched_event \<Rightarrow> bool" where
  "valid_event_of (CampaignConfigured c b bs) \<longleftrightarrow> valid_budget b \<and> distinct (map fst bs) \<and> sorted (map fst bs) \<and>
     list_all (valid_budget \<circ> snd) bs"
| "valid_event_of (RuntimePlanBound c f) \<longleftrightarrow> True"
| "valid_event_of (AuditCheckpointFailed c k f) \<longleftrightarrow> True"
| "valid_event_of (WorkerRegistered w t) \<longleftrightarrow> valid_worker w \<and> is_double t"
| "valid_event_of (WorkerHeartbeat w t ls e) \<longleftrightarrow> is_double t \<and> is_double e"
| "valid_event_of (EvidenceGranted g) \<longleftrightarrow> check_grant g = Inr ()"
| "valid_event_of (JobEnqueued r) \<longleftrightarrow> valid_job r"
| "valid_event_of (WarmDegraded j w r) \<longleftrightarrow> True"
| "valid_event_of (JobLeased l b) \<longleftrightarrow> valid_lease l \<and> valid_budget b"
| "valid_event_of (JobBudgetExhausted j) \<longleftrightarrow> True"
| "valid_event_of (JobCancelRequested j l) \<longleftrightarrow> True"
| "valid_event_of (JobCanceledLate j l x) \<longleftrightarrow> valid_job_result x"
| "valid_event_of (JobStaleCompleted j l x) \<longleftrightarrow> valid_job_result x"
| "valid_event_of (JobRequeued j l r x p) \<longleftrightarrow> (case x of None \<Rightarrow> True | Some y \<Rightarrow> valid_job_result y)"
| "valid_event_of (JobLeaseFailed j l r x p) \<longleftrightarrow> (case x of None \<Rightarrow> True | Some y \<Rightarrow> valid_job_result y)"
| "valid_event_of (JobCanceled j r x p) \<longleftrightarrow> (case x of None \<Rightarrow> True | Some (l, y) \<Rightarrow> valid_job_result y)"
| "valid_event_of (JobFinished j l x) \<longleftrightarrow> valid_job_result x"

lemma event_keys_distinct: "distinct (map fst (event_payload_of ev))"
  by (cases ev) (auto simp: job_lease_items_def result_items_def split: option.split)

lemma sched_event_plain: "valid_event_of ev \<Longrightarrow> plain_json (JObj (event_payload_of ev))"
proof -
  assume v: "valid_event_of ev"
  have "list_all (\<lambda>x. plain_json (snd x)) (event_payload_of ev)"
    using v by (cases ev) (auto simp: job_lease_items_def result_items_def budget_plain worker_plain grant_plain job_plain lease_plain
        job_result_plain comp_def list_all_iff split: option.splits)
  then show ?thesis using event_keys_distinct by simp
qed

lemma branches_back:
  assumes "list_all (valid_budget \<circ> snd) bs" and "distinct (map fst bs)" and "sorted (map fst bs)"
  shows "map_res branch_budget (sorted_dict (map (\<lambda>x. (fst x, budget_payload (snd x))) bs)) = Inr bs"
proof -
  have "sorted_dict (map (\<lambda>x. (fst x, budget_payload (snd x))) bs) = map (\<lambda>x. (fst x, sorted_json (budget_payload (snd x)))) bs"
    unfolding sorted_dict_def using assms(3) by (simp add: comp_def sort_sorted)
  moreover have "map_res branch_budget (map (\<lambda>x. (fst x, sorted_json (budget_payload (snd x)))) bs) = Inr bs"
    using assms(1) by (induction bs) (simp_all add: branch_budget_def budget_back)
  ultimately show ?thesis by simp
qed

lemma result_present [simp]: "sorted_json (result_to_dict x) \<noteq> JNull"
  by (simp add: result_to_dict_def)

lemma sequence_back: "sequence_of (sorted_json (text_list ls)) = Inr (map JStr ls)"
  by (simp add: sequence_of_def text_list_def comp_def)

lemmas event_reading = event_from_def required_sorted text_sorted given_sorted given_text_def optional_result_def required_result_def
  provisional_usage_def job_lease_items_def result_items_def mapping_sorted budget_back worker_back grant_back job_back lease_back
  job_result_back branches_back sequence_back comp_def

lemma sched_event_back:
  assumes "valid_event_of ev"
  shows "event_from cl (event_type_of ev) (sorted_dict (event_payload_of ev)) = Inr ev"
  using assms
  by (cases ev) (auto simp: event_reading simp del: sorted_json.simps(7,8) split: option.split)

end
