(* ===== verification/Sched_Records_Claims.thy ===== *)
theory Sched_Records_Claims
  imports Sched_Records_Props
begin

text \<open>The event log of the scheduler, with the scheduler's own codec: what is appended is what is read.\<close>

text \<open>A record whose values their constructors have checked and whose numbers have a canonical spelling.\<close>

definition valid_record :: "rat log_record \<Rightarrow> bool" where
  "valid_record e \<longleftrightarrow> valid_event_of (lr_event e) \<and> is_double (lr_time e) \<and> safe_json (JObj (record_body e))"

lemma body_plain: "valid_record e \<Longrightarrow> plain_json (JObj (record_body e))"
  using sched_event_plain [of "lr_event e"] by (simp add: valid_record_def record_body_def)

lemma body_without_checksum: "filter (\<lambda>x. fst x \<noteq> ''checksum'') (sorted_dict (record_body e @ [(''checksum'', JStr h)])) = sorted_dict (record_body e)"
  unfolding sorted_dict_def by (simp add: filter_sort filter_map comp_def) (simp add: record_body_def)

lemma sched_codec_faithful:
  assumes cl: "codec_lib_ok cl" and v: "valid_record e"
  shows "record_faithful (sched_codec cl) e"
proof -
  let ?b = "record_body e"
  obtain h where h: "stable_digest cl (JObj ?b) = Inr h" using v digest_safe [of cl "JObj ?b"] by (auto simp: valid_record_def)
  let ?full = "?b @ [(''checksum'', JStr h)]"
  have line: "record_line cl e = cl_line cl (JObj ?full)" using h by (simp add: record_line_def)
  have plain: "plain_json (JObj ?full)" using body_plain [OF v] by (simp add: record_body_def)
  note law = cl [unfolded codec_lib_ok_def, rule_format, OF plain]
  have dist: "distinct (map fst ?b)" "distinct (map fst ?full)" by (simp_all add: record_body_def)
  have "map_of (sorted_dict ?full) ''checksum'' = Some (JStr h)"
    unfolding map_of_sorted_dict [OF dist(2)] by (simp add: record_body_def)
  then have parse: "parse_record cl (record_line cl e) = Parsed (sorted_dict ?b) h"
    using law unfolding line by (simp add: parse_record_def sorted_json_obj body_without_checksum del: sorted_json.simps)
  have digest: "stable_digest cl (JObj (sorted_dict ?b)) = Inr h"
    using h digest_sorted [of cl "JObj ?b"] by (simp add: sorted_json_obj del: sorted_json.simps)
  have seq: "map_of (sorted_dict ?b) ''sequence'' = Some (JInt (int (lr_sequence e)))"
    unfolding map_of_sorted_dict [OF dist(1)] by (simp add: record_body_def)
  have "event_from cl (event_type_of (lr_event e)) (sorted_dict (event_payload_of (lr_event e))) = Inr (lr_event e)"
    using sched_event_back v by (simp add: valid_record_def)
  then have again: "record_from cl (lr_sequence e) (sorted_dict ?b) = Inr e"
    by (simp add: record_from_def required_sorted [OF dist(1)] text_sorted [OF dist(1)])
      (simp add: record_body_def mapping_sorted del: sorted_json.simps(7,8))
  show ?thesis
    using law h parse digest seq again unfolding record_faithful_def sched_codec_def
    by (simp add: line parse_record_def json_is_int_def del: sorted_json.simps)
qed

lemma sched_codec_all_faithful: "codec_lib_ok cl \<Longrightarrow> list_all valid_record es \<Longrightarrow> codec_faithful (sched_codec cl) es"
  by (simp add: codec_faithful_def list_all_iff sched_codec_faithful)

text \<open>A file that is cut off anywhere.\<close>

lemma read_any_prefix:
  assumes "codec_faithful c es" and "map lr_sequence es = [1..<Suc (length es)]"
  shows "\<exists>m \<le> length es. read_log c (Some (take k (log_text c es))) = (Inr (take m es), Some (log_text c (take m es)))"
  using assms
proof (induction es rule: rev_induct)
  case (snoc e es)
  have s: "map lr_sequence es = [1..<Suc (length es)]" "map lr_sequence (es @ [e]) = [1..<Suc (Suc (length es))]"
    using snoc.prems(2) by simp_all
  show ?case
  proof (cases "k \<le> length (log_text c es)")
    case True
    from snoc.IH s(1) snoc.prems(1) obtain m where "m \<le> length es"
      "read_log c (Some (take k (log_text c es))) = (Inr (take m es), Some (log_text c (take m es)))" by auto
    with True show ?thesis by (intro exI [of _ m]) simp
  next
    case False
    then have t: "take k (log_text c (es @ [e])) = log_text c es @ take (k - length (log_text c es)) (log_line c e)" by simp
    show ?thesis
      unfolding t read_after_cut [OF snoc.prems(1) s(2)]
      by (cases "k - length (log_text c es) < length (lc_encode c e)")
        (auto simp: surviving_def intro: exI [of _ "length es"] exI [of _ "Suc (length es)"])
  qed
qed (auto simp: read_log_def)

text \<open>Appending records one after the other.\<close>

fun append_all :: "'f log_codec \<Rightarrow> 'f log_record list \<Rightarrow> string option \<Rightarrow> unit res \<times> string option" where
  "append_all c [] fl = (Inr (), fl)"
| "append_all c (e # es) fl = (case append_log c None e fl of (Inl x, f) \<Rightarrow> (Inl x, f) | (Inr _, f) \<Rightarrow> append_all c es f)"

lemma append_all_text:
  assumes "codec_faithful c (ds @ es)" and "map lr_sequence (ds @ es) = [1..<Suc (length (ds @ es))]"
    and "fl = Some (log_text c ds) \<or> fl = None \<and> ds = []"
  shows "snd (append_all c es fl) = (if es = [] then fl else Some (log_text c (ds @ es))) \<and> fst (append_all c es fl) = Inr ()"
  using assms
proof (induction es arbitrary: ds fl)
  case (Cons e es)
  have s: "map lr_sequence ds = [1..<Suc (length ds)]" "lr_sequence e = Suc (length ds)"
  proof -
    have "[1..<Suc (length (ds @ e # es))] = [1..<Suc (length ds)] @ Suc (length ds) # [Suc (Suc (length ds))..<Suc (length (ds @ e # es))]"
      using upt_add_eq_append [of 1 "Suc (length ds)" "Suc (length es)"] by (simp add: upt_conv_Cons del: upt_Suc)
    with Cons.prems(2) show "map lr_sequence ds = [1..<Suc (length ds)]" "lr_sequence e = Suc (length ds)"
      by (simp_all add: append_eq_append_conv del: upt_Suc)
  qed
  have r: "fst (read_log c fl) = Inr ds \<and> (case snd (read_log c fl) of Some raw \<Rightarrow> raw | None \<Rightarrow> []) = log_text c ds"
    using Cons.prems(1,3) read_text [of c ds] s(1) by (auto simp: read_log_def)
  obtain h where "lc_digest c (lc_body c e) = Inr h" using Cons.prems(1) by (auto simp: record_faithful_def)
  then have a: "append_log c None e fl = (Inr (), Some (log_text c (ds @ [e])))"
    using r s(2) last_sequence_numbered [OF s(1)] by (cases "read_log c fl") (simp add: append_log_def)
  from Cons.IH [of "ds @ [e]" "Some (log_text c (ds @ [e]))"] Cons.prems(1,2) a show ?case by simp
qed simp

text \<open>
  C15. The event log of the scheduler is what the scheduler wrote. Records that are appended in order to a new file, with
  the scheduler's own JSON form, digest and reader, are read back exactly; and whenever the file is cut
  off, after any number of bytes, the reader finds the first records of it, whole and in order, and leaves a clean file.
\<close>

theorem scheduler_log_recovers:
  assumes "codec_lib_ok cl" and "list_all valid_record es" and "map lr_sequence es = [1..<Suc (length es)]" and "es \<noteq> []"
    and "append_all (sched_codec cl) es None = (r, Some raw)"
  shows "r = Inr () \<and> read_log (sched_codec cl) (Some raw) = (Inr es, Some raw) \<and>
    (\<exists>m \<le> length es. read_log (sched_codec cl) (Some (take k raw)) =
      (Inr (take m es), Some (log_text (sched_codec cl) (take m es))))"
proof -
  note f = sched_codec_all_faithful [OF assms(1,2)]
  have "r = Inr ()" "raw = log_text (sched_codec cl) es"
    using append_all_text [of "sched_codec cl" "[]" es None] f assms(3-5) by simp_all
  with read_text [OF f assms(3)] read_any_prefix [OF f assms(3)] show ?thesis by blast
qed

subsection \<open>An example\<close>

definition demo_lib :: codec_lib where
  "demo_lib = \<lparr>cl_sha256 = (\<lambda>x. x), cl_quote = (\<lambda>x. x), cl_digits = (\<lambda>x. ([1], 0)),
     cl_line = (\<lambda>j. replicate (to_nat (sorted_json j)) CHR ''j'' @ ''}''),
     cl_loads = (\<lambda>x. if x \<noteq> [] \<and> last x = CHR ''}'' then Some (from_nat (length x - 1)) else None),
     cl_str = (\<lambda>j. ''?''), cl_float = (\<lambda>n. Some (of_int n)), cl_float_text = (\<lambda>x. None), cl_int_text = (\<lambda>x. None)\<rparr>"

lemma demo_lib_ok: "codec_lib_ok demo_lib"
proof -
  have "take k (replicate n CHR ''j'' @ ''}'') = replicate k CHR ''j''" if "k < Suc n" for k n
    using that by (simp add: min_def)
  then show ?thesis by (auto simp: codec_lib_ok_def demo_lib_def newline_def simp del: sorted_json.simps)
qed

definition demo_log :: "rat log_record list" where
  "demo_log = [\<lparr>lr_sequence = 1, lr_id = ''a'', lr_time = 0, lr_event = CampaignConfigured ''c'' no_budget [(''b'', one_job)]\<rparr>,
     \<lparr>lr_sequence = 2, lr_id = ''b'', lr_time = 0, lr_event = JobFinished ''j'' ''l'' \<lparr>jx_outcome = CandidateSuccess, jx_consumed = one_job,
       jx_output = ''o'', jx_detail = [], jx_cleanup = True, jx_metadata = [(''score'', JInt 7)], jx_retryable = True\<rparr>\<rparr>]"

lemma is_double_0: "is_double 0"
  unfolding is_double_def by (intro exI [of _ 0]) simp

lemma demo_log_valid: "list_all valid_record demo_log"
  by (simp add: demo_log_def valid_record_def valid_budget_def valid_job_result_def canonical_dict_def sorted_dict_def no_budget_def
      one_job_def is_double_0 record_body_def budget_payload_def result_to_dict_def job_lease_items_def result_items_def outcome_text_def
      max_safe_integer_def)

theorem scheduler_log_recovers_witness:
  "\<exists>raw. append_all (sched_codec demo_lib) demo_log None = (Inr (), Some raw) \<and>
    read_log (sched_codec demo_lib) (Some raw) = (Inr demo_log, Some raw)"
proof -
  have n: "demo_log \<noteq> []" and s: "map lr_sequence demo_log = [1..<Suc (length demo_log)]"
    by (simp_all add: demo_log_def)
  have "codec_faithful (sched_codec demo_lib) ([] @ demo_log)" using sched_codec_all_faithful [OF demo_lib_ok demo_log_valid] by simp
  from append_all_text [OF this, of None] s n
  have "snd (append_all (sched_codec demo_lib) demo_log None) = Some (log_text (sched_codec demo_lib) demo_log)" by simp
  then obtain r raw where a: "append_all (sched_codec demo_lib) demo_log None = (r, Some raw)"
    by (metis prod.collapse)
  from scheduler_log_recovers [OF demo_lib_ok demo_log_valid s n a, of 0] a show ?thesis by simp
qed

end
