(* ===== verification/Sched_Execute.thy ===== *)
theory Sched_Execute
  imports Sched_Dispatch "HOL-Library.Multiset"
begin

text \<open>
  The execution of a dispatch wave, \<^verbatim>\<open>execute_assignment_groups\<close> of
  \<^verbatim>\<open>campaign_scheduler_dispatch.py\<close>: the assignments are grouped by worker and, where the worker
  takes batches and the lifecycle allows it, by reuse key; each group runs in a thread of its own
  and its results are handed on when the group is done, in whatever order that happens. What a
  worker raises is turned into a charged failure where it is an \<open>Exception\<close>; a \<open>BaseException\<close>
  (\<open>SystemExit\<close>, \<open>KeyboardInterrupt\<close>, \<open>CancelledError\<close>) ends its group and is raised out of the wave
  when its turn comes.

  A worker is a \<open>worker_handle\<close>, a parameter: what its \<open>execute\<close> returns or raises, and what its
  \<open>execute_many\<close>, if it has one, yields before it ends or raises. \<open>None\<close> stands for a value that is
  not a \<open>CampaignJobResult\<close>. The readings of \<open>time.perf_counter\<close> in a group are a stream \<open>pc\<close>. The
  heartbeat thread of a group changes the scheduler only through \<open>heartbeat\<close> (\<open>renewable\<close> is what it
  asks for), the results only through \<open>complete\<close>.
\<close>

subsection \<open>Workers\<close>

datatype base_exc = BaseException string string  \<comment> \<open>class name and message\<close>

datatype thrown = Caught exc | Escaping base_exc

record 'f worker_handle =
  xw_one :: "'f assignment \<Rightarrow> thrown + 'f job_result option"
  xw_many :: "('f assignment list \<Rightarrow> 'f job_result option list \<times> thrown option) option"

definition supports_batch :: "'f worker_handle \<Rightarrow> bool" where
  "supports_batch w \<longleftrightarrow> xw_many w \<noteq> None"

subsection \<open>Failures of the dispatch itself\<close>

text \<open>
  What is charged when the worker raised: at least the reservation, at least what the worker had
  reported, at least the elapsed time, and at least one job. It is never retried.
\<close>

definition dispatcher_failure :: "exc \<Rightarrow> 'f assignment \<Rightarrow> 'f \<Rightarrow> 'f job_result option \<Rightarrow> ('f::{linorder,zero}) job_result" where
  "dispatcher_failure e a elapsed known_result =
     (let r = jr_reservation (as_job a);
          known = (case known_result of Some x \<Rightarrow> jx_consumed x | None \<Rightarrow> no_budget) in
      \<lparr>jx_outcome = InfrastructureFailure,
       jx_consumed = \<lparr>sb_tokens = max (sb_tokens r) (sb_tokens known),
         sb_wall = max (max (sb_wall r) elapsed) (sb_wall known),
         sb_compute = max (sb_compute r) (sb_compute known),
         sb_jobs = max (max 1 (sb_jobs r)) (sb_jobs known),
         sb_shared = max (sb_shared r) (sb_shared known)\<rparr>,
       jx_output = [], jx_detail = exc_name e @ '': '' @ exc_str e, jx_cleanup = False,
       jx_metadata = [(''usage_estimated'', JBool True), (''ambiguous_dispatch'', JBool True)], jx_retryable = False\<rparr>)"

definition nth_option :: "'a list \<Rightarrow> nat \<Rightarrow> 'a option" where
  "nth_option xs i = (if i < length xs then Some (xs ! i) else None)"

definition dispatcher_failures :: "exc \<Rightarrow> 'f assignment list \<Rightarrow> 'f \<Rightarrow> 'f job_result list \<Rightarrow> ('f::{linorder,zero}) job_result list" where
  "dispatcher_failures e assignments elapsed known =
     map (\<lambda>(i, a). dispatcher_failure e a elapsed (nth_option known i)) (enumerate 0 assignments)"

subsection \<open>One group\<close>

text \<open>The results that a batch yields up to the first that is not a result.\<close>

fun collect_batch :: "'f job_result option list \<Rightarrow> 'f job_result list \<times> exc option" where
  "collect_batch [] = ([], None)"
| "collect_batch (None # xs) = ([], Some (TypeError ''campaign batch worker returned an invalid result''))"
| "collect_batch (Some x # xs) = (case collect_batch xs of (ys, e) \<Rightarrow> (x # ys, e))"

definition run_batch :: "('f assignment list \<Rightarrow> 'f job_result option list \<times> thrown option) \<Rightarrow> 'f assignment list \<Rightarrow>
    'f job_result list \<times> thrown option" where
  "run_batch f grouped = (case f grouped of (xs, raised) \<Rightarrow> (case collect_batch xs of
       (ys, Some e) \<Rightarrow> (ys, Some (Caught e))
     | (ys, None) \<Rightarrow> (ys, (case raised of
           Some e \<Rightarrow> Some e
         | None \<Rightarrow> if length ys \<noteq> length grouped
             then Some (Caught (RuntimeError ''campaign batch worker returned the wrong number of results'')) else None))))"

text \<open>The assignments one at a time; \<open>i\<close> counts the readings of the performance counter.\<close>

fun execute_items :: "'f worker_handle \<Rightarrow> (nat \<Rightarrow> 'f) \<Rightarrow> nat \<Rightarrow> 'f assignment list \<Rightarrow>
    base_exc + ('f::{linorder,minus,zero}) job_result list" where
  "execute_items w pc i [] = Inr []"
| "execute_items w pc i (a # as) = (case xw_one w a of
       Inr (Some x) \<Rightarrow> map_sum id (Cons x) (execute_items w pc (i + 1) as)
     | Inr None \<Rightarrow> map_sum id (Cons (dispatcher_failure (TypeError ''campaign worker returned an invalid result'') a (pc (i + 1) - pc i) None))
         (execute_items w pc (i + 2) as)
     | Inl (Caught e) \<Rightarrow> map_sum id (Cons (dispatcher_failure e a (pc (i + 1) - pc i) None)) (execute_items w pc (i + 2) as)
     | Inl (Escaping b) \<Rightarrow> Inl b)"

definition execute_group :: "'f worker_handle \<Rightarrow> (nat \<Rightarrow> 'f) \<Rightarrow> 'f assignment list \<Rightarrow>
    base_exc + ('f::{linorder,minus,zero}) job_result list" where
  "execute_group w pc grouped =
     (case (if length grouped > 1 then xw_many w else None) of
        Some f \<Rightarrow> (case run_batch f grouped of
            (ys, None) \<Rightarrow> Inr ys
          | (ys, Some (Caught e)) \<Rightarrow> Inr (dispatcher_failures e grouped (pc 1 - pc 0) ys)
          | (ys, Some (Escaping b)) \<Rightarrow> Inl b)
      | None \<Rightarrow> execute_items w pc 1 grouped)"

subsection \<open>Groups\<close>

definition group_key :: "'f worker_handle \<Rightarrow> 'f assignment \<Rightarrow> string \<times> string" where
  "group_key w a = (le_worker (as_lease a),
     if supports_batch w \<and> le_lifecycle (as_lease a) = ReuseMatchedTrials then le_reuse (as_lease a) else le_id (as_lease a))"

type_synonym 'f groups = "((string \<times> string) \<times> ('f worker_handle \<times> 'f assignment list)) list"

definition add_to_group :: "'f worker_handle \<times> 'f assignment \<Rightarrow> 'f groups \<Rightarrow> 'f groups" where
  "add_to_group p gs = (case p of (w, a) \<Rightarrow> (case map_of gs (group_key w a) of
       None \<Rightarrow> AList.update (group_key w a) (w, [a]) gs
     | Some (v, as) \<Rightarrow> AList.update (group_key w a) (v, as @ [a]) gs))"

definition group_work :: "('f worker_handle \<times> 'f assignment) list \<Rightarrow> 'f groups" where
  "group_work ps = fold add_to_group ps []"

definition group_results :: "((string \<times> string) \<Rightarrow> nat \<Rightarrow> 'f) \<Rightarrow> (string \<times> string) \<times> ('f worker_handle \<times> 'f assignment list) \<Rightarrow>
    base_exc + ('f assignment \<times> ('f::{linorder,minus,zero}) job_result) list" where
  "group_results pc g = (case g of (k, w, as) \<Rightarrow> map_sum id (zip as) (execute_group w (pc k) as))"

text \<open>
  The results that a wave yields, the groups in the order in which they finish, and what it raises
  in the end: the exception of the first group that ended with one. Groups that finish later are
  not waited for, and give no results.
\<close>

fun execute_assignment_groups :: "((string \<times> string) \<Rightarrow> nat \<Rightarrow> 'f) \<Rightarrow> 'f groups \<Rightarrow>
    ('f assignment \<times> ('f::{linorder,minus,zero}) job_result) list \<times> base_exc option" where
  "execute_assignment_groups pc [] = ([], None)"
| "execute_assignment_groups pc (g # gs) = (case group_results pc g of
       Inl b \<Rightarrow> ([], Some b)
     | Inr rs \<Rightarrow> (case execute_assignment_groups pc gs of (xs, e) \<Rightarrow> (rs @ xs, e)))"

subsection \<open>Renewal and delivery\<close>

text \<open>The leases that a group's heartbeat still renews; with none left it stops.\<close>

definition renewable :: "'f sched \<Rightarrow> 'f assignment list \<Rightarrow> string list" where
  "renewable s as = filter (\<lambda>lid. case map_of (sc_leases s) lid of
       None \<Rightarrow> False
     | Some j \<Rightarrow> (case map_of (sc_jobs s) j of None \<Rightarrow> False | Some st \<Rightarrow> js_status st = Leased))
     (map (le_id \<circ> as_lease) as)"

text \<open>
  \<open>_execute_dispatch_wave\<close>: every result is completed under its lease as the wave yields it. The
  result is the \<open>BaseException\<close> that the wave raises after that, if any.
\<close>

definition execute_dispatch_wave :: "'f sched_env \<Rightarrow> ('f assignment \<times> 'f job_result) list \<times> base_exc option \<Rightarrow>
    (('f::{linorder,plus,minus,zero}) node, base_exc option) op" where
  "execute_dispatch_wave env wave =
     bind (each (\<lambda>(a, x). bind (complete_lease env (le_id (as_lease a)) x) (\<lambda>_. ret ())) (fst wave)) (\<lambda>_. ret (snd wave))"

subsection \<open>Lemmas\<close>

lemma map_sum_eq_Inr: "map_sum id f s = Inr y \<longleftrightarrow> (\<exists>x. s = Inr x \<and> y = f x)"
  by (cases s) auto

lemma map_sum_eq_Inl: "map_sum id f s = Inl e \<longleftrightarrow> s = Inl e"
  by (cases s) auto

lemma length_failures [simp]: "length (dispatcher_failures e as t known) = length as"
  by (simp add: dispatcher_failures_def)

lemma length_items: "execute_items w pc i as = Inr xs \<Longrightarrow> length xs = length as"
proof (induction as arbitrary: i xs)
  case (Cons a as)
  then show ?case by (cases "xw_one w a") (auto simp: map_sum_eq_Inr split: option.splits thrown.splits)
qed simp

lemma length_group: "execute_group w pc as = Inr xs \<Longrightarrow> length xs = length as"
  by (auto simp: execute_group_def run_batch_def length_items split: option.splits prod.splits if_splits thrown.splits)

lemma map_fst_results: "group_results pc g = Inr rs \<Longrightarrow> map fst rs = snd (snd g)"
  by (auto simp: group_results_def map_sum_eq_Inr length_group split: prod.splits)

text \<open>The assignments in a grouping, as a multiset.\<close>

definition grouped_mset :: "'f groups \<Rightarrow> 'f assignment multiset" where
  "grouped_mset gs = (\<Sum>g\<in>#mset gs. mset (snd (snd g)))"

lemma grouped_update_new: "map_of gs k = None \<Longrightarrow> grouped_mset (AList.update k (w, as) gs) = grouped_mset gs + mset as"
  by (induction gs) (auto simp: grouped_mset_def split: if_splits)

lemma grouped_update_old:
  "map_of gs k = Some (v, bs) \<Longrightarrow> grouped_mset (AList.update k (w, bs @ as) gs) = grouped_mset gs + mset as"
  by (induction gs) (auto simp: grouped_mset_def split: if_splits)

lemma grouped_add: "grouped_mset (add_to_group (w, a) gs) = grouped_mset gs + {#a#}"
  by (auto simp: add_to_group_def grouped_update_new grouped_update_old split: option.split)

lemma grouped_work: "grouped_mset (group_work ps) = mset (map snd ps)"
proof -
  have "grouped_mset (fold add_to_group ps gs) = grouped_mset gs + mset (map snd ps)" for gs
    by (induction ps arbitrary: gs) (auto simp: grouped_add)
  from this [of "[]"] show ?thesis by (simp add: group_work_def grouped_mset_def)
qed

lemma grouped_mset_simps [simp]:
  "grouped_mset [] = {#}" "grouped_mset (g # gs) = mset (snd (snd g)) + grouped_mset gs"
  by (simp_all add: grouped_mset_def)

text \<open>A wave yields the results of the groups before the one that raised, if any did.\<close>

lemma wave_cases:
  "execute_assignment_groups pc gs = (rs, e) \<Longrightarrow>
     (case e of None \<Rightarrow> mset (map fst rs) = grouped_mset gs
      | Some b \<Rightarrow> \<exists>before g later. gs = before @ g # later \<and> group_results pc g = Inl b \<and> mset (map fst rs) = grouped_mset before)"
proof (induction gs arbitrary: rs)
  case (Cons g gs)
  show ?case
  proof (cases "group_results pc g")
    case (Inl b)
    with Cons.prems have r: "rs = []" "e = Some b" by simp_all
    have "\<exists>before g' later. g # gs = before @ g' # later \<and> group_results pc g' = Inl b \<and> mset (map fst rs) = grouped_mset before"
      by (intro exI [of _ "[]"] exI [of _ g] exI [of _ gs]) (simp add: Inl r(1))
    then show ?thesis by (simp only: r option.case)
  next
    case (Inr xs)
    then obtain ys where ys: "execute_assignment_groups pc gs = (ys, e)" "rs = xs @ ys"
      using Cons.prems by (auto split: prod.splits)
    have fst: "map fst xs = snd (snd g)" by (rule map_fst_results [OF Inr])
    from Cons.IH [OF ys(1)] show ?thesis
    proof (cases e)
      case (Some b)
      with Cons.IH [OF ys(1)] obtain before g' later where
        b: "gs = before @ g' # later" "group_results pc g' = Inl b" "mset (map fst ys) = grouped_mset before" by auto
      have "\<exists>before g' later. g # gs = before @ g' # later \<and> group_results pc g' = Inl b \<and> mset (map fst rs) = grouped_mset before"
        by (intro exI [of _ "g # before"] exI [of _ g'] exI [of _ later]) (use b ys(2) fst in simp)
      with Some show ?thesis by (simp only: option.case)
    qed (simp add: ys(2) fst)
  qed
qed simp

lemma wave_member:
  assumes "(a, x) \<in> set (fst (execute_assignment_groups pc gs))"
  shows "\<exists>g rs. g \<in> set gs \<and> group_results pc g = Inr rs \<and> (a, x) \<in> set rs"
  using assms
proof (induction gs)
  case (Cons g gs)
  show ?case
  proof (cases "group_results pc g")
    case (Inr rs)
    with Cons.prems have "(a, x) \<in> set rs \<or> (a, x) \<in> set (fst (execute_assignment_groups pc gs))"
      by (auto split: prod.splits)
    with Cons.IH Inr show ?thesis by (metis list.set_intros)
  qed (use Cons.prems in simp)
qed simp

text \<open>A charge that covers a reservation on every dimension.\<close>

definition covers :: "('f::linorder) sched_budget \<Rightarrow> 'f sched_budget \<Rightarrow> bool" where
  "covers x r \<longleftrightarrow> sb_tokens r \<le> sb_tokens x \<and> sb_wall r \<le> sb_wall x \<and> sb_compute r \<le> sb_compute x \<and>
     sb_jobs r \<le> sb_jobs x \<and> sb_shared r \<le> sb_shared x \<and> 1 \<le> sb_jobs x"

definition conservative :: "'f assignment \<Rightarrow> ('f::linorder) job_result \<Rightarrow> bool" where
  "conservative a x \<longleftrightarrow> jx_outcome x = InfrastructureFailure \<and> \<not> jx_retryable x \<and> covers (jx_consumed x) (jr_reservation (as_job a))"

lemma failure_conservative: "conservative a (dispatcher_failure e a t known)"
  by (simp add: conservative_def dispatcher_failure_def covers_def Let_def le_max_iff_disj)

text \<open>A result that a worker really gave, alone or in a batch.\<close>

definition reported :: "'f worker_handle \<Rightarrow> 'f assignment list \<Rightarrow> 'f assignment \<Rightarrow> 'f job_result \<Rightarrow> bool" where
  "reported w as a x \<longleftrightarrow> xw_one w a = Inr (Some x) \<or>
     (\<exists>f i. xw_many w = Some f \<and> i < length as \<and> as ! i = a \<and> i < length (fst (f as)) \<and> fst (f as) ! i = Some x)"

text \<open>The worker raised something that is no \<open>Exception\<close>, on one of the assignments or on all together.\<close>

definition raises_base :: "'f worker_handle \<Rightarrow> 'f assignment list \<Rightarrow> base_exc \<Rightarrow> bool" where
  "raises_base w as b \<longleftrightarrow> (\<exists>a \<in> set as. xw_one w a = Inl (Escaping b)) \<or>
     (\<exists>f. xw_many w = Some f \<and> snd (f as) = Some (Escaping b))"

lemma items_raise: "execute_items w pc i as = Inl b \<Longrightarrow> \<exists>a \<in> set as. xw_one w a = Inl (Escaping b)"
  by (induction as arbitrary: i) (auto simp: map_sum_eq_Inl split: sum.splits option.splits thrown.splits)

lemma group_raises: "execute_group w pc as = Inl b \<Longrightarrow> raises_base w as b"
  by (auto simp: execute_group_def run_batch_def raises_base_def dest!: items_raise
      split: option.splits prod.splits if_splits thrown.splits)

lemma items_reported:
  "execute_items w pc i as = Inr xs \<Longrightarrow> (a, x) \<in> set (zip as xs) \<Longrightarrow> xw_one w a = Inr (Some x) \<or> conservative a x"
proof (induction as arbitrary: i xs)
  case (Cons a' as)
  then show ?case
    by (cases "xw_one w a'") (auto simp: map_sum_eq_Inr failure_conservative split: option.splits thrown.splits)
qed simp

lemma failures_conservative:
  "(a, x) \<in> set (zip as (dispatcher_failures e as t known)) \<Longrightarrow> conservative a x"
  by (auto simp: dispatcher_failures_def set_zip nth_enumerate_eq failure_conservative)

lemma collect_prefix:
  "i < length (fst (collect_batch xs)) \<Longrightarrow> i < length xs \<and> xs ! i = Some (fst (collect_batch xs) ! i)"
proof (induction xs arbitrary: i rule: collect_batch.induct)
  case (3 x xs)
  then show ?case by (cases i) (auto split: prod.splits)
qed simp_all

lemma group_reported:
  assumes g: "execute_group w pc as = Inr xs" and "(a, x) \<in> set (zip as xs)"
  shows "reported w as a x \<or> conservative a x"
proof (cases "length as > 1 \<and> xw_many w \<noteq> None")
  case False
  then have "execute_group w pc as = execute_items w pc 1 as" by (auto simp: execute_group_def)
  with assms items_reported [of w pc 1 as xs a x] show ?thesis by (auto simp: reported_def)
next
  case True
  then obtain f where f: "xw_many w = Some f" by auto
  obtain ys e where r: "run_batch f as = (ys, e)" by (cases "run_batch f as")
  show ?thesis
  proof (cases e)
    case (Some t)
    with g True f r obtain e' where "xs = dispatcher_failures e' as (pc 1 - pc 0) ys"
      by (auto simp: execute_group_def split: thrown.splits)
    with assms(2) show ?thesis by (blast dest: failures_conservative)
  next
    case None
    with r have ys: "ys = fst (collect_batch (fst (f as)))"
      by (auto simp: run_batch_def split: prod.splits option.splits)
    from assms True f r None have "(a, x) \<in> set (zip as ys)" by (simp add: execute_group_def)
    then obtain i where i: "i < length as" "as ! i = a" "i < length ys" "ys ! i = x" by (auto simp: set_zip)
    with collect_prefix [of i "fst (f as)"] ys f show ?thesis by (auto simp: reported_def)
  qed
qed

lemma wave_result_origin:
  assumes "(a, x) \<in> set (fst (execute_assignment_groups pc finished))"
  shows "\<exists>k w as. (k, w, as) \<in> set finished \<and> a \<in> set as \<and> (reported w as a x \<or> conservative a x)"
proof -
  obtain k w as rs where g: "(k, w, as) \<in> set finished" "group_results pc (k, w, as) = Inr rs" "(a, x) \<in> set rs"
    using wave_member [OF assms] by (metis prod_cases3)
  then obtain xs where "execute_group w (pc k) as = Inr xs" "rs = zip as xs"
    by (auto simp: group_results_def map_sum_eq_Inr)
  with g show ?thesis by (blast dest: group_reported set_zip_leftD)
qed

end
