(* ===== verification/Sched_Execute_Claims.thy ===== *)
theory Sched_Execute_Claims
  imports Sched_Execute
begin

text \<open>The property of the execution of a wave.\<close>

text \<open>
  C33. Every dispatched assignment gets exactly one result, in whatever order the groups finish and
  whatever the workers return and whatever \<open>Exception\<close> they raise; a result that no worker gave is
  never retried and charges at least the whole reservation and one job. Only a \<open>BaseException\<close> of a
  worker ends a wave early: it is then raised, after exactly the results of the groups that had finished
  before; no assignment gets two results.
\<close>

theorem wave_gets_one_result_each:
  assumes "mset finished = mset (group_work ps)" and "execute_assignment_groups pc finished = (rs, e)"
  shows "(case e of
       None \<Rightarrow> mset (map fst rs) = mset (map snd ps)
     | Some b \<Rightarrow> \<exists>before k w as later. finished = before @ (k, w, as) # later \<and> raises_base w as b \<and>
         mset (map fst rs) = grouped_mset before \<and> mset (map fst rs) + mset as \<subseteq># mset (map snd ps)) \<and>
    (\<forall>(a, x) \<in> set rs. \<exists>k w as. (k, w, as) \<in> set finished \<and> a \<in> set as \<and> (reported w as a x \<or> conservative a x))"
proof
  have all: "grouped_mset finished = mset (map snd ps)" using assms(1) by (metis grouped_mset_def grouped_work)
  show "case e of
       None \<Rightarrow> mset (map fst rs) = mset (map snd ps)
     | Some b \<Rightarrow> \<exists>before k w as later. finished = before @ (k, w, as) # later \<and> raises_base w as b \<and>
         mset (map fst rs) = grouped_mset before \<and> mset (map fst rs) + mset as \<subseteq># mset (map snd ps)"
  proof (cases e)
    case None
    with wave_cases [OF assms(2)] all show ?thesis by simp
  next
    case (Some b)
    with wave_cases [OF assms(2)] obtain before g later where g: "finished = before @ g # later"
        "group_results pc g = Inl b" "mset (map fst rs) = grouped_mset before" by auto
    obtain k w as where k: "g = (k, w, as)" by (cases g)
    have "raises_base w as b"
      using g(2) k by (auto simp: group_results_def map_sum_eq_Inl intro: group_raises)
    moreover have "grouped_mset before + mset as \<subseteq># mset (map snd ps)"
      unfolding all [symmetric] g(1) k by (simp add: grouped_mset_def)
    ultimately have "\<exists>before k w as later. finished = before @ (k, w, as) # later \<and> raises_base w as b \<and>
         mset (map fst rs) = grouped_mset before \<and> mset (map fst rs) + mset as \<subseteq># mset (map snd ps)"
      using g k by (intro exI [of _ before] exI [of _ k] exI [of _ w] exI [of _ as] exI [of _ later]) simp
    then show ?thesis by (simp only: Some option.case)
  qed
  show "\<forall>(a, x) \<in> set rs. \<exists>k w as. (k, w, as) \<in> set finished \<and> a \<in> set as \<and> (reported w as a x \<or> conservative a x)"
    using wave_result_origin [of _ _ pc finished] assms(2) by auto
qed

definition ex_assignment :: "string \<Rightarrow> string \<Rightarrow> int assignment" where
  "ex_assignment w l = \<lparr>as_job = \<lparr>jr_id = l, jr_key = l, jr_campaign = ''c'', jr_branch = ''b'', jr_kind = ''trial'',
       jr_lane = \<lparr>ln_id = ''l'', ln_fixture = ''f'', ln_seeds = [], ln_epoch = ''e'', ln_contract = ''k'', ln_environment = ''''\<rparr>,
       jr_resources = no_resources, jr_capabilities = {}, jr_reservation = no_budget\<lparr>sb_tokens := 60\<rparr>, jr_max_attempts = 2,
       jr_cohort = ''h'', jr_prefer_warm = True, jr_grants = [], jr_payload = [], jr_retry_expired = True\<rparr>,
     as_lease = \<lparr>le_id = l, le_job = l, le_worker = w, le_attempt = 1, le_issued = 0, le_expires = 30,
       le_environment = ''d'', le_lifecycle = ReuseMatchedTrials, le_reuse = ''c:b:h''\<rparr>\<rparr>"

definition ex_executor :: "thrown \<Rightarrow> int worker_handle" where
  "ex_executor e = \<lparr>xw_one = (\<lambda>a. Inl e), xw_many = Some (\<lambda>as. ([], Some e))\<rparr>"

abbreviation ex_wave :: "thrown \<Rightarrow> (int worker_handle \<times> int assignment) list" where
  "ex_wave e \<equiv> [(ex_executor (Caught (RuntimeError ''down'')), ex_assignment ''w'' ''1''), (ex_executor e, ex_assignment ''v'' ''2'')]"

lemmas ex_wave_simps = group_work_def add_to_group_def group_key_def supports_batch_def ex_executor_def ex_assignment_def
  group_results_def execute_group_def run_batch_def dispatcher_failures_def

theorem wave_gets_one_result_each_witness:
  "mset (map fst (fst (execute_assignment_groups (\<lambda>k n. int n) (rev (group_work (ex_wave (Caught (RuntimeError ''up'')))))))) =
     {#ex_assignment ''w'' ''1'', ex_assignment ''v'' ''2''#} \<and>
   map fst (fst (execute_assignment_groups (\<lambda>k n. int n) (group_work (ex_wave (Escaping (BaseException ''SystemExit'' ''3''))))))
     = [ex_assignment ''w'' ''1''] \<and>
   snd (execute_assignment_groups (\<lambda>k n. int n) (group_work (ex_wave (Escaping (BaseException ''SystemExit'' ''3'')))))
     = Some (BaseException ''SystemExit'' ''3'')"
proof (intro conjI)
  let ?ps = "ex_wave (Caught (RuntimeError ''up''))"
  obtain rs where rs: "execute_assignment_groups (\<lambda>k n. int n) (rev (group_work ?ps)) = (rs, None)"
    by (simp add: ex_wave_simps)
  have "mset (rev (group_work ?ps)) = mset (group_work ?ps)" by simp
  from wave_gets_one_result_each [OF this rs] rs
  show "mset (map fst (fst (execute_assignment_groups (\<lambda>k n. int n) (rev (group_work ?ps))))) =
     {#ex_assignment ''w'' ''1'', ex_assignment ''v'' ''2''#}" by simp
qed (simp_all add: ex_wave_simps)

end
