(* ===== verification/Role_Dag.thy ===== *)
theory Role_Dag
  imports Transition Effects "HOL-Library.List_Lexorder" "HOL-Library.Char_ord"
begin

text \<open>
  The role graph of an agent pipeline, \<^verbatim>\<open>harness/orchestration/types.py\<close> and
  \<^verbatim>\<open>harness/orchestration/dag.py\<close>: the parallel batches of Kahn's algorithm, the edits of a
  graph, the standard graphs of \<^verbatim>\<open>agents/execution_policy.py\<close> and
  \<^verbatim>\<open>agents/pipeline_adapter.py\<close>, and the edits that the architect proposes
  (\<^verbatim>\<open>agents/architect.py\<close>, \<^verbatim>\<open>agents/orchestrator.py\<close>).

  The dictionary of roles is an association list. \<open>in_degree\<close> has every name as a key, so it
  is a function; \<open>remaining\<close> is a set that the code only filters, sorts and tests, so it is a list
  without duplicates (the message of the cycle error shows the set in an order that Python leaves
  open, here in the order of the list).
\<close>

subsection \<open>Roles and their graph\<close>

record role_spec =
  rs_name :: string
  rs_depends_on :: "string list"
  rs_model :: string
  rs_max_tokens :: int
  rs_temperature :: rat  \<comment> \<open>the exact value of the double\<close>

definition role_spec_of :: "string \<Rightarrow> string list \<Rightarrow> role_spec" where
  "role_spec_of name deps = \<lparr>rs_name = name, rs_depends_on = deps, rs_model = [], rs_max_tokens = 2048,
     rs_temperature = 3602879701896397 / 18014398509481984\<rparr>"  \<comment> \<open>the double nearest to 0.2\<close>

record role_dag =
  dg_roles :: "(string \<times> role_spec) list"
  dg_names :: "string list"

definition new_dag :: "role_spec list \<Rightarrow> role_dag" where
  "new_dag roles = \<lparr>dg_roles = fold (\<lambda>r. AList.update (rs_name r) r) roles [], dg_names = map rs_name roles\<rparr>"

subsection \<open>Execution batches\<close>

type_synonym role_table = "(string \<times> role_spec) list"

definition in_degrees :: "role_table \<Rightarrow> string \<Rightarrow> int" where
  "in_degrees roles = fold (\<lambda>r. fold (\<lambda>_ deg. deg(rs_name r := deg (rs_name r) + 1)) (rs_depends_on r))
     (map snd roles) (\<lambda>_. 0)"

definition release_dependents :: "role_table \<Rightarrow> string list \<Rightarrow> string \<Rightarrow> (string \<Rightarrow> int) \<Rightarrow> string \<Rightarrow> int" where
  "release_dependents roles remaining name deg = fold (\<lambda>r deg.
     if name \<in> set (rs_depends_on r) \<and> rs_name r \<in> set remaining
     then deg(rs_name r := deg (rs_name r) - 1) else deg) (map snd roles) deg"

definition py_repr_set :: "string list \<Rightarrow> string" where
  "py_repr_set xs = ''{'' @ joined '', '' (map py_repr xs) @ ''}''"

function batches_from :: "role_table \<Rightarrow> (string \<Rightarrow> int) \<Rightarrow> string list \<Rightarrow> string list list res" where
  "batches_from roles deg remaining =
     (if remaining = [] then Inr []
      else let batch = sort (filter (\<lambda>n. deg n = 0) remaining) in
        if batch = [] then Inl (ValueError (''Cycle detected among roles: '' @ py_repr_set remaining))
        else let rest = filter (\<lambda>n. n \<notin> set batch) remaining in
          (case batches_from roles (fold (release_dependents roles rest) batch deg) rest of
             Inl e \<Rightarrow> Inl e
           | Inr bs \<Rightarrow> Inr (batch # bs)))"
  by auto
termination
proof (relation "measure (\<lambda>(roles, deg, remaining). length remaining)")
  fix roles :: role_table and deg :: "string \<Rightarrow> int" and remaining batch rest :: "string list"
  assume batch: "batch = sort (filter (\<lambda>n. deg n = 0) remaining)" and "batch \<noteq> []"
    and rest: "rest = filter (\<lambda>n. n \<notin> set batch) remaining"
  then have "hd batch \<in> set batch" by (intro list.set_sel(1))
  then obtain n where "n \<in> set batch" by blast
  with batch have "n \<in> set remaining" and "\<not> n \<notin> set batch" by simp_all
  then have "length rest < length remaining" unfolding rest by (rule length_filter_less)
  then show "((roles, fold (release_dependents roles rest) batch deg, rest), (roles, deg, remaining))
      \<in> measure (\<lambda>(roles, deg, remaining). length remaining)" by simp
qed simp

declare batches_from.simps [simp del]

definition execution_batches :: "role_dag \<Rightarrow> string list list res" where
  "execution_batches d = batches_from (dg_roles d) (in_degrees (dg_roles d)) (remdups (dg_names d))"

subsection \<open>Validation and edits\<close>

text \<open>The tests of the dependencies of one role, the same in \<open>validate\<close> and \<open>add_role\<close>.\<close>

fun check_deps :: "string \<Rightarrow> string list \<Rightarrow> string list \<Rightarrow> unit res" where
  "check_deps name known [] = Inr ()"
| "check_deps name known (dep # deps) =
     (if dep = name then Inl (ValueError (''Role '' @ CHR 0x27 # name @ CHR 0x27 # '' depends on itself''))
      else if dep \<notin> set known
      then Inl (ValueError (''Role '' @ CHR 0x27 # name @ CHR 0x27 # '' depends on unknown role '' @ CHR 0x27 # dep @ [CHR 0x27]))
      else check_deps name known deps)"

fun check_roles :: "string list \<Rightarrow> role_spec list \<Rightarrow> unit res" where
  "check_roles known [] = Inr ()"
| "check_roles known (r # rs) =
     (case check_deps (rs_name r) known (rs_depends_on r) of Inl e \<Rightarrow> Inl e | Inr _ \<Rightarrow> check_roles known rs)"

definition validate_dag :: "role_dag \<Rightarrow> unit res" where
  "validate_dag d = (case check_roles (map fst (dg_roles d)) (map snd (dg_roles d)) of
       Inl e \<Rightarrow> Inl e
     | Inr _ \<Rightarrow> (case execution_batches d of Inl e \<Rightarrow> Inl e | Inr _ \<Rightarrow> Inr ()))"

text \<open>\<open>PipelineConfig.__post_init__\<close>\<close>

definition pipeline_config :: "role_spec list \<Rightarrow> role_spec list res" where
  "pipeline_config roles = (case validate_dag (new_dag roles) of Inl e \<Rightarrow> Inl e | Inr _ \<Rightarrow> Inr roles)"

text \<open>The edits change the graph in place and raise in some branches: both results are returned.\<close>

definition add_role :: "role_spec \<Rightarrow> (role_dag, unit) op" where
  "add_role r d =
     (if rs_name r \<in> set (map fst (dg_roles d))
      then (Inl (ValueError (''Role '' @ CHR 0x27 # rs_name r @ CHR 0x27 # '' already exists in DAG'')), d)
      else case check_deps (rs_name r) (map fst (dg_roles d)) (rs_depends_on r) of
        Inl e \<Rightarrow> (Inl e, d)
      | Inr _ \<Rightarrow>
          (let d' = d\<lparr>dg_roles := AList.update (rs_name r) r (dg_roles d), dg_names := dg_names d @ [rs_name r]\<rparr> in
           case execution_batches d' of
             Inl e \<Rightarrow> (Inl e, d'\<lparr>dg_roles := AList.delete (rs_name r) (dg_roles d'),
                                   dg_names := remove1 (rs_name r) (dg_names d')\<rparr>)
           | Inr _ \<Rightarrow> (Inr (), d')))"

definition remove_role :: "string \<Rightarrow> (role_dag, unit) op" where
  "remove_role name d =
     (if name \<notin> set (map fst (dg_roles d))
      then (Inl (ValueError (''Role '' @ CHR 0x27 # name @ CHR 0x27 # '' not found in DAG'')), d)
      else let dependents = map rs_name (filter (\<lambda>r. name \<in> set (rs_depends_on r)) (map snd (dg_roles d))) in
        if dependents \<noteq> []
        then (Inl (ValueError (''Role '' @ CHR 0x27 # name @ CHR 0x27 # '' is depended on by: '' @ joined '', '' dependents)), d)
        else (Inr (), d\<lparr>dg_roles := AList.delete name (dg_roles d), dg_names := remove1 name (dg_names d)\<rparr>))"

subsection \<open>The standard graphs\<close>

definition feedback_roles :: "string list \<Rightarrow> role_spec list" where
  "feedback_roles deps = [role_spec_of ''analyst'' deps, role_spec_of ''architect'' deps,
     role_spec_of ''coach'' [''analyst'']]"

definition feedback_dag :: role_dag where
  "feedback_dag = new_dag (feedback_roles [])"

definition build_mts_dag :: role_dag where
  "build_mts_dag = new_dag ([role_spec_of ''competitor'' [], role_spec_of ''translator'' [''competitor'']]
     @ feedback_roles [''translator''])"

subsection \<open>Edits proposed by the architect\<close>

text \<open>\<open>text.find(marker)\<close>: what precedes the first occurrence, and what follows it.\<close>

fun split_at_marker :: "string \<Rightarrow> string \<Rightarrow> (string \<times> string) option" where
  "split_at_marker m [] = (if m = [] then Some ([], []) else None)"
| "split_at_marker m (c # cs) =
     (if take (length m) (c # cs) = m then Some ([], drop (length m) (c # cs))
      else map_option (\<lambda>(pre, post). (c # pre, post)) (split_at_marker m cs))"

definition extract_delimited_section :: "string \<Rightarrow> string \<Rightarrow> string \<Rightarrow> string option" where
  "extract_delimited_section text0 start_marker end_marker =
     (case split_at_marker start_marker text0 of
        None \<Rightarrow> None
      | Some (_, post) \<Rightarrow> map_option (\<lambda>(body, _). strip body) (split_at_marker end_marker post))"

datatype dag_change = AddRole string "json list" | RemoveRole string
  | OtherAction json  \<comment> \<open>any other action, which \<open>parse_dag_changes\<close> never gives\<close>

text \<open>A list or an object cannot be hashed: testing it for membership in a set or a dict raises.\<close>

fun unhashable :: "json \<Rightarrow> bool" where
  "unhashable (JList _) = True"
| "unhashable (JObj _) = True"
| "unhashable _ = False"

definition parse_change :: "json \<Rightarrow> dag_change list res" where
  "parse_change item = (case item of
       JObj obj \<Rightarrow>
         (let action = (case map_of obj ''action'' of Some a \<Rightarrow> a | None \<Rightarrow> JNull) in
          if unhashable action then Inl (TypeError ''unhashable type'')
          else case map_of obj ''name'' of
            Some (JStr name) \<Rightarrow>
              Inr (if action = JStr ''add_role''
                   then [AddRole name (case map_of obj ''depends_on'' of Some (JList deps) \<Rightarrow> deps | _ \<Rightarrow> [])]
                   else if action = JStr ''remove_role'' then [RemoveRole name] else [])
          | _ \<Rightarrow> Inr [])
     | _ \<Rightarrow> Inr [])"

fun parse_changes :: "json list \<Rightarrow> dag_change list res" where
  "parse_changes [] = Inr []"
| "parse_changes (item # items) = (case parse_change item of
       Inl e \<Rightarrow> Inl e
     | Inr cs \<Rightarrow> (case parse_changes items of Inl e \<Rightarrow> Inl e | Inr rest \<Rightarrow> Inr (cs @ rest)))"

text \<open>\<open>loads\<close> is \<open>json.loads\<close>, with \<open>None\<close> for a \<open>JSONDecodeError\<close>.\<close>

definition parse_dag_changes :: "(string \<Rightarrow> json option) \<Rightarrow> string \<Rightarrow> dag_change list res" where
  "parse_dag_changes loads content =
     (case extract_delimited_section content ''<!-- DAG_CHANGES_START -->'' ''<!-- DAG_CHANGES_END -->'' of
        None \<Rightarrow> Inr []
      | Some body \<Rightarrow> (case loads body of
          Some (JObj decoded) \<Rightarrow> (case map_of decoded ''changes'' of
              Some (JList changes) \<Rightarrow> parse_changes changes
            | _ \<Rightarrow> Inr [])
        | _ \<Rightarrow> Inr []))"

text \<open>
  The dependencies that the architect lists need not be strings: \<open>add_role\<close> then raises at the first
  one that it cannot hash, or that is not the name of a role.
\<close>

fun plain_deps :: "json list \<Rightarrow> string list option" where
  "plain_deps [] = Some []"
| "plain_deps (j # js) = (case j of JStr x \<Rightarrow> map_option (\<lambda>xs. x # xs) (plain_deps js) | _ \<Rightarrow> None)"

fun untyped_dep_error :: "string \<Rightarrow> string list \<Rightarrow> json list \<Rightarrow> exc" where
  "untyped_dep_error name known [] = TypeError []"  \<comment> \<open>not reached: some entry is not a string\<close>
| "untyped_dep_error name known (j # js) = (case j of
       JStr dep \<Rightarrow> (case check_deps name known [dep] of Inl e \<Rightarrow> e | Inr _ \<Rightarrow> untyped_dep_error name known js)
     | _ \<Rightarrow> (if unhashable j then TypeError ''unhashable type'' else ValueError ''depends on unknown role''))"

definition propose_role :: "string \<Rightarrow> json list \<Rightarrow> (role_dag, unit) op" where
  "propose_role name deps d = (case plain_deps deps of
       Some xs \<Rightarrow> add_role (role_spec_of name xs) d
     | None \<Rightarrow>
         (if name \<in> set (map fst (dg_roles d)) then add_role (role_spec_of name []) d
          else (Inl (untyped_dep_error name (map fst (dg_roles d)) deps), d)))"

fun apply_change :: "dag_change \<Rightarrow> (role_dag, unit) op" where
  "apply_change (AddRole name deps) = propose_role name deps"
| "apply_change (RemoveRole name) = remove_role name"
| "apply_change (OtherAction action) = ret ()"

definition is_value_error :: "exc \<Rightarrow> bool" where
  "is_value_error e = (case e of ValueError _ \<Rightarrow> True | _ \<Rightarrow> False)"

text \<open>
  The result is the pair \<open>(applied, skipped)\<close>: a directive with another action is skipped, and so is one
  that raises a \<open>ValueError\<close>; nothing else is caught.
\<close>

definition known_action :: "dag_change \<Rightarrow> bool" where
  "known_action c \<longleftrightarrow> (case c of OtherAction _ \<Rightarrow> False | _ \<Rightarrow> True)"

fun apply_dag_changes :: "dag_change list \<Rightarrow> (role_dag, int \<times> int) op" where
  "apply_dag_changes [] d = (Inr (0, 0), d)"
| "apply_dag_changes (c # cs) d = (case apply_change c d of
       (Inr _, d') \<Rightarrow> bind (apply_dag_changes cs) (\<lambda>(a, s). ret (if known_action c then (a + 1, s) else (a, s + 1))) d'
     | (Inl e, d') \<Rightarrow> (if is_value_error e then bind (apply_dag_changes cs) (\<lambda>(a, s). ret (a, s + 1)) d'
                      else (Inl e, d')))"

end
