(* ===== verification/Role_Dag_Props.thy ===== *)
theory Role_Dag_Props
  imports Role_Dag
begin

text \<open>
  Kahn's algorithm on the role graph. \<open>keyed\<close> says that the table maps each name to a role of that
  name; the counters of \<open>in_degree\<close> are then the numbers of dependency entries that no
  finished batch has released, and the batches are the layers of the dependency relation.
\<close>

definition keyed :: "role_table \<Rightarrow> bool" where
  "keyed roles \<longleftrightarrow> distinct (map fst roles) \<and> (\<forall>(n, r) \<in> set roles. rs_name r = n)"

definition deps_of :: "role_table \<Rightarrow> string \<Rightarrow> string list" where
  "deps_of roles n = (case map_of roles n of Some r \<Rightarrow> rs_depends_on r | None \<Rightarrow> [])"

definition dep_rel :: "role_table \<Rightarrow> (string \<times> string) set" where
  "dep_rel roles = {(x, n). x \<in> set (deps_of roles n)}"

lemma keyed_Cons [simp]: "keyed ((n, r) # roles) \<longleftrightarrow> rs_name r = n \<and> n \<notin> fst ` set roles \<and> keyed roles"
  by (auto simp: keyed_def)

lemma deps_of_Cons [simp]: "deps_of ((n, r) # roles) m = (if m = n then rs_depends_on r else deps_of roles m)"
  by (simp add: deps_of_def)

lemma deps_of_absent [simp]: "n \<notin> fst ` set roles \<Longrightarrow> deps_of roles n = []"
  by (simp add: deps_of_def map_of_eq_None_iff [THEN iffD2])

subsection \<open>The counters\<close>

lemma count_entries: "fold (\<lambda>_ deg. deg(m := deg m + 1)) xs deg n = (if n = m then deg n + int (length xs) else deg n)"
  by (induction xs arbitrary: deg) simp_all

lemma in_degrees_from:
  assumes "keyed roles"
  shows "fold (\<lambda>r. fold (\<lambda>_ deg. deg(rs_name r := deg (rs_name r) + 1)) (rs_depends_on r)) (map snd roles) deg n
    = deg n + int (length (deps_of roles n))"
  using assms by (induction roles arbitrary: deg) (auto simp: count_entries)

lemma in_degrees: "keyed roles \<Longrightarrow> in_degrees roles n = int (length (deps_of roles n))"
  by (simp add: in_degrees_def in_degrees_from)

lemma release_one:
  assumes "keyed roles"
  shows "release_dependents roles rest x deg n
    = deg n - (if n \<in> set rest \<and> x \<in> set (deps_of roles n) then 1 else 0)"
  using assms unfolding release_dependents_def by (induction roles arbitrary: deg) (auto split: if_splits)

lemma release_batch:
  assumes "keyed roles" and "distinct batch" and "n \<in> set rest"
  shows "fold (release_dependents roles rest) batch deg n = deg n - int (card (set batch \<inter> set (deps_of roles n)))"
  using assms(2)
  by (induction batch arbitrary: deg) (simp_all add: release_one [OF assms(1)] assms(3) Int_insert_left)

text \<open>\<open>counts roles done deg rem\<close>: what the counters of the remaining roles are.\<close>

definition counts :: "role_table \<Rightarrow> string set \<Rightarrow> (string \<Rightarrow> int) \<Rightarrow> string list \<Rightarrow> bool" where
  "counts roles fin deg rem \<longleftrightarrow>
     (\<forall>n \<in> set rem. deg n = int (length (deps_of roles n)) - int (card (fin \<inter> set (deps_of roles n))))"

lemma counts_start: "keyed roles \<Longrightarrow> counts roles {} (in_degrees roles) rem"
  by (simp add: counts_def in_degrees)

lemma counts_release:
  assumes "keyed roles" and "counts roles fin deg rem" and "distinct batch" and "fin \<inter> set batch = {}"
    and "set rest \<subseteq> set rem"
  shows "counts roles (fin \<union> set batch) (fold (release_dependents roles rest) batch deg) rest"
  unfolding counts_def
proof
  fix n assume n: "n \<in> set rest"
  let ?D = "set (deps_of roles n)"
  have "card ((fin \<union> set batch) \<inter> ?D) = card (fin \<inter> ?D) + card (set batch \<inter> ?D)"
    unfolding Int_Un_distrib2 using assms(4) by (intro card_Un_disjoint) auto
  with n assms show "fold (release_dependents roles rest) batch deg n
      = int (length (deps_of roles n)) - int (card ((fin \<union> set batch) \<inter> ?D))"
    by (auto simp: release_batch counts_def)
qed

lemma count_zero_iff: "length xs = card (fin \<inter> set xs) \<longleftrightarrow> distinct xs \<and> set xs \<subseteq> fin"
proof
  assume eq: "length xs = card (fin \<inter> set xs)"
  have "card (fin \<inter> set xs) \<le> card (set xs)" by (intro card_mono) auto
  with eq card_length [of xs] have "card (fin \<inter> set xs) = card (set xs)" and "card (set xs) = length xs" by linarith+
  then show "distinct xs \<and> set xs \<subseteq> fin"
    using card_subset_eq [of "set xs" "fin \<inter> set xs"] by (auto simp: card_distinct)
next
  assume "distinct xs \<and> set xs \<subseteq> fin"
  then show "length xs = card (fin \<inter> set xs)" by (simp add: Int_absorb1 distinct_card)
qed

subsection \<open>Layers\<close>

text \<open>The reference: each batch is the set of roles all of whose dependencies are in earlier batches.\<close>

definition layer :: "role_table \<Rightarrow> string set \<Rightarrow> string list \<Rightarrow> string list" where
  "layer roles fin rem = sort (filter (\<lambda>n. distinct (deps_of roles n) \<and> set (deps_of roles n) \<subseteq> fin) rem)"

fun layered :: "role_table \<Rightarrow> string set \<Rightarrow> string list \<Rightarrow> string list list \<Rightarrow> bool" where
  "layered roles fin rem [] \<longleftrightarrow> rem = []"
| "layered roles fin rem (b # bs) \<longleftrightarrow> b \<noteq> [] \<and> b = layer roles fin rem \<and>
     layered roles (fin \<union> set b) (filter (\<lambda>n. n \<notin> set b) rem) bs"

lemma batch_is_layer:
  "counts roles fin deg rem \<Longrightarrow> sort (filter (\<lambda>n. deg n = 0) rem) = layer roles fin rem"
  unfolding layer_def counts_def
  by (intro arg_cong [of _ _ sort] filter_cong) (auto simp: count_zero_iff [symmetric])

lemma layer_props:
  "distinct rem \<Longrightarrow> distinct (layer roles fin rem)" "set (layer roles fin rem) \<subseteq> set rem" "sorted (layer roles fin rem)"
  by (auto simp: layer_def)

lemma batches_step:
  assumes "counts roles fin deg rem" and "rem \<noteq> []" and "b = layer roles fin rem"
    and "rest = filter (\<lambda>n. n \<notin> set b) rem"
  shows "batches_from roles deg rem =
    (if b = [] then Inl (ValueError (''Cycle detected among roles: '' @ py_repr_set rem))
     else case batches_from roles (fold (release_dependents roles rest) b deg) rest of
       Inl e \<Rightarrow> Inl e | Inr bs \<Rightarrow> Inr (b # bs))"
  using assms(2) unfolding batches_from.simps [of roles deg rem] batch_is_layer [OF assms(1)] assms(3,4)
  by (simp add: Let_def)

lemma rest_step:
  assumes "keyed roles" and "counts roles fin deg rem" and "distinct rem" and "fin \<inter> set rem = {}"
    and "b = layer roles fin rem" and "b \<noteq> []" and "rest = filter (\<lambda>n. n \<notin> set b) rem"
  shows "counts roles (fin \<union> set b) (fold (release_dependents roles rest) b deg) rest"
    and "distinct rest" and "(fin \<union> set b) \<inter> set rest = {}" and "length rest < length rem"
proof -
  have sub: "set b \<subseteq> set rem" and d: "distinct b"
    unfolding assms(5) by (rule layer_props(2), rule layer_props(1) [OF assms(3)])
  show "counts roles (fin \<union> set b) (fold (release_dependents roles rest) b deg) rest"
    using sub assms(4,7) by (intro counts_release [OF assms(1,2) d]) auto
  show "distinct rest" and "(fin \<union> set b) \<inter> set rest = {}" using assms(3,4,7) by auto
  from assms(6) have "hd b \<in> set b" by (rule list.set_sel(1))
  with sub show "length rest < length rem" unfolding assms(7) by (intro length_filter_less [of "hd b"]) auto
qed

lemma batches_layered:
  assumes "keyed roles" and "counts roles fin deg rem" and "distinct rem" and "fin \<inter> set rem = {}"
    and "batches_from roles deg rem = Inr bs"
  shows "layered roles fin rem bs"
  using assms(2-)
proof (induction "length rem" arbitrary: fin deg rem bs rule: less_induct)
  case less
  let ?b = "layer roles fin rem"
  let ?rest = "filter (\<lambda>n. n \<notin> set ?b) rem"
  show ?case
  proof (cases "rem = []")
    case False
    from less.prems(4) batches_step [OF less.prems(1) False refl refl] obtain cs where ne: "?b \<noteq> []"
      and bs: "bs = ?b # cs" and cs: "batches_from roles (fold (release_dependents roles ?rest) ?b deg) ?rest = Inr cs"
      by (auto split: if_splits sum.splits)
    note rs = rest_step [OF assms(1) less.prems(1-3) refl ne refl]
    from less.hyps [OF rs(4,1-3) cs] ne bs show ?thesis by simp
  qed (use less.prems(4) in \<open>simp add: batches_from.simps\<close>)
qed

text \<open>
  The converse: when the entries of the remaining roles are distinct names of roles and the
  dependencies have no cycle, some remaining role has all its dependencies behind it.
\<close>

definition plain_table :: "role_table \<Rightarrow> string set \<Rightarrow> bool" where
  "plain_table roles N \<longleftrightarrow> (\<forall>n \<in> N. distinct (deps_of roles n) \<and> set (deps_of roles n) \<subseteq> N)"

lemma acyclic_layer:
  assumes "acyclic (dep_rel roles)" and "plain_table roles (fin \<union> set rem)" and "rem \<noteq> []"
  shows "layer roles fin rem \<noteq> []"
proof -
  let ?R = "dep_rel roles \<inter> set rem \<times> set rem"
  have "finite ?R" and "acyclic ?R" using assms(1) by (auto intro: acyclic_subset)
  then have "wf ?R" by (rule finite_acyclic_wf)
  moreover have "hd rem \<in> set rem" using assms(3) by simp
  ultimately obtain n where n: "n \<in> set rem" and least: "\<And>x. (x, n) \<in> ?R \<Longrightarrow> x \<notin> set rem"
    using wfE_min by metis
  have "set (deps_of roles n) \<subseteq> fin"
  proof
    fix x assume x: "x \<in> set (deps_of roles n)"
    then have "x \<in> fin \<union> set rem" using n assms(2) by (auto simp: plain_table_def)
    moreover have "x \<notin> set rem" using least [of x] x n by (auto simp: dep_rel_def)
    ultimately show "x \<in> fin" by blast
  qed
  then have "n \<in> set (layer roles fin rem)" using n assms(2) by (auto simp: layer_def plain_table_def)
  then show ?thesis by auto
qed

lemma batches_succeed:
  assumes "keyed roles" and "acyclic (dep_rel roles)" and "plain_table roles N"
    and "counts roles fin deg rem" and "distinct rem" and "fin \<inter> set rem = {}" and "fin \<union> set rem = N"
  shows "\<exists>bs. batches_from roles deg rem = Inr bs"
  using assms(4-)
proof (induction "length rem" arbitrary: fin deg rem rule: less_induct)
  case less
  let ?b = "layer roles fin rem"
  let ?rest = "filter (\<lambda>n. n \<notin> set ?b) rem"
  show ?case
  proof (cases "rem = []")
    case False
    have ne: "?b \<noteq> []" by (rule acyclic_layer [OF assms(2) _ False]) (simp add: less.prems(4) assms(3))
    note rs = rest_step [OF assms(1) less.prems(1-3) refl ne refl]
    have "(fin \<union> set ?b) \<union> set ?rest = N" using less.prems(4) layer_props(2) [of roles fin rem] by auto
    from less.hyps [OF rs(4,1-3) this] ne batches_step [OF less.prems(1) False refl refl]
    show ?thesis by auto
  qed (simp add: batches_from.simps)
qed

subsection \<open>What a layering says\<close>

lemma layered_ConsD:
  assumes "layered roles fin rem (b # bs)"
  shows "b \<noteq> []" "b = layer roles fin rem" "layered roles (fin \<union> set b) (filter (\<lambda>n. n \<notin> set b) rem) bs"
    "set b \<subseteq> set rem"
  using assms layer_props(2) [of roles fin rem] by auto

lemma layered_set: "layered roles fin rem bs \<Longrightarrow> set (concat bs) = set rem"
proof (induction roles fin rem bs rule: layered.induct)
  case (2 roles fin rem b bs)
  note l = layered_ConsD [OF "2.prems"]
  from "2.IH" [OF l(3)] l(4) show ?case by auto
qed simp

lemma layered_distinct: "layered roles fin rem bs \<Longrightarrow> distinct rem \<Longrightarrow> distinct (concat bs)"
proof (induction roles fin rem bs rule: layered.induct)
  case (2 roles fin rem b bs)
  note l = layered_ConsD [OF "2.prems"(1)]
  have "distinct b" unfolding l(2) by (rule layer_props(1) [OF "2.prems"(2)])
  moreover have "distinct (concat bs)" using "2.prems"(2) by (intro "2.IH" [OF l(3)]) simp
  moreover have "set b \<inter> set (concat bs) = {}" unfolding layered_set [OF l(3)] by auto
  ultimately show ?case by simp
qed simp

lemma layered_sorted: "layered roles fin rem bs \<Longrightarrow> b \<in> set bs \<Longrightarrow> sorted b \<and> b \<noteq> []"
  by (induction roles fin rem bs rule: layered.induct) (auto simp: layer_props(3))

lemma layered_deps:
  "layered roles fin rem bs \<Longrightarrow> i < length bs \<Longrightarrow> n \<in> set (bs ! i) \<Longrightarrow>
     distinct (deps_of roles n) \<and> set (deps_of roles n) \<subseteq> fin \<union> set (concat (take i bs))"
proof (induction roles fin rem bs arbitrary: i rule: layered.induct)
  case (2 roles fin rem b bs)
  note l = layered_ConsD [OF "2.prems"(1)]
  show ?case
  proof (cases i)
    case 0
    with "2.prems"(3) have "n \<in> set (layer roles fin rem)" by (simp add: l(2))
    with 0 show ?thesis by (simp add: layer_def)
  next
    case (Suc k)
    with "2.prems" "2.IH" [OF l(3), of k] show ?thesis by (simp add: Un_assoc)
  qed
qed simp

lemma layered_greedy:
  "layered roles fin rem bs \<Longrightarrow> 0 < i \<Longrightarrow> i < length bs \<Longrightarrow> n \<in> set (bs ! i) \<Longrightarrow>
     set (deps_of roles n) \<inter> set (bs ! (i - 1)) \<noteq> {}"
proof (induction roles fin rem bs arbitrary: i rule: layered.induct)
  case (2 roles fin rem b bs)
  note l = layered_ConsD [OF "2.prems"(1)]
  show ?case
  proof (cases "i = 1")
    case True
    with "2.prems" have n: "n \<in> set (bs ! 0)" and ne: "0 < length bs" by simp_all
    from layered_deps [OF l(3) ne n] have d: "distinct (deps_of roles n)" "set (deps_of roles n) \<subseteq> fin \<union> set b" by auto
    have "n \<in> set (concat bs)" using n ne by auto
    then have "n \<in> set rem" "n \<notin> set b" unfolding layered_set [OF l(3)] by auto
    then have "\<not> set (deps_of roles n) \<subseteq> fin" using d(1) l(2) by (auto simp: layer_def)
    with d(2) True show ?thesis by auto
  next
    case False
    with "2.prems"(2) obtain k where k: "i = Suc k" "0 < k" by (cases i) auto
    with "2.prems" have "k < length bs" "n \<in> set (bs ! k)" by simp_all
    from "2.IH" [OF l(3) k(2) this] k show ?thesis by (cases k) simp_all
  qed
qed simp

text \<open>The position of a role's batch decreases along every dependency, so a layering excludes cycles.\<close>

lemma in_concat_nth: "x \<in> set (concat bs) \<longleftrightarrow> (\<exists>i < length bs. x \<in> set (bs ! i))"
  by (metis (no_types, lifting) UN_iff in_set_conv_nth set_concat)

lemma layered_position:
  assumes "layered roles {} rem bs" and "n \<in> set rem" and "x \<in> set (deps_of roles n)"
    and "i < length bs" and "n \<in> set (bs ! i)"
  shows "\<exists>j < i. x \<in> set (bs ! j)"
proof -
  from layered_deps [OF assms(1,4,5)] assms(3) have "x \<in> set (concat (take i bs))" by auto
  then show ?thesis using assms(4) unfolding in_concat_nth by auto
qed

lemma distinct_concat_index:
  assumes "distinct (concat bs)" and "i < length bs" "j < length bs" and "x \<in> set (bs ! i)" "x \<in> set (bs ! j)"
  shows "i = j"
  using assms
proof (induction bs arbitrary: i j)
  case (Cons b bs)
  have "x \<in> set (concat bs)" if "k < length bs" "x \<in> set (bs ! k)" for k using that by auto
  with Cons show ?case by (cases i; cases j) auto
qed simp

lemma layered_acyclic:
  assumes "layered roles {} rem bs" and "distinct rem" and "\<And>n. n \<notin> set rem \<Longrightarrow> deps_of roles n = []"
  shows "acyclic (dep_rel roles)"
proof -
  define pos where "pos n = (LEAST i. i < length bs \<and> n \<in> set (bs ! i))" for n
  have pos: "pos n = i" if "i < length bs" "n \<in> set (bs ! i)" for n i
    unfolding pos_def using that distinct_concat_index [OF layered_distinct [OF assms(1,2)]]
    by (intro Least_equality) auto
  have "dep_rel roles \<subseteq> measure pos"
  proof (clarsimp simp: dep_rel_def)
    fix x n assume x: "x \<in> set (deps_of roles n)"
    with assms(3) have n: "n \<in> set rem" by fastforce
    then obtain i where i: "i < length bs" "n \<in> set (bs ! i)"
      unfolding layered_set [OF assms(1), symmetric] in_concat_nth by blast
    from layered_position [OF assms(1) n x i] obtain j where j: "j < i" "x \<in> set (bs ! j)" by blast
    with i have "pos x = j" by (intro pos) auto
    with pos [OF i] j show "pos x < pos n" by simp
  qed
  then show ?thesis by (rule wf_acyclic [OF wf_subset [OF wf_measure]])
qed

subsection \<open>Graphs\<close>

definition dag_ok :: "role_dag \<Rightarrow> bool" where
  "dag_ok d \<longleftrightarrow> keyed (dg_roles d) \<and> set (dg_names d) = fst ` set (dg_roles d)"

definition sound_graph :: "role_table \<Rightarrow> bool" where
  "sound_graph roles \<longleftrightarrow> plain_table roles (fst ` set roles) \<and> acyclic (dep_rel roles)"

lemma keyed_update:
  assumes "keyed roles"
  shows "keyed (AList.update (rs_name r) r roles)"
proof -
  have "set (AList.update n r roles) \<subseteq> insert (n, r) (set roles)" for n
    by (induction roles) auto
  with assms show ?thesis unfolding keyed_def by (fastforce intro: distinct_update)
qed

lemma dag_ok_new: "dag_ok (new_dag roles)"
proof -
  have "keyed (fold (\<lambda>r. AList.update (rs_name r) r) roles t) \<and>
    fst ` set (fold (\<lambda>r. AList.update (rs_name r) r) roles t) = fst ` set t \<union> rs_name ` set roles" if "keyed t" for t
    using that by (induction roles arbitrary: t) (auto simp: keyed_update dom_update)
  from this [of "[]"] show ?thesis by (simp add: dag_ok_def new_dag_def keyed_def)
qed

text \<open>The batches exist exactly for the graphs without a cycle, an unknown name or a repeated entry.\<close>

lemma execution_batches_layered:
  assumes "dag_ok d" and "execution_batches d = Inr bs"
  shows "layered (dg_roles d) {} (remdups (dg_names d)) bs"
  using assms unfolding dag_ok_def execution_batches_def
  by (intro batches_layered [where deg = "in_degrees (dg_roles d)"]) (auto simp: counts_start)

lemma execution_batches_iff:
  assumes "dag_ok d"
  shows "(\<exists>bs. execution_batches d = Inr bs) \<longleftrightarrow> sound_graph (dg_roles d)"
proof
  let ?roles = "dg_roles d" and ?rem = "remdups (dg_names d)"
  have k: "keyed ?roles" and names: "set ?rem = fst ` set ?roles" using assms by (simp_all add: dag_ok_def)
  assume "\<exists>bs. execution_batches d = Inr bs"
  then obtain bs where "execution_batches d = Inr bs" by blast
  note l = execution_batches_layered [OF assms this]
  have "acyclic (dep_rel ?roles)" using names by (intro layered_acyclic [OF l]) (auto simp: names)
  moreover have "distinct (deps_of ?roles n) \<and> set (deps_of ?roles n) \<subseteq> fst ` set ?roles" if "n \<in> fst ` set ?roles" for n
  proof -
    from that have "n \<in> set (concat bs)" unfolding layered_set [OF l] names .
    then obtain i where i: "i < length bs" "n \<in> set (bs ! i)" unfolding in_concat_nth by blast
    have "set (concat (take i bs)) \<subseteq> set (concat bs)" by (auto dest: in_set_takeD)
    with layered_deps [OF l i] show ?thesis unfolding layered_set [OF l] names by blast
  qed
  ultimately show "sound_graph ?roles" by (simp add: sound_graph_def plain_table_def)
next
  assume "sound_graph (dg_roles d)"
  with assms show "\<exists>bs. execution_batches d = Inr bs"
    unfolding execution_batches_def sound_graph_def dag_ok_def
    by (intro batches_succeed [where N = "fst ` set (dg_roles d)"]) (auto simp: counts_start)
qed

lemma check_deps_iff: "check_deps n known deps = Inr () \<longleftrightarrow> n \<notin> set deps \<and> set deps \<subseteq> set known"
  by (induction n known deps rule: check_deps.induct) auto

lemma check_roles_iff:
  "check_roles known rs = Inr () \<longleftrightarrow> (\<forall>r \<in> set rs. rs_name r \<notin> set (rs_depends_on r) \<and> set (rs_depends_on r) \<subseteq> set known)"
  unfolding check_deps_iff [symmetric] by (induction rs) (auto split: sum.splits)

lemma validate_iff:
  assumes "dag_ok d"
  shows "validate_dag d = Inr () \<longleftrightarrow> sound_graph (dg_roles d)"
proof -
  have "check_roles (map fst (dg_roles d)) (map snd (dg_roles d)) = Inr ()" if g: "sound_graph (dg_roles d)"
    unfolding check_roles_iff
  proof
    fix r assume "r \<in> set (map snd (dg_roles d))"
    then obtain n where n: "(n, r) \<in> set (dg_roles d)" by auto
    then have "rs_name r = n" and "rs_depends_on r = deps_of (dg_roles d) n"
      using assms by (auto simp: dag_ok_def keyed_def deps_of_def)
    moreover have "n \<notin> set (deps_of (dg_roles d) n)"
      using g by (auto simp: sound_graph_def acyclic_def dep_rel_def)
    ultimately show "rs_name r \<notin> set (rs_depends_on r) \<and> set (rs_depends_on r) \<subseteq> set (map fst (dg_roles d))"
      using g n by (force simp: sound_graph_def plain_table_def)
  qed
  then show ?thesis using execution_batches_iff [OF assms]
    by (auto simp: validate_dag_def split: sum.splits)
qed

subsection \<open>Edits\<close>

text \<open>A valid graph whose names are listed once: what every edit keeps.\<close>

definition valid_dag :: "role_dag \<Rightarrow> bool" where
  "valid_dag d \<longleftrightarrow> dag_ok d \<and> distinct (dg_names d) \<and> sound_graph (dg_roles d)"

text \<open>Adding a role at the end of a sound table.\<close>

lemma deps_of_append:
  "n \<notin> fst ` set roles \<Longrightarrow> deps_of (roles @ [(n, r)]) m = (if m = n then rs_depends_on r else deps_of roles m)"
  by (induction roles) auto

lemma sound_graph_append:
  assumes "sound_graph roles" and n: "n \<notin> fst ` set roles"
    and "n \<notin> set (rs_depends_on r)" and "set (rs_depends_on r) \<subseteq> fst ` set roles"
  shows "sound_graph (roles @ [(n, r)]) \<longleftrightarrow> distinct (rs_depends_on r)"
proof -
  let ?R = "dep_rel roles"
  have new: "dep_rel (roles @ [(n, r)]) = ?R \<union> set (rs_depends_on r) \<times> {n}"
    using n by (auto simp: dep_rel_def deps_of_append split: if_splits)
  have closed: "plain_table roles (fst ` set roles)" and "acyclic ?R" using assms(1) by (simp_all add: sound_graph_def)
  have "fst y \<noteq> n" if "y \<in> ?R" for y
  proof -
    obtain x m where y: "y = (x, m)" by (cases y)
    with that have x: "x \<in> set (deps_of roles m)" by (simp add: dep_rel_def)
    then have "m \<in> fst ` set roles" by (metis deps_of_absent empty_iff empty_set)
    with closed x have "x \<in> fst ` set roles" by (auto simp: plain_table_def)
    with n y show ?thesis by auto
  qed
  then have out: "n \<notin> Domain (?R \<union> set (rs_depends_on r) \<times> {n})" using assms(3) by force
  have "acyclic (?R \<union> set (rs_depends_on r) \<times> {n})"
  proof (rule ccontr)
    assume "\<not> acyclic (?R \<union> set (rs_depends_on r) \<times> {n})"
    then obtain x where x: "(x, x) \<in> (?R \<union> set (rs_depends_on r) \<times> {n})\<^sup>+" by (auto simp: acyclic_def)
    have step: "(a, b) \<in> ?R\<^sup>+ \<or> b = n" if "(a, b) \<in> (?R \<union> set (rs_depends_on r) \<times> {n})\<^sup>+" for a b
      using that
    proof induction
      case (step b c)
      then show ?case using out by (auto intro: trancl_into_trancl)
    qed auto
    show False using step [OF x]
    proof
      assume "(x, x) \<in> ?R\<^sup>+" with \<open>acyclic ?R\<close> show False by (simp add: acyclic_def)
    next
      assume "x = n" with x out show False by (metis Domain.DomainI tranclD)
    qed
  qed
  moreover have "plain_table (roles @ [(n, r)]) (fst ` set (roles @ [(n, r)])) \<longleftrightarrow> distinct (rs_depends_on r)"
    using closed assms(4) n by (auto simp: plain_table_def deps_of_append)
  ultimately show ?thesis by (simp add: sound_graph_def new)
qed

text \<open>Exactly when a role is added; otherwise the graph stays.\<close>

definition addable :: "role_spec \<Rightarrow> role_dag \<Rightarrow> bool" where
  "addable r d \<longleftrightarrow> rs_name r \<notin> fst ` set (dg_roles d) \<and> distinct (rs_depends_on r) \<and>
     rs_name r \<notin> set (rs_depends_on r) \<and> set (rs_depends_on r) \<subseteq> fst ` set (dg_roles d)"

definition with_role :: "role_spec \<Rightarrow> role_dag \<Rightarrow> role_dag" where
  "with_role r d = d\<lparr>dg_roles := dg_roles d @ [(rs_name r, r)], dg_names := dg_names d @ [rs_name r]\<rparr>"

lemma valid_with_role:
  assumes "valid_dag d" and "addable r d"
  shows "valid_dag (with_role r d)"
  using assms unfolding valid_dag_def addable_def dag_ok_def with_role_def
  by (auto simp: sound_graph_append keyed_def)

lemma dag_ok_with_role:
  assumes "dag_ok d" and "rs_name r \<notin> fst ` set (dg_roles d)"
  shows "dag_ok (with_role r d)"
  using assms unfolding dag_ok_def with_role_def keyed_def by auto

lemma delete_append_new: "n \<notin> fst ` set roles \<Longrightarrow> AList.delete n (roles @ [(n, r)]) = roles"
  by (induction roles) auto

lemma check_deps_error: "check_deps n known deps = Inl e \<Longrightarrow> \<exists>m. e = ValueError m"
  by (induction n known deps rule: check_deps.induct) (auto split: if_splits)

lemma batches_error: "batches_from roles deg rem = Inl e \<Longrightarrow> \<exists>m. e = ValueError m"
proof (induction roles deg rem rule: batches_from.induct)
  case (1 roles deg rem)
  from "1.prems" show ?case
    unfolding batches_from.simps [of roles deg rem] using "1.IH" [OF _ refl _ refl]
    by (auto simp: Let_def split: if_splits sum.splits)
qed

lemma add_role_effect:
  assumes ok: "valid_dag d"
  shows "add_role r d = (if addable r d then (Inr (), with_role r d) else (fst (add_role r d), d))"
    and "fst (add_role r d) = Inr () \<longleftrightarrow> addable r d"
    and "\<And>e. fst (add_role r d) = Inl e \<Longrightarrow> \<exists>m. e = ValueError m"
proof -
  have dag: "dag_ok d" using ok by (simp add: valid_dag_def)
  have "add_role r d = (if addable r d then (Inr (), with_role r d) else (fst (add_role r d), d)) \<and>
    (fst (add_role r d) = Inr () \<longleftrightarrow> addable r d) \<and> (\<forall>e. fst (add_role r d) = Inl e \<longrightarrow> (\<exists>m. e = ValueError m))"
  proof (cases "rs_name r \<in> fst ` set (dg_roles d)")
    case True
    then show ?thesis by (simp add: add_role_def addable_def)
  next
    case new: False
    show ?thesis
    proof (cases "check_deps (rs_name r) (map fst (dg_roles d)) (rs_depends_on r)")
      case (Inl e)
      have "\<exists>m. e = ValueError m" using Inl by (rule check_deps_error)
      moreover have "\<not> addable r d" using Inl check_deps_iff [of "rs_name r" "map fst (dg_roles d)" "rs_depends_on r"]
        by (auto simp: addable_def)
      ultimately show ?thesis using new Inl by (simp add: add_role_def)
    next
      case (Inr u)
      then have deps: "rs_name r \<notin> set (rs_depends_on r)" "set (rs_depends_on r) \<subseteq> fst ` set (dg_roles d)"
        using check_deps_iff [of "rs_name r" "map fst (dg_roles d)" "rs_depends_on r"] by simp_all
      have d': "d\<lparr>dg_roles := AList.update (rs_name r) r (dg_roles d), dg_names := dg_names d @ [rs_name r]\<rparr> = with_role r d"
        using new by (simp add: with_role_def update_new_key)
      have undo: "(with_role r d)\<lparr>dg_roles := AList.delete (rs_name r) (dg_roles (with_role r d)),
          dg_names := remove1 (rs_name r) (dg_names (with_role r d))\<rparr> = d"
        using new dag by (simp add: with_role_def delete_append_new remove1_append dag_ok_def)
      have run: "add_role r d = (case execution_batches (with_role r d) of Inl e \<Rightarrow> (Inl e, d) | Inr _ \<Rightarrow> (Inr (), with_role r d))"
        using new Inr unfolding add_role_def Let_def d' undo by (simp split: sum.splits)
      have iff: "(\<exists>bs. execution_batches (with_role r d) = Inr bs) \<longleftrightarrow> addable r d"
        unfolding execution_batches_iff [OF dag_ok_with_role [OF dag new]]
        using sound_graph_append [OF _ new deps] ok deps new by (simp add: with_role_def addable_def valid_dag_def)
      show ?thesis
      proof (cases "execution_batches (with_role r d)")
        case (Inl e)
        with iff batches_error [of _ _ _ e] show ?thesis by (auto simp: run execution_batches_def)
      next
        case (Inr bs)
        with iff show ?thesis by (auto simp: run)
      qed
    qed
  qed
  then show "add_role r d = (if addable r d then (Inr (), with_role r d) else (fst (add_role r d), d))"
    and "fst (add_role r d) = Inr () \<longleftrightarrow> addable r d"
    and "\<And>e. fst (add_role r d) = Inl e \<Longrightarrow> \<exists>m. e = ValueError m" by blast+
qed

definition removable :: "string \<Rightarrow> role_dag \<Rightarrow> bool" where
  "removable n d \<longleftrightarrow> n \<in> fst ` set (dg_roles d) \<and> (\<forall>r \<in> snd ` set (dg_roles d). n \<notin> set (rs_depends_on r))"

definition without_role :: "string \<Rightarrow> role_dag \<Rightarrow> role_dag" where
  "without_role n d = d\<lparr>dg_roles := AList.delete n (dg_roles d), dg_names := remove1 n (dg_names d)\<rparr>"

lemma remove_role_effect:
  "remove_role n d = (if removable n d then (Inr (), without_role n d) else (fst (remove_role n d), d))"
  "fst (remove_role n d) = Inr () \<longleftrightarrow> removable n d"
  "fst (remove_role n d) = Inl e \<Longrightarrow> \<exists>m. e = ValueError m"
  unfolding remove_role_def removable_def without_role_def Let_def
  by (auto simp: filter_empty_conv split: if_splits)

lemma removable_iff:
  assumes "valid_dag d"
  shows "removable n d \<longleftrightarrow> n \<in> fst ` set (dg_roles d) \<and> n \<notin> Domain (dep_rel (dg_roles d))"
proof -
  have k: "distinct (map fst (dg_roles d))" using assms by (simp add: valid_dag_def dag_ok_def keyed_def)
  have "(\<forall>r \<in> snd ` set (dg_roles d). n \<notin> set (rs_depends_on r)) \<longleftrightarrow> (\<forall>m. n \<notin> set (deps_of (dg_roles d) m))"
  proof
    assume r: "\<forall>m. n \<notin> set (deps_of (dg_roles d) m)"
    show "\<forall>r \<in> snd ` set (dg_roles d). n \<notin> set (rs_depends_on r)"
    proof clarsimp
      fix m r assume "(m, r) \<in> set (dg_roles d)" and "n \<in> set (rs_depends_on r)"
      with k r show False by (auto simp: deps_of_def dest!: spec [of _ m])
    qed
  next
    assume r: "\<forall>r \<in> snd ` set (dg_roles d). n \<notin> set (rs_depends_on r)"
    show "\<forall>m. n \<notin> set (deps_of (dg_roles d) m)"
    proof
      fix m show "n \<notin> set (deps_of (dg_roles d) m)"
        using r by (cases "map_of (dg_roles d) m") (force simp: deps_of_def dest: map_of_SomeD)+
    qed
  qed
  then show ?thesis by (auto simp: removable_def dep_rel_def)
qed

lemma deps_of_delete: "deps_of (AList.delete n roles) m = (if m = n then [] else deps_of roles m)"
  by (simp add: deps_of_def AList.delete_conv')

lemma valid_without_role:
  assumes "valid_dag d" and "removable n d"
  shows "valid_dag (without_role n d)"
proof -
  let ?roles = "dg_roles d"
  have k: "keyed ?roles" and names: "set (dg_names d) = fst ` set ?roles" "distinct (dg_names d)"
    and g: "plain_table ?roles (fst ` set ?roles)" "acyclic (dep_rel ?roles)"
    using assms(1) by (simp_all add: valid_dag_def dag_ok_def sound_graph_def)
  have out: "n \<notin> set (deps_of ?roles m)" for m
  proof (cases "map_of ?roles m")
    case (Some r)
    then have "(m, r) \<in> set ?roles" by (rule map_of_SomeD)
    then show ?thesis using assms(2) Some by (force simp: removable_def deps_of_def)
  qed (simp add: deps_of_def)
  have dom: "fst ` set (AList.delete n ?roles) = fst ` set ?roles - {n}"
    using delete_keys [of n ?roles] by (metis list.set_map set_removeAll)
  have "keyed (AList.delete n ?roles)"
    using k unfolding keyed_def by (auto simp: AList.delete_eq intro: distinct_map_filter)
  moreover have "acyclic (dep_rel (AList.delete n ?roles))"
    by (rule acyclic_subset [OF g(2)]) (auto simp: dep_rel_def deps_of_delete split: if_splits)
  moreover have "plain_table (AList.delete n ?roles) (fst ` set ?roles - {n})"
    using g(1) out by (auto simp: plain_table_def deps_of_delete)
  ultimately show ?thesis
    using names by (simp add: valid_dag_def dag_ok_def sound_graph_def without_role_def dom)
qed

lemma valid_new_dag:
  assumes "distinct (map rs_name roles)" and "validate_dag (new_dag roles) = Inr ()"
  shows "valid_dag (new_dag roles)"
  using assms dag_ok_new [of roles] validate_iff [OF dag_ok_new, of roles]
  by (simp add: valid_dag_def) (simp add: new_dag_def)

lemma validate_valid: "valid_dag d \<Longrightarrow> validate_dag d = Inr ()"
  using validate_iff [of d] by (simp add: valid_dag_def)

subsection \<open>Proposed edits\<close>

lemma untyped_dep_error_kind: "(\<exists>m. untyped_dep_error n known js = ValueError m) \<or> (\<exists>m. untyped_dep_error n known js = TypeError m)"
  by (induction n known js rule: untyped_dep_error.induct) (auto split: json.splits sum.splits if_splits)

lemma add_role_valid: "valid_dag d \<Longrightarrow> valid_dag (snd (add_role r d))"
  using add_role_effect(1) [of d r] valid_with_role [of d r] by (cases "addable r d") (simp, metis snd_conv)

lemma add_role_raises: "valid_dag d \<Longrightarrow> fst (add_role r d) = Inl e \<Longrightarrow> snd (add_role r d) = d"
  using add_role_effect(1,2) [of d r] by (cases "addable r d") (simp, metis snd_conv)

lemma apply_change_valid:
  assumes "valid_dag d"
  shows "valid_dag (snd (apply_change c d))"
    and "fst (apply_change c d) = Inl e \<Longrightarrow> snd (apply_change c d) = d \<and> ((\<exists>m. e = ValueError m) \<or> (\<exists>m. e = TypeError m))"
proof -
  have "valid_dag (snd (apply_change c d)) \<and> (fst (apply_change c d) = Inl e \<longrightarrow>
      snd (apply_change c d) = d \<and> ((\<exists>m. e = ValueError m) \<or> (\<exists>m. e = TypeError m)))"
  proof (cases c)
    case (AddRole name deps)
    then show ?thesis
      using assms add_role_valid [OF assms] add_role_raises [OF assms] add_role_effect(3) [OF assms]
        untyped_dep_error_kind [of name "map fst (dg_roles d)" deps]
      by (auto simp: propose_role_def split: option.splits)
  next
    case (RemoveRole name)
    then show ?thesis
      using assms remove_role_effect [of name d] valid_without_role [OF assms, of name]
      by (cases "removable name d") (auto, metis snd_conv)
  qed (use assms in simp)
  then show "valid_dag (snd (apply_change c d))"
    and "fst (apply_change c d) = Inl e \<Longrightarrow> snd (apply_change c d) = d \<and> ((\<exists>m. e = ValueError m) \<or> (\<exists>m. e = TypeError m))"
    by blast+
qed

lemma apply_dag_changes_valid:
  assumes "valid_dag d" and "apply_dag_changes cs d = (r, d')"
  shows "valid_dag d' \<and> (case r of
      Inr (a, s) \<Rightarrow> 0 \<le> a \<and> 0 \<le> s \<and> a + s = int (length cs)
    | Inl e \<Rightarrow> (\<exists>m. e = TypeError m) \<and> (\<exists>c \<in> set cs. \<exists>name deps. c = AddRole name deps \<and> plain_deps deps = None))"
  using assms
proof (induction cs arbitrary: d r d')
  case (Cons c cs)
  note ok = apply_change_valid [OF Cons.prems(1), of c]
  obtain q d1 where q: "apply_change c d = (q, d1)" by (cases "apply_change c d")
  have d1: "valid_dag d1" using ok(1) q by simp
  obtain r2 d2 where rest: "apply_dag_changes cs d1 = (r2, d2)" by (cases "apply_dag_changes cs d1")
  note ih = Cons.IH [OF d1 rest]
  show ?case
  proof (cases "\<exists>e. q = Inl e \<and> \<not> is_value_error e")
    case True
    then obtain e where e: "q = Inl e" "\<not> is_value_error e" by blast
    with Cons.prems(2) q have r: "r = Inl e" "d' = d1" by simp_all
    from ok(2) [of e] q e have te: "\<exists>m. e = TypeError m" by (auto simp: is_value_error_def)
    have "\<exists>name deps. c = AddRole name deps \<and> plain_deps deps = None"
    proof (cases c)
      case (AddRole name deps)
      with q e te show ?thesis using add_role_effect(3) [OF Cons.prems(1)]
        by (cases "plain_deps deps") (auto simp: propose_role_def, metis fst_conv exc.distinct(3))
    next
      case (RemoveRole name)
      with q e te show ?thesis using remove_role_effect(3) [of name d e] by auto
    qed (use q e in simp)
    with te d1 r show ?thesis by auto
  next
    case False
    then have "r2 = Inl e \<and> r = Inl e \<and> d' = d2" if "r2 = Inl e" for e
      using Cons.prems(2) q rest that by (cases q) auto
    moreover have "d' = d2 \<and> (r = Inr (a + 1, s) \<or> r = Inr (a, s + 1))" if "r2 = Inr (a, s)" for a s
      using False Cons.prems(2) q rest that by (cases q; cases "known_action c") auto
    ultimately show ?thesis using ih by (cases r2) fastforce+
  qed
qed auto

end
