(* ===== verification/Role_Engine.thy ===== *)
theory Role_Engine
  imports Role_Dag_Props
begin

text \<open>
  The pipeline engine of \<^verbatim>\<open>harness/orchestration/engine.py\<close>: a loop that submits every ready role to
  a pool of workers, waits until some submitted role has finished, and makes its result visible.

  What the pool decides is the environment of the model: \<open>pick i s\<close> are the futures that are done
  when the \<open>i\<close>-th \<open>wait\<close> returns, in the order in which the set of them is iterated, with what
  the handler returned or raised. \<open>on_role_event\<close> is a callable of the caller; it may raise, and what
  it does may depend on the events before.
\<close>

type_synonym 'x snapshot = "(string \<times> 'x) list"

record 'x engine =
  en_pending :: "string list"
  en_completed :: "'x snapshot"
  en_running :: "(string \<times> 'x snapshot) list"
  en_submitted :: "(string \<times> string \<times> 'x snapshot) list"  \<comment> \<open>all handler calls so far\<close>
  en_events :: "(string \<times> string) list"  \<comment> \<open>all calls of \<open>on_role_event\<close> so far\<close>

type_synonym role_callback = "(string \<times> string) list \<Rightarrow> string \<Rightarrow> string \<Rightarrow> exc option"

record pipeline_engine =
  pe_dag :: role_dag
  pe_max_workers :: int

definition create_engine :: "role_dag \<Rightarrow> int \<Rightarrow> pipeline_engine res" where
  "create_engine d k = (if k < 1 then Inl (ValueError ''max_workers must be positive'')
     else Inr \<lparr>pe_dag = d, pe_max_workers = k\<rparr>)"

definition engine_start :: "role_table \<Rightarrow> 'x engine" where
  "engine_start roles = \<lparr>en_pending = map fst roles, en_completed = [], en_running = [],
     en_submitted = [], en_events = []\<rparr>"

definition notify_role :: "role_callback option \<Rightarrow> string \<Rightarrow> string \<Rightarrow> ('x engine, unit) op" where
  "notify_role cb name event s = (case cb of
       None \<Rightarrow> (Inr (), s)
     | Some f \<Rightarrow> (case f (en_events s) name event of
         None \<Rightarrow> (Inr (), s\<lparr>en_events := en_events s @ [(name, event)]\<rparr>)
       | Some e \<Rightarrow> (Inl e, s\<lparr>en_events := en_events s @ [(name, event)]\<rparr>)))"

definition ready_roles :: "role_table \<Rightarrow> 'x engine \<Rightarrow> string list" where
  "ready_roles roles s = sort (filter (\<lambda>n. \<forall>dep \<in> set (deps_of roles n). dep \<in> set (map fst (en_completed s))) (en_pending s))"

text \<open>\<open>xs[:k]\<close>; a negative bound counts from the end.\<close>

definition py_prefix :: "int \<Rightarrow> 'a list \<Rightarrow> 'a list" where
  "py_prefix k xs = take (if k < 0 then length xs - nat (- k) else nat k) xs"

definition submit_role :: "(string \<Rightarrow> string) \<Rightarrow> string \<Rightarrow> 'x engine \<Rightarrow> 'x engine" where
  "submit_role prompts name s = s\<lparr>en_running := en_running s @ [(name, en_completed s)],
     en_submitted := en_submitted s @ [(name, prompts name, en_completed s)],
     en_pending := remove1 name (en_pending s)\<rparr>"

definition start_role :: "(string \<Rightarrow> string) \<Rightarrow> role_callback option \<Rightarrow> string \<Rightarrow> ('x engine, unit) op" where
  "start_role prompts cb name = andthen (notify_role cb name ''started'') (modify (submit_role prompts name))"

definition dispatch_ready :: "pipeline_engine \<Rightarrow> (string \<Rightarrow> string) \<Rightarrow> role_callback option \<Rightarrow> ('x engine, unit) op" where
  "dispatch_ready pe prompts cb s =
     each (start_role prompts cb)
       (py_prefix (pe_max_workers pe - int (length (en_running s))) (ready_roles (dg_roles (pe_dag pe)) s)) s"

text \<open>\<open>[(running[future], future.result()) for future in done]\<close>\<close>

fun future_results :: "(string \<times> 'x res) list \<Rightarrow> 'x snapshot res" where
  "future_results [] = Inr []"
| "future_results ((n, r) # ds) = (case r of Inl e \<Rightarrow> Inl e
     | Inr x \<Rightarrow> (case future_results ds of Inl e \<Rightarrow> Inl e | Inr xs \<Rightarrow> Inr ((n, x) # xs)))"

definition complete_role :: "string \<times> 'x \<Rightarrow> 'x engine \<Rightarrow> 'x engine" where
  "complete_role nx s = s\<lparr>en_completed := AList.update (fst nx) (snd nx) (en_completed s)\<rparr>"

definition finish_role :: "role_callback option \<Rightarrow> string \<times> 'x \<Rightarrow> ('x engine, unit) op" where
  "finish_role cb nx = andthen (modify (complete_role nx)) (notify_role cb (fst nx) ''completed'')"

definition resolve_done :: "role_callback option \<Rightarrow> (string \<times> 'x res) list \<Rightarrow> ('x engine, unit) op" where
  "resolve_done cb ds = bind (lift_res (future_results ds)) (\<lambda>results.
     andthen (each (finish_role cb) (sort_key fst results))
       (modify (\<lambda>s. s\<lparr>en_running := filter (\<lambda>run. fst run \<notin> set (map fst ds)) (en_running s)\<rparr>)))"

definition engine_busy :: "'x engine \<Rightarrow> bool" where
  "engine_busy s \<longleftrightarrow> en_pending s \<noteq> [] \<or> en_running s \<noteq> []"

type_synonym 'x pool = "nat \<Rightarrow> 'x engine \<Rightarrow> (string \<times> 'x res) list"

text \<open>\<open>wait\<close> returns at once, with nothing, when nothing is running.\<close>

definition wait_first :: "'x pool \<Rightarrow> nat \<Rightarrow> 'x engine \<Rightarrow> (string \<times> 'x res) list" where
  "wait_first pick i s = (if en_running s = [] then [] else pick i s)"

definition engine_round :: "pipeline_engine \<Rightarrow> (string \<Rightarrow> string) \<Rightarrow> role_callback option \<Rightarrow> 'x pool \<Rightarrow> nat \<Rightarrow> ('x engine, unit) op" where
  "engine_round pe prompts cb pick i = andthen (dispatch_ready pe prompts cb)
     (bind (asks (wait_first pick i)) (resolve_done cb))"

text \<open>The loop, cut off after \<open>fuel\<close> rounds: \<open>None\<close> when it has not ended by then.\<close>

fun engine_loop :: "pipeline_engine \<Rightarrow> (string \<Rightarrow> string) \<Rightarrow> role_callback option \<Rightarrow> 'x pool \<Rightarrow> nat \<Rightarrow> nat \<Rightarrow>
    'x engine \<Rightarrow> ('x snapshot res \<times> 'x engine) option" where
  "engine_loop pe prompts cb pick i 0 s = (if engine_busy s then None else Some (Inr (en_completed s), s))"
| "engine_loop pe prompts cb pick i (Suc fuel) s =
     (if \<not> engine_busy s then Some (Inr (en_completed s), s)
      else case engine_round pe prompts cb pick i s of
        (Inl e, s') \<Rightarrow> Some (Inl e, s')
      | (Inr _, s') \<Rightarrow> engine_loop pe prompts cb pick (Suc i) fuel s')"

text \<open>\<open>prompts.get(name, "")\<close>\<close>

definition prompt_of :: "(string \<times> string) list \<Rightarrow> string \<Rightarrow> string" where
  "prompt_of prompts n = (case map_of prompts n of Some p \<Rightarrow> p | None \<Rightarrow> [])"

definition execute_pipeline :: "pipeline_engine \<Rightarrow> (string \<times> string) list \<Rightarrow> role_callback option \<Rightarrow> 'x pool \<Rightarrow> nat \<Rightarrow>
    ('x snapshot res \<times> 'x engine) option" where
  "execute_pipeline pe prompts cb pick fuel =
     (case validate_dag (pe_dag pe) of
        Inl e \<Rightarrow> Some (Inl e, engine_start [])
      | Inr _ \<Rightarrow> engine_loop pe (prompt_of prompts) cb pick 0 fuel
          (engine_start (dg_roles (pe_dag pe))))"

end
