(* ===== verification/Role_Engine_Props.thy ===== *)
theory Role_Engine_Props
  imports Role_Engine
begin

text \<open>
  The invariant of the engine and its preservation by dispatching and by resolving. \<open>outcome n p c r\<close>
  says that the handler, called for role \<open>n\<close> with prompt \<open>p\<close> and the completed results \<open>c\<close>,
  may end with \<open>r\<close>.
\<close>

type_synonym 'x outcome = "string \<Rightarrow> string \<Rightarrow> 'x snapshot \<Rightarrow> 'x res \<Rightarrow> bool"

definition returned :: "(string \<Rightarrow> string) \<Rightarrow> 'x outcome \<Rightarrow> 'x engine \<Rightarrow> string \<Rightarrow> 'x \<Rightarrow> bool" where
  "returned prompts outcome s n x \<longleftrightarrow>
     (\<exists>c. (n, prompts n, c) \<in> set (en_submitted s) \<and> outcome n (prompts n) c (Inr x))"

definition calls_ok :: "role_table \<Rightarrow> (string \<Rightarrow> string) \<Rightarrow> 'x outcome \<Rightarrow> 'x engine \<Rightarrow> bool" where
  "calls_ok roles prompts outcome s \<longleftrightarrow> distinct (map fst (en_submitted s)) \<and>
     (\<forall>(n, p, c) \<in> set (en_submitted s). n \<in> fst ` set roles \<and> p = prompts n \<and>
        (\<forall>d \<in> set (deps_of roles n). \<exists>x. map_of c d = Some x \<and> returned prompts outcome s d x))"

definition engine_ok :: "role_table \<Rightarrow> int \<Rightarrow> (string \<Rightarrow> string) \<Rightarrow> 'x outcome \<Rightarrow> 'x engine \<Rightarrow> bool" where
  "engine_ok roles k prompts outcome s \<longleftrightarrow> calls_ok roles prompts outcome s \<and>
     distinct (en_pending s @ map fst (en_running s) @ map fst (en_completed s)) \<and>
     set (en_pending s) \<union> fst ` set (en_running s) \<union> fst ` set (en_completed s) = fst ` set roles \<and>
     int (length (en_running s)) \<le> k \<and>
     (\<forall>(n, c) \<in> set (en_running s). (n, prompts n, c) \<in> set (en_submitted s)) \<and>
     fst ` set (en_submitted s) = fst ` set (en_running s) \<union> fst ` set (en_completed s) \<and>
     (\<forall>(n, x) \<in> set (en_completed s). returned prompts outcome s n x)"

text \<open>What the pool may do: some of the running calls are done, each with a possible outcome.\<close>

definition done_ok :: "(string \<Rightarrow> string) \<Rightarrow> 'x outcome \<Rightarrow> 'x engine \<Rightarrow> (string \<times> 'x res) list \<Rightarrow> bool" where
  "done_ok prompts outcome s ds \<longleftrightarrow> distinct (map fst ds) \<and> (en_running s \<noteq> [] \<longrightarrow> ds \<noteq> []) \<and>
     (\<forall>(n, r) \<in> set ds. \<exists>c. (n, c) \<in> set (en_running s) \<and> outcome n (prompts n) c r)"

definition pool_ok :: "(string \<Rightarrow> string) \<Rightarrow> 'x outcome \<Rightarrow> 'x pool \<Rightarrow> bool" where
  "pool_ok prompts outcome pick \<longleftrightarrow> (\<forall>i s. distinct (map fst (en_running s)) \<longrightarrow> en_running s \<noteq> [] \<longrightarrow>
     done_ok prompts outcome s (pick i s))"

lemma engine_okD:
  assumes "engine_ok roles k prompts outcome s"
  shows "calls_ok roles prompts outcome s"
    and "distinct (en_pending s)" "distinct (map fst (en_running s))" "distinct (map fst (en_completed s))"
    and "set (en_pending s) \<inter> fst ` set (en_running s) = {}" "set (en_pending s) \<inter> fst ` set (en_completed s) = {}"
      "fst ` set (en_running s) \<inter> fst ` set (en_completed s) = {}"
    and "set (en_pending s) \<union> fst ` set (en_running s) \<union> fst ` set (en_completed s) = fst ` set roles"
    and "int (length (en_running s)) \<le> k"
    and "(n, c) \<in> set (en_running s) \<Longrightarrow> (n, prompts n, c) \<in> set (en_submitted s)"
    and "fst ` set (en_submitted s) = fst ` set (en_running s) \<union> fst ` set (en_completed s)"
    and "(n, x) \<in> set (en_completed s) \<Longrightarrow> returned prompts outcome s n x"
  using assms unfolding engine_ok_def by auto

lemma engine_ok_start:
  assumes "keyed roles" and "0 \<le> k"
  shows "engine_ok roles k prompts outcome (engine_start roles)"
  using assms by (simp add: engine_ok_def calls_ok_def engine_start_def keyed_def)

lemma done_ok_nothing: "en_running s = [] \<Longrightarrow> done_ok prompts outcome s []"
  by (simp add: done_ok_def)

lemma pool_step:
  assumes "pool_ok prompts outcome pick" and "engine_ok roles k prompts outcome s"
  shows "done_ok prompts outcome s (wait_first pick i s)"
  using assms engine_okD(3) [OF assms(2)] by (auto simp: wait_first_def pool_ok_def done_ok_nothing)

subsection \<open>Notifications\<close>

text \<open>An event changes nothing but the list of events.\<close>

lemma notify_state: "\<exists>es. snd (notify_role cb n ev s) = s\<lparr>en_events := es\<rparr>"
proof (cases cb)
  case None then show ?thesis by (auto simp: notify_role_def intro: exI [of _ "en_events s"])
next
  case (Some f) then show ?thesis by (auto simp: notify_role_def split: option.splits)
qed

lemma returned_events [simp]: "returned prompts outcome (s\<lparr>en_events := es\<rparr>) = returned prompts outcome s"
  by (simp add: returned_def fun_eq_iff)

lemma engine_ok_events [simp]:
  "engine_ok roles k prompts outcome (s\<lparr>en_events := es\<rparr>) = engine_ok roles k prompts outcome s"
  by (simp add: engine_ok_def calls_ok_def)

subsection \<open>Submitting\<close>

lemma returned_more:
  assumes "returned prompts outcome s n x" and "set (en_submitted s) \<subseteq> set (en_submitted s')"
  shows "returned prompts outcome s' n x"
  using assms by (auto simp: returned_def)

lemma engine_ok_submit:
  assumes ok: "engine_ok roles k prompts outcome s" and n: "n \<in> set (en_pending s)"
    and deps: "set (deps_of roles n) \<subseteq> fst ` set (en_completed s)" and room: "int (length (en_running s)) < k"
  shows "engine_ok roles k prompts outcome (submit_role prompts n s)"
proof -
  note okD = engine_okD [OF ok]
  let ?s = "submit_role prompts n s"
  have mono: "returned prompts outcome ?s m x" if "returned prompts outcome s m x" for m x
    using that by (rule returned_more) (auto simp: submit_role_def)
  have new: "n \<notin> fst ` set (en_running s)" "n \<notin> fst ` set (en_completed s)" "n \<notin> fst ` set (en_submitted s)"
    using n okD(5,6,11) by auto
  have snap: "\<exists>x. map_of (en_completed s) d = Some x \<and> returned prompts outcome ?s d x" if "d \<in> set (deps_of roles n)" for d
  proof -
    from that deps obtain x where "(d, x) \<in> set (en_completed s)" by auto
    with okD(4,12) mono show ?thesis by auto
  qed
  have "calls_ok roles prompts outcome ?s"
    unfolding calls_ok_def
  proof (intro conjI ballI)
    show "distinct (map fst (en_submitted ?s))"
      using okD(1) new(3) by (auto simp: submit_role_def calls_ok_def)
    fix call assume call: "call \<in> set (en_submitted ?s)"
    show "case call of (m, p, c) \<Rightarrow> m \<in> fst ` set roles \<and> p = prompts m \<and>
        (\<forall>d \<in> set (deps_of roles m). \<exists>x. map_of c d = Some x \<and> returned prompts outcome ?s d x)"
    proof (cases "call \<in> set (en_submitted s)")
      case True
      with okD(1) mono show ?thesis unfolding calls_ok_def by fastforce
    next
      case False
      with call have "call = (n, prompts n, en_completed s)" by (simp add: submit_role_def)
      moreover have "n \<in> fst ` set roles" using n okD(8) by blast
      ultimately show ?thesis using snap by simp
    qed
  qed
  moreover have "distinct (en_pending ?s @ map fst (en_running ?s) @ map fst (en_completed ?s))"
    using okD(2-7) new n by (auto simp: submit_role_def)
  moreover have "set (en_pending ?s) \<union> fst ` set (en_running ?s) \<union> fst ` set (en_completed ?s) = fst ` set roles"
    using okD(2,8) n by (auto simp: submit_role_def)
  ultimately show ?thesis
    using okD(10,11,12) room mono unfolding engine_ok_def by (auto simp: submit_role_def)
qed

subsection \<open>Dispatching\<close>

text \<open>The callback never raises.\<close>

definition quiet :: "role_callback option \<Rightarrow> bool" where
  "quiet cb \<longleftrightarrow> (case cb of None \<Rightarrow> True | Some f \<Rightarrow> \<forall>es n ev. f es n ev = None)"

lemma quiet_notify: "quiet cb \<Longrightarrow> fst (notify_role cb n ev s) = Inr ()"
  by (cases cb) (simp_all add: quiet_def notify_role_def)

lemma submit_each:
  assumes "engine_ok roles k prompts outcome s" and "distinct xs" and "set xs \<subseteq> set (en_pending s)"
    and "\<forall>n \<in> set xs. set (deps_of roles n) \<subseteq> fst ` set (en_completed s)"
    and "int (length (en_running s)) + int (length xs) \<le> k"
    and "each (start_role prompts cb) xs s = (r, s')"
  shows "engine_ok roles k prompts outcome s' \<and> en_completed s' = en_completed s \<and>
    (r = Inr () \<longrightarrow> map fst (en_running s') = map fst (en_running s) @ xs) \<and> (quiet cb \<longrightarrow> r = Inr ())"
  using assms
proof (induction xs arbitrary: s)
  case (Cons n xs)
  obtain es where es: "snd (notify_role cb n ''started'' s) = s\<lparr>en_events := es\<rparr>" using notify_state by blast
  let ?s = "s\<lparr>en_events := es\<rparr>"
  show ?case
  proof (cases "notify_role cb n ''started'' s")
    case (Pair q s1)
    with es have s1: "s1 = ?s" by simp
    show ?thesis
    proof (cases q)
      case (Inl e)
      with Cons.prems(6) Pair have "r = Inl e" and "s' = ?s" by (simp_all add: s1 start_role_def)
      moreover have "\<not> quiet cb" using quiet_notify [of cb n "''started''" s] Pair Inl by auto
      ultimately show ?thesis using Cons.prems(1) by simp
    next
      case (Inr u)
      have rest: "each (start_role prompts cb) xs
          (submit_role prompts n ?s) = (r, s')"
        using Cons.prems(6) Pair Inr by (simp add: s1 start_role_def [of _ _ n])
      have ok: "engine_ok roles k prompts outcome (submit_role prompts n ?s)"
        by (rule engine_ok_submit) (use Cons.prems(1-5) in auto)
      have "set xs \<subseteq> set (en_pending (submit_role prompts n ?s))"
        using Cons.prems(2,3) engine_okD(2) [OF Cons.prems(1)] by (auto simp: submit_role_def)
      with Cons.IH [OF ok _ _ _ _ rest] Cons.prems(2,4,5) show ?thesis by (auto simp: submit_role_def)
    qed
  qed
qed simp

lemma ready_roles_set:
  "set (ready_roles roles s) = {n \<in> set (en_pending s). set (deps_of roles n) \<subseteq> fst ` set (en_completed s)}"
  by (auto simp: ready_roles_def)

text \<open>What is submitted in one round: as many of the ready roles, in order of their names, as there is room for.\<close>

definition to_submit :: "pipeline_engine \<Rightarrow> 'x engine \<Rightarrow> string list" where
  "to_submit pe s = py_prefix (pe_max_workers pe - int (length (en_running s))) (ready_roles (dg_roles (pe_dag pe)) s)"

lemma to_submit_take:
  assumes "int (length (en_running s)) \<le> pe_max_workers pe"
  shows "to_submit pe s = take (nat (pe_max_workers pe) - length (en_running s)) (ready_roles (dg_roles (pe_dag pe)) s)"
  using assms by (simp add: to_submit_def py_prefix_def nat_diff_distrib)

lemma dispatch_ok:
  assumes ok: "engine_ok (dg_roles (pe_dag pe)) (pe_max_workers pe) prompts outcome s"
    and run: "dispatch_ready pe prompts cb s = (r, s')"
  shows "engine_ok (dg_roles (pe_dag pe)) (pe_max_workers pe) prompts outcome s' \<and>
    en_completed s' = en_completed s \<and>
    (r = Inr () \<longrightarrow> map fst (en_running s') = map fst (en_running s) @ to_submit pe s) \<and> (quiet cb \<longrightarrow> r = Inr ())"
proof -
  let ?roles = "dg_roles (pe_dag pe)"
  have sub: "set (to_submit pe s) \<subseteq> set (ready_roles ?roles s)" and "distinct (ready_roles ?roles s)"
    using engine_okD(2) [OF ok] by (auto simp: to_submit_def py_prefix_def ready_roles_def dest: in_set_takeD)
  then have "distinct (to_submit pe s)" by (auto simp: to_submit_def py_prefix_def)
  moreover have "set (to_submit pe s) \<subseteq> set (en_pending s)"
    and "\<forall>n \<in> set (to_submit pe s). set (deps_of ?roles n) \<subseteq> fst ` set (en_completed s)"
    using sub unfolding ready_roles_set by auto
  moreover have "int (length (en_running s)) + int (length (to_submit pe s)) \<le> pe_max_workers pe"
    using engine_okD(9) [OF ok] by (simp add: to_submit_take)
  ultimately show ?thesis
    using run unfolding dispatch_ready_def to_submit_def [symmetric] by (intro submit_each [OF ok])
qed

subsection \<open>Resolving\<close>

lemma future_results_Inr:
  "future_results ds = Inr xs \<Longrightarrow> map fst xs = map fst ds \<and> (\<forall>n x. (n, x) \<in> set xs \<longleftrightarrow> (n, Inr x) \<in> set ds)"
  by (induction ds arbitrary: xs rule: future_results.induct) (auto split: sum.splits)

lemma future_results_total: "\<forall>(n, r) \<in> set ds. \<exists>x. r = Inr x \<Longrightarrow> \<exists>xs. future_results ds = Inr xs"
  by (induction ds rule: future_results.induct) (auto split: sum.splits)

text \<open>Recording results changes the completed roles and the events, and nothing else.\<close>

lemma complete_each:
  assumes "distinct (map fst xs)" and "fst ` set xs \<inter> fst ` set (en_completed s) = {}"
    and "each (finish_role cb) xs s = (r, s')"
  shows "\<exists>j es. s' = s\<lparr>en_completed := en_completed s @ take j xs, en_events := es\<rparr> \<and>
    (r = Inr () \<longrightarrow> take j xs = xs) \<and> (quiet cb \<longrightarrow> r = Inr ())"
  using assms
proof (induction xs arbitrary: s)
  case Nil
  then show ?case by (auto intro!: exI [of _ "en_events s"])
next
  case (Cons nx xs)
  obtain n x where nx: "nx = (n, x)" by (cases nx)
  let ?s = "complete_role nx s"
  have upd: "?s = s\<lparr>en_completed := en_completed s @ [nx]\<rparr>"
    using Cons.prems(2) by (simp add: complete_role_def nx update_new_key)
  obtain q s1 where q: "notify_role cb n ''completed'' ?s = (q, s1)" by (cases "notify_role cb n ''completed'' ?s")
  obtain es where s1: "s1 = ?s\<lparr>en_events := es\<rparr>" using notify_state [of cb n "''completed''" ?s] q by auto
  show ?case
  proof (cases q)
    case (Inl e)
    with Cons.prems(3) q nx have rs: "r = Inl e" "s' = s1" by (simp_all add: finish_role_def)
    have "\<not> quiet cb" using quiet_notify [of cb n "''completed''" ?s] q Inl by auto
    then show ?thesis unfolding rs s1 upd
      by (intro exI [of _ 1] exI [of _ es]) simp
  next
    case (Inr u)
    with Cons.prems(3) q nx have rest:
      "each (finish_role cb) xs s1 = (r, s')" by (simp add: finish_role_def [of cb "(n, x)"])
    have "fst ` set xs \<inter> fst ` set (en_completed s1) = {}"
      using Cons.prems(1,2) unfolding s1 upd by (auto simp: nx)
    from Cons.IH [OF _ this rest] Cons.prems(1) obtain j es' where
      "s' = s1\<lparr>en_completed := en_completed s1 @ take j xs, en_events := es'\<rparr>"
      "r = Inr () \<longrightarrow> take j xs = xs" "quiet cb \<longrightarrow> r = Inr ()" by auto
    then show ?thesis by (intro exI [of _ "Suc j"] exI [of _ es']) (simp add: s1 upd)
  qed
qed

lemma resolve_effect:
  assumes ok: "engine_ok roles k prompts outcome s" and ds: "done_ok prompts outcome s ds"
    and run: "resolve_done cb ds s = (r, s')"
  obtains "r \<noteq> Inr ()" "en_submitted s' = en_submitted s"
      "(quiet cb \<and> (\<forall>(n, q) \<in> set ds. \<exists>x. q = Inr x)) \<Longrightarrow> False"
    | xs es where "r = Inr ()" "future_results ds = Inr xs"
      "s' = s\<lparr>en_completed := en_completed s @ sort_key fst xs, en_events := es,
              en_running := filter (\<lambda>run. fst run \<notin> set (map fst ds)) (en_running s)\<rparr>"
proof (cases "future_results ds")
  case (Inl e)
  with run have "r = Inl e" "s' = s" by (simp_all add: resolve_done_def)
  moreover have "\<not> (\<forall>(n, q) \<in> set ds. \<exists>x. q = Inr x)" using future_results_total [of ds] Inl by force
  ultimately show ?thesis using that(1) by auto
next
  case (Inr xs)
  note fr = future_results_Inr [OF Inr]
  have dist: "distinct (map fst xs)" using ds fr by (simp add: done_ok_def)
  then have d1: "distinct (map fst (sort_key fst xs))" by (simp add: distinct_map)
  have "fst ` set xs = fst ` set ds" using fr by (metis list.set_map)
  moreover have "fst ` set ds \<subseteq> fst ` set (en_running s)" using ds by (force simp: done_ok_def)
  ultimately have "fst ` set xs \<subseteq> fst ` set (en_running s)" by simp
  then have d2: "fst ` set (sort_key fst xs) \<inter> fst ` set (en_completed s) = {}"
    using engine_okD(7) [OF ok] by auto
  obtain q s1 where q: "each (finish_role cb) (sort_key fst xs) s = (q, s1)"
    by (metis surj_pair)
  from complete_each [OF d1 d2 q] obtain j es where
    s1: "s1 = s\<lparr>en_completed := en_completed s @ take j (sort_key fst xs), en_events := es\<rparr>"
    and full: "q = Inr () \<longrightarrow> take j (sort_key fst xs) = sort_key fst xs" and quiet: "quiet cb \<longrightarrow> q = Inr ()" by blast
  show ?thesis
  proof (cases q)
    case e: (Inl e)
    with run Inr q have "r = Inl e" "s' = s1" by (simp_all add: resolve_done_def)
    with that(1) s1 quiet e show ?thesis by auto
  next
    case u: (Inr u)
    with run Inr q have "r = Inr ()"
      and "s' = s1\<lparr>en_running := filter (\<lambda>run. fst run \<notin> set (map fst ds)) (en_running s1)\<rparr>"
      by (simp_all add: resolve_done_def)
    with that(2) [of xs es] Inr s1 full u show ?thesis by simp
  qed
qed

lemma resolve_ok:
  assumes ok: "engine_ok roles k prompts outcome s" and ds: "done_ok prompts outcome s ds"
    and run: "resolve_done cb ds s = (Inr (), s')"
  shows "engine_ok roles k prompts outcome s'"
proof -
  note okD = engine_okD [OF ok]
  from resolve_effect [OF ok ds run] obtain xs es where xs: "future_results ds = Inr xs"
    and s': "s' = s\<lparr>en_completed := en_completed s @ sort_key fst xs, en_events := es,
              en_running := filter (\<lambda>run. fst run \<notin> set (map fst ds)) (en_running s)\<rparr>" by auto
  note fr = future_results_Inr [OF xs]
  have names: "fst ` set xs = fst ` set ds" using fr by (metis list.set_map)
  have sub: "fst ` set ds \<subseteq> fst ` set (en_running s)" using ds by (force simp: done_ok_def)
  have ret: "returned prompts outcome s' = returned prompts outcome s" by (simp add: returned_def s' fun_eq_iff)
  have calls: "calls_ok roles prompts outcome s'"
    using okD(1) unfolding calls_ok_def ret by (simp add: s')
  have part: "fst ` set (filter (\<lambda>run. fst run \<notin> set (map fst ds)) (en_running s)) = fst ` set (en_running s) - fst ` set ds"
    by auto
  have dist: "distinct (map fst xs)" using ds fr by (simp add: done_ok_def)
  have "distinct (en_pending s' @ map fst (en_running s') @ map fst (en_completed s'))"
  proof -
    have "distinct (map fst (sort_key fst xs))" using dist by (simp add: distinct_map)
    moreover have "distinct (map fst (filter (\<lambda>run. fst run \<notin> set (map fst ds)) (en_running s)))"
      by (rule distinct_map_filter [OF okD(3)])
    moreover have "set (en_pending s) \<inter> fst ` set ds = {}" "fst ` set (en_completed s) \<inter> fst ` set ds = {}"
      using sub okD(5,7) by blast+
    ultimately show ?thesis using okD(2,4-7) part names by (auto simp: s')
  qed
  moreover have "length (en_running s') \<le> length (en_running s)" by (simp add: s')
  then have "int (length (en_running s')) \<le> k" using okD(9) by linarith
  moreover have comp: "fst ` set (en_completed s') = fst ` set (en_completed s) \<union> fst ` set ds"
    and rest: "fst ` set (en_running s') = fst ` set (en_running s) - fst ` set ds"
    and same: "en_pending s' = en_pending s" "en_submitted s' = en_submitted s"
    using part by (simp_all add: s' image_Un names)
  have "set (en_pending s') \<union> fst ` set (en_running s') \<union> fst ` set (en_completed s') = fst ` set roles"
    unfolding comp rest same using okD(8) sub by blast
  moreover have "fst ` set (en_submitted s') = fst ` set (en_running s') \<union> fst ` set (en_completed s')"
    unfolding comp rest same using okD(11) sub by blast
  moreover have "\<forall>(n, x) \<in> set (en_completed s'). returned prompts outcome s n x"
    using okD(10,12) ds fr by (fastforce simp: s' done_ok_def returned_def)
  ultimately show ?thesis using calls okD(10) unfolding engine_ok_def ret by (auto simp: s')
qed

subsection \<open>Every state of the engine\<close>

text \<open>
  Dispatching and resolving as steps of a transition system, in any order and with any choice of the
  pool; the loop is one way through it.
\<close>

inductive engine_step :: "pipeline_engine \<Rightarrow> (string \<Rightarrow> string) \<Rightarrow> role_callback option \<Rightarrow> 'x outcome \<Rightarrow>
    'x engine \<Rightarrow> 'x engine \<Rightarrow> bool"
  for pe prompts cb outcome where
  es_dispatch: "dispatch_ready pe prompts cb s = (r, s') \<Longrightarrow> engine_step pe prompts cb outcome s s'"
| es_resolve: "done_ok prompts outcome s ds \<Longrightarrow> resolve_done cb ds s = (Inr (), s') \<Longrightarrow>
    engine_step pe prompts cb outcome s s'"

lemma engine_step_ok:
  assumes "engine_ok (dg_roles (pe_dag pe)) (pe_max_workers pe) prompts outcome s"
    and "engine_step pe prompts cb outcome s s'"
  shows "engine_ok (dg_roles (pe_dag pe)) (pe_max_workers pe) prompts outcome s'"
  using assms(2)
proof cases
  case (es_dispatch r)
  from dispatch_ok [OF assms(1) this] show ?thesis by simp
next
  case (es_resolve ds)
  from resolve_ok [OF assms(1) this] show ?thesis .
qed

interpretation eng: invariant_system "\<lambda>s. s = engine_start (dg_roles (pe_dag pe))"
    "engine_step pe prompts cb outcome" "\<lambda>_. keyed (dg_roles (pe_dag pe)) \<and> 0 \<le> pe_max_workers pe"
    "engine_ok (dg_roles (pe_dag pe)) (pe_max_workers pe) prompts outcome"
  for pe prompts cb and outcome :: "'x outcome"
  by unfold_locales (auto intro: engine_ok_start engine_step_ok)

subsection \<open>Progress\<close>

text \<open>The handler never raises.\<close>

definition never_raises :: "'x outcome \<Rightarrow> bool" where
  "never_raises outcome \<longleftrightarrow> (\<forall>n p c r. outcome n p c r \<longrightarrow> (\<exists>x. r = Inr x))"

lemma ready_exists:
  assumes g: "sound_graph roles" and ok: "engine_ok roles k prompts outcome s"
    and "en_pending s \<noteq> []" and "en_running s = []"
  shows "ready_roles roles s \<noteq> []"
proof -
  let ?fin = "fst ` set (en_completed s)"
  have "?fin \<union> set (en_pending s) = fst ` set roles" using engine_okD(8) [OF ok] assms(4) by auto
  with g have "plain_table roles (?fin \<union> set (en_pending s))" and "acyclic (dep_rel roles)"
    by (simp_all add: sound_graph_def)
  from acyclic_layer [OF this(2,1) assms(3)] obtain n where "n \<in> set (layer roles ?fin (en_pending s))" by fastforce
  then have "n \<in> set (ready_roles roles s)" by (auto simp: layer_def ready_roles_set)
  then show ?thesis by auto
qed

lemma engine_round_progress:
  assumes g: "sound_graph (dg_roles (pe_dag pe))" and k: "1 \<le> pe_max_workers pe" and cb: "quiet cb"
    and out: "never_raises outcome" and pool: "pool_ok prompts outcome pick"
    and ok: "engine_ok (dg_roles (pe_dag pe)) (pe_max_workers pe) prompts outcome s" and busy: "engine_busy s"
  shows "\<exists>s'. engine_round pe prompts cb pick i s = (Inr (), s') \<and>
    engine_ok (dg_roles (pe_dag pe)) (pe_max_workers pe) prompts outcome s' \<and>
    length (en_completed s) < length (en_completed s')"
proof -
  obtain r s1 where d: "dispatch_ready pe prompts cb s = (r, s1)" by (cases "dispatch_ready pe prompts cb s")
  note dk = dispatch_ok [OF ok d]
  from dk cb have r: "r = Inr ()" and ok1: "engine_ok (dg_roles (pe_dag pe)) (pe_max_workers pe) prompts outcome s1"
    and c1: "en_completed s1 = en_completed s"
    and run: "map fst (en_running s1) = map fst (en_running s) @ to_submit pe s" by auto
  have running: "en_running s1 \<noteq> []"
  proof (cases "en_running s = []")
    case True
    with busy ready_exists [OF g ok] have "ready_roles (dg_roles (pe_dag pe)) s \<noteq> []" by (simp add: engine_busy_def)
    with k True have "to_submit pe s \<noteq> []" by (simp add: to_submit_take)
    with run show ?thesis by auto
  next
    case False with run show ?thesis by auto
  qed
  let ?ds = "wait_first pick i s1"
  have ds: "done_ok prompts outcome s1 ?ds" by (rule pool_step [OF pool ok1])
  obtain q s2 where q: "resolve_done cb ?ds s1 = (q, s2)" by (cases "resolve_done cb ?ds s1")
  have total: "\<forall>(n, q) \<in> set ?ds. \<exists>x. q = Inr x" using ds out by (fastforce simp: done_ok_def never_raises_def)
  obtain xs where q': "q = Inr ()" and xs: "future_results ?ds = Inr xs"
    and s2: "en_completed s2 = en_completed s1 @ sort_key fst xs"
  proof (rule resolve_effect [OF ok1 ds q])
    assume "quiet cb \<and> (\<forall>(n, q) \<in> set ?ds. \<exists>x. q = Inr x) \<Longrightarrow> False"
    then show thesis using cb total by blast
  next
    fix xs es
    assume "q = Inr ()" and "future_results ?ds = Inr xs"
      and "s2 = s1\<lparr>en_completed := en_completed s1 @ sort_key fst xs, en_events := es,
        en_running := filter (\<lambda>run. fst run \<notin> set (map fst ?ds)) (en_running s1)\<rparr>"
    then show thesis by (intro that [of xs]) simp_all
  qed
  have "length xs = length ?ds" using future_results_Inr [OF xs] by (metis length_map)
  with ds running have "xs \<noteq> []" by (auto simp: done_ok_def)
  then have "length (en_completed s) < length (en_completed s2)" by (simp add: s2 c1)
  moreover have "engine_round pe prompts cb pick i s = (Inr (), s2)"
    using d q by (simp add: engine_round_def r q' asks_def bind_def)
  moreover have "engine_ok (dg_roles (pe_dag pe)) (pe_max_workers pe) prompts outcome s2"
    using resolve_ok [OF ok1 ds] q q' by blast
  ultimately show ?thesis by blast
qed

lemma completed_bound:
  assumes "engine_ok roles k prompts outcome s" and "keyed roles"
  shows "length (en_completed s) \<le> length roles"
proof -
  have "length (en_completed s) = card (fst ` set (en_completed s))"
    using engine_okD(4) [OF assms(1)] by (metis distinct_card length_map list.set_map)
  also have "\<dots> \<le> card (fst ` set roles)" using engine_okD(8) [OF assms(1)] by (intro card_mono) auto
  also have "\<dots> = length roles" using assms(2) by (metis distinct_card keyed_def length_map list.set_map)
  finally show ?thesis .
qed

lemma engine_loop_completes:
  assumes "keyed (dg_roles (pe_dag pe))" and "sound_graph (dg_roles (pe_dag pe))" and "1 \<le> pe_max_workers pe"
    and "quiet cb" and "never_raises outcome" and "pool_ok prompts outcome pick"
    and "engine_ok (dg_roles (pe_dag pe)) (pe_max_workers pe) prompts outcome s"
    and "length (dg_roles (pe_dag pe)) \<le> length (en_completed s) + fuel"
  shows "\<exists>s'. engine_loop pe prompts cb pick i fuel s = Some (Inr (en_completed s'), s') \<and>
    engine_ok (dg_roles (pe_dag pe)) (pe_max_workers pe) prompts outcome s' \<and> \<not> engine_busy s'"
  using assms(7,8)
proof (induction fuel arbitrary: i s)
  case 0
  have "\<not> engine_busy s"
  proof
    assume "engine_busy s"
    from engine_round_progress [OF assms(2-6) 0(1) this] completed_bound [OF _ assms(1)] 0(2)
    show False by fastforce
  qed
  with 0 show ?case by simp
next
  case (Suc fuel)
  show ?case
  proof (cases "engine_busy s")
    case True
    from engine_round_progress [OF assms(2-6) Suc.prems(1) True, of i] obtain s' where
      run: "engine_round pe prompts cb pick i s = (Inr (), s')"
      and ok: "engine_ok (dg_roles (pe_dag pe)) (pe_max_workers pe) prompts outcome s'"
      and more: "length (en_completed s) < length (en_completed s')" by blast
    from more Suc.prems(2) have "length (dg_roles (pe_dag pe)) \<le> length (en_completed s') + fuel" by linarith
    from Suc.IH [OF ok this, of "Suc i"] True run show ?thesis by simp
  qed (use Suc.prems in simp)
qed

text \<open>When the loop has ended, every role has its result.\<close>

lemma idle_complete:
  assumes "engine_ok roles k prompts outcome s" and "\<not> engine_busy s"
  shows "fst ` set (en_completed s) = fst ` set roles"
  using engine_okD(8) [OF assms(1)] assms(2) by (simp add: engine_busy_def)

end
