(* ===== verification/Role_Claims.thy ===== *)
theory Role_Claims
  imports Role_Engine_Props
begin

text \<open>The properties of the role graph and of the engine that runs it.\<close>

subsection \<open>One role after the other\<close>

text \<open>The reference: the handler is called for one role after the other, on the results so far.\<close>

definition run_in_order :: "(string \<Rightarrow> string \<Rightarrow> 'x snapshot \<Rightarrow> 'x) \<Rightarrow> (string \<Rightarrow> string) \<Rightarrow> string list \<Rightarrow> 'x snapshot" where
  "run_in_order h prompts ns = fold (\<lambda>n acc. acc @ [(n, h n (prompts n) acc)]) ns []"

text \<open>A handler that reads the results of the dependencies of its role and no others.\<close>

definition reads_deps :: "role_table \<Rightarrow> (string \<Rightarrow> string \<Rightarrow> 'x snapshot \<Rightarrow> 'x) \<Rightarrow> bool" where
  "reads_deps roles h \<longleftrightarrow> (\<forall>n p c c'. (\<forall>d \<in> set (deps_of roles n). map_of c d = map_of c' d) \<longrightarrow> h n p c = h n p c')"

definition handler_outcome :: "(string \<Rightarrow> string \<Rightarrow> 'x snapshot \<Rightarrow> 'x) \<Rightarrow> 'x outcome" where
  "handler_outcome h n p c r \<longleftrightarrow> r = Inr (h n p c)"

text \<open>What both have in common: the result of each role is the handler's on the results of its dependencies.\<close>

definition consistent :: "role_table \<Rightarrow> (string \<Rightarrow> string \<Rightarrow> 'x snapshot \<Rightarrow> 'x) \<Rightarrow> (string \<Rightarrow> string) \<Rightarrow> string set \<Rightarrow> 'x snapshot \<Rightarrow> bool" where
  "consistent roles h prompts N m \<longleftrightarrow> fst ` set m = N \<and> (\<forall>n \<in> N. map_of m n = Some (h n (prompts n) m))"

lemma finite_dep_rel: "finite (dep_rel roles)"
proof (rule finite_subset)
  show "dep_rel roles \<subseteq> (\<Union>n \<in> fst ` set roles. set (deps_of roles n) \<times> {n})"
    unfolding dep_rel_def using deps_of_absent by fastforce
qed simp

lemma consistent_unique:
  assumes "sound_graph roles" and "reads_deps roles h"
    and m: "consistent roles h prompts (fst ` set roles) m" and m': "consistent roles h prompts (fst ` set roles) m'"
  shows "map_of m = map_of m'"
proof
  fix n
  have "wf (dep_rel roles)" using assms(1) finite_dep_rel by (auto simp: sound_graph_def intro: finite_acyclic_wf)
  then show "map_of m n = map_of m' n"
  proof (induction n rule: wf_induct_rule)
    case (less n)
    show ?case
    proof (cases "n \<in> fst ` set roles")
      case True
      have "h n (prompts n) m = h n (prompts n) m'"
        using assms(2) less by (auto simp: reads_deps_def dep_rel_def)
      with True m m' show ?thesis unfolding consistent_def by metis
    next
      case False
      then have "n \<notin> fst ` set m" "n \<notin> fst ` set m'" using m m' by (simp_all add: consistent_def)
      then show ?thesis by (metis map_of_eq_None_iff)
    qed
  qed
qed

lemma run_in_order_snoc: "run_in_order h prompts (ns @ [n])
    = run_in_order h prompts ns @ [(n, h n (prompts n) (run_in_order h prompts ns))]"
  by (simp add: run_in_order_def)

lemma run_in_order_names: "map fst (run_in_order h prompts ns) = ns"
  by (induction ns rule: rev_induct) (simp add: run_in_order_def, simp add: run_in_order_snoc)

lemma run_in_order_dom: "fst ` set (run_in_order h prompts ns) = set ns"
  using arg_cong [OF run_in_order_names [of h prompts ns], of set] by simp

lemma run_in_order_consistent:
  assumes "reads_deps roles h" and "distinct ns"
    and "\<forall>i < length ns. set (deps_of roles (ns ! i)) \<subseteq> set (take i ns)"
  shows "consistent roles h prompts (set ns) (run_in_order h prompts ns)"
  using assms(2,3)
proof (induction ns rule: rev_induct)
  case (snoc n ns)
  let ?m = "run_in_order h prompts ns" and ?m' = "run_in_order h prompts (ns @ [n])"
  have pre: "\<forall>i < length ns. set (deps_of roles (ns ! i)) \<subseteq> set (take i ns)"
  proof (intro allI impI)
    fix i assume "i < length ns"
    with snoc.prems(2) have "set (deps_of roles ((ns @ [n]) ! i)) \<subseteq> set (take i (ns @ [n]))" by simp
    with \<open>i < length ns\<close> show "set (deps_of roles (ns ! i)) \<subseteq> set (take i ns)" by (simp add: nth_append)
  qed
  with snoc have ih: "consistent roles h prompts (set ns) ?m" by simp
  note names = run_in_order_dom [of h prompts ns] run_in_order_dom [of h prompts "ns @ [n]"]
  have new: "n \<notin> set ns" using snoc.prems(1) by simp
  have same: "map_of ?m' d = map_of ?m d" if "d \<in> set ns" for d
  proof -
    have "map_of ?m d \<noteq> None" unfolding map_of_eq_None_iff names(1) using that by simp
    then obtain x where "map_of ?m d = Some x" by blast
    then show ?thesis by (simp add: run_in_order_snoc map_add_def)
  qed
  have deps: "set (deps_of roles m) \<subseteq> set ns" if "m \<in> set (ns @ [n])" for m
  proof -
    from that obtain i where i: "i < length (ns @ [n])" "(ns @ [n]) ! i = m" unfolding in_set_conv_nth by blast
    with snoc.prems(2) have "set (deps_of roles m) \<subseteq> set (take i (ns @ [n]))" by blast
    also have "\<dots> \<subseteq> set ns" using i(1) by (auto dest: in_set_takeD)
    finally show ?thesis .
  qed
  have read: "h m (prompts m) ?m' = h m (prompts m) ?m" if "m \<in> set (ns @ [n])" for m
    using assms(1) deps [OF that] same unfolding reads_deps_def by blast
  have "map_of ?m n = None" using new names(1) by (simp add: map_of_eq_None_iff)
  then have "map_of ?m' n = Some (h n (prompts n) ?m)" by (simp add: run_in_order_snoc map_add_def)
  with ih same read names(2) show ?case unfolding consistent_def by auto
qed (simp add: consistent_def run_in_order_def)

lemma layered_order:
  assumes "layered roles fin rem bs"
  shows "\<forall>i < length (concat bs). set (deps_of roles (concat bs ! i)) \<subseteq> fin \<union> set (take i (concat bs))"
  using assms
proof (induction roles fin rem bs rule: layered.induct)
  case (2 roles fin rem b bs)
  note l = layered_ConsD [OF "2.prems"]
  show ?case
  proof (intro allI impI)
    fix i assume i: "i < length (concat (b # bs))"
    show "set (deps_of roles (concat (b # bs) ! i)) \<subseteq> fin \<union> set (take i (concat (b # bs)))"
    proof (cases "i < length b")
      case True
      then have "b ! i \<in> set (layer roles fin rem)" using l(2) by (metis nth_mem)
      with True show ?thesis by (auto simp: nth_append layer_def)
    next
      case False
      with i have "i - length b < length (concat bs)" by simp
      with "2.IH" [OF l(3)] have "set (deps_of roles (concat bs ! (i - length b)))
          \<subseteq> fin \<union> set b \<union> set (take (i - length b) (concat bs))" by blast
      with False show ?thesis by (simp add: nth_append Un_assoc)
    qed
  qed
qed simp

lemma engine_consistent:
  assumes ok: "engine_ok roles k prompts (handler_outcome h) s" and "\<not> engine_busy s"
    and g: "sound_graph roles" and h: "reads_deps roles h"
  shows "consistent roles h prompts (fst ` set roles) (en_completed s)"
  unfolding consistent_def
proof (intro conjI ballI)
  let ?m = "en_completed s"
  show names: "fst ` set ?m = fst ` set roles" by (rule idle_complete [OF assms(1,2)])
  have one: "c = c'" if "(n, p, c) \<in> set (en_submitted s)" "(n, p, c') \<in> set (en_submitted s)" for n p c c'
    using engine_okD(1) [OF ok] that by (auto simp: calls_ok_def dest: eq_key_imp_eq_value)
  have res: "x = y" if "returned prompts (handler_outcome h) s n x" "returned prompts (handler_outcome h) s n y" for n x y
    using that one by (auto simp: returned_def handler_outcome_def)
  fix n assume n: "n \<in> fst ` set roles"
  then have "n \<in> fst ` set ?m" unfolding names .
  then obtain x where x: "(n, x) \<in> set ?m" by auto
  from engine_okD(12) [OF ok x] obtain c where c: "(n, prompts n, c) \<in> set (en_submitted s)" and hx: "x = h n (prompts n) c"
    by (auto simp: returned_def handler_outcome_def)
  have "map_of c d = map_of ?m d" if d: "d \<in> set (deps_of roles n)" for d
  proof -
    from engine_okD(1) [OF ok] c d obtain y where y: "map_of c d = Some y" "returned prompts (handler_outcome h) s d y"
      unfolding calls_ok_def by fastforce
    from g n d have "d \<in> fst ` set roles" by (auto simp: sound_graph_def plain_table_def)
    then have "d \<in> fst ` set ?m" unfolding names .
    then obtain z where z: "(d, z) \<in> set ?m" by auto
    with res [OF y(2) engine_okD(12) [OF ok z]] engine_okD(4) [OF ok] y(1) show ?thesis by simp
  qed
  with h have "h n (prompts n) c = h n (prompts n) ?m" by (auto simp: reads_deps_def)
  with x hx engine_okD(4) [OF ok] show "map_of ?m n = Some (h n (prompts n) ?m)" by simp
qed

subsection \<open>A concrete pipeline\<close>

text \<open>The standard graph with two workers; a role's result is its prompt and what its dependencies gave.\<close>

definition demo_handler :: "string \<Rightarrow> string \<Rightarrow> string snapshot \<Rightarrow> string" where
  "demo_handler n p c = p @ concat (map (\<lambda>d. case map_of c d of Some x \<Rightarrow> x | None \<Rightarrow> [])
     (deps_of (dg_roles build_mts_dag) n))"

definition demo_prompts :: "(string \<times> string) list" where
  "demo_prompts = map (\<lambda>n. (n, take 2 n)) (dg_names build_mts_dag)"

text \<open>The pool finishes the role that it started last.\<close>

definition demo_pool :: "string pool" where
  "demo_pool i s = (case rev (en_running s) of [] \<Rightarrow> []
     | (n, c) # _ \<Rightarrow> [(n, Inr (demo_handler n (prompt_of demo_prompts n) c))])"

definition demo_engine :: pipeline_engine where
  "demo_engine = \<lparr>pe_dag = build_mts_dag, pe_max_workers = 2\<rparr>"

lemma demo_pool_ok: "pool_ok (prompt_of demo_prompts) (handler_outcome demo_handler) demo_pool"
  unfolding pool_ok_def
proof (intro allI impI)
  fix i and s :: "string engine" assume "en_running s \<noteq> []"
  then obtain n c rest where r: "rev (en_running s) = (n, c) # rest" by (cases "rev (en_running s)") auto
  then have "(n, c) \<in> set (rev (en_running s))" by simp
  with r show "done_ok (prompt_of demo_prompts) (handler_outcome demo_handler) s (demo_pool i s)"
    by (auto simp: done_ok_def demo_pool_def handler_outcome_def)
qed

lemma demo_reads_deps: "reads_deps (dg_roles build_mts_dag) demo_handler"
proof -
  have "map (\<lambda>d. case map_of c d of Some x \<Rightarrow> x | None \<Rightarrow> []) ds = map (\<lambda>d. case map_of c' d of Some x \<Rightarrow> x | None \<Rightarrow> []) ds"
    if "\<forall>d \<in> set ds. map_of c d = map_of c' d" for ds :: "string list" and c c' :: "string snapshot"
    using that by (induction ds) simp_all
  then show ?thesis unfolding reads_deps_def demo_handler_def by metis
qed

lemma demo_dag: "validate_dag build_mts_dag = Inr ()"
    "execution_batches build_mts_dag = Inr [[''competitor''], [''translator''], [''analyst'', ''architect''], [''coach'']]"
  by code_simp+

lemma demo_dag_ok: "dag_ok build_mts_dag"
  unfolding build_mts_dag_def by (rule dag_ok_new)

lemma execute_run:
  assumes "validate_dag (pe_dag pe) = Inr ()"
  shows "execute_pipeline pe prompts cb pick fuel
    = engine_loop pe (prompt_of prompts) cb pick 0 fuel (engine_start (dg_roles (pe_dag pe)))"
  using assms by (simp add: execute_pipeline_def)

text \<open>Where a run of a valid graph ends.\<close>

lemma execute_ends:
  assumes "dag_ok d" and "validate_dag d = Inr ()" and "create_engine d k = Inr pe"
    and "quiet cb" and "never_raises outcome" and "pool_ok (prompt_of prompts) outcome pick"
    and "length (dg_roles d) \<le> fuel"
  obtains s where "execute_pipeline pe prompts cb pick fuel = Some (Inr (en_completed s), s)"
    and "engine_ok (dg_roles d) k (prompt_of prompts) outcome s" and "\<not> engine_busy s" and "sound_graph (dg_roles d)"
proof -
  from assms(3) have pe: "pe_dag pe = d" "pe_max_workers pe = k" "1 \<le> k"
    by (auto simp: create_engine_def split: if_splits)
  have k: "keyed (dg_roles (pe_dag pe))" using assms(1) pe by (simp add: dag_ok_def)
  have g: "sound_graph (dg_roles (pe_dag pe))" using validate_iff [OF assms(1)] assms(2) pe by simp
  have w: "1 \<le> pe_max_workers pe" "0 \<le> pe_max_workers pe" using pe by simp_all
  have "length (dg_roles (pe_dag pe)) \<le> length (en_completed (engine_start (dg_roles (pe_dag pe)) :: 'a engine)) + fuel"
    using assms(7) pe by (simp add: engine_start_def)
  from engine_loop_completes [OF k g w(1) assms(4-6) engine_ok_start [OF k w(2)] this, of 0]
  obtain s where "engine_loop pe (prompt_of prompts) cb pick 0 fuel (engine_start (dg_roles (pe_dag pe)))
      = Some (Inr (en_completed s), s)"
    and "engine_ok (dg_roles (pe_dag pe)) (pe_max_workers pe) (prompt_of prompts) outcome s"
    and "\<not> engine_busy s" by blast
  with that [of s] g show thesis
    using execute_run [of pe prompts cb pick fuel] assms(2) unfolding pe by simp
qed

subsection \<open>Properties\<close>

text \<open>
  C35. The execution batches of a role graph exist exactly when no role lists an unknown
  dependency or lists one twice and the dependencies have no cycle. They then contain every role
  once, each batch in the order of the names, every role after all its dependencies and in the
  earliest batch possible. (A repeated entry alone makes the code report a cycle.)
\<close>

theorem role_batches:
  assumes "dag_ok d"
  shows "((\<exists>bs. execution_batches d = Inr bs) \<longleftrightarrow>
      (\<forall>n \<in> set (dg_names d). distinct (deps_of (dg_roles d) n) \<and> set (deps_of (dg_roles d) n) \<subseteq> set (dg_names d)) \<and>
      acyclic (dep_rel (dg_roles d))) \<and>
    (\<forall>bs. execution_batches d = Inr bs \<longrightarrow> distinct (concat bs) \<and> set (concat bs) = set (dg_names d) \<and>
      (\<forall>i < length bs. sorted (bs ! i) \<and> bs ! i \<noteq> [] \<and> (\<forall>n \<in> set (bs ! i).
        (\<forall>x \<in> set (deps_of (dg_roles d) n). \<exists>j < i. x \<in> set (bs ! j)) \<and>
        (0 < i \<longrightarrow> (\<exists>x \<in> set (deps_of (dg_roles d) n). x \<in> set (bs ! (i - 1)))))))"
proof (intro conjI allI impI)
  have names: "set (dg_names d) = fst ` set (dg_roles d)" using assms by (simp add: dag_ok_def)
  show "(\<exists>bs. execution_batches d = Inr bs) \<longleftrightarrow>
      (\<forall>n \<in> set (dg_names d). distinct (deps_of (dg_roles d) n) \<and> set (deps_of (dg_roles d) n) \<subseteq> set (dg_names d)) \<and>
      acyclic (dep_rel (dg_roles d))"
    unfolding execution_batches_iff [OF assms] names by (simp add: sound_graph_def plain_table_def)
  fix bs assume "execution_batches d = Inr bs"
  note l = execution_batches_layered [OF assms this]
  show "distinct (concat bs)" by (rule layered_distinct [OF l]) simp
  show all: "set (concat bs) = set (dg_names d)" using layered_set [OF l] by simp
  fix i assume i: "i < length bs"
  show "sorted (bs ! i)" "bs ! i \<noteq> []" using layered_sorted [OF l nth_mem [OF i]] by simp_all
  show "\<forall>n \<in> set (bs ! i). (\<forall>x \<in> set (deps_of (dg_roles d) n). \<exists>j < i. x \<in> set (bs ! j)) \<and>
      (0 < i \<longrightarrow> (\<exists>x \<in> set (deps_of (dg_roles d) n). x \<in> set (bs ! (i - 1))))"
  proof (intro ballI conjI impI)
    fix n assume n: "n \<in> set (bs ! i)"
    then have "n \<in> set (concat bs)" using i by auto
    then have "n \<in> set (remdups (dg_names d))" unfolding all by simp
    from layered_position [OF l this _ i n] show "\<exists>j < i. x \<in> set (bs ! j)" if "x \<in> set (deps_of (dg_roles d) n)" for x
      using that .
    assume "0 < i"
    from layered_greedy [OF l this i n] show "\<exists>x \<in> set (deps_of (dg_roles d) n). x \<in> set (bs ! (i - 1))" by blast
  qed
qed

lemma role_batches_witness:
  "acyclic (dep_rel (dg_roles build_mts_dag)) \<and> (\<exists>x \<in> set (deps_of (dg_roles build_mts_dag) ''architect'').
     x \<in> set ([[''competitor''], [''translator''], [''analyst'', ''architect''], [''coach'']] ! (2 - 1)))"
proof
  show "acyclic (dep_rel (dg_roles build_mts_dag))" using role_batches [OF demo_dag_ok] demo_dag(2) by blast
  from role_batches [OF demo_dag_ok, THEN conjunct2, rule_format, OF demo_dag(2), THEN conjunct2, THEN conjunct2,
      rule_format, of 2]
  show "\<exists>x \<in> set (deps_of (dg_roles build_mts_dag) ''architect'').
     x \<in> set ([[''competitor''], [''translator''], [''analyst'', ''architect''], [''coach'']] ! (2 - 1))" by simp
qed

text \<open>
  C36. A pipeline graph that is valid stays valid under every list of changes that the architect
  proposes. If all changes are processed, each is counted once, as applied or as skipped; the only
  exception that gets out is the \<open>TypeError\<close> for a dependency that is not a string. In the resulting
  graph a role can be added exactly when its name is new and its dependencies are distinct existing roles,
  and removed exactly when no role depends on it; otherwise the graph is unchanged.
\<close>

theorem dag_edits_safe:
  assumes "distinct (map rs_name roles)" and "validate_dag (new_dag roles) = Inr ()"
    and "apply_dag_changes cs (new_dag roles) = (r, d)"
  shows "validate_dag d = Inr () \<and>
    (case r of
       Inr (applied, skipped) \<Rightarrow> 0 \<le> applied \<and> 0 \<le> skipped \<and> applied + skipped = int (length cs)
     | Inl e \<Rightarrow> (\<exists>m. e = TypeError m) \<and> (\<exists>c \<in> set cs. \<exists>name deps. c = AddRole name deps \<and> plain_deps deps = None)) \<and>
    (\<forall>x. (fst (add_role x d) = Inr () \<longleftrightarrow> rs_name x \<notin> set (dg_names d) \<and> distinct (rs_depends_on x) \<and>
          set (rs_depends_on x) \<subseteq> set (dg_names d)) \<and>
       (fst (add_role x d) \<noteq> Inr () \<longrightarrow> snd (add_role x d) = d)) \<and>
    (\<forall>n. (fst (remove_role n d) = Inr () \<longleftrightarrow> n \<in> set (dg_names d) \<and> n \<notin> Domain (dep_rel (dg_roles d))) \<and>
       (fst (remove_role n d) \<noteq> Inr () \<longrightarrow> snd (remove_role n d) = d))"
proof -
  have start: "valid_dag (new_dag roles)" by (rule valid_new_dag [OF assms(1,2)])
  note ok = apply_dag_changes_valid [OF start assms(3)]
  then have v: "valid_dag d" by blast
  then have names: "set (dg_names d) = fst ` set (dg_roles d)" by (simp add: valid_dag_def dag_ok_def)
  have "\<forall>x. (fst (add_role x d) = Inr () \<longleftrightarrow> rs_name x \<notin> set (dg_names d) \<and> distinct (rs_depends_on x) \<and>
      set (rs_depends_on x) \<subseteq> set (dg_names d)) \<and> (fst (add_role x d) \<noteq> Inr () \<longrightarrow> snd (add_role x d) = d)"
  proof (intro allI conjI impI)
    fix x
    show "fst (add_role x d) = Inr () \<longleftrightarrow> rs_name x \<notin> set (dg_names d) \<and> distinct (rs_depends_on x) \<and>
        set (rs_depends_on x) \<subseteq> set (dg_names d)"
      unfolding add_role_effect(2) [OF v] addable_def names by blast
    assume "fst (add_role x d) \<noteq> Inr ()"
    then show "snd (add_role x d) = d" using add_role_raises [OF v, of x] by (cases "fst (add_role x d)") simp_all
  qed
  moreover have "\<forall>n. (fst (remove_role n d) = Inr () \<longleftrightarrow> n \<in> set (dg_names d) \<and> n \<notin> Domain (dep_rel (dg_roles d))) \<and>
      (fst (remove_role n d) \<noteq> Inr () \<longrightarrow> snd (remove_role n d) = d)"
  proof (intro allI conjI impI)
    fix n
    show "fst (remove_role n d) = Inr () \<longleftrightarrow> n \<in> set (dg_names d) \<and> n \<notin> Domain (dep_rel (dg_roles d))"
      unfolding remove_role_effect(2) removable_iff [OF v] names ..
    assume "fst (remove_role n d) \<noteq> Inr ()"
    then show "snd (remove_role n d) = d" using remove_role_effect(1,2) [of n d] by (metis snd_conv)
  qed
  ultimately show ?thesis using ok validate_valid [OF v] by blast
qed

lemma dag_edits_safe_witness:
  "validate_dag (snd (apply_dag_changes [RemoveRole ''architect'', AddRole ''critic'' [JStr ''analyst''],
     RemoveRole ''analyst'', AddRole ''judge'' [JStr ''coach'', JStr ''coach'']] feedback_dag)) = Inr ()"
proof -
  let ?cs = "[RemoveRole ''architect'', AddRole ''critic'' [JStr ''analyst''],
     RemoveRole ''analyst'', AddRole ''judge'' [JStr ''coach'', JStr ''coach'']]"
  obtain r d where run: "apply_dag_changes ?cs (new_dag (feedback_roles [])) = (r, d)" by (metis surj_pair)
  have "distinct (map rs_name (feedback_roles []))" and "validate_dag (new_dag (feedback_roles [])) = Inr ()"
    by code_simp+
  from dag_edits_safe [OF this run] run show ?thesis by (simp add: feedback_dag_def)
qed

text \<open>
  C34. Whatever the pool of workers decides and whatever the handlers return, at most
  \<open>max_workers\<close> roles run at a time, no role is handed to the handler twice, and the handler is called for a
  role with that role's own prompt and with the results that the handler itself returned for all the
  dependencies of the role.
\<close>

theorem pipeline_safe:
  assumes "dag_ok d" and "create_engine d k = Inr pe"
    and "reach (\<lambda>s. s = engine_start (dg_roles (pe_dag pe))) (engine_step pe prompts cb outcome) s"
  shows "int (length (en_running s)) \<le> k \<and> distinct (map fst (en_submitted s)) \<and>
    (\<forall>(n, p, c) \<in> set (en_submitted s). n \<in> set (dg_names d) \<and> p = prompts n \<and>
       (\<forall>x \<in> set (deps_of (dg_roles d) n). \<exists>y c'. map_of c x = Some y \<and>
          (x, prompts x, c') \<in> set (en_submitted s) \<and> outcome x (prompts x) c' (Inr y)))"
proof -
  from assms(2) have pe: "pe_dag pe = d" "pe_max_workers pe = k" "0 \<le> k"
    by (auto simp: create_engine_def split: if_splits)
  have "keyed (dg_roles (pe_dag pe)) \<and> 0 \<le> pe_max_workers pe" using assms(1) pe by (simp add: dag_ok_def)
  note ok = eng.reach_inv [OF assms(3) this]
  have names: "set (dg_names d) = fst ` set (dg_roles d)" using assms(1) by (simp add: dag_ok_def)
  from engine_okD(1,9) [OF ok] show ?thesis unfolding calls_ok_def returned_def pe names by blast
qed

lemma pipeline_safe_witness:
  "int (length (en_running (snd (dispatch_ready demo_engine (prompt_of demo_prompts) None
     (engine_start (dg_roles build_mts_dag) :: string engine))))) \<le> 2"
proof -
  let ?s = "engine_start (dg_roles build_mts_dag) :: string engine"
  let ?d = "dispatch_ready demo_engine (prompt_of demo_prompts) None ?s"
  have "create_engine build_mts_dag 2 = Inr demo_engine" by (simp add: create_engine_def demo_engine_def)
  moreover have "reach (\<lambda>s. s = engine_start (dg_roles (pe_dag demo_engine)))
      (engine_step demo_engine (prompt_of demo_prompts) None (handler_outcome demo_handler)) (snd ?d)"
    by (rule reach_step [OF reach_start, of _ ?s]) (simp_all add: demo_engine_def engine_step.intros(1) [of _ _ _ _ "fst ?d"])
  ultimately show ?thesis using pipeline_safe [OF demo_dag_ok] by blast
qed

text \<open>
  C11. The engine runs a valid graph to the end: if neither the handlers nor the callback raise, then
  whatever the pool decides the loop ends after at most as many rounds as there are roles, and every role
  has exactly one result.
\<close>

theorem pipeline_completes:
  assumes "dag_ok d" and "validate_dag d = Inr ()" and "create_engine d k = Inr pe"
    and "quiet cb" and "never_raises outcome" and "pool_ok (prompt_of prompts) outcome pick"
    and "length (dg_roles d) \<le> fuel"
  shows "\<exists>m s. execute_pipeline pe prompts cb pick fuel = Some (Inr m, s) \<and> distinct (map fst m) \<and>
    fst ` set m = set (dg_names d) \<and> en_running s = []"
proof -
  from execute_ends [OF assms] obtain s where
    "execute_pipeline pe prompts cb pick fuel = Some (Inr (en_completed s), s)"
    and ok: "engine_ok (dg_roles d) k (prompt_of prompts) outcome s" and idle: "\<not> engine_busy s" by metis
  moreover have "set (dg_names d) = fst ` set (dg_roles d)" using assms(1) by (simp add: dag_ok_def)
  ultimately show ?thesis
    using engine_okD(4) [OF ok] idle_complete [OF ok idle] idle by (auto simp: engine_busy_def)
qed

lemma demo_run:
  "build_mts_dag = pe_dag demo_engine" "create_engine build_mts_dag 2 = Inr demo_engine"
  "quiet None" "length (dg_roles build_mts_dag) \<le> 5" "never_raises (handler_outcome demo_handler)"
  by (simp_all add: demo_engine_def create_engine_def quiet_def never_raises_def handler_outcome_def) code_simp

lemma pipeline_completes_witness:
  "\<exists>m s. execute_pipeline demo_engine demo_prompts None demo_pool 5 = Some (Inr m, s) \<and> en_running s = []"
  using pipeline_completes [OF demo_dag_ok demo_dag(1) demo_run(2,3,5) demo_pool_ok demo_run(4)] by blast

text \<open>
  C6. The engine is deterministic up to the order of its results: if the handler reads only the
  results of a role's dependencies, every run, with any number of workers and any choice of the
  pool, gives each role the result that it has when the batches are run one role after the other.
\<close>

theorem pipeline_equals_batches:
  assumes "dag_ok d" and "validate_dag d = Inr ()" and "create_engine d k = Inr pe" and "quiet cb"
    and "reads_deps (dg_roles d) h" and "pool_ok (prompt_of prompts) (handler_outcome h) pick"
    and "length (dg_roles d) \<le> fuel" and "execution_batches d = Inr bs"
  shows "\<exists>m s. execute_pipeline pe prompts cb pick fuel = Some (Inr m, s) \<and>
    map_of m = map_of (run_in_order h (prompt_of prompts) (concat bs))"
proof -
  have "never_raises (handler_outcome h)" by (simp add: never_raises_def handler_outcome_def)
  from execute_ends [OF assms(1-4) this assms(6,7)] obtain s where
    run: "execute_pipeline pe prompts cb pick fuel = Some (Inr (en_completed s), s)"
    and ok: "engine_ok (dg_roles d) k (prompt_of prompts) (handler_outcome h) s" and idle: "\<not> engine_busy s"
    and g: "sound_graph (dg_roles d)" by metis
  note l = execution_batches_layered [OF assms(1,8)]
  have "set (concat bs) = fst ` set (dg_roles d)" using layered_set [OF l] assms(1) by (simp add: dag_ok_def)
  moreover have "consistent (dg_roles d) h (prompt_of prompts) (set (concat bs)) (run_in_order h (prompt_of prompts) (concat bs))"
    using layered_order [OF l] layered_distinct [OF l] by (intro run_in_order_consistent [OF assms(5)]) simp_all
  ultimately have "map_of (en_completed s) = map_of (run_in_order h (prompt_of prompts) (concat bs))"
    by (intro consistent_unique [OF g assms(5) engine_consistent [OF ok idle g assms(5)]]) simp
  with run show ?thesis by blast
qed

lemma pipeline_equals_batches_witness:
  "\<exists>m s. execute_pipeline demo_engine demo_prompts None demo_pool 5 = Some (Inr m, s) \<and>
     map_of m ''coach'' = Some ''coantrco''"
proof -
  from pipeline_equals_batches [OF demo_dag_ok demo_dag(1) demo_run(2,3) demo_reads_deps demo_pool_ok demo_run(4) demo_dag(2)]
  obtain m s where "execute_pipeline demo_engine demo_prompts None demo_pool 5 = Some (Inr m, s)"
    and m: "map_of m = map_of (run_in_order demo_handler (prompt_of demo_prompts)
      (concat [[''competitor''], [''translator''], [''analyst'', ''architect''], [''coach'']]))" by blast
  moreover have "map_of (run_in_order demo_handler (prompt_of demo_prompts)
      (concat [[''competitor''], [''translator''], [''analyst'', ''architect''], [''coach'']])) ''coach'' = Some ''coantrco''"
    by code_simp
  ultimately show ?thesis by simp
qed

end
