(* ===== verification/Versioned_Store.thy ===== *)
theory Versioned_Store
  imports Transition Effects "HOL-Library.List_Lexorder" "HOL-Library.Char_ord"
begin

text \<open>
  The versioned file store of \<^verbatim>\<open>harness/storage/versioned_store.py\<close>: writing a file archives
  its current content as a numbered version, rolling back restores the newest version.

  A directory is an association list from file names to contents. A file name is a plain one,
  without a separator; only the store writes into its directories. \<open>write_text_atomic\<close> replaces one file;
  decoding and encoding of the text are left out.
\<close>

type_synonym dir = "(string \<times> string) list"

record version_config =
  vc_max_versions :: int
  vc_dir_name :: string
  vc_prefix :: string
  vc_suffix :: string

definition default_config :: version_config where
  "default_config = \<lparr>vc_max_versions = 5, vc_dir_name = ''.versions'', vc_prefix = ''v'', vc_suffix = ''.txt''\<rparr>"

record file_store =
  fs_files :: dir
  fs_versions :: "(string list \<times> dir) list"  \<comment> \<open>the archive directories by their path under the root\<close>

definition versions_dir :: "version_config \<Rightarrow> string \<Rightarrow> string list" where
  "versions_dir vc name = (if vc_dir_name vc = ''.versions'' then [''.versions'', name] else [vc_dir_name vc])"

text \<open>Whether the glob pattern of the version files matches.\<close>

definition version_glob :: "version_config \<Rightarrow> string \<Rightarrow> bool" where
  "version_glob vc f \<longleftrightarrow> length (vc_prefix vc) + length (vc_suffix vc) \<le> length f \<and>
     take (length (vc_prefix vc)) f = vc_prefix vc \<and> drop (length f - length (vc_suffix vc)) f = vc_suffix vc"

text \<open>\<open>f"{num:04d}"\<close> of a number that is not negative\<close>

definition pad4 :: "nat \<Rightarrow> string" where
  "pad4 n = replicate (4 - length (nat_digits n)) CHR ''0'' @ nat_digits n"

definition version_path :: "version_config \<Rightarrow> nat \<Rightarrow> string" where
  "version_path vc n = vc_prefix vc @ pad4 n @ vc_suffix vc"

definition archive :: "file_store \<Rightarrow> string list \<Rightarrow> dir" where
  "archive fs d = (case map_of (fs_versions fs) d of Some files \<Rightarrow> files | None \<Rightarrow> [])"

text \<open>\<open>sorted(versions_dir.glob(...))\<close>\<close>

definition version_files :: "version_config \<Rightarrow> dir \<Rightarrow> string list" where
  "version_files vc files = sort (filter (version_glob vc) (map fst files))"

fun prune_files :: "int \<Rightarrow> string list \<Rightarrow> dir \<Rightarrow> dir" where
  "prune_files k [] files = files"
| "prune_files k (v # vs) files = (if int (length (v # vs)) > k then prune_files k vs (AList.delete v files) else files)"

definition prune :: "version_config \<Rightarrow> dir \<Rightarrow> dir" where
  "prune vc files = prune_files (vc_max_versions vc) (version_files vc files) files"

definition vs_write :: "version_config \<Rightarrow> string \<Rightarrow> string \<Rightarrow> file_store \<Rightarrow> file_store" where
  "vs_write vc name content fs =
     (let fs1 = (case map_of (fs_files fs) name of
          None \<Rightarrow> fs
        | Some existing \<Rightarrow>
            (let files = archive fs (versions_dir vc name);
                 next_num = length (version_files vc files) + 1
             in fs\<lparr>fs_versions := AList.update (versions_dir vc name)
                     (prune vc (AList.update (version_path vc next_num) existing files)) (fs_versions fs)\<rparr>))
      in fs1\<lparr>fs_files := AList.update name content (fs_files fs1)\<rparr>)"

definition vs_read :: "string \<Rightarrow> string \<Rightarrow> file_store \<Rightarrow> string" where
  "vs_read name dflt fs = (case map_of (fs_files fs) name of Some content \<Rightarrow> content | None \<Rightarrow> dflt)"

definition vs_rollback :: "version_config \<Rightarrow> string \<Rightarrow> file_store \<Rightarrow> bool \<times> file_store" where
  "vs_rollback vc name fs = (case map_of (fs_versions fs) (versions_dir vc name) of
       None \<Rightarrow> (False, fs)
     | Some files \<Rightarrow>
         (let versions = version_files vc files in
          if versions = [] then (False, fs)
          else let latest = last versions;
                   content = (case map_of files latest of Some x \<Rightarrow> x | None \<Rightarrow> [])
            in (True, fs\<lparr>fs_files := AList.update name content (fs_files fs),
                         fs_versions := AList.update (versions_dir vc name) (AList.delete latest files) (fs_versions fs)\<rparr>)))"

definition version_count :: "version_config \<Rightarrow> string \<Rightarrow> file_store \<Rightarrow> nat" where
  "version_count vc name fs = (case map_of (fs_versions fs) (versions_dir vc name) of
       None \<Rightarrow> 0 | Some files \<Rightarrow> length (filter (version_glob vc) (map fst files)))"

definition read_version :: "version_config \<Rightarrow> string \<Rightarrow> nat \<Rightarrow> file_store \<Rightarrow> string" where
  "read_version vc name n fs = (case map_of (archive fs (versions_dir vc name)) (version_path vc n) of
       Some content \<Rightarrow> content | None \<Rightarrow> [])"

subsection \<open>Version numbers and file names\<close>

definition digit :: "nat \<Rightarrow> char" where
  "digit n = char_of (48 + n)"

lemma nat_digits_step: "nat_digits n = (if n < 10 then [digit n] else nat_digits (n div 10) @ [digit (n mod 10)])"
  by (simp add: nat_digits.simps [of n] digit_def)

lemma pad4_digits:
  assumes "n < 10000"
  shows "pad4 n = [digit (n div 1000), digit (n div 100 mod 10), digit (n div 10 mod 10), digit (n mod 10)]"
proof -
  have d1: "nat_digits k = [digit k]" if "k < 10" for k using that by (simp add: nat_digits_step [of k])
  have d2: "nat_digits k = [digit (k div 10), digit (k mod 10)]" if "10 \<le> k" "k < 100" for k
    using that by (simp add: nat_digits_step [of k] d1)
  have d3: "nat_digits k = [digit (k div 100), digit (k div 10 mod 10), digit (k mod 10)]" if "100 \<le> k" "k < 1000" for k
    using that d2 [of "k div 10"] by (simp add: nat_digits_step [of k] div_mult2_eq [symmetric])
  have d4: "nat_digits k = [digit (k div 1000), digit (k div 100 mod 10), digit (k div 10 mod 10), digit (k mod 10)]"
    if "1000 \<le> k" "k < 10000" for k
    using that d3 [of "k div 10"] by (simp add: nat_digits_step [of k] div_mult2_eq [symmetric])
  have z: "digit 0 = CHR ''0''" by code_simp
  have rep: "replicate 3 c = [c, c, c]" "replicate 2 c = [c, c]" for c :: char
    by (simp_all add: numeral_3_eq_3 numeral_2_eq_2)
  consider "n < 10" | "10 \<le> n" "n < 100" | "100 \<le> n" "n < 1000" | "1000 \<le> n" by linarith
  then show ?thesis
  proof cases
    case 1 then show ?thesis by (simp add: pad4_def d1 z rep)
  next
    case 2 then show ?thesis by (simp add: pad4_def d2 z rep)
  next
    case 3 then show ?thesis by (simp add: pad4_def d3 z)
  next
    case 4 then show ?thesis using assms by (simp add: pad4_def d4)
  qed
qed

lemma digit_less: "a < 10 \<Longrightarrow> b < 10 \<Longrightarrow> digit a < digit b \<longleftrightarrow> a < b"
  by (simp add: digit_def less_char_def)

lemma digit_eq: "a < 10 \<Longrightarrow> b < 10 \<Longrightarrow> digit a = digit b \<longleftrightarrow> a = b"
  using digit_less [of a b] digit_less [of b a] by (metis less_irrefl linorder_neqE_nat)

lemma split_less:
  assumes "a < b"
  shows "a div 10 < b div 10 \<or> a div 10 = b div 10 \<and> a mod 10 < b mod (10::nat)"
proof -
  have "a div 10 \<le> b div 10" using assms by (intro div_le_mono) simp
  moreover have "a mod 10 < b mod 10" if "a div 10 = b div 10"
    using assms that div_mult_mod_eq [of a 10] div_mult_mod_eq [of b 10] by linarith
  ultimately show ?thesis by linarith
qed

lemma pad4_less:
  assumes "a < b" and "b < 10000"
  shows "pad4 a @ x < pad4 b @ y"
proof -
  have e: "k div 10 div 10 = k div 100" "k div 100 div 10 = k div 1000" for k :: nat
    by (simp_all add: div_mult2_eq [symmetric])
  have c: "a div 10 = b div 10 \<Longrightarrow> a div 100 = b div 100" "a div 100 = b div 100 \<Longrightarrow> a div 1000 = b div 1000"
    by (metis e(1), metis e(2))
  have "a div 1000 < b div 1000 \<or> a div 1000 = b div 1000 \<and>
      (a div 100 mod 10 < b div 100 mod 10 \<or> a div 100 mod 10 = b div 100 mod 10 \<and>
      (a div 10 mod 10 < b div 10 mod 10 \<or> a div 10 mod 10 = b div 10 mod 10 \<and> a mod 10 < b mod 10))"
    using split_less [OF assms(1)] split_less [of "a div 10" "b div 10"] split_less [of "a div 100" "b div 100"]
    unfolding e using c by metis
  then show ?thesis using assms by (auto simp: pad4_digits digit_less digit_eq)
qed

lemma prefix_less: "p @ (x :: string) < p @ y \<longleftrightarrow> x < y"
  by (induction p) simp_all

lemma version_path_less: "a < b \<Longrightarrow> b < 10000 \<Longrightarrow> version_path vc a < version_path vc b"
  by (simp add: version_path_def prefix_less pad4_less)

lemma glob_version_path: "version_glob vc (version_path vc n)"
  by (simp add: version_glob_def version_path_def)

end
