(* ===== verification/Versioned_Store_Claims.thy ===== *)
theory Versioned_Store_Claims
  imports Versioned_Store
begin

text \<open>
  What the archive of a file holds after any number of writes. An archive is described by its
  numbers and contents in ascending order (\<open>numbered\<close>); the file names sort in the same order as
  long as the numbers have four digits.
\<close>

definition numbered :: "version_config \<Rightarrow> (nat \<times> string) list \<Rightarrow> dir" where
  "numbered vc vs = map (\<lambda>(i, c). (version_path vc i, c)) vs"

definition ascending :: "(nat \<times> string) list \<Rightarrow> bool" where
  "ascending vs \<longleftrightarrow> sorted_wrt (<) (map fst vs) \<and> (\<forall>i \<in> set (map fst vs). i < 10000)"

lemma version_path_eq: "a < 10000 \<Longrightarrow> b < 10000 \<Longrightarrow> version_path vc a = version_path vc b \<longleftrightarrow> a = b"
  using version_path_less [of a b vc] version_path_less [of b a vc] by (metis less_irrefl linorder_neqE_nat)

lemma numbered_files:
  assumes "ascending vs"
  shows "version_files vc (numbered vc vs) = map (version_path vc \<circ> fst) vs"
proof -
  have "map fst (numbered vc vs) = map (version_path vc \<circ> fst) vs" by (auto simp: numbered_def)
  moreover have "sorted (map (version_path vc \<circ> fst) vs)"
    using assms by (induction vs) (auto simp: ascending_def intro: less_imp_le version_path_less)
  ultimately show ?thesis by (simp add: version_files_def glob_version_path sorted_sort_id)
qed

lemma numbered_lookup:
  assumes "ascending vs" and "i < 10000"
  shows "map_of (numbered vc vs) (version_path vc i) = map_of vs i"
  using assms by (induction vs) (auto simp: numbered_def ascending_def version_path_eq)

lemma numbered_append:
  assumes "ascending vs" and "i < 10000" and "\<forall>j \<in> set (map fst vs). j < i"
  shows "AList.update (version_path vc i) c (numbered vc vs) = numbered vc (vs @ [(i, c)])"
proof -
  have "version_path vc i \<notin> fst ` set (numbered vc vs)"
    using assms by (fastforce simp: numbered_def version_path_eq)
  then show ?thesis by (simp add: update_new_key) (simp add: numbered_def)
qed

lemma numbered_replace_last:
  assumes "ascending (vs @ [(i, c)])"
  shows "AList.update (version_path vc i) c' (numbered vc (vs @ [(i, c)])) = numbered vc (vs @ [(i, c')])"
  using assms by (induction vs) (auto simp: numbered_def ascending_def version_path_eq)

lemma numbered_delete:
  assumes "ascending (vs @ [(i, c)])"
  shows "AList.delete (version_path vc i) (numbered vc (vs @ [(i, c)])) = numbered vc vs"
  using assms by (induction vs) (auto simp: numbered_def ascending_def version_path_eq)

lemma prune_few:
  assumes "ascending vs" and "int (length vs) \<le> vc_max_versions vc"
  shows "prune vc (numbered vc vs) = numbered vc vs"
  using assms by (cases vs) (simp_all add: prune_def numbered_files)

lemma prune_one:
  assumes "ascending (v # vs)" and "int (length vs) = vc_max_versions vc"
  shows "prune vc (numbered vc (v # vs)) = numbered vc vs"
proof -
  have "version_path vc (fst v) \<notin> fst ` set (numbered vc vs)"
    using assms(1) by (fastforce simp: numbered_def ascending_def version_path_eq)
  then have "AList.delete (version_path vc (fst v)) (numbered vc (v # vs)) = numbered vc vs"
    by (cases v) (simp add: numbered_def)
  then show ?thesis
    using assms by (cases vs) (simp_all add: prune_def numbered_files)
qed

text \<open>What the archive should hold after writing \<open>cs\<close>, by the code: it keeps \<open>m\<close> versions.\<close>

definition archived :: "nat \<Rightarrow> string list \<Rightarrow> (nat \<times> string) list" where
  "archived m cs = (if length cs \<le> m + 1 then map (\<lambda>i. (i, cs ! (i - 1))) [1..<length cs]
     else map (\<lambda>i. (i, cs ! (i - 1))) [2..<m + 1] @ [(m + 1, cs ! (length cs - 2))])"

lemma ascending_archived: "1 \<le> m \<Longrightarrow> m < 9999 \<Longrightarrow> ascending (archived m cs)"
  by (auto simp: ascending_def archived_def comp_def sorted_wrt_append strict_sorted_iff)

definition writes :: "version_config \<Rightarrow> string \<Rightarrow> string list \<Rightarrow> file_store" where
  "writes vc name cs = fold (vs_write vc name) cs \<lparr>fs_files = [], fs_versions = []\<rparr>"

lemma writes_snoc: "writes vc name (cs @ [c]) = vs_write vc name c (writes vc name cs)"
  by (simp add: writes_def)

text \<open>The next state of the archive, once there is a current content \<open>x\<close>.\<close>

lemma archive_step:
  assumes "1 \<le> m" and "m < 9999" and "vc_max_versions vc = int m" and "cs \<noteq> []"
  shows "prune vc (AList.update (version_path vc (length (archived m cs) + 1)) (last cs) (numbered vc (archived m cs)))
    = numbered vc (archived m (cs @ [c]))"
proof -
  let ?n = "length cs"
  have last: "last cs = cs ! (?n - 1)" using assms(4) by (rule last_conv_nth)
  have ne: "1 \<le> ?n" using assms(4) by (cases cs) simp_all
  have up: "[1..<Suc ?n] = [1..<?n] @ [?n]" using assms(4) by (cases cs) simp_all
  have old: "map (\<lambda>i. (i, (cs @ [c]) ! (i - 1))) [j..<k] = map (\<lambda>i. (i, cs ! (i - 1))) [j..<k]" if "1 \<le> j" "k \<le> Suc ?n" for j k
    using that by (auto simp: nth_append)
  have "?n - 1 < ?n" using ne by linarith
  then have end1: "(cs @ [c]) ! (?n - 1) = last cs" by (simp add: nth_append last)
  consider (few) "?n \<le> m" | (full) "?n = m + 1" | (over) "m + 2 \<le> ?n" by linarith
  then show ?thesis
  proof cases
    case few
    have a: "archived m cs = map (\<lambda>i. (i, cs ! (i - 1))) [1..<?n]" using few by (simp add: archived_def)
    have b: "archived m (cs @ [c]) = archived m cs @ [(?n, last cs)]"
      using few ne end1 old [of 1 "?n"] unfolding a by (simp add: archived_def up)
    have len: "length (archived m cs) + 1 = ?n" unfolding a using ne by simp
    have "AList.update (version_path vc ?n) (last cs) (numbered vc (archived m cs)) = numbered vc (archived m (cs @ [c]))"
      unfolding b using few assms(2) by (intro numbered_append ascending_archived [OF assms(1,2)]) (auto simp: a)
    moreover have "prune vc (numbered vc (archived m (cs @ [c]))) = numbered vc (archived m (cs @ [c]))"
      using few len assms(3) by (intro prune_few ascending_archived [OF assms(1,2)]) (simp add: b)
    ultimately show ?thesis using len by simp
  next
    case full
    have up2: "[1..<m + 1] = 1 # [2..<m + 1]" using assms(1) by (simp add: upt_conv_Cons numeral_2_eq_2)
    have a: "archived m cs = (1, cs ! 0) # map (\<lambda>i. (i, cs ! (i - 1))) [2..<m + 1]"
      unfolding archived_def full up2 by simp
    have b: "archived m (cs @ [c]) = map (\<lambda>i. (i, cs ! (i - 1))) [2..<m + 1] @ [(m + 1, last cs)]"
      using full old [of 2 "m + 1"] by (simp add: archived_def last nth_append)
    have len: "length (archived m cs) = m" unfolding a using assms(1) by (simp del: upt_Suc)
    have "AList.update (version_path vc (m + 1)) (last cs) (numbered vc (archived m cs))
        = numbered vc ((1, cs ! 0) # archived m (cs @ [c]))"
      unfolding b using assms(1,2) a
      by (subst numbered_append [OF ascending_archived [OF assms(1,2)]]) auto
    moreover have "ascending ((1, cs ! 0) # archived m (cs @ [c]))"
      using ascending_archived [OF assms(1,2), of "cs @ [c]"] assms(1) by (auto simp: ascending_def b)
    then have "prune vc (numbered vc ((1, cs ! 0) # archived m (cs @ [c]))) = numbered vc (archived m (cs @ [c]))"
      using assms(1,3) by (intro prune_one) (simp_all add: b)
    ultimately show ?thesis using len by simp
  next
    case over
    have a: "archived m cs = map (\<lambda>i. (i, cs ! (i - 1))) [2..<m + 1] @ [(m + 1, cs ! (?n - 2))]"
      using over by (simp add: archived_def)
    have b: "archived m (cs @ [c]) = map (\<lambda>i. (i, cs ! (i - 1))) [2..<m + 1] @ [(m + 1, last cs)]"
      using over end1 old [of 2 "m + 1"] by (simp add: archived_def del: upt_Suc)
    have len: "length (archived m cs) = m" unfolding a using assms(1) by (simp del: upt_Suc)
    have "AList.update (version_path vc (m + 1)) (last cs) (numbered vc (archived m cs)) = numbered vc (archived m (cs @ [c]))"
      using ascending_archived [OF assms(1,2), of cs] unfolding a b by (rule numbered_replace_last)
    moreover have "prune vc (numbered vc (archived m (cs @ [c]))) = numbered vc (archived m (cs @ [c]))"
      using assms(1,3) by (intro prune_few ascending_archived [OF assms(1,2)]) (simp add: b)
    ultimately show ?thesis using len by simp
  qed
qed

lemma writes_state:
  assumes "1 \<le> m" and "m < 9999" and "vc_max_versions vc = int m" and "cs \<noteq> []"
  shows "fs_files (writes vc name cs) = [(name, last cs)]"
    and "archive (writes vc name cs) (versions_dir vc name) = numbered vc (archived m cs)"
proof -
  have "fs_files (writes vc name cs) = [(name, last cs)] \<and>
    archive (writes vc name cs) (versions_dir vc name) = numbered vc (archived m cs)"
    using assms(4)
  proof (induction cs rule: rev_induct)
    case (snoc c cs)
    show ?case
    proof (cases "cs = []")
      case True
      then show ?thesis by (simp add: writes_def vs_write_def archive_def archived_def numbered_def)
    next
      case False
      let ?d = "versions_dir vc name"
      from snoc.IH [OF False] have f: "fs_files (writes vc name cs) = [(name, last cs)]"
        and a: "archive (writes vc name cs) ?d = numbered vc (archived m cs)" by blast+
      have "length (version_files vc (numbered vc (archived m cs))) = length (archived m cs)"
        using numbered_files [OF ascending_archived [OF assms(1,2)]] by simp
      with archive_step [OF assms(1-3) False, of c] f a show ?thesis
        unfolding writes_snoc vs_write_def by (simp add: Let_def) (simp add: archive_def AList.update_conv')
    qed
  qed simp
  then show "fs_files (writes vc name cs) = [(name, last cs)]"
    and "archive (writes vc name cs) (versions_dir vc name) = numbered vc (archived m cs)" by blast+
qed

subsection \<open>Rolling back\<close>

fun rollbacks :: "version_config \<Rightarrow> string \<Rightarrow> nat \<Rightarrow> file_store \<Rightarrow> file_store" where
  "rollbacks vc name 0 fs = fs"
| "rollbacks vc name (Suc k) fs = snd (vs_rollback vc name (rollbacks vc name k fs))"

lemma rollback_step:
  assumes "archive fs (versions_dir vc name) = numbered vc (vs @ [(i, c)])" and "ascending (vs @ [(i, c)])"
  shows "fst (vs_rollback vc name fs)"
    and "archive (snd (vs_rollback vc name fs)) (versions_dir vc name) = numbered vc vs"
    and "vs_read name d (snd (vs_rollback vc name fs)) = c"
proof -
  let ?files = "numbered vc (vs @ [(i, c)])"
  have "i < 10000" using assms(2) by (simp add: ascending_def)
  have "i \<notin> fst ` set vs" using assms(2) by (auto simp: ascending_def sorted_wrt_append)
  then have "map_of vs i = None" unfolding map_of_eq_None_iff .
  then have "map_of (vs @ [(i, c)]) i = Some c" by (simp add: map_add_def)
  then have l: "map_of ?files (version_path vc i) = Some c" using numbered_lookup [OF assms(2) \<open>i < 10000\<close>] by simp
  have v: "version_files vc ?files = map (version_path vc \<circ> fst) vs @ [version_path vc i]"
    using numbered_files [OF assms(2)] by simp
  have "map_of (fs_versions fs) (versions_dir vc name) = Some ?files"
  proof (cases "map_of (fs_versions fs) (versions_dir vc name)")
    case None
    then show ?thesis using assms(1) by (simp add: archive_def numbered_def)
  next
    case (Some files)
    then show ?thesis using assms(1) by (simp add: archive_def)
  qed
  then have "vs_rollback vc name fs = (True, fs\<lparr>fs_files := AList.update name c (fs_files fs),
      fs_versions := AList.update (versions_dir vc name) (numbered vc vs) (fs_versions fs)\<rparr>)"
    using v l numbered_delete [OF assms(2)] by (simp add: vs_rollback_def Let_def)
  then show "fst (vs_rollback vc name fs)"
    and "archive (snd (vs_rollback vc name fs)) (versions_dir vc name) = numbered vc vs"
    and "vs_read name d (snd (vs_rollback vc name fs)) = c"
    by (simp_all add: archive_def vs_read_def AList.update_conv')
qed

lemma ascending_take: "ascending vs \<Longrightarrow> ascending (take k vs)"
  by (auto simp: ascending_def sorted_wrt_take simp flip: take_map dest!: subsetD [OF set_take_subset])

lemma rollbacks_state:
  assumes "archive fs (versions_dir vc name) = numbered vc vs" and "ascending vs" and "k \<le> length vs"
  shows "archive (rollbacks vc name k fs) (versions_dir vc name) = numbered vc (take (length vs - k) vs)"
    and "0 < k \<Longrightarrow> vs_read name d (rollbacks vc name k fs) = snd (vs ! (length vs - k))"
proof -
  have "archive (rollbacks vc name k fs) (versions_dir vc name) = numbered vc (take (length vs - k) vs) \<and>
    (0 < k \<longrightarrow> vs_read name d (rollbacks vc name k fs) = snd (vs ! (length vs - k)))"
    using assms(3)
  proof (induction k)
    case (Suc k)
    obtain i c where ic: "vs ! (length vs - Suc k) = (i, c)" by (cases "vs ! (length vs - Suc k)")
    have "take (length vs - k) vs = take (length vs - Suc k) vs @ [(i, c)]"
      using Suc.prems ic take_Suc_conv_app_nth [of "length vs - Suc k" vs] by (simp add: Suc_diff_Suc)
    with Suc rollback_step [of "rollbacks vc name k fs" vc name "take (length vs - Suc k) vs" i c]
      ascending_take [OF assms(2), of "length vs - k"] ic show ?case by simp
  qed (use assms(1) in simp)
  then show "archive (rollbacks vc name k fs) (versions_dir vc name) = numbered vc (take (length vs - k) vs)"
    and "0 < k \<Longrightarrow> vs_read name d (rollbacks vc name k fs) = snd (vs ! (length vs - k))" by blast+
qed

text \<open>
  C37. After writing a file \<open>n\<close> times, the archive holds the last \<open>n - 1\<close> contents as long as there are
  at most \<open>m = max_versions\<close> of them, and \<open>k\<close> rollbacks restore the content written \<open>k\<close> writes
  earlier. With more writes than that the code goes wrong: the number of the next version is one more than the
  number of the versions kept, so that every write after the first pruning overwrites the newest
  version. Two rollbacks then restore the content of the \<open>m\<close>-th write, however many came after it.
\<close>

theorem rollbacks_after_writes:
  assumes "1 \<le> m" and "m < 9999" and "vc_max_versions vc = int m" and "1 \<le> k"
    and "k \<le> min m (length cs - 1)"
  shows "version_count vc name (writes vc name cs) = min m (length cs - 1) \<and>
    vs_read name d (writes vc name cs) = last cs \<and>
    vs_read name d (rollbacks vc name k (writes vc name cs)) =
      (if length cs \<le> m + 1 then cs ! (length cs - 1 - k)
       else if k = 1 then cs ! (length cs - 2) else cs ! (m + 1 - k))"
proof -
  from assms(1,4,5) have ne: "cs \<noteq> []" by auto
  note st = writes_state [OF assms(1-3) ne, of name]
  note asc = ascending_archived [OF assms(1,2), of cs]
  have len: "length (archived m cs) = min m (length cs - 1)" using assms(1,4,5) by (auto simp: archived_def)
  have files: "map_of (fs_versions (writes vc name cs)) (versions_dir vc name) = Some (numbered vc (archived m cs))"
  proof (cases "map_of (fs_versions (writes vc name cs)) (versions_dir vc name)")
    case None
    with st(2) have "archived m cs = []" by (simp add: archive_def numbered_def)
    with len assms(4,5) show ?thesis by simp
  next
    case (Some files) then show ?thesis using st(2) by (simp add: archive_def)
  qed
  have "length (version_files vc (numbered vc (archived m cs))) = length (archived m cs)"
    using numbered_files [OF asc] by simp
  then have "version_count vc name (writes vc name cs) = min m (length cs - 1)"
    unfolding version_count_def files by (simp add: version_files_def len)
  moreover have "vs_read name d (writes vc name cs) = last cs" using st(1) by (simp add: vs_read_def)
  moreover have "snd (archived m cs ! (length (archived m cs) - k)) =
      (if length cs \<le> m + 1 then cs ! (length cs - 1 - k)
       else if k = 1 then cs ! (length cs - 2) else cs ! (m + 1 - k))"
    using assms(1,4,5) unfolding len by (auto simp: archived_def nth_append Suc_diff_le simp del: upt_Suc)
  ultimately show ?thesis
    using rollbacks_state(2) [OF st(2) asc, of k] assms(4,5) len by simp
qed

lemma rollbacks_after_writes_witness:
  "vs_read ''p'' [] (rollbacks (default_config\<lparr>vc_max_versions := 2\<rparr>) ''p'' 2
     (writes (default_config\<lparr>vc_max_versions := 2\<rparr>) ''p'' [''a'', ''b'', ''c'', ''d'', ''e'', ''f''])) = ''b''"
  using rollbacks_after_writes [of 2 "default_config\<lparr>vc_max_versions := 2\<rparr>" 2
    "[''a'', ''b'', ''c'', ''d'', ''e'', ''f'']" "''p''" "[]"] by simp

end
