(* ===== verification/Pareto.thy ===== *)
theory Pareto
  imports Prelude
begin

text \<open>
  The Pareto frontier of \<^verbatim>\<open>harness/optimizer/pareto.py\<close>: candidates with scores for several
  objectives, of which the frontier keeps those that no other one dominates.

  Scores have a linearly ordered type \<open>'f\<close> with a zero: a score that is not a number is outside the
  model. Merged scores need addition and division by two as well.
\<close>

record side_info =
  asi_example_id :: string
  asi_outcome :: string
  asi_diagnosis :: string
  asi_suggested_fix :: string
  asi_metadata :: dict

definition side_info_to_dict :: "side_info \<Rightarrow> dict" where
  "side_info_to_dict a = [(''example_id'', JStr (asi_example_id a)), (''outcome'', JStr (asi_outcome a)),
     (''diagnosis'', JStr (asi_diagnosis a)), (''suggested_fix'', JStr (asi_suggested_fix a)), (''metadata'', JObj (asi_metadata a))]"

record objective =
  ob_name :: string
  ob_direction :: string

definition is_better :: "objective \<Rightarrow> 'f::linorder \<Rightarrow> 'f \<Rightarrow> bool" where
  "is_better o1 a b = (if ob_direction o1 = ''maximize'' then a > b else a < b)"

record 'f candidate =
  ca_id :: string
  ca_artifact :: string
  ca_scores :: "(string \<times> 'f) list"
  ca_asi :: "side_info list"
  ca_metadata :: dict

definition score_of :: "string \<Rightarrow> 'f candidate \<Rightarrow> 'f::zero" where
  "score_of name c = (case map_of (ca_scores c) name of Some x \<Rightarrow> x | None \<Rightarrow> 0)"

text \<open>The loop with the flag \<open>strictly_better\<close>; a better score of the other candidate ends it.\<close>

fun dominates_loop :: "'f::{linorder,zero} candidate \<Rightarrow> 'f candidate \<Rightarrow> objective list \<Rightarrow> bool \<Rightarrow> bool" where
  "dominates_loop c d [] strictly_better = strictly_better"
| "dominates_loop c d (ob # obs) strictly_better =
     (if is_better ob (score_of (ob_name ob) c) (score_of (ob_name ob) d)
      then dominates_loop c d obs True
      else if is_better ob (score_of (ob_name ob) d) (score_of (ob_name ob) c) then False
      else dominates_loop c d obs strictly_better)"

definition dominates :: "objective list \<Rightarrow> 'f::{linorder,zero} candidate \<Rightarrow> 'f candidate \<Rightarrow> bool" where
  "dominates obs c d = dominates_loop c d obs False"

record 'f frontier =
  pf_objectives :: "objective list"
  pf_candidates :: "'f candidate list"

definition new_frontier :: "objective list \<Rightarrow> 'f frontier" where
  "new_frontier obs = \<lparr>pf_objectives = obs, pf_candidates = []\<rparr>"

definition pareto_add :: "'f::{linorder,zero} candidate \<Rightarrow> 'f frontier \<Rightarrow> bool \<times> 'f frontier" where
  "pareto_add c fr =
     (if list_ex (\<lambda>d. dominates (pf_objectives fr) d c) (pf_candidates fr) then (False, fr)
      else (True, fr\<lparr>pf_candidates :=
        filter (\<lambda>d. \<not> dominates (pf_objectives fr) c d) (pf_candidates fr) @ [c]\<rparr>))"

text \<open>Python's \<open>max\<close> keeps the first of several best; comparing negated scores is comparing them the other way.\<close>

fun max_by :: "('a \<Rightarrow> 'a \<Rightarrow> bool) \<Rightarrow> 'a \<Rightarrow> 'a list \<Rightarrow> 'a" where
  "max_by better b [] = b"
| "max_by better b (c # cs) = max_by better (if better c b then c else b) cs"

definition best_for :: "string \<Rightarrow> 'f::{linorder,zero} frontier \<Rightarrow> 'f candidate option" where
  "best_for name fr = (case pf_candidates fr of
       [] \<Rightarrow> None
     | c # cs \<Rightarrow> (case find (\<lambda>ob. ob_name ob = name) (pf_objectives fr) of
         None \<Rightarrow> None
       | Some ob \<Rightarrow> Some (max_by (\<lambda>x y. is_better ob (score_of name x) (score_of name y)) c cs)))"

text \<open>The merged scores; Python leaves the order of the keys open, here those of \<open>a\<close> come first.\<close>

definition merge_scores :: "(string \<times> 'f::linordered_field) list \<Rightarrow> (string \<times> 'f) list \<Rightarrow> (string \<times> 'f) list" where
  "merge_scores xs ys = map (\<lambda>k. (k, case (map_of xs k, map_of ys k) of
       (Some x, Some y) \<Rightarrow> (x + y) / 2 | (Some x, None) \<Rightarrow> x / 1 | (None, Some y) \<Rightarrow> y / 1 | (None, None) \<Rightarrow> 0))
     (remdups (map fst xs @ filter (\<lambda>k. k \<notin> set (map fst xs)) (map fst ys)))"

definition merge_candidates :: "'f::linordered_field candidate \<Rightarrow> 'f candidate \<Rightarrow> world \<Rightarrow> 'f candidate \<times> world" where
  "merge_candidates a b w = (let (u, w1) = uuid_hex 8 w in
     (\<lparr>ca_id = ''merged-'' @ u, ca_artifact = ca_artifact a @ [CHR 0x0A, CHR 0x0A] @ ca_artifact b,
       ca_scores = merge_scores (ca_scores a) (ca_scores b), ca_asi = ca_asi a @ ca_asi b,
       ca_metadata = [(''merged_from'', JList [JStr (ca_id a), JStr (ca_id b)])]\<rparr>, w1))"

subsection \<open>Keeping the maximal elements of a strict order\<close>

locale strict_dominance =
  fixes dom :: "'a \<Rightarrow> 'a \<Rightarrow> bool"
  assumes dom_irrefl: "\<not> dom x x"
    and dom_trans: "dom x y \<Longrightarrow> dom y z \<Longrightarrow> dom x z"
begin

text \<open>\<open>frontier_of xs ys\<close>: \<open>ys\<close> are exactly the elements of \<open>xs\<close> that no element of \<open>xs\<close> dominates.\<close>

definition frontier_of :: "'a set \<Rightarrow> 'a list \<Rightarrow> bool" where
  "frontier_of xs ys \<longleftrightarrow> set ys \<subseteq> xs \<and> (\<forall>x \<in> set ys. \<forall>y \<in> set ys. \<not> dom x y) \<and>
     (\<forall>x \<in> xs. x \<in> set ys \<or> (\<exists>y \<in> set ys. dom y x))"

lemma frontier_of_iff: "frontier_of xs ys \<Longrightarrow> x \<in> set ys \<longleftrightarrow> x \<in> xs \<and> (\<forall>y \<in> xs. \<not> dom y x)"
  unfolding frontier_of_def by (meson dom_trans subsetD)

lemma frontier_of_reject:
  "frontier_of xs ys \<Longrightarrow> list_ex (\<lambda>d. dom d c) ys \<Longrightarrow> frontier_of (insert c xs) ys"
  unfolding frontier_of_def list_ex_iff by blast

lemma frontier_of_accept:
  assumes "frontier_of xs ys" and "\<not> list_ex (\<lambda>d. dom d c) ys"
  shows "frontier_of (insert c xs) (filter (\<lambda>d. \<not> dom c d) ys @ [c])"
  unfolding frontier_of_def
proof (intro conjI ballI)
  let ?zs = "filter (\<lambda>d. \<not> dom c d) ys @ [c]"
  show "set ?zs \<subseteq> insert c xs" using assms(1) by (auto simp: frontier_of_def)
  fix x assume x: "x \<in> set ?zs"
  fix y assume "y \<in> set ?zs"
  with x assms show "\<not> dom x y" by (auto simp: frontier_of_def list_ex_iff dom_irrefl)
next
  fix x assume x: "x \<in> insert c xs"
  let ?zs = "filter (\<lambda>d. \<not> dom c d) ys @ [c]"
  show "x \<in> set ?zs \<or> (\<exists>y \<in> set ?zs. dom y x)"
  proof (cases "x = c \<or> dom c x")
    case False
    with x assms(1) consider "x \<in> set ys" | y where "y \<in> set ys" "dom y x" by (auto simp: frontier_of_def)
    then show ?thesis
    proof cases
      case 2
      with False have "\<not> dom c y" using dom_trans by blast
      with 2 show ?thesis by auto
    qed (use False in auto)
  qed auto
qed

end

lemma is_better_asym: "is_better ob a b \<Longrightarrow> \<not> is_better ob b (a :: 'f::linorder)"
  by (auto simp: is_better_def split: if_splits)

lemma dominates_loop_iff:
  "dominates_loop c d obs b \<longleftrightarrow>
     (\<forall>ob \<in> set obs. \<not> is_better ob (score_of (ob_name ob) d) (score_of (ob_name ob) c)) \<and>
     (b \<or> (\<exists>ob \<in> set obs. is_better ob (score_of (ob_name ob) c) (score_of (ob_name ob) d)))"
  by (induction c d obs b rule: dominates_loop.induct) (auto dest: is_better_asym)

lemma dominates_iff:
  "dominates obs c d \<longleftrightarrow>
     (\<forall>ob \<in> set obs. \<not> is_better ob (score_of (ob_name ob) d) (score_of (ob_name ob) c)) \<and>
     (\<exists>ob \<in> set obs. is_better ob (score_of (ob_name ob) c) (score_of (ob_name ob) d))"
  by (simp add: dominates_def dominates_loop_iff)

lemma not_better_trans:
  "\<not> is_better ob b a \<Longrightarrow> \<not> is_better ob c b \<Longrightarrow> \<not> is_better ob c (a :: 'f::linorder)"
  "is_better ob a b \<Longrightarrow> \<not> is_better ob c b \<Longrightarrow> is_better ob a (c :: 'f::linorder)"
  by (auto simp: is_better_def)

interpretation par: strict_dominance "dominates obs" for obs :: "objective list"
proof
  show "\<not> dominates obs x x" for x by (simp add: dominates_iff is_better_def)
  show "dominates obs x z" if "dominates obs x y" "dominates obs y z" for x y z
    using that not_better_trans unfolding dominates_iff by meson
qed

definition offer_all :: "objective list \<Rightarrow> 'f::{linorder,zero} candidate list \<Rightarrow> 'f frontier" where
  "offer_all obs cs = fold (\<lambda>c fr. snd (pareto_add c fr)) cs (new_frontier obs)"

lemma offer_all_frontier:
  "pf_objectives (offer_all obs cs) = obs \<and> par.frontier_of obs (set cs) (pf_candidates (offer_all obs cs))"
proof (induction cs rule: rev_induct)
  case Nil
  then show ?case by (simp add: offer_all_def new_frontier_def par.frontier_of_def)
next
  case (snoc c cs)
  let ?fr = "offer_all obs cs"
  from snoc have o1: "pf_objectives ?fr = obs" and f: "par.frontier_of obs (set cs) (pf_candidates ?fr)" by blast+
  have "offer_all obs (cs @ [c]) = snd (pareto_add c ?fr)" by (simp add: offer_all_def)
  with par.frontier_of_reject [OF f, of c] par.frontier_of_accept [OF f, of c] o1 show ?case
    by (simp add: pareto_add_def)
qed

lemma max_by_best:
  assumes "\<And>x y z. \<not> better x y \<Longrightarrow> \<not> better y z \<Longrightarrow> \<not> better x z"
    and asym: "\<And>x y. better x y \<Longrightarrow> \<not> better y x"
  shows "max_by better b cs \<in> set (b # cs) \<and> (\<forall>x \<in> set (b # cs). \<not> better x (max_by better b cs))"
proof (induction cs arbitrary: b)
  case Nil
  show ?case using asym by auto
next
  case (Cons c cs)
  let ?b = "if better c b then c else b"
  from Cons [of ?b] have m: "max_by better ?b cs \<in> set (?b # cs)"
    and best: "\<forall>x \<in> set (?b # cs). \<not> better x (max_by better ?b cs)" by blast+
  have "\<not> better b ?b" "\<not> better c ?b" using asym by auto
  moreover have "\<not> better ?b (max_by better ?b cs)" using best by simp
  ultimately have "\<not> better b (max_by better ?b cs)" "\<not> better c (max_by better ?b cs)" using assms(1) by blast+
  with m best show ?case by (auto split: if_splits)
qed

text \<open>
  C38. Whatever candidates are offered to a Pareto frontier, in whatever order, it keeps exactly those
  that no offered candidate dominates, and reports an offer as accepted exactly when no candidate
  kept so far dominates it. The best candidate for an objective is one that no kept candidate, and no
  offered one either, beats on that objective.
\<close>

theorem pareto_frontier_exact:
  "(\<forall>c. c \<in> set (pf_candidates (offer_all obs cs)) \<longleftrightarrow> c \<in> set cs \<and> (\<forall>d \<in> set cs. \<not> dominates obs d c)) \<and>
   (\<forall>c. fst (pareto_add c (offer_all obs cs)) \<longleftrightarrow> (\<forall>d \<in> set cs. \<not> dominates obs d c)) \<and>
   (\<forall>ob. find (\<lambda>o1. ob_name o1 = ob_name ob) obs = Some ob \<longrightarrow> cs \<noteq> [] \<longrightarrow>
     (\<exists>c. best_for (ob_name ob) (offer_all obs cs) = Some c \<and> c \<in> set (pf_candidates (offer_all obs cs)) \<and>
       (\<forall>d \<in> set (pf_candidates (offer_all obs cs)).
          \<not> is_better ob (score_of (ob_name ob) d) (score_of (ob_name ob) c))))"
proof (intro conjI allI impI)
  let ?fr = "offer_all obs cs"
  note f = offer_all_frontier [of obs cs]
  show mem: "c \<in> set (pf_candidates ?fr) \<longleftrightarrow> c \<in> set cs \<and> (\<forall>d \<in> set cs. \<not> dominates obs d c)" for c
    using par.frontier_of_iff [of obs] f by blast
  have "(\<exists>d \<in> set (pf_candidates ?fr). dominates obs d c) \<longleftrightarrow> (\<exists>d \<in> set cs. dominates obs d c)" for c
    using f par.dom_trans unfolding par.frontier_of_def by (metis subsetD)
  then show "fst (pareto_add c ?fr) \<longleftrightarrow> (\<forall>d \<in> set cs. \<not> dominates obs d c)" for c
    using f by (auto simp: pareto_add_def list_ex_iff)
  fix ob assume ob: "find (\<lambda>o1. ob_name o1 = ob_name ob) obs = Some ob" and "cs \<noteq> []"
  then have "pf_candidates ?fr \<noteq> []" using f unfolding par.frontier_of_def by (metis empty_iff empty_set list.set_intros(1) neq_Nil_conv)
  then obtain b rest where b: "pf_candidates ?fr = b # rest" by (cases "pf_candidates ?fr") auto
  let ?better = "\<lambda>x y. is_better ob (score_of (ob_name ob) x :: 'a) (score_of (ob_name ob) y)"
  have "max_by ?better b rest \<in> set (b # rest) \<and> (\<forall>x \<in> set (b # rest). \<not> ?better x (max_by ?better b rest))"
    by (rule max_by_best) (use not_better_trans(1) is_better_asym in blast)+
  then show "\<exists>c. best_for (ob_name ob) ?fr = Some c \<and> c \<in> set (pf_candidates ?fr) \<and>
      (\<forall>d \<in> set (pf_candidates ?fr). \<not> is_better ob (score_of (ob_name ob) d) (score_of (ob_name ob) c))"
    using ob f b by (simp add: best_for_def)
qed

text \<open>Three candidates for a score to maximise and a cost to minimise; the second is beaten by the third.\<close>

definition demo_candidate :: "string \<Rightarrow> int \<Rightarrow> int \<Rightarrow> int candidate" where
  "demo_candidate n score cost = \<lparr>ca_id = n, ca_artifact = n, ca_scores = [(''score'', score), (''cost'', cost)],
     ca_asi = [], ca_metadata = []\<rparr>"

lemma pareto_frontier_exact_witness:
  "\<exists>c. best_for ''score'' (offer_all [\<lparr>ob_name = ''score'', ob_direction = ''maximize''\<rparr>, \<lparr>ob_name = ''cost'', ob_direction = ''minimize''\<rparr>]
      [demo_candidate ''a'' 1 1, demo_candidate ''b'' 2 5, demo_candidate ''c'' 2 3]) = Some c \<and>
    c \<in> set (pf_candidates (offer_all [\<lparr>ob_name = ''score'', ob_direction = ''maximize''\<rparr>, \<lparr>ob_name = ''cost'', ob_direction = ''minimize''\<rparr>]
      [demo_candidate ''a'' 1 1, demo_candidate ''b'' 2 5, demo_candidate ''c'' 2 3]))"
proof -
  let ?obs = "[\<lparr>ob_name = ''score'', ob_direction = ''maximize''\<rparr>, \<lparr>ob_name = ''cost'', ob_direction = ''minimize''\<rparr>]"
  let ?cs = "[demo_candidate ''a'' 1 1, demo_candidate ''b'' 2 5, demo_candidate ''c'' 2 3]"
  let ?ob = "\<lparr>ob_name = ''score'', ob_direction = ''maximize''\<rparr>"
  have "find (\<lambda>o1. ob_name o1 = ob_name ?ob) ?obs = Some ?ob" by simp
  with pareto_frontier_exact [where obs = ?obs and cs = ?cs] show ?thesis by fastforce
qed

end
