(* ===== verification/Remote_Types.thy ===== *)
theory Remote_Types
  imports Effects "HOL-Library.List_Lexorder" "HOL-Library.Char_ord"
begin

text \<open>
  The value types of remote execution (\<^verbatim>\<open>execution/remote_execution.py\<close>), their checks
  (\<^verbatim>\<open>execution/_remote_execution_validation.py\<close>) and the identity and provenance of a request
  (\<^verbatim>\<open>execution/_remote_execution_identity.py\<close>).

  A finite double is its exact value, a rational number; negative zero is the same as zero, as it is for the
  constructors, which normalise it. Bytes are strings. A \<open>frozenset\<close> of strings is a set. The
  fields that only have to be of a type (\<open>str\<close>, \<open>int\<close>, \<open>bool\<close>) are of that type here, so that the
  checks below are the ones on values. What the code uses of the standard library and of the interpreter is
  the parameter \<open>py\<close>: SHA-256, \<open>json.dumps\<close> with sorted keys, \<open>json.loads\<close>, base64,
  \<open>float(n)\<close> of an integer and \<open>int(text)\<close>.
\<close>

record stdlib =
  py_sha256 :: "string \<Rightarrow> string"             \<comment> \<open>hexadecimal digest of the bytes, or of the UTF-8 text\<close>
  py_dumps :: "json \<Rightarrow> string"                \<comment> \<open>canonical JSON text\<close>
  py_loads :: "string \<Rightarrow> json option"         \<comment> \<open>\<open>None\<close>: \<open>JSONDecodeError\<close>\<close>
  py_b64encode :: "string \<Rightarrow> string"
  py_b64decode :: "string \<Rightarrow> string option"   \<comment> \<open>\<open>None\<close>: \<open>binascii.Error\<close>\<close>
  py_float :: "int \<Rightarrow> rat option"             \<comment> \<open>\<open>None\<close>: \<open>OverflowError\<close>\<close>
  py_int :: "string \<Rightarrow> int option"            \<comment> \<open>\<open>None\<close>: \<open>ValueError\<close>\<close>
  py_neg_zero :: json                       \<comment> \<open>the double that is written \<open>-0.0\<close>\<close>

subsection \<open>Requests\<close>

record accelerator =
  acc_kind :: string
  acc_count :: int
  acc_memory_gb :: "rat option"

record remote_resources =
  rem_cpu_cores :: rat
  rem_memory_gb :: rat
  rem_disk_gb :: rat
  rem_accelerator :: "accelerator option"

record input_artifact =
  ina_name :: string
  ina_content :: string
  ina_media_type :: string

record secret_grant =
  gra_name :: string
  gra_id :: string
  gra_expires_at :: rat

record remote_request =
  rq_task_id :: string
  rq_image :: string
  rq_command :: string
  rq_resources :: remote_resources
  rq_timeout_seconds :: rat
  rq_network_policy :: string
  rq_secrets_policy :: string
  rq_secret_grants :: "secret_grant list"
  rq_input_artifacts :: "input_artifact list"
  rq_expected_outputs :: "string list"
  rq_lifecycle :: string
  rq_environment :: "(string \<times> string) list"
  rq_snapshot_id :: "string option"
  rq_max_reuse_tasks :: int
  rq_metadata :: "(string \<times> string) list"
  rq_region :: "string option"
  rq_required_telemetry :: "string set"
  rq_strict_task_identity :: bool

subsection \<open>Results\<close>

record output_artifact =
  oa_name :: string
  oa_content :: string
  oa_media_type :: string

record remote_event =
  rev_sequence :: int
  rev_type :: string
  rev_message :: string
  rev_fields :: dict

record resource_usage =
  usa_wall_seconds :: rat
  usa_cpu_seconds :: "rat option"
  usa_peak_memory_mb :: "rat option"
  usa_accelerator_seconds :: "rat option"
  usa_accelerator_peak_memory_mb :: "rat option"

record input_provenance =
  ipv_name :: string
  ipv_sha256 :: string
  ipv_size_bytes :: int
  ipv_media_type :: string

record resolved_environment =
  ren_image :: string
  ren_region :: string
  ren_accelerator_kind :: string
  ren_accelerator_count :: int
  ren_runtime :: string

record provenance =
  pv_image :: string
  pv_image_digest :: string
  pv_package_sha256 :: string
  pv_inputs :: "input_provenance list"
  pv_seed :: "int option"
  pv_fixture_digest :: string
  pv_fixture_state_sha256 :: string
  pv_fixture_observation_sha256 :: string
  pv_request_sha256 :: string
  pv_requested_region :: string
  pv_requested_accelerator_kind :: string
  pv_requested_accelerator_count :: int
  pv_requested_accelerator_memory_gb :: "rat option"
  pv_required_telemetry :: "string list"
  pv_resolved :: resolved_environment

record cleanup_outcome =
  clo_attempted :: bool
  clo_succeeded :: bool
  clo_resource_id :: string
  clo_detail :: string

record remote_result =
  rr_task_id :: string
  rr_provider :: string
  rr_status :: string
  rr_stdout :: string
  rr_stderr :: string
  rr_exit_code :: "int option"
  rr_artifacts :: "output_artifact list"
  rr_events :: "remote_event list"
  rr_usage :: resource_usage
  rr_cleanup :: cleanup_outcome
  rr_error :: string
  rr_session_id :: string
  rr_provenance :: provenance
  rr_retryable :: bool

record ledger_entry =
  lge_task_id :: string
  lge_provider :: string
  lge_status :: string
  lge_candidate_succeeded :: bool
  lge_infrastructure_succeeded :: bool
  lge_exit_code :: "int option"
  lge_usage :: resource_usage
  lge_cleanup :: cleanup_outcome
  lge_detail :: string
  lge_provenance :: provenance
  lge_retryable :: bool
  lge_attempt_id :: string

definition no_resolved_environment :: resolved_environment where
  "no_resolved_environment = \<lparr>ren_image = [], ren_region = [], ren_accelerator_kind = [],
     ren_accelerator_count = 0, ren_runtime = []\<rparr>"

definition execution_statuses :: "string list" where
  "execution_statuses = [''success'', ''timeout'', ''provider_error'', ''task_error'', ''artifact_error'', ''cleanup_error'']"

definition to_ledger_entry :: "remote_result \<Rightarrow> string \<Rightarrow> ledger_entry" where
  "to_ledger_entry r attempt_id =
     (let infrastructure_succeeded = (rr_status r \<notin> {''provider_error'', ''timeout'', ''artifact_error'', ''cleanup_error''} \<and>
        \<not> list_ex (\<lambda>e. rev_type e = ''provider_client_exit_error'') (rr_events r))
      in \<lparr>lge_task_id = rr_task_id r, lge_provider = rr_provider r, lge_status = rr_status r,
        lge_candidate_succeeded = (rr_status r = ''success''), lge_infrastructure_succeeded = infrastructure_succeeded,
        lge_exit_code = rr_exit_code r, lge_usage = rr_usage r, lge_cleanup = rr_cleanup r, lge_detail = rr_error r,
        lge_provenance = rr_provenance r, lge_retryable = rr_retryable r, lge_attempt_id = attempt_id\<rparr>)"

subsection \<open>Checks of the constructors\<close>

definition require_nonempty :: "string \<Rightarrow> string \<Rightarrow> unit res" where
  "require_nonempty label x = ensure (strip x \<noteq> []) (ValueError (label @ '' must be non-empty''))"

definition require_nonnegative :: "string \<Rightarrow> int \<Rightarrow> unit res" where
  "require_nonnegative label n = ensure (0 \<le> n) (ValueError (label @ '' must be non-negative''))"

definition is_sha256 :: "string \<Rightarrow> bool" where
  "is_sha256 x \<longleftrightarrow> length x = 64 \<and> list_all (\<lambda>c. c \<in> set ''0123456789abcdef'') x"

definition require_sha256 :: "string \<Rightarrow> string \<Rightarrow> unit res" where
  "require_sha256 label x = ensure (is_sha256 x) (ValueError (label @ '' must be a lowercase SHA-256 digest''))"

definition opt_all :: "('a \<Rightarrow> bool) \<Rightarrow> 'a option \<Rightarrow> bool" where
  "opt_all P x = (case x of None \<Rightarrow> True | Some y \<Rightarrow> P y)"

definition check_usage :: "resource_usage \<Rightarrow> unit res" where
  "check_usage u = ensure (0 \<le> usa_wall_seconds u \<and> opt_all ((\<le>) 0) (usa_cpu_seconds u) \<and>
     opt_all ((\<le>) 0) (usa_peak_memory_mb u) \<and> opt_all ((\<le>) 0) (usa_accelerator_seconds u) \<and>
     opt_all ((\<le>) 0) (usa_accelerator_peak_memory_mb u))
     (ValueError ''remote resource usage must be non-negative and finite'')"

definition check_input_provenance :: "input_provenance \<Rightarrow> unit res" where
  "check_input_provenance i =
     rbind (require_nonempty ''remote provenance input name'' (ipv_name i)) (\<lambda>_.
     rbind (require_sha256 ''remote provenance input sha256'' (ipv_sha256 i)) (\<lambda>_.
     rbind (require_nonnegative ''remote provenance input size_bytes'' (ipv_size_bytes i)) (\<lambda>_.
     require_nonempty ''remote provenance input media_type'' (ipv_media_type i))))"

definition check_resolved_environment :: "resolved_environment \<Rightarrow> unit res" where
  "check_resolved_environment e =
     require_nonnegative ''remote resolved environment accelerator_count'' (ren_accelerator_count e)"

fun require_all_nonempty :: "string \<Rightarrow> string list \<Rightarrow> unit res" where
  "require_all_nonempty label [] = Inr ()"
| "require_all_nonempty label (x # xs) = rbind (require_nonempty label x) (\<lambda>_. require_all_nonempty label xs)"

definition check_provenance :: "provenance \<Rightarrow> unit res" where
  "check_provenance p =
     rbind (require_nonnegative ''remote provenance requested_accelerator_count'' (pv_requested_accelerator_count p)) (\<lambda>_.
     rbind (ensure (opt_all ((<) 0) (pv_requested_accelerator_memory_gb p))
       (ValueError ''remote provenance requested_accelerator_memory_gb must be positive'')) (\<lambda>_.
     require_all_nonempty ''remote provenance required telemetry'' (pv_required_telemetry p)))"

definition check_event :: "remote_event \<Rightarrow> unit res" where
  "check_event e =
     rbind (require_nonnegative ''remote event sequence'' (rev_sequence e)) (\<lambda>_.
     require_nonempty ''remote event type'' (rev_type e))"

fun split_on :: "char \<Rightarrow> string \<Rightarrow> string list" where
  "split_on c [] = [[]]"
| "split_on c (x # xs) = (if x = c then [] # split_on c xs
     else (case split_on c xs of [] \<Rightarrow> [[x]] | y # ys \<Rightarrow> (x # y) # ys))"

definition validate_artifact_name :: "string \<Rightarrow> unit res" where
  "validate_artifact_name name =
     ensure (name \<noteq> [] \<and> take 1 name \<noteq> ''/'' \<and> ''..'' \<notin> set (split_on CHR ''/'' name))
       (ValueError (''artifact path must stay relative to the task root: '' @ py_repr name))"

definition check_output_artifact :: "output_artifact \<Rightarrow> unit res" where
  "check_output_artifact a =
     rbind (validate_artifact_name (oa_name a)) (\<lambda>_.
     ensure (strip (oa_media_type a) \<noteq> []) (ValueError ''remote output artifact media_type must be non-empty''))"

definition check_status :: "string \<Rightarrow> string \<Rightarrow> unit res" where
  "check_status label st = ensure (st \<in> set execution_statuses) (ValueError (''unsupported '' @ label @ '' '' @ py_repr st))"

definition check_result :: "remote_result \<Rightarrow> unit res" where
  "check_result r =
     rbind (require_nonempty ''remote result task_id'' (rr_task_id r)) (\<lambda>_.
     rbind (require_nonempty ''remote result provider'' (rr_provider r)) (\<lambda>_.
     rbind (check_status ''remote result status'' (rr_status r)) (\<lambda>_.
     rbind (ensure (rr_retryable r \<longrightarrow> rr_status r = ''provider_error'') (ValueError ''only provider errors may be retryable'')) (\<lambda>_.
     ensure (rr_retryable r \<longrightarrow> clo_attempted (rr_cleanup r) \<and> clo_succeeded (rr_cleanup r))
       (ValueError ''retryable remote errors require verified cleanup'')))))"

definition check_ledger_entry :: "ledger_entry \<Rightarrow> unit res" where
  "check_ledger_entry l =
     rbind (require_nonempty ''external evaluation ledger task_id'' (lge_task_id l)) (\<lambda>_.
     rbind (require_nonempty ''external evaluation ledger provider'' (lge_provider l)) (\<lambda>_.
     rbind (check_status ''external evaluation ledger status'' (lge_status l)) (\<lambda>_.
     if lge_attempt_id l \<noteq> [] then require_sha256 ''external evaluation ledger attempt_id'' (lge_attempt_id l) else Inr ())))"

subsection \<open>Checks of a request\<close>

definition check_accelerator :: "accelerator \<Rightarrow> unit res" where
  "check_accelerator a =
     rbind (ensure (strip (acc_kind a) \<noteq> [] \<and> 1 \<le> acc_count a)
       (ValueError ''accelerator kind must be non-empty and count must be positive'')) (\<lambda>_.
     ensure (opt_all ((<) 0) (acc_memory_gb a)) (ValueError ''accelerator memory must be positive and finite when supplied''))"

definition check_resources :: "remote_resources \<Rightarrow> unit res" where
  "check_resources r = ensure (0 < rem_cpu_cores r \<and> 0 < rem_memory_gb r \<and> 0 < rem_disk_gb r)
     (ValueError ''remote CPU, memory, and disk requests must be positive and finite'')"

definition check_secret_grant :: "secret_grant \<Rightarrow> unit res" where
  "check_secret_grant g = ensure (strip (gra_name g) \<noteq> [] \<and> strip (gra_id g) \<noteq> [])
     (ValueError ''secret grant name and id must be non-empty'')"

definition check_input_artifact :: "input_artifact \<Rightarrow> unit res" where
  "check_input_artifact a =
     rbind (validate_artifact_name (ina_name a)) (\<lambda>_.
     ensure (strip (ina_media_type a) \<noteq> []) (ValueError ''remote input artifact media_type must be non-empty''))"

text \<open>\<open>runtime_images.py\<close>: a name without white space, then the digest.\<close>

definition pinned_image :: "string \<Rightarrow> bool" where
  "pinned_image img = (let name = takeWhile (\<lambda>c. c \<noteq> CHR ''@'') img; rest = dropWhile (\<lambda>c. c \<noteq> CHR ''@'') img
     in name \<noteq> [] \<and> list_all (\<lambda>c. \<not> is_space c) name \<and> take 8 rest = ''@sha256:'' \<and> is_sha256 (drop 8 rest))"

definition telemetry_kinds :: "string set" where
  "telemetry_kinds = {''hardware_identity'', ''accelerator_usage'', ''accelerator_peak_memory''}"

definition check_requirements :: "remote_request \<Rightarrow> unit res" where
  "check_requirements q =
     rbind (ensure (strip (rq_image q) \<noteq> []) (ValueError ''remote execution image must be non-empty'')) (\<lambda>_.
     rbind (ensure (rem_accelerator (rq_resources q) = None \<or> pinned_image (rq_image q))
       (ValueError ''remote runtime image must use an immutable @sha256 digest'')) (\<lambda>_.
     rbind (ensure (opt_all (\<lambda>x. strip x \<noteq> []) (rq_region q))
       (ValueError ''remote execution region must be non-empty when supplied'')) (\<lambda>_.
     ensure (rq_required_telemetry q \<subseteq> telemetry_kinds)
       (ValueError (''unknown remote telemetry requirements: '' @ joined '', '' (sorted_list_of_set (rq_required_telemetry q - telemetry_kinds)))))))"

definition posix_name :: "string \<Rightarrow> bool" where
  "posix_name x = (case x of [] \<Rightarrow> False | c # cs \<Rightarrow>
     (let letters = ''ABCDEFGHIJKLMNOPQRSTUVWXYZabcdefghijklmnopqrstuvwxyz_''
      in c \<in> set letters \<and> list_all (\<lambda>d. d \<in> set letters \<or> d \<in> set ''0123456789'') cs))"

fun validate_artifact_names :: "string list \<Rightarrow> unit res" where
  "validate_artifact_names [] = Inr ()"
| "validate_artifact_names (x # xs) = rbind (validate_artifact_name x) (\<lambda>_. validate_artifact_names xs)"

text \<open>The checks of \<open>RemoteExecutionRequest\<close> up to the attestation of the prepared fixture.\<close>

definition check_request_shape :: "remote_request \<Rightarrow> unit res" where
  "check_request_shape q =
     rbind (ensure (strip (rq_task_id q) \<noteq> [] \<and> strip (rq_image q) \<noteq> [] \<and> strip (rq_command q) \<noteq> [])
       (ValueError ''remote task_id, image, and command must be non-empty'')) (\<lambda>_.
     rbind (check_requirements q) (\<lambda>_.
     rbind (ensure (0 < rq_timeout_seconds q \<and> 1 \<le> rq_max_reuse_tasks q)
       (ValueError ''remote timeout must be positive and finite and reuse bound must be positive'')) (\<lambda>_.
     rbind (ensure (rq_network_policy q \<in> {''deny'', ''allow''}) (ValueError (''unknown remote network policy: '' @ rq_network_policy q))) (\<lambda>_.
     rbind (ensure (rq_secrets_policy q \<in> {''deny'', ''scoped_grants''}) (ValueError (''unknown remote secrets policy: '' @ rq_secrets_policy q))) (\<lambda>_.
     rbind (ensure (rq_lifecycle q \<in> {''ephemeral_per_eval'', ''reuse_matched_trials'', ''warm_snapshot''})
       (ValueError (''unknown remote lifecycle policy: '' @ rq_lifecycle q))) (\<lambda>_.
     rbind (ensure (rq_secrets_policy q = ''deny'' \<longrightarrow> rq_secret_grants q = [])
       (ValueError (''secret grants require secrets_policy='' @ py_repr ''scoped_grants''))) (\<lambda>_.
     rbind (ensure (distinct (map ina_name (rq_input_artifacts q))) (ValueError ''remote input artifact names must be unique'')) (\<lambda>_.
     rbind (ensure (distinct (rq_expected_outputs q)) (ValueError ''remote expected output artifact names must be unique'')) (\<lambda>_.
     rbind (validate_artifact_names (rq_expected_outputs q)) (\<lambda>_.
     rbind (ensure (opt_all (\<lambda>x. strip x \<noteq> []) (rq_snapshot_id q)) (ValueError ''remote snapshot_id must be non-empty when supplied'')) (\<lambda>_.
     rbind (ensure (rq_lifecycle q = ''warm_snapshot'' \<longrightarrow> rq_snapshot_id q \<noteq> None) (ValueError ''warm_snapshot lifecycle requires snapshot_id'')) (\<lambda>_.
     rbind (ensure (list_all (posix_name \<circ> fst) (rq_environment q))
       (ValueError ''remote environment names must be POSIX identifiers and values must be strings'')) (\<lambda>_.
     ensure (list_all (\<lambda>(k, _). k \<noteq> []) (rq_metadata q))
       (ValueError ''remote metadata names and values must be strings with non-empty names''))))))))))))))"

end
