(* ===== verification/Remote_Identity.thy ===== *)
theory Remote_Identity
  imports Remote_Types
begin

text \<open>
  The identity and the provenance of a request, \<^verbatim>\<open>execution/_remote_execution_identity.py\<close>: what
  is hashed, and what a result must report to count as a result of the request.
\<close>

subsection \<open>Provenance\<close>

text \<open>The text after the last occurrence of the marker; the whole text when there is none.\<close>

fun after_last :: "string \<Rightarrow> string \<Rightarrow> string \<Rightarrow> string" where
  "after_last m [] found = found"
| "after_last m (c # cs) found =
     after_last m cs (if take (length m) (c # cs) = m then drop (length m) (c # cs) else found)"

fun has_substring :: "string \<Rightarrow> string \<Rightarrow> bool" where
  "has_substring m [] = (m = [])"
| "has_substring m (c # cs) = (take (length m) (c # cs) = m \<or> has_substring m cs)"

definition image_digest_of :: "string \<Rightarrow> string" where
  "image_digest_of img = (if has_substring ''@sha256:'' img then after_last ''@sha256:'' img img else [])"

definition fixture_keys :: "string list" where
  "fixture_keys = [''fixture_digest'', ''fixture_state_sha256'', ''fixture_observation_sha256'']"

fun fixture_values :: "(string \<times> string) list \<Rightarrow> string list \<Rightarrow> string list res" where
  "fixture_values md [] = Inr []"
| "fixture_values md (k # ks) = (case map_of md k of
       None \<Rightarrow> Inl (ValueError k)  \<comment> \<open>not reached: all keys are present\<close>
     | Some x \<Rightarrow> rbind (ensure (is_sha256 x) (ValueError (''prepared fixture provenance must use lowercase sha256 hex: '' @ k))) (\<lambda>_.
         rbind (fixture_values md ks) (\<lambda>xs. Inr (x # xs))))"

definition prepared_fixture_provenance :: "(string \<times> string) list \<Rightarrow> (string \<times> string \<times> string) res" where
  "prepared_fixture_provenance md =
     (let missing = filter (\<lambda>k. map_of md k = None) fixture_keys in
      if missing = fixture_keys then Inr ([], [], [])
      else if missing \<noteq> [] then Inl (ValueError (''prepared fixture provenance is incomplete; missing: '' @ joined '', '' missing))
      else rbind (fixture_values md fixture_keys) (\<lambda>xs. Inr (xs ! 0, xs ! 1, xs ! 2)))"

definition input_provenance_of :: "stdlib \<Rightarrow> input_artifact \<Rightarrow> input_provenance res" where
  "input_provenance_of py a =
     (let i = \<lparr>ipv_name = ina_name a, ipv_sha256 = py_sha256 py (ina_content a),
          ipv_size_bytes = int (length (ina_content a)), ipv_media_type = ina_media_type a\<rparr>
      in rbind (check_input_provenance i) (\<lambda>_. Inr i))"

definition or_default :: "string \<Rightarrow> string \<Rightarrow> string" where
  "or_default x y = (if x \<noteq> [] then x else y)"

subsection \<open>Identity\<close>

definition opt_json :: "('a \<Rightarrow> json) \<Rightarrow> 'a option \<Rightarrow> json" where
  "opt_json f x = (case x of None \<Rightarrow> JNull | Some y \<Rightarrow> f y)"

definition sorted_items :: "(string \<times> string) list \<Rightarrow> json" where
  "sorted_items d = JObj (map (\<lambda>(k, v). (k, JStr v)) (sort_key fst d))"

definition accelerator_payload :: "accelerator \<Rightarrow> json" where
  "accelerator_payload a = JObj [(''kind'', JStr (acc_kind a)), (''count'', JInt (acc_count a)),
     (''memory_gb'', opt_json JFloat (acc_memory_gb a))]"

definition resources_payload :: "remote_resources \<Rightarrow> json" where
  "resources_payload r = JObj [(''cpu_cores'', JFloat (rem_cpu_cores r)), (''memory_gb'', JFloat (rem_memory_gb r)),
     (''disk_gb'', JFloat (rem_disk_gb r)), (''accelerator'', opt_json accelerator_payload (rem_accelerator r))]"

definition request_identity_payload :: "stdlib \<Rightarrow> remote_request \<Rightarrow> dict" where
  "request_identity_payload py q =
     [(''task_id'', JStr (rq_task_id q)),
      (''image'', JStr (rq_image q)),
      (''command_sha256'', JStr (py_sha256 py (rq_command q))),
      (''resources'', resources_payload (rq_resources q)),
      (''region'', opt_json JStr (rq_region q)),
      (''required_telemetry'', JList (map JStr (sorted_list_of_set (rq_required_telemetry q)))),
      (''timeout_seconds'', JFloat (rq_timeout_seconds q)),
      (''network_policy'', JStr (rq_network_policy q)),
      (''secrets_policy'', JStr (rq_secrets_policy q)),
      (''secret_grants'', JList (map (\<lambda>g. JObj [(''name'', JStr (gra_name g)), (''grant_id'', JStr (gra_id g)),
          (''expires_at'', JFloat (gra_expires_at g))]) (rq_secret_grants q))),
      (''inputs'', JList (map (\<lambda>a. JObj [(''name'', JStr (ina_name a)), (''sha256'', JStr (py_sha256 py (ina_content a))),
          (''media_type'', JStr (ina_media_type a))]) (rq_input_artifacts q))),
      (''expected_outputs'', JList (map JStr (rq_expected_outputs q))),
      (''lifecycle'', JStr (rq_lifecycle q)),
      (''environment'', sorted_items (rq_environment q)),
      (''snapshot_id'', opt_json JStr (rq_snapshot_id q)),
      (''max_reuse_tasks'', JInt (rq_max_reuse_tasks q)),
      (''metadata'', sorted_items (rq_metadata q))]"

definition identity_payload_sha256 :: "stdlib \<Rightarrow> dict \<Rightarrow> string" where
  "identity_payload_sha256 py payload = py_sha256 py (py_dumps py (JObj payload))"

definition request_sha256 :: "stdlib \<Rightarrow> remote_request \<Rightarrow> string" where
  "request_sha256 py q = identity_payload_sha256 py (request_identity_payload py q)"

definition build_request_provenance :: "stdlib \<Rightarrow> remote_request \<Rightarrow> resolved_environment \<Rightarrow> provenance res" where
  "build_request_provenance py q resolved =
     rbind (map_res (input_provenance_of py) (rq_input_artifacts q)) (\<lambda>inputs.
      let packaged = (case find (\<lambda>i. ipv_name i = ''autocontext-scenario.pyz'') inputs of Some i \<Rightarrow> ipv_sha256 i | None \<Rightarrow> []);
          metadata_package = (case map_of (rq_metadata q) ''package_sha256'' of Some x \<Rightarrow> x | None \<Rightarrow> []);
          seed = (case map_of (rq_metadata q) ''seed'' of Some x \<Rightarrow> py_int py x | None \<Rightarrow> None);
          acc = rem_accelerator (rq_resources q)
      in rbind (prepared_fixture_provenance (rq_metadata q)) (\<lambda>(fd, fs, fo).
         let p = \<lparr>pv_image = rq_image q, pv_image_digest = image_digest_of (rq_image q),
             pv_package_sha256 = or_default packaged metadata_package, pv_inputs = inputs, pv_seed = seed,
             pv_fixture_digest = fd, pv_fixture_state_sha256 = fs, pv_fixture_observation_sha256 = fo,
             pv_request_sha256 = request_sha256 py q,
             pv_requested_region = (case rq_region q of Some x \<Rightarrow> x | None \<Rightarrow> []),
             pv_requested_accelerator_kind = (case acc of Some a \<Rightarrow> acc_kind a | None \<Rightarrow> []),
             pv_requested_accelerator_count = (case acc of Some a \<Rightarrow> acc_count a | None \<Rightarrow> 0),
             pv_requested_accelerator_memory_gb = (case acc of Some a \<Rightarrow> acc_memory_gb a | None \<Rightarrow> None),
             pv_required_telemetry = sorted_list_of_set (rq_required_telemetry q), pv_resolved = resolved\<rparr>
         in rbind (check_provenance p) (\<lambda>_. Inr p)))"

text \<open>Whether every request can share one sandbox; Python compares dicts regardless of their order.\<close>

definition same_dict :: "(string \<times> string) list \<Rightarrow> (string \<times> string) list \<Rightarrow> bool" where
  "same_dict d e \<longleftrightarrow> sort_key fst d = sort_key fst e"

definition requests_are_reuse_compatible :: "remote_request list \<Rightarrow> bool" where
  "requests_are_reuse_compatible qs = (case qs of [] \<Rightarrow> False
     | first # _ \<Rightarrow> list_all (\<lambda>q. rq_lifecycle q = ''reuse_matched_trials'' \<and> rq_image q = rq_image first \<and>
           rq_resources q = rq_resources first \<and> rq_region q = rq_region first \<and>
           rq_required_telemetry q = rq_required_telemetry first \<and> rq_network_policy q = rq_network_policy first \<and>
           rq_secrets_policy q = rq_secrets_policy first \<and> rq_secret_grants q = rq_secret_grants first \<and>
           rq_input_artifacts q = rq_input_artifacts first \<and> same_dict (rq_environment q) (rq_environment first) \<and>
           rq_snapshot_id q = rq_snapshot_id first) qs \<and>
         int (length qs) \<le> Min (set (map rq_max_reuse_tasks qs)))"

subsection \<open>Attempts\<close>

text \<open>\<open>attempt_id_from_digest\<close> and \<open>external_eval_attempt_id\<close> of \<^verbatim>\<open>_external_eval_outbox_identity.py\<close>.\<close>

definition attempt_id_from_digest :: "stdlib \<Rightarrow> string \<Rightarrow> string \<Rightarrow> string \<Rightarrow> string" where
  "attempt_id_from_digest py provider task_id sha =
     py_sha256 py (py_dumps py (JObj [(''provider'', JStr provider), (''task_id'', JStr task_id), (''request_sha256'', JStr sha)]))"

definition external_eval_attempt_id :: "stdlib \<Rightarrow> string \<Rightarrow> remote_request \<Rightarrow> string res" where
  "external_eval_attempt_id py provider q =
     rbind (ensure (strip provider \<noteq> []) (ValueError ''external evaluation provider must be non-empty'')) (\<lambda>_.
     Inr (attempt_id_from_digest py provider (rq_task_id q) (request_sha256 py q)))"

definition result_matches_request :: "stdlib \<Rightarrow> string \<Rightarrow> remote_request \<Rightarrow> remote_result \<Rightarrow> string \<Rightarrow> bool res" where
  "result_matches_request py provider q r sha =
     (if rr_provider r \<noteq> provider \<or> rr_task_id r \<noteq> rq_task_id q then Inr False
      else rbind (build_request_provenance py q (pv_resolved (rr_provenance r))) (\<lambda>p.
        Inr (rr_provenance r = p\<lparr>pv_request_sha256 := or_default sha (request_sha256 py q)\<rparr>)))"

end
