(* ===== verification/Outbox_Codec.thy ===== *)
theory Outbox_Codec
  imports Json_Order Remote_Identity
begin

text \<open>
  The versioned codec of the outbox, \<^verbatim>\<open>execution/_external_eval_outbox_codec.py\<close>: how requests,
  results and ledger entries are written as JSON and read back, with every check on what is read.

  A JSON object read from a text has each key once. The key sets that the code writes out are lists here.
\<close>

subsection \<open>Writing\<close>

definition provenance_payload :: "provenance \<Rightarrow> json" where
  "provenance_payload p = JObj
     [(''image'', JStr (pv_image p)), (''image_digest'', JStr (pv_image_digest p)),
      (''package_sha256'', JStr (pv_package_sha256 p)),
      (''inputs'', JList (map (\<lambda>i. JObj [(''name'', JStr (ipv_name i)), (''sha256'', JStr (ipv_sha256 i)),
          (''size_bytes'', JInt (ipv_size_bytes i)), (''media_type'', JStr (ipv_media_type i))]) (pv_inputs p))),
      (''seed'', opt_json JInt (pv_seed p)), (''fixture_digest'', JStr (pv_fixture_digest p)),
      (''fixture_state_sha256'', JStr (pv_fixture_state_sha256 p)),
      (''fixture_observation_sha256'', JStr (pv_fixture_observation_sha256 p)),
      (''request_sha256'', JStr (pv_request_sha256 p)), (''requested_region'', JStr (pv_requested_region p)),
      (''requested_accelerator_kind'', JStr (pv_requested_accelerator_kind p)),
      (''requested_accelerator_count'', JInt (pv_requested_accelerator_count p)),
      (''requested_accelerator_memory_gb'', opt_json JFloat (pv_requested_accelerator_memory_gb p)),
      (''required_telemetry'', JList (map JStr (pv_required_telemetry p))),
      (''resolved'', JObj [(''image'', JStr (ren_image (pv_resolved p))), (''region'', JStr (ren_region (pv_resolved p))),
          (''accelerator_kind'', JStr (ren_accelerator_kind (pv_resolved p))),
          (''accelerator_count'', JInt (ren_accelerator_count (pv_resolved p))),
          (''runtime'', JStr (ren_runtime (pv_resolved p)))])]"

definition usage_payload :: "resource_usage \<Rightarrow> json" where
  "usage_payload u = JObj [(''wall_seconds'', JFloat (usa_wall_seconds u)), (''cpu_seconds'', opt_json JFloat (usa_cpu_seconds u)),
     (''peak_memory_mb'', opt_json JFloat (usa_peak_memory_mb u)), (''accelerator_seconds'', opt_json JFloat (usa_accelerator_seconds u)),
     (''accelerator_peak_memory_mb'', opt_json JFloat (usa_accelerator_peak_memory_mb u))]"

definition cleanup_payload :: "cleanup_outcome \<Rightarrow> json" where
  "cleanup_payload c = JObj [(''attempted'', JBool (clo_attempted c)), (''succeeded'', JBool (clo_succeeded c)),
     (''resource_id'', JStr (clo_resource_id c)), (''detail'', JStr (clo_detail c))]"

definition request_payload :: "stdlib \<Rightarrow> string \<Rightarrow> remote_request \<Rightarrow> json res" where
  "request_payload py provider q =
     rbind (build_request_provenance py q no_resolved_environment) (\<lambda>p. Inr (JObj
       [(''schema_version'', JInt 1), (''provider'', JStr provider), (''task_id'', JStr (rq_task_id q)),
        (''request_sha256'', JStr (request_sha256 py q)), (''provenance'', provenance_payload p),
        (''lifecycle'', JStr (rq_lifecycle q)), (''timeout_seconds'', JFloat (rq_timeout_seconds q)),
        (''resources'', resources_payload (rq_resources q)), (''region'', opt_json JStr (rq_region q)),
        (''required_telemetry'', JList (map JStr (sorted_list_of_set (rq_required_telemetry q)))),
        (''network_policy'', JStr (rq_network_policy q)), (''expected_outputs'', JList (map JStr (rq_expected_outputs q))),
        (''metadata'', JObj (map (\<lambda>(k, v). (k, JStr v)) (rq_metadata q)))]))"

definition artifact_payload :: "stdlib \<Rightarrow> output_artifact \<Rightarrow> json" where
  "artifact_payload py a = JObj [(''name'', JStr (oa_name a)), (''content_base64'', JStr (py_b64encode py (oa_content a))),
     (''media_type'', JStr (oa_media_type a))]"

definition remote_event_payload :: "remote_event \<Rightarrow> json" where
  "remote_event_payload e = JObj [(''sequence'', JInt (rev_sequence e)), (''event_type'', JStr (rev_type e)),
     (''message'', JStr (rev_message e)), (''fields'', JObj (rev_fields e))]"

definition result_payload :: "stdlib \<Rightarrow> remote_result \<Rightarrow> json" where
  "result_payload py r = JObj
     [(''schema_version'', JInt 1), (''task_id'', JStr (rr_task_id r)), (''provider'', JStr (rr_provider r)),
      (''status'', JStr (rr_status r)), (''stdout'', JStr (rr_stdout r)), (''stderr'', JStr (rr_stderr r)),
      (''exit_code'', opt_json JInt (rr_exit_code r)), (''artifacts'', JList (map (artifact_payload py) (rr_artifacts r))),
      (''events'', JList (map remote_event_payload (rr_events r))), (''usage'', usage_payload (rr_usage r)),
      (''cleanup'', cleanup_payload (rr_cleanup r)), (''error'', JStr (rr_error r)), (''session_id'', JStr (rr_session_id r)),
      (''provenance'', provenance_payload (rr_provenance r)), (''retryable'', JBool (rr_retryable r))]"

definition ledger_payload :: "ledger_entry \<Rightarrow> json" where
  "ledger_payload l = JObj
     [(''schema_version'', JInt 1), (''task_id'', JStr (lge_task_id l)), (''provider'', JStr (lge_provider l)),
      (''status'', JStr (lge_status l)), (''candidate_succeeded'', JBool (lge_candidate_succeeded l)),
      (''infrastructure_succeeded'', JBool (lge_infrastructure_succeeded l)), (''exit_code'', opt_json JInt (lge_exit_code l)),
      (''usage'', usage_payload (lge_usage l)), (''cleanup'', cleanup_payload (lge_cleanup l)), (''detail'', JStr (lge_detail l)),
      (''provenance'', provenance_payload (lge_provenance l)), (''retryable'', JBool (lge_retryable l)),
      (''attempt_id'', JStr (lge_attempt_id l))]"

subsection \<open>Checks on what is read\<close>

definition bad :: "string \<Rightarrow> string \<Rightarrow> exc" where
  "bad label what = ValueError (label @ what)"

definition expect_object :: "json \<Rightarrow> string \<Rightarrow> string list \<Rightarrow> dict res" where
  "expect_object v label ks = (case v of
       JObj d \<Rightarrow> if fst ` set d = set ks then Inr d else Inl (bad label '' has invalid fields'')
     | _ \<Rightarrow> Inl (bad label '' must be an object''))"

text \<open>\<open>values[key]\<close> after \<open>expect_object\<close>: the key is there.\<close>

definition json_item :: "dict \<Rightarrow> string \<Rightarrow> json" where
  "json_item d k = (case map_of d k of Some v \<Rightarrow> v | None \<Rightarrow> JNull)"

function validate_json_value :: "string \<Rightarrow> json \<Rightarrow> unit res" where
  "validate_json_value label (JNonFinite x) = Inl (bad label '' contains a non-finite number'')"
| "validate_json_value label (JList xs) = rbind (map_res (validate_json_value label) xs) (\<lambda>_. Inr ())"
| "validate_json_value label (JObj d) = rbind (map_res (\<lambda>x. validate_json_value label (snd x)) d) (\<lambda>_. Inr ())"
| "validate_json_value label JNull = Inr ()"
| "validate_json_value label (JBool b) = Inr ()"
| "validate_json_value label (JInt n) = Inr ()"
| "validate_json_value label (JFloat y) = Inr ()"
| "validate_json_value label (JStr y) = Inr ()"
  by pat_completeness auto
termination
  by (relation "measure (size \<circ> snd)") (auto simp: size_item_snd dest: size_list_estimation' [of _ _ _ size])

text \<open>The dict that is returned is kept in the order of its keys.\<close>

definition expect_json_object :: "json \<Rightarrow> string \<Rightarrow> dict res" where
  "expect_json_object v label = (case v of
       JObj d \<Rightarrow> rbind (map_res (\<lambda>x. validate_json_value label (snd x)) d) (\<lambda>_. Inr (sorted_dict d))
     | _ \<Rightarrow> Inl (bad label '' must be an object with string keys''))"

definition expect_list :: "json \<Rightarrow> string \<Rightarrow> json list res" where
  "expect_list v label = (case v of JList xs \<Rightarrow> Inr xs | _ \<Rightarrow> Inl (bad label '' must be an array''))"

definition expect_str :: "json \<Rightarrow> string \<Rightarrow> string res" where
  "expect_str v label = (case v of JStr x \<Rightarrow> Inr x | _ \<Rightarrow> Inl (bad label '' must be a string''))"

definition expect_nonempty_str :: "json \<Rightarrow> string \<Rightarrow> string res" where
  "expect_nonempty_str v label = (case v of
       JStr x \<Rightarrow> if x \<noteq> [] then Inr x else Inl (bad label '' must be a non-empty string'')
     | _ \<Rightarrow> Inl (bad label '' must be a non-empty string''))"

definition expect_bool :: "json \<Rightarrow> string \<Rightarrow> bool res" where
  "expect_bool v label = (case v of JBool b \<Rightarrow> Inr b | _ \<Rightarrow> Inl (bad label '' must be a boolean''))"

definition expect_int :: "json \<Rightarrow> string \<Rightarrow> int res" where
  "expect_int v label = (case v of JInt n \<Rightarrow> Inr n | _ \<Rightarrow> Inl (bad label '' must be an integer''))"

definition expect_optional_int :: "json \<Rightarrow> string \<Rightarrow> int option res" where
  "expect_optional_int v label = (if v = JNull then Inr None else rbind (expect_int v label) (\<lambda>n. Inr (Some n)))"

definition expect_number :: "stdlib \<Rightarrow> json \<Rightarrow> string \<Rightarrow> rat res" where
  "expect_number py v label = (case v of
       JFloat x \<Rightarrow> Inr x
     | JInt n \<Rightarrow> (case py_float py n of Some x \<Rightarrow> Inr x | None \<Rightarrow> Inl (bad label '' must be a finite number''))
     | _ \<Rightarrow> Inl (bad label '' must be a finite number''))"

definition expect_exact_number :: "stdlib \<Rightarrow> json \<Rightarrow> string \<Rightarrow> rat res" where
  "expect_exact_number py v label = rbind (expect_number py v label) (\<lambda>x. case v of
       JInt n \<Rightarrow> if \<lfloor>x\<rfloor> \<noteq> n then Inl (bad label '' integer must be exactly representable as a float'') else Inr x
     | _ \<Rightarrow> Inr x)"

definition expect_positive_number :: "stdlib \<Rightarrow> json \<Rightarrow> string \<Rightarrow> rat res" where
  "expect_positive_number py v label = rbind (expect_number py v label) (\<lambda>x.
     if x \<le> 0 then Inl (bad label '' must be positive'') else Inr x)"

definition expect_optional_number :: "stdlib \<Rightarrow> json \<Rightarrow> string \<Rightarrow> rat option res" where
  "expect_optional_number py v label = (if v = JNull then Inr None else rbind (expect_number py v label) (\<lambda>x. Inr (Some x)))"

definition expect_optional_exact_number :: "stdlib \<Rightarrow> json \<Rightarrow> string \<Rightarrow> rat option res" where
  "expect_optional_exact_number py v label =
     (if v = JNull then Inr None else rbind (expect_exact_number py v label) (\<lambda>x. Inr (Some x)))"

definition expect_sha256 :: "json \<Rightarrow> string \<Rightarrow> string res" where
  "expect_sha256 v label = rbind (expect_str v label) (\<lambda>x.
     if is_sha256 x then Inr x else Inl (bad label '' must be a lowercase SHA-256 digest''))"

definition expect_execution_status :: "json \<Rightarrow> string res" where
  "expect_execution_status v = rbind (expect_str v ''remote execution status'') (\<lambda>x.
     if x \<in> set execution_statuses then Inr x else Inl (ValueError (''unsupported remote execution status '' @ py_repr x)))"

definition expect_schema_version :: "dict \<Rightarrow> string \<Rightarrow> unit res" where
  "expect_schema_version d label = rbind (expect_int (json_item d ''schema_version'') (label @ '' schema_version'')) (\<lambda>n.
     ensure (n = 1) (ValueError (''unsupported '' @ label)))"

definition load_json :: "stdlib \<Rightarrow> string \<Rightarrow> string \<Rightarrow> json res" where
  "load_json py raw label = (case py_loads py raw of Some j \<Rightarrow> Inr j | None \<Rightarrow> Inl (bad label '' is not valid JSON''))"

definition checked_payload :: "stdlib \<Rightarrow> string option \<Rightarrow> string option \<Rightarrow> string \<Rightarrow> string res" where
  "checked_payload py raw digest label = (case (raw, digest) of
       (Some x, Some d) \<Rightarrow> if py_sha256 py x = d then Inr x else Inl (bad label '' checksum mismatch'')
     | _ \<Rightarrow> Inl (bad label '' checksum mismatch''))"

end
