(* ===== verification/Outbox_Decode.thy ===== *)
theory Outbox_Decode
  imports Outbox_Codec
begin

text \<open>
  Reading results, ledger entries and requests back, \<^verbatim>\<open>execution/_external_eval_outbox_codec.py\<close>.
  A value object is built by its constructor, so its own checks follow those on the JSON.
\<close>

definition provenance_keys :: "string list" where
  "provenance_keys = [''image'', ''image_digest'', ''package_sha256'', ''inputs'', ''seed'', ''fixture_digest'',
     ''fixture_state_sha256'', ''fixture_observation_sha256'', ''request_sha256'', ''requested_region'',
     ''requested_accelerator_kind'', ''requested_accelerator_count'', ''requested_accelerator_memory_gb'',
     ''required_telemetry'', ''resolved'']"

definition provenance_input :: "json \<Rightarrow> input_provenance res" where
  "provenance_input v =
     rbind (expect_object v ''provenance input'' [''name'', ''sha256'', ''size_bytes'', ''media_type'']) (\<lambda>d.
     rbind (expect_nonempty_str (json_item d ''name'') ''provenance input name'') (\<lambda>name.
     rbind (expect_sha256 (json_item d ''sha256'') ''provenance input sha256'') (\<lambda>sha.
     rbind (expect_int (json_item d ''size_bytes'') ''provenance input size_bytes'') (\<lambda>n.
     rbind (expect_nonempty_str (json_item d ''media_type'') ''provenance input media_type'') (\<lambda>m.
     let i = \<lparr>ipv_name = name, ipv_sha256 = sha, ipv_size_bytes = n, ipv_media_type = m\<rparr>
     in rbind (check_input_provenance i) (\<lambda>_. Inr i))))))"

definition resolved_from_payload :: "dict \<Rightarrow> resolved_environment res" where
  "resolved_from_payload d =
     rbind (expect_str (json_item d ''image'') ''resolved image'') (\<lambda>img.
     rbind (expect_str (json_item d ''region'') ''resolved region'') (\<lambda>region.
     rbind (expect_str (json_item d ''accelerator_kind'') ''resolved accelerator_kind'') (\<lambda>kind.
     rbind (expect_int (json_item d ''accelerator_count'') ''resolved accelerator_count'') (\<lambda>count.
     rbind (expect_str (json_item d ''runtime'') ''resolved runtime'') (\<lambda>runtime.
     let e = \<lparr>ren_image = img, ren_region = region, ren_accelerator_kind = kind, ren_accelerator_count = count, ren_runtime = runtime\<rparr>
     in rbind (check_resolved_environment e) (\<lambda>_. Inr e))))))"

definition provenance_from_payload :: "stdlib \<Rightarrow> json \<Rightarrow> provenance res" where
  "provenance_from_payload py v =
     rbind (expect_object v ''external-evaluation provenance payload'' provenance_keys) (\<lambda>d.
     rbind (rbind (expect_list (json_item d ''inputs'') ''provenance inputs'') (map_res provenance_input)) (\<lambda>inputs.
     rbind (expect_object (json_item d ''resolved'') ''resolved environment''
       [''image'', ''region'', ''accelerator_kind'', ''accelerator_count'', ''runtime'']) (\<lambda>resolved.
     rbind (rbind (expect_list (json_item d ''required_telemetry'') ''required telemetry'')
       (map_res (\<lambda>x. expect_nonempty_str x ''required telemetry kind''))) (\<lambda>telemetry.
     rbind (expect_str (json_item d ''image'') ''provenance image'') (\<lambda>img.
     rbind (expect_str (json_item d ''image_digest'') ''provenance image_digest'') (\<lambda>digest.
     rbind (expect_str (json_item d ''package_sha256'') ''provenance package_sha256'') (\<lambda>package.
     rbind (expect_optional_int (json_item d ''seed'') ''provenance seed'') (\<lambda>seed.
     rbind (expect_str (json_item d ''fixture_digest'') ''provenance fixture_digest'') (\<lambda>fd.
     rbind (expect_str (json_item d ''fixture_state_sha256'') ''provenance fixture_state_sha256'') (\<lambda>fs.
     rbind (expect_str (json_item d ''fixture_observation_sha256'') ''provenance fixture_observation_sha256'') (\<lambda>fo.
     rbind (expect_str (json_item d ''request_sha256'') ''provenance request_sha256'') (\<lambda>sha.
     rbind (expect_str (json_item d ''requested_region'') ''provenance requested_region'') (\<lambda>region.
     rbind (expect_str (json_item d ''requested_accelerator_kind'') ''provenance requested_accelerator_kind'') (\<lambda>kind.
     rbind (expect_int (json_item d ''requested_accelerator_count'') ''provenance requested_accelerator_count'') (\<lambda>count.
     rbind (expect_optional_exact_number py (json_item d ''requested_accelerator_memory_gb'') ''provenance requested_accelerator_memory_gb'') (\<lambda>memory.
     rbind (resolved_from_payload resolved) (\<lambda>env.
     let p = \<lparr>pv_image = img, pv_image_digest = digest, pv_package_sha256 = package, pv_inputs = inputs, pv_seed = seed,
         pv_fixture_digest = fd, pv_fixture_state_sha256 = fs, pv_fixture_observation_sha256 = fo, pv_request_sha256 = sha,
         pv_requested_region = region, pv_requested_accelerator_kind = kind, pv_requested_accelerator_count = count,
         pv_requested_accelerator_memory_gb = memory, pv_required_telemetry = telemetry, pv_resolved = env\<rparr>
     in rbind (check_provenance p) (\<lambda>_. Inr p))))))))))))))))))"

definition usage_from_payload :: "stdlib \<Rightarrow> json \<Rightarrow> resource_usage res" where
  "usage_from_payload py v =
     rbind (expect_object v ''resource usage'' [''wall_seconds'', ''cpu_seconds'', ''peak_memory_mb'',
       ''accelerator_seconds'', ''accelerator_peak_memory_mb'']) (\<lambda>d.
     rbind (expect_exact_number py (json_item d ''wall_seconds'') ''usage wall_seconds'') (\<lambda>wall.
     rbind (expect_optional_exact_number py (json_item d ''cpu_seconds'') ''usage cpu_seconds'') (\<lambda>cpu.
     rbind (expect_optional_exact_number py (json_item d ''peak_memory_mb'') ''usage peak_memory_mb'') (\<lambda>mem.
     rbind (expect_optional_exact_number py (json_item d ''accelerator_seconds'') ''usage accelerator_seconds'') (\<lambda>acc.
     rbind (expect_optional_exact_number py (json_item d ''accelerator_peak_memory_mb'') ''usage accelerator_peak_memory_mb'') (\<lambda>accmem.
     let u = \<lparr>usa_wall_seconds = wall, usa_cpu_seconds = cpu, usa_peak_memory_mb = mem, usa_accelerator_seconds = acc,
         usa_accelerator_peak_memory_mb = accmem\<rparr>
     in rbind (check_usage u) (\<lambda>_. Inr u)))))))"

definition cleanup_from_payload :: "json \<Rightarrow> cleanup_outcome res" where
  "cleanup_from_payload v =
     rbind (expect_object v ''cleanup outcome'' [''attempted'', ''succeeded'', ''resource_id'', ''detail'']) (\<lambda>d.
     rbind (expect_bool (json_item d ''attempted'') ''cleanup attempted'') (\<lambda>a.
     rbind (expect_bool (json_item d ''succeeded'') ''cleanup succeeded'') (\<lambda>s.
     rbind (expect_str (json_item d ''resource_id'') ''cleanup resource_id'') (\<lambda>r.
     rbind (expect_str (json_item d ''detail'') ''cleanup detail'') (\<lambda>t.
     Inr \<lparr>clo_attempted = a, clo_succeeded = s, clo_resource_id = r, clo_detail = t\<rparr>)))))"

definition artifact_from_payload :: "stdlib \<Rightarrow> json \<Rightarrow> output_artifact res" where
  "artifact_from_payload py v =
     rbind (expect_object v ''external-evaluation result artifact'' [''name'', ''content_base64'', ''media_type'']) (\<lambda>d.
     rbind (expect_nonempty_str (json_item d ''name'') ''artifact name'') (\<lambda>name.
     rbind (expect_str (json_item d ''content_base64'') ''artifact content_base64'') (\<lambda>text.
     rbind (case py_b64decode py text of Some c \<Rightarrow> Inr c | None \<Rightarrow> Inl (ValueError ''Incorrect padding'')) (\<lambda>content.
     rbind (expect_nonempty_str (json_item d ''media_type'') ''artifact media_type'') (\<lambda>m.
     let a = \<lparr>oa_name = name, oa_content = content, oa_media_type = m\<rparr>
     in rbind (check_output_artifact a) (\<lambda>_. Inr a))))))"

definition event_from_payload :: "json \<Rightarrow> remote_event res" where
  "event_from_payload v =
     rbind (expect_object v ''external-evaluation result event'' [''sequence'', ''event_type'', ''message'', ''fields'']) (\<lambda>d.
     rbind (expect_int (json_item d ''sequence'') ''event sequence'') (\<lambda>n.
     rbind (expect_nonempty_str (json_item d ''event_type'') ''event type'') (\<lambda>t.
     rbind (expect_str (json_item d ''message'') ''event message'') (\<lambda>m.
     rbind (expect_json_object (json_item d ''fields'') ''external-evaluation event fields'') (\<lambda>fs.
     let e = \<lparr>rev_sequence = n, rev_type = t, rev_message = m, rev_fields = fs\<rparr>
     in rbind (check_event e) (\<lambda>_. Inr e))))))"

text \<open>A \<open>ValueError\<close> in the artifacts is replaced by one message; nothing else is raised there.\<close>

definition invalid_artifacts :: "'a res \<Rightarrow> 'a res" where
  "invalid_artifacts r = (case r of
       Inl (ValueError m) \<Rightarrow> Inl (ValueError ''invalid external-evaluation result artifacts'')
     | _ \<Rightarrow> r)"

definition result_keys :: "string list" where
  "result_keys = [''schema_version'', ''task_id'', ''provider'', ''status'', ''stdout'', ''stderr'', ''exit_code'',
     ''artifacts'', ''events'', ''usage'', ''cleanup'', ''error'', ''session_id'', ''provenance'', ''retryable'']"

definition result_from_payload :: "stdlib \<Rightarrow> json \<Rightarrow> remote_result res" where
  "result_from_payload py v =
     rbind (expect_object v ''external-evaluation result payload'' result_keys) (\<lambda>d.
     rbind (expect_schema_version d ''external-evaluation result payload'') (\<lambda>_.
     rbind (invalid_artifacts (rbind (expect_list (json_item d ''artifacts'') ''external-evaluation result artifacts'')
       (map_res (artifact_from_payload py)))) (\<lambda>artifacts.
     rbind (rbind (expect_list (json_item d ''events'') ''external-evaluation result events'') (map_res event_from_payload)) (\<lambda>events.
     rbind (expect_nonempty_str (json_item d ''task_id'') ''result task_id'') (\<lambda>task.
     rbind (expect_nonempty_str (json_item d ''provider'') ''result provider'') (\<lambda>provider.
     rbind (expect_execution_status (json_item d ''status'')) (\<lambda>st.
     rbind (expect_str (json_item d ''stdout'') ''result stdout'') (\<lambda>out.
     rbind (expect_str (json_item d ''stderr'') ''result stderr'') (\<lambda>err.
     rbind (expect_optional_int (json_item d ''exit_code'') ''result exit_code'') (\<lambda>code.
     rbind (usage_from_payload py (json_item d ''usage'')) (\<lambda>usage.
     rbind (cleanup_from_payload (json_item d ''cleanup'')) (\<lambda>cleanup.
     rbind (expect_str (json_item d ''error'') ''result error'') (\<lambda>error.
     rbind (expect_str (json_item d ''session_id'') ''result session_id'') (\<lambda>session.
     rbind (provenance_from_payload py (json_item d ''provenance'')) (\<lambda>provenance.
     rbind (expect_bool (json_item d ''retryable'') ''result retryable'') (\<lambda>retryable.
     let r = \<lparr>rr_task_id = task, rr_provider = provider, rr_status = st, rr_stdout = out, rr_stderr = err, rr_exit_code = code,
         rr_artifacts = artifacts, rr_events = events, rr_usage = usage, rr_cleanup = cleanup, rr_error = error,
         rr_session_id = session, rr_provenance = provenance, rr_retryable = retryable\<rparr>
     in rbind (check_result r) (\<lambda>_. Inr r)))))))))))))))))"

definition ledger_keys :: "string list" where
  "ledger_keys = [''schema_version'', ''task_id'', ''provider'', ''status'', ''candidate_succeeded'', ''infrastructure_succeeded'',
     ''exit_code'', ''usage'', ''cleanup'', ''detail'', ''provenance'', ''retryable'', ''attempt_id'']"

definition ledger_from_payload :: "stdlib \<Rightarrow> json \<Rightarrow> ledger_entry res" where
  "ledger_from_payload py v =
     rbind (expect_object v ''external-evaluation ledger payload'' ledger_keys) (\<lambda>d.
     rbind (expect_schema_version d ''external-evaluation ledger payload'') (\<lambda>_.
     rbind (expect_nonempty_str (json_item d ''task_id'') ''ledger task_id'') (\<lambda>task.
     rbind (expect_nonempty_str (json_item d ''provider'') ''ledger provider'') (\<lambda>provider.
     rbind (expect_execution_status (json_item d ''status'')) (\<lambda>st.
     rbind (expect_bool (json_item d ''candidate_succeeded'') ''ledger candidate_succeeded'') (\<lambda>cs.
     rbind (expect_bool (json_item d ''infrastructure_succeeded'') ''ledger infrastructure_succeeded'') (\<lambda>is1.
     rbind (expect_optional_int (json_item d ''exit_code'') ''ledger exit_code'') (\<lambda>code.
     rbind (usage_from_payload py (json_item d ''usage'')) (\<lambda>usage.
     rbind (cleanup_from_payload (json_item d ''cleanup'')) (\<lambda>cleanup.
     rbind (expect_str (json_item d ''detail'') ''ledger detail'') (\<lambda>detail.
     rbind (provenance_from_payload py (json_item d ''provenance'')) (\<lambda>provenance.
     rbind (expect_bool (json_item d ''retryable'') ''ledger retryable'') (\<lambda>retryable.
     rbind (expect_sha256 (json_item d ''attempt_id'') ''ledger attempt_id'') (\<lambda>aid.
     let l = \<lparr>lge_task_id = task, lge_provider = provider, lge_status = st, lge_candidate_succeeded = cs,
         lge_infrastructure_succeeded = is1, lge_exit_code = code, lge_usage = usage, lge_cleanup = cleanup, lge_detail = detail,
         lge_provenance = provenance, lge_retryable = retryable, lge_attempt_id = aid\<rparr>
     in rbind (check_ledger_entry l) (\<lambda>_. Inr l)))))))))))))))"

subsection \<open>The status projection of a request\<close>

record request_status =
  rqs_provider :: string
  rqs_task_id :: string
  rqs_request_sha256 :: string
  rqs_timeout_seconds :: rat
  rqs_cpu_cores :: rat
  rqs_memory_gb :: rat
  rqs_disk_gb :: rat
  rqs_accelerator_kind :: string
  rqs_accelerator_count :: int

definition request_keys :: "string list" where
  "request_keys = [''schema_version'', ''provider'', ''task_id'', ''request_sha256'', ''provenance'', ''lifecycle'',
     ''timeout_seconds'', ''resources'', ''region'', ''required_telemetry'', ''network_policy'', ''expected_outputs'', ''metadata'']"

definition accelerator_status :: "stdlib \<Rightarrow> json \<Rightarrow> (string \<times> int) res" where
  "accelerator_status py v = (if v = JNull then Inr ([], 0) else
     rbind (expect_object v ''request accelerator'' [''kind'', ''count'', ''memory_gb'']) (\<lambda>d.
     rbind (expect_nonempty_str (json_item d ''kind'') ''request accelerator kind'') (\<lambda>kind.
     rbind (expect_int (json_item d ''count'') ''request accelerator count'') (\<lambda>count.
     rbind (ensure (1 \<le> count) (ValueError ''request accelerator count must be positive'')) (\<lambda>_.
     rbind (expect_optional_number py (json_item d ''memory_gb'') ''request accelerator memory_gb'') (\<lambda>memory.
     rbind (ensure (opt_all ((<) 0) memory) (ValueError ''request accelerator memory_gb must be positive'')) (\<lambda>_.
     Inr (kind, count))))))))"

definition is_string :: "json \<Rightarrow> bool" where
  "is_string v = (case v of JStr x \<Rightarrow> True | _ \<Rightarrow> False)"

definition request_status_payload :: "stdlib \<Rightarrow> json \<Rightarrow> request_status res" where
  "request_status_payload py v =
     rbind (expect_object v ''external-evaluation request payload'' request_keys) (\<lambda>d.
     rbind (expect_schema_version d ''external-evaluation request payload'') (\<lambda>_.
     rbind (expect_nonempty_str (json_item d ''provider'') ''request provider'') (\<lambda>provider.
     rbind (expect_nonempty_str (json_item d ''task_id'') ''request task_id'') (\<lambda>task.
     rbind (expect_sha256 (json_item d ''request_sha256'') ''request sha256'') (\<lambda>sha.
     rbind (provenance_from_payload py (json_item d ''provenance'')) (\<lambda>_.
     rbind (expect_str (json_item d ''lifecycle'') ''request lifecycle'') (\<lambda>lc.
     rbind (ensure (lc \<in> {''ephemeral_per_eval'', ''reuse_matched_trials'', ''warm_snapshot''})
       (ValueError (''unsupported request lifecycle '' @ py_repr lc))) (\<lambda>_.
     rbind (expect_str (json_item d ''network_policy'') ''request network_policy'') (\<lambda>np.
     rbind (ensure (np \<in> {''deny'', ''allow''}) (ValueError (''unsupported request network_policy '' @ py_repr np))) (\<lambda>_.
     rbind (expect_positive_number py (json_item d ''timeout_seconds'') ''request timeout_seconds'') (\<lambda>timeout.
     rbind (expect_object (json_item d ''resources'') ''request resources'' [''cpu_cores'', ''memory_gb'', ''disk_gb'', ''accelerator'']) (\<lambda>res.
     rbind (expect_positive_number py (json_item res ''cpu_cores'') ''request cpu_cores'') (\<lambda>cpu.
     rbind (expect_positive_number py (json_item res ''memory_gb'') ''request memory_gb'') (\<lambda>mem.
     rbind (expect_positive_number py (json_item res ''disk_gb'') ''request disk_gb'') (\<lambda>disk.
     rbind (accelerator_status py (json_item res ''accelerator'')) (\<lambda>(kind, count).
     rbind (if json_item d ''region'' = JNull then Inr [] else expect_nonempty_str (json_item d ''region'') ''request region'') (\<lambda>_.
     rbind (rbind (expect_list (json_item d ''required_telemetry'') ''request required_telemetry'')
       (map_res (\<lambda>x. expect_nonempty_str x ''request telemetry kind''))) (\<lambda>_.
     rbind (rbind (expect_list (json_item d ''expected_outputs'') ''request expected_outputs'')
       (map_res (\<lambda>x. expect_nonempty_str x ''request expected output''))) (\<lambda>_.
     rbind (expect_json_object (json_item d ''metadata'') ''request metadata'') (\<lambda>md.
     rbind (ensure (list_all (\<lambda>(k, x). k \<noteq> [] \<and> is_string x) md)
       (ValueError ''request metadata requires non-empty string keys and string values'')) (\<lambda>_.
     Inr \<lparr>rqs_provider = provider, rqs_task_id = task, rqs_request_sha256 = sha, rqs_timeout_seconds = timeout,
       rqs_cpu_cores = cpu, rqs_memory_gb = mem, rqs_disk_gb = disk, rqs_accelerator_kind = kind,
       rqs_accelerator_count = count\<rparr>)))))))))))))))))))))"

end
