(* ===== verification/Outbox_Roundtrip.thy ===== *)
theory Outbox_Roundtrip
  imports Outbox_Decode
begin

text \<open>
  What is read back from the text that was written: the round trips of results, ledger entries and the
  status projection of requests, as interpretations of one interface, \<open>stored_value\<close>.
\<close>

text \<open>
  The documented behaviour of the library functions: a digest is 64 hexadecimal digits, a text written with sorted
  keys is read back with its keys sorted, base64 is decoded to what was encoded.
\<close>

definition stdlib_ok :: "stdlib \<Rightarrow> bool" where
  "stdlib_ok py \<longleftrightarrow> (\<forall>x. is_sha256 (py_sha256 py x)) \<and>
     (\<forall>j. plain_json j \<longrightarrow> py_loads py (py_dumps py j) = Some (sorted_json j)) \<and>
     (\<forall>x. py_b64decode py (py_b64encode py x) = Some x)"

lemma stdlib_okD:
  assumes "stdlib_ok py"
  shows "is_sha256 (py_sha256 py x)" and "plain_json j \<Longrightarrow> py_loads py (py_dumps py j) = Some (sorted_json j)"
    and "py_b64decode py (py_b64encode py x) = Some x"
  using assms by (simp_all add: stdlib_ok_def)

text \<open>Values as their constructors leave them: checked, with finite doubles, event fields in the order of their keys.\<close>

definition valid_usage :: "resource_usage \<Rightarrow> bool" where
  "valid_usage u \<longleftrightarrow> check_usage u = Inr () \<and> is_double (usa_wall_seconds u) \<and> opt_all is_double (usa_cpu_seconds u) \<and>
     opt_all is_double (usa_peak_memory_mb u) \<and> opt_all is_double (usa_accelerator_seconds u) \<and>
     opt_all is_double (usa_accelerator_peak_memory_mb u)"

definition valid_provenance :: "provenance \<Rightarrow> bool" where
  "valid_provenance p \<longleftrightarrow> check_provenance p = Inr () \<and> list_all (\<lambda>i. check_input_provenance i = Inr ()) (pv_inputs p) \<and>
     check_resolved_environment (pv_resolved p) = Inr () \<and> opt_all is_double (pv_requested_accelerator_memory_gb p)"

definition valid_event :: "remote_event \<Rightarrow> bool" where
  "valid_event e \<longleftrightarrow> check_event e = Inr () \<and> canonical_dict (rev_fields e)"

definition valid_result :: "remote_result \<Rightarrow> bool" where
  "valid_result r \<longleftrightarrow> check_result r = Inr () \<and> list_all (\<lambda>a. check_output_artifact a = Inr ()) (rr_artifacts r) \<and>
     list_all valid_event (rr_events r) \<and> valid_usage (rr_usage r) \<and> valid_provenance (rr_provenance r)"

definition valid_ledger :: "ledger_entry \<Rightarrow> bool" where
  "valid_ledger l \<longleftrightarrow> check_ledger_entry l = Inr () \<and> is_sha256 (lge_attempt_id l) \<and> valid_usage (lge_usage l) \<and>
     valid_provenance (lge_provenance l)"

locale stored_value =
  fixes payload :: "'a \<Rightarrow> json"
    and from_payload :: "json \<Rightarrow> 'a res"
    and valid :: "'a \<Rightarrow> bool"
  assumes payload_plain: "valid x \<Longrightarrow> plain_json (payload x)"
    and payload_back: "valid x \<Longrightarrow> from_payload (sorted_json (payload x)) = Inr x"
begin

lemma text_round_trip:
  assumes "stdlib_ok py" and "valid x"
  shows "rbind (load_json py (py_dumps py (payload x)) label) from_payload = Inr x"
  using stdlib_okD(2) [OF assms(1) payload_plain [OF assms(2)]] payload_back [OF assms(2)] by (simp add: load_json_def)

lemma text_injective:
  assumes "stdlib_ok py" and "valid x" and "valid y" and "py_dumps py (payload x) = py_dumps py (payload y)"
  shows "x = y"
  using text_round_trip [OF assms(1,2), of "[]"] text_round_trip [OF assms(1,3), of "[]"]
  unfolding assms(4) by (metis sum.inject(2))

end

subsection \<open>Looking up the items of a sorted object\<close>

named_theorems decode_simps

lemma expect_object_sorted [decode_simps]:
  "fst ` set d = set ks \<Longrightarrow> expect_object (JObj (sorted_dict d)) label ks = Inr (sorted_dict d)"
  by (simp add: expect_object_def)

lemma item_sorted [decode_simps]: "distinct (map fst d) \<Longrightarrow> json_item (sorted_dict d) k = sorted_json (json_item d k)"
  by (simp add: json_item_def map_of_sorted_dict split: option.split)

lemma item_Cons [decode_simps]: "json_item ((k, v) # d) k' = (if k = k' then v else json_item d k')"
  by (simp add: json_item_def)

lemma expect_simps [decode_simps]:
  "expect_str (JStr x) label = Inr x" "x \<noteq> [] \<Longrightarrow> expect_nonempty_str (JStr x) label = Inr x"
  "expect_bool (JBool b) label = Inr b" "expect_int (JInt n) label = Inr n" "expect_list (JList xs) label = Inr xs"
  "expect_number py (JFloat y) label = Inr y" "expect_exact_number py (JFloat y) label = Inr y"
  "0 < y \<Longrightarrow> expect_positive_number py (JFloat y) label = Inr y"
  "is_sha256 x \<Longrightarrow> expect_sha256 (JStr x) label = Inr x"
  by (simp_all add: expect_str_def expect_nonempty_str_def expect_bool_def expect_int_def expect_list_def expect_number_def
      expect_exact_number_def expect_positive_number_def expect_sha256_def)

lemma sorted_opt [decode_simps]:
  "sorted_json (opt_json JInt i) = opt_json JInt i" "sorted_json (opt_json JFloat y) = opt_json JFloat y"
  "sorted_json (opt_json JStr x) = opt_json JStr x"
  by (simp_all add: opt_json_def split: option.split)

lemma expect_opt [decode_simps]:
  "expect_optional_int (opt_json JInt i) label = Inr i"
  "expect_optional_exact_number py (opt_json JFloat y) label = Inr y"
  "expect_optional_number py (opt_json JFloat y) label = Inr y"
  by (cases i; simp add: opt_json_def expect_optional_int_def expect_simps)
     (cases y; simp add: opt_json_def expect_optional_exact_number_def expect_optional_number_def expect_simps)+

lemma plain_opt [simp]:
  "plain_json (opt_json JInt i)" "plain_json (opt_json JStr x)" "plain_json (opt_json JFloat y) \<longleftrightarrow> opt_all is_double y"
  by (simp_all add: opt_json_def opt_all_def split: option.split)

lemma strip_nonempty: "strip x \<noteq> [] \<Longrightarrow> x \<noteq> []"
  by auto

lemma map_res_inverse_on: "\<forall>x \<in> set xs. f (g x) = Inr x \<Longrightarrow> map_res f (map g xs) = Inr xs"
  by (induction xs) auto

lemma plain_validates: "plain_json j \<Longrightarrow> validate_json_value label j = Inr ()"
proof (induction j rule: plain_json.induct)
  case (7 xs)
  then have "\<forall>x \<in> set xs. \<exists>y. validate_json_value label x = Inr y" by (auto simp: list_all_iff)
  from map_res_total [OF this] show ?case by auto
next
  case (8 d)
  then have "\<forall>x \<in> set d. \<exists>y. validate_json_value label (snd x) = Inr y" by (auto simp: list_all_iff)
  from map_res_total [OF this] show ?case by auto
qed auto

lemma expect_json_object_back:
  assumes "canonical_dict d"
  shows "expect_json_object (JObj d) label = Inr d"
proof -
  have "\<forall>x \<in> set d. \<exists>y. validate_json_value label (snd x) = Inr y"
    using assms by (auto simp: canonical_dict_def list_all_iff plain_validates)
  from map_res_total [OF this] show ?thesis using assms by (auto simp: expect_json_object_def canonical_dict_def)
qed

subsection \<open>The parts\<close>

lemma sorted_list_JStr [decode_simps]: "map (sorted_json \<circ> JStr) xs = map JStr xs"
  by (simp add: comp_def)

lemmas check_simps = rbind_eq_Inr ensure_eq_Inr require_nonempty_def require_nonnegative_def require_sha256_def check_status_def

text \<open>A record is built from its own fields.\<close>

lemma record_eta [decode_simps]:
  "\<lparr>usa_wall_seconds = usa_wall_seconds (r1 :: resource_usage), usa_cpu_seconds = usa_cpu_seconds r1, usa_peak_memory_mb = usa_peak_memory_mb r1, usa_accelerator_seconds = usa_accelerator_seconds r1, usa_accelerator_peak_memory_mb = usa_accelerator_peak_memory_mb r1\<rparr> = r1"
  "\<lparr>clo_attempted = clo_attempted (r2 :: cleanup_outcome), clo_succeeded = clo_succeeded r2, clo_resource_id = clo_resource_id r2, clo_detail = clo_detail r2\<rparr> = r2"
  "\<lparr>ipv_name = ipv_name (r3 :: input_provenance), ipv_sha256 = ipv_sha256 r3, ipv_size_bytes = ipv_size_bytes r3, ipv_media_type = ipv_media_type r3\<rparr> = r3"
  "\<lparr>ren_image = ren_image (r4 :: resolved_environment), ren_region = ren_region r4, ren_accelerator_kind = ren_accelerator_kind r4, ren_accelerator_count = ren_accelerator_count r4, ren_runtime = ren_runtime r4\<rparr> = r4"
  "\<lparr>pv_image = pv_image (r5 :: provenance), pv_image_digest = pv_image_digest r5, pv_package_sha256 = pv_package_sha256 r5, pv_inputs = pv_inputs r5, pv_seed = pv_seed r5, pv_fixture_digest = pv_fixture_digest r5, pv_fixture_state_sha256 = pv_fixture_state_sha256 r5, pv_fixture_observation_sha256 = pv_fixture_observation_sha256 r5, pv_request_sha256 = pv_request_sha256 r5, pv_requested_region = pv_requested_region r5, pv_requested_accelerator_kind = pv_requested_accelerator_kind r5, pv_requested_accelerator_count = pv_requested_accelerator_count r5, pv_requested_accelerator_memory_gb = pv_requested_accelerator_memory_gb r5, pv_required_telemetry = pv_required_telemetry r5, pv_resolved = pv_resolved r5\<rparr> = r5"
  "\<lparr>oa_name = oa_name (r6 :: output_artifact), oa_content = oa_content r6, oa_media_type = oa_media_type r6\<rparr> = r6"
  "\<lparr>rev_sequence = rev_sequence (r7 :: remote_event), rev_type = rev_type r7, rev_message = rev_message r7, rev_fields = rev_fields r7\<rparr> = r7"
  "\<lparr>rr_task_id = rr_task_id (r8 :: remote_result), rr_provider = rr_provider r8, rr_status = rr_status r8, rr_stdout = rr_stdout r8, rr_stderr = rr_stderr r8, rr_exit_code = rr_exit_code r8, rr_artifacts = rr_artifacts r8, rr_events = rr_events r8, rr_usage = rr_usage r8, rr_cleanup = rr_cleanup r8, rr_error = rr_error r8, rr_session_id = rr_session_id r8, rr_provenance = rr_provenance r8, rr_retryable = rr_retryable r8\<rparr> = r8"
  "\<lparr>lge_task_id = lge_task_id (r9 :: ledger_entry), lge_provider = lge_provider r9, lge_status = lge_status r9, lge_candidate_succeeded = lge_candidate_succeeded r9, lge_infrastructure_succeeded = lge_infrastructure_succeeded r9, lge_exit_code = lge_exit_code r9, lge_usage = lge_usage r9, lge_cleanup = lge_cleanup r9, lge_detail = lge_detail r9, lge_provenance = lge_provenance r9, lge_retryable = lge_retryable r9, lge_attempt_id = lge_attempt_id r9\<rparr> = r9"
  by simp_all

lemma cleanup_back: "cleanup_from_payload (sorted_json (cleanup_payload c)) = Inr c"
  unfolding cleanup_payload_def cleanup_from_payload_def sorted_json_obj
  by (simp add: decode_simps)

lemma usage_back: "valid_usage u \<Longrightarrow> usage_from_payload py (sorted_json (usage_payload u)) = Inr u"
  unfolding usage_payload_def usage_from_payload_def sorted_json_obj valid_usage_def
  by (simp add: decode_simps Let_def)

lemma usage_plain: "valid_usage u \<Longrightarrow> plain_json (usage_payload u)"
  by (simp add: usage_payload_def valid_usage_def)

lemma cleanup_plain: "plain_json (cleanup_payload c)"
  by (simp add: cleanup_payload_def)

lemma provenance_input_back:
  assumes "check_input_provenance i = Inr ()"
  shows "provenance_input (sorted_json (JObj [(''name'', JStr (ipv_name i)), (''sha256'', JStr (ipv_sha256 i)),
      (''size_bytes'', JInt (ipv_size_bytes i)), (''media_type'', JStr (ipv_media_type i))])) = Inr i"
proof -
  have "ipv_name i \<noteq> []" "ipv_media_type i \<noteq> []" "is_sha256 (ipv_sha256 i)"
    using assms by (auto simp: check_input_provenance_def check_simps)
  then show ?thesis using assms unfolding provenance_input_def sorted_json_obj
    by (simp add: decode_simps Let_def)
qed

lemma resolved_back:
  "check_resolved_environment e = Inr () \<Longrightarrow>
   resolved_from_payload (sorted_dict [(''image'', JStr (ren_image e)), (''region'', JStr (ren_region e)),
      (''accelerator_kind'', JStr (ren_accelerator_kind e)), (''accelerator_count'', JInt (ren_accelerator_count e)),
      (''runtime'', JStr (ren_runtime e))]) = Inr e"
  unfolding resolved_from_payload_def by (simp add: decode_simps Let_def)

lemma require_all_nonempty_iff: "require_all_nonempty label xs = Inr u \<longleftrightarrow> list_all (\<lambda>x. strip x \<noteq> []) xs"
  by (induction xs) (auto simp: check_simps)

lemma provenance_back:
  assumes "valid_provenance p"
  shows "provenance_from_payload py (sorted_json (provenance_payload p)) = Inr p"
proof -
  have i: "map_res provenance_input (map (sorted_json \<circ> (\<lambda>i. JObj [(''name'', JStr (ipv_name i)), (''sha256'', JStr (ipv_sha256 i)),
      (''size_bytes'', JInt (ipv_size_bytes i)), (''media_type'', JStr (ipv_media_type i))])) (pv_inputs p)) = Inr (pv_inputs p)"
    using assms unfolding comp_def map_map [symmetric]
    by (subst map_res_inverse_on) (simp_all add: valid_provenance_def list_all_iff provenance_input_back del: sorted_json.simps(8))
  have tl: "list_all (\<lambda>x. strip x \<noteq> []) (pv_required_telemetry p)"
    using assms by (auto simp: valid_provenance_def check_provenance_def check_simps require_all_nonempty_iff)
  have t: "map_res (\<lambda>x. expect_nonempty_str x ''required telemetry kind'') (map JStr (pv_required_telemetry p)) = Inr (pv_required_telemetry p)"
    by (rule map_res_inverse_on, rule ballI, rule expect_simps(2), rule strip_nonempty) (use tl in \<open>simp add: list_all_iff\<close>)
  show ?thesis
    using assms i t resolved_back [of "pv_resolved p"]
    unfolding provenance_payload_def provenance_from_payload_def sorted_json_obj valid_provenance_def provenance_keys_def
    by (simp add: decode_simps Let_def sorted_json_obj del: sorted_json.simps(8))
qed


lemma is_double_opt: "opt_all is_double y = (case y of None \<Rightarrow> True | Some x \<Rightarrow> is_double x)"
  by (simp add: opt_all_def)

lemma provenance_plain: "valid_provenance p \<Longrightarrow> plain_json (provenance_payload p)"
  by (simp add: provenance_payload_def valid_provenance_def list_all_iff)

lemma artifact_back:
  assumes "stdlib_ok py" and "check_output_artifact a = Inr ()"
  shows "artifact_from_payload py (sorted_json (artifact_payload py a)) = Inr a"
proof -
  have "oa_name a \<noteq> []" "oa_media_type a \<noteq> []"
    using assms(2) by (auto simp: check_output_artifact_def validate_artifact_name_def check_simps)
  then show ?thesis using assms(2) stdlib_okD(3) [OF assms(1)]
    unfolding artifact_payload_def artifact_from_payload_def sorted_json_obj by (simp add: decode_simps Let_def)
qed

lemma artifact_plain: "plain_json (artifact_payload py a)"
  by (simp add: artifact_payload_def)

lemma event_back:
  assumes "valid_event e"
  shows "event_from_payload (sorted_json (remote_event_payload e)) = Inr e"
proof -
  have "rev_type e \<noteq> []" using assms by (auto simp: valid_event_def check_event_def check_simps)
  moreover have c: "canonical_dict (rev_fields e)" using assms by (simp add: valid_event_def)
  moreover have "sorted_json (JObj (rev_fields e)) = JObj (rev_fields e)"
    using c unfolding sorted_json_obj by (simp add: canonical_dict_def)
  ultimately show ?thesis using assms unfolding remote_event_payload_def event_from_payload_def sorted_json_obj [of "_ # _"] valid_event_def
    by (simp add: decode_simps expect_json_object_back Let_def del: sorted_json.simps(8))
qed

lemma event_plain: "valid_event e \<Longrightarrow> plain_json (remote_event_payload e)"
  by (simp add: remote_event_payload_def valid_event_def canonical_dict_def)

lemma result_plain: "valid_result r \<Longrightarrow> plain_json (result_payload py r)"
  unfolding result_payload_def valid_result_def
  by (simp add: list_all_iff artifact_plain event_plain usage_plain cleanup_plain provenance_plain)

lemma status_back: "x \<in> set execution_statuses \<Longrightarrow> expect_execution_status (JStr x) = Inr x"
  by (simp add: expect_execution_status_def decode_simps)

lemma list_back:
  assumes "\<And>x. x \<in> set xs \<Longrightarrow> f (sorted_json (g x)) = Inr x"
  shows "map_res f (map (sorted_json \<circ> g) xs) = Inr xs"
  using assms by (induction xs) simp_all

lemma result_back:
  assumes "stdlib_ok py" and "valid_result r"
  shows "result_from_payload py (sorted_json (result_payload py r)) = Inr r"
proof -
  note v = assms(2) [unfolded valid_result_def list_all_iff]
  have a: "map_res (artifact_from_payload py) (map (sorted_json \<circ> artifact_payload py) (rr_artifacts r)) = Inr (rr_artifacts r)"
    by (rule list_back) (use v artifact_back [OF assms(1)] in blast)
  have e: "map_res event_from_payload (map (sorted_json \<circ> remote_event_payload) (rr_events r)) = Inr (rr_events r)"
    by (rule list_back) (use v event_back in blast)
  have u: "usage_from_payload py (sorted_json (usage_payload (rr_usage r))) = Inr (rr_usage r)"
    and p: "provenance_from_payload py (sorted_json (provenance_payload (rr_provenance r))) = Inr (rr_provenance r)"
    using v by (simp_all add: usage_back provenance_back)
  have c: "check_result r = Inr ()" using v by simp
  then have n: "rr_task_id r \<noteq> []" "rr_provider r \<noteq> []" "rr_status r \<in> set execution_statuses"
    by (auto simp: check_result_def check_simps)
  define d where "d = [(''schema_version'', JInt 1),
     (''task_id'', JStr (rr_task_id r)),
     (''provider'', JStr (rr_provider r)),
     (''status'', JStr (rr_status r)),
     (''stdout'', JStr (rr_stdout r)),
     (''stderr'', JStr (rr_stderr r)),
     (''exit_code'', opt_json JInt (rr_exit_code r)),
     (''artifacts'', JList (map (artifact_payload py) (rr_artifacts r))),
     (''events'', JList (map remote_event_payload (rr_events r))),
     (''usage'', usage_payload (rr_usage r)),
     (''cleanup'', cleanup_payload (rr_cleanup r)),
     (''error'', JStr (rr_error r)),
     (''session_id'', JStr (rr_session_id r)),
     (''provenance'', provenance_payload (rr_provenance r)),
     (''retryable'', JBool (rr_retryable r))]"
  have dist: "distinct (map fst d)" unfolding d_def by simp
  have ks: "fst ` set d = set result_keys" unfolding d_def result_keys_def by simp
  have items: "json_item d ''schema_version'' = JInt 1"
    "json_item d ''task_id'' = JStr (rr_task_id r)"
    "json_item d ''provider'' = JStr (rr_provider r)"
    "json_item d ''status'' = JStr (rr_status r)"
    "json_item d ''stdout'' = JStr (rr_stdout r)"
    "json_item d ''stderr'' = JStr (rr_stderr r)"
    "json_item d ''exit_code'' = opt_json JInt (rr_exit_code r)"
    "json_item d ''artifacts'' = JList (map (artifact_payload py) (rr_artifacts r))"
    "json_item d ''events'' = JList (map remote_event_payload (rr_events r))"
    "json_item d ''usage'' = usage_payload (rr_usage r)"
    "json_item d ''cleanup'' = cleanup_payload (rr_cleanup r)"
    "json_item d ''error'' = JStr (rr_error r)"
    "json_item d ''session_id'' = JStr (rr_session_id r)"
    "json_item d ''provenance'' = provenance_payload (rr_provenance r)"
    "json_item d ''retryable'' = JBool (rr_retryable r)"
    unfolding d_def by (simp_all add: item_Cons)
  have "result_payload py r = JObj d" unfolding result_payload_def d_def by simp
  then show ?thesis
    unfolding result_from_payload_def
    by (simp add: sorted_json_obj expect_object_sorted [OF ks] item_sorted [OF dist] items decode_simps Let_def
        expect_schema_version_def invalid_artifacts_def status_back a e u p c n cleanup_back del: sorted_json.simps(8))
qed

lemma ledger_back:
  assumes "valid_ledger l"
  shows "ledger_from_payload py (sorted_json (ledger_payload l)) = Inr l"
proof -
  note v = assms [unfolded valid_ledger_def]
  have u: "usage_from_payload py (sorted_json (usage_payload (lge_usage l))) = Inr (lge_usage l)"
    and p: "provenance_from_payload py (sorted_json (provenance_payload (lge_provenance l))) = Inr (lge_provenance l)"
    and h: "is_sha256 (lge_attempt_id l)"
    using v by (simp_all add: usage_back provenance_back)
  have c: "check_ledger_entry l = Inr ()" using v by simp
  then have n: "lge_task_id l \<noteq> []" "lge_provider l \<noteq> []" "lge_status l \<in> set execution_statuses"
    by (auto simp: check_ledger_entry_def check_simps)
  define d where "d = [(''schema_version'', JInt 1),
     (''task_id'', JStr (lge_task_id l)),
     (''provider'', JStr (lge_provider l)),
     (''status'', JStr (lge_status l)),
     (''candidate_succeeded'', JBool (lge_candidate_succeeded l)),
     (''infrastructure_succeeded'', JBool (lge_infrastructure_succeeded l)),
     (''exit_code'', opt_json JInt (lge_exit_code l)),
     (''usage'', usage_payload (lge_usage l)),
     (''cleanup'', cleanup_payload (lge_cleanup l)),
     (''detail'', JStr (lge_detail l)),
     (''provenance'', provenance_payload (lge_provenance l)),
     (''retryable'', JBool (lge_retryable l)),
     (''attempt_id'', JStr (lge_attempt_id l))]"
  have dist: "distinct (map fst d)" unfolding d_def by simp
  have ks: "fst ` set d = set ledger_keys" unfolding d_def ledger_keys_def by simp
  have items: "json_item d ''schema_version'' = JInt 1"
    "json_item d ''task_id'' = JStr (lge_task_id l)"
    "json_item d ''provider'' = JStr (lge_provider l)"
    "json_item d ''status'' = JStr (lge_status l)"
    "json_item d ''candidate_succeeded'' = JBool (lge_candidate_succeeded l)"
    "json_item d ''infrastructure_succeeded'' = JBool (lge_infrastructure_succeeded l)"
    "json_item d ''exit_code'' = opt_json JInt (lge_exit_code l)"
    "json_item d ''usage'' = usage_payload (lge_usage l)"
    "json_item d ''cleanup'' = cleanup_payload (lge_cleanup l)"
    "json_item d ''detail'' = JStr (lge_detail l)"
    "json_item d ''provenance'' = provenance_payload (lge_provenance l)"
    "json_item d ''retryable'' = JBool (lge_retryable l)"
    "json_item d ''attempt_id'' = JStr (lge_attempt_id l)"
    unfolding d_def by (simp_all add: item_Cons)
  have "ledger_payload l = JObj d" unfolding ledger_payload_def d_def by simp
  then show ?thesis
    unfolding ledger_from_payload_def
    by (simp add: sorted_json_obj expect_object_sorted [OF ks] item_sorted [OF dist] items decode_simps Let_def
        expect_schema_version_def invalid_artifacts_def status_back u p c n h cleanup_back del: sorted_json.simps(8))
qed

lemma ledger_plain: "valid_ledger l \<Longrightarrow> plain_json (ledger_payload l)"
  unfolding ledger_payload_def valid_ledger_def by (simp add: usage_plain cleanup_plain provenance_plain)

interpretation ledger_codec: stored_value ledger_payload "ledger_from_payload py" valid_ledger for py
  by unfold_locales (simp_all add: ledger_plain ledger_back)

interpretation result_codec: stored_value "result_payload py" "result_from_payload py" "\<lambda>r. stdlib_ok py \<and> valid_result r" for py
  by unfold_locales (simp_all add: result_plain result_back)

lemma valid_to_ledger_entry:
  assumes "valid_result r" and "is_sha256 aid"
  shows "valid_ledger (to_ledger_entry r aid)"
proof -
  have "check_result r = Inr ()" using assms by (simp add: valid_result_def)
  then show ?thesis using assms
    by (simp add: valid_ledger_def valid_result_def to_ledger_entry_def Let_def check_ledger_entry_def check_result_def check_simps)
qed

end
