(* ===== verification/Outbox_Requests.thy ===== *)
theory Outbox_Requests
  imports Outbox_Roundtrip
begin

text \<open>
  The stored form of a request: what \<open>request_status_payload\<close> reads back from what
  \<open>request_payload\<close> has written.
\<close>

definition valid_remote_request :: "remote_request \<Rightarrow> bool" where
  "valid_remote_request q \<longleftrightarrow> check_request_shape q = Inr () \<and> check_resources (rq_resources q) = Inr () \<and>
     opt_all (\<lambda>a. check_accelerator a = Inr () \<and> opt_all is_double (acc_memory_gb a)) (rem_accelerator (rq_resources q)) \<and>
     list_all (\<lambda>g. check_secret_grant g = Inr () \<and> is_double (gra_expires_at g)) (rq_secret_grants q) \<and>
     list_all (\<lambda>a. check_input_artifact a = Inr ()) (rq_input_artifacts q) \<and>
     is_double (rem_cpu_cores (rq_resources q)) \<and> is_double (rem_memory_gb (rq_resources q)) \<and>
     is_double (rem_disk_gb (rq_resources q)) \<and> is_double (rq_timeout_seconds q) \<and>
     distinct (map fst (rq_environment q)) \<and> distinct (map fst (rq_metadata q))"

definition status_of_request :: "stdlib \<Rightarrow> string \<Rightarrow> remote_request \<Rightarrow> request_status" where
  "status_of_request py provider q = \<lparr>rqs_provider = provider, rqs_task_id = rq_task_id q,
     rqs_request_sha256 = request_sha256 py q, rqs_timeout_seconds = rq_timeout_seconds q,
     rqs_cpu_cores = rem_cpu_cores (rq_resources q), rqs_memory_gb = rem_memory_gb (rq_resources q),
     rqs_disk_gb = rem_disk_gb (rq_resources q),
     rqs_accelerator_kind = (case rem_accelerator (rq_resources q) of Some a \<Rightarrow> acc_kind a | None \<Rightarrow> []),
     rqs_accelerator_count = (case rem_accelerator (rq_resources q) of Some a \<Rightarrow> acc_count a | None \<Rightarrow> 0)\<rparr>"

lemma valid_requestD:
  assumes "valid_remote_request q"
  shows "rq_task_id q \<noteq> []" "strip (rq_task_id q) \<noteq> []" "0 < rq_timeout_seconds q" "rq_network_policy q \<in> {''deny'', ''allow''}"
    "rq_lifecycle q \<in> {''ephemeral_per_eval'', ''reuse_matched_trials'', ''warm_snapshot''}"
    "rq_required_telemetry q \<subseteq> telemetry_kinds" "opt_all (\<lambda>x. strip x \<noteq> []) (rq_region q)"
    "validate_artifact_names (rq_expected_outputs q) = Inr ()" "list_all (\<lambda>(k, _). k \<noteq> []) (rq_metadata q)"
    "0 < rem_cpu_cores (rq_resources q)" "0 < rem_memory_gb (rq_resources q)" "0 < rem_disk_gb (rq_resources q)"
proof -
  have c: "check_request_shape q = Inr ()" "check_resources (rq_resources q) = Inr ()" using assms by (simp_all add: valid_remote_request_def)
  from c show "0 < rem_cpu_cores (rq_resources q)" "0 < rem_memory_gb (rq_resources q)" "0 < rem_disk_gb (rq_resources q)"
    by (simp_all add: check_resources_def check_simps)
  note shape = c(1) [unfolded check_request_shape_def check_requirements_def rbind_unit_Inr ensure_eq_Inr]
  from shape show "strip (rq_task_id q) \<noteq> []" "0 < rq_timeout_seconds q" "rq_network_policy q \<in> {''deny'', ''allow''}"
    "rq_lifecycle q \<in> {''ephemeral_per_eval'', ''reuse_matched_trials'', ''warm_snapshot''}"
    "rq_required_telemetry q \<subseteq> telemetry_kinds" "opt_all (\<lambda>x. strip x \<noteq> []) (rq_region q)"
    "validate_artifact_names (rq_expected_outputs q) = Inr ()" "list_all (\<lambda>(k, _). k \<noteq> []) (rq_metadata q)"
    by (simp_all only: simp_thms)
  then show "rq_task_id q \<noteq> []" by auto
qed

lemma validate_artifact_names_iff: "validate_artifact_names xs = Inr u \<longleftrightarrow> list_all (\<lambda>x. validate_artifact_name x = Inr ()) xs"
  by (induction xs) (auto simp: rbind_eq_Inr)

lemma telemetry_list:
  assumes "rq_required_telemetry q \<subseteq> telemetry_kinds"
  shows "set (sorted_list_of_set (rq_required_telemetry q)) = rq_required_telemetry q" and "\<forall>x \<in> rq_required_telemetry q. x \<noteq> []"
proof -
  have "finite (rq_required_telemetry q)" by (rule finite_subset [OF assms]) (simp add: telemetry_kinds_def)
  then show "set (sorted_list_of_set (rq_required_telemetry q)) = rq_required_telemetry q" by simp
  show "\<forall>x \<in> rq_required_telemetry q. x \<noteq> []" using assms by (auto simp: telemetry_kinds_def)
qed

lemma build_provenance_valid:
  assumes "build_request_provenance py q env = Inr p" and "valid_remote_request q" and "check_resolved_environment env = Inr ()"
  shows "valid_provenance p" and "pv_resolved p = env"
proof -
  obtain inputs fx where i: "map_res (input_provenance_of py) (rq_input_artifacts q) = Inr inputs"
    and p: "pv_inputs p = inputs" "pv_resolved p = env" "check_provenance p = Inr ()"
      "pv_requested_accelerator_memory_gb p = (case rem_accelerator (rq_resources q) of Some a \<Rightarrow> acc_memory_gb a | None \<Rightarrow> None)"
    using assms(1) unfolding build_request_provenance_def Let_def by (auto simp: rbind_eq_Inr split: prod.splits)
  from map_res_Inr [OF i] have "list_all (\<lambda>i. check_input_provenance i = Inr ()) inputs"
    by (auto simp: list_all_length list_all2_conv_all_nth input_provenance_of_def Let_def rbind_eq_Inr)
  moreover have "opt_all is_double (pv_requested_accelerator_memory_gb p)"
    using assms(2) unfolding p(4) by (auto simp: valid_remote_request_def opt_all_def split: option.splits)
  ultimately show "valid_provenance p" using p assms(3) by (simp add: valid_provenance_def)
  show "pv_resolved p = env" by (rule p)
qed

lemma no_resolved_ok: "check_resolved_environment no_resolved_environment = Inr ()"
  by (simp add: check_resolved_environment_def no_resolved_environment_def require_nonnegative_def)

lemma accelerator_back:
  assumes "opt_all (\<lambda>a. check_accelerator a = Inr () \<and> opt_all is_double (acc_memory_gb a)) x"
  shows "accelerator_status py (sorted_json (opt_json accelerator_payload x)) =
    Inr (case x of Some a \<Rightarrow> (acc_kind a, acc_count a) | None \<Rightarrow> ([], 0))"
proof (cases x)
  case (Some a)
  with assms have "acc_kind a \<noteq> []" "1 \<le> acc_count a" "opt_all ((<) 0) (acc_memory_gb a)"
    by (auto simp: opt_all_def check_accelerator_def check_simps)
  moreover have "opt_json accelerator_payload x = accelerator_payload a" by (simp add: Some opt_json_def)
  ultimately show ?thesis unfolding accelerator_payload_def
    by (simp add: Some sorted_json_obj accelerator_status_def decode_simps del: sorted_json.simps(8))
qed (simp add: opt_json_def accelerator_status_def)

lemma accelerator_plain:
  "opt_all (\<lambda>a. check_accelerator a = Inr () \<and> opt_all is_double (acc_memory_gb a)) x \<Longrightarrow> plain_json (opt_json accelerator_payload x)"
  by (auto simp: opt_json_def opt_all_def accelerator_payload_def split: option.splits)

lemma resources_plain: "valid_remote_request q \<Longrightarrow> plain_json (resources_payload (rq_resources q))"
  by (simp add: resources_payload_def valid_remote_request_def accelerator_plain)

lemma metadata_back:
  assumes "distinct (map fst md)" and "list_all (\<lambda>(k, _). k \<noteq> []) md"
  shows "\<exists>d. expect_json_object (sorted_json (JObj (map (\<lambda>(k, v). (k, JStr v)) md))) label = Inr d \<and>
    list_all (\<lambda>(k, x). k \<noteq> [] \<and> is_string x) d"
proof -
  let ?d = "map (\<lambda>(k, v). (k, JStr v)) md"
  have k: "map fst ?d = map fst md" by (simp add: comp_def case_prod_beta)
  have s: "map (\<lambda>x. (fst x, sorted_json (snd x))) ?d = ?d" by (simp add: comp_def case_prod_beta)
  have "plain_json (JObj ?d)" using assms(1) unfolding plain_json.simps k by (simp add: list_all_iff case_prod_beta)
  then have "plain_json (JObj (sorted_dict ?d))" using plain_sorted unfolding sorted_json_obj [symmetric] by blast
  moreover have "sorted_dict (sorted_dict ?d) = sorted_dict ?d"
  proof -
    have "map (\<lambda>x. (fst x, sorted_json (snd x))) (sort_key fst ?d) = sort_key fst ?d" by (rule map_idI) auto
    then show ?thesis unfolding sorted_dict_def s by (simp add: sort_key_id_if_sorted del: set_sort)
  qed
  ultimately have "canonical_dict (sorted_dict ?d)" by (simp add: canonical_dict_def)
  from expect_json_object_back [OF this] show ?thesis
    using assms(2) unfolding sorted_json_obj sorted_dict_def s
    by (intro exI [of _ "sort_key fst ?d"]) (auto simp: list_all_iff is_string_def)
qed


lemma request_payload_plain:
  assumes "request_payload py provider q = Inr j" and "valid_remote_request q"
  shows "plain_json j"
proof -
  obtain p where p: "build_request_provenance py q no_resolved_environment = Inr p"
    using assms(1) by (auto simp: request_payload_def rbind_eq_Inr)
  have "plain_json (provenance_payload p)"
    by (rule provenance_plain) (rule build_provenance_valid(1) [OF p assms(2) no_resolved_ok])
  moreover have "distinct (map (fst \<circ> (\<lambda>(k, v). (k, JStr v))) (rq_metadata q))"
    using assms(2) by (simp add: valid_remote_request_def comp_def case_prod_beta)
  moreover have "is_double (rq_timeout_seconds q)" using assms(2) by (simp add: valid_remote_request_def)
  ultimately show ?thesis using assms(1) p resources_plain [OF assms(2)]
    by (auto simp: request_payload_def list_all_iff case_prod_beta)
qed

lemma strings_back: "list_all (\<lambda>x. x \<noteq> []) xs \<Longrightarrow> map_res (\<lambda>x. expect_nonempty_str x label) (map JStr xs) = Inr xs"
  by (induction xs) (simp_all add: expect_simps)

lemma request_back:
  assumes "stdlib_ok py" and "provider \<noteq> []" and "valid_remote_request q" and "request_payload py provider q = Inr j"
  shows "request_status_payload py (sorted_json j) = Inr (status_of_request py provider q)"
proof -
  obtain p where p: "build_request_provenance py q no_resolved_environment = Inr p"
    using assms(4) by (auto simp: request_payload_def rbind_eq_Inr)
  define d where "d = [(''schema_version'', JInt 1), (''provider'', JStr provider), (''task_id'', JStr (rq_task_id q)),
        (''request_sha256'', JStr (request_sha256 py q)), (''provenance'', provenance_payload p),
        (''lifecycle'', JStr (rq_lifecycle q)), (''timeout_seconds'', JFloat (rq_timeout_seconds q)),
        (''resources'', resources_payload (rq_resources q)), (''region'', opt_json JStr (rq_region q)),
        (''required_telemetry'', JList (map JStr (sorted_list_of_set (rq_required_telemetry q)))),
        (''network_policy'', JStr (rq_network_policy q)), (''expected_outputs'', JList (map JStr (rq_expected_outputs q))),
        (''metadata'', JObj (map (\<lambda>(k, v). (k, JStr v)) (rq_metadata q)))]"
  have dist: "distinct (map fst d)" unfolding d_def by simp
  have ks: "fst ` set d = set request_keys" unfolding d_def request_keys_def by simp
  have items: "json_item d ''schema_version'' = JInt 1" "json_item d ''provider'' = JStr provider" "json_item d ''task_id'' = JStr (rq_task_id q)"
    "json_item d ''request_sha256'' = JStr (request_sha256 py q)" "json_item d ''provenance'' = provenance_payload p"
    "json_item d ''lifecycle'' = JStr (rq_lifecycle q)" "json_item d ''timeout_seconds'' = JFloat (rq_timeout_seconds q)"
    "json_item d ''resources'' = resources_payload (rq_resources q)" "json_item d ''region'' = opt_json JStr (rq_region q)"
    "json_item d ''required_telemetry'' = JList (map JStr (sorted_list_of_set (rq_required_telemetry q)))"
    "json_item d ''network_policy'' = JStr (rq_network_policy q)" "json_item d ''expected_outputs'' = JList (map JStr (rq_expected_outputs q))"
    "json_item d ''metadata'' = JObj (map (\<lambda>(k, v). (k, JStr v)) (rq_metadata q))"
    unfolding d_def by (simp_all add: item_Cons)
  define rd where "rd = [(''cpu_cores'', JFloat (rem_cpu_cores (rq_resources q))), (''memory_gb'', JFloat (rem_memory_gb (rq_resources q))),
     (''disk_gb'', JFloat (rem_disk_gb (rq_resources q))), (''accelerator'', opt_json accelerator_payload (rem_accelerator (rq_resources q)))]"
  have rdist: "distinct (map fst rd)" unfolding rd_def by simp
  have rks: "fst ` set rd = set [''cpu_cores'', ''memory_gb'', ''disk_gb'', ''accelerator'']" unfolding rd_def by simp
  have ritems: "json_item rd ''cpu_cores'' = JFloat (rem_cpu_cores (rq_resources q))" "json_item rd ''memory_gb'' = JFloat (rem_memory_gb (rq_resources q))"
    "json_item rd ''disk_gb'' = JFloat (rem_disk_gb (rq_resources q))"
    "json_item rd ''accelerator'' = opt_json accelerator_payload (rem_accelerator (rq_resources q))"
    unfolding rd_def by (simp_all add: item_Cons)
  have rpay: "resources_payload (rq_resources q) = JObj rd" unfolding resources_payload_def rd_def by simp
  note v = valid_requestD [OF assms(3)]
  have prov: "provenance_from_payload py (sorted_json (provenance_payload p)) = Inr p"
    by (rule provenance_back) (rule build_provenance_valid(1) [OF p assms(3) no_resolved_ok])
  have acc: "accelerator_status py (sorted_json (opt_json accelerator_payload (rem_accelerator (rq_resources q)))) =
      Inr (case rem_accelerator (rq_resources q) of Some a \<Rightarrow> (acc_kind a, acc_count a) | None \<Rightarrow> ([], 0))"
    by (rule accelerator_back) (use assms(3) in \<open>simp add: valid_remote_request_def\<close>)
  have region: "(if opt_json JStr (rq_region q) = JNull then Inr [] else expect_nonempty_str (opt_json JStr (rq_region q)) ''request region'') =
      Inr (case rq_region q of Some x \<Rightarrow> x | None \<Rightarrow> [])"
  proof (cases "rq_region q")
    case (Some x)
    then have "x \<noteq> []" using v(7) by (auto simp: opt_all_def)
    then show ?thesis by (simp add: Some opt_json_def expect_simps)
  qed (simp add: opt_json_def)
  have tel: "map_res (\<lambda>x. expect_nonempty_str x ''request telemetry kind'') (map JStr (sorted_list_of_set (rq_required_telemetry q))) =
      Inr (sorted_list_of_set (rq_required_telemetry q))"
    by (rule strings_back) (use telemetry_list [OF v(6)] in \<open>simp add: list_all_iff\<close>)
  have outs: "map_res (\<lambda>x. expect_nonempty_str x ''request expected output'') (map JStr (rq_expected_outputs q)) = Inr (rq_expected_outputs q)"
    by (rule strings_back) (use v(8) in \<open>auto simp: validate_artifact_names_iff list_all_iff validate_artifact_name_def ensure_eq_Inr\<close>)
  obtain md where md: "expect_json_object (sorted_json (JObj (map (\<lambda>(k, v). (k, JStr v)) (rq_metadata q)))) ''request metadata'' = Inr md"
      "list_all (\<lambda>(k, x). k \<noteq> [] \<and> is_string x) md"
    using metadata_back [of "rq_metadata q" "''request metadata''"] v(9) assms(3) by (auto simp: valid_remote_request_def)
  have sha: "is_sha256 (request_sha256 py q)"
    by (simp add: request_sha256_def identity_payload_sha256_def stdlib_okD(1) [OF assms(1)])
  have "j = JObj d" using assms(4) unfolding request_payload_def p d_def by simp
  then show ?thesis
    unfolding request_status_payload_def
    by (cases "rem_accelerator (rq_resources q)")
      (use v(1,3,4,5,10,11,12) assms(2) sha acc md(2) in \<open>simp_all only: sorted_json_obj expect_object_sorted [OF ks] item_sorted [OF dist]
        items rpay expect_object_sorted [OF rks] item_sorted [OF rdist] ritems prov decode_simps rbind_simps expect_schema_version_def
        sorted_json.simps(1-7) list.map_comp sorted_list_JStr region tel outs md(1) [unfolded sorted_json_obj] ensure_simps HOL.simp_thms option.case
        prod.case status_of_request_def\<close>)
qed

end
