(* ===== verification/Outbox_Legacy.thy ===== *)
theory Outbox_Legacy
  imports Outbox_Requests
begin

text \<open>
  Prerelease identities, \<^verbatim>\<open>execution/_external_eval_outbox_identity.py\<close>: the digests that a request
  may have been stored under when its numbers were spelled differently in JSON (\<open>2\<close> for \<open>2.0\<close>).
\<close>

definition legacy_number_matches :: "stdlib \<Rightarrow> json \<Rightarrow> rat \<Rightarrow> string \<Rightarrow> bool res" where
  "legacy_number_matches py v current label = rbind (expect_number py v label) (\<lambda>x.
     Inr (case v of JInt n \<Rightarrow> \<lfloor>x\<rfloor> = n \<and> x = current | _ \<Rightarrow> x = current))"

fun legacy_numbers_match :: "stdlib \<Rightarrow> (json \<times> rat \<times> string) list \<Rightarrow> bool res" where
  "legacy_numbers_match py [] = Inr True"
| "legacy_numbers_match py ((v, current, label) # rest) =
     rbind (legacy_number_matches py v current label) (\<lambda>b. if b then legacy_numbers_match py rest else Inr False)"

definition legacy_accelerator_matches :: "stdlib \<Rightarrow> json \<Rightarrow> accelerator option \<Rightarrow> bool res" where
  "legacy_accelerator_matches py v current = (case current of
       None \<Rightarrow> Inr (v = JNull)
     | Some a \<Rightarrow> if v = JNull then Inr False
         else rbind (expect_object v ''request accelerator'' [''kind'', ''count'', ''memory_gb'']) (\<lambda>d.
           rbind (case acc_memory_gb a of
               None \<Rightarrow> Inr (json_item d ''memory_gb'' = JNull)
             | Some m \<Rightarrow> if json_item d ''memory_gb'' = JNull then Inr False
                 else legacy_number_matches py (json_item d ''memory_gb'') m ''request accelerator memory_gb'') (\<lambda>memory_matches.
           rbind (expect_str (json_item d ''kind'') ''request accelerator kind'') (\<lambda>kind.
           if kind \<noteq> acc_kind a then Inr False
           else rbind (expect_int (json_item d ''count'') ''request accelerator count'') (\<lambda>count.
             Inr (count = acc_count a \<and> memory_matches))))))"

text \<open>The identity payload with the stored spelling of its numbers.\<close>

definition legacy_resources :: "dict \<Rightarrow> accelerator option \<Rightarrow> json" where
  "legacy_resources res acc = JObj [(''cpu_cores'', json_item res ''cpu_cores''), (''memory_gb'', json_item res ''memory_gb''),
     (''disk_gb'', json_item res ''disk_gb''), (''accelerator'', case acc of None \<Rightarrow> JNull
        | Some a \<Rightarrow> JObj [(''kind'', JStr (acc_kind a)), (''count'', JInt (acc_count a)),
            (''memory_gb'', case json_item res ''accelerator'' of JObj d \<Rightarrow> json_item d ''memory_gb'' | _ \<Rightarrow> JNull)])]"

definition expiry_choices :: "stdlib \<Rightarrow> secret_grant \<Rightarrow> json list" where
  "expiry_choices py g = (let x = gra_expires_at g in
     if x = 0 then [JFloat 0, JInt 0, py_neg_zero py]
     else if of_int \<lfloor>x\<rfloor> = x then [JFloat x, JInt \<lfloor>x\<rfloor>] else [JFloat x])"

definition reuse_choices :: "stdlib \<Rightarrow> int \<Rightarrow> json list" where
  "reuse_choices py n = (case py_float py n of
       Some x \<Rightarrow> if \<lfloor>x\<rfloor> = n then [JInt n, JFloat x] else [JInt n]
     | None \<Rightarrow> [JInt n])"

definition legacy_payload :: "stdlib \<Rightarrow> remote_request \<Rightarrow> dict \<Rightarrow> dict \<Rightarrow> json list \<Rightarrow> json \<Rightarrow> dict" where
  "legacy_payload py q d res expiries reuse =
     AList.update ''max_reuse_tasks'' reuse
     (AList.update ''secret_grants'' (JList (map2 (\<lambda>g x. JObj [(''name'', JStr (gra_name g)), (''grant_id'', JStr (gra_id g)),
         (''expires_at'', x)]) (rq_secret_grants q) expiries))
     (AList.update ''resources'' (legacy_resources res (rem_accelerator (rq_resources q)))
     (AList.update ''timeout_seconds'' (json_item d ''timeout_seconds'') (request_identity_payload py q))))"

definition legacy_numeric_conflict :: "string \<Rightarrow> exc" where
  "legacy_numeric_conflict m = UserException ''LegacyNumericIdentityConflictError'' m"

definition legacy_candidates :: "stdlib \<Rightarrow> remote_request \<Rightarrow> json \<Rightarrow> string list res" where
  "legacy_candidates py q stored =
     rbind (expect_object stored ''external-evaluation request payload'' request_keys) (\<lambda>d.
     rbind (expect_object (json_item d ''resources'') ''request resources'' [''cpu_cores'', ''memory_gb'', ''disk_gb'', ''accelerator'']) (\<lambda>res.
     rbind (legacy_numbers_match py
       [(json_item d ''timeout_seconds'', rq_timeout_seconds q, ''request timeout_seconds''),
        (json_item res ''cpu_cores'', rem_cpu_cores (rq_resources q), ''request cpu_cores''),
        (json_item res ''memory_gb'', rem_memory_gb (rq_resources q), ''request memory_gb''),
        (json_item res ''disk_gb'', rem_disk_gb (rq_resources q), ''request disk_gb'')]) (\<lambda>numbers.
     if \<not> numbers then Inr []
     else rbind (legacy_accelerator_matches py (json_item res ''accelerator'') (rem_accelerator (rq_resources q))) (\<lambda>accelerators.
     if \<not> accelerators then Inr []
     else let expiries = map (expiry_choices py) (rq_secret_grants q);
              reuses = reuse_choices py (rq_max_reuse_tasks q);
              choice_count = prod_list (map length expiries) * length reuses
       in if choice_count > 4096
          then Inl (legacy_numeric_conflict (''remote evaluation '' @ py_repr (rq_task_id q) @ '' has too many ambiguous legacy numeric encodings''))
          else Inr (concat (map (\<lambda>es. map (\<lambda>reuse. identity_payload_sha256 py (legacy_payload py q d res es reuse)) reuses)
                 (product_lists expiries)))))))"

end
