(* ===== verification/Outbox.thy ===== *)
theory Outbox
  imports Outbox_Legacy "HOL-Library.Product_Lexorder"
begin

text \<open>
  The durable journal of paid remote evaluations: \<^verbatim>\<open>execution/external_eval_outbox.py\<close> over the table of
  \<^verbatim>\<open>execution/_external_eval_outbox_store.py\<close>.

  A database is its instance identifier and the rows of the table. An operation runs in one
  \<open>BEGIN IMMEDIATE\<close> transaction, so operations of several processes follow one another; one that raises is rolled
  back. The clock \<open>time.time()\<close> and the random token are arguments. Columns have their declared types.
  A database that an older version has written is upgraded when it is opened, which is left out.
\<close>

record outbox_row =
  obr_attempt_id :: string
  obr_provider :: string
  obr_task_id :: string
  obr_request_sha256 :: string
  obr_request_json :: string
  obr_request_json_sha256 :: string
  obr_state :: string
  obr_result_json :: "string option"
  obr_result_sha256 :: "string option"
  obr_ledger_json :: "string option"
  obr_ledger_sha256 :: "string option"
  obr_sink_delivered :: int
  obr_delivery_error :: string
  obr_lease_token :: "string option"
  obr_lease_expires_at :: "rat option"
  obr_created_at :: rat
  obr_completed_at :: "rat option"

record outbox_db =
  obd_instances :: "string list"  \<comment> \<open>the rows of the metadata table\<close>
  obd_rows :: "outbox_row list"

record outbox =
  obx_instance_id :: string

record outbox_claim =
  clm_attempt_id :: string
  clm_result :: "remote_result option"
  clm_sink_delivered :: bool

record reservation =
  rsv_attempt_id :: string
  rsv_lease_token :: string
  rsv_lease_expires_at :: rat
  rsv_entry :: ledger_entry

record outbox_status =
  obs_attempt_id :: string
  obs_state :: string
  obs_sink_delivered :: bool
  obs_created_at :: rat
  obs_completed_at :: "rat option"
  obs_delivery_error :: string
  obs_request :: request_status

definition conflict :: "string \<Rightarrow> exc" where
  "conflict m = UserException ''ExternalEvalOutboxConflictError'' m"

definition claim_pending :: "string \<Rightarrow> exc" where
  "claim_pending m = UserException ''ExternalEvalOutboxPendingError'' m"

definition delivery_pending :: "string \<Rightarrow> exc" where
  "delivery_pending m = UserException ''ExternalEvalSinkDeliveryPendingError'' m"

definition about :: "string \<Rightarrow> string \<Rightarrow> string" where
  "about aid what = ''remote evaluation '' @ aid @ what"

subsection \<open>The table\<close>

text \<open>The \<open>CHECK\<close> constraints.\<close>

definition row_checks :: "outbox_row \<Rightarrow> bool" where
  "row_checks r \<longleftrightarrow> obr_sink_delivered r \<in> {0, 1} \<and>
     (obr_state r = ''claimed'' \<and> obr_result_json r = None \<and> obr_result_sha256 r = None \<and> obr_ledger_json r = None \<and>
        obr_ledger_sha256 r = None \<and> obr_completed_at r = None \<or>
      obr_state r = ''completed'' \<and> obr_result_json r \<noteq> None \<and> obr_result_sha256 r \<noteq> None \<and> obr_ledger_json r \<noteq> None \<and>
        obr_ledger_sha256 r \<noteq> None \<and> obr_completed_at r \<noteq> None) \<and>
     (obr_lease_token r = None \<and> obr_lease_expires_at r = None \<or>
      obr_lease_token r \<noteq> None \<and> obr_lease_expires_at r \<noteq> None \<and> obr_sink_delivered r = 0)"

definition select_claim_row :: "string \<Rightarrow> outbox_db \<Rightarrow> outbox_row option" where
  "select_claim_row aid db = find_by obr_attempt_id aid (obd_rows db)"

definition insert_row :: "outbox_row \<Rightarrow> (outbox_db, unit) op" where
  "insert_row r db =
     (if find_by obr_attempt_id (obr_attempt_id r) (obd_rows db) \<noteq> None
      then (Inl (IntegrityError ''UNIQUE constraint failed: remote_eval_outbox.attempt_id''), db)
      else if list_ex (\<lambda>x. obr_provider x = obr_provider r \<and> obr_task_id x = obr_task_id r \<and>
          obr_request_sha256 x = obr_request_sha256 r) (obd_rows db)
      then (Inl (IntegrityError ''UNIQUE constraint failed: remote_eval_outbox.request''), db)
      else if \<not> row_checks r then (Inl (IntegrityError ''CHECK constraint failed: remote_eval_outbox''), db)
      else (Inr (), db\<lparr>obd_rows := obd_rows db @ [r]\<rparr>))"

text \<open>\<open>UPDATE ... SET f WHERE attempt_id = ? AND guard\<close>: the number of rows that are updated.\<close>

definition update_row :: "string \<Rightarrow> (outbox_row \<Rightarrow> bool) \<Rightarrow> (outbox_row \<Rightarrow> outbox_row) \<Rightarrow> (outbox_db, nat) op" where
  "update_row aid guard f db = (case select_claim_row aid db of
       None \<Rightarrow> (Inr 0, db)
     | Some r \<Rightarrow> if \<not> guard r then (Inr 0, db)
         else if \<not> row_checks (f r) then (Inl (IntegrityError ''CHECK constraint failed: remote_eval_outbox''), db)
         else (Inr 1, db\<lparr>obd_rows := update_by obr_attempt_id aid f (obd_rows db)\<rparr>))"

definition sqlite_bool :: "int \<Rightarrow> string \<Rightarrow> bool res" where
  "sqlite_bool n label = (if n \<in> {0, 1} then Inr (n = 1) else Inl (bad label '' must be 0 or 1''))"

definition validate_instance_id :: "string \<Rightarrow> string res" where
  "validate_instance_id x = (if is_sha256 x then Inr x
     else Inl (RuntimeError ''external-evaluation outbox instance identity must be 64 lowercase hexadecimal characters''))"

definition read_instance_id :: "outbox_db \<Rightarrow> string res" where
  "read_instance_id db = (case obd_instances db of
       [x] \<Rightarrow> validate_instance_id x
     | _ \<Rightarrow> Inl (RuntimeError ''external-evaluation outbox instance identity metadata must contain exactly one row''))"

definition connect_database :: "outbox \<Rightarrow> (outbox_db, unit) op" where
  "connect_database ox = bind (asks read_instance_id) (\<lambda>r. bind (lift_res r) (\<lambda>actual.
     bind (lift_res (validate_instance_id (obx_instance_id ox))) (\<lambda>expected.
     if actual \<noteq> expected
     then raise (RuntimeError ''external-evaluation outbox instance identity changed; refusing replaced ledger'')
     else ret ())))"

text \<open>A database as \<open>initialize_database\<close> creates it, with a random identifier.\<close>

definition fresh_database :: "string \<Rightarrow> outbox_db" where
  "fresh_database instance1 = \<lparr>obd_instances = [instance1], obd_rows = []\<rparr>"

definition in_transaction :: "('s, 'a) op \<Rightarrow> ('s, 'a) op" where
  "in_transaction m db = (case m db of (Inl e, _) \<Rightarrow> (Inl e, db) | (Inr x, db') \<Rightarrow> (Inr x, db'))"

definition query :: "('s \<Rightarrow> 'a res) \<Rightarrow> ('s, 'a) op" where
  "query f s = (f s, s)"

definition claim_identity_matches :: "stdlib \<Rightarrow> outbox_row \<Rightarrow> string \<Rightarrow> string \<Rightarrow> string \<Rightarrow> string \<Rightarrow> string \<Rightarrow> bool res" where
  "claim_identity_matches py r aid provider task sha request_json =
     rbind (checked_payload py (Some (obr_request_json r)) (Some (obr_request_json_sha256 r)) (about aid '' request'')) (\<lambda>stored.
     rbind (load_json py stored (about aid '' request'')) (\<lambda>j.
     rbind (request_status_payload py j) (\<lambda>st.
     rbind (expect_nonempty_str (JStr (obr_provider r)) ''outbox provider'') (\<lambda>p.
     rbind (expect_nonempty_str (JStr (obr_task_id r)) ''outbox task_id'') (\<lambda>t.
     rbind (expect_sha256 (JStr (obr_request_sha256 r)) ''outbox request_sha256'') (\<lambda>s.
     Inr ((p, t, s, stored) = (provider, task, sha, request_json) \<and>
       (rqs_provider st, rqs_task_id st, rqs_request_sha256 st) = (provider, task, sha))))))))"

definition delivery_was_already_acknowledged :: "string \<Rightarrow> outbox_db \<Rightarrow> bool res" where
  "delivery_was_already_acknowledged aid db = (case select_claim_row aid db of
       None \<Rightarrow> Inr False
     | Some r \<Rightarrow> if obr_state r \<noteq> ''completed'' then Inr False
         else sqlite_bool (obr_sink_delivered r) ''outbox sink_delivered'')"

subsection \<open>Resolving a request to its row\<close>

definition validate_identity :: "stdlib \<Rightarrow> outbox_row \<Rightarrow> string \<Rightarrow> string \<Rightarrow> string \<Rightarrow> string \<Rightarrow> string \<Rightarrow> unit res" where
  "validate_identity py r aid provider task sha request_json =
     rbind (claim_identity_matches py r aid provider task sha request_json) (\<lambda>b.
     ensure b (conflict (about aid '' was reused with conflicting request identity'')))"

definition as_outbox_conflict :: "'a res \<Rightarrow> 'a res" where
  "as_outbox_conflict r = (case r of
       Inl (UserException c m) \<Rightarrow> if c = ''LegacyNumericIdentityConflictError'' then Inl (conflict m) else r
     | _ \<Rightarrow> r)"

definition legacy_match :: "stdlib \<Rightarrow> string \<Rightarrow> remote_request \<Rightarrow> string \<Rightarrow> outbox_row \<Rightarrow> (outbox_row \<times> string \<times> string) option res" where
  "legacy_match py provider q exclude r =
     rbind (expect_sha256 (JStr (obr_attempt_id r)) ''outbox attempt_id'') (\<lambda>aid.
     if aid = exclude then Inr None
     else rbind (checked_payload py (Some (obr_request_json r)) (Some (obr_request_json_sha256 r)) (about aid '' request'')) (\<lambda>stored.
     rbind (load_json py stored (about aid '' request'')) (\<lambda>raw.
     rbind (request_status_payload py raw) (\<lambda>st.
     rbind (expect_sha256 (JStr (obr_request_sha256 r)) ''outbox request_sha256'') (\<lambda>digest.
     rbind (expect_nonempty_str (JStr (obr_provider r)) ''outbox provider'') (\<lambda>p.
     rbind (expect_nonempty_str (JStr (obr_task_id r)) ''outbox task_id'') (\<lambda>t.
     rbind (ensure (p = provider \<and> t = rq_task_id q \<and> rqs_provider st = provider \<and> rqs_task_id st = rq_task_id q \<and>
         rqs_request_sha256 st = digest) (conflict (about aid '' has conflicting legacy request identity''))) (\<lambda>_.
     rbind (ensure (aid = attempt_id_from_digest py provider (rq_task_id q) digest)
       (conflict (about aid '' has a conflicting legacy attempt identity''))) (\<lambda>_.
     rbind (as_outbox_conflict (legacy_candidates py q raw)) (\<lambda>candidates.
     if digest \<notin> set candidates
     then if rq_strict_task_identity q
       then Inl (conflict (''remote evaluation task '' @ py_repr (rq_task_id q) @ '' is already bound to a different durable request identity''))
       else Inr None
     else Inr (Some (r, aid, digest))))))))))))"

fun legacy_matches :: "stdlib \<Rightarrow> string \<Rightarrow> remote_request \<Rightarrow> string \<Rightarrow> outbox_row list \<Rightarrow> (outbox_row \<times> string \<times> string) list res" where
  "legacy_matches py provider q exclude [] = Inr []"
| "legacy_matches py provider q exclude (r # rs) =
     rbind (legacy_match py provider q exclude r) (\<lambda>m.
     rbind (legacy_matches py provider q exclude rs) (\<lambda>ms.
     Inr (case m of None \<Rightarrow> ms | Some x \<Rightarrow> x # ms)))"

definition select_legacy_row :: "stdlib \<Rightarrow> string \<Rightarrow> remote_request \<Rightarrow> string \<Rightarrow> outbox_db \<Rightarrow> (outbox_row \<times> string \<times> string) option res" where
  "select_legacy_row py provider q exclude db =
     rbind (legacy_matches py provider q exclude
       (filter (\<lambda>r. obr_provider r = provider \<and> obr_task_id r = rq_task_id q) (obd_rows db))) (\<lambda>ms.
     case ms of [] \<Rightarrow> Inr None | [x] \<Rightarrow> Inr (Some x)
     | _ \<Rightarrow> Inl (conflict (''multiple legacy numeric identities match remote evaluation task '' @ py_repr (rq_task_id q))))"

definition resolve_existing :: "stdlib \<Rightarrow> string \<Rightarrow> remote_request \<Rightarrow> string \<Rightarrow> string \<Rightarrow> string \<Rightarrow> outbox_db \<Rightarrow>
    (outbox_row \<times> string \<times> string) option res" where
  "resolve_existing py provider q aid sha request_json db =
     (let exact = select_claim_row aid db in
      rbind (case exact of None \<Rightarrow> Inr () | Some r \<Rightarrow> validate_identity py r aid provider (rq_task_id q) sha request_json) (\<lambda>_.
      rbind (select_legacy_row py provider q aid db) (\<lambda>legacy.
      case (exact, legacy) of
        (Some r, Some _) \<Rightarrow> Inl (conflict (''multiple numeric identities match remote evaluation task '' @ py_repr (rq_task_id q)))
      | (Some r, None) \<Rightarrow> Inr (Some (r, aid, sha))
      | (None, l) \<Rightarrow> Inr l)))"

subsection \<open>Committed content\<close>

definition validate_result :: "stdlib \<Rightarrow> string \<Rightarrow> remote_request \<Rightarrow> remote_result \<Rightarrow> string \<Rightarrow> unit res" where
  "validate_result py provider q r sha = rbind (result_matches_request py provider q r sha) (\<lambda>b.
     ensure b (conflict ''remote result provenance does not match its durable request claim''))"

text \<open>\<open>result.to_ledger_entry(attempt_id=...)\<close> with the checks of the constructor\<close>

definition ledger_entry_of :: "remote_result \<Rightarrow> string \<Rightarrow> ledger_entry res" where
  "ledger_entry_of r aid = (let l = to_ledger_entry r aid in rbind (check_ledger_entry l) (\<lambda>_. Inr l))"

definition stored_result :: "stdlib \<Rightarrow> string \<Rightarrow> outbox_row \<Rightarrow> remote_result res" where
  "stored_result py aid r =
     rbind (checked_payload py (obr_result_json r) (obr_result_sha256 r) (about aid '' result'')) (\<lambda>raw.
     rbind (load_json py raw (about aid '' result'')) (result_from_payload py))"

definition stored_ledger :: "stdlib \<Rightarrow> string \<Rightarrow> outbox_row \<Rightarrow> ledger_entry res" where
  "stored_ledger py aid r =
     rbind (checked_payload py (obr_ledger_json r) (obr_ledger_sha256 r) (about aid '' ledger'')) (\<lambda>raw.
     rbind (load_json py raw (about aid '' ledger'')) (ledger_from_payload py))"

definition ledger_mismatch :: "string \<Rightarrow> exc" where
  "ledger_mismatch aid = ValueError (about aid '' ledger does not match its committed result'')"

definition claim_from_row :: "stdlib \<Rightarrow> string \<Rightarrow> remote_request \<Rightarrow> outbox_row \<Rightarrow> string \<Rightarrow> string \<Rightarrow> outbox_claim res" where
  "claim_from_row py provider q r aid sha =
     (if obr_state r = ''claimed''
      then Inl (claim_pending (about aid '' has an unresolved durable claim; reconcile provider accounting before retrying''))
      else if obr_state r \<noteq> ''completed''
      then Inl (conflict (about aid ('' has unsupported outbox state '' @ py_repr (obr_state r))))
      else rbind (stored_result py aid r) (\<lambda>result.
        rbind (validate_result py provider q result sha) (\<lambda>_.
        rbind (stored_ledger py aid r) (\<lambda>ledger.
        rbind (ledger_entry_of result aid) (\<lambda>expected.
        rbind (ensure (ledger = expected) (ledger_mismatch aid)) (\<lambda>_.
        rbind (sqlite_bool (obr_sink_delivered r) ''outbox sink_delivered'') (\<lambda>delivered.
        Inr \<lparr>clm_attempt_id = aid, clm_result = Some result, clm_sink_delivered = delivered\<rparr>)))))))"

end
