(* ===== verification/Outbox_Ops.thy ===== *)
theory Outbox_Ops
  imports Outbox
begin

text \<open>
  The operations of \<open>ExternalEvalLedgerOutbox\<close>, \<^verbatim>\<open>execution/external_eval_outbox.py\<close>. \<open>now\<close> is the value
  of \<open>time.time()\<close> inside the transaction, \<open>token\<close> the one of \<open>secrets.token_urlsafe\<close>.
\<close>

text \<open>The attempt identity, the digest and the text of a request, which every operation on it computes first.\<close>

definition request_keys_of :: "stdlib \<Rightarrow> string \<Rightarrow> remote_request \<Rightarrow> (string \<times> string \<times> string) res" where
  "request_keys_of py provider q =
     rbind (external_eval_attempt_id py provider q) (\<lambda>aid.
     rbind (request_payload py provider q) (\<lambda>j.
     Inr (aid, request_sha256 py q, py_dumps py j)))"

definition new_row :: "stdlib \<Rightarrow> string \<Rightarrow> remote_request \<Rightarrow> string \<Rightarrow> string \<Rightarrow> string \<Rightarrow> rat \<Rightarrow> outbox_row" where
  "new_row py provider q aid sha request_json now1 =
     \<lparr>obr_attempt_id = aid, obr_provider = provider, obr_task_id = rq_task_id q, obr_request_sha256 = sha,
      obr_request_json = request_json, obr_request_json_sha256 = py_sha256 py request_json, obr_state = ''claimed'',
      obr_result_json = None, obr_result_sha256 = None, obr_ledger_json = None, obr_ledger_sha256 = None,
      obr_sink_delivered = 0, obr_delivery_error = [], obr_lease_token = None, obr_lease_expires_at = None,
      obr_created_at = now1, obr_completed_at = None\<rparr>"

definition obx_replay :: "stdlib \<Rightarrow> outbox \<Rightarrow> string \<Rightarrow> remote_request \<Rightarrow> (outbox_db, outbox_claim option) op" where
  "obx_replay py ox provider q =
     bind (lift_res (request_keys_of py provider q)) (\<lambda>(aid, sha, request_json).
     andthen (connect_database ox)
     (bind (query (resolve_existing py provider q aid sha request_json)) (\<lambda>found. case found of
         None \<Rightarrow> ret None
       | Some (r, aid', sha') \<Rightarrow> bind (lift_res (claim_from_row py provider q r aid' sha')) (\<lambda>c. ret (Some c)))))"

definition obx_claim :: "stdlib \<Rightarrow> outbox \<Rightarrow> string \<Rightarrow> remote_request \<Rightarrow> rat \<Rightarrow> (outbox_db, outbox_claim) op" where
  "obx_claim py ox provider q now1 =
     bind (lift_res (request_keys_of py provider q)) (\<lambda>(aid, sha, request_json).
     andthen (connect_database ox)
     (in_transaction (bind (query (resolve_existing py provider q aid sha request_json)) (\<lambda>found. case found of
         None \<Rightarrow> andthen (insert_row (new_row py provider q aid sha request_json now1))
           (ret \<lparr>clm_attempt_id = aid, clm_result = None, clm_sink_delivered = False\<rparr>)
       | Some (r, aid', sha') \<Rightarrow> lift_res (claim_from_row py provider q r aid' sha')))))"

definition complete_row :: "string \<Rightarrow> string \<Rightarrow> string \<Rightarrow> string \<Rightarrow> bool \<Rightarrow> rat \<Rightarrow> outbox_row \<Rightarrow> outbox_row" where
  "complete_row result_json result_digest ledger_json ledger_digest sink_required now1 r =
     r\<lparr>obr_state := ''completed'', obr_result_json := Some result_json, obr_result_sha256 := Some result_digest,
       obr_ledger_json := Some ledger_json, obr_ledger_sha256 := Some ledger_digest,
       obr_sink_delivered := (if sink_required then 0 else 1), obr_completed_at := Some now1\<rparr>"

text \<open>The result as it is read back from its own text.\<close>

definition encode_result :: "stdlib \<Rightarrow> remote_result \<Rightarrow> (string \<times> remote_result) res" where
  "encode_result py result =
     (let result_json = py_dumps py (result_payload py result) in
      rbind (rbind (load_json py result_json ''external-evaluation result'') (result_from_payload py)) (\<lambda>decoded.
      rbind (ensure (decoded = result) (ValueError ''external-evaluation result does not round-trip through the versioned codec'')) (\<lambda>_.
      Inr (result_json, decoded))))"

definition encode_ledger :: "stdlib \<Rightarrow> remote_result \<Rightarrow> string \<Rightarrow> string res" where
  "encode_ledger py result aid =
     rbind (ledger_entry_of result aid) (\<lambda>entry.
     let ledger_json = py_dumps py (ledger_payload entry) in
     rbind (rbind (load_json py ledger_json ''external-evaluation ledger'') (ledger_from_payload py)) (\<lambda>decoded.
     rbind (ensure (decoded = entry) (ValueError ''external-evaluation ledger does not round-trip through the versioned codec'')) (\<lambda>_.
     Inr ledger_json)))"

definition commit_row :: "stdlib \<Rightarrow> outbox_row \<Rightarrow> string \<Rightarrow> string \<Rightarrow> string \<Rightarrow> bool \<Rightarrow> rat \<Rightarrow> (outbox_db, string) op" where
  "commit_row py r aid result_json ledger_json sink_required now1 =
     (if obr_state r = ''completed''
      then bind (lift_res (checked_payload py (obr_result_json r) (obr_result_sha256 r) (about aid '' result''))) (\<lambda>existing_result.
        bind (lift_res (checked_payload py (obr_ledger_json r) (obr_ledger_sha256 r) (about aid '' ledger''))) (\<lambda>existing_ledger.
        if existing_result \<noteq> result_json \<or> existing_ledger \<noteq> ledger_json
        then raise (conflict (about aid '' already has different committed content'')) else ret aid))
      else if obr_state r \<noteq> ''claimed''
      then raise (conflict (about aid ('' has unsupported outbox state '' @ py_repr (obr_state r))))
      else andthen (update_row aid (\<lambda>r. obr_state r = ''claimed'')
          (complete_row result_json (py_sha256 py result_json) ledger_json (py_sha256 py ledger_json) sink_required now1))
        (ret aid))"

definition obx_commit :: "stdlib \<Rightarrow> outbox \<Rightarrow> string \<Rightarrow> remote_request \<Rightarrow> remote_result \<Rightarrow> bool \<Rightarrow> rat \<Rightarrow> (outbox_db, string) op" where
  "obx_commit py ox provider q result sink_required now1 =
     bind (lift_res (request_keys_of py provider q)) (\<lambda>(aid, sha, request_json).
     bind (lift_res (encode_result py result)) (\<lambda>(result_json, decoded).
     andthen (connect_database ox)
     (in_transaction (bind (query (resolve_existing py provider q aid sha request_json)) (\<lambda>found. case found of
         None \<Rightarrow> raise (conflict (about aid '' completed without a durable pre-dispatch claim''))
       | Some (r, aid', sha') \<Rightarrow>
           bind (lift_res (validate_result py provider q decoded sha')) (\<lambda>_.
           bind (lift_res (encode_ledger py result aid')) (\<lambda>ledger_json.
           commit_row py r aid' result_json ledger_json sink_required now1)))))))"

subsection \<open>Delivery to the ledger sink\<close>

definition leased_by_another :: "string \<Rightarrow> outbox_row \<Rightarrow> rat \<Rightarrow> unit res" where
  "leased_by_another aid r now1 = (case (obr_lease_token r, obr_lease_expires_at r) of
       (None, None) \<Rightarrow> Inr ()
     | (Some token, Some expiry) \<Rightarrow>
         rbind (expect_nonempty_str (JStr token) ''ledger-delivery lease token'') (\<lambda>_.
         ensure (\<not> expiry > now1) (delivery_pending (about aid '' ledger delivery is leased by another process'')))
     | _ \<Rightarrow> Inl (ValueError (about aid '' has an invalid ledger-delivery lease'')))"

definition lease_row :: "string \<Rightarrow> rat \<Rightarrow> outbox_row \<Rightarrow> outbox_row" where
  "lease_row token expires r = r\<lparr>obr_lease_token := Some token, obr_lease_expires_at := Some expires\<rparr>"

definition leasable :: "rat \<Rightarrow> outbox_row \<Rightarrow> bool" where
  "leasable now1 r \<longleftrightarrow> obr_state r = ''completed'' \<and> obr_sink_delivered r = 0 \<and>
     (obr_lease_token r = None \<or> (case obr_lease_expires_at r of Some x \<Rightarrow> x \<le> now1 | None \<Rightarrow> False))"

text \<open>The end of a lease is the exact sum; the code adds two doubles, which may round it by one unit in the last place.\<close>

definition reserve_sink_delivery :: "stdlib \<Rightarrow> outbox \<Rightarrow> string \<Rightarrow> rat \<Rightarrow> rat \<Rightarrow> string \<Rightarrow> (outbox_db, reservation option) op" where
  "reserve_sink_delivery py ox aid lease_seconds now1 token =
     bind (lift_res (ensure (lease_seconds > 0) (ValueError ''ledger-delivery lease_seconds must be positive and finite''))) (\<lambda>_.
     andthen (connect_database ox)
     (in_transaction (bind (asks (select_claim_row aid)) (\<lambda>found.
       let too_early = conflict (about aid '' cannot reserve ledger delivery before result commit'') in
       case found of
         None \<Rightarrow> raise too_early
       | Some r \<Rightarrow> if obr_state r \<noteq> ''completed'' then raise too_early
           else bind (lift_res (sqlite_bool (obr_sink_delivered r) ''outbox sink_delivered'')) (\<lambda>delivered.
           if delivered then ret None
           else bind (lift_res (leased_by_another aid r now1)) (\<lambda>_.
             bind (lift_res (stored_ledger py aid r)) (\<lambda>entry.
             bind (lift_res (stored_result py aid r)) (\<lambda>result.
             bind (lift_res (ledger_entry_of result aid)) (\<lambda>expected.
             bind (lift_res (ensure (entry = expected) (ledger_mismatch aid))) (\<lambda>_.
             bind (update_row aid (leasable now1) (lease_row token (now1 + lease_seconds))) (\<lambda>n.
             if n \<noteq> 1 then raise (delivery_pending (about aid '' ledger delivery could not be reserved''))
             else ret (Some \<lparr>rsv_attempt_id = aid, rsv_lease_token = token, rsv_lease_expires_at = now1 + lease_seconds,
                 rsv_entry = entry\<rparr>))))))))))))"

definition owned_by :: "string \<Rightarrow> outbox_row \<Rightarrow> bool" where
  "owned_by token r \<longleftrightarrow> obr_state r = ''completed'' \<and> obr_sink_delivered r = 0 \<and> obr_lease_token r = Some token"

definition delivered_row :: "outbox_row \<Rightarrow> outbox_row" where
  "delivered_row r = r\<lparr>obr_sink_delivered := 1, obr_delivery_error := [], obr_lease_token := None, obr_lease_expires_at := None\<rparr>"

definition failed_row :: "exc \<Rightarrow> outbox_row \<Rightarrow> outbox_row" where
  "failed_row e r = r\<lparr>obr_delivery_error := exc_name e @ '': '' @ exc_str e, obr_lease_token := None, obr_lease_expires_at := None\<rparr>"

text \<open>The end of a delivery: the row is changed if the lease is still held; a row that is already delivered is left alone.\<close>

definition settle_delivery :: "outbox \<Rightarrow> reservation \<Rightarrow> (outbox_row \<Rightarrow> outbox_row) \<Rightarrow> string \<Rightarrow> (outbox_db, unit) op" where
  "settle_delivery ox v f lost =
     andthen (connect_database ox)
     (in_transaction (bind (update_row (rsv_attempt_id v) (owned_by (rsv_lease_token v)) f) (\<lambda>n.
       if n \<noteq> 1
       then bind (query (delivery_was_already_acknowledged (rsv_attempt_id v))) (\<lambda>acknowledged.
         if acknowledged then ret ()
         else raise (conflict (about (rsv_attempt_id v) ('' ledger-delivery lease was lost before '' @ lost))))
       else ret ())))"

definition mark_sink_delivered :: "outbox \<Rightarrow> reservation \<Rightarrow> (outbox_db, unit) op" where
  "mark_sink_delivered ox v = settle_delivery ox v delivered_row ''acknowledgement''"

definition record_sink_failure :: "outbox \<Rightarrow> reservation \<Rightarrow> exc \<Rightarrow> (outbox_db, unit) op" where
  "record_sink_failure ox v e = settle_delivery ox v (failed_row e) ''failure recording''"

subsection \<open>Reports\<close>

definition row_status :: "stdlib \<Rightarrow> outbox_row \<Rightarrow> outbox_status res" where
  "row_status py r =
     rbind (expect_nonempty_str (JStr (obr_attempt_id r)) ''outbox attempt_id'') (\<lambda>aid.
     rbind (checked_payload py (Some (obr_request_json r)) (Some (obr_request_json_sha256 r)) (about aid '' request'')) (\<lambda>raw.
     rbind (load_json py raw (about aid '' request'')) (\<lambda>j.
     rbind (request_status_payload py j) (\<lambda>st.
     rbind (expect_nonempty_str (JStr (obr_provider r)) ''outbox provider'') (\<lambda>provider.
     rbind (expect_nonempty_str (JStr (obr_task_id r)) ''outbox task_id'') (\<lambda>task.
     rbind (expect_sha256 (JStr (obr_request_sha256 r)) ''outbox request_sha256'') (\<lambda>sha.
     rbind (ensure (rqs_provider st = provider \<and> rqs_task_id st = task \<and> rqs_request_sha256 st = sha)
       (ValueError (about aid '' request identity mismatch''))) (\<lambda>_.
     rbind (ensure (obr_state r \<in> {''claimed'', ''completed''})
       (ValueError (about aid ('' has unsupported outbox state '' @ py_repr (obr_state r))))) (\<lambda>_.
     rbind (sqlite_bool (obr_sink_delivered r) ''outbox sink_delivered'') (\<lambda>delivered.
     Inr \<lparr>obs_attempt_id = aid, obs_state = obr_state r, obs_sink_delivered = delivered, obs_created_at = obr_created_at r,
       obs_completed_at = obr_completed_at r, obs_delivery_error = obr_delivery_error r, obs_request = st\<rparr>))))))))))"

definition unresolved :: "outbox_row \<Rightarrow> bool" where
  "unresolved r \<longleftrightarrow> obr_state r \<noteq> ''completed'' \<or> obr_sink_delivered r = 0"

definition statuses :: "stdlib \<Rightarrow> outbox \<Rightarrow> bool \<Rightarrow> (outbox_db, outbox_status list) op" where
  "statuses py ox unresolved_only =
     andthen (connect_database ox)
     (query (\<lambda>db. map_res (row_status py) (sort_key (\<lambda>r. (obr_created_at r, obr_attempt_id r))
       (filter (\<lambda>r. unresolved_only \<longrightarrow> unresolved r) (obd_rows db)))))"

definition completed_rows :: "outbox_db \<Rightarrow> outbox_row list" where
  "completed_rows db = sort_key (\<lambda>r. (case obr_completed_at r of Some x \<Rightarrow> x | None \<Rightarrow> 0, obr_attempt_id r))
     (filter (\<lambda>r. obr_state r = ''completed'') (obd_rows db))"

definition row_ledger_entry :: "stdlib \<Rightarrow> outbox_row \<Rightarrow> ledger_entry res" where
  "row_ledger_entry py r =
     rbind (expect_nonempty_str (JStr (obr_attempt_id r)) ''outbox attempt_id'') (\<lambda>aid.
     rbind (stored_ledger py aid r) (\<lambda>entry.
     rbind (stored_result py aid r) (\<lambda>result.
     rbind (ledger_entry_of result aid) (\<lambda>expected.
     rbind (ensure (entry = expected) (ledger_mismatch aid)) (\<lambda>_.
     Inr entry)))))"

definition ledger_entries :: "stdlib \<Rightarrow> outbox \<Rightarrow> (outbox_db, ledger_entry list) op" where
  "ledger_entries py ox = andthen (connect_database ox) (query (\<lambda>db. map_res (row_ledger_entry py) (completed_rows db)))"

definition committed_results :: "stdlib \<Rightarrow> outbox \<Rightarrow> (outbox_db, remote_result list) op" where
  "committed_results py ox = andthen (connect_database ox)
     (query (\<lambda>db. map_res (\<lambda>r. stored_result py (obr_attempt_id r) r) (completed_rows db)))"

end
