(* ===== verification/Outbox_Steps.thy ===== *)
theory Outbox_Steps
  imports Outbox_Ops
begin

text \<open>
  The outbox as a transition system. \<open>outbox_step\<close> says how the table may change; every call of an operation
  changes nothing or takes one step (\<open>perform_step\<close>), so what a step preserves, every
  interleaving of calls preserves.
\<close>

datatype outbox_call =
    Replay string remote_request
  | Claim string remote_request rat
  | Commit string remote_request remote_result bool rat
  | Reserve string rat rat string
  | Acknowledge reservation
  | ReportFailure reservation exc

datatype call_outcome =
    Raised exc
  | Replayed "outbox_claim option"
  | Claimed outbox_claim
  | Committed string
  | Reserved "reservation option"
  | Settled

definition outcome_of :: "('a \<Rightarrow> call_outcome) \<Rightarrow> 'a res \<times> outbox_db \<Rightarrow> call_outcome \<times> outbox_db" where
  "outcome_of f r = (case fst r of Inl e \<Rightarrow> Raised e | Inr x \<Rightarrow> f x, snd r)"

fun perform :: "stdlib \<Rightarrow> outbox \<Rightarrow> outbox_call \<Rightarrow> outbox_db \<Rightarrow> call_outcome \<times> outbox_db" where
  "perform py ox (Replay provider q) db = outcome_of Replayed (obx_replay py ox provider q db)"
| "perform py ox (Claim provider q now1) db = outcome_of Claimed (obx_claim py ox provider q now1 db)"
| "perform py ox (Commit provider q result sink now1) db = outcome_of Committed (obx_commit py ox provider q result sink now1 db)"
| "perform py ox (Reserve aid secs now1 token) db = outcome_of Reserved (reserve_sink_delivery py ox aid secs now1 token db)"
| "perform py ox (Acknowledge v) db = outcome_of (\<lambda>_. Settled) (mark_sink_delivered ox v db)"
| "perform py ox (ReportFailure v e) db = outcome_of (\<lambda>_. Settled) (record_sink_failure ox v e db)"

fun outbox_run :: "stdlib \<Rightarrow> outbox \<Rightarrow> outbox_call list \<Rightarrow> outbox_db \<Rightarrow> call_outcome list \<times> outbox_db" where
  "outbox_run py ox [] db = ([], db)"
| "outbox_run py ox (c # cs) db =
     (let (x, db1) = perform py ox c db; (xs, db2) = outbox_run py ox cs db1 in (x # xs, db2))"

lemma outbox_run_length: "length (fst (outbox_run py ox cs db)) = length cs"
  by (induction cs arbitrary: db) (simp_all add: Let_def case_prod_beta)

lemma outbox_run_append:
  "outbox_run py ox (cs @ ds) db =
   (fst (outbox_run py ox cs db) @ fst (outbox_run py ox ds (snd (outbox_run py ox cs db))),
    snd (outbox_run py ox ds (snd (outbox_run py ox cs db))))"
  by (induction cs arbitrary: db) (simp_all add: Let_def case_prod_beta)

subsection \<open>Steps\<close>

definition put_row :: "string \<Rightarrow> (outbox_row \<Rightarrow> outbox_row) \<Rightarrow> outbox_db \<Rightarrow> outbox_db" where
  "put_row aid f db = db\<lparr>obd_rows := update_by obr_attempt_id aid f (obd_rows db)\<rparr>"

definition add_row :: "outbox_row \<Rightarrow> outbox_db \<Rightarrow> outbox_db" where
  "add_row r db = db\<lparr>obd_rows := obd_rows db @ [r]\<rparr>"

text \<open>The step of one call: what has to hold before it, and the new table.\<close>

inductive outbox_step :: "stdlib \<Rightarrow> outbox_call \<Rightarrow> outbox_db \<Rightarrow> outbox_db \<Rightarrow> bool" for py where
  claimed: "\<lbrakk>request_keys_of py provider q = Inr (aid, sha, request_json);
      select_claim_row aid db = None\<rbrakk> \<Longrightarrow>
    outbox_step py (Claim provider q now1) db (add_row (new_row py provider q aid sha request_json now1) db)"
| completed: "\<lbrakk>select_claim_row aid db = Some r; obr_state r = ''claimed''; encode_result py result = Inr (result_json, result);
      encode_ledger py result aid = Inr ledger_json; row_checks (f r);
      f = complete_row result_json (py_sha256 py result_json) ledger_json (py_sha256 py ledger_json) sink now1\<rbrakk> \<Longrightarrow>
    outbox_step py (Commit provider q result sink now1) db (put_row aid f db)"
| leased: "\<lbrakk>select_claim_row aid db = Some r; leasable now1 r; 0 < secs; row_checks (lease_row token (now1 + secs) r)\<rbrakk> \<Longrightarrow>
    outbox_step py (Reserve aid secs now1 token) db (put_row aid (lease_row token (now1 + secs)) db)"
| acknowledged: "\<lbrakk>select_claim_row (rsv_attempt_id v) db = Some r; owned_by (rsv_lease_token v) r\<rbrakk> \<Longrightarrow>
    outbox_step py (Acknowledge v) db (put_row (rsv_attempt_id v) delivered_row db)"
| failed: "\<lbrakk>select_claim_row (rsv_attempt_id v) db = Some r; owned_by (rsv_lease_token v) r\<rbrakk> \<Longrightarrow>
    outbox_step py (ReportFailure v e) db (put_row (rsv_attempt_id v) (failed_row e) db)"

inductive_cases outbox_stepE: "outbox_step py c db db'"

subsection \<open>Calls take steps\<close>

lemma bind_query [simp]: "bind (query f) g db = (case f db of Inl e \<Rightarrow> (Inl e, db) | Inr x \<Rightarrow> g x db)"
  by (simp add: bind_def query_def split: sum.split)

lemma bind_lift [simp]: "bind (lift_res r) g db = (case r of Inl e \<Rightarrow> (Inl e, db) | Inr x \<Rightarrow> g x db)"
  by (simp add: bind_def split: sum.split)

lemma bind_ask [simp]: "bind (asks f) g db = g (f db) db"
  by (simp add: bind_def)

lemma connect_run: "connect_database ox db = (Inr (), db) \<or> (\<exists>e. connect_database ox db = (Inl e, db))"
  unfolding connect_database_def by (auto split: sum.split)

lemma bind_connect:
  obtains e where "bind (connect_database ox) g db = (Inl e, db)"
  | "connect_database ox db = (Inr (), db)" "bind (connect_database ox) g db = g () db"
  using connect_run [of ox db] by (auto simp: bind_def)

lemma transactionE:
  assumes "in_transaction m db = (r, db')"
  obtains e where "r = Inl e" "db' = db" | x where "r = Inr x" "m db = (Inr x, db')"
  using assms by (cases "m db"; cases "fst (m db)") (auto simp: in_transaction_def)

text \<open>\<open>stepping py c m db\<close>: a run of \<open>m\<close> that returns changes nothing or takes a step of \<open>c\<close>.\<close>

definition stepping :: "stdlib \<Rightarrow> outbox_call \<Rightarrow> (outbox_db, 'a) op \<Rightarrow> outbox_db \<Rightarrow> bool" where
  "stepping py c m db \<longleftrightarrow> (\<forall>x db'. m db = (Inr x, db') \<longrightarrow> db' = db \<or> outbox_step py c db db')"

text \<open>An operation that leaves the table alone when it raises.\<close>

definition rolls_back :: "('s, 'a) op \<Rightarrow> bool" where
  "rolls_back m \<longleftrightarrow> (\<forall>s e s'. m s = (Inl e, s') \<longrightarrow> s' = s)"

named_theorems stepping_intros
named_theorems rollback_intros

lemma pure_query [pure_intros]: "pure_op (query f)"
  by (simp add: pure_op_def query_def)

lemma stepping_pure: "pure_op m \<Longrightarrow> stepping py c m db"
  unfolding stepping_def pure_op_def by (metis snd_conv)

lemma stepping_leaf [stepping_intros]:
  "stepping py c (ret x) db" "stepping py c (raise e) db" "stepping py c (lift_res r) db" "stepping py c (query f) db"
  by (intro stepping_pure pure_intros)+

lemma stepping_bind_lift [stepping_intros]: "(\<And>x. r = Inr x \<Longrightarrow> stepping py c (g x) db) \<Longrightarrow> stepping py c (bind (lift_res r) g) db"
  by (cases r) (simp_all add: stepping_def)

lemma stepping_bind_query [stepping_intros]: "(\<And>x. f db = Inr x \<Longrightarrow> stepping py c (g x) db) \<Longrightarrow> stepping py c (bind (query f) g) db"
  by (cases "f db") (simp_all add: stepping_def)

lemma stepping_bind_asks [stepping_intros]: "stepping py c (g (f db)) db \<Longrightarrow> stepping py c (bind (asks f) g) db"
  by (simp add: stepping_def)

lemma stepping_connect [stepping_intros]: "stepping py c m db \<Longrightarrow> stepping py c (andthen (connect_database ox) m) db"
  using connect_run [of ox db] by (auto simp: stepping_def)

lemma stepping_transaction [stepping_intros]: "stepping py c m db \<Longrightarrow> stepping py c (in_transaction m) db"
  by (cases "m db"; cases "fst (m db)") (auto simp: stepping_def in_transaction_def)

lemma rollback_transaction [rollback_intros]: "rolls_back (in_transaction m)"
  by (auto simp: rolls_back_def in_transaction_def split: prod.splits sum.splits)

lemma rollback_pure [rollback_intros]: "pure_op m \<Longrightarrow> rolls_back m"
  unfolding rolls_back_def pure_op_def by (metis snd_conv)

lemma pure_connect [pure_intros]: "pure_op (connect_database ox)"
  unfolding pure_op_def using connect_run [of ox] by (metis snd_conv)

lemma rollback_bind_pure:
  assumes "pure_op m" and "\<And>x. rolls_back (g x)"
  shows "rolls_back (bind m g)"
  unfolding rolls_back_def
proof (intro allI impI)
  fix s e s' assume run: "bind m g s = (Inl e, s')"
  have p: "snd (m s) = s" using assms(1) by (simp add: pure_op_def)
  show "s' = s"
  proof (cases "fst (m s)")
    case (Inl e') with run p show ?thesis by (cases "m s") simp
  next
    case (Inr x) with run p have "g x s = (Inl e, s')" by (cases "m s") simp
    then show ?thesis using assms(2) unfolding rolls_back_def by blast
  qed
qed

lemma rollback_lift [rollback_intros]: "(\<And>x. rolls_back (g x)) \<Longrightarrow> rolls_back (bind (lift_res r) g)"
  by (intro rollback_bind_pure pure_intros)

lemma rollback_connect [rollback_intros]: "rolls_back m \<Longrightarrow> rolls_back (andthen (connect_database ox) m)"
  unfolding andthen_def by (intro rollback_bind_pure pure_intros)

lemma update_row_run:
  assumes "update_row aid guard f db = (Inr n, db')"
  shows "(n = 0 \<and> db' = db \<and> (\<forall>r. select_claim_row aid db = Some r \<longrightarrow> \<not> guard r)) \<or>
    (n = 1 \<and> db' = put_row aid f db \<and> (\<exists>r. select_claim_row aid db = Some r \<and> guard r \<and> row_checks (f r)))"
  using assms by (auto simp: update_row_def put_row_def split: option.splits if_splits)


definition row_keyed :: "outbox_db \<Rightarrow> bool" where
  "row_keyed db \<longleftrightarrow> distinct (map obr_attempt_id (obd_rows db))"

lemma select_row_of: "row_keyed db \<Longrightarrow> r \<in> set (obd_rows db) \<Longrightarrow> select_claim_row (obr_attempt_id r) db = Some r"
  unfolding row_keyed_def select_claim_row_def by (rule find_by_distinct)

lemma legacy_match_Some: "legacy_match py provider q exclude r = Inr (Some (r', aid, sha)) \<Longrightarrow> r' = r \<and> aid = obr_attempt_id r \<and> aid \<noteq> exclude"
  unfolding legacy_match_def
  by (auto simp: rbind_eq_Inr expect_sha256_def expect_str_def split: if_splits)

lemma legacy_matches_in: "legacy_matches py provider q exclude rs = Inr ms \<Longrightarrow> (r, aid, sha) \<in> set ms \<Longrightarrow> r \<in> set rs \<and> aid = obr_attempt_id r"
proof (induction rs arbitrary: ms)
  case (Cons x rs)
  from Cons.prems(1) obtain m ms' where m: "legacy_match py provider q exclude x = Inr m" "legacy_matches py provider q exclude rs = Inr ms'"
    and ms: "ms = (case m of None \<Rightarrow> ms' | Some y \<Rightarrow> y # ms')" by (auto simp: rbind_eq_Inr)
  show ?case
  proof (cases "(r, aid, sha) \<in> set ms'")
    case True then show ?thesis using Cons.IH [OF m(2)] by auto
  next
    case False
    with Cons.prems(2) ms have "m = Some (r, aid, sha)" by (auto split: option.splits)
    then have "legacy_match py provider q exclude x = Inr (Some (r, aid, sha))" using m(1) by simp
    from legacy_match_Some [OF this] show ?thesis by simp
  qed
qed simp

lemma select_legacy_in:
  assumes "select_legacy_row py provider q exclude db = Inr (Some (r, aid, sha))"
  shows "r \<in> set (obd_rows db) \<and> aid = obr_attempt_id r"
proof -
  let ?rs = "filter (\<lambda>r. obr_provider r = provider \<and> obr_task_id r = rq_task_id q) (obd_rows db)"
  from assms obtain ms where m: "legacy_matches py provider q exclude ?rs = Inr ms"
    and "(case ms of [] \<Rightarrow> Inr None | [x] \<Rightarrow> Inr (Some x)
       | _ \<Rightarrow> Inl (conflict (''multiple legacy numeric identities match remote evaluation task '' @ py_repr (rq_task_id q))))
       = (Inr (Some (r, aid, sha)) :: (outbox_row \<times> string \<times> string) option res)"
    unfolding select_legacy_row_def rbind_eq_Inr by (elim exE conjE)
  then have "(r, aid, sha) \<in> set ms" by (auto split: list.splits)
  note this' = m this
  from legacy_matches_in [OF this'] show ?thesis by auto
qed

lemma resolve_None: "resolve_existing py provider q aid sha rj db = Inr None \<Longrightarrow> select_claim_row aid db = None"
  unfolding resolve_existing_def Let_def by (auto simp: rbind_eq_Inr split: option.splits)

lemma resolve_Some:
  assumes "resolve_existing py provider q aid sha rj db = Inr (Some (r, aid', sha'))" and "row_keyed db"
  shows "select_claim_row aid' db = Some r"
proof -
  from assms(1) consider "select_claim_row aid db = Some r" "aid' = aid"
    | "select_legacy_row py provider q aid db = Inr (Some (r, aid', sha'))"
    unfolding resolve_existing_def Let_def by (auto simp: rbind_eq_Inr split: option.splits)
  then show ?thesis
  proof cases
    case 2 then show ?thesis using select_legacy_in [OF 2] select_row_of [OF assms(2)] by simp
  qed simp
qed

lemma insert_row_run: "insert_row r db = (Inr x, db') \<Longrightarrow> db' = add_row r db \<and> row_checks r"
  by (auto simp: insert_row_def add_row_def split: if_splits)

lemma encode_result_same: "encode_result py result = Inr (json, decoded) \<Longrightarrow> decoded = result"
  by (auto simp: encode_result_def Let_def rbind_eq_Inr ensure_eq_Inr)

lemma stepping_update:
  assumes "\<And>r. select_claim_row aid db = Some r \<Longrightarrow> guard r \<Longrightarrow> row_checks (f r) \<Longrightarrow> outbox_step py c db (put_row aid f db)"
    and "\<And>n. pure_op (k n)"
  shows "stepping py c (bind (update_row aid guard f) k) db"
  unfolding stepping_def
proof (intro allI impI)
  fix x db' assume "bind (update_row aid guard f) k db = (Inr x, db')"
  then obtain n db1 where u: "update_row aid guard f db = (Inr n, db1)" and k: "k n db1 = (Inr x, db')"
    by (rule bind_InrE)
  from k assms(2) [of n] have "db' = db1" unfolding pure_op_def by (metis snd_conv)
  with update_row_run [OF u] assms(1) show "db' = db \<or> outbox_step py c db db'" by auto
qed

lemma replay_stepping: "stepping py c (obx_replay py ox provider q) db"
  unfolding obx_replay_def by (auto intro!: stepping_intros split: option.split prod.split)

lemma claim_stepping: "stepping py (Claim provider q now1) (obx_claim py ox provider q now1) db"
  unfolding obx_claim_def
proof (intro stepping_intros)
  fix x assume k: "request_keys_of py provider q = Inr x"
  obtain aid sha rj where x: "x = (aid, sha, rj)" by (cases x)
  have ins: "stepping py (Claim provider q now1) (andthen (insert_row (new_row py provider q aid sha rj now1))
       (ret \<lparr>clm_attempt_id = aid, clm_result = None, clm_sink_delivered = False\<rparr>)) db"
    if "resolve_existing py provider q aid sha rj db = Inr None"
    unfolding stepping_def
  proof (intro allI impI)
    fix y db'
    assume "andthen (insert_row (new_row py provider q aid sha rj now1))
      (ret \<lparr>clm_attempt_id = aid, clm_result = None, clm_sink_delivered = False\<rparr>) db = (Inr y, db')"
    then obtain u where "insert_row (new_row py provider q aid sha rj now1) db = (Inr u, db')" by (auto elim: bind_InrE)
    then have "db' = add_row (new_row py provider q aid sha rj now1) db" by (rule insert_row_run [THEN conjunct1])
    then show "db' = db \<or> outbox_step py (Claim provider q now1) db db'"
      using outbox_step.claimed [OF k [unfolded x] resolve_None [OF that]] by simp
  qed
  show "stepping py (Claim provider q now1) (case x of (aid, sha, request_json) \<Rightarrow>
      andthen (connect_database ox)
       (in_transaction (bind (query (resolve_existing py provider q aid sha request_json)) (\<lambda>found. case found of
         None \<Rightarrow> andthen (insert_row (new_row py provider q aid sha request_json now1))
           (ret \<lparr>clm_attempt_id = aid, clm_result = None, clm_sink_delivered = False\<rparr>)
       | Some (r, aid', sha') \<Rightarrow> lift_res (claim_from_row py provider q r aid' sha'))))) db"
    unfolding x prod.case
    by (intro stepping_intros) (auto intro!: stepping_intros pure_intros ins split: option.split prod.split)
qed

lemma commit_row_stepping:
  assumes "select_claim_row aid db = Some r" and "encode_result py result = Inr (result_json, result)"
    and "encode_ledger py result aid = Inr ledger_json"
  shows "stepping py (Commit provider q result sink now1) (commit_row py r aid result_json ledger_json sink now1) db"
  unfolding commit_row_def andthen_def
  by (auto intro!: stepping_intros pure_intros stepping_update intro: outbox_step.completed [OF _ _ assms(2,3)])

lemma commit_stepping:
  assumes "row_keyed db"
  shows "stepping py (Commit provider q result sink now1) (obx_commit py ox provider q result sink now1) db"
  unfolding obx_commit_def
proof (intro stepping_intros, clarify, intro stepping_intros, clarify, intro stepping_intros)
  fix aid sha rj json decoded found
  assume e: "encode_result py result = Inr (json, decoded)" and f: "resolve_existing py provider q aid sha rj db = Inr found"
  note same = encode_result_same [OF e]
  show "stepping py (Commit provider q result sink now1) (case found of
         None \<Rightarrow> raise (conflict (about aid '' completed without a durable pre-dispatch claim''))
       | Some (r, aid', sha') \<Rightarrow>
           bind (lift_res (validate_result py provider q decoded sha')) (\<lambda>_.
           bind (lift_res (encode_ledger py result aid')) (\<lambda>ledger_json.
           commit_row py r aid' json ledger_json sink now1))) db"
  proof (cases found)
    case (Some y)
    obtain r aid' sha' where y: "y = (r, aid', sha')" by (cases y)
    have "select_claim_row aid' db = Some r" using f unfolding Some y by (rule resolve_Some) (rule assms)
    then show ?thesis unfolding Some y option.case prod.case
      by (intro stepping_intros commit_row_stepping) (use e same in simp_all)
  qed (auto intro!: stepping_intros pure_intros)
qed

lemma reserve_stepping: "stepping py (Reserve aid secs now1 token) (reserve_sink_delivery py ox aid secs now1 token) db"
  unfolding reserve_sink_delivery_def Let_def
  by (auto intro!: stepping_intros pure_intros stepping_update split: option.split
      simp: ensure_eq_Inr outbox_step.leased)

lemma acknowledge_stepping: "stepping py (Acknowledge v) (mark_sink_delivered ox v) db"
  unfolding mark_sink_delivered_def settle_delivery_def
  by (auto intro!: stepping_intros pure_intros stepping_update intro: outbox_step.acknowledged)

lemma failure_stepping: "stepping py (ReportFailure v e) (record_sink_failure ox v e) db"
  unfolding record_sink_failure_def settle_delivery_def
  by (auto intro!: stepping_intros pure_intros stepping_update intro: outbox_step.failed)

lemma operations_roll_back:
  "rolls_back (obx_replay py ox provider q)" "rolls_back (obx_claim py ox provider q now1)"
  "rolls_back (obx_commit py ox provider q result sink now1)" "rolls_back (reserve_sink_delivery py ox aid secs now1 token)"
  "rolls_back (mark_sink_delivered ox v)" "rolls_back (record_sink_failure ox v e)"
  unfolding obx_replay_def obx_claim_def obx_commit_def reserve_sink_delivery_def mark_sink_delivered_def record_sink_failure_def settle_delivery_def
  by (auto intro!: rollback_intros pure_intros split: prod.split option.split)

lemma stepping_outcome:
  assumes "stepping py c m db" and "rolls_back m" and "\<And>x e. f x \<noteq> Raised e" and "outcome_of f (m db) = (out, db')"
  shows "(db' = db \<or> outbox_step py c db db') \<and> (\<forall>e. out = Raised e \<longrightarrow> db' = db)"
  using assms by (cases "m db"; cases "fst (m db)") (auto simp: stepping_def rolls_back_def outcome_of_def)

lemma perform_step:
  assumes "row_keyed db" and "perform py ox c db = (out, db')"
  shows "(db' = db \<or> outbox_step py c db db') \<and> (\<forall>e. out = Raised e \<longrightarrow> db' = db)"
proof (cases c)
  case (Replay provider q)
  show ?thesis by (rule stepping_outcome [OF replay_stepping operations_roll_back(1)]) (use assms(2) Replay in simp_all)
next
  case (Claim provider q n)
  show ?thesis unfolding Claim
    by (rule stepping_outcome [OF claim_stepping operations_roll_back(2)]) (use assms(2) Claim in simp_all)
next
  case (Commit provider q result sink n)
  show ?thesis unfolding Commit
    by (rule stepping_outcome [OF commit_stepping [OF assms(1)] operations_roll_back(3)]) (use assms(2) Commit in simp_all)
next
  case (Reserve aid secs n token)
  show ?thesis unfolding Reserve
    by (rule stepping_outcome [OF reserve_stepping operations_roll_back(4)]) (use assms(2) Reserve in simp_all)
next
  case (Acknowledge v)
  show ?thesis unfolding Acknowledge
    by (rule stepping_outcome [OF acknowledge_stepping operations_roll_back(5)]) (use assms(2) Acknowledge in simp_all)
next
  case (ReportFailure v e)
  show ?thesis unfolding ReportFailure
    by (rule stepping_outcome [OF failure_stepping operations_roll_back(6)]) (use assms(2) ReportFailure in simp_all)
qed

end
