(* ===== verification/Outbox_History.thy ===== *)
theory Outbox_History
  imports Outbox_Steps
begin

text \<open>
  What happens to the rows over a run: no row disappears, what was claimed stays as it was, what was committed is
  final, what was delivered stays delivered; and what the outcomes of the calls say about the rows.
\<close>

declare bind_query [simp del] bind_lift [simp del]

definition row_evolves :: "outbox_row \<Rightarrow> outbox_row \<Rightarrow> bool" where
  "row_evolves r r' \<longleftrightarrow> obr_attempt_id r' = obr_attempt_id r \<and> obr_provider r' = obr_provider r \<and> obr_task_id r' = obr_task_id r \<and>
     obr_request_sha256 r' = obr_request_sha256 r \<and> obr_request_json r' = obr_request_json r \<and>
     obr_request_json_sha256 r' = obr_request_json_sha256 r \<and> obr_created_at r' = obr_created_at r \<and>
     (obr_state r \<noteq> ''claimed'' \<longrightarrow> obr_state r' = obr_state r \<and> obr_result_json r' = obr_result_json r \<and>
       obr_result_sha256 r' = obr_result_sha256 r \<and> obr_ledger_json r' = obr_ledger_json r \<and>
       obr_ledger_sha256 r' = obr_ledger_sha256 r \<and> obr_completed_at r' = obr_completed_at r \<and>
       (obr_sink_delivered r \<noteq> 0 \<longrightarrow> obr_sink_delivered r' = obr_sink_delivered r))"

lemma row_evolves_refl [simp]: "row_evolves r r"
  by (simp add: row_evolves_def)

lemma row_evolves_trans: "row_evolves r s \<Longrightarrow> row_evolves s t \<Longrightarrow> row_evolves r t"
  by (simp add: row_evolves_def)

definition evolves :: "outbox_db \<Rightarrow> outbox_db \<Rightarrow> bool" where
  "evolves db db' \<longleftrightarrow> obd_instances db' = obd_instances db \<and>
     (\<forall>aid r. select_claim_row aid db = Some r \<longrightarrow> (\<exists>r'. select_claim_row aid db' = Some r' \<and> row_evolves r r'))"

lemma evolves_refl [simp]: "evolves db db"
  by (simp add: evolves_def)

lemma evolves_trans: "evolves a b \<Longrightarrow> evolves b c \<Longrightarrow> evolves a c"
  unfolding evolves_def by (metis row_evolves_trans)

lemma evolvesD: "evolves db db' \<Longrightarrow> select_claim_row aid db = Some r \<Longrightarrow> \<exists>r'. select_claim_row aid db' = Some r' \<and> row_evolves r r'"
  by (simp add: evolves_def)

subsection \<open>Rows after a step\<close>

lemma select_put_row:
  "(\<And>r. obr_attempt_id (f r) = obr_attempt_id r) \<Longrightarrow>
   select_claim_row aid' (put_row aid f db) = (if aid' = aid then map_option f (select_claim_row aid db) else select_claim_row aid' db)"
  by (simp add: select_claim_row_def put_row_def find_by_update_by)

lemma select_add_row:
  "select_claim_row aid (add_row r db) = (case select_claim_row aid db of Some x \<Rightarrow> Some x
     | None \<Rightarrow> if obr_attempt_id r = aid then Some r else None)"
  by (simp add: select_claim_row_def add_row_def find_by_append del: find_by_None split: option.split)

lemma instances_put_add [simp]: "obd_instances (put_row aid f db) = obd_instances db" "obd_instances (add_row r db) = obd_instances db"
  by (simp_all add: put_row_def add_row_def)

lemma row_functions_id [simp]:
  "obr_attempt_id (complete_row a b c d e n r) = obr_attempt_id r" "obr_attempt_id (lease_row token x r) = obr_attempt_id r"
  "obr_attempt_id (delivered_row r) = obr_attempt_id r" "obr_attempt_id (failed_row e' r) = obr_attempt_id r"
  by (simp_all add: complete_row_def lease_row_def delivered_row_def failed_row_def)

lemma keyed_put_row: "(\<And>r. obr_attempt_id (f r) = obr_attempt_id r) \<Longrightarrow> row_keyed (put_row aid f db) = row_keyed db"
  by (simp add: row_keyed_def put_row_def map_update_by_keep)

lemma keyed_add_row: "row_keyed db \<Longrightarrow> select_claim_row (obr_attempt_id r) db = None \<Longrightarrow> row_keyed (add_row r db)"
  by (auto simp: row_keyed_def add_row_def select_claim_row_def)

lemma evolves_put_row:
  assumes "\<And>r. obr_attempt_id (f r) = obr_attempt_id r" and "select_claim_row aid db = Some r" and "row_evolves r (f r)"
  shows "evolves db (put_row aid f db)"
  unfolding evolves_def using assms by (auto simp: select_put_row)

lemma evolves_add_row: "evolves db (add_row r db)"
  unfolding evolves_def by (auto simp: select_add_row)

lemma step_evolves:
  assumes "outbox_step py c db db'"
  shows "evolves db db'"
  using assms
proof cases
  case claimed then show ?thesis by (simp add: evolves_add_row)
next
  case (completed aid r result result_json ledger_json f sink now1)
  show ?thesis unfolding completed
    by (rule evolves_put_row [OF _ completed(3)]) (use completed in \<open>simp_all add: row_evolves_def complete_row_def\<close>)
next
  case (leased aid r now1 secs token)
  show ?thesis unfolding leased
    by (rule evolves_put_row [OF _ leased(3)]) (simp_all add: row_evolves_def lease_row_def)
next
  case (acknowledged v r)
  show ?thesis unfolding acknowledged
    by (rule evolves_put_row [OF _ acknowledged(3)]) (use acknowledged in \<open>simp_all add: row_evolves_def delivered_row_def owned_by_def\<close>)
next
  case (failed v r e)
  show ?thesis unfolding failed
    by (rule evolves_put_row [OF _ failed(3)]) (simp_all add: row_evolves_def failed_row_def)
qed

lemma step_keyed:
  assumes "outbox_step py c db db'" and "row_keyed db"
  shows "row_keyed db'"
  using assms by cases (simp_all add: keyed_put_row keyed_add_row new_row_def)

lemma perform_evolves:
  assumes "row_keyed db" and "perform py ox c db = (out, db')"
  shows "evolves db db' \<and> row_keyed db'"
  using perform_step [OF assms] step_evolves step_keyed assms(1) by auto

subsection \<open>Runs by position\<close>

definition db_at :: "stdlib \<Rightarrow> outbox \<Rightarrow> outbox_call list \<Rightarrow> outbox_db \<Rightarrow> nat \<Rightarrow> outbox_db" where
  "db_at py ox cs db i = snd (outbox_run py ox (take i cs) db)"

lemma db_at_0 [simp]: "db_at py ox cs db 0 = db"
  by (simp add: db_at_def)

lemma run_nth:
  assumes "i < length cs"
  shows "perform py ox (cs ! i) (db_at py ox cs db i) = (fst (outbox_run py ox cs db) ! i, db_at py ox cs db (Suc i))"
proof -
  have "cs = take i cs @ cs ! i # drop (Suc i) cs" using assms by (rule id_take_nth_drop)
  then have r: "fst (outbox_run py ox cs db) ! i = fst (perform py ox (cs ! i) (db_at py ox cs db i))"
    using outbox_run_append [of py ox "take i cs" "cs ! i # drop (Suc i) cs" db] assms
    by (simp add: nth_append outbox_run_length db_at_def Let_def case_prod_beta)
  have "take (Suc i) cs = take i cs @ [cs ! i]" using assms by (rule take_Suc_conv_app_nth)
  then have "db_at py ox cs db (Suc i) = snd (perform py ox (cs ! i) (db_at py ox cs db i))"
    by (simp add: db_at_def outbox_run_append Let_def case_prod_beta)
  with r show ?thesis by simp
qed

lemma keyed_at: "row_keyed db \<Longrightarrow> i \<le> length cs \<Longrightarrow> row_keyed (db_at py ox cs db i)"
proof (induction i)
  case (Suc i)
  then have "row_keyed (db_at py ox cs db i)" by simp
  from perform_evolves [OF this run_nth] Suc.prems show ?case by simp
qed simp

lemma evolves_at:
  assumes "row_keyed db" and "i \<le> j" and "j \<le> length cs"
  shows "evolves (db_at py ox cs db i) (db_at py ox cs db j)"
  using assms(2,3)
proof (induction j rule: dec_induct)
  case (step n)
  have "row_keyed (db_at py ox cs db n)" by (rule keyed_at [OF assms(1)]) (use step in simp)
  from perform_evolves [OF this run_nth [of n cs]] step have "evolves (db_at py ox cs db n) (db_at py ox cs db (Suc n))" by simp
  with step show ?case by (auto intro: evolves_trans)
qed simp


subsection \<open>What the outcomes say\<close>

definition grants :: "call_outcome \<Rightarrow> string \<Rightarrow> bool" where
  "grants out aid \<longleftrightarrow> (\<exists>c. out = Claimed c \<and> clm_attempt_id c = aid \<and> clm_result c = None)"

text \<open>The result that the outcome of a call gives for an attempt: committed, claimed or replayed.\<close>

definition reports :: "outbox_call \<Rightarrow> call_outcome \<Rightarrow> string \<Rightarrow> remote_result \<Rightarrow> bool" where
  "reports c out aid r \<longleftrightarrow> (\<exists>provider q sink n. c = Commit provider q r sink n \<and> out = Committed aid) \<or>
     (\<exists>x. (out = Claimed x \<or> out = Replayed (Some x)) \<and> clm_attempt_id x = aid \<and> clm_result x = Some r)"

definition holds_result :: "stdlib \<Rightarrow> outbox_db \<Rightarrow> string \<Rightarrow> remote_result \<Rightarrow> bool" where
  "holds_result py db aid result \<longleftrightarrow> (\<exists>r. select_claim_row aid db = Some r \<and> obr_state r = ''completed'' \<and> stored_result py aid r = Inr result)"

lemma holds_result_unique: "holds_result py db aid r \<Longrightarrow> holds_result py db aid r' \<Longrightarrow> r = r'"
  by (auto simp: holds_result_def)

lemma holds_result_evolves:
  assumes "holds_result py db aid result" and "evolves db db'"
  shows "holds_result py db' aid result"
proof -
  from assms(1) obtain r where r: "select_claim_row aid db = Some r" "obr_state r = ''completed''" "stored_result py aid r = Inr result"
    by (auto simp: holds_result_def)
  from evolvesD [OF assms(2) r(1)] obtain r' where r': "select_claim_row aid db' = Some r'" "row_evolves r r'" by blast
  have "stored_result py aid r' = stored_result py aid r" using r'(2) r(2) by (simp add: stored_result_def row_evolves_def)
  then show ?thesis using r r' by (auto simp: holds_result_def row_evolves_def)
qed

lemma claim_from_row_Inr:
  "claim_from_row py provider q r aid sha = Inr c \<Longrightarrow> obr_state r = ''completed'' \<and> clm_attempt_id c = aid \<and>
     (\<exists>result. clm_result c = Some result \<and> stored_result py aid r = Inr result)"
  unfolding claim_from_row_def by (auto simp: rbind_eq_Inr split: if_splits)

lemma transaction_Inr [simp]: "in_transaction m db = (Inr x, db') \<longleftrightarrow> m db = (Inr x, db')"
  by (auto simp: in_transaction_def split: prod.splits sum.splits)

lemma connect_bind_Inr:
  "bind (connect_database ox) g db = (Inr x, db') \<longleftrightarrow> connect_database ox db = (Inr (), db) \<and> g () db = (Inr x, db')"
  using connect_run [of ox db] by (auto simp: bind_def)

lemma bind_lift_Inr: "bind (lift_res r) g db = (Inr x, db') \<longleftrightarrow> (\<exists>y. r = Inr y \<and> g y db = (Inr x, db'))"
  by (cases r) (simp_all add: bind_lift)

lemma bind_query_Inr: "bind (query f) g db = (Inr x, db') \<longleftrightarrow> (\<exists>y. f db = Inr y \<and> g y db = (Inr x, db'))"
  by (cases "f db") (simp_all add: bind_query)

lemmas run_Inr = connect_bind_Inr bind_lift_Inr bind_query_Inr transaction_Inr

lemma claim_outcome:
  assumes "row_keyed db" and "obx_claim py ox provider q now1 db = (Inr c, db')"
  obtains (grants) aid sha rj where "request_keys_of py provider q = Inr (aid, sha, rj)" "select_claim_row aid db = None"
      "db' = add_row (new_row py provider q aid sha rj now1) db" "clm_attempt_id c = aid" "clm_result c = None"
  | (known) result where "db' = db" "clm_result c = Some result" "holds_result py db (clm_attempt_id c) result"
proof -
  from assms(2) obtain aid sha rj found where k: "request_keys_of py provider q = Inr (aid, sha, rj)"
    and f: "resolve_existing py provider q aid sha rj db = Inr found"
    and rest: "(case found of None \<Rightarrow> andthen (insert_row (new_row py provider q aid sha rj now1))
           (ret \<lparr>clm_attempt_id = aid, clm_result = None, clm_sink_delivered = False\<rparr>)
       | Some (r, aid', sha') \<Rightarrow> lift_res (claim_from_row py provider q r aid' sha')) db = (Inr c, db')"
    unfolding obx_claim_def by (auto simp: run_Inr)
  show ?thesis
  proof (cases found)
    case None
    with rest obtain u where "insert_row (new_row py provider q aid sha rj now1) db = (Inr u, db')"
      and c: "c = \<lparr>clm_attempt_id = aid, clm_result = None, clm_sink_delivered = False\<rparr>" by (auto elim: bind_InrE)
    then have "db' = add_row (new_row py provider q aid sha rj now1) db" by (simp add: insert_row_run)
    then show ?thesis using grants [OF k resolve_None] f None c by simp
  next
    case (Some y)
    obtain r aid' sha' where y: "y = (r, aid', sha')" by (cases y)
    with rest Some have c: "claim_from_row py provider q r aid' sha' = Inr c" and d: "db' = db" by simp_all
    from resolve_Some [OF f [unfolded Some y] assms(1)] claim_from_row_Inr [OF c]
    show ?thesis using known [OF d] by (auto simp: holds_result_def)
  qed
qed

lemma replay_outcome:
  assumes "row_keyed db" and "obx_replay py ox provider q db = (Inr (Some c), db')"
  shows "db' = db \<and> (\<exists>result. clm_result c = Some result \<and> holds_result py db (clm_attempt_id c) result)"
proof -
  from assms(2) obtain aid sha rj y where f: "resolve_existing py provider q aid sha rj db = Inr (Some y)"
    and rest: "(case y of (r, aid', sha') \<Rightarrow> bind (lift_res (claim_from_row py provider q r aid' sha')) (\<lambda>c. ret (Some c))) db = (Inr (Some c), db')"
    unfolding obx_replay_def by (auto simp: run_Inr split: option.splits)
  obtain r aid' sha' where y: "y = (r, aid', sha')" by (cases y)
  with rest have c: "claim_from_row py provider q r aid' sha' = Inr c" and d: "db' = db" by (auto simp: bind_lift_Inr)
  from resolve_Some [OF f [unfolded y] assms(1)] claim_from_row_Inr [OF c] d
  show ?thesis by (auto simp: holds_result_def)
qed

lemma load_json_Inr: "load_json py raw label = Inr j \<longleftrightarrow> py_loads py raw = Some j"
  by (auto simp: load_json_def split: option.splits)

lemma checked_payload_Inr: "checked_payload py raw digest label = Inr x \<longleftrightarrow> raw = Some x \<and> digest = Some (py_sha256 py x)"
  by (auto simp: checked_payload_def split: option.splits if_splits)

lemma encode_result_Inr:
  "encode_result py result = Inr (text, decoded) \<longleftrightarrow> decoded = result \<and> text = py_dumps py (result_payload py result) \<and>
     (\<exists>j. py_loads py text = Some j \<and> result_from_payload py j = Inr result)"
  by (auto simp: encode_result_def Let_def rbind_eq_Inr ensure_eq_Inr load_json_Inr)

lemma commit_outcome:
  assumes "row_keyed db" and "obx_commit py ox provider q result sink now1 db = (Inr aid, db')"
  shows "select_claim_row aid db \<noteq> None \<and> holds_result py db' aid result \<and>
    (\<forall>aid'. aid' \<noteq> aid \<longrightarrow> select_claim_row aid' db' = select_claim_row aid' db)"
proof -
  from assms(2) obtain a sha rj json decoded found where e': "encode_result py result = Inr (json, decoded)"
    and f: "resolve_existing py provider q a sha rj db = Inr found"
    and rest: "(case found of
         None \<Rightarrow> raise (conflict (about a '' completed without a durable pre-dispatch claim''))
       | Some (r, aid', sha') \<Rightarrow>
           bind (lift_res (validate_result py provider q decoded sha')) (\<lambda>_.
           bind (lift_res (encode_ledger py result aid')) (\<lambda>ledger_json.
           commit_row py r aid' json ledger_json sink now1))) db = (Inr aid, db')"
    unfolding obx_commit_def by (auto simp: run_Inr)
  note e = e' [unfolded encode_result_same [OF e']]
  from rest obtain r aid' sha' lj where found: "found = Some (r, aid', sha')"
    and c: "commit_row py r aid' json lj sink now1 db = (Inr aid, db')"
    by (cases found) (auto simp: run_Inr)
  have r: "select_claim_row aid' db = Some r" using f unfolding found by (rule resolve_Some) (rule assms)
  from e obtain j where j: "py_loads py json = Some j" "result_from_payload py j = Inr result" by (auto simp: encode_result_Inr)
  show ?thesis
  proof (cases "obr_state r = ''completed''")
    case True
    with c have "aid = aid'" "db' = db" "obr_result_json r = Some json" "obr_result_sha256 r = Some (py_sha256 py json)"
      by (auto simp: commit_row_def bind_lift_Inr checked_payload_Inr split: if_splits)
    then have "stored_result py aid r = Inr result" using j by (simp add: stored_result_def checked_payload_def load_json_def)
    with True r \<open>aid = aid'\<close> \<open>db' = db\<close> show ?thesis by (auto simp: holds_result_def)
  next
    case False
    let ?f = "complete_row json (py_sha256 py json) lj (py_sha256 py lj) sink now1"
    from False c have st: "obr_state r = ''claimed''" and b: "bind (update_row aid' (\<lambda>r. obr_state r = ''claimed'') ?f) (\<lambda>_. ret aid') db = (Inr aid, db')"
      by (auto simp: commit_row_def split: if_splits)
    from b obtain n where "update_row aid' (\<lambda>r. obr_state r = ''claimed'') ?f db = (Inr n, db')" and aid: "aid = aid'" by (auto elim: bind_InrE)
    from update_row_run [OF this(1)] st r have "db' = put_row aid' ?f db" by auto
    then have "select_claim_row aid db' = Some (?f r)" and "\<forall>a. a \<noteq> aid \<longrightarrow> select_claim_row a db' = select_claim_row a db"
      using r aid by (simp_all add: select_put_row)
    moreover have "stored_result py aid (?f r) = Inr result"
      using j by (simp add: stored_result_def complete_row_def checked_payload_def load_json_def)
    ultimately show ?thesis using r aid by (auto simp: holds_result_def complete_row_def)
  qed
qed


lemma perform_grant:
  assumes "row_keyed db" and "perform py ox c db = (out, db')" and "grants out aid"
  shows "select_claim_row aid db = None \<and> select_claim_row aid db' \<noteq> None \<and>
    (\<exists>provider q n sha rj. c = Claim provider q n \<and> request_keys_of py provider q = Inr (aid, sha, rj))"
proof -
  from assms(3) obtain x where x: "out = Claimed x" "clm_attempt_id x = aid" "clm_result x = None" by (auto simp: grants_def)
  with assms(2) obtain provider q n where c: "c = Claim provider q n"
    by (cases c) (auto simp: outcome_of_def split: sum.splits)
  with assms(2) x(1) have "obx_claim py ox provider q n db = (Inr x, db')"
    by (cases "obx_claim py ox provider q n db") (auto simp: outcome_of_def split: sum.splits)
  from assms(1) this show ?thesis
  proof (cases rule: claim_outcome)
    case (grants aid sha rj)
    then show ?thesis using x c by (simp add: select_add_row new_row_def)
  qed (use x in simp)
qed

lemma perform_new_row:
  assumes "row_keyed db" and "perform py ox c db = (out, db')" and "select_claim_row aid db = None" and "select_claim_row aid db' \<noteq> None"
  shows "grants out aid"
proof -
  have "outbox_step py c db db'" using perform_step [OF assms(1,2)] assms(3,4) by auto
  then show ?thesis
  proof cases
    case (claimed provider q a sha rj n)
    from assms(2) claimed(1) obtain r where run: "obx_claim py ox provider q n db = (r, db')" and out: "out = (case r of Inl e \<Rightarrow> Raised e | Inr x \<Rightarrow> Claimed x)"
      by (cases "obx_claim py ox provider q n db") (auto simp: outcome_of_def)
    have ne: "db' \<noteq> db" using assms(3,4) by auto
    have "\<exists>x. r = Inr x" using perform_step [OF assms(1,2)] ne out by (cases r) auto
    then obtain x where x: "r = Inr x" by blast
    from assms(1) run [unfolded x] show ?thesis
    proof (cases rule: claim_outcome)
      case (grants a' sha' rj')
      with assms(3,4) have "a' = aid" by (auto simp: select_add_row new_row_def split: if_splits)
      then show ?thesis using grants out x by (auto simp: grants_def)
    qed (use ne in simp)
  qed (use assms(3,4) in \<open>auto simp: select_put_row split: if_splits\<close>)
qed

lemma perform_reports:
  assumes "row_keyed db" and "perform py ox c db = (out, db')" and "reports c out aid r"
  shows "select_claim_row aid db \<noteq> None \<and> holds_result py db' aid r"
proof -
  from assms(3) consider (committed) provider q sink n where "c = Commit provider q r sink n" "out = Committed aid"
    | (claimed) x where "out = Claimed x" "clm_attempt_id x = aid" "clm_result x = Some r"
    | (replayed) x where "out = Replayed (Some x)" "clm_attempt_id x = aid" "clm_result x = Some r"
    by (auto simp: reports_def)
  then show ?thesis
  proof cases
    case committed
    with assms(2) have "obx_commit py ox provider q r sink n db = (Inr aid, db')"
      by (cases "obx_commit py ox provider q r sink n db") (auto simp: outcome_of_def split: sum.splits)
    from commit_outcome [OF assms(1) this] show ?thesis by blast
  next
    case claimed
    with assms(2) obtain provider q n where "obx_claim py ox provider q n db = (Inr x, db')"
      by (cases c) (auto simp: outcome_of_def prod_eq_iff split: sum.splits)
    from assms(1) this show ?thesis
      by (cases rule: claim_outcome) (use claimed in \<open>auto simp: holds_result_def\<close>)
  next
    case replayed
    with assms(2) obtain provider q where "obx_replay py ox provider q db = (Inr (Some x), db')"
      by (cases c) (auto simp: outcome_of_def prod_eq_iff split: sum.splits)
    from replay_outcome [OF assms(1) this] show ?thesis using replayed by (auto simp: holds_result_def)
  qed
qed

lemma perform_holds:
  assumes "row_keyed db" and "perform py ox c db = (out, db')" and "holds_result py db' aid r" and "\<not> holds_result py db aid r"
  shows "\<exists>provider q sink n. c = Commit provider q r sink n \<and> out = Committed aid"
proof -
  have ne: "db' \<noteq> db" using assms(3,4) by auto
  then have "outbox_step py c db db'" using perform_step [OF assms(1,2)] by blast
  then show ?thesis
  proof cases
    case (claimed provider q a sha rj n)
    then show ?thesis using assms(3,4)
      by (auto simp: holds_result_def select_add_row new_row_def split: option.splits if_splits)
  next
    case (completed a row res result_json ledger_json f sink n provider q)
    from assms(2) completed(1) obtain x where run: "obx_commit py ox provider q res sink n db = (x, db')" and out: "out = (case x of Inl e \<Rightarrow> Raised e | Inr y \<Rightarrow> Committed y)"
      by (cases "obx_commit py ox provider q res sink n db") (auto simp: outcome_of_def)
    have "\<exists>y. x = Inr y" using perform_step [OF assms(1,2)] ne out by (cases x) auto
    then obtain y where y: "x = Inr y" by blast
    note co = commit_outcome [OF assms(1) run [unfolded y]]
    have "y = aid"
    proof (rule ccontr)
      assume "y \<noteq> aid"
      then have "select_claim_row aid db' = select_claim_row aid db" using co by simp
      then show False using assms(3,4) by (simp add: holds_result_def)
    qed
    with co assms(3) have "y = aid \<and> res = r" using holds_result_unique by blast
    then show ?thesis using completed(1) out y by auto
  qed (use assms(3,4) in \<open>auto simp: holds_result_def select_put_row stored_result_def lease_row_def delivered_row_def failed_row_def split: if_splits\<close>)
qed


lemma bind_update_Inr:
  "bind (update_row aid guard f) k db = (Inr x, db') \<longleftrightarrow> (\<exists>n db1. update_row aid guard f db = (Inr n, db1) \<and> k n db1 = (Inr x, db'))"
  by (auto elim: bind_InrE)

lemma reserve_outcome:
  assumes "reserve_sink_delivery py ox aid secs now1 token db = (Inr out, db')"
  shows "connect_database ox db = (Inr (), db) \<and> (\<exists>r. select_claim_row aid db = Some r \<and> obr_state r = ''completed'' \<and>
    (case out of
       None \<Rightarrow> db' = db \<and> obr_sink_delivered r = 1
     | Some v \<Rightarrow> 0 < secs \<and> leasable now1 r \<and> row_checks (lease_row token (now1 + secs) r) \<and> db' = put_row aid (lease_row token (now1 + secs)) db \<and>
         rsv_attempt_id v = aid \<and> rsv_lease_token v = token \<and> rsv_lease_expires_at v = now1 + secs \<and>
         stored_ledger py aid r = Inr (rsv_entry v)))"
proof -
  note un = assms [unfolded reserve_sink_delivery_def Let_def]
  from un have s: "0 < secs" and c: "connect_database ox db = (Inr (), db)" by (auto simp: run_Inr ensure_eq_Inr)
  from un obtain r where r: "select_claim_row aid db = Some r" "obr_state r = ''completed''"
    by (auto simp: run_Inr bind_ask split: option.splits if_splits)
  show ?thesis
  proof (cases out)
    case None
    with un r have "db' = db \<and> obr_sink_delivered r = 1"
      by (auto simp: run_Inr bind_ask sqlite_bool_def bind_update_Inr split: if_splits)
    then show ?thesis using r c None by auto
  next
    case (Some v)
    with un r obtain entry n db1 where e: "stored_ledger py aid r = Inr entry"
      and u: "update_row aid (leasable now1) (lease_row token (now1 + secs)) db = (Inr n, db1)"
      and k: "n = 1" "db1 = db'" "v = \<lparr>rsv_attempt_id = aid, rsv_lease_token = token, rsv_lease_expires_at = now1 + secs, rsv_entry = entry\<rparr>"
      by (auto simp: run_Inr bind_ask bind_update_Inr ensure_eq_Inr split: if_splits)
    from update_row_run [OF u] k r(1) have "leasable now1 r" "row_checks (lease_row token (now1 + secs) r)" "db' = put_row aid (lease_row token (now1 + secs)) db" by auto
    then show ?thesis using r c Some s e k by auto
  qed
qed

subsection \<open>Delivery leases\<close>

definition lease_held :: "string \<Rightarrow> string \<Rightarrow> rat \<Rightarrow> outbox_db \<Rightarrow> bool" where
  "lease_held aid token expires db \<longleftrightarrow> (\<exists>r. select_claim_row aid db = Some r \<and> owned_by token r \<and> obr_lease_expires_at r = Some expires \<and> row_checks r)"

text \<open>A call that comes before the lease expires and is not made with its token.\<close>

fun respects_lease :: "string \<Rightarrow> string \<Rightarrow> rat \<Rightarrow> outbox_call \<Rightarrow> bool" where
  "respects_lease aid token expires (Reserve a secs n t) \<longleftrightarrow> (a = aid \<longrightarrow> n < expires)"
| "respects_lease aid token expires (Acknowledge v) \<longleftrightarrow> \<not> (rsv_attempt_id v = aid \<and> rsv_lease_token v = token)"
| "respects_lease aid token expires (ReportFailure v e) \<longleftrightarrow> \<not> (rsv_attempt_id v = aid \<and> rsv_lease_token v = token)"
| "respects_lease aid token expires c \<longleftrightarrow> True"

lemma step_lease_held:
  assumes "outbox_step py c db db'" and "lease_held aid token expires db" and "respects_lease aid token expires c"
  shows "lease_held aid token expires db'"
proof -
  obtain r where r: "select_claim_row aid db = Some r" "owned_by token r" "obr_lease_expires_at r = Some expires" "row_checks r"
    using assms(2) by (auto simp: lease_held_def)
  have other: "lease_held aid token expires (put_row a f db)"
    if "a \<noteq> aid" "\<And>r. obr_attempt_id (f r) = obr_attempt_id r" for a f
    using r that by (auto simp: lease_held_def select_put_row)
  from assms(1) show ?thesis
  proof cases
    case claimed then show ?thesis using r by (auto simp: lease_held_def select_add_row)
  next
    case (completed a x result result_json ledger_json f sink n)
    then have "a \<noteq> aid" using r by (auto simp: owned_by_def)
    from other [OF this, of f] completed show ?thesis by simp
  next
    case (leased a x n secs t)
    then have "a \<noteq> aid" using r assms(3) by (auto simp: owned_by_def leasable_def)
    from other [OF this] leased show ?thesis by simp
  next
    case (acknowledged v x)
    then have "rsv_attempt_id v \<noteq> aid" using r assms(3) by (auto simp: owned_by_def)
    from other [OF this] acknowledged show ?thesis by simp
  next
    case (failed v x e)
    then have "rsv_attempt_id v \<noteq> aid" using r assms(3) by (auto simp: owned_by_def)
    from other [OF this] failed show ?thesis by simp
  qed
qed

lemma perform_lease_held:
  assumes "row_keyed db" and "lease_held aid token expires db" and "respects_lease aid token expires c" and "perform py ox c db = (out, db')"
  shows "lease_held aid token expires db' \<and> (\<forall>secs n t x. c = Reserve aid secs n t \<longrightarrow> out \<noteq> Reserved x)"
proof (intro conjI allI impI)
  show "lease_held aid token expires db'"
    using perform_step [OF assms(1,4)] step_lease_held [OF _ assms(2,3)] assms(2) by auto
  fix secs n t x assume c: "c = Reserve aid secs n t"
  show "out \<noteq> Reserved x"
  proof
    assume "out = Reserved x"
    with assms(4) c have "reserve_sink_delivery py ox aid secs n t db = (Inr x, db')"
      by (cases "reserve_sink_delivery py ox aid secs n t db") (auto simp: outcome_of_def split: sum.splits)
    from reserve_outcome [OF this] assms(2,3) c show False
      by (auto simp: lease_held_def owned_by_def leasable_def split: option.splits)
  qed
qed

lemma run_lease_held:
  assumes "row_keyed db" and "lease_held aid token expires db" and "list_all (respects_lease aid token expires) cs" and "i \<le> length cs"
  shows "lease_held aid token expires (db_at py ox cs db i)"
  using assms(4)
proof (induction i)
  case 0 then show ?case using assms(2) by simp
next
  case (Suc i)
  then have i: "i < length cs" by simp
  have "respects_lease aid token expires (cs ! i)" using assms(3) i by (simp add: list_all_length)
  with perform_lease_held [OF keyed_at [OF assms(1)] _ _ run_nth [OF i]] Suc show ?case by auto
qed

lemma connect_evolves: "evolves db db' \<Longrightarrow> connect_database ox db = (Inr (), db) \<Longrightarrow> connect_database ox db' = (Inr (), db')"
  by (auto simp: connect_database_def read_instance_id_def evolves_def bind_def split: sum.splits if_splits)

lemma lease_row_held: "select_claim_row aid db = Some r \<Longrightarrow> leasable n r \<Longrightarrow> row_checks (lease_row token x r) \<Longrightarrow> lease_held aid token x (put_row aid (lease_row token x) db)"
  by (simp add: lease_held_def select_put_row owned_by_def lease_row_def leasable_def)

lemma acknowledge_held:
  assumes "lease_held (rsv_attempt_id v) (rsv_lease_token v) expires db" and "connect_database ox db = (Inr (), db)"
  shows "mark_sink_delivered ox v db = (Inr (), put_row (rsv_attempt_id v) delivered_row db)"
proof -
  obtain r where r: "select_claim_row (rsv_attempt_id v) db = Some r" "owned_by (rsv_lease_token v) r" "row_checks r"
    using assms(1) by (auto simp: lease_held_def)
  then have "row_checks (delivered_row r)" by (auto simp: row_checks_def delivered_row_def)
  with r assms(2) show ?thesis
    by (simp add: mark_sink_delivered_def settle_delivery_def connect_bind_Inr bind_update_Inr update_row_def put_row_def)
qed


lemma delivered_forever:
  assumes "select_claim_row aid db = Some r" and "obr_state r = ''completed''" and "obr_sink_delivered r = 1" and "connect_database ox db = (Inr (), db)"
    and "evolves db db'" and "0 < secs"
  shows "reserve_sink_delivery py ox aid secs n token db' = (Inr None, db')"
    and "rsv_attempt_id v = aid \<Longrightarrow> mark_sink_delivered ox v db' = (Inr (), db') \<and> record_sink_failure ox v e db' = (Inr (), db')"
proof -
  obtain r' where r': "select_claim_row aid db' = Some r'" "obr_state r' = ''completed''" "obr_sink_delivered r' = 1"
    using evolvesD [OF assms(5,1)] assms(2,3) by (auto simp: row_evolves_def)
  note c = connect_evolves [OF assms(5,4)]
  show "reserve_sink_delivery py ox aid secs n token db' = (Inr None, db')"
    using r' c assms(6) by (simp add: reserve_sink_delivery_def Let_def run_Inr bind_ask ensure_eq_Inr sqlite_bool_def)
  show "mark_sink_delivered ox v db' = (Inr (), db') \<and> record_sink_failure ox v e db' = (Inr (), db')" if "rsv_attempt_id v = aid"
    using r' c that
    by (auto simp: mark_sink_delivered_def record_sink_failure_def settle_delivery_def run_Inr bind_update_Inr update_row_def owned_by_def
        delivery_was_already_acknowledged_def sqlite_bool_def)
qed

end
