(* ===== verification/Outbox_Life.thy ===== *)
theory Outbox_Life
  imports Outbox_History
begin

text \<open>
  The life of one attempt, branch by branch: what each operation does for a request whose provider and task have no
  other row, when the table and the library functions behave.
\<close>

definition no_alias :: "string \<Rightarrow> remote_request \<Rightarrow> string \<Rightarrow> outbox_db \<Rightarrow> bool" where
  "no_alias provider q aid db \<longleftrightarrow>
     (\<forall>r \<in> set (obd_rows db). obr_provider r = provider \<and> obr_task_id r = rq_task_id q \<longrightarrow> obr_attempt_id r = aid)"

text \<open>The row of the request, as its claim has written it.\<close>

definition own_row :: "stdlib \<Rightarrow> string \<Rightarrow> remote_request \<Rightarrow> outbox_row \<Rightarrow> bool" where
  "own_row py provider q r \<longleftrightarrow> (\<exists>aid sha rj. request_keys_of py provider q = Inr (aid, sha, rj) \<and> obr_attempt_id r = aid \<and>
     obr_provider r = provider \<and> obr_task_id r = rq_task_id q \<and> obr_request_sha256 r = sha \<and> obr_request_json r = rj \<and>
     obr_request_json_sha256 r = py_sha256 py rj)"

lemma keys_Inr:
  "request_keys_of py provider q = Inr (aid, sha, rj) \<longleftrightarrow> strip provider \<noteq> [] \<and> sha = request_sha256 py q \<and>
     aid = attempt_id_from_digest py provider (rq_task_id q) sha \<and> (\<exists>j. request_payload py provider q = Inr j \<and> rj = py_dumps py j)"
  by (auto simp: request_keys_of_def external_eval_attempt_id_def rbind_eq_Inr ensure_eq_Inr)

lemma own_row_identity:
  assumes "stdlib_ok py" and "valid_remote_request q" and "own_row py provider q r" and "request_keys_of py provider q = Inr (aid, sha, rj)"
  shows "validate_identity py r aid provider (rq_task_id q) sha rj = Inr ()"
proof -
  obtain j where j: "request_payload py provider q = Inr j" "rj = py_dumps py j" and p: "provider \<noteq> []" and sha: "sha = request_sha256 py q"
    using assms(4) strip_nonempty [of provider] by (auto simp: keys_Inr)
  have l: "py_loads py rj = Some (sorted_json j)"
    unfolding j(2) by (rule stdlib_okD(2) [OF assms(1) request_payload_plain [OF j(1) assms(2)]])
  have "is_sha256 sha" by (simp add: sha request_sha256_def identity_payload_sha256_def stdlib_okD(1) [OF assms(1)])
  then show ?thesis
    using assms(3,4) l p valid_requestD(1) [OF assms(2)] request_back [OF assms(1) p assms(2) j(1)]
    by (auto simp: validate_identity_def claim_identity_matches_def own_row_def checked_payload_def load_json_def expect_simps
        status_of_request_def sha)
qed

lemma legacy_self: "is_sha256 (obr_attempt_id r) \<Longrightarrow> obr_attempt_id r = aid \<Longrightarrow> legacy_match py provider q aid r = Inr None"
  unfolding legacy_match_def by (simp only: expect_simps rbind_simps if_True simp_thms refl)

lemma legacy_none:
  assumes "\<forall>r \<in> set rs. is_sha256 (obr_attempt_id r) \<and> obr_attempt_id r = aid"
  shows "legacy_matches py provider q aid rs = Inr []"
  using assms
proof (induction rs)
  case (Cons r rs)
  have "legacy_match py provider q aid r = Inr None" by (rule legacy_self) (use Cons.prems in auto)
  moreover have "legacy_matches py provider q aid rs = Inr []" by (rule Cons.IH) (use Cons.prems in auto)
  ultimately show ?case by simp
qed simp

lemma no_alias_legacy:
  assumes "stdlib_ok py" and "no_alias provider q aid db" and "request_keys_of py provider q = Inr (aid, sha, rj)"
  shows "select_legacy_row py provider q aid db = Inr None"
proof -
  have "is_sha256 aid" using assms(1,3) by (auto simp: keys_Inr attempt_id_from_digest_def stdlib_okD(1))
  with assms(2) have "legacy_matches py provider q aid
      (filter (\<lambda>r. obr_provider r = provider \<and> obr_task_id r = rq_task_id q) (obd_rows db)) = Inr []"
    by (intro legacy_none) (auto simp: no_alias_def)
  then show ?thesis by (simp add: select_legacy_row_def)
qed

lemma resolve_own:
  assumes "stdlib_ok py" and "valid_remote_request q" and "request_keys_of py provider q = Inr (aid, sha, rj)" and "no_alias provider q aid db"
    and "select_claim_row aid db = Some r" and "own_row py provider q r"
  shows "resolve_existing py provider q aid sha rj db = Inr (Some (r, aid, sha))"
  using assms(5) own_row_identity [OF assms(1,2,6,3)] no_alias_legacy [OF assms(1,4,3)] by (simp add: resolve_existing_def Let_def)

lemma resolve_new:
  assumes "stdlib_ok py" and "request_keys_of py provider q = Inr (aid, sha, rj)" and "no_alias provider q aid db" and "select_claim_row aid db = None"
  shows "resolve_existing py provider q aid sha rj db = Inr None"
  using assms(4) no_alias_legacy [OF assms(1,3,2)] by (simp add: resolve_existing_def Let_def)

text \<open>The first claim.\<close>

lemma claim_new:
  assumes "stdlib_ok py" and "request_keys_of py provider q = Inr (aid, sha, rj)" and "no_alias provider q aid db"
    and "select_claim_row aid db = None" and "connect_database ox db = (Inr (), db)"
  shows "obx_claim py ox provider q now1 db =
    (Inr \<lparr>clm_attempt_id = aid, clm_result = None, clm_sink_delivered = False\<rparr>, add_row (new_row py provider q aid sha rj now1) db)"
proof -
  let ?r = "new_row py provider q aid sha rj now1"
  have "\<not> list_ex (\<lambda>x. obr_provider x = obr_provider ?r \<and> obr_task_id x = obr_task_id ?r \<and> obr_request_sha256 x = obr_request_sha256 ?r) (obd_rows db)"
    using assms(3,4) by (auto simp: list_ex_iff no_alias_def new_row_def select_claim_row_def)
  then have "insert_row ?r db = (Inr (), add_row ?r db)"
    using assms(4) by (auto simp: insert_row_def add_row_def select_claim_row_def new_row_def row_checks_def)
  then show ?thesis
    using assms(2,5) resolve_new [OF assms(1-4)] by (simp add: obx_claim_def run_Inr)
qed

lemma own_new_row: "request_keys_of py provider q = Inr (aid, sha, rj) \<Longrightarrow> own_row py provider q (new_row py provider q aid sha rj now1)"
  by (simp add: own_row_def new_row_def)

lemma no_alias_add:
  "no_alias provider q aid db \<Longrightarrow> obr_attempt_id r = aid \<Longrightarrow> no_alias provider q aid (add_row r db)"
  by (simp add: no_alias_def add_row_def)

lemma no_alias_put:
  assumes "no_alias provider q aid db" and "\<And>r. obr_attempt_id (f r) = obr_attempt_id r"
    and "\<And>r. obr_provider (f r) = obr_provider r" and "\<And>r. obr_task_id (f r) = obr_task_id r"
  shows "no_alias provider q aid (put_row a f db)"
  unfolding no_alias_def
proof (intro ballI impI)
  fix r assume "r \<in> set (obd_rows (put_row a f db))" and m: "obr_provider r = provider \<and> obr_task_id r = rq_task_id q"
  then consider "r \<in> set (obd_rows db)" | x where "r = f x" "x \<in> set (obd_rows db)"
    using set_update_by [of obr_attempt_id a f "obd_rows db"] by (auto simp: put_row_def)
  then show "obr_attempt_id r = aid"
    by cases (use assms m in \<open>simp_all add: no_alias_def\<close>)
qed

text \<open>While the result is out.\<close>

lemma claimed_pending:
  assumes "stdlib_ok py" and "valid_remote_request q" and "request_keys_of py provider q = Inr (aid, sha, rj)" and "no_alias provider q aid db"
    and "select_claim_row aid db = Some r" and "own_row py provider q r" and "connect_database ox db = (Inr (), db)" and "obr_state r = ''claimed''"
  shows "obx_replay py ox provider q db = (Inl (claim_pending (about aid '' has an unresolved durable claim; reconcile provider accounting before retrying'')), db)"
    and "obx_claim py ox provider q now1 db = (Inl (claim_pending (about aid '' has an unresolved durable claim; reconcile provider accounting before retrying'')), db)"
  using assms(3,7,8) resolve_own [OF assms(1-6)]
  by (simp_all add: obx_replay_def obx_claim_def bind_lift bind_query in_transaction_def claim_from_row_def)

lemma encode_result_valid:
  "stdlib_ok py \<Longrightarrow> valid_result r \<Longrightarrow> encode_result py r = Inr (py_dumps py (result_payload py r), r)"
  by (simp add: encode_result_Inr stdlib_okD(2) result_plain result_back)

lemma ledger_entry_of_valid:
  "valid_result r \<Longrightarrow> is_sha256 aid \<Longrightarrow> ledger_entry_of r aid = Inr (to_ledger_entry r aid)"
  using valid_to_ledger_entry [of r aid] by (simp add: ledger_entry_of_def valid_ledger_def Let_def)

lemma encode_ledger_valid:
  assumes "stdlib_ok py" and "valid_result r" and "is_sha256 aid"
  shows "encode_ledger py r aid = Inr (py_dumps py (ledger_payload (to_ledger_entry r aid)))"
proof -
  note v = valid_to_ledger_entry [OF assms(2,3)]
  show ?thesis using ledger_codec.text_round_trip [OF assms(1) v] ledger_entry_of_valid [OF assms(2,3)]
    by (simp add: encode_ledger_def Let_def ensure_eq_Inr)
qed


text \<open>Row content that a commit has written for the result \<open>x\<close>.\<close>

definition committed_row :: "stdlib \<Rightarrow> string \<Rightarrow> remote_result \<Rightarrow> outbox_row \<Rightarrow> bool" where
  "committed_row py aid x r \<longleftrightarrow> obr_state r = ''completed'' \<and> obr_result_json r = Some (py_dumps py (result_payload py x)) \<and>
     obr_result_sha256 r = Some (py_sha256 py (py_dumps py (result_payload py x))) \<and>
     obr_ledger_json r = Some (py_dumps py (ledger_payload (to_ledger_entry x aid))) \<and>
     obr_ledger_sha256 r = Some (py_sha256 py (py_dumps py (ledger_payload (to_ledger_entry x aid))))"

lemma committed_content:
  assumes "stdlib_ok py" and "valid_result x" and "is_sha256 aid" and "committed_row py aid x r"
  shows "stored_result py aid r = Inr x" and "stored_ledger py aid r = Inr (to_ledger_entry x aid)"
proof -
  note v = valid_to_ledger_entry [OF assms(2,3)]
  show "stored_result py aid r = Inr x" using assms(4) encode_result_valid [OF assms(1,2)]
    by (auto simp: committed_row_def stored_result_def checked_payload_def encode_result_Inr load_json_def)
  show "stored_ledger py aid r = Inr (to_ledger_entry x aid)"
    using assms(4) ledger_codec.text_round_trip [OF assms(1) v] by (simp add: committed_row_def stored_ledger_def checked_payload_def)
qed

lemma claim_from_committed:
  assumes "stdlib_ok py" and "valid_result x" and "is_sha256 aid" and "committed_row py aid x r"
    and "result_matches_request py provider q x sha = Inr True" and "obr_sink_delivered r \<in> {0, 1}"
  shows "claim_from_row py provider q r aid sha =
    Inr \<lparr>clm_attempt_id = aid, clm_result = Some x, clm_sink_delivered = (obr_sink_delivered r = 1)\<rparr>"
  using assms(4,5,6) committed_content [OF assms(1-4)] ledger_entry_of_valid [OF assms(2,3)]
  by (auto simp: claim_from_row_def committed_row_def validate_result_def sqlite_bool_def)

definition all_known :: "stdlib \<Rightarrow> string \<Rightarrow> remote_request \<Rightarrow> string \<Rightarrow> string \<Rightarrow> string \<Rightarrow> outbox \<Rightarrow> outbox_row \<Rightarrow> outbox_db \<Rightarrow> bool" where
  "all_known py provider q aid sha rj ox r db \<longleftrightarrow> stdlib_ok py \<and> valid_remote_request q \<and> request_keys_of py provider q = Inr (aid, sha, rj) \<and>
     no_alias provider q aid db \<and> select_claim_row aid db = Some r \<and> own_row py provider q r \<and> connect_database ox db = (Inr (), db)"

lemma all_known_resolve: "all_known py provider q aid sha rj ox r db \<Longrightarrow> resolve_existing py provider q aid sha rj db = Inr (Some (r, aid, sha))"
  by (simp add: all_known_def resolve_own)

lemma all_known_sha: "all_known py provider q aid sha rj ox r db \<Longrightarrow> is_sha256 aid"
  by (auto simp: all_known_def keys_Inr attempt_id_from_digest_def stdlib_okD(1))

lemma all_known_put:
  assumes "all_known py provider q aid sha rj ox r db"
    and "\<And>r. obr_attempt_id (f r) = obr_attempt_id r" and "\<And>r. obr_provider (f r) = obr_provider r" and "\<And>r. obr_task_id (f r) = obr_task_id r"
    and "\<And>r. obr_request_sha256 (f r) = obr_request_sha256 r" and "\<And>r. obr_request_json (f r) = obr_request_json r"
    and "\<And>r. obr_request_json_sha256 (f r) = obr_request_json_sha256 r"
  shows "all_known py provider q aid sha rj ox (f r) (put_row aid f db)"
proof -
  have "connect_database ox (put_row aid f db) = (Inr (), put_row aid f db)" if "connect_database ox db = (Inr (), db)"
    using that by (auto simp: connect_database_def read_instance_id_def bind_def split: sum.splits if_splits list.splits)
  then show ?thesis using assms by (auto simp: all_known_def own_row_def no_alias_put select_put_row)
qed

lemma replay_committed:
  assumes "all_known py provider q aid sha rj ox r db" and "committed_row py aid x r" and "valid_result x"
    and "result_matches_request py provider q x sha = Inr True" and "obr_sink_delivered r \<in> {0, 1}"
  shows "obx_replay py ox provider q db =
      (Inr (Some \<lparr>clm_attempt_id = aid, clm_result = Some x, clm_sink_delivered = (obr_sink_delivered r = 1)\<rparr>), db)"
    and "obx_claim py ox provider q now1 db =
      (Inr \<lparr>clm_attempt_id = aid, clm_result = Some x, clm_sink_delivered = (obr_sink_delivered r = 1)\<rparr>, db)"
  using assms(1) all_known_resolve [OF assms(1)] claim_from_committed [OF _ assms(3) all_known_sha [OF assms(1)] assms(2,4,5)]
  by (simp_all add: all_known_def obx_replay_def obx_claim_def run_Inr)

lemma commit_claimed:
  assumes "all_known py provider q aid sha rj ox r db" and "obr_state r = ''claimed''" and "row_checks r" and "obr_lease_token r = None"
    and "valid_result x" and "result_matches_request py provider q x sha = Inr True"
  obtains f where "obx_commit py ox provider q x sink now1 db = (Inr aid, put_row aid f db)"
    and "f = complete_row (py_dumps py (result_payload py x)) (py_sha256 py (py_dumps py (result_payload py x)))
      (py_dumps py (ledger_payload (to_ledger_entry x aid))) (py_sha256 py (py_dumps py (ledger_payload (to_ledger_entry x aid)))) sink now1"
    and "committed_row py aid x (f r)" and "row_checks (f r)"
proof -
  let ?f = "complete_row (py_dumps py (result_payload py x)) (py_sha256 py (py_dumps py (result_payload py x)))
      (py_dumps py (ledger_payload (to_ledger_entry x aid))) (py_sha256 py (py_dumps py (ledger_payload (to_ledger_entry x aid)))) sink now1"
  have c: "row_checks (?f r)" using assms(3,4) by (auto simp: row_checks_def complete_row_def)
  have "obx_commit py ox provider q x sink now1 db = (Inr aid, put_row aid ?f db)"
    using assms(1,2,6) all_known_resolve [OF assms(1)] encode_result_valid [OF _ assms(5), of py]
      encode_ledger_valid [OF _ assms(5) all_known_sha [OF assms(1)], of py] c
    by (simp add: all_known_def obx_commit_def run_Inr validate_result_def commit_row_def bind_update_Inr update_row_def put_row_def)
  then show ?thesis by (rule that) (use c in \<open>simp_all add: committed_row_def complete_row_def\<close>)
qed

lemma commit_again:
  assumes "all_known py provider q aid sha rj ox r db" and "committed_row py aid x r" and "valid_result x" and "valid_result y"
    and "result_matches_request py provider q y sha = Inr True"
  shows "obx_commit py ox provider q y sink now1 db =
    (if y = x then Inr aid else Inl (conflict (about aid '' already has different committed content'')), db)"
proof -
  have py: "stdlib_ok py" using assms(1) by (simp add: all_known_def)
  have sh: "is_sha256 aid" by (rule all_known_sha [OF assms(1)])
  have inj: "py_dumps py (result_payload py y) = py_dumps py (result_payload py x) \<longleftrightarrow> y = x"
    using result_codec.text_injective [OF py, of py y x] py assms(3,4) by blast
  show ?thesis
    using assms(1,2,5) all_known_resolve [OF assms(1)] encode_result_valid [OF py assms(4)] encode_ledger_valid [OF py assms(4) sh] inj
    by (auto simp: all_known_def obx_commit_def bind_lift bind_query bind_def [of "connect_database ox"] in_transaction_def validate_result_def commit_row_def committed_row_def checked_payload_def)
qed

lemma reserve_committed:
  assumes "all_known py provider q aid sha rj ox r db" and "committed_row py aid x r" and "valid_result x" and "row_checks r"
    and "leasable now1 r" and "0 < secs" and "obr_lease_token r \<noteq> Some []"
  shows "reserve_sink_delivery py ox aid secs now1 token db =
    (Inr (Some \<lparr>rsv_attempt_id = aid, rsv_lease_token = token, rsv_lease_expires_at = now1 + secs, rsv_entry = to_ledger_entry x aid\<rparr>),
     put_row aid (lease_row token (now1 + secs)) db)"
proof -
  have py: "stdlib_ok py" using assms(1) by (simp add: all_known_def)
  have sh: "is_sha256 aid" by (rule all_known_sha [OF assms(1)])
  have "row_checks (lease_row token (now1 + secs) r)" using assms(4,5) by (auto simp: row_checks_def lease_row_def leasable_def)
  moreover have "leased_by_another aid r now1 = Inr ()"
    using assms(4,5,7) by (auto simp: leased_by_another_def leasable_def row_checks_def expect_nonempty_str_def ensure_eq_Inr split: option.splits)
  ultimately show ?thesis
    using assms(1,5,6) committed_content [OF py assms(3) sh assms(2)] ledger_entry_of_valid [OF assms(3) sh]
    by (auto simp: all_known_def reserve_sink_delivery_def Let_def run_Inr bind_ask ensure_eq_Inr leasable_def sqlite_bool_def bind_update_Inr update_row_def put_row_def)
qed

end
