(* ===== verification/Outbox_Intact.thy ===== *)
theory Outbox_Intact
  imports Outbox_Life Transition
begin

text \<open>
  Every row that the operations write can be read back: the invariant behind the reports \<open>statuses\<close>,
  \<open>ledger_entries\<close> and \<open>committed_results\<close>, as an interpretation of \<open>invariant_system\<close>.
\<close>

definition readable_content :: "stdlib \<Rightarrow> outbox_row \<Rightarrow> bool" where
  "readable_content py r \<longleftrightarrow> (\<exists>x. stored_result py (obr_attempt_id r) r = Inr x \<and>
     stored_ledger py (obr_attempt_id r) r = Inr (to_ledger_entry x (obr_attempt_id r)) \<and>
     ledger_entry_of x (obr_attempt_id r) = Inr (to_ledger_entry x (obr_attempt_id r)))"

definition intact_row :: "stdlib \<Rightarrow> outbox_row \<Rightarrow> bool" where
  "intact_row py r \<longleftrightarrow> row_checks r \<and> obr_attempt_id r \<noteq> [] \<and> (\<exists>st. row_status py r = Inr st) \<and>
     (obr_state r = ''completed'' \<longrightarrow> readable_content py r)"

definition intact :: "stdlib \<Rightarrow> outbox_db \<Rightarrow> bool" where
  "intact py db \<longleftrightarrow> row_keyed db \<and> list_all (intact_row py) (obd_rows db)"

text \<open>A call whose request, if it has one, was built by the constructor.\<close>

fun valid_call :: "outbox_call \<Rightarrow> bool" where
  "valid_call (Claim provider q n) \<longleftrightarrow> valid_remote_request q"
| "valid_call c \<longleftrightarrow> True"

lemma row_status_Inr:
  "(\<exists>st. row_status py r = Inr st) \<longleftrightarrow> obr_attempt_id r \<noteq> [] \<and> obr_request_json_sha256 r = py_sha256 py (obr_request_json r) \<and>
     obr_provider r \<noteq> [] \<and> obr_task_id r \<noteq> [] \<and> is_sha256 (obr_request_sha256 r) \<and> obr_state r \<in> {''claimed'', ''completed''} \<and>
     obr_sink_delivered r \<in> {0, 1} \<and> (\<exists>j st. py_loads py (obr_request_json r) = Some j \<and> request_status_payload py j = Inr st \<and>
       rqs_provider st = obr_provider r \<and> rqs_task_id st = obr_task_id r \<and> rqs_request_sha256 st = obr_request_sha256 r)"
  by (auto simp: row_status_def rbind_eq_Inr ensure_eq_Inr checked_payload_Inr load_json_Inr expect_nonempty_str_def expect_sha256_def
      expect_str_def sqlite_bool_def split: if_splits)

lemma row_status_evolves:
  assumes "\<exists>st. row_status py r = Inr st" and "row_evolves r r'" and "row_checks r'"
  shows "\<exists>st. row_status py r' = Inr st"
  using assms unfolding row_status_Inr by (auto simp: row_evolves_def row_checks_def)

lemma list_all_put: "list_all P (obd_rows db) \<Longrightarrow> row_keyed db \<Longrightarrow> select_claim_row aid db = Some r \<Longrightarrow> P (f r) \<Longrightarrow> list_all P (obd_rows (put_row aid f db))"
proof -
  have "list_all P (update_by obr_attempt_id aid f rs)"
    if "list_all P rs" "distinct (map obr_attempt_id rs)" "find_by obr_attempt_id aid rs = Some r" "P (f r)" for rs
    using that by (induction rs) (auto split: if_splits)
  then show "list_all P (obd_rows db) \<Longrightarrow> row_keyed db \<Longrightarrow> select_claim_row aid db = Some r \<Longrightarrow> P (f r) \<Longrightarrow> list_all P (obd_rows (put_row aid f db))"
    by (simp add: put_row_def row_keyed_def select_claim_row_def)
qed

lemma list_all_select: "list_all P (obd_rows db) \<Longrightarrow> select_claim_row aid db = Some r \<Longrightarrow> P r \<and> obr_attempt_id r = aid"
  unfolding select_claim_row_def by (auto dest!: find_by_SomeD simp: list_all_iff)

lemma intact_new_row:
  assumes "stdlib_ok py" and "valid_remote_request q" and "request_keys_of py provider q = Inr (aid, sha, rj)"
  shows "intact_row py (new_row py provider q aid sha rj n)"
proof -
  obtain j where j: "request_payload py provider q = Inr j" "rj = py_dumps py j" and p: "provider \<noteq> []" and sha: "sha = request_sha256 py q"
    and aid: "is_sha256 aid"
    using assms(1,3) strip_nonempty [of provider] by (auto simp: keys_Inr attempt_id_from_digest_def stdlib_okD(1))
  have "py_loads py rj = Some (sorted_json j)"
    unfolding j(2) by (rule stdlib_okD(2) [OF assms(1) request_payload_plain [OF j(1) assms(2)]])
  moreover have "is_sha256 sha" by (simp add: sha request_sha256_def identity_payload_sha256_def stdlib_okD(1) [OF assms(1)])
  moreover have "aid \<noteq> []" using aid by (auto simp: is_sha256_def)
  ultimately show ?thesis
    using p valid_requestD(1) [OF assms(2)] request_back [OF assms(1) p assms(2) j(1)]
    unfolding intact_row_def row_status_Inr by (auto simp: new_row_def row_checks_def status_of_request_def sha)
qed

lemma intact_evolved:
  assumes "intact_row py r" and "row_evolves r r'" and "row_checks r'" and "obr_state r \<noteq> ''claimed''"
  shows "intact_row py r'"
proof -
  have "readable_content py r' = readable_content py r"
    using assms(2,4) by (simp add: readable_content_def row_evolves_def stored_result_def stored_ledger_def)
  then show ?thesis
    using assms row_status_evolves [OF _ assms(2,3)] by (auto simp: intact_row_def row_evolves_def)
qed

lemma intact_completed:
  assumes "intact_row py r" and "encode_result py x = Inr (rj, x)" and "encode_ledger py x (obr_attempt_id r) = Inr lj" and "obr_state r = ''claimed''"
    and "row_checks (complete_row rj (py_sha256 py rj) lj (py_sha256 py lj) sink n r)"
  shows "intact_row py (complete_row rj (py_sha256 py rj) lj (py_sha256 py lj) sink n r)"
proof -
  let ?r' = "complete_row rj (py_sha256 py rj) lj (py_sha256 py lj) sink n r"
  have e: "row_evolves r ?r'" using assms(4) by (simp add: row_evolves_def complete_row_def)
  have st: "\<exists>st. row_status py ?r' = Inr st"
    by (rule row_status_evolves [OF _ e assms(5)]) (use assms(1) in \<open>simp add: intact_row_def\<close>)
  have l: "ledger_entry_of x (obr_attempt_id r) = Inr (to_ledger_entry x (obr_attempt_id r))"
    using assms(3) by (auto simp: encode_ledger_def ledger_entry_of_def Let_def rbind_eq_Inr)
  have "readable_content py ?r'"
    using assms(2,3) l
    by (auto simp: readable_content_def stored_result_def stored_ledger_def encode_result_Inr encode_ledger_def Let_def rbind_eq_Inr ensure_eq_Inr
        load_json_Inr checked_payload_def complete_row_def)
  then show ?thesis using st assms(1,5) by (simp add: intact_row_def)
qed

lemma step_intact:
  assumes "stdlib_ok py" and "intact py db" and "valid_call c" and "outbox_step py c db db'"
  shows "intact py db'"
proof -
  have k: "row_keyed db" and all: "list_all (intact_row py) (obd_rows db)" using assms(2) by (simp_all add: intact_def)
  have k': "row_keyed db'" by (rule step_keyed [OF assms(4) k])
  note at = list_all_select [OF all]
  from assms(4) have "list_all (intact_row py) (obd_rows db')"
  proof cases
    case (claimed provider q aid sha rj n)
    then have "intact_row py (new_row py provider q aid sha rj n)" using intact_new_row [OF assms(1)] assms(3) by simp
    with all show ?thesis by (simp add: claimed(2) add_row_def)
  next
    case (completed aid r x rj lj f sink n provider q)
    have "intact_row py (f r)" unfolding completed(8)
      by (rule intact_completed) (use completed at [OF completed(3)] in simp_all)
    then show ?thesis unfolding completed(2) by (rule list_all_put [OF all k completed(3)])
  next
    case (leased aid r n secs token)
    have "intact_row py (lease_row token (n + secs) r)"
      by (rule intact_evolved [of py r, OF _ _ leased(6)])
        (use at [OF leased(3)] leased(4) in \<open>simp_all add: row_evolves_def lease_row_def leasable_def\<close>)
    then show ?thesis unfolding leased(2) by (rule list_all_put [OF all k leased(3)])
  next
    case (acknowledged v r)
    note r = at [OF acknowledged(3)] acknowledged(4)
    have "row_checks (delivered_row r)" using r by (auto simp: intact_row_def delivered_row_def owned_by_def row_checks_def)
    moreover have "row_evolves r (delivered_row r)" using r by (simp add: row_evolves_def delivered_row_def owned_by_def)
    ultimately have "intact_row py (delivered_row r)"
      using intact_evolved [of py r] r by (simp add: owned_by_def)
    then show ?thesis unfolding acknowledged(2) by (rule list_all_put [OF all k acknowledged(3)])
  next
    case (failed v r e)
    note r = at [OF failed(3)] failed(4)
    have "row_checks (failed_row e r)" using r by (auto simp: intact_row_def failed_row_def owned_by_def row_checks_def)
    moreover have "row_evolves r (failed_row e r)" using r by (simp add: row_evolves_def failed_row_def owned_by_def)
    ultimately have "intact_row py (failed_row e r)"
      using intact_evolved [of py r] r by (simp add: owned_by_def)
    then show ?thesis unfolding failed(2) by (rule list_all_put [OF all k failed(3)])
  qed
  with k' show ?thesis by (simp add: intact_def)
qed

text \<open>The steps of clients whose requests are well formed, over library functions that behave.\<close>

definition client_step :: "stdlib \<Rightarrow> outbox_db \<Rightarrow> outbox_db \<Rightarrow> bool" where
  "client_step py db db' \<longleftrightarrow> stdlib_ok py \<and> (\<exists>c. valid_call c \<and> outbox_step py c db db')"

definition new_outbox :: "outbox_db \<Rightarrow> bool" where
  "new_outbox db \<longleftrightarrow> (\<exists>instance1. is_sha256 instance1 \<and> db = fresh_database instance1)"

interpretation obx: invariant_system new_outbox "client_step py" "\<lambda>db. True" "intact py" for py
proof unfold_locales
  show "intact py db" if "new_outbox db" for db
    using that by (auto simp: new_outbox_def intact_def row_keyed_def fresh_database_def)
  show "intact py db'" if "intact py db" and "client_step py db db'" for db db'
    using that step_intact by (auto simp: client_step_def)
qed simp

lemma run_reaches:
  assumes "stdlib_ok py" and "reach new_outbox (client_step py) db" and "list_all valid_call cs" and "outbox_run py ox cs db = (outs, db')"
  shows "reach new_outbox (client_step py) db'"
  using assms(2,3,4)
proof (induction cs arbitrary: db outs)
  case (Cons c cs)
  obtain x db1 where p: "perform py ox c db = (x, db1)" by (cases "perform py ox c db")
  have "row_keyed db" using obx.reach_inv [OF Cons.prems(1)] by (simp add: intact_def)
  from perform_step [OF this p] consider "db1 = db" | "client_step py db db1"
    using Cons.prems(2) assms(1) by (auto simp: client_step_def)
  then have "reach new_outbox (client_step py) db1"
    using Cons.prems(1) by cases (auto intro: reach_step)
  moreover obtain xs where "outbox_run py ox cs db1 = (xs, db')"
    using Cons.prems(3) p by (cases "outbox_run py ox cs db1") auto
  ultimately show ?case using Cons.IH Cons.prems(2) by simp
qed simp


subsection \<open>Reports\<close>

lemma connect_fresh: "is_sha256 i \<Longrightarrow> connect_database \<lparr>obx_instance_id = i\<rparr> (fresh_database i) = (Inr (), fresh_database i)"
  by (simp add: connect_database_def read_instance_id_def fresh_database_def validate_instance_id_def bind_ask bind_lift)

lemma run_evolves: "row_keyed db \<Longrightarrow> outbox_run py ox cs db = (outs, db') \<Longrightarrow> evolves db db'"
  using evolves_at [of db 0 "length cs" cs py ox] by (simp add: db_at_def)

lemma statuses_run:
  assumes "intact py db" and "connect_database ox db = (Inr (), db)"
  shows "\<exists>sts. statuses py ox only db = (Inr sts, db) \<and>
    map (\<lambda>st. (obs_created_at st, obs_attempt_id st)) sts = map (\<lambda>r. (obr_created_at r, obr_attempt_id r))
      (sort_key (\<lambda>r. (obr_created_at r, obr_attempt_id r)) (filter (\<lambda>r. only \<longrightarrow> unresolved r) (obd_rows db)))"
proof -
  let ?rows = "sort_key (\<lambda>r. (obr_created_at r, obr_attempt_id r)) (filter (\<lambda>r. only \<longrightarrow> unresolved r) (obd_rows db))"
  have "\<forall>r \<in> set ?rows. \<exists>st. row_status py r = Inr st"
    using assms(1) by (auto simp: intact_def list_all_iff intact_row_def)
  from map_res_total [OF this] obtain sts where sts: "map_res (row_status py) ?rows = Inr sts" by blast
  have "map (\<lambda>st. (obs_created_at st, obs_attempt_id st)) sts = map (\<lambda>r. (obr_created_at r, obr_attempt_id r)) ?rows"
    by (rule map_res_map [OF sts])
      (auto simp: row_status_def rbind_eq_Inr ensure_eq_Inr expect_nonempty_str_def split: if_splits)
  then show ?thesis using sts assms(2) by (auto simp: statuses_def run_Inr query_def)
qed

lemma map_res_contents:
  assumes "\<forall>r \<in> set rows. readable_content py r"
  shows "\<exists>xs. map_res (\<lambda>r. stored_result py (obr_attempt_id r) r) rows = Inr xs \<and>
    map_res (\<lambda>r. stored_ledger py (obr_attempt_id r) r) rows = Inr (map2 to_ledger_entry xs (map obr_attempt_id rows))"
  using assms
proof (induction rows)
  case (Cons r rows)
  then obtain xs where "map_res (\<lambda>r. stored_result py (obr_attempt_id r) r) rows = Inr xs"
    "map_res (\<lambda>r. stored_ledger py (obr_attempt_id r) r) rows = Inr (map2 to_ledger_entry xs (map obr_attempt_id rows))" by auto
  moreover from Cons.prems obtain x where "stored_result py (obr_attempt_id r) r = Inr x"
    "stored_ledger py (obr_attempt_id r) r = Inr (to_ledger_entry x (obr_attempt_id r))" by (auto simp: readable_content_def)
  ultimately show ?case by auto
qed simp

lemma row_ledger_readable:
  assumes "readable_content py r" and "obr_attempt_id r \<noteq> []"
  shows "row_ledger_entry py r = stored_ledger py (obr_attempt_id r) r"
  using assms by (auto simp: readable_content_def row_ledger_entry_def expect_nonempty_str_def)

lemma contents_run:
  assumes "intact py db" and "connect_database ox db = (Inr (), db)"
  shows "\<exists>xs. committed_results py ox db = (Inr xs, db) \<and>
    ledger_entries py ox db = (Inr (map2 to_ledger_entry xs (map obr_attempt_id (completed_rows db))), db)"
proof -
  have all: "\<forall>r \<in> set (completed_rows db). readable_content py r \<and> obr_attempt_id r \<noteq> []"
    using assms(1) by (auto simp: intact_def list_all_iff intact_row_def completed_rows_def)
  then obtain xs where xs: "map_res (\<lambda>r. stored_result py (obr_attempt_id r) r) (completed_rows db) = Inr xs"
    "map_res (\<lambda>r. stored_ledger py (obr_attempt_id r) r) (completed_rows db) = Inr (map2 to_ledger_entry xs (map obr_attempt_id (completed_rows db)))"
    using map_res_contents by blast
  have "map_res (row_ledger_entry py) (completed_rows db) = map_res (\<lambda>r. stored_ledger py (obr_attempt_id r) r) (completed_rows db)"
    by (rule map_res_cong [OF refl]) (use all row_ledger_readable in blast)
  then show ?thesis using xs assms(2) by (auto simp: committed_results_def ledger_entries_def run_Inr query_def)
qed

end
