(* ===== verification/Outbox_Example.thy ===== *)
theory Outbox_Example
  imports Outbox_Intact
begin

text \<open>
  Library functions that behave as documented, and a request with a result, at which the properties of the outbox
  are applied. A JSON value is written as a text whose length is its number in an enumeration; a digest is the
  length of the text in hexadecimal.
\<close>

definition demo_py :: stdlib where
  "demo_py = \<lparr>py_sha256 = (\<lambda>x. map (\<lambda>i. hex_digit (length x div 16 ^ i mod 16)) [0..<64]),
     py_dumps = (\<lambda>j. replicate (to_nat (sorted_json j)) CHR ''j''), py_loads = (\<lambda>x. Some (from_nat (length x))),
     py_b64encode = (\<lambda>x. x), py_b64decode = Some, py_float = (\<lambda>n. Some (of_int n)), py_int = (\<lambda>x. None),
     py_neg_zero = JStr ''-0.0''\<rparr>"

lemma hex_digit_hex: "n < 16 \<Longrightarrow> hex_digit n \<in> set ''0123456789abcdef''"
proof -
  have "\<forall>n \<in> set [0..<16]. hex_digit n \<in> set ''0123456789abcdef''" by code_simp
  then show "n < 16 \<Longrightarrow> hex_digit n \<in> set ''0123456789abcdef''" by simp
qed

lemma demo_py_ok: "stdlib_ok demo_py"
proof -
  have "is_sha256 (map (\<lambda>i. hex_digit (n div 16 ^ i mod 16)) [0..<64])" for n
    unfolding is_sha256_def list_all_iff using hex_digit_hex by auto
  then show ?thesis by (simp add: stdlib_ok_def demo_py_def)
qed

lemma is_double_of_int: "\<bar>m\<bar> < 2 ^ 53 \<Longrightarrow> is_double (of_int m)"
  unfolding is_double_def by (intro exI [of _ m] exI [of _ 0]) simp

lemma is_double_numerals [simp]: "is_double 0" "is_double 1" "is_double 2" "is_double 60"
  using is_double_of_int [of 0] is_double_of_int [of 1] is_double_of_int [of 2] is_double_of_int [of 60] by simp_all

definition demo_remote_request :: remote_request where
  "demo_remote_request = \<lparr>rq_task_id = ''t1'', rq_image = ''python'', rq_command = ''run'',
     rq_resources = \<lparr>rem_cpu_cores = 1, rem_memory_gb = 2, rem_disk_gb = 2, rem_accelerator = None\<rparr>,
     rq_timeout_seconds = 60, rq_network_policy = ''deny'', rq_secrets_policy = ''deny'', rq_secret_grants = [],
     rq_input_artifacts = [], rq_expected_outputs = [], rq_lifecycle = ''ephemeral_per_eval'', rq_environment = [],
     rq_snapshot_id = None, rq_max_reuse_tasks = 1, rq_metadata = [], rq_region = None, rq_required_telemetry = {},
     rq_strict_task_identity = False\<rparr>"

lemma demo_request_valid: "valid_remote_request demo_remote_request"
proof -
  have s: "strip ''t1'' \<noteq> []" "strip ''python'' \<noteq> []" "strip ''run'' \<noteq> []" by code_simp+
  show ?thesis using s
    by (simp add: valid_remote_request_def demo_remote_request_def check_request_shape_def check_requirements_def check_resources_def opt_all_def ensure_def)
qed

definition demo_provenance :: provenance where
  "demo_provenance = \<lparr>pv_image = ''python'', pv_image_digest = [], pv_package_sha256 = [], pv_inputs = [], pv_seed = None,
     pv_fixture_digest = [], pv_fixture_state_sha256 = [], pv_fixture_observation_sha256 = [],
     pv_request_sha256 = request_sha256 demo_py demo_remote_request, pv_requested_region = [], pv_requested_accelerator_kind = [],
     pv_requested_accelerator_count = 0, pv_requested_accelerator_memory_gb = None, pv_required_telemetry = [],
     pv_resolved = no_resolved_environment\<rparr>"

lemma demo_provenance_built: "build_request_provenance demo_py demo_remote_request no_resolved_environment = Inr demo_provenance"
proof -
  have d: "image_digest_of ''python'' = []" by code_simp
  have f: "prepared_fixture_provenance [] = Inr ([], [], [])" by code_simp
  show ?thesis using d f
    by (simp add: build_request_provenance_def demo_provenance_def check_provenance_def require_nonnegative_def opt_all_def or_default_def Let_def)
      (simp add: demo_remote_request_def)
qed

definition demo_aid :: string where
  "demo_aid = attempt_id_from_digest demo_py ''prime'' ''t1'' (request_sha256 demo_py demo_remote_request)"

lemma demo_keys: "\<exists>rj. request_keys_of demo_py ''prime'' demo_remote_request = Inr (demo_aid, request_sha256 demo_py demo_remote_request, rj)"
proof -
  have "strip ''prime'' \<noteq> []" by code_simp
  then show ?thesis
    by (simp add: keys_Inr demo_aid_def request_payload_def demo_provenance_built) (simp add: demo_remote_request_def)
qed

definition demo_result :: "string \<Rightarrow> remote_result" where
  "demo_result out = \<lparr>rr_task_id = ''t1'', rr_provider = ''prime'', rr_status = ''success'', rr_stdout = out, rr_stderr = [],
     rr_exit_code = Some 0, rr_artifacts = [\<lparr>oa_name = ''score.json'', oa_content = ''7'', oa_media_type = ''text/plain''\<rparr>],
     rr_events = [\<lparr>rev_sequence = 0, rev_type = ''done'', rev_message = [], rev_fields = [(''n'', JInt 1)]\<rparr>],
     rr_usage = \<lparr>usa_wall_seconds = 2, usa_cpu_seconds = Some 1, usa_peak_memory_mb = None, usa_accelerator_seconds = None,
       usa_accelerator_peak_memory_mb = None\<rparr>,
     rr_cleanup = \<lparr>clo_attempted = True, clo_succeeded = True, clo_resource_id = ''r1'', clo_detail = []\<rparr>,
     rr_error = [], rr_session_id = ''s1'', rr_provenance = demo_provenance, rr_retryable = False\<rparr>"

lemma demo_result_valid: "valid_result (demo_result out)"
proof -
  have s: "strip ''t1'' \<noteq> []" "strip ''prime'' \<noteq> []" "strip ''text/plain'' \<noteq> []" "strip ''done'' \<noteq> []" by code_simp+
  have n: "validate_artifact_name ''score.json'' = Inr ()" by code_simp
  have c: "canonical_dict [(''n'', JInt 1)]" by (simp add: canonical_dict_def sorted_dict_def)
  show ?thesis using s n c
    by (simp add: valid_result_def demo_result_def check_result_def check_output_artifact_def valid_event_def check_event_def check_simps
        valid_usage_def check_usage_def opt_all_def valid_provenance_def check_provenance_def check_resolved_environment_def demo_provenance_def
        no_resolved_environment_def execution_statuses_def ensure_def)
qed

lemma demo_result_matches:
  "result_matches_request demo_py ''prime'' demo_remote_request (demo_result out) (request_sha256 demo_py demo_remote_request) = Inr True"
proof -
  have "rq_task_id demo_remote_request = ''t1''" by (simp add: demo_remote_request_def)
  moreover have "pv_resolved demo_provenance = no_resolved_environment" "pv_request_sha256 demo_provenance = request_sha256 demo_py demo_remote_request"
    by (simp_all add: demo_provenance_def)
  ultimately show ?thesis
    by (simp add: result_matches_request_def demo_result_def demo_provenance_built or_default_def)
qed

definition demo_instance :: string where
  "demo_instance = replicate 64 CHR ''a''"

definition demo_outbox :: outbox where
  "demo_outbox = \<lparr>obx_instance_id = demo_instance\<rparr>"

lemma demo_instance_ok: "is_sha256 demo_instance"
  by code_simp

lemma demo_connect: "connect_database demo_outbox (fresh_database demo_instance) = (Inr (), fresh_database demo_instance)"
  unfolding demo_outbox_def by (rule connect_fresh [OF demo_instance_ok])

lemma demo_no_alias: "no_alias p q a (fresh_database i)"
  by (simp add: no_alias_def fresh_database_def)

text \<open>A new outbox in which the request was claimed, and its result then committed.\<close>

lemma demo_outbox_run:
  obtains r db2 where "outbox_run demo_py demo_outbox [Claim ''prime'' demo_remote_request 0, Commit ''prime'' demo_remote_request (demo_result out) True 1]
      (fresh_database demo_instance) =
      ([Claimed \<lparr>clm_attempt_id = demo_aid, clm_result = None, clm_sink_delivered = False\<rparr>, Committed demo_aid], db2)"
    and "row_keyed db2" and "connect_database demo_outbox db2 = (Inr (), db2)" and "select_claim_row demo_aid db2 = Some r"
    and "leasable 2 r" and "\<And>token. reserve_sink_delivery demo_py demo_outbox demo_aid 300 2 token db2 =
      (Inr (Some \<lparr>rsv_attempt_id = demo_aid, rsv_lease_token = token, rsv_lease_expires_at = 302,
         rsv_entry = to_ledger_entry (demo_result out) demo_aid\<rparr>), put_row demo_aid (lease_row token 302) db2)"
proof -
  obtain rj where k: "request_keys_of demo_py ''prime'' demo_remote_request = Inr (demo_aid, request_sha256 demo_py demo_remote_request, rj)"
    using demo_keys by blast
  let ?db = "fresh_database demo_instance" and ?sha = "request_sha256 demo_py demo_remote_request"
  let ?r = "new_row demo_py ''prime'' demo_remote_request demo_aid ?sha rj 0"
  let ?db1 = "add_row ?r ?db"
  have n: "select_claim_row demo_aid ?db = None" by (simp add: select_claim_row_def fresh_database_def)
  note c1 = claim_new [OF demo_py_ok k demo_no_alias n demo_connect, of 0]
  have "obr_attempt_id ?r = demo_aid" by (simp add: new_row_def)
  then have k1: "all_known demo_py ''prime'' demo_remote_request demo_aid ?sha rj demo_outbox ?r ?db1"
    using demo_py_ok demo_request_valid k demo_no_alias n
    by (simp add: all_known_def own_new_row no_alias_add select_add_row connect_evolves [OF evolves_add_row demo_connect])
  have r: "obr_state ?r = ''claimed''" "row_checks ?r" "obr_lease_token ?r = None" by (simp_all add: new_row_def row_checks_def)
  obtain f where obx_commit: "obx_commit demo_py demo_outbox ''prime'' demo_remote_request (demo_result out) True 1 ?db1 = (Inr demo_aid, put_row demo_aid f ?db1)"
    and f: "f = complete_row (py_dumps demo_py (result_payload demo_py (demo_result out))) (py_sha256 demo_py (py_dumps demo_py (result_payload demo_py (demo_result out))))
      (py_dumps demo_py (ledger_payload (to_ledger_entry (demo_result out) demo_aid))) (py_sha256 demo_py (py_dumps demo_py (ledger_payload (to_ledger_entry (demo_result out) demo_aid)))) True 1"
    and done1: "committed_row demo_py demo_aid (demo_result out) (f ?r)" and checks: "row_checks (f ?r)"
    by (rule commit_claimed [OF k1 r demo_result_valid demo_result_matches])
  have k2: "all_known demo_py ''prime'' demo_remote_request demo_aid ?sha rj demo_outbox (f ?r) (put_row demo_aid f ?db1)"
    by (rule all_known_put [OF k1]) (simp_all add: f complete_row_def)
  have l: "leasable 2 (f ?r)" "obr_lease_token (f ?r) \<noteq> Some []" by (simp_all add: f complete_row_def new_row_def leasable_def)
  show ?thesis
  proof (rule that)
    show "outbox_run demo_py demo_outbox [Claim ''prime'' demo_remote_request 0, Commit ''prime'' demo_remote_request (demo_result out) True 1] ?db =
      ([Claimed \<lparr>clm_attempt_id = demo_aid, clm_result = None, clm_sink_delivered = False\<rparr>, Committed demo_aid], put_row demo_aid f ?db1)"
      using c1 obx_commit by (simp add: outcome_of_def)
    show "row_keyed (put_row demo_aid f ?db1)"
      unfolding f by (subst keyed_put_row) (simp_all add: fresh_database_def row_keyed_def add_row_def)
    show "connect_database demo_outbox (put_row demo_aid f ?db1) = (Inr (), put_row demo_aid f ?db1)"
      "select_claim_row demo_aid (put_row demo_aid f ?db1) = Some (f ?r)" using k2 by (simp_all add: all_known_def)
    show "leasable 2 (f ?r)" by (rule l)
    show "reserve_sink_delivery demo_py demo_outbox demo_aid 300 2 token (put_row demo_aid f ?db1) =
      (Inr (Some \<lparr>rsv_attempt_id = demo_aid, rsv_lease_token = token, rsv_lease_expires_at = 302,
         rsv_entry = to_ledger_entry (demo_result out) demo_aid\<rparr>), put_row demo_aid (lease_row token 302) (put_row demo_aid f ?db1))" for token
      using reserve_committed [OF k2 done1 demo_result_valid checks l(1) _ l(2), of 300 token] by simp
  qed
qed

end
