(* ===== verification/Outbox_Claims.thy ===== *)
theory Outbox_Claims
  imports Outbox_Example
begin

text \<open>
  The properties of the outbox over every interleaving of calls: a paid request is released at most once, a
  committed result is final, and only the owner of the delivery lease settles a delivery.
\<close>

lemma fresh_keyed [simp]: "row_keyed (fresh_database i)"
  by (simp add: row_keyed_def fresh_database_def)

lemma fresh_empty [simp]: "select_claim_row aid (fresh_database i) = None"
  by (simp add: fresh_database_def select_claim_row_def)

text \<open>Something that does not hold before a run and holds after it begins at one of its calls.\<close>

lemma begins:
  assumes "\<not> P (f 0)" and "P (f n)"
  shows "\<exists>i < n. \<not> P (f i) \<and> P (f (Suc i))"
  using assms(2) by (induction n) (use assms(1) in \<open>auto intro: less_SucI\<close>)

lemma granted_before:
  assumes "row_keyed db" and "select_claim_row aid db = None" and "j \<le> length cs" and "select_claim_row aid (db_at py ox cs db j) \<noteq> None"
  shows "\<exists>i < j. grants (fst (outbox_run py ox cs db) ! i) aid"
proof -
  obtain i where i: "i < j" "select_claim_row aid (db_at py ox cs db i) = None" "select_claim_row aid (db_at py ox cs db (Suc i)) \<noteq> None"
    using begins [of "\<lambda>d. select_claim_row aid d \<noteq> None" "db_at py ox cs db" j] assms(2,4) by auto
  have "row_keyed (db_at py ox cs db i)" by (rule keyed_at [OF assms(1)]) (use i(1) assms(3) in simp)
  from perform_new_row [OF this run_nth i(2,3)] i(1) assms(3) show ?thesis by auto
qed

lemma committed_before:
  assumes "row_keyed db" and "select_claim_row aid db = None" and "j \<le> length cs" and "holds_result py (db_at py ox cs db j) aid r"
  shows "\<exists>i < j. \<exists>provider q sink n. cs ! i = Commit provider q r sink n \<and> fst (outbox_run py ox cs db) ! i = Committed aid"
proof -
  have "\<not> holds_result py (db_at py ox cs db 0) aid r" using assms(2) by (simp add: holds_result_def)
  then obtain i where i: "i < j" "\<not> holds_result py (db_at py ox cs db i) aid r" "holds_result py (db_at py ox cs db (Suc i)) aid r"
    using begins [of "\<lambda>d. holds_result py d aid r" "db_at py ox cs db" j] assms(4) by auto
  have "row_keyed (db_at py ox cs db i)" by (rule keyed_at [OF assms(1)]) (use i(1) assms(3) in simp)
  from perform_holds [OF this run_nth i(3,2)] i(1) assms(3) show ?thesis by auto
qed

text \<open>The call at position \<open>i\<close> is a claim of the request, and it returns the permission to dispatch it.\<close>

definition released :: "outbox_call list \<Rightarrow> call_outcome list \<Rightarrow> string \<Rightarrow> remote_request \<Rightarrow> nat \<Rightarrow> bool" where
  "released cs outs provider q i \<longleftrightarrow> i < length cs \<and> (\<exists>n c. cs ! i = Claim provider q n \<and> outs ! i = Claimed c \<and> clm_result c = None)"

lemma fresh_keyed_at: "i \<le> length cs \<Longrightarrow> row_keyed (db_at py ox cs (fresh_database instance1) i)"
  by (rule keyed_at [OF fresh_keyed])

lemma released_row:
  assumes "released cs (fst (outbox_run py ox cs (fresh_database instance1))) provider q i"
  obtains aid sha rj where "request_keys_of py provider q = Inr (aid, sha, rj)"
    "select_claim_row aid (db_at py ox cs (fresh_database instance1) i) = None"
    "select_claim_row aid (db_at py ox cs (fresh_database instance1) (Suc i)) \<noteq> None"
proof -
  from assms obtain n and c :: outbox_claim where i: "i < length cs" and c: "cs ! i = Claim provider q n"
    "grants (fst (outbox_run py ox cs (fresh_database instance1)) ! i) (clm_attempt_id c)"
    unfolding released_def grants_def by blast
  from perform_grant [OF fresh_keyed_at run_nth [OF i] c(2)] i c(1) that show ?thesis by auto
qed

lemma released_first:
  assumes "released cs (fst (outbox_run py ox cs (fresh_database instance1))) provider q i"
    and "released cs (fst (outbox_run py ox cs (fresh_database instance1))) provider q j"
  shows "\<not> i < j"
proof
  assume less: "i < j"
  obtain aid sha rj where i: "request_keys_of py provider q = Inr (aid, sha, rj)"
    "select_claim_row aid (db_at py ox cs (fresh_database instance1) (Suc i)) \<noteq> None" by (rule released_row [OF assms(1)])
  obtain aid' sha' rj' where j: "request_keys_of py provider q = Inr (aid', sha', rj')"
    "select_claim_row aid' (db_at py ox cs (fresh_database instance1) j) = None" by (rule released_row [OF assms(2)])
  have "evolves (db_at py ox cs (fresh_database instance1) (Suc i)) (db_at py ox cs (fresh_database instance1) j)"
    by (rule evolves_at [OF fresh_keyed]) (use less assms(2) in \<open>auto simp: released_def\<close>)
  with i j show False by (auto dest: evolvesD)
qed

lemma committed_released:
  assumes "k < length cs" and "fst (outbox_run py ox cs (fresh_database instance1)) ! k = Committed aid"
  shows "\<exists>m < k. grants (fst (outbox_run py ox cs (fresh_database instance1)) ! m) aid"
proof -
  note run = run_nth [OF assms(1), of py ox "fresh_database instance1"]
  obtain provider q r sink m where c: "cs ! k = Commit provider q r sink m"
    using run assms(2) by (cases "cs ! k") (auto simp: outcome_of_def split: sum.splits)
  then have "reports (cs ! k) (fst (outbox_run py ox cs (fresh_database instance1)) ! k) aid r" using assms(2) by (simp add: reports_def)
  from perform_reports [OF fresh_keyed_at run this] assms(1)
  have "select_claim_row aid (db_at py ox cs (fresh_database instance1) k) \<noteq> None" by simp
  from granted_before [OF fresh_keyed fresh_empty _ this] assms(1) show ?thesis by simp
qed

text \<open>
  C2. However the calls of any number of processes are interleaved, a fresh outbox releases a paid request
  for dispatch at most once: of all the claims of one request of one provider, no two return without a result. And
  a commit succeeds only for an attempt that was released before it.
\<close>

theorem paid_dispatch_once:
  assumes "outs = fst (outbox_run py ox cs (fresh_database instance1))"
  shows "(\<forall>i j. released cs outs provider q i \<longrightarrow> released cs outs provider q j \<longrightarrow> i = j) \<and>
    (\<forall>k aid. k < length cs \<longrightarrow> outs ! k = Committed aid \<longrightarrow> (\<exists>m < k. grants (outs ! m) aid))"
  unfolding assms by (meson committed_released linorder_less_linear released_first)

lemma paid_dispatch_once_witness:
  "released [Claim ''prime'' demo_remote_request 0, Claim ''prime'' demo_remote_request 1]
      (fst (outbox_run demo_py demo_outbox [Claim ''prime'' demo_remote_request 0, Claim ''prime'' demo_remote_request 1] (fresh_database demo_instance)))
      ''prime'' demo_remote_request 0 \<and>
   \<not> released [Claim ''prime'' demo_remote_request 0, Claim ''prime'' demo_remote_request 1]
      (fst (outbox_run demo_py demo_outbox [Claim ''prime'' demo_remote_request 0, Claim ''prime'' demo_remote_request 1] (fresh_database demo_instance)))
      ''prime'' demo_remote_request 1"
proof -
  let ?cs = "[Claim ''prime'' demo_remote_request 0, Claim ''prime'' demo_remote_request 1]"
  let ?outs = "fst (outbox_run demo_py demo_outbox ?cs (fresh_database demo_instance))"
  obtain rj where k: "request_keys_of demo_py ''prime'' demo_remote_request = Inr (demo_aid, request_sha256 demo_py demo_remote_request, rj)"
    using demo_keys by blast
  have "released ?cs ?outs ''prime'' demo_remote_request 0"
    using claim_new [OF demo_py_ok k demo_no_alias fresh_empty demo_connect, of 0] by (simp add: released_def outcome_of_def Let_def case_prod_beta)
  moreover have "released ?cs ?outs ''prime'' demo_remote_request i \<longrightarrow> released ?cs ?outs ''prime'' demo_remote_request j \<longrightarrow> i = j" for i j
    using paid_dispatch_once [of ?outs demo_py demo_outbox ?cs demo_instance] by blast
  ultimately show ?thesis by (metis zero_neq_one)
qed

text \<open>
  C3. A committed result is final: whatever the calls, all results that the outbox gives out for one attempt are
  the same, be it to the caller that commits, to a later claim or to a replay; and each of them was committed.
\<close>

theorem committed_result_final:
  assumes "outs = fst (outbox_run py ox cs (fresh_database instance1))"
    and "i < length cs" and "reports (cs ! i) (outs ! i) aid r"
    and "j < length cs" and "reports (cs ! j) (outs ! j) aid r'"
  shows "r = r' \<and> (\<exists>m \<le> i. \<exists>provider q sink n. cs ! m = Commit provider q r sink n \<and> outs ! m = Committed aid)"
proof
  let ?db = "fresh_database instance1"
  have h: "holds_result py (db_at py ox cs ?db (Suc m)) aid x" if "m < length cs" "reports (cs ! m) (outs ! m) aid x" for m x
  proof -
    have "row_keyed (db_at py ox cs ?db m)" by (rule keyed_at) (use that in simp_all)
    from perform_reports [OF this run_nth [OF that(1)] that(2) [unfolded assms(1)]] show ?thesis by blast
  qed
  have fin: "holds_result py (db_at py ox cs ?db (length cs)) aid x" if "m < length cs" "reports (cs ! m) (outs ! m) aid x" for m x
    by (rule holds_result_evolves [OF h [OF that] evolves_at]) (use that in simp_all)
  show "r = r'" by (rule holds_result_unique [OF fin [OF assms(2,3)] fin [OF assms(4,5)]])
  from committed_before [OF fresh_keyed fresh_empty _ h [OF assms(2,3)]] assms(1,2)
  show "\<exists>m \<le> i. \<exists>provider q sink n. cs ! m = Commit provider q r sink n \<and> outs ! m = Committed aid"
    by (auto simp: less_Suc_eq_le)
qed

lemma committed_result_final_witness:
  "\<exists>m \<le> 1. \<exists>provider q sink n. [Claim ''prime'' demo_remote_request 0, Commit ''prime'' demo_remote_request (demo_result ''a'') True 1] ! m =
      Commit provider q (demo_result ''a'') sink n \<and>
    fst (outbox_run demo_py demo_outbox [Claim ''prime'' demo_remote_request 0, Commit ''prime'' demo_remote_request (demo_result ''a'') True 1]
      (fresh_database demo_instance)) ! m = Committed demo_aid"
proof -
  let ?cs = "[Claim ''prime'' demo_remote_request 0, Commit ''prime'' demo_remote_request (demo_result ''a'') True 1]"
  obtain db where run: "outbox_run demo_py demo_outbox ?cs (fresh_database demo_instance) =
      ([Claimed \<lparr>clm_attempt_id = demo_aid, clm_result = None, clm_sink_delivered = False\<rparr>, Committed demo_aid], db)"
    by (rule demo_outbox_run [of "''a''"]) blast
  have "1 < length ?cs" by simp
  moreover have "reports (?cs ! 1) (fst (outbox_run demo_py demo_outbox ?cs (fresh_database demo_instance)) ! 1) demo_aid (demo_result ''a'')"
    unfolding run by (auto simp: reports_def)
  ultimately show ?thesis using committed_result_final [OF refl, of 1 ?cs demo_py demo_outbox demo_instance demo_aid "demo_result ''a''" 1 "demo_result ''a''"] by blast
qed


text \<open>While a lease is held, no call before its expiry gives the reservation away.\<close>

lemma no_second_reservation:
  assumes k: "row_keyed db" and held: "lease_held aid token x db" and cs: "list_all (respects_lease aid token x) cs"
    and i: "i < length cs" "cs ! i = Reserve aid secs n' token'"
  shows "fst (outbox_run py ox cs db) ! i \<noteq> Reserved y"
proof -
  have "respects_lease aid token x (cs ! i)" using cs i(1) by (simp add: list_all_length)
  from perform_lease_held [OF keyed_at [OF k] run_lease_held [OF k held cs] this run_nth [OF i(1)]] i show ?thesis by auto
qed

text \<open>The owner's acknowledgement succeeds, and is final.\<close>

lemma acknowledged_for_good:
  assumes k: "row_keyed db" and con: "connect_database ox db = (Inr (), db)" and held: "lease_held aid token x db"
    and v: "rsv_attempt_id v = aid" "rsv_lease_token v = token"
  shows "\<exists>db'. mark_sink_delivered ox v db = (Inr (), db') \<and>
    (\<forall>cs outs db4. outbox_run py ox cs db' = (outs, db4) \<longrightarrow>
      (\<forall>secs n token. 0 < secs \<longrightarrow> reserve_sink_delivery py ox aid secs n token db4 = (Inr None, db4)) \<and>
      (\<forall>v e. rsv_attempt_id v = aid \<longrightarrow> mark_sink_delivered ox v db4 = (Inr (), db4) \<and> record_sink_failure ox v e db4 = (Inr (), db4)))"
proof -
  define db' where "db' = put_row aid delivered_row db"
  obtain s where s: "select_claim_row aid db = Some s" "owned_by token s" using held by (auto simp: lease_held_def)
  have s': "select_claim_row aid db' = Some (delivered_row s)" "obr_state (delivered_row s) = ''completed''" "obr_sink_delivered (delivered_row s) = 1"
    using s by (simp_all add: db'_def select_put_row delivered_row_def owned_by_def)
  have con': "connect_database ox db' = (Inr (), db')"
    using connect_evolves [OF evolves_put_row [OF _ s(1), of delivered_row] con] s(2)
    by (simp add: db'_def row_evolves_def delivered_row_def owned_by_def)
  have k': "row_keyed db'" using k by (simp add: db'_def keyed_put_row)
  have "(\<forall>secs n token. 0 < secs \<longrightarrow> reserve_sink_delivery py ox aid secs n token db4 = (Inr None, db4)) \<and>
      (\<forall>v e. rsv_attempt_id v = aid \<longrightarrow> mark_sink_delivered ox v db4 = (Inr (), db4) \<and> record_sink_failure ox v e db4 = (Inr (), db4))"
    if "outbox_run py ox cs db' = (outs, db4)" for cs outs db4
  proof -
    have "db4 = db_at py ox cs db' (length cs)" using that by (simp add: db_at_def)
    then have e: "evolves db' db4" using evolves_at [OF k', of 0 "length cs" cs] by simp
    show ?thesis using delivered_forever(1) [OF s' con' e] delivered_forever(2) [OF s' con' e zero_less_one] by blast
  qed
  moreover have "mark_sink_delivered ox v db = (Inr (), db')" using acknowledge_held [of v x db ox] held con v by (simp add: db'_def)
  ultimately show ?thesis by blast
qed

text \<open>
  C4. A delivery of a ledger entry has one owner: from the moment a process reserves it until the lease expires,
  whatever calls the other processes make (each before the expiry, none with the token of the lease), nobody else gets the
  reservation, and the owner can still acknowledge it. After the acknowledgement the entry stays delivered: it is never
  reserved again, and late acknowledgements and failures of others change nothing.
\<close>

theorem delivery_lease_exclusive:
  assumes "row_keyed db" and "reserve_sink_delivery py ox aid secs n token db = (Inr (Some v), db1)"
    and "outbox_run py ox cs db1 = (outs, db2)" and "list_all (respects_lease aid token (n + secs)) cs"
  shows "(\<forall>i secs' n' token' x. i < length cs \<longrightarrow> cs ! i = Reserve aid secs' n' token' \<longrightarrow> outs ! i \<noteq> Reserved x) \<and>
    (\<exists>db3. mark_sink_delivered ox v db2 = (Inr (), db3) \<and>
      (\<forall>cs' outs' db4. outbox_run py ox cs' db3 = (outs', db4) \<longrightarrow>
        (\<forall>secs' n' token'. 0 < secs' \<longrightarrow> reserve_sink_delivery py ox aid secs' n' token' db4 = (Inr None, db4)) \<and>
        (\<forall>v' e. rsv_attempt_id v' = aid \<longrightarrow> mark_sink_delivered ox v' db4 = (Inr (), db4) \<and>
          record_sink_failure ox v' e db4 = (Inr (), db4))))"
proof
  from reserve_outcome [OF assms(2)] obtain r where con: "connect_database ox db = (Inr (), db)"
    and r: "select_claim_row aid db = Some r" "leasable n r" "row_checks (lease_row token (n + secs) r)"
    and db1: "db1 = put_row aid (lease_row token (n + secs)) db" and v: "rsv_attempt_id v = aid" "rsv_lease_token v = token"
    by auto
  have held: "lease_held aid token (n + secs) db1" unfolding db1 by (rule lease_row_held [OF r])
  have k: "row_keyed db1" using assms(1) by (simp add: db1 keyed_put_row)
  have outs: "outs = fst (outbox_run py ox cs db1)" and db2: "db2 = db_at py ox cs db1 (length cs)"
    using assms(3) by (simp_all add: db_at_def)
  show "\<forall>i secs' n' token' x. i < length cs \<longrightarrow> cs ! i = Reserve aid secs' n' token' \<longrightarrow> outs ! i \<noteq> Reserved x"
    unfolding outs using no_second_reservation [OF k held assms(4)] by blast
  have "evolves db db1" unfolding db1 by (rule evolves_put_row [OF _ r(1)]) (simp_all add: row_evolves_def lease_row_def)
  from connect_evolves [OF evolves_trans [OF this] con] have con2: "connect_database ox db2 = (Inr (), db2)"
    unfolding db2 using evolves_at [OF k, of 0 "length cs" cs] by simp
  have held2: "lease_held aid token (n + secs) db2" unfolding db2 by (rule run_lease_held [OF k held assms(4) order_refl])
  have "row_keyed db2" unfolding db2 by (rule keyed_at [OF k order_refl])
  from acknowledged_for_good [OF this con2 held2 v]
  show "\<exists>db3. mark_sink_delivered ox v db2 = (Inr (), db3) \<and>
      (\<forall>cs' outs' db4. outbox_run py ox cs' db3 = (outs', db4) \<longrightarrow>
        (\<forall>secs' n' token'. 0 < secs' \<longrightarrow> reserve_sink_delivery py ox aid secs' n' token' db4 = (Inr None, db4)) \<and>
        (\<forall>v' e. rsv_attempt_id v' = aid \<longrightarrow> mark_sink_delivered ox v' db4 = (Inr (), db4) \<and>
          record_sink_failure ox v' e db4 = (Inr (), db4)))" .
qed

lemma delivery_lease_exclusive_witness:
  "\<exists>db outs. fst (outbox_run demo_py demo_outbox [Reserve demo_aid 300 10 ''u'', Replay ''prime'' demo_remote_request] db) = outs \<and> outs ! 0 \<noteq> Reserved None \<and>
    (\<exists>v db3. rsv_attempt_id v = demo_aid \<and>
      mark_sink_delivered demo_outbox v (snd (outbox_run demo_py demo_outbox [Reserve demo_aid 300 10 ''u'', Replay ''prime'' demo_remote_request] db)) = (Inr (), db3))"
proof -
  let ?cs = "[Reserve demo_aid 300 10 ''u'', Replay ''prime'' demo_remote_request]"
  obtain db where k: "row_keyed db" and res: "reserve_sink_delivery demo_py demo_outbox demo_aid 300 2 ''t'' db =
      (Inr (Some \<lparr>rsv_attempt_id = demo_aid, rsv_lease_token = ''t'', rsv_lease_expires_at = 302,
         rsv_entry = to_ledger_entry (demo_result ''a'') demo_aid\<rparr>), put_row demo_aid (lease_row ''t'' 302) db)"
    by (rule demo_outbox_run [of "''a''"]) blast
  have r: "list_all (respects_lease demo_aid ''t'' (2 + 300)) ?cs" by simp
  obtain outs db2 where run: "outbox_run demo_py demo_outbox ?cs (put_row demo_aid (lease_row ''t'' 302) db) = (outs, db2)"
    by (cases "outbox_run demo_py demo_outbox ?cs (put_row demo_aid (lease_row ''t'' 302) db)")
  note d = delivery_lease_exclusive [OF k res run r]
  have "outs ! 0 \<noteq> Reserved None" using d [THEN conjunct1, rule_format, of 0 300 10 "''u''" None] by simp
  moreover from d obtain db3 where "mark_sink_delivered demo_outbox \<lparr>rsv_attempt_id = demo_aid, rsv_lease_token = ''t'', rsv_lease_expires_at = 302,
      rsv_entry = to_ledger_entry (demo_result ''a'') demo_aid\<rparr> db2 = (Inr (), db3)" by blast
  ultimately show ?thesis using run by (intro exI [of _ "put_row demo_aid (lease_row ''t'' 302) db"] exI [of _ outs]) force
qed






text \<open>
  C8. Whatever well-formed clients do with a new outbox, its reports can always be made: the statuses are one for
  each row asked for, in the order of creation, and the ledger entries are those of the committed results, each under its
  own attempt.
\<close>

theorem reports_readable:
  assumes "stdlib_ok py" and "is_sha256 instance1" and "list_all valid_call cs" and "ox = \<lparr>obx_instance_id = instance1\<rparr>"
    and "outbox_run py ox cs (fresh_database instance1) = (outs, db)"
  shows "(\<exists>sts. statuses py ox only db = (Inr sts, db) \<and>
      map (\<lambda>st. (obs_created_at st, obs_attempt_id st)) sts = map (\<lambda>r. (obr_created_at r, obr_attempt_id r))
        (sort_key (\<lambda>r. (obr_created_at r, obr_attempt_id r)) (filter (\<lambda>r. only \<longrightarrow> unresolved r) (obd_rows db)))) \<and>
    (\<exists>xs. committed_results py ox db = (Inr xs, db) \<and>
      ledger_entries py ox db = (Inr (map2 to_ledger_entry xs (map obr_attempt_id (completed_rows db))), db))"
proof -
  have "reach new_outbox (client_step py) (fresh_database instance1)"
    by (rule reach_start) (use assms(2) in \<open>auto simp: new_outbox_def\<close>)
  then have "intact py db" using obx.reach_inv [OF run_reaches [OF assms(1) _ assms(3,5)]] by simp
  moreover have "connect_database ox db = (Inr (), db)"
    using connect_evolves [OF run_evolves [OF fresh_keyed assms(5)]] connect_fresh [OF assms(2)] assms(4) by simp
  ultimately show ?thesis using statuses_run contents_run by blast
qed

lemma reports_readable_witness:
  "\<exists>db xs. snd (outbox_run demo_py demo_outbox [Claim ''prime'' demo_remote_request 0, Commit ''prime'' demo_remote_request (demo_result ''a'') True 1]
      (fresh_database demo_instance)) = db \<and> committed_results demo_py demo_outbox db = (Inr xs, db) \<and>
    ledger_entries demo_py demo_outbox db = (Inr (map2 to_ledger_entry xs (map obr_attempt_id (completed_rows db))), db)"
proof -
  obtain outs db where run: "outbox_run demo_py demo_outbox [Claim ''prime'' demo_remote_request 0, Commit ''prime'' demo_remote_request (demo_result ''a'') True 1]
      (fresh_database demo_instance) = (outs, db)"
    by (rule demo_outbox_run [of "''a''"]) blast
  have "list_all valid_call [Claim ''prime'' demo_remote_request 0, Commit ''prime'' demo_remote_request (demo_result ''a'') True 1]"
    using demo_request_valid by simp
  from reports_readable [OF demo_py_ok demo_instance_ok this demo_outbox_def run] run show ?thesis by auto
qed

end
