(* ===== verification/Outbox_Open.thy ===== *)
theory Outbox_Open
  imports Outbox_Intact
begin

text \<open>
  Opening an outbox, \<open>initialize_database\<close> of \<^verbatim>\<open>execution/_external_eval_outbox_store.py\<close>: a new file is
  given the tables and a random identity, a file that an older version has written is upgraded, and a file of a newer
  version is refused. All of it happens in one transaction.

  A file is its \<open>user_version\<close>, whether it has the metadata table, which of the columns that were added later the
  main table has (\<open>None\<close>: there is no table, and so there are no rows), and the rows. \<open>token\<close> is the value of \<open>secrets.token_hex(32)\<close>.
\<close>

record outbox_file =
  obf_user_version :: int
  obf_has_metadata :: bool
  obf_columns :: "string set option"
  obf_db :: outbox_db

definition schema_version :: int where
  "schema_version = 3"

definition later_columns :: "string set" where
  "later_columns = {''request_json_sha256'', ''delivery_lease_token'', ''delivery_lease_expires_at''}"

definition new_file :: outbox_file where
  "new_file = \<lparr>obf_user_version = 0, obf_has_metadata = False, obf_columns = None, obf_db = \<lparr>obd_instances = [], obd_rows = []\<rparr>\<rparr>"

definition create_table :: "outbox_file \<Rightarrow> outbox_file" where
  "create_table f = (case obf_columns f of None \<Rightarrow> f\<lparr>obf_columns := Some later_columns\<rparr> | Some _ \<Rightarrow> f)"

definition initialize_instance_id :: "string \<Rightarrow> int \<Rightarrow> (outbox_file, string) op" where
  "initialize_instance_id token from_version =
     andthen (bind (asks obf_has_metadata) (\<lambda>exists1.
       if exists1 then ret ()
       else if from_version \<ge> schema_version
       then raise (RuntimeError ''external-evaluation outbox instance identity metadata is missing'')
       else if \<not> is_sha256 token then raise (IntegrityError ''CHECK constraint failed: instance_id'')
       else modify (\<lambda>f. f\<lparr>obf_has_metadata := True, obf_db := (obf_db f)\<lparr>obd_instances := [token]\<rparr>\<rparr>)))
     (query (read_instance_id \<circ> obf_db))"

text \<open>The columns that are missing: a checksum of the request for every row, and no lease.\<close>

definition add_columns :: "stdlib \<Rightarrow> string set \<Rightarrow> outbox_row \<Rightarrow> outbox_row" where
  "add_columns py columns r =
     (let r1 = (if ''request_json_sha256'' \<in> columns then r else r\<lparr>obr_request_json_sha256 := py_sha256 py (obr_request_json r)\<rparr>);
          r2 = (if ''delivery_lease_token'' \<in> columns then r1 else r1\<lparr>obr_lease_token := None\<rparr>)
      in if ''delivery_lease_expires_at'' \<in> columns then r2 else r2\<lparr>obr_lease_expires_at := None\<rparr>)"

text \<open>\<open>canonical_json\<close> of a value that was read, which can hold a non-finite number: \<open>allow_nan=False\<close>.\<close>

definition canonical_json :: "stdlib \<Rightarrow> json \<Rightarrow> string res" where
  "canonical_json py j = (case validate_json_value [] j of
       Inl _ \<Rightarrow> Inl (ValueError ''Out of range float values are not JSON compliant'')
     | Inr _ \<Rightarrow> Inr (py_dumps py j))"

text \<open>Before the second version a ledger entry had no attempt identity.\<close>

definition with_attempt_id :: "stdlib \<Rightarrow> outbox_row \<Rightarrow> json \<Rightarrow> outbox_row res" where
  "with_attempt_id py r payload = (case payload of
       JObj d \<Rightarrow> if ''attempt_id'' \<in> fst ` set d then Inr r
         else rbind (expect_nonempty_str (JStr (obr_attempt_id r)) ''outbox attempt_id'') (\<lambda>aid.
           rbind (canonical_json py (JObj (d @ [(''attempt_id'', JStr aid)]))) (\<lambda>migrated.
           Inr (r\<lparr>obr_ledger_json := Some migrated, obr_ledger_sha256 := Some (py_sha256 py migrated)\<rparr>)))
     | _ \<Rightarrow> Inr r)"

definition migrate_ledger :: "stdlib \<Rightarrow> outbox_row \<Rightarrow> outbox_row res" where
  "migrate_ledger py r =
     (if obr_state r \<noteq> ''completed'' then Inr r
      else rbind (checked_payload py (obr_ledger_json r) (obr_ledger_sha256 r) (about (obr_attempt_id r) '' ledger'')) (\<lambda>checked.
        rbind (load_json py checked (about (obr_attempt_id r) '' ledger'')) (with_attempt_id py r)))"

definition set_rows :: "outbox_row list \<Rightarrow> outbox_file \<Rightarrow> outbox_file" where
  "set_rows rs f = f\<lparr>obf_db := (obf_db f)\<lparr>obd_rows := rs\<rparr>\<rparr>"

definition upgrade_schema :: "stdlib \<Rightarrow> int \<Rightarrow> (outbox_file, unit) op" where
  "upgrade_schema py from_version =
     andthen (modify (\<lambda>f. case obf_columns f of
         None \<Rightarrow> f
       | Some columns \<Rightarrow> (set_rows (map (add_columns py columns) (obd_rows (obf_db f))) f)\<lparr>obf_columns := Some (columns \<union> later_columns)\<rparr>))
     (if from_version \<ge> 2 then ret ()
      else bind (query (\<lambda>f. map_res (migrate_ledger py) (obd_rows (obf_db f)))) (\<lambda>rs. modify (set_rows rs)))"

definition row_request :: "outbox_row \<Rightarrow> string \<times> string \<times> string" where
  "row_request r = (obr_provider r, obr_task_id r, obr_request_sha256 r)"

definition create_request_index :: "(outbox_file, unit) op" where
  "create_request_index = bind (asks (\<lambda>f. distinct (map row_request (obd_rows (obf_db f))))) (\<lambda>b.
     if b then ret () else raise (IntegrityError ''UNIQUE constraint failed: remote_eval_outbox.request''))"

definition initialize_database :: "stdlib \<Rightarrow> string \<Rightarrow> (outbox_file, string) op" where
  "initialize_database py token = in_transaction
     (bind (asks obf_user_version) (\<lambda>version.
      if version > schema_version
      then raise (RuntimeError (''external-evaluation outbox schema '' @ str_int version @ '' is newer than supported schema '' @ str_int schema_version))
      else andthen (modify create_table)
        (bind (initialize_instance_id token version) (\<lambda>instance_id.
         andthen (upgrade_schema py version)
         (andthen create_request_index
         (andthen (modify (\<lambda>f. f\<lparr>obf_user_version := schema_version\<rparr>))
         (ret instance_id)))))))"

subsection \<open>What an opening does\<close>

definition the_columns :: "outbox_file \<Rightarrow> string set" where
  "the_columns f = (case obf_columns f of None \<Rightarrow> later_columns | Some columns \<Rightarrow> columns)"

definition upgraded_rows :: "stdlib \<Rightarrow> outbox_file \<Rightarrow> outbox_row list res" where
  "upgraded_rows py f = (let rs = map (add_columns py (the_columns f)) (obd_rows (obf_db f))
     in if obf_user_version f \<ge> 2 then Inr rs else map_res (migrate_ledger py) rs)"

definition the_instances :: "string \<Rightarrow> outbox_file \<Rightarrow> string list" where
  "the_instances token f = (if obf_has_metadata f then obd_instances (obf_db f) else [token])"

lemma read_instance_Inr: "read_instance_id db = Inr i \<longleftrightarrow> obd_instances db = [i] \<and> is_sha256 i"
  by (auto simp: read_instance_id_def validate_instance_id_def split: list.splits)

lemma andthen_modify [simp]: "andthen (modify g) m f = m (g f)"
  by (simp add: andthen_def bind_def)

lemma initialize_Inr:
  "initialize_database py token f = (Inr i, f') \<longleftrightarrow>
     obf_user_version f \<le> schema_version \<and> (obf_has_metadata f \<or> obf_user_version f < schema_version) \<and>
     the_instances token f = [i] \<and> is_sha256 i \<and>
     (\<exists>rs. upgraded_rows py f = Inr rs \<and> distinct (map row_request rs) \<and>
        f' = \<lparr>obf_user_version = schema_version, obf_has_metadata = True, obf_columns = Some (the_columns f \<union> later_columns),
           obf_db = \<lparr>obd_instances = [i], obd_rows = rs\<rparr>\<rparr>)"
proof -
  obtain v m c inst rows where f: "f = \<lparr>obf_user_version = v, obf_has_metadata = m, obf_columns = c, obf_db = \<lparr>obd_instances = inst, obd_rows = rows\<rparr>\<rparr>"
    by (metis (full_types) old.unit.exhaust outbox_db.surjective outbox_file.surjective)
  show ?thesis
    unfolding initialize_database_def transaction_Inr f the_instances_def the_columns_def upgraded_rows_def Let_def
    by (cases c; cases m)
      (auto simp: create_table_def initialize_instance_id_def upgrade_schema_def create_request_index_def set_rows_def read_instance_id_def
        validate_instance_id_def andthen_def bind_def query_def modify_def schema_version_def split: if_splits sum.splits list.splits)
qed

subsection \<open>Opening again\<close>

text \<open>What an upgrade leaves alone: everything but the two checksums, the ledger entry and the lease.\<close>

definition lasting :: "outbox_row \<Rightarrow> outbox_row" where
  "lasting r = r\<lparr>obr_request_json_sha256 := [], obr_ledger_json := None, obr_ledger_sha256 := None, obr_lease_token := None,
     obr_lease_expires_at := None\<rparr>"

lemma lasting_add [simp]: "lasting (add_columns py columns r) = lasting r"
  by (simp add: lasting_def add_columns_def Let_def)

lemma add_all_columns: "later_columns \<subseteq> columns \<Longrightarrow> add_columns py columns = (\<lambda>r. r)"
  by (rule ext) (auto simp: later_columns_def add_columns_def)

lemma add_columns_content [simp]: "obr_state (add_columns py columns r) = obr_state r" "obr_attempt_id (add_columns py columns r) = obr_attempt_id r"
  "obr_ledger_json (add_columns py columns r) = obr_ledger_json r" "obr_ledger_sha256 (add_columns py columns r) = obr_ledger_sha256 r"
  "row_request (add_columns py columns r) = row_request r"
  by (simp_all add: add_columns_def row_request_def Let_def)

lemma lasting_with_attempt: "with_attempt_id py r payload = Inr r' \<Longrightarrow> lasting r' = lasting r"
  by (cases payload) (auto simp: with_attempt_id_def rbind_eq_Inr lasting_def split: if_splits)

lemma lasting_migrate: "migrate_ledger py r = Inr r' \<Longrightarrow> lasting r' = lasting r"
  by (auto simp: migrate_ledger_def rbind_eq_Inr lasting_with_attempt split: if_splits)

lemma lasting_upgraded: "upgraded_rows py f = Inr rs \<Longrightarrow> map lasting rs = map lasting (obd_rows (obf_db f))"
  by (auto simp: upgraded_rows_def Let_def comp_def split: if_splits dest: map_res_map [where h = lasting and k = lasting, OF _ lasting_migrate])

text \<open>The file after an opening is as every later opening leaves it.\<close>

definition current_file :: "string \<Rightarrow> outbox_file \<Rightarrow> bool" where
  "current_file i f \<longleftrightarrow> obf_user_version f = schema_version \<and> obf_has_metadata f \<and> later_columns \<subseteq> the_columns f \<and> obf_columns f \<noteq> None \<and>
     obd_instances (obf_db f) = [i] \<and> is_sha256 i \<and> distinct (map row_request (obd_rows (obf_db f)))"

lemma current_opened: "initialize_database py token f = (Inr i, f') \<Longrightarrow> current_file i f'"
  by (auto simp: initialize_Inr current_file_def the_columns_def)

lemma open_current: "current_file i f \<Longrightarrow> initialize_database py token f = (Inr i, f)"
  by (cases f; cases "obf_db f")
    (auto simp: initialize_Inr current_file_def the_columns_def upgraded_rows_def the_instances_def add_all_columns schema_version_def Let_def comp_def)

lemma connect_current: "current_file i f \<Longrightarrow> connect_database \<lparr>obx_instance_id = i\<rparr> (obf_db f) = (Inr (), obf_db f)"
  by (simp add: connect_database_def current_file_def read_instance_id_def validate_instance_id_def)

lemma open_newer: "obf_user_version f > schema_version \<Longrightarrow> \<exists>e. initialize_database py token f = (Inl e, f)"
  by (simp add: initialize_database_def in_transaction_def)

lemma open_new: "is_sha256 token \<Longrightarrow> initialize_database py token new_file =
    (Inr token, \<lparr>obf_user_version = schema_version, obf_has_metadata = True, obf_columns = Some later_columns, obf_db = fresh_database token\<rparr>)"
  by (simp add: initialize_Inr new_file_def the_instances_def the_columns_def upgraded_rows_def schema_version_def fresh_database_def)

subsection \<open>Ledger entries of prerelease versions\<close>

text \<open>A row as a prerelease version wrote it: the ledger entry without the attempt identity.\<close>

definition without_attempt :: "json \<Rightarrow> json" where
  "without_attempt j = (case j of JObj d \<Rightarrow> JObj (filter (\<lambda>x. fst x \<noteq> ''attempt_id'') d) | _ \<Rightarrow> j)"

definition prerelease_entry :: "stdlib \<Rightarrow> outbox_row \<Rightarrow> ledger_entry \<Rightarrow> bool" where
  "prerelease_entry py r l \<longleftrightarrow> valid_ledger l \<and> lge_attempt_id l = obr_attempt_id r \<and>
     (let text = py_dumps py (without_attempt (ledger_payload l)) in
      obr_ledger_json r = Some text \<and> obr_ledger_sha256 r = Some (py_sha256 py text))"

lemma migrate_prerelease:
  assumes py: "stdlib_ok py" and entry: "prerelease_entry py r l" and "obr_state r = ''completed''"
  obtains r' where "migrate_ledger py r = Inr r'" and "stored_ledger py (obr_attempt_id r) r' = Inr l"
proof -
  let ?item = "(''attempt_id'', JStr (lge_attempt_id l))"
  obtain d where d: "ledger_payload l = JObj (d @ [?item])" and k: "''attempt_id'' \<notin> fst ` set d"
    and old: "without_attempt (ledger_payload l) = JObj d"
    by (rule that [of "butlast (case ledger_payload l of JObj d \<Rightarrow> d)"]) (simp_all add: ledger_payload_def without_attempt_def)
  have l: "valid_ledger l" "lge_attempt_id l = obr_attempt_id r" using entry by (simp_all add: prerelease_entry_def)
  then have a: "obr_attempt_id r \<noteq> []" by (auto simp: valid_ledger_def is_sha256_def)
  have plain: "plain_json (JObj (d @ [?item]))" using ledger_plain [OF l(1)] by (simp only: d)
  then have "plain_json (JObj d)" by simp
  then have load: "load_json py (py_dumps py (JObj d)) label = Inr (JObj (sorted_dict d))" for label
    by (simp only: load_json_def stdlib_okD(2) [OF py] sorted_json_obj) simp
  let ?new = "JObj (sorted_dict d @ [?item])"
  have same: "sorted_json ?new = sorted_json (ledger_payload l)"
    unfolding d sorted_json_obj using plain by (subst sorted_append_item) simp_all
  have new: "plain_json ?new"
  proof -
    have "plain_json (sorted_json (JObj d))" by (rule plain_sorted) (use plain in simp)
    with k show ?thesis unfolding sorted_json_obj by simp
  qed
  let ?r = "r\<lparr>obr_ledger_json := Some (py_dumps py ?new), obr_ledger_sha256 := Some (py_sha256 py (py_dumps py ?new))\<rparr>"
  have "migrate_ledger py r = Inr ?r"
    using entry assms(3) k a l(2) plain_validates [OF new, of "[]"]
    by (simp add: migrate_ledger_def with_attempt_id_def prerelease_entry_def Let_def old checked_payload_def load expect_nonempty_str_def canonical_json_def
        del: validate_json_value.simps)
  moreover have "stored_ledger py (obr_attempt_id r) ?r = Inr l"
    by (simp add: stored_ledger_def checked_payload_def load_json_def stdlib_okD(2) [OF py new] same ledger_back [OF l(1)] del: sorted_json.simps)
  ultimately show ?thesis by (rule that)
qed

subsection \<open>Opening between calls\<close>

text \<open>Every row stands under the attempt identity of its request, and no identity stands twice.\<close>

definition keyed_by_request :: "stdlib \<Rightarrow> outbox_db \<Rightarrow> bool" where
  "keyed_by_request py db \<longleftrightarrow> row_keyed db \<and> list_all (\<lambda>r. obr_attempt_id r =
     attempt_id_from_digest py (obr_provider r) (obr_task_id r) (obr_request_sha256 r)) (obd_rows db)"

lemma keyed_distinct: "keyed_by_request py db \<Longrightarrow> distinct (map row_request (obd_rows db))"
proof -
  assume k: "keyed_by_request py db"
  let ?h = "\<lambda>(p, t, s). attempt_id_from_digest py p t s"
  have e: "map obr_attempt_id (obd_rows db) = map ?h (map row_request (obd_rows db))"
    using k by (auto simp: keyed_by_request_def row_request_def list_all_iff)
  have "distinct (map obr_attempt_id (obd_rows db))" using k by (simp add: keyed_by_request_def row_keyed_def)
  then show ?thesis unfolding e by (auto simp: distinct_map dest: inj_on_imageI2)
qed

lemma keyed_step:
  assumes "keyed_by_request py db" and "outbox_step py c db db'"
  shows "keyed_by_request py db'"
proof -
  have keep: "keyed_by_request py (put_row aid f db)" if "select_claim_row aid db = Some r"
    and "\<And>x. obr_attempt_id (f x) = obr_attempt_id x \<and> row_request (f x) = row_request x" for aid f r
  proof -
    have "list_all (\<lambda>r. obr_attempt_id r = attempt_id_from_digest py (obr_provider r) (obr_task_id r) (obr_request_sha256 r)) (obd_rows (put_row aid f db))"
      using assms(1) that(2) by (intro list_all_put [OF _ _ that(1)])
        (use list_all_select [OF _ that(1)] in \<open>auto simp: keyed_by_request_def row_request_def\<close>)
    then show ?thesis using assms(1) that(2) by (simp add: keyed_by_request_def keyed_put_row)
  qed
  from assms(2) show ?thesis
  proof cases
    case (claimed provider q aid sha rj n)
    then have "obr_attempt_id (new_row py provider q aid sha rj n) = aid" "aid = attempt_id_from_digest py provider (rq_task_id q) sha"
      by (auto simp: new_row_def keys_Inr)
    with assms(1) claimed show ?thesis
      by (auto simp: keyed_by_request_def keyed_add_row) (simp_all add: add_row_def new_row_def)
  qed (auto intro!: keep simp: row_request_def complete_row_def lease_row_def delivered_row_def failed_row_def)
qed

lemma keyed_run: "keyed_by_request py db \<Longrightarrow> outbox_run py ox cs db = (outs, db') \<Longrightarrow> keyed_by_request py db'"
proof (induction cs arbitrary: db outs)
  case (Cons c cs)
  obtain x db1 where p: "perform py ox c db = (x, db1)" by (cases "perform py ox c db")
  have "row_keyed db" using Cons.prems(1) by (simp add: keyed_by_request_def)
  from perform_step [OF this p] have "keyed_by_request py db1" using Cons.prems(1) keyed_step by blast
  moreover obtain xs where "outbox_run py ox cs db1 = (xs, db')"
    using Cons.prems(2) p by (cases "outbox_run py ox cs db1") auto
  ultimately show ?case using Cons.IH by simp
qed simp

text \<open>The request and the identity of a row belong to what lasts.\<close>

definition row_key :: "outbox_row \<Rightarrow> string \<times> string \<times> string \<times> string" where
  "row_key r = (obr_attempt_id r, row_request r)"

lemma row_key_lasting: "row_key (lasting r) = row_key r"
  by (simp add: row_key_def row_request_def lasting_def)

lemma keyed_iff: "keyed_by_request py db \<longleftrightarrow> distinct (map fst (map row_key (obd_rows db))) \<and>
    list_all (\<lambda>(a, p, t, s). a = attempt_id_from_digest py p t s) (map row_key (obd_rows db))"
  by (simp add: keyed_by_request_def row_keyed_def row_key_def row_request_def comp_def list_all_iff case_prod_beta)

lemma keyed_upgraded:
  assumes "keyed_by_request py (obf_db f)" and "upgraded_rows py f = Inr rs"
  shows "keyed_by_request py \<lparr>obd_instances = is1, obd_rows = rs\<rparr>"
proof -
  have "map row_key rs = map row_key (map lasting rs)" by (simp add: comp_def row_key_lasting)
  also have "\<dots> = map row_key (obd_rows (obf_db f))"
    unfolding lasting_upgraded [OF assms(2)] by (simp add: comp_def row_key_lasting)
  finally show ?thesis using assms(1) by (simp only: keyed_iff outbox_db.simps)
qed

lemma open_between:
  assumes "current_file i f" and "keyed_by_request py (obf_db f)" and "outbox_run py ox cs (obf_db f) = (outs, db)"
  shows "current_file i (f\<lparr>obf_db := db\<rparr>)"
proof -
  have "distinct (map row_request (obd_rows db))" using keyed_distinct [OF keyed_run [OF assms(2,3)]] .
  moreover have "obd_instances db = obd_instances (obf_db f)"
    using run_evolves [OF _ assms(3)] assms(2) by (simp add: evolves_def keyed_by_request_def)
  ultimately show ?thesis using assms(1) by (simp add: current_file_def the_columns_def)
qed

lemma prerelease_add [simp]: "prerelease_entry py (add_columns py' columns r) l = prerelease_entry py r l"
  by (simp add: prerelease_entry_def)

lemma upgrade_prerelease:
  assumes py: "stdlib_ok py" and "obf_user_version f < 2"
    and "list_all (\<lambda>r. obr_state r = ''completed'' \<longrightarrow> (\<exists>l. prerelease_entry py r l)) (obd_rows (obf_db f))"
  obtains rs where "upgraded_rows py f = Inr rs" and "list_all2 (\<lambda>r r'. lasting r' = lasting r \<and>
      (\<forall>l. obr_state r = ''completed'' \<and> prerelease_entry py r l \<longrightarrow> stored_ledger py (obr_attempt_id r) r' = Inr l)) (obd_rows (obf_db f)) rs"
proof -
  let ?add = "add_columns py (the_columns f)"
  have "\<exists>r'. migrate_ledger py (?add r) = Inr r'" if "r \<in> set (obd_rows (obf_db f))" for r
  proof (cases "obr_state r = ''completed''")
    case True
    with assms(3) that obtain l where "prerelease_entry py (?add r) l" by (auto simp: list_all_iff)
    from migrate_prerelease [OF py this] True show ?thesis by auto
  qed (simp add: migrate_ledger_def)
  then have "\<forall>r \<in> set (map ?add (obd_rows (obf_db f))). \<exists>r'. migrate_ledger py r = Inr r'" by auto
  from map_res_total [OF this] obtain rs where rs: "map_res (migrate_ledger py) (map ?add (obd_rows (obf_db f))) = Inr rs" by blast
  show ?thesis
  proof (rule that)
    show "upgraded_rows py f = Inr rs" using rs assms(2) by (simp add: upgraded_rows_def)
    have "list_all2 (\<lambda>r r'. migrate_ledger py (?add r) = Inr r') (obd_rows (obf_db f)) rs"
      using map_res_Inr [OF rs] by (simp add: list_all2_map1)
    then show "list_all2 (\<lambda>r r'. lasting r' = lasting r \<and>
      (\<forall>l. obr_state r = ''completed'' \<and> prerelease_entry py r l \<longrightarrow> stored_ledger py (obr_attempt_id r) r' = Inr l)) (obd_rows (obf_db f)) rs"
    proof (rule list_all2_mono)
      fix r r' assume m: "migrate_ledger py (?add r) = Inr r'"
      have "stored_ledger py (obr_attempt_id r) r' = Inr l" if "obr_state r = ''completed''" "prerelease_entry py r l" for l
        by (rule migrate_prerelease [OF py, of "?add r" l]) (use that m in auto)
      with lasting_migrate [OF m] show "lasting r' = lasting r \<and>
        (\<forall>l. obr_state r = ''completed'' \<and> prerelease_entry py r l \<longrightarrow> stored_ledger py (obr_attempt_id r) r' = Inr l)" by simp
    qed
  qed
qed

end
