(* ===== verification/Outbox_Open_Claims.thy ===== *)
theory Outbox_Open_Claims
  imports Outbox_Open Outbox_Example
begin

text \<open>Opening the outbox: what it promises to processes that open the same file, and to a file of an older version.\<close>

text \<open>
  C19. Opening an outbox is stable: after one process has opened a file and any calls were made on it, another process
  that opens it gets the same instance identity and changes nothing, and both stay connected; and the first opening,
  an upgrade included, keeps everything of every row but its checksums, its lease and the text of its ledger entry.
\<close>

theorem opening_is_stable:
  assumes "initialize_database py token f = (Inr i, f')" and "keyed_by_request py (obf_db f)"
    and "outbox_run py \<lparr>obx_instance_id = i\<rparr> cs (obf_db f') = (outs, db)"
  shows "connect_database \<lparr>obx_instance_id = i\<rparr> db = (Inr (), db) \<and>
    initialize_database py' token' (f'\<lparr>obf_db := db\<rparr>) = (Inr i, f'\<lparr>obf_db := db\<rparr>) \<and>
    map lasting (obd_rows (obf_db f')) = map lasting (obd_rows (obf_db f))"
proof -
  obtain rs where rs: "upgraded_rows py f = Inr rs" and f': "obf_db f' = \<lparr>obd_instances = [i], obd_rows = rs\<rparr>"
    using assms(1) by (auto simp: initialize_Inr)
  have "keyed_by_request py (obf_db f')" unfolding f' by (rule keyed_upgraded [OF assms(2) rs])
  from open_between [OF current_opened [OF assms(1)] this assms(3)]
  have c: "current_file i (f'\<lparr>obf_db := db\<rparr>)" .
  show ?thesis
    using connect_current [OF c] open_current [OF c] lasting_upgraded [OF rs] f' by simp
qed

lemma opening_is_stable_witness:
  "\<exists>f1 db. initialize_database demo_py demo_instance new_file = (Inr demo_instance, f1) \<and>
    db = snd (outbox_run demo_py demo_outbox [Claim ''prime'' demo_remote_request 0] (obf_db f1)) \<and>
    initialize_database demo_py ''other'' (f1\<lparr>obf_db := db\<rparr>) = (Inr demo_instance, f1\<lparr>obf_db := db\<rparr>)"
proof -
  obtain f1 where f1: "initialize_database demo_py demo_instance new_file = (Inr demo_instance, f1)"
    using open_new [OF demo_instance_ok] by blast
  obtain outs db where run: "outbox_run demo_py demo_outbox [Claim ''prime'' demo_remote_request 0] (obf_db f1) = (outs, db)"
    by (cases "outbox_run demo_py demo_outbox [Claim ''prime'' demo_remote_request 0] (obf_db f1)")
  have "keyed_by_request demo_py (obf_db new_file)" by (simp add: keyed_by_request_def new_file_def row_keyed_def)
  from opening_is_stable [OF f1 this run [unfolded demo_outbox_def], of demo_py "''other''"] f1 run
  show ?thesis by (intro exI [of _ f1] exI [of _ db]) (simp add: demo_outbox_def)
qed

text \<open>
  C39. A database of a prerelease version is upgraded without loss: it gets an identity, every row is kept, and the
  ledger entry of every completed evaluation, which was stored without its attempt identity, is read as the complete entry.
\<close>

theorem prerelease_upgraded:
  assumes "stdlib_ok py" and "obf_user_version f < 2" and "\<not> obf_has_metadata f" and "is_sha256 token"
    and "keyed_by_request py (obf_db f)"
    and "list_all (\<lambda>r. obr_state r = ''completed'' \<longrightarrow> (\<exists>l. prerelease_entry py r l)) (obd_rows (obf_db f))"
  shows "\<exists>f'. initialize_database py token f = (Inr token, f') \<and>
    list_all2 (\<lambda>r r'. lasting r' = lasting r \<and>
      (\<forall>l. obr_state r = ''completed'' \<and> prerelease_entry py r l \<longrightarrow> stored_ledger py (obr_attempt_id r) r' = Inr l))
      (obd_rows (obf_db f)) (obd_rows (obf_db f'))"
proof (rule upgrade_prerelease [OF assms(1,2,6)])
  fix rs
  assume rs: "upgraded_rows py f = Inr rs" and all: "list_all2 (\<lambda>r r'. lasting r' = lasting r \<and>
      (\<forall>l. obr_state r = ''completed'' \<and> prerelease_entry py r l \<longrightarrow> stored_ledger py (obr_attempt_id r) r' = Inr l)) (obd_rows (obf_db f)) rs"
  have "distinct (map row_request rs)" using keyed_distinct [OF keyed_upgraded [OF assms(5) rs]] by simp
  then show ?thesis
    using rs all assms(2-4) by (auto simp: initialize_Inr the_instances_def schema_version_def)
qed

text \<open>A completed row of the first version, with the ledger entry as that version wrote it.\<close>

definition demo_old_row :: outbox_row where
  "demo_old_row = (let l = py_dumps demo_py (without_attempt (ledger_payload (to_ledger_entry (demo_result ''a'') demo_aid))) in
     (new_row demo_py ''prime'' demo_remote_request demo_aid (request_sha256 demo_py demo_remote_request) ''{}'' 0)
       \<lparr>obr_state := ''completed'', obr_ledger_json := Some l, obr_ledger_sha256 := Some (py_sha256 demo_py l)\<rparr>)"

lemma demo_old_entry: "prerelease_entry demo_py demo_old_row (to_ledger_entry (demo_result ''a'') demo_aid)"
proof -
  have "is_sha256 demo_aid" by (simp add: demo_aid_def attempt_id_from_digest_def stdlib_okD(1) [OF demo_py_ok])
  from valid_to_ledger_entry [OF demo_result_valid this] show ?thesis
    by (simp add: prerelease_entry_def demo_old_row_def new_row_def to_ledger_entry_def Let_def)
qed

lemma prerelease_upgraded_witness:
  "\<exists>f' r'. initialize_database demo_py demo_instance \<lparr>obf_user_version = 1, obf_has_metadata = False, obf_columns = Some {},
      obf_db = \<lparr>obd_instances = [], obd_rows = [demo_old_row]\<rparr>\<rparr> = (Inr demo_instance, f') \<and> obd_rows (obf_db f') = [r'] \<and>
    stored_ledger demo_py demo_aid r' = Inr (to_ledger_entry (demo_result ''a'') demo_aid)"
proof -
  let ?f = "\<lparr>obf_user_version = 1, obf_has_metadata = False, obf_columns = Some {}, obf_db = \<lparr>obd_instances = [], obd_rows = [demo_old_row]\<rparr>\<rparr>"
  have r: "obr_state demo_old_row = ''completed''" "obr_attempt_id demo_old_row = demo_aid"
    by (simp_all add: demo_old_row_def new_row_def Let_def)
  have k: "keyed_by_request demo_py (obf_db ?f)"
    by (simp add: keyed_by_request_def row_keyed_def demo_old_row_def new_row_def Let_def) (simp add: demo_aid_def demo_remote_request_def)
  have "list_all (\<lambda>r. obr_state r = ''completed'' \<longrightarrow> (\<exists>l. prerelease_entry demo_py r l)) (obd_rows (obf_db ?f))"
    using demo_old_entry by auto
  from prerelease_upgraded [OF demo_py_ok _ _ demo_instance_ok k this]
  show ?thesis using demo_old_entry r by (auto simp: list_all2_Cons1)
qed

end
