(* ===== verification/Spec2Isabelle.thy ===== *)
theory Spec2Isabelle
  imports Session_Claims Supervisor_Claims Coordinator_Claims RemoteBridge_Claims Mission_Claims Mission_Control_Claims
    Sched_Safety_Claims Sched_Log_Claims Sched_Records_Claims Sched_Execute_Claims Role_Claims Versioned_Store_Claims Pareto Outbox_Claims Outbox_Open_Claims
begin

text \<open>
  A verification of the control plane of autocontext: the Python package under
  \<^verbatim>\<open>src/autocontext/src/autocontext/\<close>. File names below are relative to that directory.

  \<^bold>\<open>The program and its parts.\<close> Six groups of components are modelled. They share the prelude and the
  interfaces of \<open>Transition\<close>; within a group the components call one another as described.

  \<^item> Sessions. A session (\<^verbatim>\<open>session/types.py\<close>, \<open>Session\<close>) is a tree of turns with branches and an event
    log. The supervisor (\<^verbatim>\<open>session/supervisor.py\<close>, \<open>Supervisor\<close>) keeps the registry of running
    sessions, the coordinator (\<^verbatim>\<open>session/coordinator.py\<close>, \<open>Coordinator\<close>) the workers of one, and
    the remote bridge (\<^verbatim>\<open>session/remote_bridge.py\<close>, \<open>RemoteBridge\<close>) the operators and their approvals.
  \<^item> Missions. Data and transition table (\<^verbatim>\<open>mission/types.py\<close>, \<^verbatim>\<open>lifecycle.py\<close>,
    \<^verbatim>\<open>verification.py\<close>: \<open>Mission_Types\<close>), the SQLite store (\<^verbatim>\<open>mission/store.py\<close>: \<open>Mission_Store\<close>),
    the manager and its events (\<^verbatim>\<open>mission/manager.py\<close>, \<^verbatim>\<open>events.py\<close>: \<open>Mission_Manager\<close>), the
    step loop (\<^verbatim>\<open>mission/executor.py\<close>: \<open>Mission_Run\<close>), verifiers and control plane
    (\<^verbatim>\<open>mission/verifiers.py\<close>, \<^verbatim>\<open>control_plane.py\<close>: \<open>Mission_Control\<close>), checkpoints
    (\<^verbatim>\<open>mission/checkpoint.py\<close>: \<open>Mission_Checkpoint\<close>) and the planner (\<^verbatim>\<open>mission/planner.py\<close>:
    \<open>Mission_Planner\<close>). The loop calls the executor and the manager, the manager calls verifiers and the store.
  \<^item> Campaign scheduler (\<^verbatim>\<open>execution/campaign_scheduler*.py\<close>). Values (\<open>Sched_Types\<close>), state and the
    reducer of its seventeen events (\<open>Sched_State\<close>), operations that append events (\<open>Sched_Ops\<close>), leases, dispatch
    waves and reports (\<open>Sched_Dispatch\<close>), the execution of a wave (\<open>Sched_Execute\<close>), the log file
    (\<open>Sched_Log\<close>), the JSON of its records (\<open>Sched_Codec\<close>, \<open>Sched_Records\<close>, from \<^verbatim>\<open>campaign_scheduler_codecs.py\<close>) and the
    canonical JSON under its checksums (\<^verbatim>\<open>context_bundles/models.py\<close>: \<open>Canonical_Json\<close>). Several processes share one log; a process acts on what it has replayed.
  \<^item> Role pipeline (\<^verbatim>\<open>harness/orchestration/\<close>, \<^verbatim>\<open>agents/architect.py\<close>, \<^verbatim>\<open>orchestrator.py\<close>,
    \<^verbatim>\<open>pipeline_adapter.py\<close>, \<^verbatim>\<open>execution_policy.py\<close>). The graph, its batches and its edits
    (\<open>Role_Dag\<close>), and the engine that runs roles as their dependencies complete (\<open>Role_Engine\<close>).
  \<^item> External evaluations (\<^verbatim>\<open>execution/remote_execution.py\<close>, \<^verbatim>\<open>_remote_execution_*.py\<close>,
    \<^verbatim>\<open>external_eval_outbox.py\<close>, \<^verbatim>\<open>_external_eval_outbox_*.py\<close>). Requests and results with
    the checks of their constructors (\<open>Remote_Types\<close>), request identity (\<open>Remote_Identity\<close>), the
    payload codec (\<open>Outbox_Codec\<close>, \<open>Outbox_Decode\<close>), prerelease identities (\<open>Outbox_Legacy\<close>), the table
    (\<open>Outbox\<close>), the operations of the journal (\<open>Outbox_Ops\<close>) and the opening of its file (\<open>Outbox_Open\<close>).
  \<^item> Small stores: the versioned file store (\<^verbatim>\<open>harness/storage/versioned_store.py\<close>: \<open>Versioned_Store\<close>) and
    the Pareto optimizer (\<^verbatim>\<open>harness/optimizer/pareto.py\<close>: \<open>Pareto\<close>).

  \<^bold>\<open>How the model corresponds to the code.\<close> A class is a record, an enum a datatype or its strings, a method a
  definition of (nearly) the same name. Exceptions are values of \<open>exc\<close>; a pure function that may raise returns \<open>'a res\<close>,
  the sum of the two. A method that changes state is an operation \<open>('s, 'a) op\<close> (\<open>Effects\<close>): it returns a result or an
  exception and, in either case, the state it leaves behind, because what was written before a raise stays written. Only the
  transactions of SQLite (\<open>transaction\<close> in \<open>Mission_Checkpoint\<close>, \<open>in_transaction\<close> in \<open>Outbox\<close>) undo it. Clocks, random identifiers,
  language models, verifiers, subprocesses and thread pools are parameters or streams of the environment.
  Python's integers are \<open>int\<close>; the scheduler's doubles are a type parameter \<open>'f\<close> with order and arithmetic, so nothing
  is claimed of their rounding; the doubles of JSON are rational numbers, with infinities and
  not-a-number as values of their own. Dicts are association lists in insertion order.

  \<^bold>\<open>What the lemmas show.\<close>

  \<^item> \<open>Transition\<close> holds the interfaces: a transition system with an inductive invariant (\<open>invariant_system\<close>), a life
    cycle with absorbing states (\<open>lifecycle\<close>), an aggregate that its event log determines (\<open>event_sourced\<close>). Sessions,
    supervisor, coordinator, bridge, engine, scheduler and outbox interpret them. \<open>Mission_Contracts\<close> has the contract between the
    store and what is above it (\<open>store_frame\<close>, \<open>store_invariant\<close>), interpreted for readability, completed missions and
    the step budget. \<open>Outbox_Roundtrip\<close> has the contract of a codec (\<open>stored_value\<close>), and \<open>Pareto\<close> the one of a dominance relation.
  \<^item> \<open>Session_Props\<close>, \<open>Mission_Store_Props\<close>, \<open>Mission_Run_Props\<close>, \<open>Role_Dag_Props\<close>, \<open>Role_Engine_Props\<close>: the invariants and their
    preservation by each operation; \<open>Mission_Budget\<close> and \<open>Mission_Loop\<close>: bounds and progress of the step loop.
  \<^item> \<open>Sched_Machine\<close> abstracts the scheduler to guarded events and \<open>Sched_Runs\<close>, \<open>Sched_Operations\<close> show that every operation is a path of
    them; \<open>Sched_Preserve\<close>, \<open>Sched_Ledger\<close>, \<open>Sched_Jobs\<close>, \<open>Sched_Trace\<close> prove on the machine what the log-level
    properties need; \<open>Sched_System\<close> lifts it to a cluster of processes.
  \<^item> \<open>Json_Order\<close>, \<open>Sched_Records_Props\<close>, \<open>Outbox_Roundtrip\<close>, \<open>Outbox_Requests\<close>: what was written is read back. \<open>Outbox_Steps\<close>: every call changes
    nothing or takes one step; \<open>Outbox_History\<close>: what steps keep; \<open>Outbox_Intact\<close>: every row stays readable;
    \<open>Outbox_Life\<close>: the branches of each operation in one attempt.
  \<^item> The theories named \<open>_Claims\<close> state the properties, with concrete inputs that satisfy their hypotheses.

  \<^bold>\<open>Loops, bounds and fuel.\<close> Loops over data are structural. The engine loop of \<open>Role_Engine\<close> has as fuel the number of roles: each
  round resolves at least one, so it is never exhausted (\<open>pipeline_completes\<close>). Kahn's algorithm terminates because each batch
  removes roles. \<open>path_loop\<close> of \<open>Session\<close>, which follows parents, is a \<open>partial_function\<close>: it returns for reachable sessions and does
  not on a cyclic lineage, and both are proved. The mission loop is bounded by its \<open>max_iterations\<close>, as in the code.

  \<^bold>\<open>Hypotheses.\<close> An operation of a process on the log or on SQLite is atomic, which the file lock and \<open>BEGIN IMMEDIATE\<close> provide, so
  concurrent processes are interleaved sequences of operations. Fresh identifiers (\<open>ids_fresh\<close>, \<open>fresh_leases\<close>) differ from those in use.
  \<open>stdlib_ok\<close> is what the outbox relies on of the standard library: a digest has 64 hexadecimal digits, JSON text written with sorted
  keys is read back with its keys sorted, base64 is decoded to what was encoded. Nothing assumes that digests do not collide,
  except where a hypothesis (\<open>no_alias\<close>) names the absence of another row of the task. \<open>codec_lib_ok\<close> is the law of the same kind for the
  event log: a line of JSON has no newline inside and is read back with its keys sorted, and a part of it is not JSON. The general
  properties of the log file hold for any \<open>log_codec\<close> that satisfies \<open>codec_faithful\<close>, which the scheduler's own satisfies
  (\<open>sched_codec_faithful\<close>). The choice of the futures that complete in a round is the parameter \<open>pick\<close>.

  \<^bold>\<open>Calls around the interfaces.\<close> Some objects are shared with their callers. \<open>coord_call D\<close> and \<open>bridge_call D\<close> allow a caller to
  use the methods of the \<open>Worker\<close> and \<open>ApprovalRequest\<close> objects that it holds, for those with an identifier in \<open>D\<close>, and the
  properties say what then still follows from the log and of the decisions. The result and the parent of a worker are not in the
  coordinator's log. Listeners of mission events observe and may raise, but do not call the manager back. What a worker of a
  dispatch wave raises is either an \<open>Exception\<close>, which becomes a charged failure, or a \<open>BaseException\<close>, which ends the wave.

  \<^bold>\<open>Where numbers and values are idealised.\<close> The sum of the resources in use is taken in one order, where the code iterates a set;
  lease ends of the outbox are exact sums, where the code adds doubles; Python tuples inside metadata and payloads are lists.

  \<^bold>\<open>What modelling showed.\<close> A planner reply with an infinite priority escapes as \<open>OverflowError\<close>; a checkpoint with an unknown status is
  committed and makes the mission unreadable; \<open>fan_out\<close> registers workers before it has checked all tasks; \<open>respond\<close> looks only
  at an operator's first session; \<open>branch_path\<close> does not end on a cyclic lineage; the versioned store overwrites its newest archive
  once pruning has begun; a role that names a dependency twice is taken for a cycle; and a dependency that is not hashable escapes
  from \<open>apply_dag_changes\<close>. Each of them is a lemma or part of a property.

  \<^bold>\<open>Not modelled.\<close> The generation loop (\<^verbatim>\<open>loop/\<close>), agents, providers, runtimes and scenarios are mostly calls of
  language models, prompts and files, with little logic of their own between them. Artifact storage, servers, the command line and
  integrations are input and output. Analytics and knowledge compute statistics on doubles and process text. The scheduler's wiring
  and adapters construct objects and call providers; its threads and polling loops are replaced by the
  operations they call. Of remote execution the provider capabilities, the parsing of a provider's output and the adapters are
  left out. File handles, the write-ahead log, permissions and closing are the operating system. Type checks of the constructors
  (\<open>isinstance\<close>) are the types of the model.
\<close>

end
